(* ===== verification/Prelude.thy ===== *)
theory Prelude
  imports Complex_Main "HOL-Library.AList" "HOL-Library.Sublist"
begin

text \<open>
  Shared ground of the development: Python's strings, dictionaries, lists and clocks as the
  source uses them, and the generic lemmas the components share.

  \<^item> A Python \<^verbatim>\<open>str\<close> is a HOL \<^typ>\<open>string\<close>; a \<^typ>\<open>char\<close> stands for the code
    point of the same number, so the model covers the strings over the code points 0 to 255
    (Latin-1), and the character classes below are those of \<^verbatim>\<open>str.strip\<close>,
    \<^verbatim>\<open>str.lower\<close>, \<^verbatim>\<open>str.isdigit\<close> and \<^verbatim>\<open>int\<close> on that range.
  \<^item> A Python \<^verbatim>\<open>dict\<close> is an association list in insertion order: \<open>AList.update\<close> keeps the
    position of a present key and appends a new one, as \<^verbatim>\<open>d[k] = v\<close> does, and
    \<open>AList.delete\<close> is \<^verbatim>\<open>d.pop(k, None)\<close>.
  \<^item> \<^verbatim>\<open>time.time()\<close> and \<^verbatim>\<open>time.monotonic()\<close> are real numbers of seconds; a
    \<^verbatim>\<open>datetime\<close> is an integer number of microseconds since the epoch (its exact
    resolution), all in UTC, so that the source's naive-to-UTC repairs are the identity.
\<close>

named_theorems py_defs "definitions of the Python string layer"

section \<open>Clocks\<close>

type_synonym seconds = real
type_synonym usec = int

section \<open>Strings\<close>

definition code :: "char \<Rightarrow> nat" where
  "code c = of_char c"

text \<open>\<^verbatim>\<open>str.isspace\<close> on Latin-1: what \<^verbatim>\<open>strip()\<close> removes.\<close>

definition py_space :: "char \<Rightarrow> bool" where
  "py_space c \<longleftrightarrow> (let n = code c in 9 \<le> n \<and> n \<le> 13 \<or> 28 \<le> n \<and> n \<le> 32 \<or> n = 133 \<or> n = 160)"

definition py_lstrip :: "string \<Rightarrow> string" where
  "py_lstrip s = dropWhile py_space s"

definition py_strip :: "string \<Rightarrow> string" where
  "py_strip s = rev (dropWhile py_space (rev (dropWhile py_space s)))"

definition py_lower_char :: "char \<Rightarrow> char" where
  "py_lower_char c =
     (let n = code c in
      if 65 \<le> n \<and> n \<le> 90 \<or> 192 \<le> n \<and> n \<le> 222 \<and> n \<noteq> 215 then char_of (n + 32) else c)"

definition py_lower :: "string \<Rightarrow> string" where
  "py_lower s = map py_lower_char s"

definition ascii_digit :: "char \<Rightarrow> bool" where
  "ascii_digit c \<longleftrightarrow> 48 \<le> code c \<and> code c \<le> 57"

text \<open>
  \<^verbatim>\<open>str.isdigit\<close> is true of the superscripts two, three and one (178, 179, 185), which
  \<^verbatim>\<open>int\<close> does not accept.
\<close>

definition py_isdigit_char :: "char \<Rightarrow> bool" where
  "py_isdigit_char c \<longleftrightarrow> ascii_digit c \<or> code c \<in> {178, 179, 185}"

definition py_isdigit :: "string \<Rightarrow> bool" where
  "py_isdigit s \<longleftrightarrow> s \<noteq> [] \<and> list_all py_isdigit_char s"

fun digits_value :: "nat \<Rightarrow> string \<Rightarrow> nat" where
  "digits_value acc [] = acc"
| "digits_value acc (c # cs) = digits_value (10 * acc + (code c - 48)) cs"

text \<open>
  The digits of an \<^verbatim>\<open>int\<close> literal: ASCII digits, single underscores between digits.
  The flag says whether the previous character was a digit.
\<close>

fun int_digits :: "bool \<Rightarrow> string \<Rightarrow> string option" where
  "int_digits prev [] = (if prev then Some [] else None)"
| "int_digits prev (c # cs) =
     (if ascii_digit c then map_option ((#) c) (int_digits True cs)
      else if c = CHR ''_'' \<and> prev then int_digits False cs
      else None)"

text \<open>
  \<^verbatim>\<open>int(s)\<close> on a string: surrounding white space and one sign are accepted, more than
  4300 digits are refused (the interpreter's default limit); \<^term>\<open>None\<close> is
  \<^verbatim>\<open>ValueError\<close>.
\<close>

definition py_int :: "string \<Rightarrow> int option" where
  "py_int s =
     (let t = py_strip s;
          neg = (t \<noteq> [] \<and> hd t = CHR ''-'');
          body = (if t \<noteq> [] \<and> (hd t = CHR ''-'' \<or> hd t = CHR ''+'') then tl t else t)
      in case int_digits False body of
           None \<Rightarrow> None
         | Some ds \<Rightarrow>
             if length ds > 4300 then None
             else Some (if neg then - int (digits_value 0 ds) else int (digits_value 0 ds)))"

definition startswith :: "string \<Rightarrow> string \<Rightarrow> bool" where
  "startswith s p \<longleftrightarrow> take (length p) s = p"

definition startswith_any :: "string \<Rightarrow> string list \<Rightarrow> bool" where
  "startswith_any s ps \<longleftrightarrow> list_ex (startswith s) ps"

text \<open>\<^verbatim>\<open>s.split(c)\<close> for a one-character separator: never empty, \<open>n\<close> separators give
  \<open>n + 1\<close> parts.\<close>

fun py_split :: "char \<Rightarrow> string \<Rightarrow> string list" where
  "py_split c [] = [[]]"
| "py_split c (x # xs) =
     (if x = c then [] # py_split c xs
      else (case py_split c xs of [] \<Rightarrow> [[x]] | p # ps \<Rightarrow> (x # p) # ps))"

fun py_join :: "string \<Rightarrow> string list \<Rightarrow> string" where
  "py_join sep [] = []"
| "py_join sep [x] = x"
| "py_join sep (x # y # ys) = x @ sep @ py_join sep (y # ys)"

text \<open>\<^verbatim>\<open>str(n)\<close> for an integer.\<close>

fun nat_digits :: "nat \<Rightarrow> string" where
  "nat_digits n =
     (if n < 10 then [char_of (48 + n)] else nat_digits (n div 10) @ [char_of (48 + n mod 10)])"

definition py_str_int :: "int \<Rightarrow> string" where
  "py_str_int i = (if i < 0 then CHR ''-'' # nat_digits (nat (- i)) else nat_digits (nat i))"

declare nat_digits.simps [simp del]

text \<open>Python's \<open>x or y\<close> on strings and optional strings.\<close>

definition str_or :: "string \<Rightarrow> string \<Rightarrow> string" where
  "str_or s t = (if s = [] then t else s)"

definition opt_str :: "string option \<Rightarrow> string" where
  "opt_str s = (case s of None \<Rightarrow> [] | Some t \<Rightarrow> t)"

section \<open>Rows of a table\<close>

text \<open>
  A database table is the list of its rows in primary-key order; \<open>first_row\<close> is
  \<^verbatim>\<open>query.filter(...).first()\<close> and \<open>update_rows\<close> the in-place assignment to the rows
  that satisfy a condition.
\<close>

definition first_row :: "('a \<Rightarrow> bool) \<Rightarrow> 'a list \<Rightarrow> 'a option" where
  "first_row P rows = find P rows"

definition update_rows :: "('a \<Rightarrow> bool) \<Rightarrow> ('a \<Rightarrow> 'a) \<Rightarrow> 'a list \<Rightarrow> 'a list" where
  "update_rows P f rows = map (\<lambda>r. if P r then f r else r) rows"

text \<open>The key an \<^verbatim>\<open>INTEGER PRIMARY KEY\<close> column gives the next row.\<close>

definition next_id :: "('a \<Rightarrow> int) \<Rightarrow> 'a list \<Rightarrow> int" where
  "next_id key rows = foldr (\<lambda>r m. max (key r) m) rows 0 + 1"

section \<open>Code that may raise\<close>

text \<open>
  A statement is a function from a state to an exception or a result, and the new state: what was
  done before a raise stays done. \<open>rcatch\<close> is \<^verbatim>\<open>try ... except\<close> for the exceptions the handler is
  defined on.
\<close>

type_synonym ('e, 's, 'a) run = "'s \<Rightarrow> ('e + 'a) \<times> 's"

definition rreturn :: "'a \<Rightarrow> ('e, 's, 'a) run" where "rreturn x f = (Inr x, f)"

definition rbind :: "('e, 's, 'a) run \<Rightarrow> ('a \<Rightarrow> ('e, 's, 'b) run) \<Rightarrow> ('e, 's, 'b) run" where
  "rbind m k f = (case m f of (Inl e, f') \<Rightarrow> (Inl e, f') | (Inr x, f') \<Rightarrow> k x f')"

definition rraise :: "'e \<Rightarrow> ('e, 's, 'a) run" where "rraise e f = (Inl e, f)"

definition rcatch :: "('e, 's, 'a) run \<Rightarrow> ('e \<Rightarrow> ('e, 's, 'a) run option) \<Rightarrow> ('e, 's, 'a) run" where
  "rcatch m h f = (case m f of
     (Inl e, f') \<Rightarrow> (case h e of None \<Rightarrow> (Inl e, f') | Some k \<Rightarrow> k f')
   | (Inr x, f') \<Rightarrow> (Inr x, f'))"

section \<open>Generic lemmas\<close>

lemma first_row_Some:
  "first_row P rows = Some r \<Longrightarrow> r \<in> set rows \<and> P r"
  by (auto simp: first_row_def find_Some_iff)

lemma first_row_None:
  "first_row P rows = None \<longleftrightarrow> (\<forall>r \<in> set rows. \<not> P r)"
  by (auto simp: first_row_def find_None_iff)

lemma first_row_Nil [simp]: "first_row P [] = None"
  by (simp add: first_row_def)

lemma first_row_Cons [simp]:
  "first_row P (r # rows) = (if P r then Some r else first_row P rows)"
  by (simp add: first_row_def)

lemma find_append: "find P (xs @ ys) = (case find P xs of None \<Rightarrow> find P ys | Some x \<Rightarrow> Some x)"
  by (induction xs) auto

lemma first_row_update_rows:
  assumes "\<And>r. P (if Q r then f r else r) = P r"
  shows "first_row P (update_rows Q f rows) =
         map_option (\<lambda>r. if Q r then f r else r) (first_row P rows)"
  using assms by (induction rows) (auto simp: update_rows_def)

lemma length_update_rows [simp]: "length (update_rows P f rows) = length rows"
  by (simp add: update_rows_def)

lemma set_update_rows:
  "set (update_rows P f rows) = (\<lambda>r. if P r then f r else r) ` set rows"
  by (simp add: update_rows_def)

lemma update_rows_Nil [simp]: "update_rows P f [] = []"
  by (simp add: update_rows_def)

lemma update_rows_Cons [simp]:
  "update_rows P f (r # rows) = (if P r then f r else r) # update_rows P f rows"
  by (simp add: update_rows_def)

lemma next_id_greater: "r \<in> set rows \<Longrightarrow> key r < next_id key rows"
  by (induction rows) (auto simp: next_id_def)

lemma next_id_fresh: "next_id key rows \<notin> key ` set rows"
  by (metis imageE next_id_greater order_less_irrefl)

lemma startswith_iff_prefix: "startswith s p \<longleftrightarrow> prefix p s"
  by (auto simp: startswith_def prefix_def) (metis append_take_drop_id)

lemma startswith_append [simp]: "startswith (p @ q) p"
  by (simp add: startswith_def)

lemma py_split_nonempty [simp]: "py_split c s \<noteq> []"
  by (induction s) (auto split: list.splits)

lemma py_join_Cons_char: "py_join sep ((x # p) # ps) = x # py_join sep (p # ps)"
  by (cases ps) auto

lemma py_join_split: "py_join [c] (py_split c s) = s"
proof (induction s)
  case Nil
  then show ?case by simp
next
  case (Cons x xs)
  then show ?case
    by (cases "py_split c xs") (auto simp: neq_Nil_conv py_join_Cons_char split: list.splits)
qed

lemma map_of_AList_delete:
  "map_of (AList.delete k al) k' = (if k = k' then None else map_of al k')"
  by (simp add: delete_conv)

lemma map_of_AList_update:
  "map_of (AList.update k v al) k' = (if k = k' then Some v else map_of al k')"
  by (simp add: update_conv')

lemma length_AList_delete_le: "length (AList.delete k al) \<le> length al"
  by (simp add: AList.delete_eq)

lemma length_AList_update_le: "length (AList.update k v al) \<le> Suc (length al)"
  by (induction al) auto

lemma set_AList_update: "set (AList.update k v al) \<subseteq> insert (k, v) (set al)"
  by (induction al) auto

lemma in_AList_update: "x \<in> set (AList.update k v al) \<Longrightarrow> x = (k, v) \<or> x \<in> set al"
  by (induction al) (auto split: if_splits)

lemma length_AList_update_mem: "k \<in> fst ` set al \<Longrightarrow> length (AList.update k v al) = length al"
  by (induction al) auto

lemma in_AList_delete: "x \<in> set (AList.delete k al) \<Longrightarrow> x \<in> set al"
  by (simp add: AList.delete_eq)

lemmas dict_simps = map_of_AList_delete map_of_AList_update

section \<open>Printing and reading integers\<close>

lemma code_digit [simp]: "k < 10 \<Longrightarrow> code (char_of (48 + k)) = 48 + k"
  by (simp add: code_def)

lemma nat_digits_digits: "list_all ascii_digit (nat_digits n)"
proof (induction n rule: nat_digits.induct)
  case (1 n)
  have d: "k < 10 \<Longrightarrow> ascii_digit (char_of (48 + k))" for k :: nat
    by (simp add: ascii_digit_def)
  show ?case
    using 1 d[of n] d[of "n mod 10"] by (subst nat_digits.simps) simp
qed

lemma nat_digits_nonempty [simp]: "nat_digits n \<noteq> []"
  by (subst nat_digits.simps) simp

lemma digits_value_append:
  "digits_value acc (xs @ ys) = digits_value (digits_value acc xs) ys"
  by (induction xs arbitrary: acc) auto

lemma digits_value_nat_digits: "digits_value 0 (nat_digits n) = n"
proof (induction n rule: nat_digits.induct)
  case (1 n)
  then show ?case
    by (subst nat_digits.simps) (simp add: digits_value_append)
qed

lemma length_nat_digits: "n < 10 ^ Suc k \<Longrightarrow> length (nat_digits n) \<le> Suc k"
proof (induction k arbitrary: n)
  case 0
  then show ?case by (subst nat_digits.simps) simp
next
  case (Suc k)
  then have "n div 10 < 10 ^ Suc k" by (simp add: less_mult_imp_div_less)
  then show ?case using Suc.IH by (subst nat_digits.simps) simp
qed

lemma int_digits_digits: "list_all ascii_digit ds \<Longrightarrow> ds \<noteq> [] \<or> p \<Longrightarrow> int_digits p ds = Some ds"
  by (induction ds arbitrary: p) auto

lemma digit_not_space: "ascii_digit c \<Longrightarrow> \<not> py_space c"
  by (auto simp: ascii_digit_def py_space_def Let_def)

lemma py_strip_id:
  assumes "s \<noteq> []" "\<not> py_space (hd s)" "\<not> py_space (last s)"
  shows "py_strip s = s"
proof -
  have "dropWhile py_space s = s" using assms by (cases s) auto
  moreover have "dropWhile py_space (rev s) = rev s"
    using assms by (cases s rule: rev_cases) auto
  ultimately show ?thesis by (simp add: py_strip_def)
qed

lemma py_strip_idem: "py_strip (py_strip s) = py_strip s"
proof (cases "py_strip s = []")
  case True
  show ?thesis unfolding True by (simp add: py_strip_def)
next
  case False
  let ?t = "dropWhile py_space s"
  have t: "py_strip s = rev (dropWhile py_space (rev ?t))" by (simp add: py_strip_def)
  have last: "\<not> py_space (last (py_strip s))"
    using False hd_dropWhile[of py_space "rev ?t"] by (simp add: t last_rev)
  obtain zs where zs: "?t = py_strip s @ zs"
    unfolding t by (metis rev_append rev_rev_ident takeWhile_dropWhile_id)
  have "\<not> py_space (hd ?t)" using False zs hd_dropWhile[of py_space s] by auto
  then have "\<not> py_space (hd (py_strip s))" using False zs by (metis hd_append2)
  then show ?thesis using False last by (intro py_strip_id)
qed

lemma digit_not_sign: "ascii_digit c \<Longrightarrow> c \<noteq> CHR ''-'' \<and> c \<noteq> CHR ''+''"
  by (auto simp: ascii_digit_def code_def)

text \<open>Row ids are 64-bit integers; nineteen digits are enough for them.\<close>

lemma py_int_str:
  assumes "\<bar>i\<bar> < 10 ^ 19"
  shows "py_int (py_str_int i) = Some i"
proof -
  let ?ds = "nat_digits (nat \<bar>i\<bar>)"
  have ds: "list_all ascii_digit ?ds" "?ds \<noteq> []" by (simp_all add: nat_digits_digits)
  then have ends: "ascii_digit (hd ?ds)" "ascii_digit (last ?ds)" by (simp_all add: list_all_iff)
  have len: "length ?ds \<le> 4300"
    using length_nat_digits[of "nat \<bar>i\<bar>" 18] assms by (simp add: nat_less_iff)
  have idig: "int_digits False ?ds = Some ?ds" using ds by (simp add: int_digits_digits)
  show ?thesis
  proof (cases "i < 0")
    case True
    then have s: "py_str_int i = CHR ''-'' # ?ds" by (simp add: py_str_int_def)
    have "\<not> py_space (CHR ''-'')" by (simp add: py_space_def code_def)
    then have "py_strip (CHR ''-'' # ?ds) = CHR ''-'' # ?ds"
      by (intro py_strip_id) (use ends in \<open>auto simp: digit_not_space\<close>)
    then show ?thesis using s idig len True by (simp add: py_int_def Let_def digits_value_nat_digits)
  next
    case False
    then have s: "py_str_int i = ?ds" by (simp add: py_str_int_def)
    have "py_strip ?ds = ?ds"
      by (rule py_strip_id) (use ends in \<open>auto simp: digit_not_space\<close>)
    then show ?thesis using s idig len False ends digit_not_sign
      by (simp add: py_int_def Let_def digits_value_nat_digits)
  qed
qed

end
