(* ===== verification/Rate_Limit.thy ===== *)
theory Rate_Limit
  imports Prelude
begin

text \<open>
  The two in-process login rate limiters: the browser login's (\<^verbatim>\<open>src/routes/auth.py\<close>)
  and the mobile API's (\<^verbatim>\<open>src/auth/jwt_auth.py\<close>). Each keeps a dictionary from the
  client address to the times of its failed attempts, prunes it on every call and caps the
  number of keys. The locale \<open>failure_limiter\<close> states what a login handler may rely on; it is
  interpreted on both limiters, and the exactness of the lock-out over a whole run of checks and
  failures is proved once, inside it.
\<close>

section \<open>The dictionary of failed attempts\<close>

type_synonym 'k attempts = "('k \<times> seconds list) list"

definition bucket :: "'k attempts \<Rightarrow> 'k \<Rightarrow> seconds list" where
  "bucket d ip = (case map_of d ip of None \<Rightarrow> [] | Some v \<Rightarrow> v)"

text \<open>
  Pruning: buckets with no attempt newer than the cutoff go first; if more than \<open>max_keys\<close>
  remain, the least recently active ones (a stable sort on the last attempt) are evicted.
\<close>

definition stale_bucket :: "seconds \<Rightarrow> 'k \<times> seconds list \<Rightarrow> bool" where
  "stale_bucket cutoff kv \<longleftrightarrow> snd kv = [] \<or> last (snd kv) \<le> cutoff"

definition evict_oldest :: "nat \<Rightarrow> 'k attempts \<Rightarrow> 'k attempts" where
  "evict_oldest max_keys d =
     (if length d > max_keys then
        let stale = map fst (sort_key (\<lambda>kv. last (snd kv)) d);
            victims = take (length d - max_keys) stale
        in fold AList.delete victims d
      else d)"

definition prune_buckets :: "nat \<Rightarrow> seconds \<Rightarrow> 'k attempts \<Rightarrow> 'k attempts" where
  "prune_buckets max_keys cutoff d =
     evict_oldest max_keys (fold AList.delete (map fst (filter (stale_bucket cutoff) d)) d)"

definition check_buckets ::
  "nat \<Rightarrow> seconds \<Rightarrow> nat \<Rightarrow> seconds \<Rightarrow> 'k \<Rightarrow> 'k attempts \<Rightarrow> bool \<times> 'k attempts" where
  "check_buckets max_keys window limit now ip d =
     (let cutoff = now - window;
          d1 = prune_buckets max_keys cutoff d;
          recent = filter (\<lambda>t. t > cutoff) (bucket d1 ip);
          d2 = (if recent \<noteq> [] then AList.update ip recent d1 else AList.delete ip d1)
      in (length recent \<ge> limit, d2))"

text \<open>Recording reads the clock twice: for the attempt and for the pruning that follows.\<close>

definition record_buckets ::
  "nat \<Rightarrow> seconds \<Rightarrow> seconds \<Rightarrow> seconds \<Rightarrow> 'k \<Rightarrow> 'k attempts \<Rightarrow> 'k attempts" where
  "record_buckets max_keys window t1 t2 ip d =
     prune_buckets max_keys (t2 - window) (AList.update ip (bucket d ip @ [t1]) d)"

section \<open>The browser login's limiter (routes/auth.py)\<close>

definition FAIL_WINDOW :: seconds where "FAIL_WINDOW = 300"
definition FAIL_LIMIT :: nat where "FAIL_LIMIT = 10"
definition FAIL_MAX_KEYS :: nat where "FAIL_MAX_KEYS = 4096"

definition prune_failed_attempts :: "seconds \<Rightarrow> string attempts \<Rightarrow> string attempts" where
  "prune_failed_attempts = prune_buckets FAIL_MAX_KEYS"

definition check_rate_limit :: "seconds \<Rightarrow> string \<Rightarrow> string attempts \<Rightarrow> bool \<times> string attempts" where
  "check_rate_limit = check_buckets FAIL_MAX_KEYS FAIL_WINDOW FAIL_LIMIT"

definition record_failed_login :: "seconds \<Rightarrow> seconds \<Rightarrow> string \<Rightarrow> string attempts \<Rightarrow> string attempts" where
  "record_failed_login = record_buckets FAIL_MAX_KEYS FAIL_WINDOW"

section \<open>The mobile API's limiter (auth/jwt\_auth.py)\<close>

definition API_FAIL_WINDOW :: seconds where "API_FAIL_WINDOW = 300"
definition API_FAIL_LIMIT :: nat where "API_FAIL_LIMIT = 5"
definition API_FAIL_MAX_KEYS :: nat where "API_FAIL_MAX_KEYS = 4096"

definition prune_api_failed_attempts :: "seconds \<Rightarrow> string option attempts \<Rightarrow> string option attempts" where
  "prune_api_failed_attempts = prune_buckets API_FAIL_MAX_KEYS"

definition check_api_rate_limit :: "seconds \<Rightarrow> string option \<Rightarrow> string option attempts \<Rightarrow> bool \<times> string option attempts" where
  "check_api_rate_limit = check_buckets API_FAIL_MAX_KEYS API_FAIL_WINDOW API_FAIL_LIMIT"

definition record_api_failed_login :: "seconds \<Rightarrow> seconds \<Rightarrow> string option \<Rightarrow> string option attempts \<Rightarrow> string option attempts" where
  "record_api_failed_login = record_buckets API_FAIL_MAX_KEYS API_FAIL_WINDOW"

section \<open>Runs of a limiter\<close>

datatype 'k limiter_event = Check seconds 'k | Fail seconds seconds 'k

fun event_ip :: "'k limiter_event \<Rightarrow> 'k" where
  "event_ip (Check t ip) = ip"
| "event_ip (Fail t1 t2 ip) = ip"

text \<open>A run: the state after a sequence of checks and failures.\<close>

fun limiter_run ::
  "(seconds \<Rightarrow> 'k \<Rightarrow> 'd \<Rightarrow> bool \<times> 'd) \<Rightarrow>
   (seconds \<Rightarrow> seconds \<Rightarrow> 'k \<Rightarrow> 'd \<Rightarrow> 'd) \<Rightarrow> 'k limiter_event list \<Rightarrow> 'd \<Rightarrow> 'd" where
  "limiter_run chk rec [] d = d"
| "limiter_run chk rec (Check t ip # es) d = limiter_run chk rec es (snd (chk t ip d))"
| "limiter_run chk rec (Fail t1 t2 ip # es) d = limiter_run chk rec es (rec t1 t2 ip d)"

text \<open>The abstract history: every failure of one address, in order.\<close>

fun failures :: "'k \<Rightarrow> 'k limiter_event list \<Rightarrow> seconds list" where
  "failures ip [] = []"
| "failures ip (Check t k # es) = failures ip es"
| "failures ip (Fail t1 t2 k # es) = (if k = ip then t1 # failures ip es else failures ip es)"

text \<open>The clock does not run backwards during the run, and not before \<open>t\<close>.\<close>

fun monotone_from :: "seconds \<Rightarrow> 'k limiter_event list \<Rightarrow> bool" where
  "monotone_from t [] = True"
| "monotone_from t (Check u ip # es) = (t \<le> u \<and> monotone_from u es)"
| "monotone_from t (Fail u v ip # es) = (t \<le> u \<and> u \<le> v \<and> monotone_from v es)"

fun end_time :: "seconds \<Rightarrow> 'k limiter_event list \<Rightarrow> seconds" where
  "end_time t [] = t"
| "end_time t (Check u ip # es) = end_time u es"
| "end_time t (Fail u v ip # es) = end_time v es"

text \<open>Buckets are kept sorted and non-empty, one per key, with no time after \<open>now\<close>.\<close>

definition limiter_inv :: "seconds \<Rightarrow> 'k attempts \<Rightarrow> bool" where
  "limiter_inv now d \<longleftrightarrow>
     distinct (map fst d) \<and>
     (\<forall>kv \<in> set d. snd kv \<noteq> [] \<and> sorted (snd kv) \<and> (\<forall>t \<in> set (snd kv). t \<le> now))"

section \<open>The contract of a limiter\<close>

locale failure_limiter =
  fixes chk :: "seconds \<Rightarrow> 'k \<Rightarrow> 'd \<Rightarrow> bool \<times> 'd"
    and rec :: "seconds \<Rightarrow> seconds \<Rightarrow> 'k \<Rightarrow> 'd \<Rightarrow> 'd"
    and hist :: "'d \<Rightarrow> 'k \<Rightarrow> seconds list"
    and keys :: "'d \<Rightarrow> 'k set"
    and inv :: "seconds \<Rightarrow> 'd \<Rightarrow> bool"
    and window :: seconds and limit :: nat and cap :: nat
  assumes inv_chk: "inv t d \<Longrightarrow> t \<le> now \<Longrightarrow> inv now (snd (chk now ip d))"
    and inv_rec: "inv t d \<Longrightarrow> t \<le> t1 \<Longrightarrow> t1 \<le> t2 \<Longrightarrow> inv t2 (rec t1 t2 ip d)"
    and keys_chk: "inv t d \<Longrightarrow> t \<le> now \<Longrightarrow> keys (snd (chk now ip d)) \<subseteq> keys d"
    and keys_rec: "inv t d \<Longrightarrow> t \<le> t1 \<Longrightarrow> t1 \<le> t2 \<Longrightarrow> keys (rec t1 t2 ip d) \<subseteq> insert ip (keys d)"
    and chk_locked: "inv t d \<Longrightarrow> t \<le> now \<Longrightarrow> card (keys d) \<le> cap \<Longrightarrow>
          fst (chk now ip d) \<longleftrightarrow> length (filter (\<lambda>u. u > now - window) (hist d ip)) \<ge> limit"
    and hist_chk: "inv t d \<Longrightarrow> t \<le> now \<Longrightarrow> card (keys d) \<le> cap \<Longrightarrow> now - window \<le> c \<Longrightarrow>
          filter (\<lambda>u. u > c) (hist (snd (chk now ip d)) k) = filter (\<lambda>u. u > c) (hist d k)"
    and hist_rec: "inv t d \<Longrightarrow> t \<le> t1 \<Longrightarrow> t1 \<le> t2 \<Longrightarrow> card (insert ip (keys d)) \<le> cap \<Longrightarrow>
          t2 - window \<le> c \<Longrightarrow>
          filter (\<lambda>u. u > c) (hist (rec t1 t2 ip d) k) =
          filter (\<lambda>u. u > c) (hist d k @ (if k = ip then [t1] else []))"
begin

lemma run_inv:
  "inv t d \<Longrightarrow> monotone_from t es \<Longrightarrow> inv (end_time t es) (limiter_run chk rec es d)"
proof (induction es arbitrary: t d)
  case Nil
  then show ?case by simp
next
  case (Cons e es)
  then show ?case by (cases e) (auto intro: inv_chk inv_rec)
qed

lemma run_keys:
  "inv t d \<Longrightarrow> monotone_from t es \<Longrightarrow>
   keys (limiter_run chk rec es d) \<subseteq> keys d \<union> event_ip ` set es"
proof (induction es arbitrary: t d)
  case Nil
  then show ?case by simp
next
  case (Cons e es)
  show ?case
  proof (cases e)
    case (Check u ip)
    with Cons.prems have "inv u (snd (chk u ip d))" and "keys (snd (chk u ip d)) \<subseteq> keys d"
      by (auto intro: inv_chk dest: keys_chk)
    with Check Cons.prems Cons.IH[of u "snd (chk u ip d)"] show ?thesis by auto
  next
    case (Fail u v ip)
    with Cons.prems have "inv v (rec u v ip d)" and "keys (rec u v ip d) \<subseteq> insert ip (keys d)"
      by (auto intro: inv_rec dest: keys_rec)
    with Fail Cons.prems Cons.IH[of v "rec u v ip d"] show ?thesis by auto
  qed
qed

lemma end_time_ge: "monotone_from t es \<Longrightarrow> t \<le> end_time t es"
proof (induction es arbitrary: t)
  case Nil
  then show ?case by simp
next
  case (Cons e es)
  then show ?case by (cases e) force+
qed

text \<open>
  As long as no more than \<open>cap\<close> addresses are involved, what the limiter remembers of an address
  within the window is exactly the history of that address.
\<close>

lemma run_hist:
  assumes "inv t d" and "monotone_from t es"
    and "finite (keys d)" and "card (keys d \<union> event_ip ` set es) \<le> cap"
    and "end_time t es - window \<le> c"
  shows "filter (\<lambda>u. u > c) (hist (limiter_run chk rec es d) k) =
         filter (\<lambda>u. u > c) (hist d k @ failures k es)"
  using assms
proof (induction es arbitrary: t d)
  case Nil
  then show ?case by simp
next
  case (Cons e es)
  have fin: "finite (keys d \<union> event_ip ` set (e # es))" using Cons.prems(3) by simp
  have smaller: "card S \<le> cap" if "S \<subseteq> keys d \<union> event_ip ` set (e # es)" for S
    using card_mono[OF fin that] Cons.prems(4) by linarith
  show ?case
  proof (cases e)
    case (Check u ip)
    let ?d = "snd (chk u ip d)"
    have inv': "inv u ?d" and sub: "keys ?d \<subseteq> keys d" and mono: "monotone_from u es"
      using Check Cons.prems by (auto intro: inv_chk dest: keys_chk)
    have "u - window \<le> c" using Check Cons.prems(5) end_time_ge[OF mono] by simp
    then have eq: "filter (\<lambda>u. u > c) (hist ?d k) = filter (\<lambda>u. u > c) (hist d k)"
      using Check Cons.prems smaller[of "keys d"] by (intro hist_chk) auto
    have "card (keys ?d \<union> event_ip ` set es) \<le> cap" and "finite (keys ?d)"
      using sub Cons.prems(3) by (auto intro!: smaller intro: finite_subset)
    then have "filter (\<lambda>u. u > c) (hist (limiter_run chk rec es ?d) k) =
          filter (\<lambda>u. u > c) (hist ?d k @ failures k es)"
      using Cons.prems(5) Check by (intro Cons.IH[OF inv' mono]) auto
    with eq show ?thesis using Check by simp
  next
    case (Fail u v ip)
    let ?d = "rec u v ip d"
    have inv': "inv v ?d" and sub: "keys ?d \<subseteq> insert ip (keys d)" and mono: "monotone_from v es"
      using Fail Cons.prems by (auto intro: inv_rec dest: keys_rec)
    have "v - window \<le> c" using Fail Cons.prems(5) end_time_ge[OF mono] by simp
    then have eq: "filter (\<lambda>u. u > c) (hist ?d k) =
                   filter (\<lambda>u. u > c) (hist d k @ (if k = ip then [u] else []))"
      using Fail Cons.prems smaller[of "insert ip (keys d)"] by (intro hist_rec) auto
    have "card (keys ?d \<union> event_ip ` set es) \<le> cap" and "finite (keys ?d)"
      using sub Fail Cons.prems(3) by (auto intro!: smaller intro: finite_subset)
    then have "filter (\<lambda>u. u > c) (hist (limiter_run chk rec es ?d) k) =
          filter (\<lambda>u. u > c) (hist ?d k @ failures k es)"
      using Cons.prems(5) Fail by (intro Cons.IH[OF inv' mono]) auto
    with eq show ?thesis using Fail by auto
  qed
qed

lemma locked_exactly:
  assumes "inv t d" and "hist d ip = []" and "monotone_from t es" and "end_time t es \<le> now"
    and "finite (keys d)" and "card (keys d \<union> event_ip ` set es) \<le> cap"
  shows "fst (chk now ip (limiter_run chk rec es d)) \<longleftrightarrow>
         length (filter (\<lambda>u. u > now - window) (failures ip es)) \<ge> limit"
proof -
  let ?d = "limiter_run chk rec es d"
  have "card (keys ?d) \<le> cap"
    using run_keys[OF assms(1,3)] assms(5,6)
    by (metis card_mono finite_UnI finite_imageI List.finite_set order_trans)
  then have "fst (chk now ip ?d) \<longleftrightarrow> length (filter (\<lambda>u. u > now - window) (hist ?d ip)) \<ge> limit"
    using run_inv[OF assms(1,3)] assms(4) by (intro chk_locked)
  moreover have "filter (\<lambda>u. u > now - window) (hist ?d ip) =
                 filter (\<lambda>u. u > now - window) (hist d ip @ failures ip es)"
    using assms by (intro run_hist) auto
  ultimately show ?thesis using assms(2) by simp
qed

end

section \<open>Both limiters satisfy the contract\<close>

lemma fold_delete_filter:
  "fold AList.delete ks d = filter (\<lambda>kv. fst kv \<notin> set ks) d"
proof (induction ks arbitrary: d)
  case Nil
  then show ?case by simp
next
  case (Cons k ks)
  have "fold AList.delete (k # ks) d = filter (\<lambda>kv. fst kv \<notin> set ks) (AList.delete k d)"
    using Cons by simp
  also have "\<dots> = filter (\<lambda>kv. fst kv \<notin> set (k # ks)) d"
    by (simp add: AList.delete_eq filter_filter) (rule filter_cong, auto)
  finally show ?case .
qed

lemma prune_first_pass:
  assumes "distinct (map fst d)"
  shows "fold AList.delete (map fst (filter (stale_bucket cutoff) d)) d =
         filter (\<lambda>kv. \<not> stale_bucket cutoff kv) d"
  unfolding fold_delete_filter
proof (rule filter_cong[OF refl])
  fix kv assume kv: "kv \<in> set d"
  have "inj_on fst (set d)" using assms by (simp add: distinct_map)
  then have same: "kv' = kv" if "fst kv = fst kv'" "kv' \<in> set d" for kv'
    using kv that by (auto dest: inj_onD)
  show "(fst kv \<notin> set (map fst (filter (stale_bucket cutoff) d))) =
             (\<not> stale_bucket cutoff kv)"
  proof (cases "stale_bucket cutoff kv")
    case True
    with kv show ?thesis by simp
  next
    case False
    with same have "\<not> (\<exists>kv' \<in> set d. stale_bucket cutoff kv' \<and> fst kv = fst kv')" by blast
    with False show ?thesis by (simp add: image_iff)
  qed
qed

lemma evict_oldest_subset: "set (evict_oldest cap d) \<subseteq> set d"
  by (auto simp: evict_oldest_def fold_delete_filter Let_def)

lemma evict_oldest_distinct: "distinct (map fst d) \<Longrightarrow> distinct (map fst (evict_oldest cap d))"
  by (auto simp: evict_oldest_def fold_delete_filter Let_def distinct_map_filter)

lemma evict_oldest_small [simp]: "length d \<le> cap \<Longrightarrow> evict_oldest cap d = d"
  by (simp add: evict_oldest_def)


text \<open>The size after eviction: exactly the excess is removed.\<close>

lemma evict_oldest_length:
  assumes "distinct (map fst d)"
  shows "length (evict_oldest cap d) \<le> cap"
proof (cases "length d > cap")
  case True
  let ?vs = "take (length d - cap) (map fst (sort_key (\<lambda>kv. last (snd kv)) d))"
  have dv: "distinct (map fst (sort_key (\<lambda>kv. last (snd kv)) d))"
    using assms by (simp add: distinct_map)
  have sub: "set ?vs \<subseteq> fst ` set d"
    using set_take_subset[of _ "map fst (sort_key (\<lambda>kv. last (snd kv)) d)"] by simp
  have "length (filter (\<lambda>kv. fst kv \<notin> set ?vs) d) = card (fst ` set d - set ?vs)"
  proof -
    have "distinct (map fst (filter (\<lambda>kv. fst kv \<notin> set ?vs) d))"
      using assms by (simp add: distinct_map_filter)
    then have "length (filter (\<lambda>kv. fst kv \<notin> set ?vs) d) =
               card (fst ` set (filter (\<lambda>kv. fst kv \<notin> set ?vs) d))"
      using distinct_card by fastforce
    also have "fst ` set (filter (\<lambda>kv. fst kv \<notin> set ?vs) d) = fst ` set d - set ?vs"
      by auto
    finally show ?thesis .
  qed
  also have "\<dots> = card (fst ` set d) - card (set ?vs)"
    using sub by (intro card_Diff_subset) auto
  also have "card (set ?vs) = length d - cap"
    using dv by (simp add: distinct_card)
  also have "card (fst ` set d) = length d"
    using assms distinct_card[of "map fst d"] by simp
  finally show ?thesis using True
    by (simp add: evict_oldest_def fold_delete_filter Let_def)
qed simp

lemma limiter_inv_mono: "limiter_inv t d \<Longrightarrow> t \<le> now \<Longrightarrow> limiter_inv now d"
  by (force simp: limiter_inv_def)

lemma limiter_inv_subset:
  "limiter_inv t d \<Longrightarrow> set d' \<subseteq> set d \<Longrightarrow> distinct (map fst d') \<Longrightarrow> limiter_inv t d'"
  by (auto simp: limiter_inv_def)

lemma prune_buckets_inv:
  assumes "limiter_inv t d"
  shows "limiter_inv t (prune_buckets cap cutoff d)"
    and "set (prune_buckets cap cutoff d) \<subseteq> set d"
    and "length (prune_buckets cap cutoff d) \<le> cap"
proof -
  have dist: "distinct (map fst d)" using assms by (simp add: limiter_inv_def)
  let ?f = "filter (\<lambda>kv. \<not> stale_bucket cutoff kv) d"
  have eq: "prune_buckets cap cutoff d = evict_oldest cap ?f"
    by (simp add: prune_buckets_def prune_first_pass[OF dist])
  have df: "distinct (map fst ?f)" using dist by (simp add: distinct_map_filter)
  show sub: "set (prune_buckets cap cutoff d) \<subseteq> set d"
    unfolding eq using evict_oldest_subset by fastforce
  show "length (prune_buckets cap cutoff d) \<le> cap"
    unfolding eq by (rule evict_oldest_length[OF df])
  show "limiter_inv t (prune_buckets cap cutoff d)"
    using limiter_inv_subset[OF assms sub] evict_oldest_distinct[OF df] eq by simp
qed

lemma bucket_map_of: "map_of d k = Some v \<Longrightarrow> bucket d k = v"
  by (simp add: bucket_def)

lemma bucket_in_inv:
  assumes "limiter_inv t d"
  shows "sorted (bucket d k) \<and> (\<forall>u \<in> set (bucket d k). u \<le> t)"
  using assms
  by (cases "map_of d k") (force simp: bucket_def limiter_inv_def dest: map_of_SomeD)+

lemma filter_map_of_distinct:
  assumes "distinct (map fst d)"
  shows "map_of (filter P d) k = (case map_of d k of None \<Rightarrow> None | Some v \<Rightarrow> if P (k, v) then Some v else None)"
  using assms by (induction d) (auto simp: map_of_eq_None_iff image_iff split: option.splits)

lemma sorted_last_le:
  assumes "sorted xs" "xs \<noteq> []" "last xs \<le> (c::real)"
  shows "\<forall>x \<in> set xs. x \<le> c"
proof -
  obtain ys y where "xs = ys @ [y]" using assms(2) by (metis rev_exhaust)
  with assms show ?thesis by (auto simp: sorted_append)
qed

text \<open>Below the cap, pruning forgets nothing newer than the cutoff.\<close>

lemma prune_buckets_hist:
  assumes inv: "limiter_inv t d" and le: "length d \<le> cap" and c: "cutoff \<le> c"
  shows "filter (\<lambda>u. u > c) (bucket (prune_buckets cap cutoff d) k) = filter (\<lambda>u. u > c) (bucket d k)"
proof -
  have dist: "distinct (map fst d)" using inv by (simp add: limiter_inv_def)
  let ?f = "filter (\<lambda>kv. \<not> stale_bucket cutoff kv) d"
  have "length ?f \<le> cap" using le length_filter_le order_trans by blast
  then have eq: "prune_buckets cap cutoff d = ?f"
    by (simp add: prune_buckets_def prune_first_pass[OF dist])
  show ?thesis
  proof (cases "map_of d k")
    case None
    then show ?thesis by (simp add: eq bucket_def filter_map_of_distinct[OF dist])
  next
    case (Some v)
    have v: "sorted v" "v \<noteq> []" using Some inv by (auto simp: limiter_inv_def dest!: map_of_SomeD)
    show ?thesis
    proof (cases "stale_bucket cutoff (k, v)")
      case True
      with v have "\<forall>x \<in> set v. x \<le> c"
        using sorted_last_le[of v cutoff] c by (force simp: stale_bucket_def)
      then have "filter (\<lambda>u. u > c) v = []" by (force simp: filter_empty_conv)
      with True Some show ?thesis
        by (simp add: eq bucket_def filter_map_of_distinct[OF dist])
    next
      case False
      with Some show ?thesis by (simp add: eq bucket_def filter_map_of_distinct[OF dist])
    qed
  qed
qed


text \<open>A key whose bucket is not empty is present.\<close>

lemma bucket_nonempty_mem: "bucket d ip \<noteq> [] \<Longrightarrow> ip \<in> fst ` set d"
  by (cases "map_of d ip") (force simp: bucket_def dest: map_of_SomeD)+

lemma limiter_inv_update:
  assumes "limiter_inv now d" "v \<noteq> []" "sorted v" "\<forall>u \<in> set v. u \<le> now"
  shows "limiter_inv now (AList.update ip v d)"
  using assms
  by (auto simp: limiter_inv_def distinct_update dest!: in_AList_update)

lemma limiter_inv_delete: "limiter_inv now d \<Longrightarrow> limiter_inv now (AList.delete ip d)"
  by (auto simp: limiter_inv_def distinct_delete dest!: in_AList_delete)

lemma check_buckets_inv:
  assumes "limiter_inv t d" "t \<le> now"
  shows "limiter_inv now (snd (check_buckets cap window limit now ip d))"
    and "fst ` set (snd (check_buckets cap window limit now ip d)) \<subseteq> fst ` set d"
    and "length (snd (check_buckets cap window limit now ip d)) \<le> cap"
proof -
  let ?d = "prune_buckets cap (now - window) d"
  let ?r = "filter (\<lambda>t. t > now - window) (bucket ?d ip)"
  note p = prune_buckets_inv[OF assms(1), of cap "now - window"]
  have inv': "limiter_inv now ?d" using p(1) assms(2) limiter_inv_mono by blast
  have r: "sorted ?r" "\<forall>u \<in> set ?r. u \<le> now"
    using bucket_in_inv[OF inv', of ip] by (auto intro: sorted_wrt_filter)
  have mem: "ip \<in> fst ` set ?d" if "?r \<noteq> []"
    using that by (intro bucket_nonempty_mem) auto
  have eq: "snd (check_buckets cap window limit now ip d) =
            (if ?r \<noteq> [] then AList.update ip ?r ?d else AList.delete ip ?d)"
    by (simp add: check_buckets_def Let_def)
  show "limiter_inv now (snd (check_buckets cap window limit now ip d))"
    unfolding eq using inv' r by (simp add: limiter_inv_update limiter_inv_delete)
  show "fst ` set (snd (check_buckets cap window limit now ip d)) \<subseteq> fst ` set d"
    unfolding eq using mem p(2) by (auto simp: dom_update AList.delete_eq)
  show "length (snd (check_buckets cap window limit now ip d)) \<le> cap"
    unfolding eq using mem p(3) length_AList_update_mem[of ip ?d] length_AList_delete_le[of ip ?d]
    by auto
qed

lemma record_buckets_inv:
  assumes "limiter_inv t d" "t \<le> t1" "t1 \<le> t2"
  shows "limiter_inv t2 (record_buckets cap window t1 t2 ip d)"
    and "fst ` set (record_buckets cap window t1 t2 ip d) \<subseteq> insert ip (fst ` set d)"
    and "length (record_buckets cap window t1 t2 ip d) \<le> cap"
proof -
  let ?u = "AList.update ip (bucket d ip @ [t1]) d"
  have "sorted (bucket d ip @ [t1])" "\<forall>u \<in> set (bucket d ip @ [t1]). u \<le> t2"
    using bucket_in_inv[OF assms(1), of ip] assms(2,3) by (force simp: sorted_append)+
  then have inv': "limiter_inv t2 ?u"
    using limiter_inv_mono[OF assms(1)] assms(2,3) by (intro limiter_inv_update) auto
  note p = prune_buckets_inv[OF inv', of cap "t2 - window"]
  show "limiter_inv t2 (record_buckets cap window t1 t2 ip d)"
    and "length (record_buckets cap window t1 t2 ip d) \<le> cap"
    using p by (simp_all add: record_buckets_def)
  show "fst ` set (record_buckets cap window t1 t2 ip d) \<subseteq> insert ip (fst ` set d)"
    using p(2) by (auto simp: record_buckets_def dest!: in_AList_update)
qed

lemma length_eq_card_keys: "limiter_inv t d \<Longrightarrow> length d = card (fst ` set d)"
  unfolding limiter_inv_def by (metis distinct_card length_map list.set_map)

lemma check_buckets_exact:
  assumes inv: "limiter_inv t d" and "t \<le> now" and "card (fst ` set d) \<le> cap" and "now - window \<le> c"
  shows "filter (\<lambda>u. u > c) (bucket (snd (check_buckets cap window limit now ip d)) k) =
         filter (\<lambda>u. u > c) (bucket d k)"
    and "fst (check_buckets cap window limit now ip d) \<longleftrightarrow>
         length (filter (\<lambda>u. u > now - window) (bucket d ip)) \<ge> limit"
proof -
  let ?d = "prune_buckets cap (now - window) d"
  have le: "length d \<le> cap" using length_eq_card_keys[OF inv] assms(3) by simp
  note h = prune_buckets_hist[OF inv le]
  show "fst (check_buckets cap window limit now ip d) \<longleftrightarrow>
         length (filter (\<lambda>u. u > now - window) (bucket d ip)) \<ge> limit"
    using h[of "now - window" "now - window" ip] by (simp add: check_buckets_def Let_def)
  show "filter (\<lambda>u. u > c) (bucket (snd (check_buckets cap window limit now ip d)) k) =
         filter (\<lambda>u. u > c) (bucket d k)"
  proof (cases "k = ip")
    case True
    have "filter (\<lambda>u. u > c) (filter (\<lambda>t. t > now - window) (bucket ?d ip)) =
          filter (\<lambda>u. u > c) (bucket ?d ip)"
      using assms(4) by (auto simp: filter_filter intro!: filter_cong)
    then show ?thesis
      using True h[of "now - window" c ip] assms(4)
      by (auto simp: check_buckets_def Let_def bucket_def dict_simps filter_empty_conv
            split: option.splits)
  next
    case False
    then show ?thesis
      using h[of "now - window" c k] assms(4)
      by (simp add: check_buckets_def Let_def bucket_def dict_simps)
  qed
qed

lemma record_buckets_exact:
  assumes inv: "limiter_inv t d" and "t \<le> t1" "t1 \<le> t2"
    and "card (insert ip (fst ` set d)) \<le> cap" and "t2 - window \<le> c"
  shows "filter (\<lambda>u. u > c) (bucket (record_buckets cap window t1 t2 ip d) k) =
         filter (\<lambda>u. u > c) (bucket d k @ (if k = ip then [t1] else []))"
proof -
  let ?u = "AList.update ip (bucket d ip @ [t1]) d"
  have "sorted (bucket d ip @ [t1])" "\<forall>u \<in> set (bucket d ip @ [t1]). u \<le> t2"
    using bucket_in_inv[OF inv, of ip] assms(2,3) by (force simp: sorted_append)+
  then have inv': "limiter_inv t2 ?u"
    using limiter_inv_mono[OF inv] assms(2,3) by (intro limiter_inv_update) auto
  have "length ?u \<le> cap" using length_eq_card_keys[OF inv'] assms(4) by (simp add: dom_update)
  from prune_buckets_hist[OF inv' this assms(5), of k] show ?thesis
    by (simp add: record_buckets_def bucket_def dict_simps)
qed

lemma buckets_limiter:
  "failure_limiter (check_buckets cap window limit) (record_buckets cap window) bucket
     (\<lambda>d. fst ` set d) limiter_inv window limit cap"
  by unfold_locales
    (simp_all add: check_buckets_inv record_buckets_inv check_buckets_exact(1)
       check_buckets_exact(2)[OF _ _ _ order_refl] record_buckets_exact)

interpretation web_limiter: failure_limiter check_rate_limit record_failed_login bucket
  "\<lambda>d. fst ` set d" limiter_inv FAIL_WINDOW FAIL_LIMIT FAIL_MAX_KEYS
  unfolding check_rate_limit_def record_failed_login_def by (rule buckets_limiter)

interpretation api_limiter: failure_limiter check_api_rate_limit record_api_failed_login bucket
  "\<lambda>d. fst ` set d" limiter_inv API_FAIL_WINDOW API_FAIL_LIMIT API_FAIL_MAX_KEYS
  unfolding check_api_rate_limit_def record_api_failed_login_def by (rule buckets_limiter)


text \<open>No run ever leaves more than \<open>cap\<close> keys behind.\<close>

lemma buckets_run_length:
  assumes "limiter_inv t d" and "monotone_from t es" and "length d \<le> cap"
  shows "length (limiter_run (check_buckets cap window limit) (record_buckets cap window) es d) \<le> cap"
  using assms
proof (induction es arbitrary: t d)
  case Nil
  then show ?case by simp
next
  case (Cons e es)
  then show ?case
    by (cases e) (auto intro: check_buckets_inv record_buckets_inv)
qed

section \<open>Properties\<close>

text \<open>The start state satisfies the invariant.\<close>

lemma limiter_inv_empty [simp]: "limiter_inv t []"
  by (simp add: limiter_inv_def)

text \<open>
  C28. Exact lock-out of the browser login. Take any run of rate-limit checks and recorded failures
  from the empty dictionary whose clock never runs backwards and that involves at most 4096
  addresses. At any later time, the limiter reports an address as locked out exactly when that
  address has at least 10 recorded failures within the last 300 seconds: the pruning that every
  call performs neither forgets a relevant failure nor keeps an expired one.
\<close>

theorem web_lockout_exact:
  assumes "monotone_from t es" and "end_time t es \<le> now"
    and "card (event_ip ` set es) \<le> FAIL_MAX_KEYS"
  shows "fst (check_rate_limit now ip (limiter_run check_rate_limit record_failed_login es [])) \<longleftrightarrow>
         length (filter (\<lambda>u. u > now - FAIL_WINDOW) (failures ip es)) \<ge> FAIL_LIMIT"
  using assms by (intro web_limiter.locked_exactly) (auto simp: bucket_def)

definition ten_failures :: "'k \<Rightarrow> 'k \<Rightarrow> 'k limiter_event list" where
  "ten_failures ip other = map (\<lambda>i. Fail (real i) (real i) ip) [0..<10] @ [Fail 11 11 other]"

theorem web_lockout_exact_witness:
  "fst (check_rate_limit 12 ''10.0.0.9'' (limiter_run check_rate_limit record_failed_login (ten_failures ''10.0.0.9'' ''10.0.0.7'') [])) \<and>
   \<not> fst (check_rate_limit 12 ''10.0.0.7'' (limiter_run check_rate_limit record_failed_login (ten_failures ''10.0.0.9'' ''10.0.0.7'') []))"
proof -
  have "monotone_from 0 (ten_failures ''10.0.0.9'' ''10.0.0.7'')" and "end_time 0 (ten_failures ''10.0.0.9'' ''10.0.0.7'') \<le> 12"
    and "card (event_ip ` set (ten_failures ''10.0.0.9'' ''10.0.0.7'')) \<le> FAIL_MAX_KEYS"
    by (simp_all add: ten_failures_def FAIL_MAX_KEYS_def upt_rec)
  note web_lockout_exact[OF this]
  then show ?thesis
    by (simp add: ten_failures_def FAIL_LIMIT_def FAIL_WINDOW_def upt_rec)
qed

text \<open>
  Exact lock-out of the mobile API login: the same for the API's limiter and its stricter limit
  of 5 failures in 300 seconds.
\<close>

theorem api_lockout_exact:
  assumes "monotone_from t es" and "end_time t es \<le> now"
    and "card (event_ip ` set es) \<le> API_FAIL_MAX_KEYS"
  shows "fst (check_api_rate_limit now ip
               (limiter_run check_api_rate_limit record_api_failed_login es [])) \<longleftrightarrow>
         length (filter (\<lambda>u. u > now - API_FAIL_WINDOW) (failures ip es)) \<ge> API_FAIL_LIMIT"
  using assms by (intro api_limiter.locked_exactly) (auto simp: bucket_def)

theorem api_lockout_exact_witness:
  "fst (check_api_rate_limit 12 (Some ''10.0.0.9'')
         (limiter_run check_api_rate_limit record_api_failed_login (ten_failures (Some ''10.0.0.9'') None) [])) \<and>
   \<not> fst (check_api_rate_limit 307 (Some ''10.0.0.9'')
         (limiter_run check_api_rate_limit record_api_failed_login (ten_failures (Some ''10.0.0.9'') None) []))"
proof -
  have h: "monotone_from 0 (ten_failures (Some ''10.0.0.9'') None)" "end_time 0 (ten_failures (Some ''10.0.0.9'') None) \<le> 12" "end_time 0 (ten_failures (Some ''10.0.0.9'') None) \<le> 307"
    "card (event_ip ` set (ten_failures (Some ''10.0.0.9'') None)) \<le> API_FAIL_MAX_KEYS"
    by (simp_all add: ten_failures_def API_FAIL_MAX_KEYS_def upt_rec)
  show ?thesis
    using api_lockout_exact[OF h(1,2,4), of "Some ''10.0.0.9''"] api_lockout_exact[OF h(1,3,4), of "Some ''10.0.0.9''"]
    by (simp add: ten_failures_def API_FAIL_LIMIT_def API_FAIL_WINDOW_def upt_rec)
qed

text \<open>
  Bounded memory: whatever the runs and however many addresses take part in it (a flood of
  distinct sources included), the dictionary of failed attempts of either limiter never holds more
  than 4096 addresses after a recorded failure or a check, and its buckets stay sorted, non-empty
  and unique per address.
\<close>

theorem limiter_memory_bounded:
  assumes "monotone_from t es" and "monotone_from t fs"
  shows "length (limiter_run check_rate_limit record_failed_login es []) \<le> FAIL_MAX_KEYS \<and>
         length (limiter_run check_api_rate_limit record_api_failed_login fs []) \<le> API_FAIL_MAX_KEYS \<and>
         limiter_inv (end_time t es) (limiter_run check_rate_limit record_failed_login es []) \<and>
         limiter_inv (end_time t fs) (limiter_run check_api_rate_limit record_api_failed_login fs [])"
  using buckets_run_length[OF limiter_inv_empty assms(1)] buckets_run_length[OF limiter_inv_empty assms(2)] assms
    web_limiter.run_inv[OF limiter_inv_empty] api_limiter.run_inv[OF limiter_inv_empty]
  by (simp add: check_rate_limit_def record_failed_login_def check_api_rate_limit_def
        record_api_failed_login_def)

theorem limiter_memory_bounded_witness:
  "length (limiter_run check_rate_limit record_failed_login (ten_failures ''10.0.0.9'' ''10.0.0.7'') []) \<le> FAIL_MAX_KEYS"
proof -
  have "monotone_from 0 (ten_failures ''10.0.0.9'' ''10.0.0.7'')" and "monotone_from 0 ([] :: string option limiter_event list)"
    by (simp_all add: ten_failures_def upt_rec)
  from limiter_memory_bounded[OF this] show ?thesis by simp
qed

end
