(* ===== verification/Adhoc_Credentials.thy ===== *)
theory Adhoc_Credentials
  imports Prelude
begin

text \<open>
  The short-lived, single-use store for ad-hoc SSH credentials
  (\<^verbatim>\<open>src/core/adhoc_credentials.py\<close>): a dictionary from opaque tokens to entries scoped to
  the issuing user and guest. The operations are state transformers over the dictionary; a run of
  the store is the fold of its events, and the properties are about every run.
\<close>

section \<open>The store\<close>

record adhoc_entry =
  e_user_id :: int
  e_guest_id :: int
  e_username :: string
  e_password :: string
  e_expires_at :: seconds

type_synonym adhoc_store = "(string \<times> adhoc_entry) list"

definition TTL_SECONDS :: seconds where "TTL_SECONDS = 300"
definition MAX_ENTRIES :: nat where "MAX_ENTRIES = 256"

text \<open>\<^verbatim>\<open>min(_entries, key=...)\<close>: the first entry with the least expiry.\<close>

definition oldest_entry :: "adhoc_store \<Rightarrow> string \<times> adhoc_entry" where
  "oldest_entry es = arg_min_list (\<lambda>te. e_expires_at (snd te)) es"

function drop_oldest :: "adhoc_store \<Rightarrow> adhoc_store" where
  "drop_oldest es =
     (if length es > MAX_ENTRIES then drop_oldest (AList.delete (fst (oldest_entry es)) es) else es)"
  by pat_completeness auto
termination
proof (relation "measure length")
  fix es :: adhoc_store assume "MAX_ENTRIES < length es"
  then have "oldest_entry es \<in> set es"
    unfolding oldest_entry_def by (intro arg_min_list_in) auto
  then have "length (AList.delete (fst (oldest_entry es)) es) < length es"
    unfolding AList.delete_eq by (intro length_filter_less) auto
  then show "(AList.delete (fst (oldest_entry es)) es, es) \<in> measure length" by simp
qed simp

declare drop_oldest.simps [simp del]

definition prune_locked :: "seconds \<Rightarrow> adhoc_store \<Rightarrow> adhoc_store" where
  "prune_locked now es =
     drop_oldest (fold AList.delete (map fst (filter (\<lambda>te. e_expires_at (snd te) \<le> now) es)) es)"

text \<open>\<open>token\<close> is what \<^verbatim>\<open>secrets.token_urlsafe(32)\<close> returned.\<close>

definition store_credentials ::
  "string \<Rightarrow> seconds \<Rightarrow> int \<Rightarrow> int \<Rightarrow> string \<Rightarrow> string \<Rightarrow> adhoc_store \<Rightarrow> string \<times> adhoc_store" where
  "store_credentials token now user_id guest_id username password es =
     (token,
      AList.update token
        \<lparr>e_user_id = user_id, e_guest_id = guest_id, e_username = username,
         e_password = password, e_expires_at = now + TTL_SECONDS\<rparr>
        (prune_locked now es))"

definition take_credentials ::
  "seconds \<Rightarrow> string \<Rightarrow> int \<Rightarrow> int \<Rightarrow> adhoc_store \<Rightarrow> (string \<times> string) option \<times> adhoc_store" where
  "take_credentials now token user_id guest_id es =
     (if token = [] then (None, es)
      else
        let es1 = prune_locked now es; es2 = AList.delete token es1 in
        case map_of es1 token of
          None \<Rightarrow> (None, es2)
        | Some e \<Rightarrow>
            if e_expires_at e \<le> now then (None, es2)
            else if e_user_id e \<noteq> user_id \<or> e_guest_id e \<noteq> guest_id then (None, es2)
            else (Some (e_username e, e_password e), es2))"

definition discard :: "string \<Rightarrow> adhoc_store \<Rightarrow> adhoc_store" where
  "discard token es = (if token = [] then es else AList.delete token es)"

definition clear :: "adhoc_store \<Rightarrow> adhoc_store" where
  "clear es = []"

section \<open>Runs\<close>

datatype adhoc_event =
    Store string seconds int int string string
  | Take seconds string int int
  | Discard string
  | Clear

fun adhoc_step :: "adhoc_event \<Rightarrow> adhoc_store \<Rightarrow> adhoc_store" where
  "adhoc_step (Store tok now u g un pw) es = snd (store_credentials tok now u g un pw es)"
| "adhoc_step (Take now tok u g) es = snd (take_credentials now tok u g es)"
| "adhoc_step (Discard tok) es = discard tok es"
| "adhoc_step Clear es = clear es"

definition adhoc_run :: "adhoc_event list \<Rightarrow> adhoc_store" where
  "adhoc_run evs = fold adhoc_step evs []"

text \<open>Events after which a token stored before is gone (or replaced).\<close>

fun consumes :: "string \<Rightarrow> adhoc_event \<Rightarrow> bool" where
  "consumes tok (Store t now u g un pw) = (t = tok)"
| "consumes tok (Take now t u g) = (t = tok)"
| "consumes tok (Discard t) = (t = tok)"
| "consumes tok Clear = True"

section \<open>Pruning only removes\<close>

lemma drop_oldest_subset: "set (drop_oldest es) \<subseteq> set es"
proof (induction es rule: drop_oldest.induct)
  case (1 es)
  then show ?case
    by (subst drop_oldest.simps) (auto dest: in_AList_delete)
qed

lemma drop_oldest_length: "length (drop_oldest es) \<le> MAX_ENTRIES"
proof (induction es rule: drop_oldest.induct)
  case (1 es)
  then show ?case by (subst drop_oldest.simps) auto
qed

lemma drop_oldest_distinct: "distinct (map fst es) \<Longrightarrow> distinct (map fst (drop_oldest es))"
proof (induction es rule: drop_oldest.induct)
  case (1 es)
  then show ?case by (subst drop_oldest.simps) (auto simp: distinct_delete)
qed

lemma drop_oldest_small [simp]: "length es \<le> MAX_ENTRIES \<Longrightarrow> drop_oldest es = es"
  by (subst drop_oldest.simps) simp

lemma fold_delete_subset: "set (fold AList.delete ks es) \<subseteq> set es"
  by (induction ks arbitrary: es) (auto dest: in_AList_delete)

lemma fold_delete_distinct:
  "distinct (map fst es) \<Longrightarrow> distinct (map fst (fold AList.delete ks es))"
  by (induction ks arbitrary: es) (auto simp: distinct_delete)

lemma map_of_fold_delete:
  "map_of (fold AList.delete ks es) k = (if k \<in> set ks then None else map_of es k)"
  by (induction ks arbitrary: es) (auto simp: dict_simps)

lemma length_fold_delete: "length (fold AList.delete ks es) \<le> length es"
  by (induction ks arbitrary: es) (auto intro: order_trans length_AList_delete_le)

lemma prune_locked_subset: "set (prune_locked now es) \<subseteq> set es"
  unfolding prune_locked_def using drop_oldest_subset fold_delete_subset by fast

lemma prune_locked_distinct:
  "distinct (map fst es) \<Longrightarrow> distinct (map fst (prune_locked now es))"
  by (simp add: prune_locked_def drop_oldest_distinct fold_delete_distinct)

lemma prune_locked_length: "length (prune_locked now es) \<le> MAX_ENTRIES"
  by (simp add: prune_locked_def drop_oldest_length)

lemmas adhoc_ops = store_credentials_def take_credentials_def discard_def clear_def Let_def

lemma take_credentials_state:
  "token \<noteq> [] \<Longrightarrow> snd (take_credentials now token u g es) = AList.delete token (prune_locked now es)"
  by (simp add: take_credentials_def Let_def split: option.splits)

lemma adhoc_step_distinct: "distinct (map fst es) \<Longrightarrow> distinct (map fst (adhoc_step e es))"
  by (cases e) (auto simp: adhoc_ops prune_locked_distinct distinct_update distinct_delete
        split: option.splits)

lemma adhoc_run_distinct: "distinct (map fst (adhoc_run evs))"
  unfolding adhoc_run_def
  by (induction evs rule: rev_induct) (auto simp: adhoc_step_distinct)

lemma adhoc_run_snoc [simp]: "adhoc_run (evs @ [e]) = adhoc_step e (adhoc_run evs)"
  by (simp add: adhoc_run_def)

section \<open>Provenance of an entry\<close>

definition stored_by :: "adhoc_event list \<Rightarrow> string \<Rightarrow> adhoc_entry \<Rightarrow> bool" where
  "stored_by evs tok e \<longleftrightarrow>
     (\<exists>pre post now.
        evs = pre @ Store tok now (e_user_id e) (e_guest_id e) (e_username e) (e_password e) # post \<and>
        e_expires_at e = now + TTL_SECONDS \<and> list_all (\<lambda>ev. \<not> consumes tok ev) post)"

lemma stored_by_snoc: "stored_by evs tok e \<Longrightarrow> \<not> consumes tok ev \<Longrightarrow> stored_by (evs @ [ev]) tok e"
  unfolding stored_by_def by fastforce

lemma stored_by_new:
  "stored_by (evs @ [Store tok now u g un pw]) tok
     \<lparr>e_user_id = u, e_guest_id = g, e_username = un, e_password = pw, e_expires_at = now + TTL_SECONDS\<rparr>"
  unfolding stored_by_def by fastforce

lemma kept_entry_old:
  "(tok, e) \<in> set (adhoc_step ev es) \<Longrightarrow> \<not> consumes tok ev \<Longrightarrow> (tok, e) \<in> set es"
  using prune_locked_subset
  by (cases ev) (auto simp: adhoc_ops split: option.splits if_splits
        dest!: in_AList_update in_AList_delete)

lemma update_entry_unique:
  "distinct (map fst es) \<Longrightarrow> (k, e) \<in> set (AList.update k v es) \<Longrightarrow> e = v"
  by (induction es) (auto split: if_splits simp: image_iff)

lemma consumed_entry:
  assumes "(tok, e) \<in> set (adhoc_step ev es)" and "consumes tok ev" and "tok \<noteq> []"
    and "distinct (map fst es)"
  shows "\<exists>now u g un pw. ev = Store tok now u g un pw \<and>
     e = \<lparr>e_user_id = u, e_guest_id = g, e_username = un, e_password = pw, e_expires_at = now + TTL_SECONDS\<rparr>"
  using assms
proof (cases ev)
  case (Store t now u g un pw)
  with assms show ?thesis
    using update_entry_unique[OF prune_locked_distinct[OF assms(4)]]
    by (fastforce simp: store_credentials_def)
next
  case (Take now t u g)
  with assms show ?thesis
    by (auto simp: take_credentials_state AList.delete_eq)
next
  case (Discard t)
  with assms show ?thesis by (auto simp: discard_def AList.delete_eq)
next
  case Clear
  with assms show ?thesis by (simp add: clear_def)
qed

lemma adhoc_provenance:
  "(tok, e) \<in> set (adhoc_run evs) \<Longrightarrow> tok \<noteq> [] \<Longrightarrow> stored_by evs tok e"
proof (induction evs rule: rev_induct)
  case Nil
  then show ?case by (simp add: adhoc_run_def)
next
  case (snoc ev evs)
  show ?case
  proof (cases "consumes tok ev")
    case True
    with snoc.prems consumed_entry[OF _ True, of e "adhoc_run evs"] adhoc_run_distinct[of evs]
    obtain now u g un pw where "ev = Store tok now u g un pw"
      "e = \<lparr>e_user_id = u, e_guest_id = g, e_username = un, e_password = pw, e_expires_at = now + TTL_SECONDS\<rparr>"
      by auto
    then show ?thesis by (simp add: stored_by_new)
  next
    case False
    with snoc show ?thesis by (auto dest: kept_entry_old intro: stored_by_snoc)
  qed
qed

section \<open>Nothing unexpired is lost while the store is small\<close>

fun event_time :: "adhoc_event \<Rightarrow> seconds option" where
  "event_time (Store t now u g un pw) = Some now"
| "event_time (Take now t u g) = Some now"
| "event_time (Discard t) = None"
| "event_time Clear = None"

fun is_store :: "adhoc_event \<Rightarrow> bool" where
  "is_store (Store t now u g un pw) = True"
| "is_store ev = False"

definition stores :: "adhoc_event list \<Rightarrow> nat" where
  "stores evs = length (filter is_store evs)"

lemma length_prune_le: "length (prune_locked now es) \<le> length es"
proof -
  have "length (drop_oldest xs) \<le> length xs" for xs
  proof (induction xs rule: drop_oldest.induct)
    case (1 xs)
    then show ?case
      by (subst drop_oldest.simps) (auto intro: order_trans length_AList_delete_le)
  qed
  then show ?thesis
    unfolding prune_locked_def using length_fold_delete order_trans by blast
qed

lemma adhoc_run_stores: "length (adhoc_run evs) \<le> stores evs"
proof (induction evs rule: rev_induct)
  case Nil
  then show ?case by (simp add: adhoc_run_def)
next
  case (snoc ev evs)
  then show ?case
    using length_prune_le[of _ "adhoc_run evs"] length_AList_delete_le[of _ "adhoc_run evs"]
    by (cases ev)
      (auto simp: stores_def adhoc_ops split: option.splits
         intro: order_trans[OF length_AList_update_le] order_trans[OF length_AList_delete_le]
                order_trans[OF length_prune_le])
qed

lemma prune_locked_keeps:
  assumes "length es \<le> MAX_ENTRIES" and "map_of es tok = Some e" and "now < e_expires_at e"
    and "distinct (map fst es)"
  shows "map_of (prune_locked now es) tok = Some e"
proof -
  have "tok \<notin> set (map fst (filter (\<lambda>te. e_expires_at (snd te) \<le> now) es))"
    using assms(2,3,4) by (auto dest!: map_of_SomeD dest: eq_key_imp_eq_value)
  moreover have "drop_oldest (fold AList.delete ks es) = fold AList.delete ks es" for ks
    using order_trans[OF length_fold_delete assms(1)] by simp
  ultimately show ?thesis
    using assms(2) by (simp add: prune_locked_def map_of_fold_delete)
qed

lemma kept_unconsumed:
  assumes "map_of es tok = Some e" and "\<not> consumes tok ev" and "length es \<le> MAX_ENTRIES"
    and "distinct (map fst es)" and "\<And>t. event_time ev = Some t \<Longrightarrow> t < e_expires_at e"
  shows "map_of (adhoc_step ev es) tok = Some e"
  using assms prune_locked_keeps[OF assms(3,1)]
  by (cases ev) (auto simp: adhoc_ops dict_simps split: option.splits)

lemma adhoc_kept:
  assumes "list_all (\<lambda>ev. \<not> consumes tok ev) post"
    and "\<forall>ev \<in> set post. \<forall>t. event_time ev = Some t \<longrightarrow> t < e_expires_at e"
    and "stores (pre @ post) \<le> MAX_ENTRIES" and "map_of (adhoc_run pre) tok = Some e"
  shows "map_of (adhoc_run (pre @ post)) tok = Some e"
  using assms
proof (induction post rule: rev_induct)
  case Nil
  then show ?case by simp
next
  case (snoc ev post)
  have "stores (pre @ post) \<le> MAX_ENTRIES" using snoc.prems(3) by (simp add: stores_def)
  moreover from this have "length (adhoc_run (pre @ post)) \<le> MAX_ENTRIES"
    using adhoc_run_stores order_trans by blast
  ultimately have "map_of (adhoc_step ev (adhoc_run (pre @ post))) tok = Some e"
    using snoc adhoc_run_distinct by (intro kept_unconsumed) auto
  then show ?case by (simp flip: append_assoc)
qed


lemma take_credentials_Some:
  assumes "fst (take_credentials now tok u g es) = Some (un, pw)"
  shows "\<exists>e. map_of (prune_locked now es) tok = Some e \<and> now < e_expires_at e \<and>
    e_user_id e = u \<and> e_guest_id e = g \<and> e_username e = un \<and> e_password e = pw \<and> tok \<noteq> []"
  using assms by (auto simp: take_credentials_def Let_def split: if_splits option.splits)

text \<open>A run that fills the store: stores under pairwise distinct tokens at one instant.\<close>

definition burst :: "string list \<Rightarrow> adhoc_event list" where
  "burst toks = map (\<lambda>tok. Store tok 0 1 1 ''root'' ''pw'') toks"

lemma burst_expiry: "te \<in> set (adhoc_run (burst toks)) \<Longrightarrow> e_expires_at (snd te) = TTL_SECONDS"
  unfolding burst_def
proof (induction toks rule: rev_induct)
  case Nil
  then show ?case by (simp add: adhoc_run_def)
next
  case (snoc tok toks)
  then show ?case
    using prune_locked_subset
    by (auto simp: store_credentials_def dest!: in_AList_update)
qed

lemma burst_keys:
  "distinct toks \<Longrightarrow> length toks \<le> Suc MAX_ENTRIES \<Longrightarrow> map fst (adhoc_run (burst toks)) = toks"
proof (induction toks rule: rev_induct)
  case Nil
  then show ?case by (simp add: adhoc_run_def burst_def)
next
  case (snoc tok toks)
  let ?es = "adhoc_run (burst toks)"
  have keys: "map fst ?es = toks" using snoc by simp
  then have len: "length ?es \<le> MAX_ENTRIES" using snoc.prems(2) by (metis length_map length_append_singleton Suc_le_mono)
  have "filter (\<lambda>te. e_expires_at (snd te) \<le> 0) ?es = []"
    using burst_expiry[of _ toks] by (auto simp: filter_empty_conv TTL_SECONDS_def)
  then have "prune_locked 0 ?es = ?es" using len by (simp add: prune_locked_def)
  moreover have "burst (toks @ [tok]) = burst toks @ [Store tok 0 1 1 ''root'' ''pw'']"
    by (simp add: burst_def)
  moreover have "tok \<notin> set (map fst ?es)" using keys snoc.prems(1) by simp
  ultimately show ?case
    using keys by (simp add: store_credentials_def update_keys)
qed

section \<open>Properties\<close>

text \<open>
  Single use and scope. In every run of the store, if taking a token returns credentials, then
  they are exactly the ones stored under that token for the same user and the same guest, less than
  300 seconds ago, and no take, discard, clear or re-store of that token happened in between. A
  token is therefore never redeemed twice, nor by another user, nor for another guest.
\<close>

theorem adhoc_take_sound:
  assumes "fst (take_credentials now tok u g (adhoc_run evs)) = Some (un, pw)"
  shows "\<exists>pre post t. evs = pre @ Store tok t u g un pw # post \<and> now < t + TTL_SECONDS \<and>
           list_all (\<lambda>ev. \<not> consumes tok ev) post"
proof -
  from take_credentials_Some[OF assms] obtain e where
    e: "map_of (prune_locked now (adhoc_run evs)) tok = Some e" "now < e_expires_at e"
       "e_user_id e = u" "e_guest_id e = g" "e_username e = un" "e_password e = pw" "tok \<noteq> []"
    by blast
  then have "(tok, e) \<in> set (adhoc_run evs)"
    using prune_locked_subset by (fast dest: map_of_SomeD)
  with e(7) have "stored_by evs tok e" by (intro adhoc_provenance)
  then show ?thesis using e unfolding stored_by_def by metis
qed

theorem adhoc_take_sound_witness:
  "fst (take_credentials 7 ''t1'' 1 5 (adhoc_run [Store ''t1'' 0 1 5 ''root'' ''pw''])) =
     Some (''root'', ''pw'') \<and>
   (\<exists>pre post t. [Store ''t1'' 0 1 5 ''root'' ''pw''] = pre @ Store ''t1'' t 1 5 ''root'' ''pw'' # post \<and>
      7 < t + TTL_SECONDS \<and> list_all (\<lambda>ev. \<not> consumes ''t1'' ev) post)"
proof -
  have "fst (take_credentials 7 ''t1'' 1 5 (adhoc_run [Store ''t1'' 0 1 5 ''root'' ''pw''])) =
     Some (''root'', ''pw'')"
    by (simp add: adhoc_run_def adhoc_ops prune_locked_def TTL_SECONDS_def MAX_ENTRIES_def)
  with adhoc_take_sound[OF this] show ?thesis by blast
qed

text \<open>
  Redemption. While at most 256 credentials were ever stored in the run, a token that was stored
  and not consumed since is redeemed by its own user for its own guest at any time before its
  expiry, whatever stores, takes and discards of other tokens happened in between (their pruning
  included), and taking it once more then returns nothing.
\<close>

theorem adhoc_take_complete:
  assumes "evs = pre @ Store tok t u g un pw # post" and "tok \<noteq> []"
    and "list_all (\<lambda>ev. \<not> consumes tok ev) post"
    and "\<forall>ev \<in> set post. \<forall>v. event_time ev = Some v \<longrightarrow> v \<le> now" and "now < t + TTL_SECONDS"
    and "stores evs \<le> MAX_ENTRIES"
  shows "fst (take_credentials now tok u g (adhoc_run evs)) = Some (un, pw) \<and>
         fst (take_credentials now' tok u g (snd (take_credentials now tok u g (adhoc_run evs)))) = None"
proof -
  let ?e = "\<lparr>e_user_id = u, e_guest_id = g, e_username = un, e_password = pw, e_expires_at = t + TTL_SECONDS\<rparr>"
  let ?pre = "pre @ [Store tok t u g un pw]"
  have evs: "evs = ?pre @ post" using assms(1) by simp
  have "map_of (adhoc_run ?pre) tok = Some ?e"
    by (simp add: store_credentials_def dict_simps)
  then have m: "map_of (adhoc_run evs) tok = Some ?e"
    using adhoc_kept[of tok post ?e ?pre] assms(3-6) evs by fastforce
  have len: "length (adhoc_run evs) \<le> MAX_ENTRIES"
    using adhoc_run_stores assms(6) order_trans by blast
  have p: "map_of (prune_locked now (adhoc_run evs)) tok = Some ?e"
    using prune_locked_keeps[OF len m] adhoc_run_distinct assms(5) by simp
  have "map_of (AList.delete tok (prune_locked now (adhoc_run evs))) tok = None"
    by (simp add: dict_simps)
  then have "map_of (prune_locked now' (AList.delete tok (prune_locked now (adhoc_run evs)))) tok = None"
    using prune_locked_subset by (fastforce simp: map_of_eq_None_iff)
  then show ?thesis
    using p assms(2,5) take_credentials_state[OF assms(2), of now u g "adhoc_run evs"]
    by (simp add: take_credentials_def Let_def)
qed

theorem adhoc_take_complete_witness:
  "fst (take_credentials 7 ''t1'' 1 5
     (adhoc_run ([] @ Store ''t1'' 0 1 5 ''root'' ''pw'' # [Take 3 ''t2'' 1 5]))) = Some (''root'', ''pw'')"
  using adhoc_take_complete[OF refl, of "''t1''" "[Take 3 ''t2'' 1 5]" 7 0 "[]" 1 5 "''root''" "''pw''" 8]
  by (simp add: stores_def TTL_SECONDS_def MAX_ENTRIES_def)

text \<open>
  The size of the store. No run makes the store hold more than 257 entries. The bound is tight:
  pruning happens before the insertion, so the declared hard cap of 256 is exceeded by one entry in
  a reachable state.
\<close>

theorem adhoc_store_bounded:
  "length (adhoc_run evs) \<le> MAX_ENTRIES + 1 \<and> (\<exists>evs'. length (adhoc_run evs') = MAX_ENTRIES + 1)"
proof
  show "length (adhoc_run evs) \<le> MAX_ENTRIES + 1"
  proof (induction evs rule: rev_induct)
    case Nil
    then show ?case by (simp add: adhoc_run_def)
  next
    case (snoc ev evs)
    then show ?case
      using prune_locked_length
      by (cases ev)
        (auto simp: adhoc_ops le_SucI split: option.splits
           intro: order_trans[OF length_AList_update_le] order_trans[OF length_AList_delete_le])
  qed
  define toks where "toks = map (\<lambda>n. replicate (Suc n) CHR ''x'') [0..<Suc MAX_ENTRIES]"
  have "distinct toks"
    unfolding toks_def distinct_map by (auto intro!: inj_onI dest: arg_cong[where f = length])
  moreover have "length toks = Suc MAX_ENTRIES" by (simp add: toks_def)
  ultimately have "map fst (adhoc_run (burst toks)) = toks" by (intro burst_keys) auto
  then have "length (adhoc_run (burst toks)) = Suc MAX_ENTRIES"
    using \<open>length toks = Suc MAX_ENTRIES\<close> by (metis length_map)
  then show "\<exists>evs'. length (adhoc_run evs') = MAX_ENTRIES + 1" by auto
qed

end
