(* ===== verification/Collaboration.thy ===== *)
theory Collaboration
  imports Prelude
begin

text \<open>
  The real-time collaboration hub (\<^verbatim>\<open>src/core/collaboration.py\<close>): presence and activity
  fan-out to bounded per-user queues, shared terminal sessions with a ring buffer for late joiners,
  the session registry, and cursor positions. Each class is a record or dictionary with one state
  transformer per method. A queue object is its contents together with an identity number, since
  \<open>disconnect\<close> compares queues by identity.
\<close>

section \<open>Events\<close>

datatype json =
    JNull | JBool bool | JInt int | JStr string | JList "json list" | JDict "(string \<times> json) list"

type_synonym event = "(string \<times> json) list"

record presence =
  p_username :: string
  p_display_name :: string
  p_page :: string
  p_following :: "string option"

text \<open>What a subscriber's queue holds: a presence list, or a broadcast event.\<close>

datatype hub_msg = Presence "presence list" | Event event

text \<open>\<^verbatim>\<open>q.put_nowait(x)\<close> with \<^verbatim>\<open>queue.Full\<close> swallowed: drop rather than block.\<close>

definition put_nowait :: "nat \<Rightarrow> 'm \<Rightarrow> 'm list \<Rightarrow> 'm list" where
  "put_nowait maxsize x q = (if length q < maxsize then q @ [x] else q)"

section \<open>CollaborationHub\<close>

record hub_user =
  h_username :: string
  h_display_name :: string
  h_page :: string
  h_page_tag_ids :: "int list option"
  h_following :: "string option"
  h_last_seen :: seconds
  h_queue_id :: nat
  h_queue :: "hub_msg list"
  h_is_admin :: bool
  h_tag_ids :: "int list"
  h_can_moderate :: bool

type_synonym hub = "(int \<times> hub_user) list"

definition PRESENCE_TIMEOUT :: seconds where "PRESENCE_TIMEOUT = 90"
definition HUB_QUEUE_SIZE :: nat where "HUB_QUEUE_SIZE = 200"

definition tags_meet :: "int list \<Rightarrow> int list \<Rightarrow> bool" where
  "tags_meet xs ys \<longleftrightarrow> list_ex (\<lambda>x. List.member ys x) xs"

definition page_visible :: "int list option \<Rightarrow> bool \<Rightarrow> int list option \<Rightarrow> bool \<Rightarrow> bool" where
  "page_visible page_tags viewer_is_admin viewer_tags is_self =
     (case page_tags of
        None \<Rightarrow> True
      | Some ts \<Rightarrow>
          if viewer_is_admin \<or> is_self then True
          else tags_meet ts (case viewer_tags of None \<Rightarrow> [] | Some vs \<Rightarrow> vs))"

definition get_online_users ::
  "seconds \<Rightarrow> bool \<Rightarrow> int list option \<Rightarrow> int option \<Rightarrow> hub \<Rightarrow> presence list" where
  "get_online_users now viewer_is_admin viewer_tags viewer_id hub =
     map (\<lambda>(uid, u).
            \<lparr>p_username = h_username u, p_display_name = h_display_name u,
             p_page = (if page_visible (h_page_tag_ids u) viewer_is_admin viewer_tags (Some uid = viewer_id)
                       then h_page u else ''/''),
             p_following = h_following u\<rparr>)
       (filter (\<lambda>(uid, u). now - h_last_seen u < PRESENCE_TIMEOUT) hub)"

definition enqueue :: "hub_msg \<Rightarrow> hub_user \<Rightarrow> hub_user" where
  "enqueue m u = u\<lparr>h_queue := put_nowait HUB_QUEUE_SIZE m (h_queue u)\<rparr>"

text \<open>\<open>clk uid\<close> is the clock reading while the list for \<open>uid\<close> is built.\<close>

definition push_presence :: "(int \<Rightarrow> seconds) \<Rightarrow> hub \<Rightarrow> hub" where
  "push_presence clk hub =
     map (\<lambda>(uid, u).
            (uid, enqueue (Presence (get_online_users (clk uid) (h_is_admin u) (Some (h_tag_ids u)) (Some uid) hub)) u))
       hub"

definition connect ::
  "nat \<Rightarrow> seconds \<Rightarrow> (int \<Rightarrow> seconds) \<Rightarrow> int \<Rightarrow> string \<Rightarrow> string \<Rightarrow> string \<Rightarrow> bool \<Rightarrow>
   int list option \<Rightarrow> bool \<Rightarrow> int list option \<Rightarrow> hub \<Rightarrow> hub" where
  "connect qid now clk user_id username display_name page is_admin tag_ids can_moderate page_tags hub =
     push_presence clk
       (AList.update user_id
          \<lparr>h_username = username,
           h_display_name = str_or display_name username,
           h_page = page, h_page_tag_ids = page_tags, h_following = None,
           h_last_seen = now, h_queue_id = qid, h_queue = [], h_is_admin = is_admin,
           h_tag_ids = (case tag_ids of None \<Rightarrow> [] | Some ts \<Rightarrow> ts),
           h_can_moderate = can_moderate\<rparr>
          hub)"

definition disconnect :: "(int \<Rightarrow> seconds) \<Rightarrow> int \<Rightarrow> nat option \<Rightarrow> hub \<Rightarrow> hub" where
  "disconnect clk user_id event_queue hub =
     (case map_of hub user_id of
        None \<Rightarrow> hub
      | Some entry \<Rightarrow>
          if event_queue \<noteq> None \<and> event_queue \<noteq> Some (h_queue_id entry) then hub
          else push_presence clk (AList.delete user_id hub))"

definition update_presence ::
  "seconds \<Rightarrow> (int \<Rightarrow> seconds) \<Rightarrow> int \<Rightarrow> string \<Rightarrow> string option \<Rightarrow> int list option \<Rightarrow> hub \<Rightarrow> hub" where
  "update_presence now clk user_id page following page_tags hub =
     push_presence clk
       (case map_of hub user_id of
          None \<Rightarrow> hub
        | Some u \<Rightarrow>
            AList.update user_id
              (u\<lparr>h_page := page, h_page_tag_ids := page_tags, h_following := following, h_last_seen := now\<rparr>)
              hub)"

text \<open>\<^verbatim>\<open>event.get(key)\<close>, with a JSON null read as \<^verbatim>\<open>None\<close>.\<close>

definition event_get :: "string \<Rightarrow> event \<Rightarrow> json option" where
  "event_get k ev = (case map_of ev k of None \<Rightarrow> None | Some JNull \<Rightarrow> None | Some v \<Rightarrow> Some v)"

fun json_int :: "json \<Rightarrow> int option" where
  "json_int (JInt i) = Some i"
| "json_int _ = None"

fun json_ints :: "json \<Rightarrow> int list" where
  "json_ints (JList xs) = List.map_filter json_int xs"
| "json_ints _ = []"

fun json_truthy :: "json \<Rightarrow> bool" where
  "json_truthy JNull = False"
| "json_truthy (JBool b) = b"
| "json_truthy (JInt i) = (i \<noteq> 0)"
| "json_truthy (JStr s) = (s \<noteq> [])"
| "json_truthy (JList xs) = (xs \<noteq> [])"
| "json_truthy (JDict d) = (d \<noteq> [])"

definition event_tags :: "event \<Rightarrow> int list option" where
  "event_tags ev = map_option json_ints (event_get ''guest_tag_ids'' ev)"

definition event_moderators_only :: "event \<Rightarrow> bool" where
  "event_moderators_only ev = (case map_of ev ''moderators_only'' of None \<Rightarrow> False | Some v \<Rightarrow> json_truthy v)"

definition strip_routing :: "event \<Rightarrow> event" where
  "strip_routing ev =
     (let ev1 = (if event_get ''guest_tag_ids'' ev \<noteq> None then AList.delete ''guest_tag_ids'' ev else ev)
      in if map_of ev1 ''moderators_only'' \<noteq> None then AList.delete ''moderators_only'' ev1 else ev1)"

text \<open>The filter of the fan-out loop: may this recipient see the event?\<close>

definition receives :: "event \<Rightarrow> hub_user \<Rightarrow> bool" where
  "receives ev u \<longleftrightarrow>
     \<not> (case event_tags ev of
          None \<Rightarrow> False
        | Some ts \<Rightarrow> \<not> h_is_admin u \<and> \<not> tags_meet ts (h_tag_ids u)) \<and>
     \<not> (event_moderators_only ev \<and> \<not> h_can_moderate u)"

definition broadcast :: "event \<Rightarrow> hub \<Rightarrow> hub" where
  "broadcast ev hub =
     map (\<lambda>(uid, u). (uid, if receives ev u then enqueue (Event (strip_routing ev)) u else u)) hub"

section \<open>TerminalSession\<close>

datatype term_msg = TOutput string | TControl json

record term_session =
  ts_session_id :: string
  ts_guest_id :: int
  ts_guest_name :: string
  ts_owner_user_id :: int
  ts_owner_username :: string
  ts_queues :: "(nat \<times> term_msg list) list"
  ts_buffer_chunks :: "string list"
  ts_buffer_size :: int

definition MAX_BUFFER :: int where "MAX_BUFFER = 100 * 1024"
definition TERM_QUEUE_SIZE :: nat where "TERM_QUEUE_SIZE = 500"

definition new_terminal_session :: "string \<Rightarrow> int \<Rightarrow> string \<Rightarrow> int \<Rightarrow> string \<Rightarrow> term_session" where
  "new_terminal_session sid guest_id guest_name owner_id owner_name =
     \<lparr>ts_session_id = sid, ts_guest_id = guest_id, ts_guest_name = guest_name,
      ts_owner_user_id = owner_id, ts_owner_username = owner_name,
      ts_queues = [], ts_buffer_chunks = [], ts_buffer_size = 0\<rparr>"

definition snapshot :: "term_session \<Rightarrow> string" where
  "snapshot s = concat (ts_buffer_chunks s)"

definition add_subscriber :: "nat \<Rightarrow> term_session \<Rightarrow> term_msg list \<times> term_session" where
  "add_subscriber ws s =
     (let catchup = snapshot s;
          q = (if catchup \<noteq> [] then put_nowait TERM_QUEUE_SIZE (TOutput catchup) [] else [])
      in (q, s\<lparr>ts_queues := AList.update ws q (ts_queues s)\<rparr>))"

definition remove_subscriber :: "nat \<Rightarrow> term_session \<Rightarrow> term_session" where
  "remove_subscriber ws s = s\<lparr>ts_queues := AList.delete ws (ts_queues s)\<rparr>"

text \<open>The \<^verbatim>\<open>while\<close> loop of \<open>_append\<close>.\<close>

fun trim_buffer :: "string list \<Rightarrow> int \<Rightarrow> string list \<times> int" where
  "trim_buffer [] n = ([], n)"
| "trim_buffer (c # cs) n =
     (if n > MAX_BUFFER then trim_buffer cs (n - int (length c)) else (c # cs, n))"

definition append_output :: "string \<Rightarrow> term_session \<Rightarrow> term_session" where
  "append_output data s =
     (let (cs, n) = trim_buffer (ts_buffer_chunks s @ [data]) (ts_buffer_size s + int (length data))
      in s\<lparr>ts_buffer_chunks := cs, ts_buffer_size := n\<rparr>)"

definition enqueue_all :: "term_msg \<Rightarrow> term_session \<Rightarrow> term_session" where
  "enqueue_all m s = s\<lparr>ts_queues := map (\<lambda>(ws, q). (ws, put_nowait TERM_QUEUE_SIZE m q)) (ts_queues s)\<rparr>"

definition broadcast_output :: "string \<Rightarrow> term_session \<Rightarrow> term_session" where
  "broadcast_output data s = enqueue_all (TOutput data) (append_output data s)"

definition send_control :: "json \<Rightarrow> term_session \<Rightarrow> term_session" where
  "send_control msg s = enqueue_all (TControl msg) s"

definition follower_count :: "term_session \<Rightarrow> nat" where
  "follower_count s = length (ts_queues s) - 1"

section \<open>TerminalSessionRegistry\<close>

type_synonym registry = "(string \<times> term_session) list"

text \<open>\<open>sid\<close> is the fresh \<^verbatim>\<open>uuid.uuid4().hex\<close>.\<close>

definition registry_create ::
  "string \<Rightarrow> int \<Rightarrow> string \<Rightarrow> int \<Rightarrow> string \<Rightarrow> registry \<Rightarrow> term_session \<times> registry" where
  "registry_create sid guest_id guest_name owner_id owner_name r =
     (let s = new_terminal_session sid guest_id guest_name owner_id owner_name
      in (s, AList.update sid s r))"

definition registry_get :: "string \<Rightarrow> registry \<Rightarrow> term_session option" where
  "registry_get sid r = map_of r sid"

definition registry_remove :: "string \<Rightarrow> registry \<Rightarrow> registry" where
  "registry_remove sid r = AList.delete sid r"

definition registry_get_all :: "registry \<Rightarrow> term_session list" where
  "registry_get_all r = map snd r"

section \<open>CursorHub\<close>

record cursor =
  c_display_name :: string
  c_page :: string
  c_x_pct :: real
  c_y_pct :: real
  c_color :: string
  c_ts :: seconds

type_synonym cursors = "(string \<times> cursor) list"

definition CURSOR_EXPIRY :: seconds where "CURSOR_EXPIRY = 3"

definition cursor_update ::
  "seconds \<Rightarrow> string \<Rightarrow> string \<Rightarrow> string \<Rightarrow> real \<Rightarrow> real \<Rightarrow> string \<Rightarrow> cursors \<Rightarrow> cursors" where
  "cursor_update now username display_name page x y color cs =
     (let cs1 = AList.update username
                  \<lparr>c_display_name = display_name, c_page = page, c_x_pct = x, c_y_pct = y,
                   c_color = color, c_ts = now\<rparr> cs;
          stale = map fst (filter (\<lambda>(u, v). c_ts v < now - CURSOR_EXPIRY) cs1)
      in fold AList.delete stale cs1)"

record cursor_view =
  v_username :: string
  v_display_name :: string
  v_x_pct :: real
  v_y_pct :: real
  v_color :: string

definition cursors_for_page :: "seconds \<Rightarrow> string \<Rightarrow> string option \<Rightarrow> cursors \<Rightarrow> cursor_view list" where
  "cursors_for_page now page exclude_username cs =
     map (\<lambda>(u, v). \<lparr>v_username = u, v_display_name = c_display_name v, v_x_pct = c_x_pct v,
                   v_y_pct = c_y_pct v, v_color = c_color v\<rparr>)
       (filter (\<lambda>(u, v). c_page v = page \<and> Some u \<noteq> exclude_username \<and> now - c_ts v < CURSOR_EXPIRY) cs)"


section \<open>The hub as a step relation\<close>

text \<open>
  One rule per method, and one for the stream handler that takes a message off its own queue
  (\<^verbatim>\<open>event_queue.get\<close> in \<^verbatim>\<open>src/routes/api.py\<close>, \<open>collab_stream\<close>).
\<close>

inductive hub_step :: "hub \<Rightarrow> hub \<Rightarrow> bool" where
  hs_connect: "hub_step h (connect qid now clk uid un dn pg adm ts md pts h)"
| hs_disconnect: "hub_step h (disconnect clk uid q h)"
| hs_presence: "hub_step h (update_presence now clk uid pg fo pts h)"
| hs_broadcast: "hub_step h (broadcast ev h)"
| hs_consume: "map_of h uid = Some u \<Longrightarrow> h_queue u = m # q \<Longrightarrow>
     hub_step h (AList.update uid (u\<lparr>h_queue := q\<rparr>) h)"

inductive hub_reachable :: "hub \<Rightarrow> bool" where
  hr_init: "hub_reachable []"
| hr_step: "hub_reachable h \<Longrightarrow> hub_step h h' \<Longrightarrow> hub_reachable h'"

definition hub_inv :: "hub \<Rightarrow> bool" where
  "hub_inv h \<longleftrightarrow> distinct (map fst h) \<and> (\<forall>(uid, u) \<in> set h. length (h_queue u) \<le> HUB_QUEUE_SIZE)"

section \<open>Lemmas on the hub\<close>

lemma tags_meet_iff [simp]: "tags_meet xs ys \<longleftrightarrow> set xs \<inter> set ys \<noteq> {}"
  by (auto simp: tags_meet_def list_ex_iff)

lemma put_nowait_bound: "length q \<le> n \<Longrightarrow> length (put_nowait n m q) \<le> n"
  by (simp add: put_nowait_def)

lemma enqueue_bound:
  "length (h_queue u) \<le> HUB_QUEUE_SIZE \<Longrightarrow> length (h_queue (enqueue m u)) \<le> HUB_QUEUE_SIZE"
  by (simp add: enqueue_def put_nowait_bound)

lemma map_of_map_snd:
  "map_of (map (\<lambda>(k, v). (k, f k v)) al) k = map_option (f k) (map_of al k)"
  by (induction al) auto

lemma fst_comp_map_snd [simp]: "fst \<circ> (\<lambda>(k, v). (k, f k v)) = fst"
  by auto

lemma hub_inv_map:
  assumes "hub_inv h" and "\<And>k u. length (h_queue u) \<le> HUB_QUEUE_SIZE \<Longrightarrow> length (h_queue (f k u)) \<le> HUB_QUEUE_SIZE"
  shows "hub_inv (map (\<lambda>(k, u). (k, f k u)) h)"
  using assms by (auto simp: hub_inv_def)

lemma hub_inv_push: "hub_inv h \<Longrightarrow> hub_inv (push_presence clk h)"
  unfolding push_presence_def by (rule hub_inv_map) (auto intro: enqueue_bound)

lemma hub_inv_broadcast: "hub_inv h \<Longrightarrow> hub_inv (broadcast ev h)"
  unfolding broadcast_def by (rule hub_inv_map) (auto intro: enqueue_bound)

lemma hub_inv_update:
  "hub_inv h \<Longrightarrow> length (h_queue u) \<le> HUB_QUEUE_SIZE \<Longrightarrow> hub_inv (AList.update uid u h)"
  by (auto simp: hub_inv_def distinct_update dest!: in_AList_update)

lemma hub_inv_delete: "hub_inv h \<Longrightarrow> hub_inv (AList.delete uid h)"
  by (auto simp: hub_inv_def distinct_delete dest!: in_AList_delete)

lemma hub_inv_queue: "hub_inv h \<Longrightarrow> map_of h uid = Some u \<Longrightarrow> length (h_queue u) \<le> HUB_QUEUE_SIZE"
  by (auto simp: hub_inv_def dest!: map_of_SomeD)

lemma hub_step_inv: "hub_step h h' \<Longrightarrow> hub_inv h \<Longrightarrow> hub_inv h'"
proof (induction rule: hub_step.induct)
  case (hs_consume h uid u m q)
  then have "length (m # q) \<le> HUB_QUEUE_SIZE" using hub_inv_queue by fastforce
  with hs_consume show ?case by (intro hub_inv_update) auto
qed (auto simp: connect_def disconnect_def update_presence_def split: option.splits
      intro!: hub_inv_push hub_inv_broadcast hub_inv_update hub_inv_delete dest: hub_inv_queue)

lemma hub_reachable_inv: "hub_reachable h \<Longrightarrow> hub_inv h"
  by (induction rule: hub_reachable.induct) (auto simp: hub_inv_def[of "[]"] dest: hub_step_inv)

lemma map_of_broadcast:
  "map_of (broadcast ev h) uid =
   map_option (\<lambda>u. if receives ev u then enqueue (Event (strip_routing ev)) u else u) (map_of h uid)"
  unfolding broadcast_def by (rule map_of_map_snd)

lemma map_of_push_presence:
  "map_of (push_presence clk h) uid =
   map_option (\<lambda>u. enqueue (Presence (get_online_users (clk uid) (h_is_admin u) (Some (h_tag_ids u)) (Some uid) h)) u)
     (map_of h uid)"
  unfolding push_presence_def by (rule map_of_map_snd)

lemma strip_routing_keys:
  "map_of (strip_routing ev) ''moderators_only'' = None"
  "event_get ''guest_tag_ids'' (strip_routing ev) = None"
  "k \<noteq> ''moderators_only'' \<Longrightarrow> k \<noteq> ''guest_tag_ids'' \<Longrightarrow> map_of (strip_routing ev) k = map_of ev k"
  by (auto simp: strip_routing_def Let_def dict_simps event_get_def)

text \<open>The same user, moved to another guest page.\<close>

definition move_page :: "int \<Rightarrow> string \<Rightarrow> int list \<Rightarrow> hub \<Rightarrow> hub" where
  "move_page x pg ts h =
     map (\<lambda>(k, u). (k, if k = x then u\<lparr>h_page := pg, h_page_tag_ids := Some ts\<rparr> else u)) h"

lemma map_of_move_page:
  "map_of (move_page x pg ts h) uid =
   map_option (\<lambda>u. if uid = x then u\<lparr>h_page := pg, h_page_tag_ids := Some ts\<rparr> else u) (map_of h uid)"
  unfolding move_page_def by (rule map_of_map_snd)

lemma online_users_move_page:
  assumes "\<not> adm" and "v \<noteq> x" and "set ts \<inter> set vt = {}" and "set ts0 \<inter> set vt = {}"
    and "\<And>u. (x, u) \<in> set h \<Longrightarrow> h_page_tag_ids u = Some ts0"
  shows "get_online_users now adm (Some vt) (Some v) (move_page x pg ts h) =
         get_online_users now adm (Some vt) (Some v) h"
  using assms(5)
proof (induction h)
  case Nil
  then show ?case by (simp add: move_page_def)
next
  case (Cons a h)
  then show ?case
    using assms(1-4) by (cases a) (auto simp: get_online_users_def move_page_def page_visible_def)
qed

section \<open>Lemmas on the terminal buffer\<close>

definition total :: "string list \<Rightarrow> int" where
  "total cs = int (sum_list (map length cs))"

lemma total_simps [simp]:
  "total [] = 0" "total (c # cs) = int (length c) + total cs" "total (cs @ ds) = total cs + total ds"
  by (simp_all add: total_def)

lemma total_nonneg [simp]: "0 \<le> total cs"
  by (simp add: total_def)

text \<open>The loop keeps the longest suffix of the chunks that fits.\<close>

lemma trim_buffer_spec:
  "trim_buffer cs (total cs) = (ks, n) \<Longrightarrow>
   n = total ks \<and> n \<le> MAX_BUFFER \<and>
   (\<exists>ds. cs = ds @ ks \<and> (\<forall>d rest. ds = rest @ [d] \<longrightarrow> total (d # ks) > MAX_BUFFER))"
proof (induction cs)
  case Nil
  then show ?case by (simp add: MAX_BUFFER_def)
next
  case (Cons c cs)
  show ?case
  proof (cases "total (c # cs) > MAX_BUFFER")
    case True
    with Cons.prems have "trim_buffer cs (total cs) = (ks, n)" by simp
    from Cons.IH[OF this] obtain ds where
      ih: "n = total ks" "n \<le> MAX_BUFFER" "cs = ds @ ks"
          "\<forall>d rest. ds = rest @ [d] \<longrightarrow> total (d # ks) > MAX_BUFFER" by blast
    have "\<forall>d rest. c # ds = rest @ [d] \<longrightarrow> total (d # ks) > MAX_BUFFER"
    proof (intro allI impI)
      fix d rest assume eq: "c # ds = rest @ [d]"
      show "total (d # ks) > MAX_BUFFER"
      proof (cases rest)
        case Nil
        with eq ih True show ?thesis by simp
      next
        case (Cons r rest')
        with eq ih show ?thesis by simp
      qed
    qed
    with ih show ?thesis by (intro conjI exI[of _ "c # ds"]) auto
  next
    case False
    with Cons.prems show ?thesis by (auto intro: exI[of _ "[]"])
  qed
qed

definition buffer_inv :: "string list \<Rightarrow> term_session \<Rightarrow> bool" where
  "buffer_inv hist s \<longleftrightarrow>
     ts_buffer_size s = total (ts_buffer_chunks s) \<and> ts_buffer_size s \<le> MAX_BUFFER \<and>
     (\<exists>ds. hist = ds @ ts_buffer_chunks s \<and>
        (\<forall>d rest. ds = rest @ [d] \<longrightarrow> total (d # ts_buffer_chunks s) > MAX_BUFFER))"

lemma buffer_inv_append:
  assumes "buffer_inv hist s"
  shows "buffer_inv (hist @ [data]) (append_output data s)"
proof -
  obtain ks n where t: "trim_buffer (ts_buffer_chunks s @ [data]) (ts_buffer_size s + int (length data)) = (ks, n)"
    by force
  from assms obtain ds where s: "ts_buffer_size s = total (ts_buffer_chunks s)"
    "hist = ds @ ts_buffer_chunks s"
    "\<forall>d rest. ds = rest @ [d] \<longrightarrow> total (d # ts_buffer_chunks s) > MAX_BUFFER"
    unfolding buffer_inv_def by blast
  then have "trim_buffer (ts_buffer_chunks s @ [data]) (total (ts_buffer_chunks s @ [data])) = (ks, n)"
    using t by simp
  from trim_buffer_spec[OF this] obtain es where
    k: "n = total ks" "n \<le> MAX_BUFFER" "ts_buffer_chunks s @ [data] = es @ ks"
       "\<forall>d rest. es = rest @ [d] \<longrightarrow> total (d # ks) > MAX_BUFFER" by blast
  have "\<forall>d rest. ds @ es = rest @ [d] \<longrightarrow> total (d # ks) > MAX_BUFFER"
  proof (intro allI impI)
    fix d rest assume eq: "ds @ es = rest @ [d]"
    show "total (d # ks) > MAX_BUFFER"
    proof (cases es rule: rev_cases)
      case Nil
      with k(3) have "ks = ts_buffer_chunks s @ [data]" by simp
      with s(3) Nil eq show ?thesis by fastforce
    next
      case (snoc rest' d')
      with eq k(4) show ?thesis by auto
    qed
  qed
  then show ?thesis
    using s(2) k(1-3) t unfolding buffer_inv_def append_output_def Let_def
    by (auto intro!: exI[of _ "ds @ es"])
qed

lemma buffer_inv_enqueue [simp]: "buffer_inv hist (enqueue_all m s) = buffer_inv hist s"
  by (simp add: buffer_inv_def enqueue_all_def)

lemma append_output_queues [simp]: "ts_queues (append_output d s) = ts_queues s"
  by (simp add: append_output_def Let_def split: prod.splits)

lemma map_of_enqueue_all:
  "map_of (ts_queues (enqueue_all m s)) ws = map_option (put_nowait TERM_QUEUE_SIZE m) (map_of (ts_queues s) ws)"
  using map_of_map_snd[of "\<lambda>_. put_nowait TERM_QUEUE_SIZE m" "ts_queues s" ws]
  by (simp add: enqueue_all_def)

definition play :: "string list \<Rightarrow> term_session \<Rightarrow> term_session" where
  "play ds s = fold broadcast_output ds s"

lemma play_simps [simp]: "play [] s = s" "play (d # ds) s = play ds (broadcast_output d s)"
  by (simp_all add: play_def)

lemma play_buffer: "buffer_inv hist s \<Longrightarrow> buffer_inv (hist @ ds) (play ds s)"
proof (induction ds arbitrary: hist s)
  case Nil
  then show ?case by simp
next
  case (Cons d ds)
  then have "buffer_inv (hist @ [d]) (broadcast_output d s)"
    by (simp add: broadcast_output_def buffer_inv_append)
  from Cons.IH[OF this] show ?case by simp
qed

lemma play_queue:
  "map_of (ts_queues s) ws = Some q \<Longrightarrow> length q + length ds \<le> TERM_QUEUE_SIZE \<Longrightarrow>
   map_of (ts_queues (play ds s)) ws = Some (q @ map TOutput ds)"
proof (induction ds arbitrary: q s)
  case Nil
  then show ?case by simp
next
  case (Cons d ds)
  then have "map_of (ts_queues (broadcast_output d s)) ws = Some (q @ [TOutput d])"
    by (simp add: broadcast_output_def map_of_enqueue_all put_nowait_def)
  with Cons show ?case by simp
qed


section \<open>Properties\<close>

text \<open>
  C30. Who receives a broadcast. In every reachable state of the hub and for every event, a connected
  user's entry is unchanged except for its queue, and the queue grows by exactly the event without
  its routing keys when (1) the event names no guest tags, or the user is an administrator, or holds
  one of the tags, and (2) the event is not for moderators only, or the user is a moderator, and (3)
  the queue is not full; otherwise the queue is unchanged.
\<close>

theorem broadcast_delivers_exactly:
  assumes "hub_reachable h" and "map_of h uid = Some u"
  shows "\<exists>u'. map_of (broadcast ev h) uid = Some u' \<and> u' = u\<lparr>h_queue := h_queue u'\<rparr> \<and>
     h_queue u' =
       h_queue u @
       (if (event_tags ev = None \<or> h_is_admin u \<or> set (the (event_tags ev)) \<inter> set (h_tag_ids u) \<noteq> {}) \<and>
           (event_moderators_only ev \<longrightarrow> h_can_moderate u) \<and> length (h_queue u) < HUB_QUEUE_SIZE
        then [Event (strip_routing ev)] else []) \<and>
     event_get ''guest_tag_ids'' (strip_routing ev) = None \<and>
     map_of (strip_routing ev) ''moderators_only'' = None"
  using assms(2)
  by (auto simp: map_of_broadcast receives_def enqueue_def put_nowait_def strip_routing_keys
        split: option.splits)

definition sample_hub :: hub where
  "sample_hub =
     connect 2 0 (\<lambda>_. 0) 2 ''vera'' ''Vera'' ''/'' False (Some [7]) False None
       (connect 1 0 (\<lambda>_. 0) 1 ''omar'' ''Omar'' ''/guests/3'' False (Some [8]) False (Some [8]) [])"

lemma sample_hub_reachable: "hub_reachable sample_hub"
  unfolding sample_hub_def
  by (rule hub_reachable.hr_step[OF hub_reachable.hr_step[OF hub_reachable.hr_init
        hub_step.hs_connect] hub_step.hs_connect])

lemma sample_hub_users:
  "map_of sample_hub 2 \<noteq> None" "map_option h_is_admin (map_of sample_hub 2) = Some False"
  "map_option h_tag_ids (map_of sample_hub 2) = Some [7]"
  "map_option h_page_tag_ids (map_of sample_hub 1) = Some (Some [8])"
  by (simp_all add: sample_hub_def connect_def push_presence_def enqueue_def str_or_def)

theorem broadcast_delivers_exactly_witness:
  "\<exists>u u'. map_of sample_hub 2 = Some u \<and>
     map_of (broadcast [(''type'', JStr ''activity''), (''guest_tag_ids'', JList [JInt 8])] sample_hub) 2 = Some u' \<and>
     h_queue u' = h_queue u"
proof -
  obtain u where u: "map_of sample_hub 2 = Some u" using sample_hub_users(1) by blast
  then have "\<not> h_is_admin u" "h_tag_ids u = [7]" using sample_hub_users(2,3) by auto
  with broadcast_delivers_exactly[OF sample_hub_reachable u,
      of "[(''type'', JStr ''activity''), (''guest_tag_ids'', JList [JInt 8])]"] u
  show ?thesis
    by (auto simp: event_tags_def event_get_def map_filter_def)
qed

text \<open>
  Presence reveals nothing across the tag boundary. Let a viewer be connected who is no
  administrator and whose tags cover neither of two guests. If another connected user moves from the
  page of the first guest to any page of the second, then the presence message pushed to the viewer
  afterwards, and with it the viewer's whole entry, is the same as if the user had stayed: which
  guest outside the viewer's tags is being looked at cannot be observed.
\<close>

theorem presence_noninterference:
  assumes "hub_reachable h" and "map_of h v = Some uv" and "map_of h x = Some ux" and "v \<noteq> x"
    and "\<not> h_is_admin uv" and "h_page_tag_ids ux = Some ts0"
    and "set ts0 \<inter> set (h_tag_ids uv) = {}" and "set ts \<inter> set (h_tag_ids uv) = {}"
  shows "map_of (push_presence clk (move_page x pg ts h)) v = map_of (push_presence clk h) v"
proof -
  have "distinct (map fst h)" using hub_reachable_inv[OF assms(1)] by (simp add: hub_inv_def)
  then have "h_page_tag_ids u = Some ts0" if "(x, u) \<in> set h" for u
    using that assms(3,6) by (metis map_of_eq_Some_iff option.inject)
  then have "get_online_users (clk v) (h_is_admin uv) (Some (h_tag_ids uv)) (Some v) (move_page x pg ts h) =
             get_online_users (clk v) (h_is_admin uv) (Some (h_tag_ids uv)) (Some v) h"
    using assms by (intro online_users_move_page) auto
  then show ?thesis
    using assms(2,4) by (simp add: map_of_push_presence map_of_move_page)
qed

theorem presence_noninterference_witness:
  "map_of (push_presence (\<lambda>_. 0) (move_page 1 ''/guests/4'' [9] sample_hub)) 2 =
   map_of (push_presence (\<lambda>_. 0) sample_hub) 2"
proof -
  obtain uv ux where u: "map_of sample_hub 2 = Some uv" "map_of sample_hub 1 = Some ux"
    "\<not> h_is_admin uv" "h_tag_ids uv = [7]" "h_page_tag_ids ux = Some [8]"
    using sample_hub_users by auto
  show ?thesis
    using presence_noninterference[OF sample_hub_reachable u(1,2), of "[8]" "[9]"] u by simp
qed

text \<open>
  The reconnect race. If a user reconnects while an older connection is still closing, the late
  \<open>disconnect\<close> of the older connection's queue changes nothing: the new connection stays registered
  and no presence message is sent. The disconnect of the current queue does remove the user.
\<close>

theorem stale_disconnect_is_noop:
  assumes "old \<noteq> qid"
  shows "disconnect clk' uid (Some old) (connect qid now clk uid un dn pg adm ts md pts h) =
           connect qid now clk uid un dn pg adm ts md pts h \<and>
         map_of (disconnect clk' uid (Some qid) (connect qid now clk uid un dn pg adm ts md pts h)) uid = None"
proof -
  have "\<exists>u. map_of (connect qid now clk uid un dn pg adm ts md pts h) uid = Some u \<and> h_queue_id u = qid"
    by (simp add: connect_def map_of_push_presence dict_simps enqueue_def)
  with assms show ?thesis
    by (auto simp: disconnect_def map_of_push_presence dict_simps)
qed

theorem stale_disconnect_is_noop_witness:
  "disconnect (\<lambda>_. 0) 2 (Some 1) (connect 2 0 (\<lambda>_. 0) 2 ''vera'' ''Vera'' ''/'' False (Some [7]) False None []) =
   connect 2 0 (\<lambda>_. 0) 2 ''vera'' ''Vera'' ''/'' False (Some [7]) False None []"
  using stale_disconnect_is_noop[of 1 2] by simp

text \<open>
  Bounded queues. In every reachable state of the hub each user has one entry, and no
  subscriber's queue holds more than 200 messages, however slow the subscriber is.
\<close>

theorem hub_queues_bounded:
  assumes "hub_reachable h"
  shows "distinct (map fst h) \<and> (\<forall>(uid, u) \<in> set h. length (h_queue u) \<le> HUB_QUEUE_SIZE)"
  using hub_reachable_inv[OF assms] by (simp add: hub_inv_def)

theorem hub_queues_bounded_witness:
  "hub_reachable sample_hub \<and> distinct (map fst sample_hub) \<and>
   list_all (\<lambda>(uid, u). length (h_queue u) \<le> HUB_QUEUE_SIZE) sample_hub"
  using hub_queues_bounded[OF sample_hub_reachable] sample_hub_reachable
  by (simp add: list_all_iff)

text \<open>
  The late joiner of a shared terminal. After any outputs \<open>ds\<close> of a new session, the buffer is
  the longest run of most recent chunks whose total length is at most 100 KB, and its recorded size
  is their length. A subscriber joining then receives that text as one message (none when it is
  empty), and all of the next outputs in order as long as at most 499 arrive before it drains its
  queue.
\<close>

theorem late_joiner_catches_up:
  assumes "s = play ds (new_terminal_session sid gid gn oid on)"
    and "length es \<le> 499"
  shows "(\<exists>dropped. ds = dropped @ ts_buffer_chunks s \<and>
            (\<forall>d rest. dropped = rest @ [d] \<longrightarrow> total (d # ts_buffer_chunks s) > MAX_BUFFER)) \<and>
         ts_buffer_size s = total (ts_buffer_chunks s) \<and> ts_buffer_size s \<le> MAX_BUFFER \<and>
         map_of (ts_queues (play es (snd (add_subscriber ws s)))) ws =
           Some ((if snapshot s = [] then [] else [TOutput (concat (ts_buffer_chunks s))]) @ map TOutput es)"
proof -
  have "buffer_inv [] (new_terminal_session sid gid gn oid on)"
    by (simp add: buffer_inv_def new_terminal_session_def MAX_BUFFER_def)
  from play_buffer[OF this, of ds] have "buffer_inv ds s" using assms(1) by simp
  moreover have "map_of (ts_queues (snd (add_subscriber ws s))) ws =
      Some (if snapshot s = [] then [] else [TOutput (concat (ts_buffer_chunks s))])"
    by (simp add: add_subscriber_def Let_def dict_simps put_nowait_def TERM_QUEUE_SIZE_def snapshot_def)
  then have "map_of (ts_queues (play es (snd (add_subscriber ws s)))) ws =
      Some ((if snapshot s = [] then [] else [TOutput (concat (ts_buffer_chunks s))]) @ map TOutput es)"
    using assms(2) by (intro play_queue) (auto simp: TERM_QUEUE_SIZE_def)
  ultimately show ?thesis by (simp add: buffer_inv_def)
qed

theorem late_joiner_catches_up_witness:
  "map_of (ts_queues (play [''c''] (snd (add_subscriber 1 (play [''a'', ''b''] (new_terminal_session ''s'' 1 ''g'' 2 ''o'')))))) 1
   = Some [TOutput ''ab'', TOutput ''c'']"
  using late_joiner_catches_up[OF refl, of "[''c'']" "[''a'', ''b'']" "''s''" 1 "''g''" 2 "''o''" 1]
  by (simp add: snapshot_def play_def broadcast_output_def append_output_def enqueue_all_def
        new_terminal_session_def MAX_BUFFER_def Let_def)

end
