(* ===== verification/Data_Model.thy ===== *)
theory Data_Model
  imports Collaboration
begin

text \<open>
  The data of the application (\<^verbatim>\<open>src/models.py\<close>) that the modelled components read and
  write: one record per table, the tables as lists of rows, the whole database as a record, and the
  application state as the database together with the in-process collaboration hub. Columns that no
  modelled operation reads are left out. \<open>log_action\<close> (\<^verbatim>\<open>src/auth/audit.py\<close>) is here because
  every handler calls it: it adds an audit row and fans the action out through the hub.

  Tags of a guest and of a user are lists of tag ids (the association tables). Foreign keys are ids;
  \<open>role_of\<close> and its kin are the ORM's relationship look-ups.
\<close>

section \<open>Roles and permissions\<close>

datatype permission =
    Can_ssh | Can_update | Can_manage_users | Can_manage_settings | Can_manage_credentials
  | Can_view_hosts | Can_manage_hosts | Can_manage_guests | Can_restart_unifi | Can_view_audit_log
  | Can_view_services | Can_edit_services | Can_view_unifi | Can_view_ipmi | Can_manage_ipmi
  | Can_moderate | Can_use_ai | Can_view_guests | Can_moderate_staff | Can_maintain_mastodon_accounts

definition PERMISSION_FIELDS :: "(permission \<times> string) list" where
  "PERMISSION_FIELDS =
     [(Can_ssh, ''can_ssh''), (Can_update, ''can_update''), (Can_manage_users, ''can_manage_users''),
      (Can_manage_settings, ''can_manage_settings''),
      (Can_manage_credentials, ''can_manage_credentials''), (Can_view_hosts, ''can_view_hosts''),
      (Can_manage_hosts, ''can_manage_hosts''), (Can_manage_guests, ''can_manage_guests''),
      (Can_restart_unifi, ''can_restart_unifi''), (Can_view_audit_log, ''can_view_audit_log''),
      (Can_view_services, ''can_view_services''), (Can_edit_services, ''can_edit_services''),
      (Can_view_unifi, ''can_view_unifi''), (Can_view_ipmi, ''can_view_ipmi''),
      (Can_manage_ipmi, ''can_manage_ipmi''), (Can_moderate, ''can_moderate''),
      (Can_use_ai, ''can_use_ai''), (Can_view_guests, ''can_view_guests''),
      (Can_moderate_staff, ''can_moderate_staff''),
      (Can_maintain_mastodon_accounts, ''can_maintain_mastodon_accounts'')]"

definition BASE_TIER_LEVELS :: "(string \<times> int) list" where
  "BASE_TIER_LEVELS = [(''viewer'', 1), (''operator'', 2), (''admin'', 3)]"

text \<open>The permission columns of a role that are true, as a list.\<close>

record role =
  r_id :: int
  r_name :: string
  r_display_name :: string
  r_level :: int
  r_is_builtin :: bool
  r_base_tier :: "string option"
  r_perms :: "permission list"

section \<open>Users, tags, guests\<close>

record user =
  u_id :: int
  u_username :: string
  u_display_name :: "string option"
  u_password_hash :: string
  u_role_id :: int
  u_created_via :: string
  u_is_active_user :: bool
  u_timezone :: "string option"
  u_last_login_at :: "usec option"
  u_tokens_valid_after :: "usec option"
  u_must_change_password :: bool
  u_allowed_tags :: "int list"

record tag =
  t_id :: int
  t_name :: string
  t_color :: string
  t_unifi_networks :: "string list"

record guest =
  g_id :: int
  g_name :: string
  g_enabled :: bool
  g_tags :: "int list"

record guest_service =
  gs_id :: int
  gs_guest_id :: int

section \<open>Sessions, tokens, audit, settings\<close>

record user_session =
  s_id :: int
  s_user_id :: int
  s_session_id_hash :: string
  s_ip_address :: "string option"
  s_user_agent :: "string option"
  s_last_seen_at :: "usec option"
  s_revoked :: bool

record revoked_token =
  rt_jti :: string
  rt_expires_at :: usec

record audit_log =
  al_user_id :: "int option"
  al_action :: string
  al_resource_type :: string
  al_resource_id :: "int option"
  al_resource_name :: "string option"
  al_details :: json
  al_ip_address :: "string option"

text \<open>
  \<open>d_owned\<close> holds, as (table, user id), the rows of tables whose \<^verbatim>\<open>user_id\<close> column is
  \<^verbatim>\<open>nullable=False\<close> and that no ORM cascade deletes: AI chat sessions, AI usage logs and
  push webhooks.
\<close>

record db =
  d_roles :: "role list"
  d_users :: "user list"
  d_tags :: "tag list"
  d_guests :: "guest list"
  d_services :: "guest_service list"
  d_sessions :: "user_session list"
  d_revoked_tokens :: "revoked_token list"
  d_audit :: "audit_log list"
  d_settings :: "(string \<times> string) list"
  d_owned :: "(string \<times> int) list"

record app =
  a_db :: db
  a_hub :: hub

definition empty_db :: db where
  "empty_db = \<lparr>d_roles = [], d_users = [], d_tags = [], d_guests = [], d_services = [],
     d_sessions = [], d_revoked_tokens = [], d_audit = [], d_settings = [], d_owned = []\<rparr>"

section \<open>Queries\<close>

definition get_user :: "db \<Rightarrow> int \<Rightarrow> user option" where
  "get_user d i = first_row (\<lambda>u. u_id u = i) (d_users d)"

definition find_username :: "db \<Rightarrow> string \<Rightarrow> user option" where
  "find_username d n = first_row (\<lambda>u. u_username u = n) (d_users d)"

definition get_role :: "db \<Rightarrow> int \<Rightarrow> role option" where
  "get_role d i = first_row (\<lambda>r. r_id r = i) (d_roles d)"

definition find_role :: "db \<Rightarrow> string \<Rightarrow> role option" where
  "find_role d n = first_row (\<lambda>r. r_name r = n) (d_roles d)"

definition get_tag :: "db \<Rightarrow> int \<Rightarrow> tag option" where
  "get_tag d i = first_row (\<lambda>t. t_id t = i) (d_tags d)"

definition get_guest :: "db \<Rightarrow> int \<Rightarrow> guest option" where
  "get_guest d i = first_row (\<lambda>g. g_id g = i) (d_guests d)"

definition get_service :: "db \<Rightarrow> int \<Rightarrow> guest_service option" where
  "get_service d i = first_row (\<lambda>s. gs_id s = i) (d_services d)"

definition get_session :: "db \<Rightarrow> int \<Rightarrow> user_session option" where
  "get_session d i = first_row (\<lambda>s. s_id s = i) (d_sessions d)"

text \<open>\<^verbatim>\<open>user.role_obj\<close>\<close>

definition role_of :: "db \<Rightarrow> user \<Rightarrow> role option" where
  "role_of d u = get_role d (u_role_id u)"

definition put_user :: "user \<Rightarrow> db \<Rightarrow> db" where
  "put_user u d = d\<lparr>d_users := update_rows (\<lambda>r. u_id r = u_id u) (\<lambda>_. u) (d_users d)\<rparr>"

definition setting_get :: "db \<Rightarrow> string \<Rightarrow> string \<Rightarrow> string" where
  "setting_get d k dflt = (case map_of (d_settings d) k of None \<Rightarrow> dflt | Some v \<Rightarrow> v)"

definition setting_set :: "string \<Rightarrow> string \<Rightarrow> db \<Rightarrow> db" where
  "setting_set k v d = d\<lparr>d_settings := AList.update k v (d_settings d)\<rparr>"

section \<open>The audit log (auth/audit.py)\<close>

text \<open>
  What \<open>log_action\<close> reads of the request: whether there is one, the authenticated user, the
  client's address; and the ISO time stamp of the broadcast.
\<close>

record req_ctx =
  q_in_request :: bool
  q_user :: "user option"
  q_client_ip :: "string option"
  q_ts :: string

definition BACKGROUND_ACTOR :: string where "BACKGROUND_ACTOR = ''system''"

definition NO_BROADCAST_ACTIONS :: "string list" where
  "NO_BROADCAST_ACTIONS = [''guest_ssh_disconnect'']"

record log_entry =
  l_action :: string
  l_resource_type :: string
  l_resource_id :: "int option"
  l_resource_name :: "string option"
  l_details :: json
  l_actor :: "string option"
  l_audience :: "string option"

definition log_user :: "req_ctx \<Rightarrow> user option" where
  "log_user q = (if q_in_request q then q_user q else None)"

definition audit_row :: "req_ctx \<Rightarrow> log_entry \<Rightarrow> audit_log" where
  "audit_row q l =
     \<lparr>al_user_id = map_option u_id (log_user q), al_action = l_action l,
      al_resource_type = l_resource_type l, al_resource_id = l_resource_id l,
      al_resource_name = l_resource_name l, al_details = l_details l,
      al_ip_address = (if q_in_request q then q_client_ip q else None)\<rparr>"

definition broadcast_name :: "req_ctx \<Rightarrow> log_entry \<Rightarrow> string" where
  "broadcast_name q l =
     (case log_user q of
        Some u \<Rightarrow> str_or (opt_str (u_display_name u)) (u_username u)
      | None \<Rightarrow> if q_in_request q then ''anonymous''
               else str_or (opt_str (l_actor l)) BACKGROUND_ACTOR)"

definition activity_payload :: "db \<Rightarrow> req_ctx \<Rightarrow> log_entry \<Rightarrow> event" where
  "activity_payload d q l =
     [(''type'', JStr ''activity''), (''action'', JStr (l_action l)),
      (''resource_type'', JStr (l_resource_type l)),
      (''resource_name'', JStr (opt_str (l_resource_name l))),
      (''username'', JStr (broadcast_name q l)), (''ts'', JStr (q_ts q))] @
     (if l_audience l = Some ''moderators'' then [(''moderators_only'', JBool True)] else []) @
     (case l_resource_id l of
        Some i \<Rightarrow>
          if l_resource_type l = ''guest'' then
            [(''guest_id'', JInt i),
             (''guest_tag_ids'',
              JList (map JInt (case get_guest d i of None \<Rightarrow> [] | Some g \<Rightarrow> g_tags g)))]
          else []
      | None \<Rightarrow> [])"

definition log_action :: "req_ctx \<Rightarrow> log_entry \<Rightarrow> app \<Rightarrow> app" where
  "log_action q l a =
     (let d = a_db a; d' = d\<lparr>d_audit := d_audit d @ [audit_row q l]\<rparr> in
      if l_action l \<in> set NO_BROADCAST_ACTIONS then a\<lparr>a_db := d'\<rparr>
      else a\<lparr>a_db := d', a_hub := broadcast (activity_payload d' q l) (a_hub a)\<rparr>)"

definition entry :: "string \<Rightarrow> string \<Rightarrow> int option \<Rightarrow> string option \<Rightarrow> json \<Rightarrow> log_entry" where
  "entry action rtype rid rname details =
     \<lparr>l_action = action, l_resource_type = rtype, l_resource_id = rid, l_resource_name = rname,
      l_details = details, l_actor = None, l_audience = None\<rparr>"

section \<open>Lemmas\<close>

lemmas query_defs = get_user_def find_username_def get_role_def find_role_def get_tag_def
  get_guest_def get_service_def get_session_def role_of_def

lemma get_user_id: "get_user d i = Some u \<Longrightarrow> u_id u = i"
  by (auto simp: get_user_def dest: first_row_Some)

lemma get_user_put_user:
  "get_user (put_user u d) i =
     (if i = u_id u then map_option (\<lambda>_. u) (get_user d i) else get_user d i)"
proof -
  have "first_row (\<lambda>r. u_id r = i) (update_rows (\<lambda>r. u_id r = u_id u) (\<lambda>_. u) us) =
        (if i = u_id u then map_option (\<lambda>_. u) (first_row (\<lambda>r. u_id r = i) us)
         else first_row (\<lambda>r. u_id r = i) us)" for us
    by (induction us) auto
  then show ?thesis by (simp add: get_user_def put_user_def)
qed

lemma put_user_frame [simp]:
  "d_roles (put_user u d) = d_roles d" "d_tags (put_user u d) = d_tags d"
  "d_guests (put_user u d) = d_guests d" "d_sessions (put_user u d) = d_sessions d"
  "d_audit (put_user u d) = d_audit d" "d_settings (put_user u d) = d_settings d"
  "d_revoked_tokens (put_user u d) = d_revoked_tokens d" "d_owned (put_user u d) = d_owned d"
  "d_services (put_user u d) = d_services d"
  by (simp_all add: put_user_def)

lemma log_action_db [simp]:
  "a_db (log_action q l a) = (a_db a)\<lparr>d_audit := d_audit (a_db a) @ [audit_row q l]\<rparr>"
  by (simp add: log_action_def Let_def)

lemma setting_get_set [simp]:
  "setting_get (setting_set k v d) k' dflt = (if k = k' then v else setting_get d k' dflt)"
  by (simp add: setting_get_def setting_set_def dict_simps)

lemma setting_set_frame [simp]:
  "d_users (setting_set k v d) = d_users d" "d_roles (setting_set k v d) = d_roles d"
  "d_sessions (setting_set k v d) = d_sessions d" "d_audit (setting_set k v d) = d_audit d"
  "d_guests (setting_set k v d) = d_guests d" "d_tags (setting_set k v d) = d_tags d"
  by (simp_all add: setting_set_def)

lemma json_ints_map_JInt [simp]: "json_ints (JList (map JInt xs)) = xs"
  by (induction xs) (auto simp: map_filter_def)

lemma activity_payload_tags:
  "event_tags (activity_payload d q l) =
     (if l_resource_type l = ''guest'' \<and> l_resource_id l \<noteq> None
      then Some (case get_guest d (the (l_resource_id l)) of None \<Rightarrow> [] | Some g \<Rightarrow> g_tags g) else None)"
  by (auto simp: activity_payload_def event_tags_def event_get_def simp del: json_ints.simps
        split: option.splits)

lemma activity_payload_moderators:
  "event_moderators_only (activity_payload d q l) \<longleftrightarrow> l_audience l = Some ''moderators''"
  by (auto simp: activity_payload_def event_moderators_only_def split: option.splits)

end
