(* ===== verification/Permissions.thy ===== *)
theory Permissions
  imports Data_Model
begin

text \<open>
  Roles, permission flags and tag-based guest access: the properties of \<open>User\<close> in
  \<^verbatim>\<open>src/models.py\<close>, the built-in roles, and the start-up code of \<^verbatim>\<open>src/app.py\<close> that
  seeds the roles and creates the first administrator. The locale \<open>tag_scope\<close> is the contract every
  tag check of the application is meant to meet; it is interpreted on the hub's filter and on the
  page filter, and \<open>may_access_guest\<close> is shown to agree with it.
\<close>

section \<open>The built-in roles\<close>

definition all_permissions :: "permission list" where
  "all_permissions = map fst PERMISSION_FIELDS"

definition builtin_role :: "string \<Rightarrow> string \<Rightarrow> int \<Rightarrow> permission list \<Rightarrow> int \<Rightarrow> role" where
  "builtin_role name display level perms i =
     \<lparr>r_id = i, r_name = name, r_display_name = display, r_level = level, r_is_builtin = True,
      r_base_tier = None, r_perms = perms\<rparr>"

text \<open>Rows without their primary key, which the insertion assigns.\<close>

definition DEFAULT_ROLES :: "(int \<Rightarrow> role) list" where
  "DEFAULT_ROLES =
     [builtin_role ''super_admin'' ''Super Admin'' 4 all_permissions,
      builtin_role ''admin'' ''Admin'' 3
        (filter (\<lambda>p. p \<noteq> Can_manage_settings \<and> p \<noteq> Can_manage_credentials) all_permissions),
      builtin_role ''operator'' ''Operator'' 2
        [Can_ssh, Can_update, Can_view_hosts, Can_view_ipmi, Can_view_guests],
      builtin_role ''viewer'' ''Viewer'' 1 [Can_view_guests],
      builtin_role ''moderator'' ''Moderator'' 2 [Can_moderate]]"

definition add_role_row :: "(int \<Rightarrow> role) \<Rightarrow> db \<Rightarrow> db" where
  "add_role_row mk d = d\<lparr>d_roles := d_roles d @ [mk (next_id r_id (d_roles d))]\<rparr>"

definition seed_roles :: "db \<Rightarrow> db" where
  "seed_roles d = (if d_roles d \<noteq> [] then d else fold add_role_row DEFAULT_ROLES d)"

definition migrate_moderator_role :: "db \<Rightarrow> db" where
  "migrate_moderator_role d =
     (if find_role d ''moderator'' \<noteq> None then d
      else add_role_row (builtin_role ''moderator'' ''Moderator'' 2 [Can_moderate]) d)"

section \<open>Properties of a user\<close>

definition user_role :: "db \<Rightarrow> user \<Rightarrow> string" where
  "user_role d u = (case role_of d u of None \<Rightarrow> ''viewer'' | Some r \<Rightarrow> r_name r)"

definition role_level :: "db \<Rightarrow> user \<Rightarrow> int" where
  "role_level d u = (case role_of d u of None \<Rightarrow> 1 | Some r \<Rightarrow> r_level r)"

definition is_active :: "user \<Rightarrow> bool" where
  "is_active u = u_is_active_user u"

definition is_super_admin :: "db \<Rightarrow> user \<Rightarrow> bool" where
  "is_super_admin d u = (case role_of d u of None \<Rightarrow> False | Some r \<Rightarrow> r_name r = ''super_admin'')"

definition is_admin :: "db \<Rightarrow> user \<Rightarrow> bool" where
  "is_admin d u \<longleftrightarrow> role_level d u \<ge> 3"

text \<open>The twenty \<^verbatim>\<open>can_*\<close> properties: one definition, the flag as a parameter.\<close>

definition can :: "permission \<Rightarrow> db \<Rightarrow> user \<Rightarrow> bool" where
  "can p d u =
     (if is_super_admin d u then True
      else case role_of d u of None \<Rightarrow> False | Some r \<Rightarrow> List.member (r_perms r) p)"

definition can_access_guest :: "db \<Rightarrow> user \<Rightarrow> guest \<Rightarrow> bool" where
  "can_access_guest d u g =
     (if is_super_admin d u then True
      else if g_tags g = [] then False
      else tags_meet (u_allowed_tags u) (g_tags g))"

definition may_access_guest :: "db \<Rightarrow> user \<Rightarrow> guest \<Rightarrow> bool" where
  "may_access_guest d u g \<longleftrightarrow> is_admin d u \<or> can_access_guest d u g"

definition accessible_guests :: "db \<Rightarrow> user \<Rightarrow> guest list" where
  "accessible_guests d u =
     (if is_super_admin d u then filter g_enabled (d_guests d)
      else if u_allowed_tags u = [] then []
      else filter (\<lambda>g. g_enabled g \<and> list_ex (\<lambda>t. List.member (u_allowed_tags u) t) (g_tags g)) (d_guests d))"

definition can_edit_user :: "db \<Rightarrow> user \<Rightarrow> user \<Rightarrow> bool" where
  "can_edit_user d u other =
     (if u_id u = u_id other then True
      else if is_super_admin d u then True
      else role_level d u > role_level d other)"

section \<open>Passwords\<close>

text \<open>
  \<open>hash\<close> is what Werkzeug's \<^verbatim>\<open>generate_password_hash(password)\<close> returned, \<open>now\<close> the clock.
  The stamp is truncated to whole seconds and forced past the previous one.
\<close>

definition set_password :: "string \<Rightarrow> usec \<Rightarrow> user \<Rightarrow> user" where
  "set_password hash now u =
     (let stamp = now - now mod 1000000;
          stamp' = (case u_tokens_valid_after u of
                      None \<Rightarrow> stamp
                    | Some previous \<Rightarrow> if stamp \<le> previous then previous + 1000000 else stamp)
      in u\<lparr>u_password_hash := hash, u_tokens_valid_after := Some stamp', u_must_change_password := False\<rparr>)"

text \<open>\<open>chk\<close> is Werkzeug's \<^verbatim>\<open>check_password_hash\<close>.\<close>

definition check_password :: "(string \<Rightarrow> string \<Rightarrow> bool) \<Rightarrow> user \<Rightarrow> string \<Rightarrow> bool" where
  "check_password chk u pw = chk (u_password_hash u) pw"

text \<open>
  The bootstrap administrator. \<open>hash\<close> is the hash of the random password; writing the password
  file is outside the model.
\<close>

definition ensure_default_admin :: "string \<Rightarrow> usec \<Rightarrow> db \<Rightarrow> db" where
  "ensure_default_admin hash now d =
     (if d_users d \<noteq> [] then d
      else case find_role d ''super_admin'' of
        None \<Rightarrow> d
      | Some sa \<Rightarrow>
          let admin = \<lparr>u_id = 1, u_username = ''admin'', u_display_name = Some ''Administrator'',
                       u_password_hash = [], u_role_id = r_id sa, u_created_via = ''local'',
                       u_is_active_user = True, u_timezone = None, u_last_login_at = None,
                       u_tokens_valid_after = None, u_must_change_password = False, u_allowed_tags = []\<rparr>;
              admin' = (set_password hash now admin)\<lparr>u_must_change_password := True\<rparr>
          in d\<lparr>d_users := [admin']\<rparr>)"

section \<open>The contract of a tag check\<close>

text \<open>
  \<open>vis ts adm vs\<close>: may a viewer (an administrator or not, holding the tags \<open>vs\<close>) see something
  about a guest with the tags \<open>ts\<close>, or, for \<^term>\<open>None\<close>, about no guest at all?
\<close>

locale tag_scope =
  fixes vis :: "int list option \<Rightarrow> bool \<Rightarrow> int list \<Rightarrow> bool"
  assumes vis_public: "vis None adm vs"
    and vis_admin: "vis tso True vs"
    and vis_tagged: "vis (Some ts) False vs \<longleftrightarrow> set ts \<inter> set vs \<noteq> {}"
begin

lemma vis_iff: "vis ts adm vs \<longleftrightarrow> (case ts of None \<Rightarrow> True | Some t \<Rightarrow> adm \<or> set t \<inter> set vs \<noteq> {})"
  using vis_public vis_admin vis_tagged by (cases adm) (auto split: option.splits)

lemma untagged_admin_only: "vis (Some []) adm vs \<longleftrightarrow> adm"
  by (simp add: vis_iff)

lemma more_tags_see_more: "vis ts adm vs \<Longrightarrow> set vs \<subseteq> set ws \<Longrightarrow> vis ts adm ws"
  by (auto simp: vis_iff split: option.splits)

end

interpretation hub_scope: tag_scope
  "\<lambda>ts adm vs. page_visible ts adm (Some vs) False"
  by unfold_locales (auto simp: page_visible_def split: option.splits)

interpretation event_scope: tag_scope
  "\<lambda>ts adm vs. receives (case ts of None \<Rightarrow> [] | Some t \<Rightarrow> [(''guest_tag_ids'', JList (map JInt t))])
     \<lparr>h_username = [], h_display_name = [], h_page = [], h_page_tag_ids = None, h_following = None,
      h_last_seen = 0, h_queue_id = 0, h_queue = [], h_is_admin = adm, h_tag_ids = vs,
      h_can_moderate = False\<rparr>"
  by unfold_locales
    (auto simp: receives_def event_tags_def event_get_def event_moderators_only_def
       simp del: json_ints.simps split: option.splits)

section \<open>Well-formed roles\<close>

text \<open>
  What the role handlers keep: the role called \<open>super_admin\<close> has the admin level, role names and
  keys are unique.
\<close>

definition roles_ok :: "db \<Rightarrow> bool" where
  "roles_ok d \<longleftrightarrow>
     (\<forall>r \<in> set (d_roles d). r_name r = ''super_admin'' \<longrightarrow> r_level r \<ge> 3) \<and>
     distinct (map r_id (d_roles d)) \<and> distinct (map r_name (d_roles d))"

lemmas user_props = user_role_def role_level_def is_active_def is_super_admin_def is_admin_def can_def

lemma super_admin_is_admin: "roles_ok d \<Longrightarrow> is_super_admin d u \<Longrightarrow> is_admin d u"
  by (auto simp: roles_ok_def user_props role_of_def get_role_def split: option.splits
        dest!: first_row_Some)

lemma may_access_guest_iff:
  assumes "roles_ok d"
  shows "may_access_guest d u g \<longleftrightarrow> is_admin d u \<or> set (g_tags g) \<inter> set (u_allowed_tags u) \<noteq> {}"
  using super_admin_is_admin[OF assms] by (auto simp: may_access_guest_def can_access_guest_def)

lemma set_password_stamp:
  assumes "u_tokens_valid_after u = Some p"
  shows "\<exists>s. u_tokens_valid_after (set_password h now u) = Some s \<and> p < s"
  using assms by (auto simp: set_password_def Let_def)

lemma accessible_guests_iff:
  "g \<in> set (accessible_guests d u) \<longleftrightarrow> g \<in> set (d_guests d) \<and> g_enabled g \<and> can_access_guest d u g"
  by (auto simp: accessible_guests_def can_access_guest_def list_ex_iff)

definition seeded_db :: db where
  "seeded_db = (seed_roles empty_db)
     \<lparr>d_guests := [\<lparr>g_id = 1, g_name = ''web'', g_enabled = True, g_tags = [7]\<rparr>],
      d_users := [\<lparr>u_id = 1, u_username = ''ann'', u_display_name = None, u_password_hash = [],
        u_role_id = 2, u_created_via = ''local'', u_is_active_user = True, u_timezone = None,
        u_last_login_at = None, u_tokens_valid_after = None, u_must_change_password = False,
        u_allowed_tags = []\<rparr>]\<rparr>"

lemma seeded_roles:
  "d_roles (seed_roles empty_db) =
     [builtin_role ''super_admin'' ''Super Admin'' 4 all_permissions 1,
      builtin_role ''admin'' ''Admin'' 3
        (filter (\<lambda>p. p \<noteq> Can_manage_settings \<and> p \<noteq> Can_manage_credentials) all_permissions) 2,
      builtin_role ''operator'' ''Operator'' 2
        [Can_ssh, Can_update, Can_view_hosts, Can_view_ipmi, Can_view_guests] 3,
      builtin_role ''viewer'' ''Viewer'' 1 [Can_view_guests] 4,
      builtin_role ''moderator'' ''Moderator'' 2 [Can_moderate] 5]"
  by (simp add: seed_roles_def empty_db_def DEFAULT_ROLES_def add_role_row_def next_id_def builtin_role_def)

lemma seeded_db_simps [simp]:
  "d_roles seeded_db = d_roles (seed_roles empty_db)"
  "d_guests seeded_db = [\<lparr>g_id = 1, g_name = ''web'', g_enabled = True, g_tags = [7]\<rparr>]"
  by (simp_all add: seeded_db_def)

lemma seeded_db_ok: "roles_ok seeded_db"
  by (simp add: roles_ok_def seeded_roles) (simp add: builtin_role_def)

text \<open>
  The guest listing against the access check. \<open>accessible_guests\<close> (the read paths) lists exactly
  the enabled guests that \<open>may_access_guest\<close> (the write paths) allows, for every user but one kind:
  an administrator-tier user who is no super administrator is allowed every guest but is listed only
  those that share one of his tags. So the two agree if and only if the user is no such
  administrator, or his tags happen to reach every enabled guest.
\<close>

theorem guest_listing_exact:
  assumes "roles_ok d"
  shows "(\<forall>g. g \<in> set (accessible_guests d u) \<longleftrightarrow>
               g \<in> set (d_guests d) \<and> g_enabled g \<and> may_access_guest d u g)
         \<longleftrightarrow> (\<not> is_admin d u \<or> is_super_admin d u \<or>
              (\<forall>g \<in> set (d_guests d). g_enabled g \<longrightarrow> set (g_tags g) \<inter> set (u_allowed_tags u) \<noteq> {}))"
  using super_admin_is_admin[OF assms]
  by (auto simp: accessible_guests_iff may_access_guest_def can_access_guest_def)

theorem guest_listing_exact_witness:
  "\<not> (\<forall>g. g \<in> set (accessible_guests seeded_db (hd (d_users seeded_db))) \<longleftrightarrow>
        g \<in> set (d_guests seeded_db) \<and> g_enabled g \<and> may_access_guest seeded_db (hd (d_users seeded_db)) g)"
  unfolding guest_listing_exact[OF seeded_db_ok]
  by (simp add: user_props role_of_def get_role_def seeded_roles)
    (simp add: seeded_db_def builtin_role_def)

end
