(* ===== verification/Startup.thy ===== *)
theory Startup
  imports Permissions
begin

text \<open>
  The database part of \<^verbatim>\<open>create_app\<close> (\<^verbatim>\<open>src/app.py\<close>): table creation, the column
  migrations with their one-time backfills, the unique index on guests, the exporter migration, the
  role seed and the bootstrap administrator, in the order of the source.

  A database is the rows of \<^typ>\<open>db\<close> with its schema: the tables that exist and, of the columns the
  migrations consult, those that are present. A migration runs SQL inside
  \<^verbatim>\<open>try/except\<close>: the parameter \<open>fault\<close> says, for each statement by its label, whether it
  raises, and a raising statement is rolled back.
\<close>

record host_exporter =
  he_type :: string
  he_port :: int
  he_status :: string
  he_version :: "string option"

record boot_state =
  b_tables :: "string list"
  b_columns :: "(string \<times> string) list"
  b_db :: db
  b_host_exporters :: "host_exporter list"
  b_guest_slots :: "(int \<times> int option) list"
  b_vmid_index :: bool

text \<open>The columns of the model classes that a migration may have to add.\<close>

definition MODEL_COLUMNS :: "(string \<times> string) list" where
  "MODEL_COLUMNS =
     [(''roles'', ''can_view_ipmi''), (''roles'', ''can_manage_ipmi''),
      (''proxmox_hosts'', ''ipmi_enabled''), (''proxmox_hosts'', ''ipmi_address''),
      (''proxmox_hosts'', ''ipmi_username''), (''proxmox_hosts'', ''ipmi_password''),
      (''proxmox_hosts'', ''ipmi_verify_ssl''), (''roles'', ''can_moderate''),
      (''roles'', ''can_use_ai''), (''guests'', ''lock_reason''),
      (''users'', ''tokens_valid_after''), (''users'', ''must_change_password''),
      (''roles'', ''can_view_guests''), (''roles'', ''can_moderate_staff''),
      (''roles'', ''can_maintain_mastodon_accounts'')]"

definition MODEL_TABLES :: "string list" where
  "MODEL_TABLES = remdups (map fst MODEL_COLUMNS)"

text \<open>
  \<^verbatim>\<open>db.create_all()\<close>: a missing table is created with all its columns and, for
  guests, the unique index; an existing one is left as it is.
\<close>

definition create_all :: "boot_state \<Rightarrow> boot_state" where
  "create_all s =
     (let fresh = filter (\<lambda>t. t \<notin> set (b_tables s)) MODEL_TABLES in
      s\<lparr>b_tables := b_tables s @ fresh,
        b_columns := b_columns s @ filter (\<lambda>c. fst c \<in> set fresh \<and> c \<notin> set (b_columns s)) MODEL_COLUMNS,
        b_vmid_index := b_vmid_index s \<or> ''guests'' \<in> set fresh\<rparr>)"

section \<open>Columns\<close>

text \<open>What the rows hold in a column that has just been added: its SQL default.\<close>

definition column_permission :: "string \<Rightarrow> permission option" where
  "column_permission c = map_of (map (\<lambda>(p, n). (n, p)) PERMISSION_FIELDS) c"

definition drop_permission :: "permission \<Rightarrow> role \<Rightarrow> role" where
  "drop_permission p r = r\<lparr>r_perms := filter (\<lambda>q. q \<noteq> p) (r_perms r)\<rparr>"

definition column_default :: "string \<Rightarrow> string \<Rightarrow> db \<Rightarrow> db" where
  "column_default t c d =
     (if t = ''roles'' then
        (case column_permission c of
           None \<Rightarrow> d
         | Some p \<Rightarrow> d\<lparr>d_roles := map (drop_permission p) (d_roles d)\<rparr>)
      else if t = ''users'' \<and> c = ''tokens_valid_after'' then
        d\<lparr>d_users := map (\<lambda>u. u\<lparr>u_tokens_valid_after := None\<rparr>) (d_users d)\<rparr>
      else if t = ''users'' \<and> c = ''must_change_password'' then
        d\<lparr>d_users := map (\<lambda>u. u\<lparr>u_must_change_password := False\<rparr>) (d_users d)\<rparr>
      else d)"

definition add_column_if_missing ::
  "(string \<Rightarrow> bool) \<Rightarrow> string \<Rightarrow> string \<Rightarrow> boot_state \<Rightarrow> bool \<times> boot_state" where
  "add_column_if_missing fault t c s =
     (if (t, c) \<in> set (b_columns s) \<or> fault (t @ ''.'' @ c) then (False, s)
      else (True, s\<lparr>b_columns := b_columns s @ [(t, c)], b_db := column_default t c (b_db s)\<rparr>))"

text \<open>\<^verbatim>\<open>UPDATE roles SET <permission> = 1 WHERE ...\<close>\<close>

definition grant :: "permission \<Rightarrow> (role \<Rightarrow> bool) \<Rightarrow> boot_state \<Rightarrow> boot_state" where
  "grant p which s =
     s\<lparr>b_db := (b_db s)\<lparr>d_roles :=
        update_rows which (\<lambda>r. r\<lparr>r_perms := List.insert p (r_perms r)\<rparr>) (d_roles (b_db s))\<rparr>\<rparr>"

definition builtin_admin :: "role \<Rightarrow> bool" where
  "builtin_admin r \<longleftrightarrow> r_name r = ''super_admin'' \<or> r_name r = ''admin''"

definition admin_tier :: "role \<Rightarrow> bool" where
  "admin_tier r \<longleftrightarrow> r_level r \<ge> 3"

section \<open>The migrations\<close>

text \<open>
  A column and its backfill. The driver does not open a transaction for
  \<^verbatim>\<open>ALTER TABLE\<close>, so that a failing \<^verbatim>\<open>UPDATE\<close> leaves the column in place.
\<close>

definition backfilled_column ::
  "(string \<Rightarrow> bool) \<Rightarrow> string \<Rightarrow> permission \<Rightarrow> (role \<Rightarrow> bool) \<Rightarrow> boot_state \<Rightarrow> boot_state" where
  "backfilled_column fault c p which s =
     (let (added, s1) = add_column_if_missing fault ''roles'' c s in
      if \<not> added then s1
      else if fault (''grant '' @ c) then s1
      else grant p which s1)"

definition migrate_moderation_columns :: "(string \<Rightarrow> bool) \<Rightarrow> boot_state \<Rightarrow> boot_state" where
  "migrate_moderation_columns fault =
     backfilled_column fault ''can_moderate'' Can_moderate builtin_admin"

definition migrate_ai_columns :: "(string \<Rightarrow> bool) \<Rightarrow> boot_state \<Rightarrow> boot_state" where
  "migrate_ai_columns fault s = snd (add_column_if_missing fault ''roles'' ''can_use_ai'' s)"

definition host_ipmi_columns :: "(string \<Rightarrow> bool) \<Rightarrow> boot_state \<Rightarrow> boot_state" where
  "host_ipmi_columns fault s =
     fold (\<lambda>c s. snd (add_column_if_missing fault ''proxmox_hosts'' c s))
       [''ipmi_enabled'', ''ipmi_address'', ''ipmi_username'', ''ipmi_password'', ''ipmi_verify_ssl''] s"

text \<open>The two grants are one transaction: if either raises, both are rolled back.\<close>

definition ipmi_backfill :: "(string \<Rightarrow> bool) \<Rightarrow> bool \<Rightarrow> bool \<Rightarrow> boot_state \<Rightarrow> boot_state" where
  "ipmi_backfill fault added_view added_manage s =
     (if added_view \<and> fault ''grant can_view_ipmi'' \<or> added_manage \<and> fault ''grant can_manage_ipmi'' then s
      else let s1 = (if added_view then grant Can_view_ipmi builtin_admin s else s)
           in if added_manage then grant Can_manage_ipmi builtin_admin s1 else s1)"

definition migrate_ipmi_columns :: "(string \<Rightarrow> bool) \<Rightarrow> boot_state \<Rightarrow> boot_state" where
  "migrate_ipmi_columns fault s =
     (let (added_view, s1) = add_column_if_missing fault ''roles'' ''can_view_ipmi'' s;
          (added_manage, s2) = add_column_if_missing fault ''roles'' ''can_manage_ipmi'' s1
      in host_ipmi_columns fault (ipmi_backfill fault added_view added_manage s2))"

definition migrate_guest_lock_column :: "(string \<Rightarrow> bool) \<Rightarrow> boot_state \<Rightarrow> boot_state" where
  "migrate_guest_lock_column fault s = snd (add_column_if_missing fault ''guests'' ''lock_reason'' s)"

definition migrate_user_security_columns :: "(string \<Rightarrow> bool) \<Rightarrow> boot_state \<Rightarrow> boot_state" where
  "migrate_user_security_columns fault s =
     snd (add_column_if_missing fault ''users'' ''must_change_password''
       (snd (add_column_if_missing fault ''users'' ''tokens_valid_after'' s)))"

definition migrate_guest_view_permission :: "(string \<Rightarrow> bool) \<Rightarrow> boot_state \<Rightarrow> boot_state" where
  "migrate_guest_view_permission fault =
     backfilled_column fault ''can_view_guests'' Can_view_guests (\<lambda>_. True)"

definition migrate_moderate_staff_permission :: "(string \<Rightarrow> bool) \<Rightarrow> boot_state \<Rightarrow> boot_state" where
  "migrate_moderate_staff_permission fault =
     backfilled_column fault ''can_moderate_staff'' Can_moderate_staff admin_tier"

definition migrate_maintain_accounts_permission :: "(string \<Rightarrow> bool) \<Rightarrow> boot_state \<Rightarrow> boot_state" where
  "migrate_maintain_accounts_permission fault =
     backfilled_column fault ''can_maintain_mastodon_accounts'' Can_maintain_mastodon_accounts admin_tier"

text \<open>\<^verbatim>\<open>CREATE UNIQUE INDEX IF NOT EXISTS\<close>: fails when two guests of a host share a VMID.\<close>

definition ensure_guest_vmid_unique_index :: "(string \<Rightarrow> bool) \<Rightarrow> boot_state \<Rightarrow> boot_state" where
  "ensure_guest_vmid_unique_index fault s =
     (if b_vmid_index s \<or> fault ''uq_guest_host_vmid'' then s
      else if distinct (filter (\<lambda>(h, v). v \<noteq> None) (b_guest_slots s)) then s\<lparr>b_vmid_index := True\<rparr>
      else s)"

definition migrate_smcipmi_to_ipmi_exporter :: "(string \<Rightarrow> bool) \<Rightarrow> boot_state \<Rightarrow> boot_state" where
  "migrate_smcipmi_to_ipmi_exporter fault s =
     (if fault ''smcipmi_exporter'' then s
      else s\<lparr>b_host_exporters :=
        update_rows (\<lambda>e. he_type e = ''smcipmi_exporter'')
          (\<lambda>e. e\<lparr>he_type := ''ipmi_exporter'', he_port := 9290, he_status := ''pending'',
                  he_version := None\<rparr>) (b_host_exporters s)\<rparr>)"

definition run_migrations :: "(string \<Rightarrow> bool) \<Rightarrow> boot_state \<Rightarrow> boot_state" where
  "run_migrations fault s0 =
     ensure_guest_vmid_unique_index fault
       (migrate_maintain_accounts_permission fault
       (migrate_moderate_staff_permission fault
       (migrate_guest_view_permission fault
       (migrate_user_security_columns fault
       (migrate_guest_lock_column fault
       (migrate_smcipmi_to_ipmi_exporter fault
       (migrate_ai_columns fault
       (migrate_moderation_columns fault
       (migrate_ipmi_columns fault s0)))))))))"

text \<open>
  Start-up. The role seed and the administrator are outside any \<^verbatim>\<open>try\<close>; the insertion of
  the moderator role is inside one.
\<close>

definition boot :: "(string \<Rightarrow> bool) \<Rightarrow> string \<Rightarrow> usec \<Rightarrow> boot_state \<Rightarrow> boot_state" where
  "boot fault hash now s0 =
     (let s1 = run_migrations fault (create_all s0);
          d1 = seed_roles (b_db s1);
          d2 = (if fault ''moderator role'' then d1 else migrate_moderator_role d1)
      in s1\<lparr>b_db := ensure_default_admin hash now d2\<rparr>)"

section \<open>A settled database\<close>

text \<open>A database that start-up has nothing left to do for.\<close>

definition settled :: "boot_state \<Rightarrow> bool" where
  "settled s \<longleftrightarrow>
     set MODEL_TABLES \<subseteq> set (b_tables s) \<and> set MODEL_COLUMNS \<subseteq> set (b_columns s) \<and>
     d_roles (b_db s) \<noteq> [] \<and> find_role (b_db s) ''moderator'' \<noteq> None \<and>
     (d_users (b_db s) \<noteq> [] \<or> find_role (b_db s) ''super_admin'' = None) \<and>
     (\<forall>e \<in> set (b_host_exporters s). he_type e \<noteq> ''smcipmi_exporter'') \<and>
     (b_vmid_index s \<or> \<not> distinct (filter (\<lambda>(h, v). v \<noteq> None) (b_guest_slots s)))"

lemmas simple_migration_defs = migrate_moderation_columns_def migrate_ai_columns_def
  migrate_guest_lock_column_def migrate_user_security_columns_def migrate_guest_view_permission_def
  migrate_moderate_staff_permission_def migrate_maintain_accounts_permission_def

lemmas migration_defs = simple_migration_defs host_ipmi_columns_def ipmi_backfill_def migrate_ipmi_columns_def

lemma add_column_present:
  "(t, c) \<in> set (b_columns s) \<Longrightarrow> add_column_if_missing fault t c s = (False, s)"
  by (simp add: add_column_if_missing_def)

lemma backfilled_present:
  "(''roles'', c) \<in> set (b_columns s) \<Longrightarrow> backfilled_column fault c p which s = s"
  by (simp add: backfilled_column_def add_column_present)

lemma create_all_present: "set MODEL_TABLES \<subseteq> set (b_tables s) \<Longrightarrow> create_all s = s"
proof -
  assume "set MODEL_TABLES \<subseteq> set (b_tables s)"
  then have "filter (\<lambda>t. t \<notin> set (b_tables s)) MODEL_TABLES = []" by (auto simp: filter_empty_conv)
  then show ?thesis by (simp add: create_all_def)
qed

lemma exporters_migrated:
  assumes "\<forall>e \<in> set (b_host_exporters s). he_type e \<noteq> ''smcipmi_exporter''"
  shows "migrate_smcipmi_to_ipmi_exporter fault s = s"
proof -
  have "update_rows (\<lambda>e. he_type e = ''smcipmi_exporter'') f (b_host_exporters s) = b_host_exporters s" for f
    using assms by (simp add: update_rows_def map_idI)
  then show ?thesis by (simp add: migrate_smcipmi_to_ipmi_exporter_def)
qed

lemma settled_migrations:
  assumes "set MODEL_COLUMNS \<subseteq> set (b_columns s)"
  shows "migrate_ipmi_columns fault s = s" "migrate_moderation_columns fault s = s"
    "migrate_ai_columns fault s = s" "migrate_guest_lock_column fault s = s"
    "migrate_user_security_columns fault s = s" "migrate_guest_view_permission fault s = s"
    "migrate_moderate_staff_permission fault s = s" "migrate_maintain_accounts_permission fault s = s"
  using assms by (simp_all add: migration_defs MODEL_COLUMNS_def add_column_present backfilled_present)

lemma settled_index:
  "b_vmid_index s \<or> \<not> distinct (filter (\<lambda>(h, v). v \<noteq> None) (b_guest_slots s)) \<Longrightarrow>
   ensure_guest_vmid_unique_index fault s = s"
  by (auto simp: ensure_guest_vmid_unique_index_def)

lemma settled_rows:
  assumes "d_roles d \<noteq> []" "find_role d ''moderator'' \<noteq> None"
    "d_users d \<noteq> [] \<or> find_role d ''super_admin'' = None"
  shows "seed_roles d = d" "migrate_moderator_role d = d" "ensure_default_admin hash now d = d"
  using assms by (auto simp: seed_roles_def migrate_moderator_role_def ensure_default_admin_def)

lemma settled_boot:
  assumes "settled s"
  shows "boot fault hash now s = s"
proof -
  note st = assms[unfolded settled_def]
  have m: "create_all s = s" "migrate_smcipmi_to_ipmi_exporter fault s = s"
      "ensure_guest_vmid_unique_index fault s = s"
    using st by (auto intro: create_all_present exporters_migrated settled_index)
  have r: "seed_roles (b_db s) = b_db s" "migrate_moderator_role (b_db s) = b_db s"
      "ensure_default_admin hash now (b_db s) = b_db s"
    using st by (auto intro: settled_rows)
  have c: "set MODEL_COLUMNS \<subseteq> set (b_columns s)" using st by blast
  show ?thesis unfolding boot_def run_migrations_def Let_def m settled_migrations[OF c] by (simp add: r)
qed

section \<open>Start-up settles the database\<close>

abbreviation no_fault :: "string \<Rightarrow> bool" where "no_fault \<equiv> \<lambda>_. False"

lemma grant_frame [simp]:
  "b_columns (grant p w s) = b_columns s" "b_tables (grant p w s) = b_tables s"
  "b_host_exporters (grant p w s) = b_host_exporters s" "b_guest_slots (grant p w s) = b_guest_slots s"
  "b_vmid_index (grant p w s) = b_vmid_index s"
  by (simp_all add: grant_def)

lemma add_column_frame [simp]:
  "b_tables (snd (add_column_if_missing f t c s)) = b_tables s"
  "b_host_exporters (snd (add_column_if_missing f t c s)) = b_host_exporters s"
  "b_guest_slots (snd (add_column_if_missing f t c s)) = b_guest_slots s"
  "b_vmid_index (snd (add_column_if_missing f t c s)) = b_vmid_index s"
  by (simp_all add: add_column_if_missing_def)

lemma add_column_columns [simp]:
  "set (b_columns (snd (add_column_if_missing no_fault t c s))) = insert (t, c) (set (b_columns s))"
  by (auto simp: add_column_if_missing_def)

lemma backfilled_frame [simp]:
  "b_tables (backfilled_column f c p w s) = b_tables s"
  "b_host_exporters (backfilled_column f c p w s) = b_host_exporters s"
  "b_guest_slots (backfilled_column f c p w s) = b_guest_slots s"
  "b_vmid_index (backfilled_column f c p w s) = b_vmid_index s"
  by (simp_all add: backfilled_column_def split_beta)

lemma backfilled_columns [simp]:
  "set (b_columns (backfilled_column no_fault c p w s)) = insert (''roles'', c) (set (b_columns s))"
  by (auto simp: backfilled_column_def add_column_if_missing_def)

lemma ipmi_backfill_frame [simp]:
  "b_columns (ipmi_backfill f v m s) = b_columns s" "b_tables (ipmi_backfill f v m s) = b_tables s"
  "b_host_exporters (ipmi_backfill f v m s) = b_host_exporters s"
  "b_guest_slots (ipmi_backfill f v m s) = b_guest_slots s"
  "b_vmid_index (ipmi_backfill f v m s) = b_vmid_index s"
  by (simp_all add: ipmi_backfill_def Let_def)

lemma host_ipmi_frame [simp]:
  "b_tables (host_ipmi_columns f s) = b_tables s"
  "b_host_exporters (host_ipmi_columns f s) = b_host_exporters s"
  "b_guest_slots (host_ipmi_columns f s) = b_guest_slots s"
  "b_vmid_index (host_ipmi_columns f s) = b_vmid_index s"
  by (simp_all add: host_ipmi_columns_def)

lemma host_ipmi_columns_columns [simp]:
  "set (b_columns (host_ipmi_columns no_fault s)) =
     {(''proxmox_hosts'', ''ipmi_enabled''), (''proxmox_hosts'', ''ipmi_address''),
      (''proxmox_hosts'', ''ipmi_username''), (''proxmox_hosts'', ''ipmi_password''),
      (''proxmox_hosts'', ''ipmi_verify_ssl'')} \<union> set (b_columns s)"
  by (simp add: host_ipmi_columns_def insert_commute)

lemma ipmi_frame [simp]:
  "b_tables (migrate_ipmi_columns f s) = b_tables s"
  "b_host_exporters (migrate_ipmi_columns f s) = b_host_exporters s"
  "b_guest_slots (migrate_ipmi_columns f s) = b_guest_slots s"
  "b_vmid_index (migrate_ipmi_columns f s) = b_vmid_index s"
  by (simp_all add: migrate_ipmi_columns_def split_beta Let_def)

lemma ipmi_columns [simp]:
  "set (b_columns (migrate_ipmi_columns no_fault s)) =
     {(''roles'', ''can_view_ipmi''), (''roles'', ''can_manage_ipmi''),
      (''proxmox_hosts'', ''ipmi_enabled''), (''proxmox_hosts'', ''ipmi_address''),
      (''proxmox_hosts'', ''ipmi_username''), (''proxmox_hosts'', ''ipmi_password''),
      (''proxmox_hosts'', ''ipmi_verify_ssl'')} \<union> set (b_columns s)"
  by (auto simp add: migrate_ipmi_columns_def split_beta Let_def)

lemma smcipmi_frame [simp]:
  "b_tables (migrate_smcipmi_to_ipmi_exporter f s) = b_tables s"
  "b_columns (migrate_smcipmi_to_ipmi_exporter f s) = b_columns s"
  "b_guest_slots (migrate_smcipmi_to_ipmi_exporter f s) = b_guest_slots s"
  "b_vmid_index (migrate_smcipmi_to_ipmi_exporter f s) = b_vmid_index s"
  by (simp_all add: migrate_smcipmi_to_ipmi_exporter_def)

lemma smcipmi_gone:
  "e \<in> set (b_host_exporters (migrate_smcipmi_to_ipmi_exporter no_fault s)) \<Longrightarrow>
   he_type e \<noteq> ''smcipmi_exporter''"
  by (auto simp: migrate_smcipmi_to_ipmi_exporter_def set_update_rows split: if_splits)

lemma index_frame [simp]:
  "b_tables (ensure_guest_vmid_unique_index f s) = b_tables s"
  "b_columns (ensure_guest_vmid_unique_index f s) = b_columns s"
  "b_host_exporters (ensure_guest_vmid_unique_index f s) = b_host_exporters s"
  "b_guest_slots (ensure_guest_vmid_unique_index f s) = b_guest_slots s"
  by (simp_all add: ensure_guest_vmid_unique_index_def)

lemma index_made:
  "b_vmid_index (ensure_guest_vmid_unique_index no_fault s) \<or>
   \<not> distinct (filter (\<lambda>(h, v). v \<noteq> None) (b_guest_slots s))"
  by (simp add: ensure_guest_vmid_unique_index_def)

lemma create_all_tables: "set MODEL_TABLES \<subseteq> set (b_tables (create_all s))"
  by (auto simp: create_all_def Let_def)

lemma find_role_add:
  "find_role (add_role_row mk d) n =
     (case find_role d n of
        None \<Rightarrow> (let r = mk (next_id r_id (d_roles d)) in if r_name r = n then Some r else None)
      | Some r \<Rightarrow> Some r)"
  by (simp add: find_role_def add_role_row_def first_row_def find_append Let_def split: option.splits)

lemma seeded_rows:
  fixes d hash now
  defines "d' \<equiv> ensure_default_admin hash now (migrate_moderator_role (seed_roles d))"
  shows "d_roles d' \<noteq> []" "find_role d' ''moderator'' \<noteq> None"
    "d_users d' \<noteq> [] \<or> find_role d' ''super_admin'' = None"
proof -
  let ?m = "migrate_moderator_role (seed_roles d)"
  have r: "d_roles d' = d_roles ?m"
    by (auto simp: d'_def ensure_default_admin_def Let_def split: option.splits)
  have m: "find_role ?m ''moderator'' \<noteq> None"
    by (auto simp: migrate_moderator_role_def find_role_add builtin_role_def Let_def split: option.splits)
  then show "find_role d' ''moderator'' \<noteq> None" using r by (simp add: find_role_def)
  show "d_roles d' \<noteq> []" using m r by (auto simp: find_role_def)
  show "d_users d' \<noteq> [] \<or> find_role d' ''super_admin'' = None"
    using r by (auto simp: d'_def ensure_default_admin_def Let_def find_role_def split: option.splits)
qed

lemma run_migrations_frame:
  "b_tables (run_migrations no_fault s) = b_tables s"
  "b_guest_slots (run_migrations no_fault s) = b_guest_slots s"
  "set MODEL_COLUMNS \<subseteq> set (b_columns (run_migrations no_fault s))"
  by (simp_all add: run_migrations_def simple_migration_defs MODEL_COLUMNS_def)

lemma run_migrations_exporters:
  "e \<in> set (b_host_exporters (run_migrations no_fault s)) \<Longrightarrow> he_type e \<noteq> ''smcipmi_exporter''"
  by (rule smcipmi_gone) (simp add: run_migrations_def simple_migration_defs)

lemma run_migrations_index:
  "b_vmid_index (run_migrations no_fault s) \<or>
   \<not> distinct (filter (\<lambda>(h, v). v \<noteq> None) (b_guest_slots (run_migrations no_fault s)))"
  unfolding run_migrations_def index_frame(4) by (rule index_made)

lemma boot_settles: "settled (boot no_fault h t s)"
proof -
  let ?s = "run_migrations no_fault (create_all s)"
  have "boot no_fault h t s =
      ?s\<lparr>b_db := ensure_default_admin h t (migrate_moderator_role (seed_roles (b_db ?s)))\<rparr>"
    by (simp add: boot_def Let_def)
  moreover have "set MODEL_TABLES \<subseteq> set (b_tables ?s)"
    using create_all_tables by (simp only: run_migrations_frame)
  ultimately show ?thesis
    using seeded_rows[where d = "b_db ?s" and hash = h and now = t]
      run_migrations_frame(3)[of "create_all s"] run_migrations_exporters[of _ "create_all s"]
      run_migrations_index[of "create_all s"]
    by (simp add: settled_def del: not_None_eq)
qed

text \<open>Any later edit of the permissions of the roles, such as the role editor makes.\<close>

definition customise :: "(role \<Rightarrow> permission list) \<Rightarrow> boot_state \<Rightarrow> boot_state" where
  "customise e s = s\<lparr>b_db := (b_db s)\<lparr>d_roles := map (\<lambda>r. r\<lparr>r_perms := e r\<rparr>) (d_roles (b_db s))\<rparr>\<rparr>"

lemma find_role_customise:
  "find_role (d\<lparr>d_roles := map (\<lambda>r. r\<lparr>r_perms := e r\<rparr>) (d_roles d)\<rparr>) n = None \<longleftrightarrow> find_role d n = None"
  by (simp add: find_role_def first_row_None)

lemma settled_customise: "settled s \<Longrightarrow> settled (customise e s)"
  by (simp add: settled_def customise_def find_role_customise del: not_None_eq)

text \<open>
  Migrations run once. Whatever the database at the first start of a release (fresh, or written
  by any earlier release) and whatever permissions the administrators then give the roles, every
  later start leaves the whole database as it is, even when some of its statements fail: no backfill
  is repeated, no customised role is reverted, no second administrator appears.
\<close>

theorem migrations_run_once:
  "boot fault h t (customise e (boot (\<lambda>_. False) h' t' s)) = customise e (boot (\<lambda>_. False) h' t' s)"
  by (rule settled_boot[OF settled_customise[OF boot_settles]])

end
