(* ===== verification/Ip_Address.thy ===== *)
theory Ip_Address
  imports Prelude "HOL-Library.Word"
begin

text \<open>
  The part of Python's \<^verbatim>\<open>ipaddress\<close> module that the trust decisions use: parsing of
  addresses and networks, membership, and the classification of an address as loopback or private
  (the tables are those of the IANA special-purpose registries that the module carries).
  An address is a 32-bit or a 128-bit word, a network a pair of network address and mask.
  \<^term>\<open>None\<close> is \<^verbatim>\<open>ValueError\<close>. A scope id of an IPv6 address is accepted and
  dropped, since membership and classification ignore it.
\<close>

unbundle bit_operations_syntax

datatype ip = V4 "32 word" | V6 "128 word"

datatype net = N4 "32 word" "32 word" | N6 "128 word" "128 word"

section \<open>Parsing addresses\<close>

definition parse_octet :: "string \<Rightarrow> nat option" where
  "parse_octet s =
     (if s = [] \<or> \<not> list_all ascii_digit s then None
      else if length s > 3 then None
      else if s \<noteq> ''0'' \<and> hd s = CHR ''0'' then None
      else let v = digits_value 0 s in if v > 255 then None else Some v)"

fun parse_all :: "(string \<Rightarrow> nat option) \<Rightarrow> string list \<Rightarrow> nat list option" where
  "parse_all f [] = Some []"
| "parse_all f (s # ss) =
     (case (f s, parse_all f ss) of (Some v, Some vs) \<Rightarrow> Some (v # vs) | _ \<Rightarrow> None)"

text \<open>The digits of a number in base \<open>b\<close>, most significant first.\<close>

definition base_value :: "nat \<Rightarrow> nat list \<Rightarrow> nat" where
  "base_value b ds = fold (\<lambda>d acc. acc * b + d) ds 0"

definition parse_v4 :: "string \<Rightarrow> nat option" where
  "parse_v4 s =
     (let octets = py_split (CHR ''.'') s in
      if length octets \<noteq> 4 then None else map_option (base_value 256) (parse_all parse_octet octets))"

definition hex_value :: "char \<Rightarrow> nat option" where
  "hex_value c =
     (let n = code c in
      if 48 \<le> n \<and> n \<le> 57 then Some (n - 48)
      else if 97 \<le> n \<and> n \<le> 102 then Some (n - 87)
      else if 65 \<le> n \<and> n \<le> 70 then Some (n - 55)
      else None)"

definition parse_hextet :: "string \<Rightarrow> nat option" where
  "parse_hextet s =
     (if s = [] \<or> length s > 4 then None
      else map_option (base_value 16) (parse_all (\<lambda>c. hex_value (hd c)) (map (\<lambda>c. [c]) s)))"

text \<open>
  The parts between the colons. An IPv4 suffix stands for two parts; it is kept as a value here,
  where the module prints it as two hexadecimal parts.
\<close>

datatype v6_part = Hex string | Val nat

definition is_empty_part :: "v6_part \<Rightarrow> bool" where
  "is_empty_part p \<longleftrightarrow> p = Hex []"

definition part_value :: "v6_part \<Rightarrow> nat option" where
  "part_value p = (case p of Hex s \<Rightarrow> parse_hextet s | Val n \<Rightarrow> Some n)"

fun parse_parts :: "v6_part list \<Rightarrow> nat list option" where
  "parse_parts [] = Some []"
| "parse_parts (p # ps) =
     (case (part_value p, parse_parts ps) of (Some v, Some vs) \<Rightarrow> Some (v # vs) | _ \<Rightarrow> None)"

definition v6_parts :: "string \<Rightarrow> v6_part list option" where
  "v6_parts s =
     (let parts = py_split (CHR '':'') s in
      if length parts < 3 then None
      else if List.member (last parts) (CHR ''.'') then
        (case parse_v4 (last parts) of
           None \<Rightarrow> None
         | Some v \<Rightarrow> Some (map Hex (butlast parts) @ [Val (v div 65536), Val (v mod 65536)]))
      else Some (map Hex parts))"

text \<open>The positions strictly inside the list that hold an empty part: the places of \<open>::\<close>.\<close>

definition skip_indices :: "v6_part list \<Rightarrow> nat list" where
  "skip_indices ps = filter (\<lambda>i. is_empty_part (ps ! i)) [1 ..< length ps - 1]"

definition v6_layout :: "v6_part list \<Rightarrow> v6_part list option" where
  "v6_layout ps =
     (case skip_indices ps of
        [] \<Rightarrow>
          if length ps \<noteq> 8 \<or> is_empty_part (hd ps) \<or> is_empty_part (last ps) then None else Some ps
      | [i] \<Rightarrow>
          let hi0 = i; lo0 = length ps - i - 1;
              hi = (if is_empty_part (hd ps) then hi0 - 1 else hi0);
              lo = (if is_empty_part (last ps) then lo0 - 1 else lo0)
          in if is_empty_part (hd ps) \<and> hi \<noteq> 0 then None
             else if is_empty_part (last ps) \<and> lo \<noteq> 0 then None
             else if hi + lo \<ge> 8 then None
             else Some (take hi ps @ replicate (8 - (hi + lo)) (Val 0) @ drop (length ps - lo) ps)
      | _ \<Rightarrow> None)"

definition parse_v6 :: "string \<Rightarrow> nat option" where
  "parse_v6 s =
     (if s = [] then None
      else case v6_parts s of
        None \<Rightarrow> None
      | Some ps \<Rightarrow>
          if length ps > 9 then None
          else (case v6_layout ps of
             None \<Rightarrow> None
           | Some qs \<Rightarrow> map_option (base_value 65536) (parse_parts qs)))"

definition split_scope_id :: "string \<Rightarrow> string option" where
  "split_scope_id s =
     (let addr = takeWhile (\<lambda>c. c \<noteq> CHR ''%'') s; rest = drop (length addr) s in
      if rest = [] then Some addr
      else if tl rest = [] \<or> List.member (tl rest) (CHR ''%'') then None
      else Some addr)"

definition ipv4_address :: "string \<Rightarrow> 32 word option" where
  "ipv4_address s = (if List.member s (CHR ''/'') then None else map_option of_nat (parse_v4 s))"

definition ipv6_address :: "string \<Rightarrow> 128 word option" where
  "ipv6_address s =
     (if List.member s (CHR ''/'') then None
      else case split_scope_id s of None \<Rightarrow> None | Some a \<Rightarrow> map_option of_nat (parse_v6 a))"

definition ip_address :: "string \<Rightarrow> ip option" where
  "ip_address s =
     (case ipv4_address s of
        Some a \<Rightarrow> Some (V4 a)
      | None \<Rightarrow> map_option V6 (ipv6_address s))"

section \<open>Networks\<close>

definition prefix_mask :: "nat \<Rightarrow> 'a::len word" where
  "prefix_mask p = NOT (drop_bit p (- 1))"

definition prefix_from_prefix_string :: "nat \<Rightarrow> string \<Rightarrow> nat option" where
  "prefix_from_prefix_string maxlen s =
     (if s = [] \<or> \<not> list_all ascii_digit s \<or> length s > 4300 then None
      else let v = digits_value 0 s in if v \<le> maxlen then Some v else None)"

text \<open>A dotted mask is a prefix length if it is one of the 33 masks, else if its complement is.\<close>

definition prefix_from_mask :: "32 word \<Rightarrow> nat option" where
  "prefix_from_mask m = find (\<lambda>p. prefix_mask p = m) [0 ..< 33]"

definition prefix_from_ip_string :: "string \<Rightarrow> nat option" where
  "prefix_from_ip_string s =
     (case parse_v4 s of
        None \<Rightarrow> None
      | Some v \<Rightarrow>
          (case prefix_from_mask (of_nat v) of
             Some p \<Rightarrow> Some p
           | None \<Rightarrow> prefix_from_mask (NOT (of_nat v))))"

definition split_netmask :: "string \<Rightarrow> (string \<times> string option) option" where
  "split_netmask s =
     (case py_split (CHR ''/'') s of
        [a] \<Rightarrow> Some (a, None)
      | [a, m] \<Rightarrow> Some (a, Some m)
      | _ \<Rightarrow> None)"

definition v4_prefixlen :: "string option \<Rightarrow> nat option" where
  "v4_prefixlen m =
     (case m of
        None \<Rightarrow> Some 32
      | Some s \<Rightarrow>
          (case prefix_from_prefix_string 32 s of
             Some p \<Rightarrow> Some p
           | None \<Rightarrow> prefix_from_ip_string s))"

definition v6_prefixlen :: "string option \<Rightarrow> nat option" where
  "v6_prefixlen m = (case m of None \<Rightarrow> Some 128 | Some s \<Rightarrow> prefix_from_prefix_string 128 s)"

definition mk_net4 :: "32 word \<Rightarrow> nat \<Rightarrow> net" where
  "mk_net4 a p = N4 (a AND prefix_mask p) (prefix_mask p)"

definition mk_net6 :: "128 word \<Rightarrow> nat \<Rightarrow> net" where
  "mk_net6 a p = N6 (a AND prefix_mask p) (prefix_mask p)"

text \<open>\<^verbatim>\<open>ip_network(s, strict=False)\<close>\<close>

definition ip_network :: "string \<Rightarrow> net option" where
  "ip_network s =
     (case split_netmask s of
        None \<Rightarrow> None
      | Some (a, m) \<Rightarrow>
          (case (ipv4_address a, v4_prefixlen m) of
             (Some w, Some p) \<Rightarrow> Some (mk_net4 w p)
           | _ \<Rightarrow>
               (case (ipv6_address a, v6_prefixlen m) of
                  (Some w, Some p) \<Rightarrow> Some (mk_net6 w p)
                | _ \<Rightarrow> None)))"

text \<open>\<^verbatim>\<open>addr in net\<close>\<close>

definition in_net :: "ip \<Rightarrow> net \<Rightarrow> bool" where
  "in_net a n =
     (case (a, n) of
        (V4 w, N4 b m) \<Rightarrow> w AND m = b
      | (V6 w, N6 b m) \<Rightarrow> w AND m = b
      | _ \<Rightarrow> False)"

section \<open>Classification\<close>

definition v4 :: "nat \<Rightarrow> nat \<Rightarrow> nat \<Rightarrow> nat \<Rightarrow> nat \<Rightarrow> net" where
  "v4 a b c d p = mk_net4 (of_nat (base_value 256 [a, b, c, d])) p"

definition v6 :: "nat list \<Rightarrow> nat \<Rightarrow> net" where
  "v6 hs p = mk_net6 (of_nat (base_value 65536 (hs @ replicate (8 - length hs) 0))) p"

definition private_v4 :: "net list" where
  "private_v4 =
     [v4 0 0 0 0 8, v4 10 0 0 0 8, v4 127 0 0 0 8, v4 169 254 0 0 16, v4 172 16 0 0 12, v4 192 0 0 0 24,
      v4 192 0 0 170 31, v4 192 0 2 0 24, v4 192 168 0 0 16, v4 198 18 0 0 15, v4 198 51 100 0 24,
      v4 203 0 113 0 24, v4 240 0 0 0 4, v4 255 255 255 255 32]"

definition private_v4_exceptions :: "net list" where
  "private_v4_exceptions = [v4 192 0 0 9 32, v4 192 0 0 10 32]"

definition private_v6 :: "net list" where
  "private_v6 =
     [v6 [0, 0, 0, 0, 0, 0, 0, 1] 128, v6 [] 128, v6 [0, 0, 0, 0, 0, 0xffff] 96, v6 [0x64, 0xff9b, 1] 48,
      v6 [0x100] 64, v6 [0x2001] 23, v6 [0x2001, 0xdb8] 32, v6 [0x2002] 16, v6 [0xfc00] 7, v6 [0xfe80] 10]"

definition private_v6_exceptions :: "net list" where
  "private_v6_exceptions =
     [v6 [0x2001, 1, 0, 0, 0, 0, 0, 1] 128, v6 [0x2001, 1, 0, 0, 0, 0, 0, 2] 128, v6 [0x2001, 3] 32,
      v6 [0x2001, 4, 0x112] 48, v6 [0x2001, 0x20] 28, v6 [0x2001, 0x30] 28]"

definition ipv4_mapped :: "128 word \<Rightarrow> 32 word option" where
  "ipv4_mapped w = (if drop_bit 32 w = 0xffff then Some (ucast w) else None)"

definition is_private_v4 :: "32 word \<Rightarrow> bool" where
  "is_private_v4 w \<longleftrightarrow>
     list_ex (in_net (V4 w)) private_v4 \<and> \<not> list_ex (in_net (V4 w)) private_v4_exceptions"

fun is_private :: "ip \<Rightarrow> bool" where
  "is_private (V4 w) = is_private_v4 w"
| "is_private (V6 w) =
     (case ipv4_mapped w of
        Some u \<Rightarrow> is_private_v4 u
      | None \<Rightarrow> list_ex (in_net (V6 w)) private_v6 \<and> \<not> list_ex (in_net (V6 w)) private_v6_exceptions)"

fun is_loopback :: "ip \<Rightarrow> bool" where
  "is_loopback (V4 w) = in_net (V4 w) (v4 127 0 0 0 8)"
| "is_loopback (V6 w) = (w = 1)"

section \<open>Membership is agreement on the prefix\<close>

lemma bit_prefix_mask: "bit (prefix_mask p :: 'a::len word) i \<longleftrightarrow> i < LENGTH('a) \<and> LENGTH('a) \<le> p + i"
  by (auto simp: prefix_mask_def bit_not_iff bit_drop_bit_eq bit_mask_iff)

lemma masked_eq_iff:
  "(a AND prefix_mask p = b AND prefix_mask p) \<longleftrightarrow>
   (\<forall>i < LENGTH('a). LENGTH('a) \<le> p + i \<longrightarrow> bit a i = bit (b :: 'a::len word) i)"
  by (auto simp: bit_eq_iff bit_and_iff bit_prefix_mask dest: bit_imp_le_length)

lemma in_mk_net4:
  "in_net (V4 a) (mk_net4 b p) \<longleftrightarrow> (\<forall>i < 32. 32 \<le> p + i \<longrightarrow> bit a i = bit b i)"
  by (simp add: in_net_def mk_net4_def masked_eq_iff)

lemma in_mk_net6:
  "in_net (V6 a) (mk_net6 b p) \<longleftrightarrow> (\<forall>i < 128. 128 \<le> p + i \<longrightarrow> bit a i = bit b i)"
  by (simp add: in_net_def mk_net6_def masked_eq_iff)

end
