(* ===== verification/Net_Trust.thy ===== *)
theory Net_Trust
  imports Ip_Address Permissions
begin

text \<open>
  Who a request comes from: the proxy middleware (\<^verbatim>\<open>src/auth/proxy_trust.py\<close>) and the
  address and subnet checks of \<^verbatim>\<open>src/auth/local_network.py\<close>. Werkzeug's \<^verbatim>\<open>ProxyFix\<close>
  is a parameter: a function on the request.
\<close>

section \<open>Requests\<close>

text \<open>
  What the hooks and handlers read of a request. Header names are kept in lower case.
  \<open>rq_proxy_orig\<close> is \<^verbatim>\<open>environ["werkzeug.proxy_fix.orig"]\<close>, reduced to its
  \<^verbatim>\<open>REMOTE_ADDR\<close>: the server never sets it, only \<^verbatim>\<open>ProxyFix\<close> does.
\<close>

record http_req =
  rq_path :: string
  rq_endpoint :: "string option"
  rq_remote_addr :: "string option"
  rq_proxy_orig :: "string option option"
  rq_headers :: "(string \<times> string) list"
  rq_cookies :: "(string \<times> string) list"

definition header :: "http_req \<Rightarrow> string \<Rightarrow> string" where
  "header r name = opt_str (map_of (rq_headers r) (py_lower name))"

definition cookie :: "http_req \<Rightarrow> string \<Rightarrow> string" where
  "cookie r name = opt_str (map_of (rq_cookies r) name)"

section \<open>Networks from settings\<close>

definition parse_networks :: "string \<Rightarrow> net list" where
  "parse_networks raw =
     List.map_filter (\<lambda>e. let t = py_strip e in if t = [] then None else ip_network t)
       (py_split (CHR '','') raw)"

definition DEFAULT_TRUSTED_SUBNETS :: string where "DEFAULT_TRUSTED_SUBNETS = []"

definition get_trusted_networks :: "db \<Rightarrow> net list" where
  "get_trusted_networks d = parse_networks (setting_get d ''trusted_subnets'' DEFAULT_TRUSTED_SUBNETS)"

text \<open>\<^term>\<open>None\<close>: unset, the default policy applies.\<close>

definition parse_trusted_proxy_peers :: "string option \<Rightarrow> net list option" where
  "parse_trusted_proxy_peers raw =
     (case raw of
        None \<Rightarrow> None
      | Some s \<Rightarrow> if py_strip s = [] then None else Some (parse_networks s))"

section \<open>Peers and client addresses\<close>

definition is_ip_address :: "string \<Rightarrow> bool" where
  "is_ip_address s \<longleftrightarrow> ip_address s \<noteq> None"

definition is_proxy_peer :: "string option \<Rightarrow> bool" where
  "is_proxy_peer addr =
     (case addr of
        None \<Rightarrow> False
      | Some s \<Rightarrow>
          if s = [] then False
          else case ip_address s of None \<Rightarrow> False | Some a \<Rightarrow> is_loopback a \<or> is_private a)"

fun unmap :: "ip \<Rightarrow> ip" where
  "unmap (V4 w) = V4 w"
| "unmap (V6 w) = (case ipv4_mapped w of Some u \<Rightarrow> V4 u | None \<Rightarrow> V6 w)"

definition peer_is_trusted :: "string option \<Rightarrow> net list option \<Rightarrow> bool" where
  "peer_is_trusted addr peers =
     (case addr of
        None \<Rightarrow> False
      | Some s \<Rightarrow>
          if s = [] then False
          else case ip_address s of
            None \<Rightarrow> False
          | Some a0 \<Rightarrow>
              let a = unmap a0 in
              (case peers of
                 None \<Rightarrow> is_loopback a \<or> is_private a
               | Some ns \<Rightarrow> list_ex (in_net a) ns))"

definition trusted_peer_proxy_fix ::
  "(http_req \<Rightarrow> http_req) \<Rightarrow> net list option \<Rightarrow> http_req \<Rightarrow> http_req" where
  "trusted_peer_proxy_fix fix_env peers r =
     (if peer_is_trusted (rq_remote_addr r) peers then fix_env r else r)"

text \<open>The middleware is installed only when a number of trusted proxies is configured.\<close>

definition install_proxy_fix ::
  "(http_req \<Rightarrow> http_req) \<Rightarrow> nat \<Rightarrow> string option \<Rightarrow> http_req \<Rightarrow> http_req" where
  "install_proxy_fix fix_env proxy_count raw_peers r =
     (if proxy_count > 0 then trusted_peer_proxy_fix fix_env (parse_trusted_proxy_peers raw_peers) r else r)"

definition get_client_ip :: "http_req \<Rightarrow> string option" where
  "get_client_ip r =
     (let cf_ip = py_strip (header r ''CF-Connecting-IP'');
          direct = (if opt_str (rq_remote_addr r) = [] then None else rq_remote_addr r)
      in case rq_proxy_orig r of
           None \<Rightarrow> direct
         | Some orig \<Rightarrow>
             if is_proxy_peer orig \<and> cf_ip \<noteq> [] \<and> is_ip_address cf_ip then Some cf_ip else direct)"

section \<open>The local-network bypass: its conditions\<close>

definition CLOUDFLARE_HEADERS :: "string list" where
  "CLOUDFLARE_HEADERS = [''Cf-Access-Jwt-Assertion'', ''CF-Connecting-IP'', ''Cf-Ray'']"

definition CLOUDFLARE_COOKIES :: "string list" where
  "CLOUDFLARE_COOKIES = [''CF_Authorization'']"

definition came_through_cloudflare :: "http_req \<Rightarrow> bool" where
  "came_through_cloudflare r \<longleftrightarrow>
     list_ex (\<lambda>n. header r n \<noteq> []) CLOUDFLARE_HEADERS \<or> list_ex (\<lambda>n. cookie r n \<noteq> []) CLOUDFLARE_COOKIES"

definition is_trusted :: "string option \<Rightarrow> net list \<Rightarrow> bool" where
  "is_trusted client_ip networks =
     (case client_ip of
        None \<Rightarrow> False
      | Some s \<Rightarrow> (case ip_address s of None \<Rightarrow> False | Some a \<Rightarrow> list_ex (in_net a) networks))"

definition bypass_enabled :: "db \<Rightarrow> bool" where
  "bypass_enabled d \<longleftrightarrow> setting_get d ''local_bypass_enabled'' ''false'' \<noteq> ''false''"

definition bypass_session_still_valid :: "http_req \<Rightarrow> db \<Rightarrow> bool" where
  "bypass_session_still_valid r d =
     (if \<not> bypass_enabled d then False
      else if came_through_cloudflare r then False
      else is_trusted (get_client_ip r) (get_trusted_networks d))"

section \<open>Properties\<close>

lemma get_client_ip_direct:
  "rq_proxy_orig r = None \<Longrightarrow> get_client_ip r = (if opt_str (rq_remote_addr r) = [] then None else rq_remote_addr r)"
  by (simp add: get_client_ip_def Let_def)

text \<open>
  C27. The client address cannot be forged. A client that connects directly, from an address that is
  no trusted proxy (or while no proxy is configured), is known by the address of its own TCP
  connection, whatever headers and cookies it sends and whatever the proxy middleware would make of
  them.
\<close>

theorem client_ip_unforgeable:
  assumes "rq_proxy_orig r = None" "rq_remote_addr r = Some peer" "peer \<noteq> []"
    and "proxy_count = 0 \<or> \<not> peer_is_trusted (Some peer) (parse_trusted_proxy_peers raw)"
  shows "get_client_ip (install_proxy_fix fix_env proxy_count raw (r\<lparr>rq_headers := hs, rq_cookies := cs\<rparr>)) = Some peer"
  using assms
  by (auto simp: install_proxy_fix_def trusted_peer_proxy_fix_def get_client_ip_direct opt_str_def)

definition sample_req :: "string \<Rightarrow> http_req" where
  "sample_req peer = \<lparr>rq_path = ''/'', rq_endpoint = Some ''dashboard.index'', rq_remote_addr = Some peer,
     rq_proxy_orig = None, rq_headers = [], rq_cookies = []\<rparr>"

text \<open>An allow-list that names no valid range trusts nobody.\<close>

lemma no_valid_peers: "parse_trusted_proxy_peers (Some ''edge'') = Some []"
  by code_simp

theorem client_ip_unforgeable_witness:
  "get_client_ip (install_proxy_fix (\<lambda>r. r\<lparr>rq_remote_addr := Some ''10.0.0.1''\<rparr>) 1 (Some ''edge'')
     ((sample_req ''8.8.8.8'')\<lparr>rq_headers := [(''cf-connecting-ip'', ''10.0.0.1'')], rq_cookies := []\<rparr>)) =
   Some ''8.8.8.8''"
  by (rule client_ip_unforgeable)
    (auto simp: sample_req_def no_valid_peers peer_is_trusted_def Let_def split: option.splits)

text \<open>The address and the prefix length an entry denotes.\<close>

definition denotes4 :: "string \<Rightarrow> 32 word \<Rightarrow> nat \<Rightarrow> bool" where
  "denotes4 e b p \<longleftrightarrow>
     (\<exists>a m. split_netmask e = Some (a, m) \<and> ipv4_address a = Some b \<and> v4_prefixlen m = Some p)"

definition denotes6 :: "string \<Rightarrow> 128 word \<Rightarrow> nat \<Rightarrow> bool" where
  "denotes6 e b p \<longleftrightarrow>
     (\<exists>a m. split_netmask e = Some (a, m) \<and> (ipv4_address a = None \<or> v4_prefixlen m = None) \<and>
        ipv6_address a = Some b \<and> v6_prefixlen m = Some p)"

lemma ip_network_iff:
  "ip_network e = Some n \<longleftrightarrow> (\<exists>b p. denotes4 e b p \<and> n = mk_net4 b p) \<or> (\<exists>b p. denotes6 e b p \<and> n = mk_net6 b p)"
  by (auto simp: ip_network_def denotes4_def denotes6_def split: option.splits)

lemma ip_network_empty: "ip_network [] = None"
  by code_simp

lemma set_parse_networks:
  "set (parse_networks raw) = {n. \<exists>e \<in> set (py_split (CHR '','') raw). ip_network (py_strip e) = Some n}"
  by (force simp: parse_networks_def map_filter_def Let_def ip_network_empty split: if_splits)

lemma in_net_v4: "in_net (V4 w) n \<longleftrightarrow> (\<exists>b m. n = N4 b m \<and> w AND m = b)"
  by (auto simp: in_net_def split: net.splits)

lemma in_net_v6: "in_net (V6 w) n \<longleftrightarrow> (\<exists>b m. n = N6 b m \<and> w AND m = b)"
  by (auto simp: in_net_def split: net.splits)

text \<open>
  What a trusted subnet means. An address is trusted by a comma-separated setting if and only if
  it parses and one of the (stripped) entries denotes an address of the same family, with a prefix
  length, such that the two agree on that many leading bits. Entries that do not parse add nothing.
\<close>

theorem trusted_subnet_exact:
  "is_trusted (Some s) (parse_networks raw) \<longleftrightarrow>
     (\<exists>e \<in> set (py_split (CHR '','') raw).
        (\<exists>w b p. ip_address s = Some (V4 w) \<and> denotes4 (py_strip e) b p \<and>
           {i. i < 32 \<and> 32 \<le> p + i \<and> bit w i \<noteq> bit b i} = {}) \<or>
        (\<exists>w b p. ip_address s = Some (V6 w) \<and> denotes6 (py_strip e) b p \<and>
           {i. i < 128 \<and> 128 \<le> p + i \<and> bit w i \<noteq> bit b i} = {}))"
proof -
  have tr: "is_trusted (Some s) (parse_networks raw) \<longleftrightarrow>
      (\<exists>e \<in> set (py_split (CHR '','') raw). \<exists>a n. ip_address s = Some a \<and> ip_network (py_strip e) = Some n \<and> in_net a n)"
    by (auto simp: is_trusted_def list_ex_iff set_parse_networks split: option.splits)
  have "(\<exists>a n. ip_address s = Some a \<and> ip_network t = Some n \<and> in_net a n) \<longleftrightarrow>
      (\<exists>w b p. ip_address s = Some (V4 w) \<and> denotes4 t b p \<and> in_net (V4 w) (mk_net4 b p)) \<or>
      (\<exists>w b p. ip_address s = Some (V6 w) \<and> denotes6 t b p \<and> in_net (V6 w) (mk_net6 b p))"
    (is "?l \<longleftrightarrow> ?r") for t
  proof
    assume ?l
    then obtain a n where a: "ip_address s = Some a" "ip_network t = Some n" "in_net a n" by blast
    then show ?r by (cases a) (auto simp: ip_network_iff in_net_def mk_net4_def mk_net6_def, blast+)
  qed (unfold ip_network_iff, blast)
  moreover have "{i. i < 32 \<and> 32 \<le> p + i \<and> bit w i \<noteq> bit b i} = {} \<longleftrightarrow> in_net (V4 w) (mk_net4 b p)" for w b p
    by (auto simp: in_mk_net4)
  moreover have "{i. i < 128 \<and> 128 \<le> p + i \<and> bit w i \<noteq> bit b i} = {} \<longleftrightarrow> in_net (V6 w) (mk_net6 b p)" for w b p
    by (auto simp: in_mk_net6)
  ultimately show ?thesis unfolding tr by simp
qed

lemma sample_trusted: "is_trusted (Some ''10.0.0.1'') (parse_networks ''10.0.0.0/8'')"
proof -
  have "parse_v4 ''10.0.0.1'' = Some 167772161"
    by (simp add: parse_v4_def Let_def parse_octet_def code_def ascii_digit_def base_value_def)
  then have "ip_address ''10.0.0.1'' = Some (V4 167772161)"
    by (simp add: ip_address_def ipv4_address_def)
  moreover have "parse_networks ''10.0.0.0/8'' = [mk_net4 167772160 8]"
    by (simp add: parse_networks_def ip_network_def map_filter_def py_strip_def py_space_def code_def split_netmask_def
        ipv4_address_def parse_v4_def Let_def parse_octet_def ascii_digit_def base_value_def v4_prefixlen_def
        prefix_from_prefix_string_def)
  ultimately show ?thesis
    by (simp add: is_trusted_def in_net_def mk_net4_def prefix_mask_def mask_eq_exp_minus_1)
qed

end
