(* ===== verification/Tokens.thy ===== *)
theory Tokens
  imports Permissions Rate_Limit
begin

text \<open>
  The credentials that outlive a request: JWT access and refresh tokens
  (\<^verbatim>\<open>src/auth/jwt_auth.py\<close>), the mobile API's login, refresh and logout
  (\<^verbatim>\<open>src/routes/api_v1.py\<close>), the clean-up of revoked tokens
  (\<^verbatim>\<open>src/core/scheduler.py\<close>) and the signed marker that accompanies a "remember me" cookie
  (\<^verbatim>\<open>src/routes/auth.py\<close>). All of them carry the password epoch of the user; the locale
  \<open>password_bound\<close> is what that buys, interpreted on the three kinds of credential.

  PyJWT, Werkzeug's password check and itsdangerous are parameters (\<open>ext\<close>). A date in a JWT is a
  whole number of seconds, as PyJWT encodes it.
\<close>

section \<open>The libraries\<close>

record jwt_payload =
  j_sub :: string
  j_role :: "string option"
  j_type :: string
  j_jti :: "string option"
  j_pwd :: "int option"
  j_iat :: int
  j_exp :: int

text \<open>\<^verbatim>\<open>ExpiredSignatureError\<close> and every other \<^verbatim>\<open>InvalidTokenError\<close>\<close>

datatype jwt_error = Expired_signature | Invalid_token

text \<open>The payload of the remember marker.\<close>

record marker =
  m_uid :: int
  m_pwd :: "int option"

text \<open>
  \<open>x_jwt_decode now token key\<close> and \<open>x_check_hash hash password\<close> are the libraries' calls;
  \<open>x_marker_loads now raw max_age\<close> is itsdangerous' verification, with \<^term>\<open>None\<close> for a bad or expired
  signature or a payload that is no dictionary.
\<close>

record ext =
  x_secret_key :: string
  x_jwt_encode :: "jwt_payload \<Rightarrow> string \<Rightarrow> string"
  x_jwt_decode :: "usec \<Rightarrow> string \<Rightarrow> string \<Rightarrow> jwt_error + jwt_payload"
  x_check_hash :: "string \<Rightarrow> string \<Rightarrow> bool"
  x_marker_dumps :: "usec \<Rightarrow> marker \<Rightarrow> string"
  x_marker_loads :: "usec \<Rightarrow> string \<Rightarrow> int \<Rightarrow> marker option"

text \<open>
  What the code relies on of PyJWT for a payload it signed itself: verification with the same key
  returns the payload, unless the token is not valid yet or has expired.
\<close>

definition jwt_faithful :: "ext \<Rightarrow> jwt_payload \<Rightarrow> bool" where
  "jwt_faithful x p \<longleftrightarrow>
     (\<forall>now. x_jwt_decode x now (x_jwt_encode x p (x_secret_key x)) (x_secret_key x) =
        (if j_iat p * 1000000 > now then Inl Invalid_token
         else if j_exp p * 1000000 \<le> now then Inl Expired_signature
         else Inr p))"

section \<open>The password epoch\<close>

definition tokens_valid_after :: "user \<Rightarrow> usec option" where
  "tokens_valid_after u = u_tokens_valid_after u"

text \<open>\<^verbatim>\<open>int(floor.timestamp())\<close> truncates towards zero.\<close>

definition whole_seconds :: "usec \<Rightarrow> int" where
  "whole_seconds t = (if t \<ge> 0 then t div 1000000 else - (- t div 1000000))"

definition credential_epoch :: "user \<Rightarrow> int option" where
  "credential_epoch u = map_option whole_seconds (tokens_valid_after u)"

definition token_predates_password_change :: "user \<Rightarrow> jwt_payload \<Rightarrow> bool" where
  "token_predates_password_change u p =
     (case credential_epoch u of None \<Rightarrow> False | Some e \<Rightarrow> j_pwd p \<noteq> Some e)"

section \<open>Minting and verifying\<close>

definition ACCESS_TOKEN_EXPIRES :: usec where "ACCESS_TOKEN_EXPIRES = 15 * 60 * 1000000"
definition REFRESH_TOKEN_EXPIRES :: usec where "REFRESH_TOKEN_EXPIRES = 30 * 86400 * 1000000"

definition access_payload :: "db \<Rightarrow> usec \<Rightarrow> user \<Rightarrow> jwt_payload" where
  "access_payload d now u =
     \<lparr>j_sub = py_str_int (u_id u), j_role = Some (user_role d u), j_type = ''access'', j_jti = None,
      j_pwd = credential_epoch u, j_iat = now div 1000000,
      j_exp = (now + ACCESS_TOKEN_EXPIRES) div 1000000\<rparr>"

definition create_access_token :: "ext \<Rightarrow> db \<Rightarrow> usec \<Rightarrow> user \<Rightarrow> string" where
  "create_access_token x d now u = x_jwt_encode x (access_payload d now u) (x_secret_key x)"

definition refresh_payload :: "usec \<Rightarrow> string \<Rightarrow> user \<Rightarrow> jwt_payload" where
  "refresh_payload now jti u =
     \<lparr>j_sub = py_str_int (u_id u), j_role = None, j_type = ''refresh'', j_jti = Some jti,
      j_pwd = credential_epoch u, j_iat = now div 1000000,
      j_exp = (now + REFRESH_TOKEN_EXPIRES) div 1000000\<rparr>"

definition create_refresh_token :: "ext \<Rightarrow> usec \<Rightarrow> string \<Rightarrow> user \<Rightarrow> string" where
  "create_refresh_token x now jti u = x_jwt_encode x (refresh_payload now jti u) (x_secret_key x)"

definition decode_token :: "ext \<Rightarrow> usec \<Rightarrow> string \<Rightarrow> jwt_error + jwt_payload" where
  "decode_token x now t = x_jwt_decode x now t (x_secret_key x)"

section \<open>Revocation\<close>

definition is_token_revoked :: "db \<Rightarrow> string \<Rightarrow> bool" where
  "is_token_revoked d jti \<longleftrightarrow> first_row (\<lambda>r. rt_jti r = jti) (d_revoked_tokens d) \<noteq> None"

definition revoke_token :: "string \<Rightarrow> usec \<Rightarrow> db \<Rightarrow> db" where
  "revoke_token jti expires d =
     (if is_token_revoked d jti then d
      else d\<lparr>d_revoked_tokens := d_revoked_tokens d @ [\<lparr>rt_jti = jti, rt_expires_at = expires\<rparr>]\<rparr>)"

text \<open>The scheduler's clean-up deletes the rows of tokens that have expired.\<close>

definition prune_revoked_tokens :: "usec \<Rightarrow> db \<Rightarrow> db" where
  "prune_revoked_tokens now d =
     d\<lparr>d_revoked_tokens := filter (\<lambda>r. \<not> rt_expires_at r < now) (d_revoked_tokens d)\<rparr>"

section \<open>The bearer-token gate\<close>

text \<open>
  \<^verbatim>\<open>jwt_required\<close>: the user the handler runs as, an error code (all with status 401), or
  an unhandled exception (a subject that is no number or no row id).
\<close>

datatype gate = Admitted user | Refused string | Gate_crash

definition row_key :: "int \<Rightarrow> bool" where
  "row_key i \<longleftrightarrow> - (2 ^ 63) \<le> i \<and> i < 2 ^ 63"

definition subject_user :: "db \<Rightarrow> jwt_payload \<Rightarrow> user option option" where
  "subject_user d p =
     (case py_int (j_sub p) of
        None \<Rightarrow> None
      | Some i \<Rightarrow> if row_key i then Some (get_user d i) else None)"

definition jwt_required :: "ext \<Rightarrow> usec \<Rightarrow> string \<Rightarrow> db \<Rightarrow> gate" where
  "jwt_required x now auth_header d =
     (if \<not> startswith auth_header ''Bearer '' then Refused ''UNAUTHORIZED''
      else case decode_token x now (drop 7 auth_header) of
        Inl Expired_signature \<Rightarrow> Refused ''TOKEN_EXPIRED''
      | Inl Invalid_token \<Rightarrow> Refused ''INVALID_TOKEN''
      | Inr p \<Rightarrow>
          if j_type p \<noteq> ''access'' then Refused ''INVALID_TOKEN''
          else case subject_user d p of
            None \<Rightarrow> Gate_crash
          | Some None \<Rightarrow> Refused ''UNAUTHORIZED''
          | Some (Some u) \<Rightarrow>
              if \<not> is_active u then Refused ''UNAUTHORIZED''
              else if token_predates_password_change u p then Refused ''TOKEN_REVOKED''
              else Admitted u)"

section \<open>The API's authentication endpoints (routes/api\_v1.py)\<close>

record server =
  sv_app :: app
  sv_web_attempts :: "string attempts"
  sv_api_attempts :: "string option attempts"

abbreviation sv_db :: "server \<Rightarrow> db" where "sv_db sv \<equiv> a_db (sv_app sv)"

text \<open>
  What a request brings in: its JSON body (\<^term>\<open>JNull\<close> when there is none or it does not parse),
  the client's address, the clock readings in the order they are taken, and the random jti.
\<close>

record api_env =
  e_body :: json
  e_ip :: "string option"
  e_check_at :: seconds
  e_fail_at :: seconds
  e_prune_at :: seconds
  e_now_decode :: usec
  e_now_access :: usec
  e_now_refresh :: usec
  e_jti :: string
  e_q :: req_ctx

text \<open>\<open>Api_500\<close> is an exception that the handler does not catch.\<close>

datatype api_resp =
    Api_error string nat
  | Api_login_ok string string "(string \<times> json) list"
  | Api_pair string string
  | Api_ok
  | Api_500

text \<open>\<^verbatim>\<open>request.get_json(silent=True) or {}\<close>; a body that is no object has no \<^verbatim>\<open>get\<close>.\<close>

definition body_dict :: "json \<Rightarrow> (string \<times> json) list option" where
  "body_dict b = (if \<not> json_truthy b then Some [] else case b of JDict kvs \<Rightarrow> Some kvs | _ \<Rightarrow> None)"

definition body_get :: "string \<Rightarrow> (string \<times> json) list \<Rightarrow> json" where
  "body_get k kvs = (case map_of kvs k of None \<Rightarrow> JStr [] | Some v \<Rightarrow> v)"

definition opt_json :: "string option \<Rightarrow> json" where
  "opt_json s = (case s of None \<Rightarrow> JNull | Some t \<Rightarrow> JStr t)"

definition api_user_json :: "db \<Rightarrow> user \<Rightarrow> (string \<times> json) list" where
  "api_user_json d u =
     [(''id'', JInt (u_id u)), (''username'', JStr (u_username u)),
      (''display_name'', opt_json (u_display_name u)), (''role'', JStr (user_role d u)),
      (''timezone'', opt_json (u_timezone u))]"

definition api_login_fail :: "api_env \<Rightarrow> server \<Rightarrow> api_resp \<times> server" where
  "api_login_fail e sv =
     (Api_error ''UNAUTHORIZED'' 401,
      sv\<lparr>sv_api_attempts := record_api_failed_login (e_fail_at e) (e_prune_at e) (e_ip e) (sv_api_attempts sv)\<rparr>)"

definition api_login_accept :: "ext \<Rightarrow> api_env \<Rightarrow> user \<Rightarrow> server \<Rightarrow> api_resp \<times> server" where
  "api_login_accept x e u sv =
     (if \<not> is_active u then (Api_error ''UNAUTHORIZED'' 401, sv)
      else if u_must_change_password u then (Api_error ''PASSWORD_CHANGE_REQUIRED'' 403, sv)
      else (Api_login_ok (create_access_token x (sv_db sv) (e_now_access e) u)
              (create_refresh_token x (e_now_refresh e) (e_jti e) u) (api_user_json (sv_db sv) u),
            sv\<lparr>sv_app := log_action (e_q e)
                 (entry ''api_login'' ''user'' (Some (u_id u)) (Some (u_username u)) JNull) (sv_app sv)\<rparr>))"

definition api_login_attempt :: "ext \<Rightarrow> api_env \<Rightarrow> (string \<times> json) list \<Rightarrow> server \<Rightarrow> api_resp \<times> server" where
  "api_login_attempt x e data sv =
     (case body_get ''username'' data of
        JStr raw \<Rightarrow>
          let username = py_strip raw; password = body_get ''password'' data in
          if username = [] \<or> \<not> json_truthy password then (Api_error ''BAD_REQUEST'' 400, sv)
          else (case find_username (sv_db sv) username of
             None \<Rightarrow> api_login_fail e sv
           | Some u \<Rightarrow>
               (case password of
                  JStr pw \<Rightarrow>
                    if check_password (x_check_hash x) u pw then api_login_accept x e u sv
                    else api_login_fail e sv
                | _ \<Rightarrow> (Api_500, sv)))
      | _ \<Rightarrow> (Api_500, sv))"

definition api_login :: "ext \<Rightarrow> api_env \<Rightarrow> server \<Rightarrow> api_resp \<times> server" where
  "api_login x e sv0 =
     (let (limited, att) = check_api_rate_limit (e_check_at e) (e_ip e) (sv_api_attempts sv0);
          sv = sv0\<lparr>sv_api_attempts := att\<rparr>
      in if limited then (Api_error ''RATE_LIMITED'' 429, sv)
      else case body_dict (e_body e) of
        None \<Rightarrow> (Api_500, sv)
      | Some data \<Rightarrow> api_login_attempt x e data sv)"

text \<open>
  The presented refresh token: missing, undecodable (\<^verbatim>\<open>jwt.decode\<close> refuses what is no
  string), or a payload.
\<close>

definition presented_token :: "ext \<Rightarrow> api_env \<Rightarrow> (string \<times> json) list \<Rightarrow> (jwt_error + jwt_payload) option" where
  "presented_token x e data =
     (let t = body_get ''refresh_token'' data in
      if \<not> json_truthy t then None
      else case t of JStr s \<Rightarrow> Some (decode_token x (e_now_decode e) s) | _ \<Rightarrow> Some (Inl Invalid_token))"

definition api_rotate :: "ext \<Rightarrow> api_env \<Rightarrow> jwt_payload \<Rightarrow> string \<Rightarrow> user \<Rightarrow> server \<Rightarrow> api_resp \<times> server" where
  "api_rotate x e p jti u sv =
     (let d = revoke_token jti (j_exp p * 1000000) (sv_db sv)
      in (Api_pair (create_access_token x d (e_now_access e) u)
            (create_refresh_token x (e_now_refresh e) (e_jti e) u),
          sv\<lparr>sv_app := (sv_app sv)\<lparr>a_db := d\<rparr>\<rparr>))"

definition api_refresh_payload :: "ext \<Rightarrow> api_env \<Rightarrow> jwt_payload \<Rightarrow> server \<Rightarrow> api_resp \<times> server" where
  "api_refresh_payload x e p sv =
     (let d = sv_db sv in
      if j_type p \<noteq> ''refresh'' then (Api_error ''INVALID_TOKEN'' 401, sv)
      else case j_jti p of
        None \<Rightarrow> (Api_error ''TOKEN_REVOKED'' 401, sv)
      | Some jti \<Rightarrow>
          if jti = [] \<or> is_token_revoked d jti then (Api_error ''TOKEN_REVOKED'' 401, sv)
          else (case subject_user d p of
             None \<Rightarrow> (Api_500, sv)
           | Some None \<Rightarrow> (Api_error ''UNAUTHORIZED'' 401, sv)
           | Some (Some u) \<Rightarrow>
               if \<not> is_active u then (Api_error ''UNAUTHORIZED'' 401, sv)
               else if token_predates_password_change u p then (Api_error ''TOKEN_REVOKED'' 401, sv)
               else api_rotate x e p jti u sv))"

definition api_refresh :: "ext \<Rightarrow> api_env \<Rightarrow> server \<Rightarrow> api_resp \<times> server" where
  "api_refresh x e sv =
     (case body_dict (e_body e) of
        None \<Rightarrow> (Api_500, sv)
      | Some data \<Rightarrow>
          (case presented_token x e data of
             None \<Rightarrow> (Api_error ''BAD_REQUEST'' 400, sv)
           | Some (Inl Expired_signature) \<Rightarrow> (Api_error ''TOKEN_EXPIRED'' 401, sv)
           | Some (Inl Invalid_token) \<Rightarrow> (Api_error ''INVALID_TOKEN'' 401, sv)
           | Some (Inr p) \<Rightarrow> api_refresh_payload x e p sv))"

definition api_logout :: "ext \<Rightarrow> api_env \<Rightarrow> server \<Rightarrow> api_resp \<times> server" where
  "api_logout x e sv =
     (case body_dict (e_body e) of
        None \<Rightarrow> (Api_500, sv)
      | Some data \<Rightarrow>
          (case presented_token x e data of
             None \<Rightarrow> (Api_error ''BAD_REQUEST'' 400, sv)
           | Some (Inl _) \<Rightarrow> (Api_ok, sv)
           | Some (Inr p) \<Rightarrow>
               (case j_jti p of
                  None \<Rightarrow> (Api_ok, sv)
                | Some jti \<Rightarrow>
                    if jti = [] then (Api_ok, sv)
                    else (Api_ok, sv\<lparr>sv_app := (sv_app sv)\<lparr>a_db :=
                            revoke_token jti (j_exp p * 1000000) (sv_db sv)\<rparr>\<rparr>))))"

section \<open>The remember marker (routes/auth.py)\<close>

definition remember_marker :: "user \<Rightarrow> marker" where
  "remember_marker u = \<lparr>m_uid = u_id u, m_pwd = credential_epoch u\<rparr>"

definition set_remember_marker :: "ext \<Rightarrow> usec \<Rightarrow> user \<Rightarrow> string" where
  "set_remember_marker x now u = x_marker_dumps x now (remember_marker u)"

text \<open>\<open>duration\<close> is the configured life time of the cookie in seconds.\<close>

definition remember_marker_payload :: "ext \<Rightarrow> usec \<Rightarrow> int \<Rightarrow> string option \<Rightarrow> marker option" where
  "remember_marker_payload x now duration cookie =
     (case cookie of
        None \<Rightarrow> None
      | Some raw \<Rightarrow> if raw = [] then None else x_marker_loads x now raw duration)"

definition marker_refusal :: "marker option \<Rightarrow> user \<Rightarrow> string option" where
  "marker_refusal m u =
     (case m of
        None \<Rightarrow> Some ''missing_marker''
      | Some p \<Rightarrow>
          if m_uid p \<noteq> u_id u then Some ''missing_marker''
          else if m_pwd p \<noteq> credential_epoch u then Some ''credentials_rotated''
          else None)"

definition remember_restore_refusal ::
  "ext \<Rightarrow> usec \<Rightarrow> int \<Rightarrow> string option \<Rightarrow> user option \<Rightarrow> string option" where
  "remember_restore_refusal x now duration cookie uo =
     (case uo of
        None \<Rightarrow> Some ''inactive''
      | Some u \<Rightarrow>
          if \<not> is_active u then Some ''inactive''
          else marker_refusal (remember_marker_payload x now duration cookie) u)"

section \<open>Password generations\<close>

text \<open>Stamps are whole seconds, as \<open>set_password\<close> writes them.\<close>

definition stamp_ok :: "user \<Rightarrow> bool" where
  "stamp_ok u = (case u_tokens_valid_after u of None \<Rightarrow> True | Some t \<Rightarrow> t mod 1000000 = 0)"

definition change_passwords :: "(string \<times> usec) list \<Rightarrow> user \<Rightarrow> user" where
  "change_passwords cs u = fold (\<lambda>(h, t). set_password h t) cs u"

lemma stamp_ok_set_password: "stamp_ok u \<Longrightarrow> stamp_ok (set_password h t u)"
  by (auto simp: stamp_ok_def set_password_def Let_def mod_simps split: option.splits)

lemma whole_seconds_strict:
  assumes "s mod 1000000 = 0" "t mod 1000000 = 0" "s < t"
  shows "whole_seconds s < whole_seconds t"
proof -
  from assms obtain a b where ab: "s = 1000000 * a" "t = 1000000 * b" by (auto elim!: dvdE simp: mod_eq_0_iff_dvd)
  have "whole_seconds (1000000 * k) = k" for k
    by (auto simp: whole_seconds_def zdiv_zminus1_eq_if)
  with ab assms(3) show ?thesis by simp
qed

text \<open>\<open>v\<close> is a later password generation of the same row.\<close>

definition newer_generation :: "user \<Rightarrow> user \<Rightarrow> bool" where
  "newer_generation u v \<longleftrightarrow>
     u_id v = u_id u \<and> stamp_ok v \<and>
     (\<exists>t. u_tokens_valid_after v = Some t \<and> (\<forall>s. u_tokens_valid_after u = Some s \<longrightarrow> s < t))"

lemma newer_generation_set_password:
  "stamp_ok u \<Longrightarrow> newer_generation u (set_password h t u)"
  using stamp_ok_set_password[of u h t] set_password_stamp[of u]
  by (auto simp: newer_generation_def set_password_def Let_def)

lemma newer_generation_trans:
  "newer_generation u v \<Longrightarrow> newer_generation v w \<Longrightarrow> newer_generation u w"
  by (fastforce simp: newer_generation_def)

lemma change_passwords_newer:
  "stamp_ok u \<Longrightarrow> cs \<noteq> [] \<Longrightarrow> newer_generation u (change_passwords cs u)"
proof (induction cs arbitrary: u)
  case (Cons c cs)
  obtain h t where c: "c = (h, t)" by (cases c)
  have 1: "newer_generation u (set_password h t u)" using Cons.prems newer_generation_set_password by blast
  show ?case
  proof (cases "cs = []")
    case True
    then show ?thesis using 1 c by (simp add: change_passwords_def)
  next
    case False
    then have "newer_generation (set_password h t u) (change_passwords cs (set_password h t u))"
      using Cons.IH Cons.prems stamp_ok_set_password by blast
    then show ?thesis using 1 newer_generation_trans c by (auto simp: change_passwords_def)
  qed
qed simp

lemma newer_generation_epoch:
  assumes "stamp_ok u" "newer_generation u v"
  shows "\<exists>e. credential_epoch v = Some e \<and> credential_epoch u \<noteq> Some e"
proof -
  from assms(2) obtain t where t: "u_tokens_valid_after v = Some t" "t mod 1000000 = 0"
      "\<And>s. u_tokens_valid_after u = Some s \<Longrightarrow> s < t"
    by (auto simp: newer_generation_def stamp_ok_def)
  have "credential_epoch u \<noteq> Some (whole_seconds t)"
  proof (cases "u_tokens_valid_after u")
    case (Some s)
    then have "whole_seconds s < whole_seconds t"
      using assms(1) t whole_seconds_strict[of s t] by (simp add: stamp_ok_def)
    then show ?thesis using Some by (simp add: credential_epoch_def tokens_valid_after_def)
  qed (simp add: credential_epoch_def tokens_valid_after_def)
  with t show ?thesis by (simp add: credential_epoch_def tokens_valid_after_def)
qed

text \<open>
  The contract of a credential bound to the password: it is admitted for the row it was minted for
  as long as the generation is the same, and only for a generation that is the same or unstamped.
\<close>

locale password_bound =
  fixes mint :: "user \<Rightarrow> 'c"
    and admits :: "user \<Rightarrow> 'c \<Rightarrow> bool"
  assumes mint_admitted: "u_id v = u_id u \<Longrightarrow> credential_epoch v = credential_epoch u \<Longrightarrow> admits v (mint u)"
    and admits_epoch: "admits v (mint u) \<Longrightarrow> credential_epoch v = None \<or> credential_epoch v = credential_epoch u"
begin

lemma dead_after_password_change:
  assumes "stamp_ok u" "newer_generation u v"
  shows "\<not> admits v (mint u)"
  using newer_generation_epoch[OF assms] admits_epoch by fastforce

lemma dead_after_changes:
  "stamp_ok u \<Longrightarrow> cs \<noteq> [] \<Longrightarrow> \<not> admits (change_passwords cs u) (mint u)"
  using dead_after_password_change change_passwords_newer by blast

end

interpretation access_bound: password_bound
  "access_payload d now" "\<lambda>u p. \<not> token_predates_password_change u p"
  by unfold_locales
    (auto simp: token_predates_password_change_def access_payload_def split: option.splits)

interpretation refresh_bound: password_bound
  "refresh_payload now jti" "\<lambda>u p. \<not> token_predates_password_change u p"
  by unfold_locales
    (auto simp: token_predates_password_change_def refresh_payload_def split: option.splits)

interpretation marker_bound: password_bound
  remember_marker "\<lambda>u m. marker_refusal (Some m) u = None"
  by unfold_locales (auto simp: marker_refusal_def remember_marker_def split: if_splits)

section \<open>Lemmas on the handlers\<close>

lemma decode_minted:
  assumes "jwt_faithful x p"
  shows "decode_token x now (x_jwt_encode x p (x_secret_key x)) =
    (if j_iat p * 1000000 > now then Inl Invalid_token
     else if j_exp p * 1000000 \<le> now then Inl Expired_signature else Inr p)"
  using assms by (simp add: jwt_faithful_def decode_token_def)

lemma row_key_int: "row_key i \<Longrightarrow> py_int (py_str_int i) = Some i"
  by (rule py_int_str) (auto simp: row_key_def)

lemma subject_user_minted [simp]:
  assumes "row_key (u_id u)"
  shows "subject_user d (access_payload d0 t u) = Some (get_user d (u_id u))"
    "subject_user d (refresh_payload t jti u) = Some (get_user d (u_id u))"
  using assms by (simp_all add: subject_user_def access_payload_def refresh_payload_def row_key_int)

lemma drop_bearer [simp]: "drop 7 (''Bearer '' @ t) = t"
  by simp

lemma gate_on_minted_access:
  assumes "jwt_faithful x (access_payload d0 t u)" "row_key (u_id u)"
  shows "jwt_required x now (''Bearer '' @ create_access_token x d0 t u) d =
    (if j_iat (access_payload d0 t u) * 1000000 > now then Refused ''INVALID_TOKEN''
     else if j_exp (access_payload d0 t u) * 1000000 \<le> now then Refused ''TOKEN_EXPIRED''
     else case get_user d (u_id u) of
       None \<Rightarrow> Refused ''UNAUTHORIZED''
     | Some v \<Rightarrow>
         if \<not> is_active v then Refused ''UNAUTHORIZED''
         else if token_predates_password_change v (access_payload d0 t u) then Refused ''TOKEN_REVOKED''
         else Admitted v)"
proof -
  have "j_type (access_payload d0 t u) = ''access''" by (simp add: access_payload_def)
  then show ?thesis
    unfolding jwt_required_def create_access_token_def
    by (simp add: decode_minted[OF assms(1)] assms(2) del: append_Cons split: option.splits)
qed

text \<open>A request that presents one refresh token.\<close>

definition presents :: "api_env \<Rightarrow> string \<Rightarrow> bool" where
  "presents e t \<longleftrightarrow> e_body e = JDict [(''refresh_token'', JStr t)] \<and> t \<noteq> []"

lemma api_refresh_presents:
  assumes "presents e t"
  shows "api_refresh x e sv =
     (case decode_token x (e_now_decode e) t of
        Inl Expired_signature \<Rightarrow> (Api_error ''TOKEN_EXPIRED'' 401, sv)
      | Inl Invalid_token \<Rightarrow> (Api_error ''INVALID_TOKEN'' 401, sv)
      | Inr p \<Rightarrow> api_refresh_payload x e p sv)"
  using assms by (simp add: api_refresh_def presents_def body_dict_def presented_token_def body_get_def Let_def
      split: sum.splits jwt_error.splits)

lemma api_refresh_payload_pair:
  assumes "api_refresh_payload x e p sv = (Api_pair a r, sv')"
  shows "\<exists>jti u. j_type p = ''refresh'' \<and> j_jti p = Some jti \<and> jti \<noteq> [] \<and> \<not> is_token_revoked (sv_db sv) jti \<and>
    subject_user (sv_db sv) p = Some (Some u) \<and> is_active u \<and> \<not> token_predates_password_change u p \<and>
    sv_db sv' = revoke_token jti (j_exp p * 1000000) (sv_db sv)"
  using assms
  by (auto simp: api_refresh_payload_def api_rotate_def Let_def split: if_splits option.splits)

text \<open>
  C3. A password change ends every earlier credential. Let tokens and a remember marker be minted
  for a user row, and let the row then go through one or more password changes, at any clock
  readings (even within one second, even with the clock set back). From then on no bearer token
  among them passes the gate, the refresh token cannot be exchanged, and the marker does not
  restore a login.
\<close>

theorem password_change_revokes_all:
  assumes "jwt_faithful x (access_payload d0 t0 u)" "jwt_faithful x (refresh_payload t1 jti u)"
    and "x_marker_loads x now (set_remember_marker x t2 u) dur \<in> {None, Some (remember_marker u)}"
    and "stamp_ok u" "row_key (u_id u)" "cs \<noteq> []"
    and "get_user (sv_db sv) (u_id u) = Some (change_passwords cs u)"
    and "presents e (create_refresh_token x t1 jti u)"
  shows "jwt_required x now (''Bearer '' @ create_access_token x d0 t0 u) (sv_db sv) \<noteq> Admitted v \<and>
    fst (api_refresh x e sv) \<noteq> Api_pair a r \<and>
    remember_restore_refusal x now dur (Some (set_remember_marker x t2 u))
      (get_user (sv_db sv) (u_id u)) \<noteq> None"
proof (intro conjI)
  show "jwt_required x now (''Bearer '' @ create_access_token x d0 t0 u) (sv_db sv) \<noteq> Admitted v"
    unfolding gate_on_minted_access[OF assms(1,5)]
    using access_bound.dead_after_changes[OF assms(4,6), of d0 t0] assms(7) by simp
  show "fst (api_refresh x e sv) \<noteq> Api_pair a r"
  proof
    assume pair: "fst (api_refresh x e sv) = Api_pair a r"
    obtain sv' where "api_refresh_payload x e (refresh_payload t1 jti u) sv = (Api_pair a r, sv')"
      using pair decode_minted[OF assms(2)] unfolding api_refresh_presents[OF assms(8)] create_refresh_token_def
      by (cases "api_refresh_payload x e (refresh_payload t1 jti u) sv") (auto split: if_splits)
    from api_refresh_payload_pair[OF this] show False
      using refresh_bound.dead_after_changes[OF assms(4,6), of t1 jti] assms(5,7) by auto
  qed
  have "marker_refusal (Some (remember_marker u)) (change_passwords cs u) \<noteq> None"
    by (rule marker_bound.dead_after_changes[OF assms(4,6)])
  moreover have "marker_refusal None (change_passwords cs u) \<noteq> None" by (simp add: marker_refusal_def)
  ultimately show "remember_restore_refusal x now dur (Some (set_remember_marker x t2 u))
      (get_user (sv_db sv) (u_id u)) \<noteq> None"
    using assms(3,7) by (auto simp: remember_restore_refusal_def remember_marker_payload_def)
qed

text \<open>
  A library for the witnesses: it signs the payloads of a fixed table, a token being the position
  of its payload written in unary, and never accepts a marker that it did not issue.
\<close>

definition table_ext :: "jwt_payload list \<Rightarrow> marker \<Rightarrow> ext" where
  "table_ext ps m =
     \<lparr>x_secret_key = ''k'',
      x_jwt_encode = (\<lambda>p k. replicate (Suc (length (takeWhile (\<lambda>q. q \<noteq> p) ps))) (CHR ''x'')),
      x_jwt_decode = (\<lambda>now t k.
        if t = [] \<or> length t > length ps then Inl Invalid_token
        else let p = ps ! (length t - 1) in
          if j_iat p * 1000000 > now then Inl Invalid_token
          else if j_exp p * 1000000 \<le> now then Inl Expired_signature else Inr p),
      x_check_hash = (\<lambda>h p. h = p),
      x_marker_dumps = (\<lambda>now n. if n = m then ''m'' else ''n''),
      x_marker_loads = (\<lambda>now raw age. if raw = ''m'' then Some m else None)\<rparr>"

lemma takeWhile_index:
  "p \<in> set ps \<Longrightarrow> length (takeWhile (\<lambda>q. q \<noteq> p) ps) < length ps \<and> ps ! length (takeWhile (\<lambda>q. q \<noteq> p) ps) = p"
  by (induction ps) auto

lemma table_ext_faithful: "p \<in> set ps \<Longrightarrow> jwt_faithful (table_ext ps m) p"
  using takeWhile_index[of p ps] by (simp add: jwt_faithful_def table_ext_def Let_def)

lemma table_ext_simps [simp]:
  "x_jwt_encode (table_ext ps m) p k \<noteq> []"
  "x_marker_loads (table_ext ps m) now raw age = None \<or> x_marker_loads (table_ext ps m) now raw age = Some m"
  by (simp_all add: table_ext_def)

definition sample_user :: user where
  "sample_user = \<lparr>u_id = 1, u_username = ''ann'', u_display_name = None, u_password_hash = ''secret'',
     u_role_id = 3, u_created_via = ''local'', u_is_active_user = True, u_timezone = None,
     u_last_login_at = None, u_tokens_valid_after = Some 5000000, u_must_change_password = False,
     u_allowed_tags = []\<rparr>"

definition sample_server :: "user \<Rightarrow> server" where
  "sample_server u = \<lparr>sv_app = \<lparr>a_db = seeded_db\<lparr>d_users := [u]\<rparr>, a_hub = []\<rparr>,
     sv_web_attempts = [], sv_api_attempts = []\<rparr>"

definition sample_env :: "json \<Rightarrow> usec \<Rightarrow> api_env" where
  "sample_env body now = \<lparr>e_body = body, e_ip = Some ''10.0.0.1'', e_check_at = 1, e_fail_at = 1,
     e_prune_at = 1, e_now_decode = now, e_now_access = now, e_now_refresh = now, e_jti = ''j2'',
     e_q = \<lparr>q_in_request = True, q_user = None, q_client_ip = Some ''10.0.0.1'', q_ts = []\<rparr>\<rparr>"

lemma sample_user_facts: "stamp_ok sample_user" "row_key (u_id sample_user)" "row_key 1" "u_id sample_user = 1"
  by (simp_all add: stamp_ok_def sample_user_def row_key_def)

lemma change_passwords_id [simp]: "u_id (change_passwords cs u) = u_id u"
  unfolding change_passwords_def
  by (induction cs arbitrary: u) (auto simp: set_password_def Let_def)

theorem password_change_revokes_all_witness:
  "let u = sample_user; p = access_payload seeded_db 6000000 u; r = refresh_payload 6000000 ''j1'' u;
       x = table_ext [p, r] (remember_marker u);
       sv = sample_server (change_passwords [(''new'', 6000000)] u);
       e = sample_env (JDict [(''refresh_token'', JStr (create_refresh_token x 6000000 ''j1'' u))]) 7000000
   in jwt_required x 7000000 (''Bearer '' @ create_access_token x seeded_db 6000000 u) (sv_db sv) \<noteq> Admitted u \<and>
      fst (api_refresh x e sv) \<noteq> Api_pair [] [] \<and>
      remember_restore_refusal x 7000000 1209600 (Some (set_remember_marker x 6000000 u))
        (get_user (sv_db sv) (u_id u)) \<noteq> None"
  unfolding Let_def
  by (rule password_change_revokes_all[where cs = "[(''new'', 6000000)]"])
    (simp_all add: table_ext_faithful sample_user_facts sample_server_def get_user_def presents_def
      sample_env_def create_refresh_token_def)

section \<open>Rotation of refresh tokens\<close>

text \<open>What may happen between two uses of a refresh token; \<open>Ev_put_user\<close> is any update of a user row.\<close>

datatype token_event =
    Ev_login api_env | Ev_refresh api_env | Ev_logout api_env | Ev_prune usec | Ev_put_user user

fun token_step :: "ext \<Rightarrow> token_event \<Rightarrow> server \<Rightarrow> server" where
  "token_step x (Ev_login e) sv = snd (api_login x e sv)"
| "token_step x (Ev_refresh e) sv = snd (api_refresh x e sv)"
| "token_step x (Ev_logout e) sv = snd (api_logout x e sv)"
| "token_step x (Ev_prune now) sv = sv\<lparr>sv_app := (sv_app sv)\<lparr>a_db := prune_revoked_tokens now (sv_db sv)\<rparr>\<rparr>"
| "token_step x (Ev_put_user u) sv = sv\<lparr>sv_app := (sv_app sv)\<lparr>a_db := put_user u (sv_db sv)\<rparr>\<rparr>"

text \<open>The clock at which an event prunes; no later use of the token may lie before it.\<close>

fun prunes_before :: "usec \<Rightarrow> token_event \<Rightarrow> bool" where
  "prunes_before t (Ev_prune now) \<longleftrightarrow> now \<le> t"
| "prunes_before t _ \<longleftrightarrow> True"

definition revoked_until :: "string \<Rightarrow> usec \<Rightarrow> db \<Rightarrow> bool" where
  "revoked_until jti t d \<longleftrightarrow> (\<exists>r \<in> set (d_revoked_tokens d). rt_jti r = jti \<and> t \<le> rt_expires_at r)"

lemma is_token_revoked_iff: "is_token_revoked d jti \<longleftrightarrow> (\<exists>r \<in> set (d_revoked_tokens d). rt_jti r = jti)"
  using first_row_None[of "\<lambda>r. rt_jti r = jti" "d_revoked_tokens d"] by (auto simp: is_token_revoked_def)

lemma revoked_until_revoked: "revoked_until jti t d \<Longrightarrow> is_token_revoked d jti"
  by (auto simp: revoked_until_def is_token_revoked_iff)

lemma revoked_until_revoke_token: "revoked_until jti t d \<Longrightarrow> revoked_until jti t (revoke_token j e d)"
  by (auto simp: revoked_until_def revoke_token_def)

lemma revoke_token_revokes: "\<not> is_token_revoked d jti \<Longrightarrow> revoked_until jti e (revoke_token jti e d)"
  by (auto simp: revoked_until_def revoke_token_def)

lemma revoked_until_prune:
  "revoked_until jti t d \<Longrightarrow> now \<le> t \<Longrightarrow> revoked_until jti t (prune_revoked_tokens now d)"
  by (auto simp: revoked_until_def prune_revoked_tokens_def)

lemma api_login_revoked: "d_revoked_tokens (sv_db (snd (api_login x e sv))) = d_revoked_tokens (sv_db sv)"
  by (auto simp: api_login_def api_login_attempt_def api_login_accept_def api_login_fail_def Let_def split_beta
      split: option.splits json.splits)

lemma api_refresh_db:
  "sv_db (snd (api_refresh x e sv)) = sv_db sv \<or> (\<exists>j t. sv_db (snd (api_refresh x e sv)) = revoke_token j t (sv_db sv))"
  by (auto simp: api_refresh_def api_refresh_payload_def api_rotate_def Let_def
      split: option.splits sum.splits jwt_error.splits)

lemma api_logout_db:
  "sv_db (snd (api_logout x e sv)) = sv_db sv \<or> (\<exists>j t. sv_db (snd (api_logout x e sv)) = revoke_token j t (sv_db sv))"
  by (auto simp: api_logout_def Let_def split: option.splits sum.splits)

lemma revoked_until_step:
  assumes "revoked_until jti t (sv_db sv)" "prunes_before t ev"
  shows "revoked_until jti t (sv_db (token_step x ev sv))"
proof (cases ev)
  case (Ev_login e)
  then show ?thesis using assms api_login_revoked[of x e sv] by (simp add: revoked_until_def)
next
  case (Ev_refresh e)
  then show ?thesis using assms api_refresh_db[of x e sv] revoked_until_revoke_token by auto
next
  case (Ev_logout e)
  then show ?thesis using assms api_logout_db[of x e sv] revoked_until_revoke_token by auto
next
  case (Ev_prune now)
  then show ?thesis using assms revoked_until_prune by simp
next
  case (Ev_put_user u)
  then show ?thesis using assms by (simp add: revoked_until_def)
qed

lemma revoked_until_run:
  "revoked_until jti t (sv_db sv) \<Longrightarrow> list_all (prunes_before t) evs \<Longrightarrow>
   revoked_until jti t (sv_db (fold (token_step x) evs sv))"
  by (induction evs arbitrary: sv) (auto intro: revoked_until_step)

lemma decode_minted_Inr:
  "jwt_faithful x p \<Longrightarrow> decode_token x now (x_jwt_encode x p (x_secret_key x)) = Inr q \<Longrightarrow>
   q = p \<and> now < j_exp p * 1000000"
  by (auto simp: decode_minted split: if_splits)

lemma api_refresh_pairD:
  assumes "presents e (x_jwt_encode x p (x_secret_key x))" "jwt_faithful x p"
    and "api_refresh x e sv = (Api_pair a r, sv')"
  shows "api_refresh_payload x e p sv = (Api_pair a r, sv') \<and> e_now_decode e < j_exp p * 1000000"
proof -
  obtain q where q: "decode_token x (e_now_decode e) (x_jwt_encode x p (x_secret_key x)) = Inr q"
      "api_refresh_payload x e q sv = (Api_pair a r, sv')"
    using assms(3) unfolding api_refresh_presents[OF assms(1)] by (auto split: sum.splits jwt_error.splits)
  then show ?thesis using decode_minted_Inr[OF assms(2)] by blast
qed

text \<open>
  C19. A refresh token is used at most once. After a successful exchange, whatever logins,
  exchanges and logouts follow, whatever users are changed, and however often the clean-up of the
  revocation table runs (at times not after the second attempt), presenting the same token again is
  refused.
\<close>

theorem refresh_token_single_use:
  assumes "jwt_faithful x p"
    and "presents e (x_jwt_encode x p (x_secret_key x))" "presents e' (x_jwt_encode x p (x_secret_key x))"
    and "api_refresh x e sv = (Api_pair a r, sv1)"
    and "list_all (prunes_before (e_now_decode e')) evs"
  shows "fst (api_refresh x e' (fold (token_step x) evs sv1)) \<noteq> Api_pair a' r'"
proof
  assume "fst (api_refresh x e' (fold (token_step x) evs sv1)) = Api_pair a' r'"
  then obtain sv2 where again: "api_refresh x e' (fold (token_step x) evs sv1) = (Api_pair a' r', sv2)"
    by (cases "api_refresh x e' (fold (token_step x) evs sv1)") auto
  from api_refresh_pairD[OF assms(2,1,4)] obtain jti where jti: "j_jti p = Some jti"
      "\<not> is_token_revoked (sv_db sv) jti" "sv_db sv1 = revoke_token jti (j_exp p * 1000000) (sv_db sv)"
    using api_refresh_payload_pair by blast
  note second = api_refresh_pairD[OF assms(3,1) again]
  have "revoked_until jti (e_now_decode e') (sv_db sv1)"
    using revoke_token_revokes[OF jti(2), of "j_exp p * 1000000"] second jti(3)
    by (auto simp: revoked_until_def)
  then have "is_token_revoked (sv_db (fold (token_step x) evs sv1)) jti"
    using revoked_until_run[OF _ assms(5)] revoked_until_revoked by blast
  then show False using api_refresh_payload_pair[of x e' p] second jti(1) by fastforce
qed

definition sample_refresh :: "usec \<Rightarrow> api_env" where
  "sample_refresh now = sample_env (JDict [(''refresh_token'', JStr ''x'')]) now"

definition sample_ext :: ext where
  "sample_ext = table_ext [refresh_payload 6000000 ''j1'' sample_user] (remember_marker sample_user)"

lemma sample_token: "x_jwt_encode sample_ext (refresh_payload 6000000 ''j1'' sample_user) (x_secret_key sample_ext) = ''x''"
  by (simp add: sample_ext_def table_ext_def)

lemma sample_exchange:
  "\<exists>a r sv1. api_refresh sample_ext (sample_refresh 7000000) (sample_server sample_user) = (Api_pair a r, sv1)"
proof -
  let ?p = "refresh_payload 6000000 ''j1'' sample_user"
  have "presents (sample_refresh 7000000) ''x''"
    by (simp add: presents_def sample_refresh_def sample_env_def)
  moreover have "decode_token sample_ext 7000000 ''x'' = Inr ?p"
    by (simp add: sample_ext_def table_ext_def decode_token_def refresh_payload_def REFRESH_TOKEN_EXPIRES_def)
  moreover have "e_now_decode (sample_refresh 7000000) = 7000000"
    by (simp add: sample_refresh_def sample_env_def)
  moreover have "subject_user (sv_db (sample_server sample_user)) ?p = Some (Some sample_user)"
    by (simp add: sample_user_facts) (simp add: sample_server_def get_user_def sample_user_facts)
  moreover have "\<not> is_token_revoked (sv_db (sample_server sample_user)) ''j1''"
    by (simp add: sample_server_def is_token_revoked_def seeded_db_def empty_db_def seed_roles_def
        DEFAULT_ROLES_def add_role_row_def)
  moreover have "\<not> token_predates_password_change sample_user ?p"
    by (rule refresh_bound.mint_admitted) simp_all
  moreover have "is_active sample_user" "j_type ?p = ''refresh''" "j_jti ?p = Some ''j1''"
    by (simp_all add: is_active_def sample_user_def refresh_payload_def)
  ultimately show ?thesis
    by (simp add: api_refresh_presents api_refresh_payload_def api_rotate_def Let_def)
qed

theorem refresh_token_single_use_witness:
  "\<exists>a r sv1. api_refresh sample_ext (sample_refresh 7000000) (sample_server sample_user) = (Api_pair a r, sv1) \<and>
     fst (api_refresh sample_ext (sample_refresh 9000000)
       (fold (token_step sample_ext) [Ev_prune 8000000, Ev_refresh (sample_refresh 8000000)] sv1)) \<noteq> Api_pair a r"
proof -
  obtain a r sv1 where first:
    "api_refresh sample_ext (sample_refresh 7000000) (sample_server sample_user) = (Api_pair a r, sv1)"
    using sample_exchange by blast
  have "fst (api_refresh sample_ext (sample_refresh 9000000)
       (fold (token_step sample_ext) [Ev_prune 8000000, Ev_refresh (sample_refresh 8000000)] sv1)) \<noteq> Api_pair a r"
    by (rule refresh_token_single_use[OF _ _ _ first, where p = "refresh_payload 6000000 ''j1'' sample_user"])
      (simp_all add: sample_token presents_def sample_refresh_def sample_env_def,
       simp add: sample_ext_def table_ext_faithful)
  with first show ?thesis by blast
qed

section \<open>The API login\<close>

text \<open>The username and password a body presents, when both are usable strings.\<close>

definition api_credentials :: "json \<Rightarrow> (string \<times> string) option" where
  "api_credentials b =
     (case b of
        JDict kvs \<Rightarrow>
          (case (map_of kvs ''username'', map_of kvs ''password'') of
             (Some (JStr raw), Some (JStr pw)) \<Rightarrow>
               if py_strip raw = [] \<or> pw = [] then None else Some (py_strip raw, pw)
           | _ \<Rightarrow> None)
      | _ \<Rightarrow> None)"

lemma api_credentials_Some:
  "api_credentials b = Some (n, pw) \<longleftrightarrow>
   (\<exists>kvs raw. b = JDict kvs \<and> map_of kvs ''username'' = Some (JStr raw) \<and> map_of kvs ''password'' = Some (JStr pw) \<and>
      n = py_strip raw \<and> n \<noteq> [] \<and> pw \<noteq> [])"
  by (auto simp: api_credentials_def split: json.splits option.splits if_splits)

lemma api_login_attempt_with:
  assumes "api_credentials (JDict kvs) = Some (n, pw)"
  shows "api_login_attempt x e kvs sv =
     (case find_username (sv_db sv) n of
         None \<Rightarrow> api_login_fail e sv
       | Some u \<Rightarrow> if check_password (x_check_hash x) u pw then api_login_accept x e u sv
                   else api_login_fail e sv)"
  using assms by (auto simp: api_credentials_Some api_login_attempt_def body_get_def Let_def split: option.splits)

lemma api_login_attempt_without:
  assumes "api_credentials (JDict kvs) = None"
  shows "fst (api_login_attempt x e kvs sv) \<noteq> Api_login_ok a r j \<and> sv_db (snd (api_login_attempt x e kvs sv)) = sv_db sv"
proof (cases "body_get ''username'' kvs")
  case (JStr raw)
  show ?thesis
  proof (cases "body_get ''password'' kvs")
    case p: (JStr pw)
    have "py_strip raw = [] \<or> pw = []"
    proof (rule ccontr)
      assume "\<not> (py_strip raw = [] \<or> pw = [])"
      moreover have "py_strip [] = []" by (simp add: py_strip_def)
      ultimately have "api_credentials (JDict kvs) = Some (py_strip raw, pw)"
        using JStr p unfolding api_credentials_Some by (auto simp: body_get_def split: option.splits)
      with assms show False by simp
    qed
    then show ?thesis using JStr p by (auto simp: api_login_attempt_def)
  qed (use JStr in \<open>simp_all add: api_login_attempt_def api_login_fail_def Let_def split: option.splits\<close>)
qed (simp_all add: api_login_attempt_def)

lemma api_login_with_credentials:
  assumes "api_credentials (e_body e) = Some (n, pw)"
  shows "api_login x e sv0 =
     (let (limited, att) = check_api_rate_limit (e_check_at e) (e_ip e) (sv_api_attempts sv0);
          sv = sv0\<lparr>sv_api_attempts := att\<rparr>
      in if limited then (Api_error ''RATE_LIMITED'' 429, sv)
      else case find_username (sv_db sv) n of
         None \<Rightarrow> api_login_fail e sv
       | Some u \<Rightarrow> if check_password (x_check_hash x) u pw then api_login_accept x e u sv
                   else api_login_fail e sv)"
proof -
  from assms obtain kvs where kvs: "e_body e = JDict kvs" "kvs \<noteq> []"
    unfolding api_credentials_Some by (metis map_of.simps(1) option.distinct(1))
  then show ?thesis
    using api_login_attempt_with assms by (simp add: api_login_def body_dict_def Let_def split_beta)
qed

lemma api_login_without_credentials:
  assumes "api_credentials (e_body e) = None"
  shows "fst (api_login x e sv0) \<noteq> Api_login_ok a r j \<and> sv_db (snd (api_login x e sv0)) = sv_db sv0"
proof (cases "body_dict (e_body e)")
  case None
  then show ?thesis by (simp add: api_login_def Let_def split_beta)
next
  case (Some kvs)
  have "api_credentials (JDict kvs) = None"
    using Some assms
    by (cases "e_body e") (auto simp: body_dict_def api_credentials_def split: if_splits)
  then show ?thesis
    using Some api_login_attempt_without[of kvs x e _ a r j] by (simp add: api_login_def Let_def split_beta)
qed

text \<open>
  C40. The API login, exactly. A login is accepted if and only if the address is not locked out, the
  body is an object whose username and password are non-empty strings, a user row has exactly that
  username (stripped, but with its case kept), the password matches, and the account is active and
  owes no password change. Only an accepted login changes the database: by its one audit row.
\<close>

theorem api_login_exact:
  "((\<exists>a r j. fst (api_login x e sv) = Api_login_ok a r j) \<longleftrightarrow>
     (\<not> fst (check_api_rate_limit (e_check_at e) (e_ip e) (sv_api_attempts sv)) \<and>
      (\<exists>kvs raw pw u. e_body e = JDict kvs \<and> map_of kvs ''username'' = Some (JStr raw) \<and>
         map_of kvs ''password'' = Some (JStr pw) \<and> py_strip raw \<noteq> [] \<and> pw \<noteq> [] \<and>
         find_username (sv_db sv) (py_strip raw) = Some u \<and> x_check_hash x (u_password_hash u) pw \<and>
         u_is_active_user u \<and> \<not> u_must_change_password u))) \<and>
   d_audit (sv_db (snd (api_login x e sv))) =
     d_audit (sv_db sv) @
       (case fst (api_login x e sv) of
          Api_login_ok a r j \<Rightarrow>
            [audit_row (e_q e) (entry ''api_login'' ''user''
               (map_option u_id (find_username (sv_db sv) (fst (the (api_credentials (e_body e))))))
               (Some (fst (the (api_credentials (e_body e))))) JNull)]
        | _ \<Rightarrow> [])"
proof (cases "api_credentials (e_body e)")
  case None
  have no: "\<not> (\<exists>kvs raw pw u. e_body e = JDict kvs \<and> map_of kvs ''username'' = Some (JStr raw) \<and>
         map_of kvs ''password'' = Some (JStr pw) \<and> py_strip raw \<noteq> [] \<and> pw \<noteq> [] \<and>
         find_username (sv_db sv) (py_strip raw) = Some u \<and> x_check_hash x (u_password_hash u) pw \<and>
         u_is_active_user u \<and> \<not> u_must_change_password u)"
    using None by (metis api_credentials_Some option.distinct(1))
  note wo = api_login_without_credentials[OF None, of x sv]
  then have "fst (api_login x e sv) \<noteq> Api_login_ok a r j" for a r j by blast
  then show ?thesis using no wo by (auto split: api_resp.splits)
next
  case (Some c)
  obtain n pw where c: "c = (n, pw)" by (cases c)
  note cred = Some[unfolded c]
  have cond: "(\<exists>kvs raw pw u. e_body e = JDict kvs \<and> map_of kvs ''username'' = Some (JStr raw) \<and>
         map_of kvs ''password'' = Some (JStr pw) \<and> py_strip raw \<noteq> [] \<and> pw \<noteq> [] \<and>
         find_username (sv_db sv) (py_strip raw) = Some u \<and> x_check_hash x (u_password_hash u) pw \<and>
         u_is_active_user u \<and> \<not> u_must_change_password u) \<longleftrightarrow>
     (\<exists>u. find_username (sv_db sv) n = Some u \<and> x_check_hash x (u_password_hash u) pw \<and>
         u_is_active_user u \<and> \<not> u_must_change_password u)"
    using cred[unfolded api_credentials_Some] by auto
  have nm: "find_username (sv_db sv) n = Some u \<Longrightarrow> u_username u = n" for u
    by (auto simp: find_username_def dest: first_row_Some)
  show ?thesis
    unfolding cond api_login_with_credentials[OF cred] cred
    using nm
    by (auto simp: Let_def split_beta api_login_accept_def api_login_fail_def check_password_def is_active_def
        split: option.splits)
qed

text \<open>Row ids are unique 64-bit integers.\<close>

definition users_ok :: "db \<Rightarrow> bool" where
  "users_ok d \<longleftrightarrow> distinct (map u_id (d_users d)) \<and> (\<forall>u \<in> set (d_users d). row_key (u_id u))"

lemma first_row_unique:
  "distinct (map f xs) \<Longrightarrow> x \<in> set xs \<Longrightarrow> first_row (\<lambda>y. f y = f x) xs = Some x"
  by (induction xs) (auto simp: rev_image_eqI)

lemma users_ok_get: "users_ok d \<Longrightarrow> u \<in> set (d_users d) \<Longrightarrow> get_user d (u_id u) = Some u \<and> row_key (u_id u)"
  by (simp add: users_ok_def get_user_def first_row_unique)

lemma api_login_acceptedD:
  assumes "api_login x e sv = (Api_login_ok a r j, sv')"
  shows "\<exists>u \<in> set (d_users (sv_db sv)). is_active u \<and> a = create_access_token x (sv_db sv) (e_now_access e) u \<and>
    r = create_refresh_token x (e_now_refresh e) (e_jti e) u \<and> j = api_user_json (sv_db sv) u \<and>
    d_users (sv_db sv') = d_users (sv_db sv)"
proof (cases "api_credentials (e_body e)")
  case None
  then show ?thesis using assms api_login_without_credentials[OF None, of x sv a r j] by simp
next
  case (Some c)
  then show ?thesis
    using assms api_login_with_credentials[of e "fst c" "snd c" x sv]
    by (auto simp: Let_def split_beta api_login_fail_def api_login_accept_def find_username_def
        split: if_splits option.splits dest!: first_row_Some)
qed

text \<open>
  A login's token works. The access token of an accepted API login passes the gate, as the user
  that logged in, for at least 14 minutes and 59 seconds (a JWT's expiry is rounded down to a whole
  second) as long as the user rows stay as they were.
\<close>

theorem api_login_token_admitted:
  assumes "api_login x e sv = (Api_login_ok a r j, sv')" "users_ok (sv_db sv)"
    and "\<And>u. u \<in> set (d_users (sv_db sv)) \<Longrightarrow> jwt_faithful x (access_payload (sv_db sv) (e_now_access e) u)"
    and "e_now_access e \<le> now" "now < e_now_access e + 899 * 1000000"
  shows "\<exists>u. jwt_required x now (''Bearer '' @ a) (sv_db sv') = Admitted u \<and> j = api_user_json (sv_db sv) u"
proof -
  from api_login_acceptedD[OF assms(1)] obtain u where u: "u \<in> set (d_users (sv_db sv))" "is_active u"
      "a = create_access_token x (sv_db sv) (e_now_access e) u" "j = api_user_json (sv_db sv) u"
      "d_users (sv_db sv') = d_users (sv_db sv)" by blast
  have get: "get_user (sv_db sv') (u_id u) = Some u" "row_key (u_id u)"
    using users_ok_get[OF assms(2) u(1)] u(5) by (simp_all add: get_user_def)
  let ?t = "e_now_access e"
  have iat: "?t div 1000000 * 1000000 \<le> ?t"
    using div_mult_mod_eq[of ?t 1000000] pos_mod_sign[of 1000000 ?t] by linarith
  have "?t + ACCESS_TOKEN_EXPIRES < (?t + ACCESS_TOKEN_EXPIRES) div 1000000 * 1000000 + 1000000"
    using div_mult_mod_eq[of "?t + ACCESS_TOKEN_EXPIRES" 1000000]
      pos_mod_bound[of 1000000 "?t + ACCESS_TOKEN_EXPIRES"] by linarith
  then have ex: "now < (?t + ACCESS_TOKEN_EXPIRES) div 1000000 * 1000000"
    using assms(5) unfolding ACCESS_TOKEN_EXPIRES_def by linarith
  have "\<not> token_predates_password_change u (access_payload (sv_db sv) ?t u)"
    by (rule access_bound.mint_admitted) simp_all
  moreover have "\<not> now < j_iat (access_payload (sv_db sv) ?t u) * 1000000"
      "\<not> j_exp (access_payload (sv_db sv) ?t u) * 1000000 \<le> now"
    using iat ex assms(4) by (simp_all add: access_payload_def)
  ultimately have "jwt_required x now (''Bearer '' @ a) (sv_db sv') = Admitted u"
    unfolding u(3) gate_on_minted_access[OF assms(3)[OF u(1)] get(2)] using get(1) u(2) by simp
  then show ?thesis using u(4) by blast
qed

definition login_ext :: ext where
  "login_ext = table_ext [access_payload (sv_db (sample_server sample_user)) 9000000 sample_user]
     (remember_marker sample_user)"

definition login_env :: api_env where
  "login_env = sample_env (JDict [(''username'', JStr '' ann ''), (''password'', JStr ''secret'')]) 9000000"

lemma sample_login:
  "\<exists>a r j sv'. api_login login_ext login_env (sample_server sample_user) = (Api_login_ok a r j, sv')"
proof -
  have c: "api_credentials (e_body login_env) = Some (''ann'', ''secret'')"
    by (simp add: login_env_def sample_env_def api_credentials_def py_strip_def py_space_def code_def)
  have "\<not> fst (check_api_rate_limit (e_check_at login_env) (e_ip login_env) (sv_api_attempts (sample_server sample_user)))"
    by (simp add: sample_server_def check_api_rate_limit_def check_buckets_def prune_buckets_def bucket_def
        evict_oldest_def API_FAIL_LIMIT_def Let_def)
  moreover have "find_username (sv_db (sample_server sample_user)) ''ann'' = Some sample_user"
    by (simp add: sample_server_def find_username_def sample_user_def)
  ultimately show ?thesis
    unfolding api_login_with_credentials[OF c] Let_def split_beta
    by (simp add: check_password_def login_ext_def table_ext_def api_login_accept_def is_active_def sample_user_def)
qed

theorem api_login_token_admitted_witness:
  "\<exists>a r j sv' u. api_login login_ext login_env (sample_server sample_user) = (Api_login_ok a r j, sv') \<and>
     jwt_required login_ext 10000000 (''Bearer '' @ a) (sv_db sv') = Admitted u"
proof -
  obtain a r j sv' where login: "api_login login_ext login_env (sample_server sample_user) = (Api_login_ok a r j, sv')"
    using sample_login by blast
  have env: "e_now_access login_env = 9000000" by (simp add: login_env_def sample_env_def)
  have users: "d_users (sv_db (sample_server sample_user)) = [sample_user]" by (simp add: sample_server_def)
  then have ok: "users_ok (sv_db (sample_server sample_user))"
    by (simp add: users_ok_def sample_user_facts)
  have "\<exists>u. jwt_required login_ext 10000000 (''Bearer '' @ a) (sv_db sv') = Admitted u \<and>
      j = api_user_json (sv_db (sample_server sample_user)) u"
    by (rule api_login_token_admitted[OF login ok])
      (simp_all add: env users, simp add: login_ext_def table_ext_faithful)
  then show ?thesis using login by blast
qed

end
