(* ===== verification/Cloudflare.thy ===== *)
theory Cloudflare
  imports Net_Trust Tokens
begin

text \<open>
  Cloudflare Access (\<^verbatim>\<open>src/auth/cloudflare_access.py\<close>): the configuration, the check of the
  team domain, the key cache, the validation of a token against the fetched keys, and the
  provisioning of users. The request hook itself is in \<open>Sessions\<close>. The HTTP fetch and PyJWT's
  verification with one key are parameters.
\<close>

section \<open>Configuration\<close>

definition TEAM_SUFFIX :: string where "TEAM_SUFFIX = ''.cloudflareaccess.com''"

definition team_char :: "char \<Rightarrow> bool" where
  "team_char c \<longleftrightarrow> (let n = code c in 97 \<le> n \<and> n \<le> 122 \<or> 48 \<le> n \<and> n \<le> 57 \<or> n = 45)"

text \<open>The full match of the lower-cased value against \<^verbatim>\<open>[a-z0-9-]+\.cloudflareaccess\.com\<close>.\<close>

definition is_valid_team_domain :: "string \<Rightarrow> bool" where
  "is_valid_team_domain s \<longleftrightarrow>
     s \<noteq> [] \<and>
     (let l = py_lower s; n = length l - length TEAM_SUFFIX in
      length TEAM_SUFFIX < length l \<and> drop n l = TEAM_SUFFIX \<and> list_all team_char (take n l))"

record cf_config =
  cf_enabled :: bool
  cf_team_domain :: string
  cf_audience :: string
  cf_auto_provision :: bool
  cf_bypass_local_auth :: bool

definition get_cf_config :: "db \<Rightarrow> cf_config" where
  "get_cf_config d =
     \<lparr>cf_enabled = (setting_get d ''cf_access_enabled'' ''false'' = ''true''),
      cf_team_domain = setting_get d ''cf_access_team_domain'' [],
      cf_audience = setting_get d ''cf_access_audience'' [],
      cf_auto_provision = (setting_get d ''cf_access_auto_provision'' ''true'' = ''true''),
      cf_bypass_local_auth = (setting_get d ''cf_access_bypass_local_auth'' ''false'' = ''true'')\<rparr>"

section \<open>Keys\<close>

text \<open>\<open>'k\<close> is the type of a published key. The cache starts empty, at time 0.\<close>

record 'k jwks_cache =
  jc_keys :: "'k list"
  jc_fetched_at :: seconds

definition JWKS_CACHE_TTL :: seconds where "JWKS_CACHE_TTL = 3600"
definition JWKS_STALE_MAX_AGE :: seconds where "JWKS_STALE_MAX_AGE = 86400"

text \<open>\<open>fetch url\<close> is what the certificate end point returns, \<^term>\<open>None\<close> when anything in the request raises.\<close>

definition certs_url :: "string \<Rightarrow> string" where
  "certs_url team = ''https://'' @ team @ ''/cdn-cgi/access/certs''"

definition fetch_jwks ::
  "(string \<Rightarrow> 'k list option) \<Rightarrow> seconds \<Rightarrow> string \<Rightarrow> 'k jwks_cache \<Rightarrow> 'k list \<times> 'k jwks_cache" where
  "fetch_jwks fetch now team c =
     (if jc_keys c \<noteq> [] \<and> now - jc_fetched_at c < JWKS_CACHE_TTL then (jc_keys c, c)
      else if \<not> is_valid_team_domain team then ([], c)
      else case fetch (certs_url team) of
        Some ks \<Rightarrow> (ks, \<lparr>jc_keys = ks, jc_fetched_at = now\<rparr>)
      | None \<Rightarrow>
          if jc_keys c \<noteq> [] \<and> now - jc_fetched_at c < JWKS_STALE_MAX_AGE then (jc_keys c, c) else ([], c))"

section \<open>Token validation\<close>

record cf_identity =
  ci_email :: string
  ci_name :: string

text \<open>The outcomes of PyJWT's verification with one key, as the loop distinguishes them.\<close>

datatype key_verdict = Verified cf_identity | Bad_signature | Key_expired | Bad_audience | Other_error

text \<open>\<^term>\<open>Inl\<close> carries the message of the \<^verbatim>\<open>ValueError\<close>.\<close>

fun try_keys :: "('k \<Rightarrow> key_verdict) \<Rightarrow> 'k list \<Rightarrow> string + cf_identity" where
  "try_keys verdict [] = Inl ''Token signature could not be verified with any key''"
| "try_keys verdict (k # ks) =
     (case verdict k of
        Verified p \<Rightarrow> Inr p
      | Bad_signature \<Rightarrow> try_keys verdict ks
      | Key_expired \<Rightarrow> Inl ''Token has expired''
      | Bad_audience \<Rightarrow> Inl ''Invalid audience''
      | Other_error \<Rightarrow> try_keys verdict ks)"

text \<open>\<open>verify token key audience issuer\<close>\<close>

record 'k cf_lib =
  cl_fetch :: "string \<Rightarrow> 'k list option"
  cl_verify :: "string \<Rightarrow> 'k \<Rightarrow> string \<Rightarrow> string \<Rightarrow> key_verdict"

definition validate_cf_token ::
  "'k cf_lib \<Rightarrow> seconds \<Rightarrow> string \<Rightarrow> string \<Rightarrow> string \<Rightarrow> 'k jwks_cache \<Rightarrow> (string + cf_identity) \<times> 'k jwks_cache" where
  "validate_cf_token lib now token team audience c =
     (let (jwks, c') = fetch_jwks (cl_fetch lib) now team c in
      if jwks = [] then (Inl ''Could not fetch Cloudflare public keys'', c')
      else (try_keys (\<lambda>k. cl_verify lib token k audience (''https://'' @ team)) jwks, c'))"

section \<open>Users\<close>

text \<open>\<open>hash\<close> is the hash of the random password.\<close>

definition cf_user :: "string \<Rightarrow> string \<Rightarrow> usec \<Rightarrow> int \<Rightarrow> int \<Rightarrow> string \<Rightarrow> user" where
  "cf_user email name now uid rid hash =
     set_password hash now
       \<lparr>u_id = uid, u_username = email, u_display_name = Some (str_or name (hd (py_split (CHR ''@'') email))),
        u_password_hash = [], u_role_id = rid, u_created_via = ''cloudflare'', u_is_active_user = True,
        u_timezone = None, u_last_login_at = None, u_tokens_valid_after = None,
        u_must_change_password = False, u_allowed_tags = []\<rparr>"

definition get_or_create_cf_user ::
  "string \<Rightarrow> usec \<Rightarrow> string \<Rightarrow> string \<Rightarrow> db \<Rightarrow> user option \<times> db" where
  "get_or_create_cf_user hash now raw_email name d =
     (let email = py_lower (py_strip raw_email) in
      if email = [] then (None, d)
      else case find_username d email of
        Some u \<Rightarrow> (Some u, d)
      | None \<Rightarrow>
          if \<not> cf_auto_provision (get_cf_config d) then (None, d)
          else (case find_role d ''viewer'' of
             None \<Rightarrow> (None, d)
           | Some r \<Rightarrow>
               let u = cf_user email name now (next_id u_id (d_users d)) (r_id r) hash
               in (Some u, d\<lparr>d_users := d_users d @ [u]\<rparr>)))"

section \<open>Properties\<close>

definition logout_url :: "string \<Rightarrow> string" where
  "logout_url team = ''https://'' @ team @ ''/cdn-cgi/access/logout''"

text \<open>The authority of an \<^verbatim>\<open>https\<close> URL: what stands before the first slash, question mark, hash or backslash.\<close>

definition url_authority :: "string \<Rightarrow> string" where
  "url_authority u = takeWhile (\<lambda>c. c \<notin> {CHR ''/'', CHR ''?'', CHR ''#'', CHR 0x5C}) (drop 8 u)"

definition domain_char :: "char \<Rightarrow> bool" where
  "domain_char c \<longleftrightarrow> team_char c \<or> 65 \<le> code c \<and> code c \<le> 90 \<or> c = CHR ''.''"

lemma py_lower_char_domain: "domain_char (py_lower_char c) \<Longrightarrow> domain_char c"
proof -
  have 1: "code (char_of (n + 32)) = (n + 32) mod 256" for n :: nat by (simp add: code_def)
  have 2: "code c < 256" by (simp add: code_def)
  have 3: "code (CHR ''.'') = 46" by (simp add: code_def)
  have 4: "c = CHR ''.'' \<longleftrightarrow> code c = 46" for c by (metis 3 char_of_char code_def)
  show "domain_char (py_lower_char c) \<Longrightarrow> domain_char c"
    using 2 by (auto simp: domain_char_def team_char_def py_lower_char_def Let_def 1 4 split: if_splits)
qed

lemma valid_team_domainD:
  assumes "is_valid_team_domain s"
  obtains team where "team \<noteq> []" "list_all team_char team" "py_lower s = team @ TEAM_SUFFIX"
proof
  let ?l = "py_lower s"
  let ?n = "length ?l - length TEAM_SUFFIX"
  have v: "length TEAM_SUFFIX < length ?l" "drop ?n ?l = TEAM_SUFFIX" "list_all team_char (take ?n ?l)"
    using assms by (auto simp: is_valid_team_domain_def Let_def)
  show "take ?n ?l \<noteq> []" using v(1) by auto
  show "list_all team_char (take ?n ?l)" by (rule v)
  show "?l = take ?n ?l @ TEAM_SUFFIX" using append_take_drop_id[of ?n ?l] v(2) by simp
qed

lemma suffix_domain_chars: "list_all domain_char TEAM_SUFFIX"
  by (simp add: TEAM_SUFFIX_def domain_char_def team_char_def code_def)

lemma valid_team_domain_chars: "is_valid_team_domain s \<Longrightarrow> list_all domain_char s"
proof -
  assume "is_valid_team_domain s"
  then obtain team where "list_all team_char team" "py_lower s = team @ TEAM_SUFFIX"
    by (rule valid_team_domainD)
  then have "list_all domain_char (py_lower s)"
    using suffix_domain_chars by (auto simp: list_all_iff domain_char_def)
  then show ?thesis using py_lower_char_domain by (auto simp: py_lower_def list_all_iff)
qed

lemma domain_char_safe: "domain_char c \<Longrightarrow> c \<notin> {CHR ''/'', CHR ''?'', CHR ''#'', CHR 0x5C, CHR ''@'', CHR '':''}"
  by (auto simp: domain_char_def team_char_def code_def)

lemma authority_of_domain:
  assumes "list_all domain_char s"
  shows "url_authority (''https://'' @ s @ CHR ''/'' # rest) = s"
proof -
  have "takeWhile (\<lambda>c. c \<notin> {CHR ''/'', CHR ''?'', CHR ''#'', CHR 0x5C}) (s @ CHR ''/'' # rest) = s"
    using assms domain_char_safe by (subst takeWhile_append2) (auto simp: list_all_iff)
  then show ?thesis by (simp add: url_authority_def)
qed

text \<open>
  The team domain cannot redirect elsewhere. For an accepted team domain, the logout redirect
  and the key download go to exactly that host: the authority of both URLs is the value itself, it
  holds no user information and no port, and it is one label below \<^verbatim>\<open>cloudflareaccess.com\<close>.
\<close>

theorem team_domain_confined:
  assumes "is_valid_team_domain s"
  shows "url_authority (logout_url s) = s \<and> url_authority (certs_url s) = s \<and>
    CHR ''@'' \<notin> set s \<and> CHR '':'' \<notin> set s \<and>
    (\<exists>team. team \<noteq> [] \<and> CHR ''.'' \<notin> set team \<and> py_lower s = team @ TEAM_SUFFIX)"
proof -
  note dc = valid_team_domain_chars[OF assms]
  obtain team where t: "team \<noteq> []" "list_all team_char team" "py_lower s = team @ TEAM_SUFFIX"
    using assms by (rule valid_team_domainD)
  have "CHR ''.'' \<notin> set team" using t(2) by (auto simp: list_all_iff team_char_def code_def)
  moreover have "CHR ''@'' \<notin> set s" "CHR '':'' \<notin> set s"
    using dc domain_char_safe by (auto simp: list_all_iff)
  moreover have "url_authority (logout_url s) = s" "url_authority (certs_url s) = s"
    using authority_of_domain[OF dc] by (simp_all add: logout_url_def certs_url_def)
  ultimately show ?thesis using t by blast
qed

theorem team_domain_confined_witness:
  "is_valid_team_domain ''My-Team.cloudflareaccess.com'' \<and>
   url_authority (logout_url ''My-Team.cloudflareaccess.com'') = ''My-Team.cloudflareaccess.com'' \<and>
   \<not> is_valid_team_domain ''evil.com#.cloudflareaccess.com''"
proof -
  have v: "is_valid_team_domain ''My-Team.cloudflareaccess.com''"
    "\<not> is_valid_team_domain ''evil.com#.cloudflareaccess.com''"
    by code_simp+
  show ?thesis using team_domain_confined[OF v(1)] v by simp
qed

end
