(* ===== verification/Sessions.thy ===== *)
theory Sessions
  imports Cloudflare
begin

text \<open>
  Browser sessions: the login form, logout, password change and session revocation
  (\<^verbatim>\<open>src/routes/auth.py\<close>), the tracking of sessions in the database
  (\<^verbatim>\<open>src/auth/session_manager.py\<close>), and the hooks that run before every request, in the
  order in which \<^verbatim>\<open>create_app\<close> registers them: remember-me and forced password change,
  local-network bypass (\<^verbatim>\<open>src/auth/local_network.py\<close>), Cloudflare Access
  (\<^verbatim>\<open>src/auth/cloudflare_access.py\<close>), session state.

  Flask-Login is a parameter: \<open>'l\<close> is what it keeps in cookies, with operations to load the user, to
  log in and out, and to clear its session keys. SHA-256 is a parameter \<open>sha\<close>.
  Flask-Login's \<^verbatim>\<open>is_authenticated\<close> of a loaded user is the user's \<^verbatim>\<open>is_active\<close>.
\<close>

section \<open>Cookies and libraries\<close>

text \<open>The session keys of the application, next to the library's.\<close>

record 'l fsess =
  f_lib :: 'l
  f_usession :: "string option"
  f_bypass :: bool
  f_safety :: bool

datatype who = Nobody | In_session user | From_cookie user

text \<open>
  \<open>fl_load\<close> resolves the current user with the application's user loader: from the session, or from
  the remember cookie, in which case the user id is also written to the session.
\<close>

record 'l flask_login =
  fl_load :: "(int \<Rightarrow> user option) \<Rightarrow> 'l \<Rightarrow> who \<times> 'l"
  fl_login_user :: "user \<Rightarrow> bool \<Rightarrow> 'l \<Rightarrow> 'l"
  fl_logout_user :: "'l \<Rightarrow> 'l"
  fl_clear :: "'l \<Rightarrow> 'l"

record ('l, 'k) web =
  w_login :: "'l flask_login"
  w_ext :: ext
  w_sha :: "string \<Rightarrow> string"
  w_cf :: "'k cf_lib"

text \<open>
  The state a request works on: the client's cookies, the server, the key cache, and the request's
  own variables: the current user and the reason of a refused restore.
\<close>

record ('l, 'k) wstate =
  ws_sess :: "'l fsess"
  ws_marker :: "string option"
  ws_server :: server
  ws_jwks :: "'k jwks_cache"
  ws_user :: "user option"
  ws_rejected :: "string option"

text \<open>
  What the environment supplies: the request, the time, the random session id, the hash Werkzeug makes
  of a new password, the life time of the remember cookie, the form, and what
  \<^verbatim>\<open>resolve_local_url\<close> made of the \<^verbatim>\<open>next\<close> argument.
\<close>

record web_env =
  we_req :: http_req
  we_now :: usec
  we_mono :: seconds
  we_fail_at :: seconds
  we_prune_at :: seconds
  we_raw_id :: string
  we_hash :: string
  we_duration :: int
  we_user_agent :: string
  we_ts :: string
  we_post :: bool
  we_form :: "(string \<times> string) list"
  we_next :: "string option"

abbreviation ws_db :: "('l, 'k) wstate \<Rightarrow> db" where "ws_db s \<equiv> sv_db (ws_server s)"

definition upd_db :: "(db \<Rightarrow> db) \<Rightarrow> ('l, 'k) wstate \<Rightarrow> ('l, 'k) wstate" where
  "upd_db f s = s\<lparr>ws_server := (ws_server s)\<lparr>sv_app := (sv_app (ws_server s))\<lparr>a_db := f (ws_db s)\<rparr>\<rparr>\<rparr>"

definition upd_app :: "(app \<Rightarrow> app) \<Rightarrow> ('l, 'k) wstate \<Rightarrow> ('l, 'k) wstate" where
  "upd_app f s = s\<lparr>ws_server := (ws_server s)\<lparr>sv_app := f (sv_app (ws_server s))\<rparr>\<rparr>"

definition form :: "web_env \<Rightarrow> string \<Rightarrow> string" where
  "form e k = opt_str (map_of (we_form e) k)"

definition authenticated :: "('l, 'k) wstate \<Rightarrow> bool" where
  "authenticated s = (case ws_user s of None \<Rightarrow> False | Some u \<Rightarrow> is_active u)"

text \<open>\<open>log_action\<close> inside a request: an inactive user does not count as authenticated.\<close>

definition log_req :: "web_env \<Rightarrow> log_entry \<Rightarrow> ('l, 'k) wstate \<Rightarrow> ('l, 'k) wstate" where
  "log_req e l s = upd_app (log_action \<lparr>q_in_request = True, q_user = (if authenticated s then ws_user s else None),
      q_client_ip = get_client_ip (we_req e), q_ts = we_ts e\<rparr> l) s"

definition user_entry :: "string \<Rightarrow> user \<Rightarrow> json \<Rightarrow> log_entry" where
  "user_entry action u details = entry action ''user'' (Some (u_id u)) (Some (u_username u)) details"

section \<open>Flask-Login calls\<close>

definition session_clear :: "('l, 'k) web \<Rightarrow> ('l, 'k) wstate \<Rightarrow> ('l, 'k) wstate" where
  "session_clear w s = s\<lparr>ws_sess :=
     \<lparr>f_lib = fl_clear (w_login w) (f_lib (ws_sess s)), f_usession = None, f_bypass = False, f_safety = False\<rparr>\<rparr>"

definition login_user :: "('l, 'k) web \<Rightarrow> bool \<Rightarrow> user \<Rightarrow> ('l, 'k) wstate \<Rightarrow> ('l, 'k) wstate" where
  "login_user w remember u s =
     s\<lparr>ws_sess := (ws_sess s)\<lparr>f_lib := fl_login_user (w_login w) u remember (f_lib (ws_sess s))\<rparr>,
       ws_user := Some u\<rparr>"

definition logout_user :: "('l, 'k) web \<Rightarrow> ('l, 'k) wstate \<Rightarrow> ('l, 'k) wstate" where
  "logout_user w s =
     s\<lparr>ws_sess := (ws_sess s)\<lparr>f_lib := fl_logout_user (w_login w) (f_lib (ws_sess s))\<rparr>, ws_user := None\<rparr>"

section \<open>Session tracking (auth/session\_manager.py)\<close>

definition LAST_SEEN_THROTTLE :: usec where "LAST_SEEN_THROTTLE = 60 * 1000000"

definition hash_session_id :: "('l, 'k) web \<Rightarrow> string \<Rightarrow> string" where
  "hash_session_id w raw = w_sha w raw"

definition session_row :: "('l, 'k) web \<Rightarrow> web_env \<Rightarrow> user \<Rightarrow> db \<Rightarrow> user_session" where
  "session_row w e u d =
     (let ua = take 256 (we_user_agent e) in
      \<lparr>s_id = next_id s_id (d_sessions d), s_user_id = u_id u,
       s_session_id_hash = hash_session_id w (we_raw_id e), s_ip_address = get_client_ip (we_req e),
       s_user_agent = (if ua = [] then None else Some ua), s_last_seen_at = Some (we_now e), s_revoked = False\<rparr>)"

definition start_session :: "('l, 'k) web \<Rightarrow> web_env \<Rightarrow> user \<Rightarrow> ('l, 'k) wstate \<Rightarrow> ('l, 'k) wstate" where
  "start_session w e u s =
     upd_db (\<lambda>d. d\<lparr>d_sessions := d_sessions d @ [session_row w e u d]\<rparr>)
       (s\<lparr>ws_sess := (ws_sess s)\<lparr>f_usession := Some (we_raw_id e)\<rparr>\<rparr>)"

definition find_session :: "db \<Rightarrow> string \<Rightarrow> user_session option" where
  "find_session d h = first_row (\<lambda>r. s_session_id_hash r = h) (d_sessions d)"

definition current_session_record :: "('l, 'k) web \<Rightarrow> ('l, 'k) wstate \<Rightarrow> user_session option" where
  "current_session_record w s =
     (let raw = opt_str (f_usession (ws_sess s)) in
      if raw = [] then None else find_session (ws_db s) (hash_session_id w raw))"

definition revoke_row :: "int \<Rightarrow> db \<Rightarrow> db" where
  "revoke_row i d = d\<lparr>d_sessions := update_rows (\<lambda>r. s_id r = i) (\<lambda>r. r\<lparr>s_revoked := True\<rparr>) (d_sessions d)\<rparr>"

definition revoke_current_session :: "('l, 'k) web \<Rightarrow> ('l, 'k) wstate \<Rightarrow> ('l, 'k) wstate" where
  "revoke_current_session w s =
     (case current_session_record w s of
        None \<Rightarrow> s
      | Some r \<Rightarrow> if s_revoked r then s else upd_db (revoke_row (s_id r)) s)"

section \<open>The hooks\<close>

datatype hook = Go_on | Redirect string | Abort nat

definition path_exempt :: "web_env \<Rightarrow> bool" where
  "path_exempt e \<longleftrightarrow> startswith_any (rq_path (we_req e)) [''/static/'', ''/api/v1/'']"

definition set_last_login :: "web_env \<Rightarrow> user \<Rightarrow> ('l, 'k) wstate \<Rightarrow> ('l, 'k) wstate" where
  "set_last_login e u s =
     upd_db (put_user (u\<lparr>u_last_login_at := Some (we_now e)\<rparr>)) s"

text \<open>The signal handler for a user restored from the remember cookie.\<close>

definition on_user_loaded_from_cookie ::
  "('l, 'k) web \<Rightarrow> web_env \<Rightarrow> user \<Rightarrow> ('l, 'k) wstate \<Rightarrow> ('l, 'k) wstate" where
  "on_user_loaded_from_cookie w e u s0 =
     (let s = s0\<lparr>ws_user := Some u, ws_rejected := None\<rparr> in
      case remember_restore_refusal (w_ext w) (we_now e) (we_duration e) (ws_marker s) (Some u) of
        Some reason \<Rightarrow> s\<lparr>ws_rejected := Some reason\<rparr>
      | None \<Rightarrow> log_req e (user_entry ''login_remembered'' u JNull) (set_last_login e u (start_session w e u s)))"

text \<open>
  The first look at \<^verbatim>\<open>current_user\<close> in a request. Only an active user counts as
  authenticated.
\<close>

definition resolve_user :: "('l, 'k) web \<Rightarrow> web_env \<Rightarrow> ('l, 'k) wstate \<Rightarrow> ('l, 'k) wstate" where
  "resolve_user w e s =
     (let (found, lib) = fl_load (w_login w) (get_user (ws_db s)) (f_lib (ws_sess s));
          s1 = s\<lparr>ws_sess := (ws_sess s)\<lparr>f_lib := lib\<rparr>, ws_user := None, ws_rejected := None\<rparr>
      in case found of
           Nobody \<Rightarrow> s1
         | In_session u \<Rightarrow> s1\<lparr>ws_user := Some u\<rparr>
         | From_cookie u \<Rightarrow> on_user_loaded_from_cookie w e u s1)"

definition FORCED_CHANGE_EXEMPT :: "string list" where
  "FORCED_CHANGE_EXEMPT = [''static'', ''auth.login'', ''auth.logout'', ''auth.change_password'', ''health_check'']"

definition enforce_remember_and_password_change ::
  "('l, 'k) web \<Rightarrow> web_env \<Rightarrow> ('l, 'k) wstate \<Rightarrow> hook \<times> ('l, 'k) wstate" where
  "enforce_remember_and_password_change w e s =
     (if path_exempt e then (Go_on, s)
      else if \<not> authenticated s then (Go_on, s)
      else if ws_rejected s \<noteq> None then
        let s1 = logout_user w s
        in (Redirect ''auth.login'', s1\<lparr>ws_sess := (ws_sess s1)\<lparr>f_usession := None\<rparr>, ws_marker := None\<rparr>)
      else if (case ws_user s of None \<Rightarrow> False | Some u \<Rightarrow> u_must_change_password u)
              \<and> \<not> (case rq_endpoint (we_req e) of None \<Rightarrow> False | Some ep \<Rightarrow> List.member FORCED_CHANGE_EXEMPT ep)
      then (Redirect ''auth.change_password'', s)
      else (Go_on, s))"

text \<open>The account the bypass logs in as.\<close>

definition bypass_admin :: "db \<Rightarrow> user option" where
  "bypass_admin d =
     first_row (\<lambda>u. u_username u = ''admin'' \<and>
       (case role_of d u of None \<Rightarrow> False | Some r \<Rightarrow> r_name r = ''super_admin'' \<or> r_name r = ''admin''))
       (d_users d)"

definition bypass_login :: "('l, 'k) web \<Rightarrow> web_env \<Rightarrow> user \<Rightarrow> ('l, 'k) wstate \<Rightarrow> ('l, 'k) wstate" where
  "bypass_login w e admin s =
     (let safety = f_safety (ws_sess s);
          s1 = login_user w False admin (session_clear w s);
          s2 = set_last_login e admin s1;
          s3 = s2\<lparr>ws_sess := (ws_sess s2)\<lparr>f_safety := safety\<rparr>\<rparr>;
          s4 = start_session w e admin s3;
          s5 = s4\<lparr>ws_sess := (ws_sess s4)\<lparr>f_bypass := True\<rparr>\<rparr>
      in log_req e (user_entry ''login_local_bypass'' admin
           (JDict [(''client_ip'', opt_json (get_client_ip (we_req e)))])) s5)"

definition local_network_bypass :: "('l, 'k) web \<Rightarrow> web_env \<Rightarrow> ('l, 'k) wstate \<Rightarrow> ('l, 'k) wstate" where
  "local_network_bypass w e s =
     (let r = we_req e; d = ws_db s in
      if path_exempt e then s
      else if authenticated s then
        (if f_bypass (ws_sess s) \<and> \<not> bypass_session_still_valid r d
         then session_clear w (logout_user w (revoke_current_session w s)) else s)
      else if \<not> bypass_enabled d then s
      else if came_through_cloudflare r then s
      else if \<not> is_trusted (get_client_ip r) (get_trusted_networks d) then s
      else case bypass_admin d of
        None \<Rightarrow> s
      | Some admin \<Rightarrow> if is_active admin then bypass_login w e admin s else s)"

definition cf_login :: "('l, 'k) web \<Rightarrow> web_env \<Rightarrow> user \<Rightarrow> ('l, 'k) wstate \<Rightarrow> ('l, 'k) wstate" where
  "cf_login w e u s =
     log_req e (user_entry ''login_cloudflare'' u JNull)
       (start_session w e u (set_last_login e u (login_user w False u (session_clear w s))))"

definition cf_token :: "http_req \<Rightarrow> string" where
  "cf_token r = str_or (header r ''Cf-Access-Jwt-Assertion'') (cookie r ''CF_Authorization'')"

definition cf_accept ::
  "('l, 'k) web \<Rightarrow> web_env \<Rightarrow> cf_config \<Rightarrow> cf_identity \<Rightarrow> ('l, 'k) wstate \<Rightarrow> hook \<times> ('l, 'k) wstate" where
  "cf_accept w e cfg p s =
     (if ci_email p = [] then (Go_on, s)
      else let (uo, d') = get_or_create_cf_user (we_hash e) (we_now e) (ci_email p) (ci_name p) (ws_db s);
               s1 = upd_db (\<lambda>_. d') s
           in case uo of
                Some u \<Rightarrow> if is_active u then (Go_on, cf_login w e u s1) else (Go_on, s1)
              | None \<Rightarrow> if cf_bypass_local_auth cfg then (Abort 403, s1) else (Go_on, s1))"

definition check_cf_access :: "('l, 'k) web \<Rightarrow> web_env \<Rightarrow> ('l, 'k) wstate \<Rightarrow> hook \<times> ('l, 'k) wstate" where
  "check_cf_access w e s =
     (let r = we_req e; cfg = get_cf_config (ws_db s) in
      if path_exempt e then (Go_on, s)
      else if authenticated s then (Go_on, s)
      else if \<not> cf_enabled cfg then (Go_on, s)
      else if cf_team_domain cfg = [] \<or> cf_audience cfg = [] then (Go_on, s)
      else if cf_token r = [] then
        (if cf_bypass_local_auth cfg \<and> rq_endpoint r \<noteq> Some ''auth.login'' \<and> rq_endpoint r \<noteq> Some ''static''
         then (Abort 403, s) else (Go_on, s))
      else let (res, c') = validate_cf_token (w_cf w) (we_mono e) (cf_token r) (cf_team_domain cfg)
                             (cf_audience cfg) (ws_jwks s);
               s1 = s\<lparr>ws_jwks := c'\<rparr>
           in case res of
                Inl _ \<Rightarrow> if cf_bypass_local_auth cfg then (Abort 403, s1) else (Go_on, s1)
              | Inr p \<Rightarrow> cf_accept w e cfg p s1)"

text \<open>A failing commit of the throttled time stamp is rolled back; \<open>commit_fails\<close> says whether it does.\<close>

definition touch_session :: "web_env \<Rightarrow> bool \<Rightarrow> user_session \<Rightarrow> ('l, 'k) wstate \<Rightarrow> ('l, 'k) wstate" where
  "touch_session e commit_fails r s =
     (let stale = (case s_last_seen_at r of None \<Rightarrow> True | Some seen \<Rightarrow> we_now e - seen \<ge> LAST_SEEN_THROTTLE)
      in if stale \<and> \<not> commit_fails
         then upd_db (\<lambda>d. d\<lparr>d_sessions := update_rows (\<lambda>q. s_id q = s_id r)
                (\<lambda>q. q\<lparr>s_last_seen_at := Some (we_now e)\<rparr>) (d_sessions d)\<rparr>) s
         else s)"

definition enforce_session_state ::
  "('l, 'k) web \<Rightarrow> web_env \<Rightarrow> bool \<Rightarrow> ('l, 'k) wstate \<Rightarrow> ('l, 'k) wstate" where
  "enforce_session_state w e commit_fails s =
     (if path_exempt e then s
      else if \<not> authenticated s then s
      else let raw = opt_str (f_usession (ws_sess s)) in
        if raw = [] then logout_user w s
        else case find_session (ws_db s) (hash_session_id w raw) of
          None \<Rightarrow> (let s1 = logout_user w s in s1\<lparr>ws_sess := (ws_sess s1)\<lparr>f_usession := None\<rparr>\<rparr>)
        | Some r \<Rightarrow>
            if s_revoked r then (let s1 = logout_user w s in s1\<lparr>ws_sess := (ws_sess s1)\<lparr>f_usession := None\<rparr>\<rparr>)
            else touch_session e commit_fails r s)"

text \<open>All hooks of one request; a redirect or an abort ends it.\<close>

definition before_request ::
  "('l, 'k) web \<Rightarrow> web_env \<Rightarrow> bool \<Rightarrow> ('l, 'k) wstate \<Rightarrow> hook \<times> ('l, 'k) wstate" where
  "before_request w e commit_fails s =
     (let (h1, s1) = enforce_remember_and_password_change w e (resolve_user w e s) in
      if h1 \<noteq> Go_on then (h1, s1)
      else let (h2, s2) = check_cf_access w e (local_network_bypass w e s1) in
        if h2 \<noteq> Go_on then (h2, s2)
        else (Go_on, enforce_session_state w e commit_fails s2))"

section \<open>The handlers (routes/auth.py)\<close>

text \<open>A rendered template, a redirect to an end point or URL, or an error status.\<close>

datatype page = Render string | To string | Status nat

definition rate_limit_ip :: "web_env \<Rightarrow> string" where
  "rate_limit_ip e = str_or (opt_str (get_client_ip (we_req e))) ''unknown''"

definition login_accept :: "('l, 'k) web \<Rightarrow> web_env \<Rightarrow> user \<Rightarrow> ('l, 'k) wstate \<Rightarrow> page \<times> ('l, 'k) wstate" where
  "login_accept w e u s =
     (let remember = (map_of (we_form e) ''remember'' \<noteq> None);
          s1 = log_req e (user_entry ''login'' u JNull)
                 (start_session w e u (set_last_login e u (login_user w remember u (session_clear w s))));
          target = (if u_must_change_password u then ''auth.change_password''
                    else case we_next e of Some t \<Rightarrow> t | None \<Rightarrow> ''dashboard.index'');
          s2 = (if remember then s1\<lparr>ws_marker := Some (set_remember_marker (w_ext w) (we_now e) u)\<rparr> else s1)
      in (To target, s2))"

definition login_refuse :: "web_env \<Rightarrow> string \<Rightarrow> user option \<Rightarrow> ('l, 'k) wstate \<Rightarrow> page \<times> ('l, 'k) wstate" where
  "login_refuse e username uo s =
     (let sv = ws_server s;
          sv1 = sv\<lparr>sv_web_attempts :=
                     record_failed_login (we_fail_at e) (we_prune_at e) (rate_limit_ip e) (sv_web_attempts sv)\<rparr>;
          reason = (case uo of None \<Rightarrow> ''bad_credentials''
                             | Some u \<Rightarrow> if is_active u then ''bad_credentials'' else ''inactive'')
      in (Render ''login.html'',
          log_req e (entry ''login_failed'' ''user'' (map_option u_id uo) (Some username)
            (JDict [(''reason'', JStr reason)])) (s\<lparr>ws_server := sv1\<rparr>)))"

definition login :: "('l, 'k) web \<Rightarrow> web_env \<Rightarrow> ('l, 'k) wstate \<Rightarrow> page \<times> ('l, 'k) wstate" where
  "login w e s0 =
     (if authenticated s0 then (To ''dashboard.index'', s0)
      else if \<not> we_post e then (Render ''login.html'', s0)
      else let (limited, att) = check_rate_limit (we_mono e) (rate_limit_ip e) (sv_web_attempts (ws_server s0));
               s = s0\<lparr>ws_server := (ws_server s0)\<lparr>sv_web_attempts := att\<rparr>\<rparr>
           in if limited then (Render ''login.html'', s)
              else let username = py_lower (py_strip (form e ''username''));
                       uo = find_username (ws_db s) username
                   in case uo of
                        Some u \<Rightarrow>
                          if check_password (x_check_hash (w_ext w)) u (form e ''password'') \<and> is_active u
                          then login_accept w e u s else login_refuse e username uo s
                      | None \<Rightarrow> login_refuse e username uo s)"

text \<open>\<^verbatim>\<open>@login_required\<close>\<close>

definition login_required ::
  "(user \<Rightarrow> ('l, 'k) wstate \<Rightarrow> page \<times> ('l, 'k) wstate) \<Rightarrow> ('l, 'k) wstate \<Rightarrow> page \<times> ('l, 'k) wstate" where
  "login_required f s =
     (case ws_user s of None \<Rightarrow> (To ''auth.login'', s)
      | Some u \<Rightarrow> if is_active u then f u s else (To ''auth.login'', s))"

definition logout :: "('l, 'k) web \<Rightarrow> web_env \<Rightarrow> ('l, 'k) wstate \<Rightarrow> page \<times> ('l, 'k) wstate" where
  "logout w e = login_required (\<lambda>u s.
     let s1 = logout_user w (revoke_current_session w (log_req e (user_entry ''logout'' u JNull) s));
         team = setting_get (ws_db s1) ''cf_access_team_domain'' []
     in if u_created_via u = ''cloudflare'' \<and> is_valid_team_domain team
        then (To (logout_url team), s1) else (To ''auth.login'', s1))"

definition revoke_sessions_where :: "(user_session \<Rightarrow> bool) \<Rightarrow> db \<Rightarrow> db" where
  "revoke_sessions_where P d =
     d\<lparr>d_sessions := update_rows (\<lambda>r. \<not> s_revoked r \<and> P r) (\<lambda>r. r\<lparr>s_revoked := True\<rparr>) (d_sessions d)\<rparr>"

definition change_password_accept :: "('l, 'k) web \<Rightarrow> web_env \<Rightarrow> user \<Rightarrow> ('l, 'k) wstate \<Rightarrow> page \<times> ('l, 'k) wstate" where
  "change_password_accept w e u s =
     (let u' = set_password (we_hash e) (we_now e) u;
          raw = opt_str (f_usession (ws_sess s));
          keep = (if raw = [] then None else Some (hash_session_id w raw));
          s1 = (upd_db (\<lambda>d. revoke_sessions_where
                  (\<lambda>r. s_user_id r = u_id u \<and> Some (s_session_id_hash r) \<noteq> keep) (put_user u' d)) s)
                \<lparr>ws_user := Some u'\<rparr>;
          s2 = log_req e (user_entry ''password_change'' u' JNull) s1;
          s3 = (if opt_str (ws_marker s2) \<noteq> [] then
                  s2\<lparr>ws_marker := Some (set_remember_marker (w_ext w) (we_now e) u')\<rparr> else s2)
      in (To ''dashboard.index'', s3))"

definition change_password :: "('l, 'k) web \<Rightarrow> web_env \<Rightarrow> ('l, 'k) wstate \<Rightarrow> page \<times> ('l, 'k) wstate" where
  "change_password w e = login_required (\<lambda>u s.
     if u_created_via u = ''cloudflare'' then (To ''auth.profile'', s)
     else if \<not> we_post e then (Render ''change_password.html'', s)
     else if \<not> check_password (x_check_hash (w_ext w)) u (form e ''current_password'') then
       (Render ''change_password.html'', s)
     else if form e ''new_password'' \<noteq> form e ''confirm_password'' then (Render ''change_password.html'', s)
     else if length (form e ''new_password'') < 8 then (Render ''change_password.html'', s)
     else change_password_accept w e u s)"

text \<open>\<open>timezones\<close> is the time-zone database.\<close>

definition profile_save :: "string list \<Rightarrow> web_env \<Rightarrow> ('l, 'k) wstate \<Rightarrow> page \<times> ('l, 'k) wstate" where
  "profile_save timezones e = login_required (\<lambda>u s.
     let tz = py_strip (form e ''timezone'') in
     if tz \<noteq> [] \<and> \<not> List.member timezones tz then (To ''auth.profile'', s)
     else let u' = u\<lparr>u_timezone := (if tz = [] then None else Some tz)\<rparr>
          in (To ''auth.profile'', (upd_db (put_user u') s)\<lparr>ws_user := Some u'\<rparr>))"

definition revoke_session :: "web_env \<Rightarrow> int \<Rightarrow> ('l, 'k) wstate \<Rightarrow> page \<times> ('l, 'k) wstate" where
  "revoke_session e pk = login_required (\<lambda>u s.
     case get_session (ws_db s) pk of
       None \<Rightarrow> (Status 404, s)
     | Some r \<Rightarrow>
         if s_user_id r \<noteq> u_id u then (To ''auth.profile'', s)
         else if s_revoked r then (To ''auth.profile'', s)
         else (To ''auth.profile'',
               log_req e (entry ''session_revoke'' ''user_session'' (Some (s_id r)) (Some (u_username u)) JNull)
                 (upd_db (revoke_row (s_id r)) s)))"

definition revoke_other_sessions :: "('l, 'k) web \<Rightarrow> web_env \<Rightarrow> ('l, 'k) wstate \<Rightarrow> page \<times> ('l, 'k) wstate" where
  "revoke_other_sessions w e = login_required (\<lambda>u s.
     let current = map_option s_id (current_session_record w s);
         other = (\<lambda>r. s_user_id r = u_id u \<and> Some (s_id r) \<noteq> current);
         count = length (filter (\<lambda>r. \<not> s_revoked r \<and> other r) (d_sessions (ws_db s)))
     in if count = 0 then (To ''auth.profile'', s)
        else (To ''auth.profile'',
              log_req e (entry ''session_revoke_others'' ''user_session'' (Some (u_id u)) (Some (u_username u))
                   (JDict [(''count'', JInt (int count))]))
                (upd_db (revoke_sessions_where other) s)))"

section \<open>Long-lived streams (routes/api.py, routes/terminal.py)\<close>

text \<open>
  The periodic re-check of an open event stream or terminal; \<open>failing\<close> says whether the database
  access raises.
\<close>

definition stream_authorized :: "bool \<Rightarrow> db \<Rightarrow> int \<Rightarrow> string option \<Rightarrow> bool" where
  "stream_authorized failing d user_id session_hash =
     (if failing then False
      else case get_user d user_id of
        None \<Rightarrow> False
      | Some u \<Rightarrow>
          if \<not> is_active u then False
          else if opt_str session_hash = [] then True
          else case find_session d (opt_str session_hash) of None \<Rightarrow> False | Some r \<Rightarrow> \<not> s_revoked r)"

definition revocation_reason :: "bool \<Rightarrow> db \<Rightarrow> int \<Rightarrow> string option \<Rightarrow> string option" where
  "revocation_reason failing d user_id session_hash =
     (if failing then Some ''recheck_failed''
      else case get_user d user_id of
        None \<Rightarrow> Some ''user_disabled''
      | Some u \<Rightarrow>
          if \<not> is_active u then Some ''user_disabled''
          else if opt_str session_hash = [] then None
          else case find_session d (opt_str session_hash) of
            None \<Rightarrow> Some ''session_revoked''
          | Some r \<Rightarrow> if s_revoked r then Some ''session_revoked'' else None)"

section \<open>Lemmas\<close>

lemma ws_db_simps [simp]:
  "ws_db (upd_db f s) = f (ws_db s)" "sv_app (ws_server (upd_app g s)) = g (sv_app (ws_server s))"
  "ws_sess (upd_db f s) = ws_sess s" "ws_user (upd_db f s) = ws_user s" "ws_rejected (upd_db f s) = ws_rejected s"
  "ws_jwks (upd_db f s) = ws_jwks s" "ws_marker (upd_db f s) = ws_marker s"
  "ws_sess (upd_app g s) = ws_sess s" "ws_user (upd_app g s) = ws_user s" "ws_rejected (upd_app g s) = ws_rejected s"
  "ws_jwks (upd_app g s) = ws_jwks s" "ws_marker (upd_app g s) = ws_marker s"
  by (simp_all add: upd_db_def upd_app_def)

lemma log_req_simps [simp]:
  "ws_sess (log_req e l s) = ws_sess s" "ws_user (log_req e l s) = ws_user s"
  "ws_marker (log_req e l s) = ws_marker s" "ws_jwks (log_req e l s) = ws_jwks s"
  "d_sessions (ws_db (log_req e l s)) = d_sessions (ws_db s)" "d_users (ws_db (log_req e l s)) = d_users (ws_db s)"
  "d_settings (ws_db (log_req e l s)) = d_settings (ws_db s)" "d_roles (ws_db (log_req e l s)) = d_roles (ws_db s)"
  "sv_web_attempts (ws_server (log_req e l s)) = sv_web_attempts (ws_server s)"
  by (simp_all add: log_req_def) (simp add: upd_app_def)

lemma touch_session_simps [simp]:
  "ws_user (touch_session e cf r s) = ws_user s" "ws_sess (touch_session e cf r s) = ws_sess s"
  "d_settings (ws_db (touch_session e cf r s)) = d_settings (ws_db s)"
  by (simp_all add: touch_session_def Let_def)

lemma find_session_touch:
  assumes "find_session (ws_db s) h = Some q"
  shows "\<exists>q'. find_session (ws_db (touch_session e cf r s)) h = Some q' \<and> s_revoked q' = s_revoked q"
proof -
  have "find_session (d\<lparr>d_sessions := update_rows (\<lambda>q. s_id q = i) (\<lambda>q. q\<lparr>s_last_seen_at := t\<rparr>) (d_sessions d)\<rparr>) h =
      map_option (\<lambda>q. if s_id q = i then q\<lparr>s_last_seen_at := t\<rparr> else q) (find_session d h)" for d i t
    unfolding find_session_def by (simp add: first_row_update_rows)
  then show ?thesis using assms by (auto simp: touch_session_def Let_def)
qed

lemma session_clear_simps [simp]:
  "ws_user (session_clear w s) = ws_user s" "ws_server (session_clear w s) = ws_server s"
  "f_bypass (ws_sess (session_clear w s)) = False" "f_usession (ws_sess (session_clear w s)) = None"
  by (simp_all add: session_clear_def)

lemma login_user_simps [simp]:
  "ws_user (login_user w b u s) = Some u" "ws_server (login_user w b u s) = ws_server s"
  "f_bypass (ws_sess (login_user w b u s)) = f_bypass (ws_sess s)"
  "f_usession (ws_sess (login_user w b u s)) = f_usession (ws_sess s)"
  by (simp_all add: login_user_def)

lemma logout_user_simps [simp]:
  "ws_user (logout_user w s) = None" "ws_server (logout_user w s) = ws_server s"
  "f_bypass (ws_sess (logout_user w s)) = f_bypass (ws_sess s)" "authenticated (logout_user w s) = False"
  by (simp_all add: logout_user_def authenticated_def)

lemma start_session_simps [simp]:
  "ws_user (start_session w e u s) = ws_user s"
  "f_usession (ws_sess (start_session w e u s)) = Some (we_raw_id e)"
  "f_bypass (ws_sess (start_session w e u s)) = f_bypass (ws_sess s)"
  "d_settings (ws_db (start_session w e u s)) = d_settings (ws_db s)"
  "d_users (ws_db (start_session w e u s)) = d_users (ws_db s)"
  "d_sessions (ws_db (start_session w e u s)) = d_sessions (ws_db s) @ [session_row w e u (ws_db s)]"
  by (simp_all add: start_session_def)

lemma set_last_login_simps [simp]:
  "ws_user (set_last_login e u s) = ws_user s" "ws_sess (set_last_login e u s) = ws_sess s"
  "d_settings (ws_db (set_last_login e u s)) = d_settings (ws_db s)"
  "d_sessions (ws_db (set_last_login e u s)) = d_sessions (ws_db s)"
  by (simp_all add: set_last_login_def)

lemma revoke_current_session_simps [simp]:
  "ws_user (revoke_current_session w s) = ws_user s" "ws_sess (revoke_current_session w s) = ws_sess s"
  "d_settings (ws_db (revoke_current_session w s)) = d_settings (ws_db s)"
  by (simp_all add: revoke_current_session_def revoke_row_def split: option.splits)

section \<open>Properties of the hooks\<close>

lemma before_request_Go_onD:
  assumes "before_request w e cf s = (Go_on, s')"
  obtains s1 s2 where "enforce_remember_and_password_change w e (resolve_user w e s) = (Go_on, s1)"
    "check_cf_access w e (local_network_bypass w e s1) = (Go_on, s2)" "s' = enforce_session_state w e cf s2"
  using assms by (auto simp: before_request_def Let_def split: prod.splits if_splits)

lemma enforce_session_state_live:
  assumes "\<not> path_exempt e" "s' = enforce_session_state w e cf s" "ws_user s' = Some u"
  shows "is_active u \<longrightarrow> ws_user s = Some u \<and> ws_sess s' = ws_sess s \<and>
    (\<exists>raw r. f_usession (ws_sess s') = Some raw \<and> raw \<noteq> [] \<and>
       find_session (ws_db s') (hash_session_id w raw) = Some r \<and> \<not> s_revoked r)"
proof (cases "authenticated s")
  case False
  then show ?thesis using assms by (auto simp: enforce_session_state_def authenticated_def split: option.splits)
next
  case True
  let ?raw = "opt_str (f_usession (ws_sess s))"
  have "?raw \<noteq> []" using assms True by (auto simp: enforce_session_state_def Let_def)
  then have us: "f_usession (ws_sess s) = Some ?raw" by (simp add: opt_str_def split: option.splits)
  obtain r where r: "find_session (ws_db s) (hash_session_id w ?raw) = Some r"
    using assms True \<open>?raw \<noteq> []\<close> by (fastforce simp: enforce_session_state_def Let_def split: option.splits)
  have nr: "\<not> s_revoked r" using assms True \<open>?raw \<noteq> []\<close> r by (auto simp: enforce_session_state_def Let_def)
  have s': "s' = touch_session e cf r s"
    using assms(1,2) True \<open>?raw \<noteq> []\<close> r nr by (simp add: enforce_session_state_def Let_def)
  obtain r' where r': "find_session (ws_db s') (hash_session_id w ?raw) = Some r'" "\<not> s_revoked r'"
    using find_session_touch[OF r] nr s' by metis
  show ?thesis using assms(3) us \<open>?raw \<noteq> []\<close> r' unfolding s' by (simp) metis
qed

text \<open>
  C1. No request runs under a dead session. Whenever all hooks of a browser request let it through
  and the user counts as authenticated, the session id in the cookie has a row in the database that
  is not revoked, and the user is active. This holds however the user was logged in and whatever
  Flask-Login does with its own cookies, so that revoking a row ends the session at its next
  request.
\<close>

theorem request_needs_live_session:
  assumes "before_request w e cf s = (Go_on, s')" "authenticated s'" "\<not> path_exempt e"
  shows "\<exists>u raw r. ws_user s' = Some u \<and> u_is_active_user u \<and> f_usession (ws_sess s') = Some raw \<and>
    find_session (ws_db s') (hash_session_id w raw) = Some r \<and> \<not> s_revoked r"
proof -
  obtain s2 where s2: "s' = enforce_session_state w e cf s2" using assms(1) by (rule before_request_Go_onD)
  obtain u where u: "ws_user s' = Some u" "is_active u"
    using assms(2) by (auto simp: authenticated_def split: option.splits)
  from enforce_session_state_live[OF assms(3) s2 u(1)] u show ?thesis by (auto simp: is_active_def)
qed

lemma setting_get_cong: "d_settings d' = d_settings d \<Longrightarrow> setting_get d' = setting_get d"
  by (simp add: setting_get_def fun_eq_iff)

lemma settings_cong:
  assumes "d_settings d' = d_settings d"
  shows "bypass_session_still_valid r d' = bypass_session_still_valid r d" "get_cf_config d' = get_cf_config d"
  using setting_get_cong[OF assms]
  by (simp_all add: bypass_session_still_valid_def bypass_enabled_def get_trusted_networks_def get_cf_config_def)

lemma resolve_user_settings [simp]: "d_settings (ws_db (resolve_user w e s)) = d_settings (ws_db s)"
  by (simp add: resolve_user_def on_user_loaded_from_cookie_def Let_def split_beta split: who.splits option.splits)

lemma resolve_user_Nobody:
  "fst (fl_load (w_login w) (get_user (ws_db s)) (f_lib (ws_sess s))) = Nobody \<Longrightarrow> ws_user (resolve_user w e s) = None"
  by (simp add: resolve_user_def Let_def split_beta)

lemma enforce_remember_Go_on:
  "enforce_remember_and_password_change w e s = (Go_on, s1) \<Longrightarrow> s1 = s"
  by (auto simp: enforce_remember_and_password_change_def Let_def split: if_splits)

lemma bypass_login_simps [simp]:
  "ws_user (bypass_login w e u s) = Some u" "f_bypass (ws_sess (bypass_login w e u s)) = True"
  "d_settings (ws_db (bypass_login w e u s)) = d_settings (ws_db s)"
  by (simp_all add: bypass_login_def Let_def)

lemma local_network_bypass_settings [simp]:
  "d_settings (ws_db (local_network_bypass w e s)) = d_settings (ws_db s)"
  by (simp add: local_network_bypass_def Let_def split: option.splits)

lemma local_network_bypass_authenticated:
  assumes "authenticated (local_network_bypass w e s)" "\<not> path_exempt e"
  shows "authenticated s \<and> local_network_bypass w e s = s \<and>
      (f_bypass (ws_sess s) \<longrightarrow> bypass_session_still_valid (we_req e) (ws_db s)) \<or>
    \<not> authenticated s \<and> bypass_session_still_valid (we_req e) (ws_db s) \<and>
      (\<exists>admin. bypass_admin (ws_db s) = Some admin \<and> ws_user (local_network_bypass w e s) = Some admin)"
proof (cases "authenticated s")
  case True
  then show ?thesis
    using assms by (auto simp: local_network_bypass_def Let_def authenticated_def split: if_splits)
next
  case False
  then show ?thesis
    using assms
    by (auto simp: local_network_bypass_def Let_def bypass_session_still_valid_def split: if_splits option.splits)
qed

lemma bypass_admin_name: "bypass_admin d = Some u \<Longrightarrow> u_username u = ''admin''"
  by (auto simp: bypass_admin_def dest: first_row_Some)

lemma cf_login_simps [simp]:
  "ws_user (cf_login w e u s) = Some u" "f_bypass (ws_sess (cf_login w e u s)) = False"
  "d_settings (ws_db (cf_login w e u s)) = d_settings (ws_db s)"
  by (simp_all add: cf_login_def)

lemma get_or_create_cf_user_name:
  "get_or_create_cf_user h t em nm d = (Some u, d') \<Longrightarrow>
   u_username u = py_lower (py_strip em) \<and> d_settings d' = d_settings d"
  by (auto simp: get_or_create_cf_user_def Let_def find_username_def cf_user_def set_password_def
      split: if_splits option.splits dest: first_row_Some)

lemma get_or_create_cf_user_settings:
  "get_or_create_cf_user h t em nm d = (uo, d') \<Longrightarrow> d_settings d' = d_settings d"
  by (auto simp: get_or_create_cf_user_def Let_def split: if_splits option.splits)

lemma cf_accept_settings [simp]: "d_settings (ws_db (snd (cf_accept w e cfg p s))) = d_settings (ws_db s)"
  using get_or_create_cf_user_settings
  by (auto simp: cf_accept_def Let_def split: prod.splits option.splits)

lemma check_cf_access_settings [simp]: "d_settings (ws_db (snd (check_cf_access w e s))) = d_settings (ws_db s)"
  by (auto simp: check_cf_access_def Let_def split: prod.splits sum.splits)

lemma jwks_basic [simp]:
  "ws_jwks (session_clear w s) = ws_jwks s" "ws_jwks (login_user w b u s) = ws_jwks s"
  "ws_jwks (logout_user w s) = ws_jwks s" "ws_jwks (start_session w e u s) = ws_jwks s"
  "ws_jwks (set_last_login e u s) = ws_jwks s" "ws_jwks (revoke_current_session w s) = ws_jwks s"
  "ws_jwks (on_user_loaded_from_cookie w e u s) = ws_jwks s" "ws_jwks (touch_session e cf r s) = ws_jwks s"
  by (auto simp: session_clear_def login_user_def logout_user_def start_session_def set_last_login_def
      revoke_current_session_def on_user_loaded_from_cookie_def touch_session_def Let_def split: option.splits)

lemma jwks_frame:
  "ws_jwks (resolve_user w e s) = ws_jwks s" "ws_jwks (local_network_bypass w e s) = ws_jwks s"
  "ws_jwks (enforce_session_state w e cf s) = ws_jwks s"
  by (auto simp: resolve_user_def local_network_bypass_def bypass_login_def enforce_session_state_def Let_def
      split: option.splits prod.splits who.splits)

lemma check_cf_access_skip: "authenticated s \<Longrightarrow> check_cf_access w e s = (Go_on, s)"
  by (simp add: check_cf_access_def Let_def)

text \<open>
  What a login by Cloudflare Access rests on: a key that was fetched less than a day ago and is still in
  the cache, or that the certificate end point of the configured team, a valid team domain, returns now,
  and a token that verifies with it for the configured audience and team.
\<close>

definition fetched_keys :: "'k cf_lib \<Rightarrow> string \<Rightarrow> 'k set" where
  "fetched_keys lib team =
     (if is_valid_team_domain team
      then case cl_fetch lib (certs_url team) of None \<Rightarrow> {} | Some ks \<Rightarrow> set ks
      else {})"

definition usable_keys :: "'k cf_lib \<Rightarrow> seconds \<Rightarrow> string \<Rightarrow> 'k jwks_cache \<Rightarrow> 'k set" where
  "usable_keys lib now team c =
     (if now - jc_fetched_at c < JWKS_STALE_MAX_AGE then set (jc_keys c) else {}) \<union> fetched_keys lib team"

definition cf_vouches :: "('l, 'k) web \<Rightarrow> web_env \<Rightarrow> 'k jwks_cache \<Rightarrow> db \<Rightarrow> string \<Rightarrow> bool" where
  "cf_vouches w e c d username \<longleftrightarrow>
     (let cfg = get_cf_config d in
      cf_enabled cfg \<and>
      (\<exists>key \<in> usable_keys (w_cf w) (we_mono e) (cf_team_domain cfg) c. \<exists>p.
         cl_verify (w_cf w) (cf_token (we_req e)) key (cf_audience cfg) (''https://'' @ cf_team_domain cfg) = Verified p \<and>
         username = py_lower (py_strip (ci_email p))))"

lemma try_keys_Inr: "try_keys verdict ks = Inr p \<Longrightarrow> \<exists>k \<in> set ks. verdict k = Verified p"
  by (induction ks) (auto split: key_verdict.splits)

lemma fetch_jwks_keys:
  assumes "fetch_jwks (cl_fetch lib) now team c = (ks, c')"
  shows "set ks \<subseteq> usable_keys lib now team c" "set (jc_keys c') \<subseteq> set (jc_keys c) \<union> fetched_keys lib team"
  using assms
  by (auto simp: fetch_jwks_def usable_keys_def fetched_keys_def JWKS_CACHE_TTL_def JWKS_STALE_MAX_AGE_def
      split: if_splits option.splits)

lemma validate_cf_token_keys:
  assumes "validate_cf_token lib now tok team aud c = (res, c')"
  shows "res = Inr p \<Longrightarrow> \<exists>key \<in> usable_keys lib now team c. cl_verify lib tok key aud (''https://'' @ team) = Verified p"
    and "set (jc_keys c') \<subseteq> set (jc_keys c) \<union> fetched_keys lib team"
proof -
  obtain ks d where f: "fetch_jwks (cl_fetch lib) now team c = (ks, d)" by fastforce
  then have c': "c' = d" and res: "res = (if ks = [] then Inl ''Could not fetch Cloudflare public keys''
      else try_keys (\<lambda>k. cl_verify lib tok k aud (''https://'' @ team)) ks)"
    using assms by (auto simp: validate_cf_token_def split: if_splits)
  show "set (jc_keys c') \<subseteq> set (jc_keys c) \<union> fetched_keys lib team" using fetch_jwks_keys(2)[OF f] c' by simp
  show "\<exists>key \<in> usable_keys lib now team c. cl_verify lib tok key aud (''https://'' @ team) = Verified p" if "res = Inr p"
  proof -
    have "try_keys (\<lambda>k. cl_verify lib tok k aud (''https://'' @ team)) ks = Inr p" using that res by (simp split: if_splits)
    then show ?thesis using fetch_jwks_keys(1)[OF f] by (auto dest: try_keys_Inr)
  qed
qed

lemma cf_accept_authenticated:
  assumes "cf_accept w e cfg p s = (h, s')" "authenticated s'" "\<not> authenticated s"
  shows "\<exists>u. ws_user s' = Some u \<and> u_username u = py_lower (py_strip (ci_email p)) \<and> \<not> f_bypass (ws_sess s')"
proof -
  obtain uo d' where goc: "get_or_create_cf_user (we_hash e) (we_now e) (ci_email p) (ci_name p) (ws_db s) = (uo, d')"
    by (cases "get_or_create_cf_user (we_hash e) (we_now e) (ci_email p) (ci_name p) (ws_db s)")
  have na: "\<not> authenticated (upd_db f s)" for f using assms(3) by (simp add: authenticated_def)
  show ?thesis
    using assms goc na get_or_create_cf_user_name
    by (auto simp: cf_accept_def Let_def split: if_splits option.splits)
qed

lemma check_cf_access_authenticated:
  assumes "check_cf_access w e s = (h, s')" "authenticated s'" "\<not> authenticated s"
  shows "\<exists>u. ws_user s' = Some u \<and> cf_vouches w e (ws_jwks s) (ws_db s) (u_username u) \<and> \<not> f_bypass (ws_sess s')"
proof -
  let ?cfg = "get_cf_config (ws_db s)"
  obtain res c' where v: "validate_cf_token (w_cf w) (we_mono e) (cf_token (we_req e)) (cf_team_domain ?cfg)
      (cf_audience ?cfg) (ws_jwks s) = (res, c')" by (rule prod.exhaust)
  have na: "\<not> authenticated (s\<lparr>ws_jwks := c'\<rparr>)" using assms(3) by (simp add: authenticated_def)
  have en: "cf_enabled ?cfg" using assms by (auto simp: check_cf_access_def Let_def split: if_splits)
  obtain p where p: "res = Inr p" "cf_accept w e ?cfg p (s\<lparr>ws_jwks := c'\<rparr>) = (h, s')"
    using assms v na by (auto simp: check_cf_access_def Let_def split: if_splits sum.splits)
  show ?thesis
    using cf_accept_authenticated[OF p(2) assms(2) na] validate_cf_token_keys(1)[OF v p(1)] en
    unfolding cf_vouches_def Let_def by blast
qed

lemma check_cf_access_cache:
  "set (jc_keys (ws_jwks (snd (check_cf_access w e s)))) \<subseteq>
     set (jc_keys (ws_jwks s)) \<union> fetched_keys (w_cf w) (cf_team_domain (get_cf_config (ws_db s)))"
proof -
  let ?cfg = "get_cf_config (ws_db s)"
  obtain res c' where v: "validate_cf_token (w_cf w) (we_mono e) (cf_token (we_req e)) (cf_team_domain ?cfg)
      (cf_audience ?cfg) (ws_jwks s) = (res, c')" by (rule prod.exhaust)
  have "ws_jwks (snd (cf_accept w e ?cfg p (s\<lparr>ws_jwks := c'\<rparr>))) = c'" for p
    by (auto simp: cf_accept_def cf_login_def Let_def split: prod.splits option.splits)
  then have "ws_jwks (snd (check_cf_access w e s)) \<in> {ws_jwks s, c'}"
    using v by (auto simp: check_cf_access_def Let_def split: sum.splits)
  then show ?thesis using validate_cf_token_keys(2)[OF v] by auto
qed

text \<open>
  C12. Nobody is logged in without cause. If Flask-Login finds no user in the cookies and the request
  is nevertheless authenticated after the hooks, then either the bypass is switched on, the request
  shows no sign of Cloudflare and its client address is in a trusted subnet (and the user is the
  bypass account), or Cloudflare Access is enabled and its token verified for the configured audience
  and team, with a key that was in the cache, fetched less than a day ago, or that the certificate end
  point of the configured team returned just now, that team being a valid domain; and it names that
  user. The key cache gains nothing in a request but keys fetched so.
\<close>

theorem authentication_has_a_cause:
  assumes "before_request w e cf s = (Go_on, s')" "authenticated s'" "\<not> path_exempt e"
    and "fst (fl_load (w_login w) (get_user (ws_db s)) (f_lib (ws_sess s))) = Nobody"
  shows "(\<exists>u. ws_user s' = Some u \<and>
      (bypass_session_still_valid (we_req e) (ws_db s) \<and> u_username u = ''admin'' \<or>
       cf_vouches w e (ws_jwks s) (ws_db s) (u_username u))) \<and>
    set (jc_keys (ws_jwks s')) \<subseteq> set (jc_keys (ws_jwks s)) \<union> fetched_keys (w_cf w) (cf_team_domain (get_cf_config (ws_db s)))"
proof -
  obtain s1 s2 where st: "enforce_remember_and_password_change w e (resolve_user w e s) = (Go_on, s1)"
      "check_cf_access w e (local_network_bypass w e s1) = (Go_on, s2)" "s' = enforce_session_state w e cf s2"
    using assms(1) by (rule before_request_Go_onD)
  let ?r = "resolve_user w e s"
  have s1: "s1 = ?r" using st(1) by (rule enforce_remember_Go_on)
  have na: "\<not> authenticated ?r" using resolve_user_Nobody[OF assms(4)] by (simp add: authenticated_def)
  obtain u where u: "ws_user s' = Some u" "is_active u"
    using assms(2) by (auto simp: authenticated_def split: option.splits)
  have u2: "ws_user s2 = Some u" using enforce_session_state_live[OF assms(3) st(3) u(1)] u(2) by blast
  then have a2: "authenticated s2" using u(2) by (simp add: authenticated_def)
  let ?b = "local_network_bypass w e ?r"
  have cfg: "get_cf_config (ws_db ?b) = get_cf_config (ws_db s)" by (rule settings_cong) simp
  have jw: "ws_jwks ?b = ws_jwks s" "ws_jwks s' = ws_jwks s2"
    unfolding st(3) by (simp_all add: jwks_frame)
  have cache: "set (jc_keys (ws_jwks s')) \<subseteq>
      set (jc_keys (ws_jwks s)) \<union> fetched_keys (w_cf w) (cf_team_domain (get_cf_config (ws_db s)))"
    using check_cf_access_cache[of w e ?b] st(2) unfolding s1 jw cfg by simp
  have "\<exists>u. ws_user s' = Some u \<and> (bypass_session_still_valid (we_req e) (ws_db s) \<and> u_username u = ''admin'' \<or>
      cf_vouches w e (ws_jwks s) (ws_db s) (u_username u))"
  proof (cases "authenticated ?b")
    case True
    then have "s2 = ?b" using st(2) s1 check_cf_access_skip by fastforce
    moreover have "bypass_session_still_valid (we_req e) (ws_db ?r) = bypass_session_still_valid (we_req e) (ws_db s)"
      by (rule settings_cong) simp
    ultimately show ?thesis
      using local_network_bypass_authenticated[OF True assms(3)] na u(1) u2 bypass_admin_name by fastforce
  next
    case False
    obtain v where v: "ws_user s2 = Some v" "cf_vouches w e (ws_jwks ?b) (ws_db ?b) (u_username v)"
      using check_cf_access_authenticated[OF st(2)[unfolded s1] a2 False] by blast
    with u u2 show ?thesis by (simp add: cf_vouches_def cfg jw(1))
  qed
  then show ?thesis using cache by blast
qed

text \<open>
  A bypass session lives only under the bypass conditions. Whenever a request is let through as
  authenticated with a session that the bypass established, the bypass is switched on, the request
  does not come through Cloudflare, and its client address is in a trusted subnet now: switching the
  feature off or narrowing the subnets ends such sessions at their next request.
\<close>

theorem bypass_session_revalidated:
  assumes "before_request w e cf s = (Go_on, s')" "authenticated s'" "\<not> path_exempt e" "f_bypass (ws_sess s')"
  shows "bypass_enabled (ws_db s') \<and> \<not> came_through_cloudflare (we_req e) \<and>
    is_trusted (get_client_ip (we_req e)) (get_trusted_networks (ws_db s'))"
proof -
  obtain s1 s2 where st: "enforce_remember_and_password_change w e (resolve_user w e s) = (Go_on, s1)"
      "check_cf_access w e (local_network_bypass w e s1) = (Go_on, s2)" "s' = enforce_session_state w e cf s2"
    using assms(1) by (rule before_request_Go_onD)
  let ?r = "resolve_user w e s"
  let ?b = "local_network_bypass w e ?r"
  have s1: "s1 = ?r" using st(1) by (rule enforce_remember_Go_on)
  obtain u where u: "ws_user s' = Some u" "is_active u"
    using assms(2) by (auto simp: authenticated_def split: option.splits)
  have u2: "ws_user s2 = Some u" "ws_sess s' = ws_sess s2"
    using enforce_session_state_live[OF assms(3) st(3) u(1)] u(2) by blast+
  then have a2: "authenticated s2" using u(2) by (simp add: authenticated_def)
  have ab: "authenticated ?b"
    using check_cf_access_authenticated[of w e ?b Go_on s2] a2 st(2) s1 assms(4) u2(2) by auto
  then have s2: "s2 = ?b" using st(2) s1 check_cf_access_skip by fastforce
  have valid: "bypass_session_still_valid (we_req e) (ws_db ?r)"
    using local_network_bypass_authenticated[OF ab assms(3)] s2 assms(4) u2(2) by auto
  have "d_settings (ws_db s') = d_settings (ws_db ?r)"
    unfolding st(3) s2 by (simp add: enforce_session_state_def Let_def split: option.splits)
  then have "bypass_session_still_valid (we_req e) (ws_db s')" using settings_cong(1) valid by blast
  then show ?thesis by (auto simp: bypass_session_still_valid_def split: if_splits)
qed

text \<open>
  A remember cookie alone restores nothing. If Flask-Login restores an active user from its
  remember cookie but the application's signed marker is missing, expired, of another user or of an
  older password, the request is redirected to the login page, nobody is authenticated, the marker is
  dropped and no session row is made.
\<close>

theorem remember_without_marker_refused:
  assumes "fl_load (w_login w) (get_user (ws_db s)) (f_lib (ws_sess s)) = (From_cookie u, lib)"
    and "remember_restore_refusal (w_ext w) (we_now e) (we_duration e) (ws_marker s) (Some u) = Some reason"
    and "u_is_active_user u" "\<not> path_exempt e"
  shows "\<exists>s'. before_request w e cf s = (Redirect ''auth.login'', s') \<and> \<not> authenticated s' \<and>
    ws_marker s' = None \<and> f_usession (ws_sess s') = None \<and> ws_server s' = ws_server s"
proof -
  let ?r = "resolve_user w e s"
  have r: "ws_user ?r = Some u" "ws_rejected ?r = Some reason" "ws_server ?r = ws_server s"
    using assms(1,2) by (simp_all add: resolve_user_def on_user_loaded_from_cookie_def Let_def)
  then show ?thesis
    using assms(3,4)
    by (simp add: before_request_def enforce_remember_and_password_change_def authenticated_def is_active_def Let_def)
qed

section \<open>Properties of the handlers\<close>

lemma put_user_idem_get: "get_user (put_user u d) (u_id u) = map_option (\<lambda>_. u) (get_user d (u_id u))"
  by (simp add: get_user_put_user)

lemma set_password_id [simp]: "u_id (set_password h t u) = u_id u"
  by (simp add: set_password_def Let_def)

lemma change_password_dashboard:
  assumes "change_password w e s = (To ''dashboard.index'', s')"
  obtains u where "ws_user s = Some u" "is_active u" "(To ''dashboard.index'', s') = change_password_accept w e u s"
  using assms by (auto simp: change_password_def login_required_def split: option.splits if_splits)

text \<open>
  A password change signs the account out elsewhere. When the change is accepted, the stored
  user is of a newer password generation (so that \<open>password_bound\<close> credentials die), every session
  row of the user except the one of this browser is revoked, this browser's row keeps its state, and
  the rows of all other users are as before.
\<close>

theorem password_change_ends_other_sessions:
  assumes "change_password w e s = (To ''dashboard.index'', s')" "ws_user s = Some u" "stamp_ok u"
    and "get_user (ws_db s) (u_id u) = Some u" "f_usession (ws_sess s) = Some raw" "raw \<noteq> []"
  shows "(\<exists>v. get_user (ws_db s') (u_id u) = Some v \<and> newer_generation u v) \<and>
    d_sessions (ws_db s') =
      map (\<lambda>r. if s_user_id r = u_id u \<and> s_session_id_hash r \<noteq> hash_session_id w raw
               then r\<lparr>s_revoked := True\<rparr> else r) (d_sessions (ws_db s))"
proof -
  obtain u0 where u0: "ws_user s = Some u0" "(To ''dashboard.index'', s') = change_password_accept w e u0 s"
    using assms(1) by (rule change_password_dashboard)
  let ?v = "set_password (we_hash e) (we_now e) u"
  have sess: "d_sessions (ws_db s') = d_sessions (revoke_sessions_where
      (\<lambda>r. s_user_id r = u_id u \<and> Some (s_session_id_hash r) \<noteq> Some (hash_session_id w raw)) (put_user ?v (ws_db s)))"
    and users: "d_users (ws_db s') = d_users (put_user ?v (ws_db s))"
    using u0 assms(2,5,6)
    by (auto simp: change_password_accept_def Let_def opt_str_def revoke_sessions_where_def split: if_splits)
  have "get_user (ws_db s') (u_id u) = Some ?v"
    using users assms(4) put_user_idem_get[of ?v "ws_db s"] by (simp add: get_user_def)
  moreover have "d_sessions (ws_db s') =
      map (\<lambda>r. if s_user_id r = u_id u \<and> s_session_id_hash r \<noteq> hash_session_id w raw
               then r\<lparr>s_revoked := True\<rparr> else r) (d_sessions (ws_db s))"
    unfolding sess by (auto simp: revoke_sessions_where_def update_rows_def)
  ultimately show ?thesis using newer_generation_set_password[OF assms(3)] by blast
qed

lemma login_cases:
  assumes "\<not> authenticated s" "we_post e"
  shows "login w e s =
    (let (limited, att) = check_rate_limit (we_mono e) (rate_limit_ip e) (sv_web_attempts (ws_server s));
         s1 = s\<lparr>ws_server := (ws_server s)\<lparr>sv_web_attempts := att\<rparr>\<rparr>;
         name = py_lower (py_strip (form e ''username'')); uo = find_username (ws_db s) name
     in if limited then (Render ''login.html'', s1)
        else case uo of
          Some u \<Rightarrow> if check_password (x_check_hash (w_ext w)) u (form e ''password'') \<and> is_active u
                    then login_accept w e u s1 else login_refuse e name uo s1
        | None \<Rightarrow> login_refuse e name uo s1)"
  using assms by (auto simp: login_def Let_def split_beta)

text \<open>
  C39. The login form, exactly. A posted login is accepted if and only if the address is not locked
  out and a user row has the stripped, lower-cased username, a matching password and an active
  account. An accepted login leaves a fresh session: its id is the new random one, with a row of that
  user that is not revoked, and no trace of a bypass. A refused one changes neither cookies, nor
  users, nor sessions.
\<close>

theorem web_login_exact:
  assumes "\<not> authenticated s" "we_post e"
  shows "((\<exists>t. fst (login w e s) = To t) \<longleftrightarrow>
      (\<not> fst (check_rate_limit (we_mono e) (rate_limit_ip e) (sv_web_attempts (ws_server s))) \<and>
       (\<exists>u. find_username (ws_db s) (py_lower (py_strip (form e ''username''))) = Some u \<and>
          x_check_hash (w_ext w) (u_password_hash u) (form e ''password'') \<and> u_is_active_user u))) \<and>
    (case login w e s of
       (To t, s') \<Rightarrow> \<exists>u row. find_username (ws_db s) (py_lower (py_strip (form e ''username''))) = Some u \<and>
          ws_user s' = Some u \<and> f_usession (ws_sess s') = Some (we_raw_id e) \<and> \<not> f_bypass (ws_sess s') \<and>
          d_sessions (ws_db s') = d_sessions (ws_db s) @ [row] \<and> s_user_id row = u_id u \<and> \<not> s_revoked row \<and>
          s_session_id_hash row = hash_session_id w (we_raw_id e)
     | (_, s') \<Rightarrow> ws_sess s' = ws_sess s \<and> ws_marker s' = ws_marker s \<and> ws_user s' = ws_user s \<and>
          d_users (ws_db s') = d_users (ws_db s) \<and> d_sessions (ws_db s') = d_sessions (ws_db s))"
  unfolding login_cases[OF assms]
  by (auto simp: Let_def split_beta login_accept_def login_refuse_def check_password_def is_active_def session_row_def
      split: option.splits)

section \<open>A concrete site\<close>

text \<open>
  A Flask-Login that keeps the user id of the session and of the remember cookie, a SHA-256 stand-in
  that is the identity, and Cloudflare keys of which one verifies everything for one address.
\<close>

definition sample_login :: "(int option \<times> int option) flask_login" where
  "sample_login =
     \<lparr>fl_load = (\<lambda>get l. case fst l of
          Some i \<Rightarrow> (case get i of Some u \<Rightarrow> (In_session u, l) | None \<Rightarrow> (Nobody, l))
        | None \<Rightarrow> (case snd l of
            Some i \<Rightarrow> (case get i of Some u \<Rightarrow> (From_cookie u, (Some i, Some i)) | None \<Rightarrow> (Nobody, l))
          | None \<Rightarrow> (Nobody, l))),
      fl_login_user = (\<lambda>u remember l. (Some (u_id u), if remember then Some (u_id u) else snd l)),
      fl_logout_user = (\<lambda>l. (None, None)),
      fl_clear = (\<lambda>l. (None, snd l))\<rparr>"

definition sample_web :: "(int option \<times> int option, unit) web" where
  "sample_web =
     \<lparr>w_login = sample_login, w_ext = table_ext [] (remember_marker sample_user), w_sha = (\<lambda>s. s),
      w_cf = \<lparr>cl_fetch = (\<lambda>_. Some [()]),
              cl_verify = (\<lambda>tok k aud iss. Verified \<lparr>ci_email = '' Ann '', ci_name = []\<rparr>)\<rparr>\<rparr>"

definition site_admin :: user where
  "site_admin = sample_user\<lparr>u_username := ''admin'', u_role_id := 1\<rparr>"

definition site_session :: user_session where
  "site_session = \<lparr>s_id = 1, s_user_id = 1, s_session_id_hash = ''sid'', s_ip_address = None,
     s_user_agent = None, s_last_seen_at = Some 0, s_revoked = False\<rparr>"

definition site ::
  "user \<Rightarrow> (string \<times> string) list \<Rightarrow> int option \<times> int option \<Rightarrow> string option \<Rightarrow> bool \<Rightarrow>
   (int option \<times> int option, unit) wstate" where
  "site u settings lib sid bypass =
     \<lparr>ws_sess = \<lparr>f_lib = lib, f_usession = sid, f_bypass = bypass, f_safety = False\<rparr>, ws_marker = None,
      ws_server = \<lparr>sv_app = \<lparr>a_db = seeded_db\<lparr>d_users := [u], d_sessions := [site_session], d_settings := settings\<rparr>,
                              a_hub = []\<rparr>, sv_web_attempts = [], sv_api_attempts = []\<rparr>,
      ws_jwks = \<lparr>jc_keys = [], jc_fetched_at = 0\<rparr>, ws_user = None, ws_rejected = None\<rparr>"

definition site_env :: "(string \<times> string) list \<Rightarrow> web_env" where
  "site_env headers =
     \<lparr>we_req = (sample_req ''10.0.0.1'')\<lparr>rq_headers := headers\<rparr>, we_now = 10000000, we_mono = 10, we_fail_at = 10,
      we_prune_at = 10, we_raw_id = ''new'', we_hash = ''h2'', we_duration = 1209600, we_user_agent = [],
      we_ts = [], we_post = True,
      we_form = [(''username'', '' Ann''), (''password'', ''secret''), (''current_password'', ''secret''),
        (''new_password'', ''12345678''), (''confirm_password'', ''12345678'')], we_next = None\<rparr>"

lemma site_env_path: "\<not> path_exempt (site_env hs)"
  by (simp add: path_exempt_def site_env_def sample_req_def startswith_any_def startswith_def)

definition BYPASS_ON :: "(string \<times> string) list" where
  "BYPASS_ON = [(''local_bypass_enabled'', ''true''), (''trusted_subnets'', ''10.0.0.0/8'')]"

lemmas site_defs = site_def site_env_def sample_req_def site_session_def sample_web_def sample_login_def

lemma site_pass:
  "\<exists>s'. before_request sample_web (site_env []) False (site sample_user [] (Some 1, None) (Some ''sid'') False) = (Go_on, s') \<and>
     authenticated s'"
proof -
  let ?s = "site sample_user [] (Some 1, None) (Some ''sid'') False"
  have u: "get_user (ws_db ?s) 1 = Some sample_user" by (simp add: site_def get_user_def sample_user_facts)
  have a: "is_active sample_user" "\<not> u_must_change_password sample_user" by (simp_all add: is_active_def sample_user_def)
  have r: "resolve_user sample_web (site_env []) ?s = ?s\<lparr>ws_user := Some sample_user\<rparr>"
    using u by (simp add: resolve_user_def sample_web_def sample_login_def) (simp add: site_def)
  then show ?thesis
    using a site_env_path[of "[]"]
    by (simp add: before_request_def enforce_remember_and_password_change_def authenticated_def Let_def
        local_network_bypass_def check_cf_access_def enforce_session_state_def)
      (simp add: site_def site_session_def sample_web_def hash_session_id_def find_session_def opt_str_def touch_session_def Let_def)
qed

theorem request_needs_live_session_witness:
  "\<exists>s' u raw r. before_request sample_web (site_env []) False (site sample_user [] (Some 1, None) (Some ''sid'') False) = (Go_on, s') \<and>
     ws_user s' = Some u \<and> f_usession (ws_sess s') = Some raw \<and>
     find_session (ws_db s') (hash_session_id sample_web raw) = Some r \<and> \<not> s_revoked r"
proof -
  obtain s' where s': "before_request sample_web (site_env []) False
      (site sample_user [] (Some 1, None) (Some ''sid'') False) = (Go_on, s')" "authenticated s'"
    using site_pass by blast
  from request_needs_live_session[OF s' site_env_path] s'(1) show ?thesis by blast
qed

abbreviation bypass_site :: "(int option \<times> int option, unit) wstate" where
  "bypass_site \<equiv> site site_admin BYPASS_ON (None, None) None False"

lemma bypass_site_valid: "bypass_session_still_valid (we_req (site_env [])) (ws_db bypass_site)"
proof -
  have "get_client_ip (we_req (site_env [])) = Some ''10.0.0.1''"
    by (simp add: site_env_def sample_req_def get_client_ip_def opt_str_def)
  then show ?thesis
    using sample_trusted
    by (simp add: bypass_session_still_valid_def bypass_enabled_def get_trusted_networks_def setting_get_def
        site_def BYPASS_ON_def came_through_cloudflare_def CLOUDFLARE_HEADERS_def CLOUDFLARE_COOKIES_def
        header_def cookie_def opt_str_def site_env_def sample_req_def)
qed

lemma bypass_site_resolve: "resolve_user sample_web (site_env []) bypass_site = bypass_site"
  by (simp add: resolve_user_def sample_web_def sample_login_def) (simp add: site_def)

lemma bypass_site_bypass:
  "local_network_bypass sample_web (site_env []) bypass_site = bypass_login sample_web (site_env []) site_admin bypass_site"
proof -
  have "bypass_admin (ws_db bypass_site) = Some site_admin"
    by (simp add: bypass_admin_def site_def role_of_def get_role_def seeded_roles)
      (simp add: site_admin_def sample_user_def builtin_role_def)
  moreover have "\<not> authenticated bypass_site" "is_active site_admin"
    by (simp_all add: authenticated_def site_def is_active_def site_admin_def sample_user_def)
  ultimately show ?thesis
    using bypass_site_valid site_env_path[of "[]"]
    by (auto simp: local_network_bypass_def Let_def bypass_session_still_valid_def split: if_splits)
qed

lemma bypass_site_pass:
  "\<exists>s'. before_request sample_web (site_env []) False bypass_site = (Go_on, s') \<and> authenticated s' \<and> f_bypass (ws_sess s')"
proof -
  let ?b = "bypass_login sample_web (site_env []) site_admin bypass_site"
  have a: "authenticated ?b" by (simp add: authenticated_def is_active_def site_admin_def sample_user_def)
  have na: "\<not> authenticated bypass_site" by (simp add: authenticated_def site_def)
  have us: "f_usession (ws_sess ?b) = Some ''new''" by (simp add: bypass_login_def Let_def site_env_def)
  have "d_sessions (ws_db ?b) = [site_session, session_row sample_web (site_env []) site_admin (ws_db bypass_site)]"
    by (simp add: bypass_login_def Let_def site_def session_row_def)
  then have "find_session (ws_db ?b) (hash_session_id sample_web ''new'') =
      Some (session_row sample_web (site_env []) site_admin (ws_db bypass_site))"
    by (simp add: find_session_def site_session_def session_row_def Let_def hash_session_id_def sample_web_def site_env_def)
  then have "enforce_session_state sample_web (site_env []) False ?b = touch_session (site_env []) False
      (session_row sample_web (site_env []) site_admin (ws_db bypass_site)) ?b"
    using a us site_env_path[of "[]"]
    by (simp add: enforce_session_state_def Let_def opt_str_def) (simp add: session_row_def Let_def)
  then show ?thesis
    using a na site_env_path[of "[]"]
    by (simp add: before_request_def bypass_site_resolve enforce_remember_and_password_change_def bypass_site_bypass
        check_cf_access_skip) (simp add: authenticated_def)
qed

theorem authentication_has_a_cause_witness:
  "\<exists>s' u. before_request sample_web (site_env []) False bypass_site = (Go_on, s') \<and> ws_user s' = Some u \<and>
     (bypass_session_still_valid (we_req (site_env [])) (ws_db bypass_site) \<and> u_username u = ''admin'' \<or>
      cf_vouches sample_web (site_env []) (ws_jwks bypass_site) (ws_db bypass_site) (u_username u))"
proof -
  obtain s' where s': "before_request sample_web (site_env []) False bypass_site = (Go_on, s')" "authenticated s'"
    using bypass_site_pass by blast
  have "fst (fl_load (w_login sample_web) (get_user (ws_db bypass_site)) (f_lib (ws_sess bypass_site))) = Nobody"
    by (simp add: sample_web_def sample_login_def site_def)
  from authentication_has_a_cause[OF s' site_env_path this] s'(1) show ?thesis by blast
qed

theorem bypass_session_revalidated_witness:
  "\<exists>s'. before_request sample_web (site_env []) False bypass_site = (Go_on, s') \<and> f_bypass (ws_sess s') \<and>
     bypass_enabled (ws_db s') \<and> is_trusted (get_client_ip (we_req (site_env []))) (get_trusted_networks (ws_db s'))"
proof -
  obtain s' where s': "before_request sample_web (site_env []) False bypass_site = (Go_on, s')" "authenticated s'"
      "f_bypass (ws_sess s')"
    using bypass_site_pass by blast
  from bypass_session_revalidated[OF s'(1,2) site_env_path s'(3)] s' show ?thesis by blast
qed

theorem remember_without_marker_refused_witness:
  "\<exists>s'. before_request sample_web (site_env []) False (site sample_user [] (None, Some 1) None False) =
     (Redirect ''auth.login'', s') \<and> \<not> authenticated s'"
proof -
  let ?s = "site sample_user [] (None, Some 1) None False"
  have "fl_load (w_login sample_web) (get_user (ws_db ?s)) (f_lib (ws_sess ?s)) = (From_cookie sample_user, (Some 1, Some 1))"
    by (simp add: sample_web_def sample_login_def site_def get_user_def sample_user_facts)
  moreover have "remember_restore_refusal (w_ext sample_web) (we_now (site_env [])) (we_duration (site_env []))
      (ws_marker ?s) (Some sample_user) = Some ''missing_marker''"
    by (simp add: remember_restore_refusal_def remember_marker_payload_def marker_refusal_def site_def is_active_def sample_user_def)
  moreover have "u_is_active_user sample_user" by (simp add: sample_user_def)
  ultimately show ?thesis
    using remember_without_marker_refused[of sample_web ?s sample_user "(Some 1, Some 1)" "site_env []" "''missing_marker''" False]
      site_env_path by blast
qed

abbreviation signed_in :: "(int option \<times> int option, unit) wstate" where
  "signed_in \<equiv> (site sample_user [] (Some 1, None) (Some ''sid'') False)\<lparr>ws_user := Some sample_user\<rparr>"

theorem password_change_ends_other_sessions_witness:
  "\<exists>s' v. change_password sample_web (site_env []) signed_in = (To ''dashboard.index'', s') \<and>
     get_user (ws_db s') 1 = Some v \<and> newer_generation sample_user v"
proof -
  have "\<exists>s'. change_password sample_web (site_env []) signed_in = (To ''dashboard.index'', s')"
    by (simp add: change_password_def login_required_def change_password_accept_def Let_def is_active_def sample_user_def
        check_password_def sample_web_def table_ext_def form_def opt_str_def site_env_def)
  then obtain s' where s': "change_password sample_web (site_env []) signed_in = (To ''dashboard.index'', s')" by blast
  have "get_user (ws_db signed_in) (u_id sample_user) = Some sample_user"
    by (simp add: site_def get_user_def)
  from password_change_ends_other_sessions[OF s' _ sample_user_facts(1) this, of "''sid''"] s' show ?thesis
    by (auto simp: site_def sample_user_facts)
qed

theorem web_login_exact_witness:
  "\<exists>t s'. login sample_web (site_env []) (site sample_user [] (None, None) None False) = (To t, s') \<and>
     ws_user s' = Some sample_user \<and> f_usession (ws_sess s') = Some ''new''"
proof -
  let ?s = "site sample_user [] (None, None) None False"
  have f: "find_username (ws_db ?s) (py_lower (py_strip (form (site_env []) ''username''))) = Some sample_user"
  proof -
    have "py_lower (py_strip '' Ann'') = ''ann''" by code_simp
    then show ?thesis by (simp add: form_def site_env_def opt_str_def find_username_def site_def sample_user_def)
  qed
  have l: "\<not> fst (check_rate_limit (we_mono (site_env [])) (rate_limit_ip (site_env [])) (sv_web_attempts (ws_server ?s)))"
    by (simp add: site_def check_rate_limit_def check_buckets_def prune_buckets_def bucket_def evict_oldest_def FAIL_LIMIT_def Let_def)
  have c: "x_check_hash (w_ext sample_web) (u_password_hash sample_user) (form (site_env []) ''password'')"
    "u_is_active_user sample_user"
    by (simp_all add: sample_web_def table_ext_def sample_user_def form_def site_env_def opt_str_def)
  have "\<not> authenticated ?s" "we_post (site_env [])" by (simp_all add: authenticated_def site_def site_env_def)
  note ex = web_login_exact[OF this, of sample_web]
  then obtain t where "fst (login sample_web (site_env []) ?s) = To t" using f l c by blast
  then obtain s' where s': "login sample_web (site_env []) ?s = (To t, s')"
    by (cases "login sample_web (site_env []) ?s") auto
  with ex f show ?thesis by (auto simp: site_env_def)
qed

end
