(* ===== verification/User_Admin.thy ===== *)
theory User_Admin
  imports Sessions
begin

text \<open>
  User, role, tag and access management (\<^verbatim>\<open>src/routes/security.py\<close>). Every handler runs as
  the logged-in user \<open>cu\<close>, behind the gate \<open>require_access\<close>, on the submitted form, and returns an
  outcome with the new state. A handler that returns early has changed ORM objects at most, which are
  rolled back at the end of the request: the database is as before. The flashed texts are not
  modelled.
\<close>

section \<open>Forms and outcomes\<close>

type_synonym form_data = "(string \<times> string) list"

text \<open>\<open>Done\<close> with a commit, refused with a message, 404, or an uncaught exception (500).\<close>

datatype outcome = Done | Denied | Missing | Crashed

definition fget :: "form_data \<Rightarrow> string \<Rightarrow> string \<Rightarrow> string" where
  "fget fm k dflt = (case map_of fm k of None \<Rightarrow> dflt | Some v \<Rightarrow> v)"

definition fgetlist :: "form_data \<Rightarrow> string \<Rightarrow> string list" where
  "fgetlist fm k = map snd (filter (\<lambda>kv. fst kv = k) fm)"

definition fhas :: "form_data \<Rightarrow> string \<Rightarrow> bool" where
  "fhas fm k \<longleftrightarrow> map_of fm k \<noteq> None"

definition safe_int :: "string \<Rightarrow> int option" where
  "safe_int s = py_int s"

fun safe_int_list :: "string list \<Rightarrow> int list option" where
  "safe_int_list [] = Some []"
| "safe_int_list (v # vs) =
     (case safe_int v of
        None \<Rightarrow> None
      | Some i \<Rightarrow> (case safe_int_list vs of None \<Rightarrow> None | Some is \<Rightarrow> Some (i # is)))"

section \<open>The gate\<close>

definition require_access :: "db \<Rightarrow> user \<Rightarrow> string \<Rightarrow> bool" where
  "require_access d cu path =
     (if startswith_any path [''/security/roles'', ''/security/tags'', ''/security/access'']
      then is_super_admin d cu
      else can Can_manage_users d cu)"

section \<open>Sessions\<close>

definition revoke_user_session :: "req_ctx \<Rightarrow> int \<Rightarrow> app \<Rightarrow> outcome \<times> app" where
  "revoke_user_session q pk a =
     (let d = a_db a in
      case get_session d pk of
        None \<Rightarrow> (Missing, a)
      | Some r \<Rightarrow>
          if s_revoked r then (Done, a)
          else (Done, log_action q (entry ''session_revoke'' ''user_session'' (Some (s_id r))
                   (map_option u_username (get_user d (s_user_id r)))
                   (JDict [(''target_user_id'', JInt (s_user_id r))]))
                 (a\<lparr>a_db := revoke_row (s_id r) d\<rparr>)))"

section \<open>Users\<close>

text \<open>
  The tags a form selects. A number outside the 64-bit range cannot be bound to a query and raises.
\<close>

datatype tag_choice = Tags "int list" | Bad_tags | Tag_overflow

definition chosen_tags :: "db \<Rightarrow> string list \<Rightarrow> tag_choice" where
  "chosen_tags d vs =
     (case safe_int_list vs of
        None \<Rightarrow> Bad_tags
      | Some is \<Rightarrow>
          if list_all row_key is then Tags (map t_id (filter (\<lambda>t. List.member is (t_id t)) (d_tags d)))
          else Tag_overflow)"

definition new_user :: "string \<Rightarrow> string \<Rightarrow> int \<Rightarrow> int \<Rightarrow> user" where
  "new_user username display uid rid =
     \<lparr>u_id = uid, u_username = username, u_display_name = Some (str_or display username),
      u_password_hash = [], u_role_id = rid, u_created_via = ''local'', u_is_active_user = True,
      u_timezone = None, u_last_login_at = None, u_tokens_valid_after = None,
      u_must_change_password = False, u_allowed_tags = []\<rparr>"

definition insert_user :: "req_ctx \<Rightarrow> user \<Rightarrow> role \<Rightarrow> app \<Rightarrow> app" where
  "insert_user q u r a =
     log_action q (entry ''user_add'' ''user'' (Some (u_id u)) (Some (u_username u))
         (JDict [(''role'', JStr (r_name r))]))
       (a\<lparr>a_db := (a_db a)\<lparr>d_users := d_users (a_db a) @ [u]\<rparr>\<rparr>)"

definition add_user_with_role ::
  "user \<Rightarrow> form_data \<Rightarrow> string \<Rightarrow> usec \<Rightarrow> req_ctx \<Rightarrow> string \<Rightarrow> role \<Rightarrow> app \<Rightarrow> outcome \<times> app" where
  "add_user_with_role cu fm hash now q username r a =
     (let d = a_db a in
      if r_level r \<ge> role_level d cu \<and> \<not> is_super_admin d cu then (Denied, a)
      else let u = set_password hash now (new_user username (py_strip (fget fm ''display_name'' []))
                      (next_id u_id (d_users d)) (r_id r));
               tag_ids = fgetlist fm ''tag_ids''
           in if tag_ids = [] then (Done, insert_user q u r a)
              else case chosen_tags d tag_ids of
                Bad_tags \<Rightarrow> (Denied, a)
              | Tag_overflow \<Rightarrow> (Crashed, a)
              | Tags ts \<Rightarrow> (Done, insert_user q (u\<lparr>u_allowed_tags := ts\<rparr>) r a))"

text \<open>The role of a new user: the selected one, else \<open>viewer\<close>.\<close>

datatype role_choice = Role_choice "role option" | Bad_role | Role_overflow

definition chosen_role :: "db \<Rightarrow> string \<Rightarrow> role_choice" where
  "chosen_role d s =
     (if s = [] then Role_choice None
      else case safe_int s of
        None \<Rightarrow> Bad_role
      | Some i \<Rightarrow> if i = 0 then Role_choice None else if row_key i then Role_choice (get_role d i) else Role_overflow)"

definition add_user :: "user \<Rightarrow> form_data \<Rightarrow> string \<Rightarrow> usec \<Rightarrow> req_ctx \<Rightarrow> app \<Rightarrow> outcome \<times> app" where
  "add_user cu fm hash now q a =
     (let d = a_db a;
          username = py_lower (py_strip (fget fm ''username'' []));
          password = fget fm ''password'' []
      in if username = [] \<or> password = [] then (Denied, a)
      else if find_username d username \<noteq> None then (Denied, a)
      else if length password < 8 then (Denied, a)
      else case chosen_role d (fget fm ''role_id'' []) of
        Bad_role \<Rightarrow> (Denied, a)
      | Role_overflow \<Rightarrow> (Crashed, a)
      | Role_choice ro \<Rightarrow>
          (case (case ro of Some r \<Rightarrow> Some r | None \<Rightarrow> find_role d ''viewer'') of
             None \<Rightarrow> (Crashed, a)
           | Some r \<Rightarrow> add_user_with_role cu fm hash now q username r a))"

text \<open>
  The edit form, step by step: display name and activity, role, tags, password. Each step may end the
  request.
\<close>

definition edit_names :: "user \<Rightarrow> form_data \<Rightarrow> user \<Rightarrow> user option" where
  "edit_names cu fm u =
     (case (case map_of fm ''display_name'' of Some v \<Rightarrow> Some v | None \<Rightarrow> u_display_name u) of
        None \<Rightarrow> None
      | Some v \<Rightarrow>
          Some (u\<lparr>u_display_name := Some (py_strip v),
                  u_is_active_user := (if u_id u \<noteq> u_id cu then fhas fm ''is_active'' else u_is_active_user u)\<rparr>))"

definition edit_role_of :: "db \<Rightarrow> user \<Rightarrow> form_data \<Rightarrow> user \<Rightarrow> outcome + user" where
  "edit_role_of d cu fm u =
     (let s = fget fm ''role_id'' [] in
      if s = [] \<or> u_id u = u_id cu then Inr u
      else case safe_int s of
        None \<Rightarrow> Inl Denied
      | Some i \<Rightarrow>
          if \<not> row_key i then Inl Crashed
          else case get_role d i of
            None \<Rightarrow> Inr u
          | Some r \<Rightarrow>
              if r_level r \<ge> role_level d cu \<and> \<not> is_super_admin d cu then Inl Denied
              else Inr (u\<lparr>u_role_id := r_id r\<rparr>))"

definition edit_tags_of :: "db \<Rightarrow> form_data \<Rightarrow> user \<Rightarrow> outcome + user" where
  "edit_tags_of d fm u =
     (let tag_ids = fgetlist fm ''tag_ids'' in
      if tag_ids = [] then Inr (u\<lparr>u_allowed_tags := []\<rparr>)
      else case chosen_tags d tag_ids of
        Bad_tags \<Rightarrow> Inl Denied
      | Tag_overflow \<Rightarrow> Inl Crashed
      | Tags ts \<Rightarrow> Inr (u\<lparr>u_allowed_tags := ts\<rparr>))"

definition edit_password_of :: "form_data \<Rightarrow> string \<Rightarrow> usec \<Rightarrow> user \<Rightarrow> outcome + (user \<times> bool)" where
  "edit_password_of fm hash now u =
     (let pw = py_strip (fget fm ''new_password'' []) in
      if pw = [] then Inr (u, False)
      else if u_created_via u = ''cloudflare'' then Inl Denied
      else if length pw < 8 then Inl Denied
      else Inr (set_password hash now u, True))"

definition edit_row :: "db \<Rightarrow> user \<Rightarrow> form_data \<Rightarrow> string \<Rightarrow> usec \<Rightarrow> user \<Rightarrow> outcome + (user \<times> bool)" where
  "edit_row d cu fm hash now u0 =
     (case edit_names cu fm u0 of
        None \<Rightarrow> Inl Crashed
      | Some u1 \<Rightarrow>
          (case edit_role_of d cu fm u1 of
             Inl err \<Rightarrow> Inl err
           | Inr u2 \<Rightarrow>
               (case edit_tags_of d fm u2 of
                  Inl err \<Rightarrow> Inl err
                | Inr u3 \<Rightarrow> edit_password_of fm hash now u3)))"

definition edit_user :: "user \<Rightarrow> int \<Rightarrow> form_data \<Rightarrow> string \<Rightarrow> usec \<Rightarrow> req_ctx \<Rightarrow> app \<Rightarrow> outcome \<times> app" where
  "edit_user cu uid fm hash now q a =
     (let d = a_db a in
      case get_user d uid of
        None \<Rightarrow> (Missing, a)
      | Some u \<Rightarrow>
          if \<not> can_edit_user d cu u then (Denied, a)
          else (case edit_row d cu fm hash now u of
             Inl err \<Rightarrow> (err, a)
           | Inr (v, reset) \<Rightarrow>
               let d1 = put_user v d;
                   d2 = (if reset then revoke_sessions_where (\<lambda>r. s_user_id r = uid) d1 else d1)
               in (Done, log_action q (entry ''user_edit'' ''user'' (Some uid) (Some (u_username v)) JNull)
                     (a\<lparr>a_db := d2\<rparr>))))"

text \<open>
  Deleting a user row: sessions go with it, audit rows lose their author, the association rows
  disappear. A row of a table whose foreign key may not become null makes the database refuse.
\<close>

definition delete_user_row :: "int \<Rightarrow> db \<Rightarrow> db" where
  "delete_user_row uid d =
     d\<lparr>d_users := filter (\<lambda>u. u_id u \<noteq> uid) (d_users d),
       d_sessions := filter (\<lambda>r. s_user_id r \<noteq> uid) (d_sessions d),
       d_audit := map (\<lambda>l. if al_user_id l = Some uid then l\<lparr>al_user_id := None\<rparr> else l) (d_audit d)\<rparr>"

definition delete_user :: "user \<Rightarrow> int \<Rightarrow> req_ctx \<Rightarrow> app \<Rightarrow> outcome \<times> app" where
  "delete_user cu uid q a =
     (let d = a_db a in
      if uid = u_id cu then (Denied, a)
      else case get_user d uid of
        None \<Rightarrow> (Missing, a)
      | Some u \<Rightarrow>
          if \<not> can_edit_user d cu u then (Denied, a)
          else let a1 = log_action q (entry ''user_delete'' ''user'' (Some uid) (Some (u_username u)) JNull) a
               in if list_ex (\<lambda>(t, i). i = uid) (d_owned d) then (Crashed, a1\<lparr>a_db := d\<rparr>)
                  else (Done, a1\<lparr>a_db := delete_user_row uid (a_db a1)\<rparr>))"

section \<open>Roles\<close>

definition role_name :: "string \<Rightarrow> string" where
  "role_name s = map (\<lambda>c. if c = CHR '' '' then CHR ''_'' else c) (py_lower (py_strip s))"

definition form_permissions :: "form_data \<Rightarrow> permission list" where
  "form_permissions fm = map fst (filter (\<lambda>(p, n). fhas fm n) PERMISSION_FIELDS)"

definition add_role :: "form_data \<Rightarrow> req_ctx \<Rightarrow> app \<Rightarrow> outcome \<times> app" where
  "add_role fm q a =
     (let d = a_db a;
          name = role_name (fget fm ''name'' []);
          display = py_strip (fget fm ''display_name'' []);
          tier = fget fm ''base_tier'' ''viewer''
      in if name = [] \<or> display = [] then (Denied, a)
      else if find_role d name \<noteq> None then (Denied, a)
      else let r = \<lparr>r_id = next_id r_id (d_roles d), r_name = name, r_display_name = display,
                    r_level = (case map_of BASE_TIER_LEVELS tier of None \<Rightarrow> 1 | Some l \<Rightarrow> l),
                    r_is_builtin = False, r_base_tier = Some tier, r_perms = form_permissions fm\<rparr>
           in (Done, log_action q (entry ''role_add'' ''role'' (Some (r_id r)) (Some display) JNull)
                (a\<lparr>a_db := d\<lparr>d_roles := d_roles d @ [r]\<rparr>\<rparr>)))"

definition put_role :: "role \<Rightarrow> db \<Rightarrow> db" where
  "put_role r d = d\<lparr>d_roles := update_rows (\<lambda>x. r_id x = r_id r) (\<lambda>_. r) (d_roles d)\<rparr>"

definition edit_role_texts :: "form_data \<Rightarrow> role \<Rightarrow> role" where
  "edit_role_texts fm r =
     (if r_is_builtin r then r
      else let display = py_strip (fget fm ''display_name'' []);
               r1 = (if display = [] then r else r\<lparr>r_display_name := display\<rparr>);
               tier = fget fm ''base_tier'' []
           in case (if tier = [] then None else map_of BASE_TIER_LEVELS tier) of
                None \<Rightarrow> r1
              | Some l \<Rightarrow> r1\<lparr>r_base_tier := Some tier, r_level := l\<rparr>)"

definition edit_role :: "int \<Rightarrow> form_data \<Rightarrow> req_ctx \<Rightarrow> app \<Rightarrow> outcome \<times> app" where
  "edit_role rid fm q a =
     (let d = a_db a in
      case get_role d rid of
        None \<Rightarrow> (Missing, a)
      | Some r \<Rightarrow>
          if r_name r = ''super_admin'' then (Denied, a)
          else let r' = (edit_role_texts fm r)\<lparr>r_perms := form_permissions fm\<rparr>
               in (Done, log_action q (entry ''role_edit'' ''role'' (Some rid) (Some (r_display_name r')) JNull)
                    (a\<lparr>a_db := put_role r' d\<rparr>)))"

definition delete_role :: "int \<Rightarrow> req_ctx \<Rightarrow> app \<Rightarrow> outcome \<times> app" where
  "delete_role rid q a =
     (let d = a_db a in
      case get_role d rid of
        None \<Rightarrow> (Missing, a)
      | Some r \<Rightarrow>
          if r_is_builtin r then (Denied, a)
          else if list_ex (\<lambda>u. u_role_id u = rid) (d_users d) then (Denied, a)
          else let a1 = log_action q (entry ''role_delete'' ''role'' (Some rid) (Some (r_display_name r)) JNull) a
               in (Done, a1\<lparr>a_db := (a_db a1)\<lparr>d_roles := filter (\<lambda>x. r_id x \<noteq> rid) (d_roles d)\<rparr>\<rparr>))"

section \<open>Tags\<close>

definition hex_color :: "string \<Rightarrow> bool" where
  "hex_color s \<longleftrightarrow> length s = 7 \<and> hd s = CHR ''#'' \<and> list_all (\<lambda>c. hex_value c \<noteq> None) (tl s)"

definition add_tag :: "form_data \<Rightarrow> req_ctx \<Rightarrow> app \<Rightarrow> outcome \<times> app" where
  "add_tag fm q a =
     (let d = a_db a;
          name = py_strip (fget fm ''name'' []);
          c0 = py_strip (fget fm ''color'' ''#6c757d'');
          color = (if hex_color c0 then c0 else ''#6c757d'')
      in if name = [] then (Denied, a)
      else if first_row (\<lambda>t. t_name t = name) (d_tags d) \<noteq> None then (Denied, a)
      else let t = \<lparr>t_id = next_id t_id (d_tags d), t_name = name, t_color = color, t_unifi_networks = []\<rparr>
           in (Done, log_action q (entry ''tag_add'' ''tag'' (Some (t_id t)) (Some name) JNull)
                (a\<lparr>a_db := d\<lparr>d_tags := d_tags d @ [t]\<rparr>\<rparr>)))"

text \<open>Deleting a tag removes it from the users and guests that carry it.\<close>

definition delete_tag_row :: "int \<Rightarrow> db \<Rightarrow> db" where
  "delete_tag_row tid d =
     d\<lparr>d_tags := filter (\<lambda>t. t_id t \<noteq> tid) (d_tags d),
       d_users := map (\<lambda>u. u\<lparr>u_allowed_tags := filter (\<lambda>i. i \<noteq> tid) (u_allowed_tags u)\<rparr>) (d_users d),
       d_guests := map (\<lambda>g. g\<lparr>g_tags := filter (\<lambda>i. i \<noteq> tid) (g_tags g)\<rparr>) (d_guests d)\<rparr>"

definition delete_tag :: "int \<Rightarrow> req_ctx \<Rightarrow> app \<Rightarrow> outcome \<times> app" where
  "delete_tag tid q a =
     (case get_tag (a_db a) tid of
        None \<Rightarrow> (Missing, a)
      | Some t \<Rightarrow>
          let a1 = log_action q (entry ''tag_delete'' ''tag'' (Some tid) (Some (t_name t)) JNull) a
          in (Done, a1\<lparr>a_db := delete_tag_row tid (a_db a1)\<rparr>))"

text \<open>A name listed twice violates the primary key of the link table at the commit.\<close>

definition set_tag_networks :: "int \<Rightarrow> form_data \<Rightarrow> req_ctx \<Rightarrow> app \<Rightarrow> outcome \<times> app" where
  "set_tag_networks tid fm q a =
     (let d = a_db a in
      case get_tag d tid of
        None \<Rightarrow> (Missing, a)
      | Some t \<Rightarrow>
          let names = filter (\<lambda>n. n \<noteq> []) (map py_strip (fgetlist fm ''network_names''));
              d1 = d\<lparr>d_tags := update_rows (\<lambda>x. t_id x = tid) (\<lambda>x. x\<lparr>t_unifi_networks := names\<rparr>) (d_tags d)\<rparr>;
              a1 = log_action q (entry ''tag_networks_update'' ''tag'' (Some tid) (Some (t_name t))
                     (JDict [(''networks'', JList (map JStr names))])) (a\<lparr>a_db := d1\<rparr>)
          in if distinct names then (Done, a1) else (Crashed, a1\<lparr>a_db := d\<rparr>))"

section \<open>Access settings\<close>

definition flag :: "bool \<Rightarrow> string" where
  "flag b = (if b then ''true'' else ''false'')"

definition settings_entry :: "string \<Rightarrow> string \<Rightarrow> json \<Rightarrow> log_entry" where
  "settings_entry action name details = entry action ''settings'' None (Some name) details"

definition save_cloudflare :: "form_data \<Rightarrow> req_ctx \<Rightarrow> app \<Rightarrow> outcome \<times> app" where
  "save_cloudflare fm q a =
     (let enabled = fhas fm ''cf_access_enabled'';
          team = py_strip (fget fm ''cf_access_team_domain'' []);
          audience = py_strip (fget fm ''cf_access_audience'' []);
          auto = fhas fm ''cf_access_auto_provision'';
          only = fhas fm ''cf_access_bypass_local_auth''
      in if only \<and> enabled \<and> (team = [] \<or> audience = []) then (Denied, a)
      else if team \<noteq> [] \<and> \<not> is_valid_team_domain team then (Denied, a)
      else (Done, log_action q (settings_entry ''settings_cloudflare_save'' ''cloudflare_access'' JNull)
              (a\<lparr>a_db :=
                setting_set ''cf_access_bypass_local_auth'' (flag only)
                 (setting_set ''cf_access_auto_provision'' (flag auto)
                 (setting_set ''cf_access_audience'' audience
                 (setting_set ''cf_access_team_domain'' team
                 (setting_set ''cf_access_enabled'' (flag enabled) (a_db a)))))\<rparr>)))"

definition zero_prefix :: "net \<Rightarrow> bool" where
  "zero_prefix n = (case n of N4 b m \<Rightarrow> m = 0 | N6 b m \<Rightarrow> m = 0)"

text \<open>Every entry must be a network, and none of them the whole address space.\<close>

definition subnet_entry_ok :: "string \<Rightarrow> bool" where
  "subnet_entry_ok e =
     (let t = py_strip e in
      t = [] \<or> (case ip_network t of None \<Rightarrow> False | Some n \<Rightarrow> \<not> zero_prefix n))"

definition save_local_bypass :: "form_data \<Rightarrow> req_ctx \<Rightarrow> app \<Rightarrow> outcome \<times> app" where
  "save_local_bypass fm q a =
     (let enabled = fhas fm ''local_bypass_enabled'';
          subnets = py_strip (fget fm ''trusted_subnets'' DEFAULT_TRUSTED_SUBNETS)
      in if subnets \<noteq> [] \<and> \<not> list_all subnet_entry_ok (py_split (CHR '','') subnets) then (Denied, a)
      else (Done, log_action q (settings_entry ''settings_local_bypass_save'' ''local_bypass''
                (JDict [(''enabled'', JBool enabled), (''subnets'', JStr subnets)]))
              (a\<lparr>a_db := setting_set ''trusted_subnets'' subnets
                (setting_set ''local_bypass_enabled'' (flag enabled) (a_db a))\<rparr>)))"

definition dismiss_bypass_notice :: "req_ctx \<Rightarrow> app \<Rightarrow> outcome \<times> app" where
  "dismiss_bypass_notice q a =
     (Done, log_action q (settings_entry ''bypass_notice_dismiss'' ''local_bypass'' JNull)
        (a\<lparr>a_db := setting_set ''local_bypass_enabled'' ''false'' (a_db a)\<rparr>))"

definition save_snapshots :: "form_data \<Rightarrow> req_ctx \<Rightarrow> app \<Rightarrow> outcome \<times> app" where
  "save_snapshots fm q a =
     (let req = fhas fm ''require_snapshot_before_action'' in
      (Done, log_action q (settings_entry ''settings_snapshots_save'' ''snapshots''
          (JDict [(''require_snapshot'', JBool req)]))
        (a\<lparr>a_db := setting_set ''require_snapshot_before_action'' (flag req) (a_db a)\<rparr>)))"

section \<open>All handlers behind the gate\<close>

datatype admin_op =
    Revoke_user_session int
  | Add_user form_data string usec
  | Edit_user int form_data string usec
  | Delete_user int
  | Add_role form_data
  | Edit_role int form_data
  | Delete_role int
  | Add_tag form_data
  | Delete_tag int
  | Set_tag_networks int form_data
  | Save_cloudflare form_data
  | Save_local_bypass form_data
  | Dismiss_bypass_notice
  | Save_snapshots form_data

fun op_path :: "admin_op \<Rightarrow> string" where
  "op_path (Revoke_user_session i) = ''/security/sessions/'' @ py_str_int i @ ''/revoke''"
| "op_path (Add_user fm h t) = ''/security/users/add''"
| "op_path (Edit_user i fm h t) = ''/security/users/'' @ py_str_int i @ ''/edit''"
| "op_path (Delete_user i) = ''/security/users/'' @ py_str_int i @ ''/delete''"
| "op_path (Add_role fm) = ''/security/roles/add''"
| "op_path (Edit_role i fm) = ''/security/roles/'' @ py_str_int i @ ''/edit''"
| "op_path (Delete_role i) = ''/security/roles/'' @ py_str_int i @ ''/delete''"
| "op_path (Add_tag fm) = ''/security/tags/add''"
| "op_path (Delete_tag i) = ''/security/tags/'' @ py_str_int i @ ''/delete''"
| "op_path (Set_tag_networks i fm) = ''/security/tags/'' @ py_str_int i @ ''/networks''"
| "op_path (Save_cloudflare fm) = ''/security/access/cloudflare''"
| "op_path (Save_local_bypass fm) = ''/security/access/local-bypass''"
| "op_path Dismiss_bypass_notice = ''/security/access/dismiss-bypass-notice''"
| "op_path (Save_snapshots fm) = ''/security/access/snapshots''"

fun run_op :: "user \<Rightarrow> req_ctx \<Rightarrow> admin_op \<Rightarrow> app \<Rightarrow> outcome \<times> app" where
  "run_op cu q (Revoke_user_session i) a = revoke_user_session q i a"
| "run_op cu q (Add_user fm h t) a = add_user cu fm h t q a"
| "run_op cu q (Edit_user i fm h t) a = edit_user cu i fm h t q a"
| "run_op cu q (Delete_user i) a = delete_user cu i q a"
| "run_op cu q (Add_role fm) a = add_role fm q a"
| "run_op cu q (Edit_role i fm) a = edit_role i fm q a"
| "run_op cu q (Delete_role i) a = delete_role i q a"
| "run_op cu q (Add_tag fm) a = add_tag fm q a"
| "run_op cu q (Delete_tag i) a = delete_tag i q a"
| "run_op cu q (Set_tag_networks i fm) a = set_tag_networks i fm q a"
| "run_op cu q (Save_cloudflare fm) a = save_cloudflare fm q a"
| "run_op cu q (Save_local_bypass fm) a = save_local_bypass fm q a"
| "run_op cu q Dismiss_bypass_notice a = dismiss_bypass_notice q a"
| "run_op cu q (Save_snapshots fm) a = save_snapshots fm q a"

text \<open>A request to the blueprint: the gate, then the handler.\<close>

definition security_request :: "user \<Rightarrow> req_ctx \<Rightarrow> admin_op \<Rightarrow> app \<Rightarrow> outcome \<times> app" where
  "security_request cu q op a =
     (if require_access (a_db a) cu (op_path op) then run_op cu q op a else (Denied, a))"

section \<open>The invariant of the user and role tables\<close>

definition sa_role :: "role \<Rightarrow> bool" where
  "sa_role r \<longleftrightarrow> r_name r = ''super_admin'' \<and> r_is_builtin r \<and> r_level r = 4"

definition roles_sound :: "role list \<Rightarrow> bool" where
  "roles_sound rs \<longleftrightarrow>
     distinct (map r_id rs) \<and> distinct (map r_name rs) \<and> (\<exists>r \<in> set rs. sa_role r) \<and>
     (\<forall>r \<in> set rs. r_name r = ''super_admin'' \<or> r_level r \<le> 3)"

definition has_active_sa :: "db \<Rightarrow> user list \<Rightarrow> bool" where
  "has_active_sa d us \<longleftrightarrow> (\<exists>u \<in> set us. u_is_active_user u \<and> is_super_admin d u)"

text \<open>
  Keys and names are unique, the super-administrator role is the only one above the admin level, and
  somebody active holds it.
\<close>

definition site_ok :: "db \<Rightarrow> bool" where
  "site_ok d \<longleftrightarrow>
     roles_sound (d_roles d) \<and> distinct (map u_id (d_users d)) \<and> distinct (map u_username (d_users d)) \<and>
     has_active_sa d (d_users d)"

lemma is_super_admin_cong:
  "d_roles d' = d_roles d \<Longrightarrow> u_role_id v = u_role_id u \<Longrightarrow> is_super_admin d' v = is_super_admin d u"
  by (simp add: is_super_admin_def role_of_def get_role_def)

lemma role_level_cong:
  "d_roles d' = d_roles d \<Longrightarrow> u_role_id v = u_role_id u \<Longrightarrow> role_level d' v = role_level d u"
  by (simp add: role_level_def role_of_def get_role_def)

lemma rank_frame [simp]:
  "is_super_admin (d\<lparr>d_users := us\<rparr>) u = is_super_admin d u" "is_super_admin (d\<lparr>d_audit := as\<rparr>) u = is_super_admin d u"
  "is_super_admin (d\<lparr>d_sessions := ss\<rparr>) u = is_super_admin d u" "is_super_admin (d\<lparr>d_tags := ts\<rparr>) u = is_super_admin d u"
  "is_super_admin (d\<lparr>d_guests := gs\<rparr>) u = is_super_admin d u" "is_super_admin (put_user v d) u = is_super_admin d u"
  "role_level (d\<lparr>d_users := us\<rparr>) u = role_level d u" "role_level (d\<lparr>d_audit := as\<rparr>) u = role_level d u"
  "role_level (d\<lparr>d_sessions := ss\<rparr>) u = role_level d u" "role_level (put_user v d) u = role_level d u"
  by (simp_all add: is_super_admin_def role_level_def role_of_def get_role_def)

lemma role_of_member: "role_of d u = Some r \<Longrightarrow> r \<in> set (d_roles d) \<and> r_id r = u_role_id u"
  by (auto simp: role_of_def get_role_def dest: first_row_Some)

lemma sa_level: "roles_sound (d_roles d) \<Longrightarrow> is_super_admin d u \<Longrightarrow> role_level d u = 4"
proof -
  assume rs: "roles_sound (d_roles d)" and "is_super_admin d u"
  then obtain r where r: "role_of d u = Some r" "r_name r = ''super_admin''"
    by (auto simp: is_super_admin_def split: option.splits)
  from rs obtain s where s: "s \<in> set (d_roles d)" "sa_role s" by (auto simp: roles_sound_def)
  have "r = s"
    using rs role_of_member[OF r(1)] r(2) s
    by (auto simp: roles_sound_def sa_role_def distinct_map inj_on_def)
  then show ?thesis using r s by (simp add: role_level_def sa_role_def)
qed

lemma not_sa_level: "roles_sound (d_roles d) \<Longrightarrow> \<not> is_super_admin d u \<Longrightarrow> role_level d u \<le> 3"
  using role_of_member[of d u]
  by (auto simp: roles_sound_def is_super_admin_def role_level_def split: option.splits)

lemma sa_iff_level: "roles_sound (d_roles d) \<Longrightarrow> is_super_admin d u \<longleftrightarrow> role_level d u = 4"
  using sa_level not_sa_level by fastforce

lemma site_ok_cong:
  "d_roles d' = d_roles d \<Longrightarrow> d_users d' = d_users d \<Longrightarrow> site_ok d' = site_ok d"
  using is_super_admin_cong[of d' d] by (simp add: site_ok_def has_active_sa_def)

lemma site_okD:
  "site_ok d \<Longrightarrow> u \<in> set (d_users d) \<Longrightarrow> get_user d (u_id u) = Some u"
  by (simp add: site_ok_def get_user_def first_row_unique)

lemma get_user_in: "get_user d i = Some u \<Longrightarrow> u \<in> set (d_users d) \<and> u_id u = i"
  by (auto simp: get_user_def dest: first_row_Some)

lemma map_update_rows:
  "(\<And>r. r \<in> set rows \<Longrightarrow> P r \<Longrightarrow> f (g r) = f r) \<Longrightarrow> map f (update_rows P g rows) = map f rows"
  by (induction rows) auto

text \<open>Replacing a row keeps the invariant if it keeps the name and leaves some active super administrator.\<close>

lemma site_ok_put_user:
  assumes ok: "site_ok d" and u: "get_user d (u_id v) = Some u" and "u_username v = u_username u"
    and keep: "u_is_active_user v \<and> is_super_admin d v \<or>
      (\<exists>w \<in> set (d_users d). u_id w \<noteq> u_id v \<and> u_is_active_user w \<and> is_super_admin d w)"
  shows "site_ok (put_user v d)"
proof -
  let ?us = "d_users (put_user v d)"
  have uniq: "r \<in> set (d_users d) \<Longrightarrow> u_id r = u_id v \<Longrightarrow> r = u" for r
    using site_okD[OF ok, of r] u by simp
  have "map u_id ?us = map u_id (d_users d)" "map u_username ?us = map u_username (d_users d)"
    using uniq assms(3) by (auto simp: put_user_def intro!: map_update_rows)
  moreover have "has_active_sa (put_user v d) ?us"
    using keep
  proof
    assume "u_is_active_user v \<and> is_super_admin d v"
    moreover have "v \<in> set ?us" using get_user_in[OF u] by (auto simp: put_user_def set_update_rows)
    ultimately show ?thesis by (auto simp: has_active_sa_def)
  next
    assume "\<exists>w \<in> set (d_users d). u_id w \<noteq> u_id v \<and> u_is_active_user w \<and> is_super_admin d w"
    then obtain w where "w \<in> set (d_users d)" "u_id w \<noteq> u_id v" "u_is_active_user w" "is_super_admin d w" by blast
    moreover from this have "w \<in> set ?us" by (force simp: put_user_def set_update_rows)
    ultimately show ?thesis by (auto simp: has_active_sa_def)
  qed
  ultimately show ?thesis using ok by (simp add: site_ok_def)
qed

section \<open>Each handler keeps the invariant\<close>

lemma site_ok_log [simp]: "site_ok (a_db (log_action q l a)) = site_ok (a_db a)"
  by (rule site_ok_cong) simp_all

lemma site_ok_insert_user:
  assumes "site_ok (a_db a)" "find_username (a_db a) (u_username u) = None" "u_id u = next_id u_id (d_users (a_db a))"
  shows "site_ok (a_db (insert_user q u r a))"
proof -
  have "u_username u \<notin> u_username ` set (d_users (a_db a))"
    using assms(2) by (auto simp: find_username_def first_row_None)
  moreover have "u_id u \<notin> u_id ` set (d_users (a_db a))" using assms(3) next_id_fresh by metis
  ultimately show ?thesis
    using assms(1) by (auto simp: insert_user_def site_ok_def has_active_sa_def)
qed

lemma new_user_simps [simp]:
  "u_username (set_password h t (new_user n disp i r)) = n" "u_id (new_user n disp i r) = i"
  "u_role_id (set_password h t (new_user n disp i r)) = r"
  by (simp_all add: new_user_def set_password_def Let_def)

lemma add_user_with_role_cases:
  "snd (add_user_with_role cu fm h t q n r a) = a \<or>
   (\<exists>u. snd (add_user_with_role cu fm h t q n r a) = insert_user q u r a \<and> u_username u = n \<and>
      u_id u = next_id u_id (d_users (a_db a)) \<and> u_role_id u = r_id r \<and>
      (r_level r < role_level (a_db a) cu \<or> is_super_admin (a_db a) cu))"
proof (cases "r_level r \<ge> role_level (a_db a) cu \<and> \<not> is_super_admin (a_db a) cu")
  case True
  then show ?thesis by (simp add: add_user_with_role_def)
next
  case False
  let ?u = "set_password h t (new_user n (py_strip (fget fm ''display_name'' [])) (next_id u_id (d_users (a_db a))) (r_id r))"
  have rank: "r_level r < role_level (a_db a) cu \<or> is_super_admin (a_db a) cu" using False by auto
  have "snd (add_user_with_role cu fm h t q n r a) = a \<or> snd (add_user_with_role cu fm h t q n r a) = insert_user q ?u r a \<or>
      (\<exists>ts. snd (add_user_with_role cu fm h t q n r a) = insert_user q (?u\<lparr>u_allowed_tags := ts\<rparr>) r a)"
    using False by (auto simp: add_user_with_role_def Let_def split: tag_choice.splits)
  then consider "snd (add_user_with_role cu fm h t q n r a) = a"
    | "snd (add_user_with_role cu fm h t q n r a) = insert_user q ?u r a"
    | ts where "snd (add_user_with_role cu fm h t q n r a) = insert_user q (?u\<lparr>u_allowed_tags := ts\<rparr>) r a" by blast
  then show ?thesis
  proof cases
    case 2
    then show ?thesis using rank by (intro disjI2 exI[of _ ?u]) simp
  next
    case (3 ts)
    then show ?thesis using rank by (intro disjI2 exI[of _ "?u\<lparr>u_allowed_tags := ts\<rparr>"]) simp
  qed simp
qed

lemma chosen_role_member:
  "chosen_role d s = Role_choice (Some r) \<Longrightarrow> r \<in> set (d_roles d)"
  by (auto simp: chosen_role_def get_role_def split: if_splits option.splits dest: first_row_Some)

lemma add_user_cases:
  fixes fm
  defines "n \<equiv> py_lower (py_strip (fget fm ''username'' []))"
  shows "snd (add_user cu fm h t q a) = a \<or>
   find_username (a_db a) n = None \<and>
   (\<exists>r \<in> set (d_roles (a_db a)). snd (add_user cu fm h t q a) = snd (add_user_with_role cu fm h t q n r a))"
proof -
  have v: "find_role (a_db a) ''viewer'' = Some r \<Longrightarrow> r \<in> set (d_roles (a_db a))" for r
    by (auto simp: find_role_def dest: first_row_Some)
  show ?thesis
    using v chosen_role_member unfolding add_user_def Let_def n_def
    by (auto split: role_choice.splits option.splits)
qed

lemma site_ok_add_user:
  assumes "site_ok (a_db a)"
  shows "site_ok (a_db (snd (add_user cu fm h t q a)))"
proof -
  from add_user_cases[of cu fm h t q a] show ?thesis
  proof (elim disjE bexE conjE)
    fix r
    let ?n = "py_lower (py_strip (fget fm ''username'' []))"
    assume e: "snd (add_user cu fm h t q a) = snd (add_user_with_role cu fm h t q ?n r a)"
      and n: "find_username (a_db a) ?n = None"
    show ?thesis
      unfolding e using add_user_with_role_cases[of cu fm h t q ?n r a] site_ok_insert_user[OF assms] assms n by metis
  qed (use assms in simp)
qed

text \<open>What the steps of the edit form keep of a user row.\<close>

lemma edit_names_keeps:
  "edit_names cu fm u = Some v \<Longrightarrow> u_id v = u_id u \<and> u_username v = u_username u \<and> u_role_id v = u_role_id u \<and>
   (u_id u = u_id cu \<longrightarrow> u_is_active_user v = u_is_active_user u) \<and> u_tokens_valid_after v = u_tokens_valid_after u"
  by (auto simp: edit_names_def split: option.splits)

lemma get_role_id: "get_role d i = Some r \<Longrightarrow> r_id r = i"
  by (auto simp: get_role_def dest: first_row_Some)

lemma edit_role_of_keeps:
  assumes "edit_role_of d cu fm u = Inr v"
  shows "u_id v = u_id u \<and> u_username v = u_username u \<and> u_is_active_user v = u_is_active_user u \<and>
    u_tokens_valid_after v = u_tokens_valid_after u \<and>
    (u_role_id v = u_role_id u \<or>
     u_id u \<noteq> u_id cu \<and> (is_super_admin d cu \<or> role_level d v < role_level d cu))"
proof -
  have "v = u \<or> (\<exists>i r. u_id u \<noteq> u_id cu \<and> get_role d i = Some r \<and>
      (is_super_admin d cu \<or> r_level r < role_level d cu) \<and> v = u\<lparr>u_role_id := r_id r\<rparr>)"
    using assms by (auto simp: edit_role_of_def Let_def not_le split: if_splits option.splits)
  moreover have "get_role d i = Some r \<Longrightarrow> role_level d (u\<lparr>u_role_id := r_id r\<rparr>) = r_level r" for i r
    using get_role_id[of d i r] by (simp add: role_level_def role_of_def)
  ultimately show ?thesis by auto
qed

lemma edit_tags_of_keeps:
  "edit_tags_of d fm u = Inr v \<Longrightarrow> u_id v = u_id u \<and> u_username v = u_username u \<and>
   u_is_active_user v = u_is_active_user u \<and> u_role_id v = u_role_id u \<and>
   u_tokens_valid_after v = u_tokens_valid_after u"
  by (auto simp: edit_tags_of_def Let_def split: if_splits tag_choice.splits)

lemma edit_password_of_keeps:
  "edit_password_of fm h t u = Inr (v, b) \<Longrightarrow> u_id v = u_id u \<and> u_username v = u_username u \<and>
   u_is_active_user v = u_is_active_user u \<and> u_role_id v = u_role_id u \<and>
   (v = u \<and> \<not> b \<or> v = set_password h t u \<and> b)"
  by (auto simp: edit_password_of_def set_password_def Let_def split: if_splits)

lemma edit_row_keeps:
  assumes "edit_row d cu fm h t u = Inr (v, reset)"
  shows "u_id v = u_id u \<and> u_username v = u_username u \<and>
    (u_id u = u_id cu \<longrightarrow> u_is_active_user v = u_is_active_user u) \<and>
    (u_role_id v = u_role_id u \<or> u_id u \<noteq> u_id cu \<and> (is_super_admin d cu \<or> role_level d v < role_level d cu)) \<and>
    (reset \<longrightarrow> (\<exists>w. v = set_password h t w \<and> u_tokens_valid_after w = u_tokens_valid_after u))"
proof -
  from assms obtain u1 u2 u3 where st: "edit_names cu fm u = Some u1" "edit_role_of d cu fm u1 = Inr u2"
      "edit_tags_of d fm u2 = Inr u3" "edit_password_of fm h t u3 = Inr (v, reset)"
    by (auto simp: edit_row_def split: option.splits sum.splits)
  have lv: "role_level d v = role_level d u2"
    using edit_tags_of_keeps[OF st(3)] edit_password_of_keeps[OF st(4)] by (intro role_level_cong) simp_all
  show ?thesis
    using edit_names_keeps[OF st(1)] edit_role_of_keeps[OF st(2)] edit_tags_of_keeps[OF st(3)]
      edit_password_of_keeps[OF st(4)] lv by auto
qed

text \<open>An active super administrator whom the edited or deleted row is not.\<close>

lemma other_sa:
  assumes "site_ok d" "get_user d (u_id cu) = Some cu" "u_is_active_user cu" "can_edit_user d cu u" "u_id u \<noteq> u_id cu"
    and "get_user d (u_id u) = Some u"
  shows "\<exists>w \<in> set (d_users d). u_id w \<noteq> u_id u \<and> u_is_active_user w \<and> is_super_admin d w"
proof (cases "is_super_admin d cu")
  case True
  moreover have "cu \<in> set (d_users d)" using get_user_in[OF assms(2)] by simp
  ultimately show ?thesis using assms(3,5) by (intro bexI[of _ cu]) auto
next
  case False
  have rs: "roles_sound (d_roles d)" using assms(1) by (simp add: site_ok_def)
  have "role_level d u < role_level d cu" using assms(4,5) False by (simp add: can_edit_user_def split: if_splits)
  then have nu: "\<not> is_super_admin d u" using False sa_iff_level[OF rs] not_sa_level[OF rs, of cu] by fastforce
  obtain w where w: "w \<in> set (d_users d)" "u_is_active_user w" "is_super_admin d w"
    using assms(1) by (auto simp: site_ok_def has_active_sa_def)
  have "u_id w \<noteq> u_id u" using nu w(3) site_okD[OF assms(1) w(1)] assms(6) by (metis option.inject)
  then show ?thesis using w by blast
qed

lemma edit_user_cases:
  obtains "snd (edit_user cu uid fm h t q a) = a"
  | u v reset where "get_user (a_db a) uid = Some u" "can_edit_user (a_db a) cu u"
      "edit_row (a_db a) cu fm h t u = Inr (v, reset)"
      "edit_user cu uid fm h t q a =
        (Done, log_action q (entry ''user_edit'' ''user'' (Some uid) (Some (u_username v)) JNull)
           (a\<lparr>a_db := if reset then revoke_sessions_where (\<lambda>r. s_user_id r = uid) (put_user v (a_db a))
                      else put_user v (a_db a)\<rparr>))"
proof (cases "get_user (a_db a) uid")
  case None
  then show thesis using that(1) by (simp add: edit_user_def)
next
  case (Some u)
  show thesis
  proof (cases "can_edit_user (a_db a) cu u")
    case False
    then show thesis using Some that(1) by (simp add: edit_user_def)
  next
    case True
    show thesis
    proof (cases "edit_row (a_db a) cu fm h t u")
      case (Inl err)
      then show thesis using Some True that(1) by (simp add: edit_user_def)
    next
      case (Inr vr)
      obtain v reset where "vr = (v, reset)" by (cases vr)
      then show thesis using Some True Inr that(2)[OF Some True, of v reset] by (simp add: edit_user_def Let_def)
    qed
  qed
qed

lemma site_ok_edit_user:
  assumes "site_ok (a_db a)" "get_user (a_db a) (u_id cu) = Some cu" "u_is_active_user cu"
  shows "site_ok (a_db (snd (edit_user cu uid fm h t q a)))"
proof -
  let ?d = "a_db a"
  show ?thesis
  proof (cases rule: edit_user_cases[of cu uid fm h t q a])
    case 1
    then show ?thesis using assms by simp
  next
    case (2 u v reset)
    note k = edit_row_keeps[OF 2(3)]
    have uid: "u_id u = uid" using get_user_in[OF 2(1)] by simp
    have "site_ok (put_user v ?d)"
    proof (rule site_ok_put_user[OF assms(1)])
      show "get_user ?d (u_id v) = Some u" using 2(1) k uid by simp
      show "u_username v = u_username u" using k by simp
      show "u_is_active_user v \<and> is_super_admin ?d v \<or>
        (\<exists>w \<in> set (d_users ?d). u_id w \<noteq> u_id v \<and> u_is_active_user w \<and> is_super_admin ?d w)"
      proof (cases "u_id u = u_id cu")
        case False
        have "get_user ?d (u_id u) = Some u" using 2(1) uid by simp
        then show ?thesis using other_sa[OF assms 2(2) False] k by metis
      next
        case True
        then have u: "u = cu" using 2(1) assms(2) uid by (metis option.inject)
        obtain w where w: "w \<in> set (d_users ?d)" "u_is_active_user w" "is_super_admin ?d w"
          using assms(1) by (auto simp: site_ok_def has_active_sa_def)
        show ?thesis
        proof (cases "u_id w = u_id v")
          case True
          then have "w = cu" using site_okD[OF assms(1) w(1)] assms(2) k u by (metis option.inject)
          then show ?thesis using w k u is_super_admin_cong[of ?d ?d v cu] by auto
        qed (use w in blast)
      qed
    qed
    moreover have "site_ok (a_db (snd (edit_user cu uid fm h t q a))) = site_ok (put_user v ?d)"
      unfolding 2(4) by (rule site_ok_cong) (simp_all add: revoke_sessions_where_def)
    ultimately show ?thesis by simp
  qed
qed

lemma site_ok_delete_user:
  assumes "site_ok (a_db a)" "get_user (a_db a) (u_id cu) = Some cu" "u_is_active_user cu"
  shows "site_ok (a_db (snd (delete_user cu uid q a)))"
proof -
  let ?d = "a_db a"
  have del: "site_ok (delete_user_row uid (?d\<lparr>d_audit := l\<rparr>))"
    if u: "get_user ?d uid = Some u" "can_edit_user ?d cu u" "uid \<noteq> u_id cu" for u l
  proof -
    have uid: "u_id u = uid" using get_user_in[OF u(1)] by simp
    have sa: "\<exists>w \<in> set (d_users ?d). u_id w \<noteq> u_id u \<and> u_is_active_user w \<and> is_super_admin ?d w"
      by (rule other_sa[OF assms u(2)]) (use u uid in auto)
    have d: "distinct (map u_id (filter P xs))" if "distinct (map u_id xs)" for P and xs :: "user list"
      using that by (simp add: distinct_map_filter)
    have n: "distinct (map u_username (filter P xs))" if "distinct (map u_username xs)" for P and xs :: "user list"
      using that by (simp add: distinct_map_filter)
    show ?thesis
      using assms(1) sa uid d n by (auto simp: delete_user_row_def site_ok_def has_active_sa_def)
  qed
  show ?thesis
    using assms(1) del by (auto simp: delete_user_def Let_def split: option.splits)
qed

lemma tier_levels: "map_of BASE_TIER_LEVELS t = Some l \<Longrightarrow> l \<le> 3"
  by (auto simp: BASE_TIER_LEVELS_def split: if_splits)

lemma sa_found: "roles_sound (d_roles d) \<Longrightarrow> find_role d ''super_admin'' \<noteq> None"
  by (auto simp: roles_sound_def sa_role_def find_role_def first_row_None)

lemma role_of_append:
  "role_of d u = Some r \<Longrightarrow> role_of (d\<lparr>d_roles := d_roles d @ rs\<rparr>) u = Some r"
  by (auto simp: role_of_def get_role_def first_row_def find_append)

lemma is_super_admin_iff: "is_super_admin d u \<longleftrightarrow> (\<exists>r. role_of d u = Some r \<and> r_name r = ''super_admin'')"
  by (simp add: is_super_admin_def split: option.splits)

lemma is_super_admin_append: "is_super_admin d u \<Longrightarrow> is_super_admin (d\<lparr>d_roles := d_roles d @ rs\<rparr>) u"
  using role_of_append by (fastforce simp: is_super_admin_iff)

lemma has_active_sa_mono:
  "has_active_sa d us \<Longrightarrow> (\<And>u. is_super_admin d u \<Longrightarrow> is_super_admin d' u) \<Longrightarrow> has_active_sa d' us"
  by (auto simp: has_active_sa_def)

lemma site_ok_add_role:
  assumes "site_ok (a_db a)"
  shows "site_ok (a_db (snd (add_role fm q a)))"
proof -
  let ?d = "a_db a"
  have ins: "site_ok (?d\<lparr>d_roles := d_roles ?d @ [r]\<rparr>)"
    if r: "find_role ?d (r_name r) = None" "r_id r = next_id r_id (d_roles ?d)" "r_level r \<le> 3" for r
  proof -
    have "r_name r \<notin> r_name ` set (d_roles ?d)" using r(1) by (auto simp: find_role_def first_row_None)
    moreover have "r_id r \<notin> r_id ` set (d_roles ?d)" using r(2) next_id_fresh by metis
    ultimately have "roles_sound (d_roles ?d @ [r])"
      using assms r(3) by (auto simp: site_ok_def roles_sound_def)
    moreover have "has_active_sa (?d\<lparr>d_roles := d_roles ?d @ [r]\<rparr>) (d_users ?d)"
      by (rule has_active_sa_mono[of ?d]) (use assms is_super_admin_append in \<open>simp_all add: site_ok_def\<close>)
    ultimately show ?thesis using assms by (simp add: site_ok_def)
  qed
  have lev: "(case map_of BASE_TIER_LEVELS t of None \<Rightarrow> 1 | Some l \<Rightarrow> l) \<le> (3::int)" for t
    using tier_levels[of t] by (auto split: option.splits)
  show ?thesis
    using assms ins lev by (auto simp: add_role_def Let_def simp del: log_action_db)
qed

lemma edit_role_texts_keeps:
  "r_id (edit_role_texts fm r) = r_id r \<and> r_name (edit_role_texts fm r) = r_name r \<and>
   r_is_builtin (edit_role_texts fm r) = r_is_builtin r \<and> (r_level r \<le> 3 \<longrightarrow> r_level (edit_role_texts fm r) \<le> 3)"
  using tier_levels by (auto simp: edit_role_texts_def Let_def split: option.splits)

lemma site_ok_put_role:
  assumes ok: "site_ok d" and r: "get_role d (r_id r') = Some r" and "r_name r \<noteq> ''super_admin''"
    and "r_name r' = r_name r" "r_level r' \<le> 3"
  shows "site_ok (put_role r' d)"
proof -
  let ?rs = "d_roles (put_role r' d)"
  have rs: "roles_sound (d_roles d)" using ok by (simp add: site_ok_def)
  have rm: "r \<in> set (d_roles d)" "r_id r = r_id r'" using r by (auto simp: get_role_def dest: first_row_Some)
  have uniq: "x \<in> set (d_roles d) \<Longrightarrow> r_id x = r_id r' \<Longrightarrow> x = r" for x
    using rs rm by (auto simp: roles_sound_def distinct_map inj_on_def)
  have maps: "map r_id ?rs = map r_id (d_roles d)" "map r_name ?rs = map r_name (d_roles d)"
    using uniq assms(4) by (auto simp: put_role_def intro!: map_update_rows)
  have keep: "x \<in> set (d_roles d) \<Longrightarrow> r_name x = ''super_admin'' \<Longrightarrow> x \<in> set ?rs" for x
    using uniq assms(3) by (force simp: put_role_def set_update_rows)
  have "roles_sound ?rs"
    using rs maps keep assms(3-5) by (fastforce simp: roles_sound_def sa_role_def put_role_def set_update_rows)
  moreover have "is_super_admin (put_role r' d) u" if sa: "is_super_admin d u" for u
  proof -
    have "get_role (put_role r' d) i = map_option (\<lambda>x. if r_id x = r_id r' then r' else x) (get_role d i)" for i
      unfolding get_role_def put_role_def by (simp add: first_row_update_rows)
    moreover obtain x where x: "role_of d u = Some x" "r_name x = ''super_admin''"
      using sa by (auto simp: is_super_admin_iff)
    moreover have "r_id x \<noteq> r_id r'" using uniq[of x] role_of_member[OF x(1)] x(2) assms(3) by metis
    ultimately show ?thesis by (simp add: is_super_admin_iff role_of_def)
  qed
  ultimately show ?thesis
    using ok has_active_sa_mono[of d "d_users d" "put_role r' d"] by (simp add: site_ok_def put_role_def)
qed

lemma site_ok_edit_role:
  assumes "site_ok (a_db a)"
  shows "site_ok (a_db (snd (edit_role rid fm q a)))"
proof -
  let ?d = "a_db a"
  have put: "site_ok (put_role ((edit_role_texts fm r)\<lparr>r_perms := form_permissions fm\<rparr>) ?d)"
    if r: "get_role ?d rid = Some r" "r_name r \<noteq> ''super_admin''" for r
  proof (rule site_ok_put_role[OF assms, where r = r])
    have "r \<in> set (d_roles ?d)" using r by (auto simp: get_role_def dest: first_row_Some)
    then have "r_level r \<le> 3" using assms r by (auto simp: site_ok_def roles_sound_def)
    then show "r_level ((edit_role_texts fm r)\<lparr>r_perms := form_permissions fm\<rparr>) \<le> 3"
      using edit_role_texts_keeps by simp
  qed (use r edit_role_texts_keeps get_role_id[OF r(1)] in simp_all)
  show ?thesis
    using assms put by (auto simp: edit_role_def Let_def simp del: log_action_db split: option.splits)
qed

lemma site_ok_delete_role:
  assumes "site_ok (a_db a)"
  shows "site_ok (a_db (snd (delete_role rid q a)))"
proof -
  let ?d = "a_db a"
  have del: "site_ok (?d\<lparr>d_audit := l, d_roles := filter (\<lambda>x. r_id x \<noteq> rid) (d_roles ?d)\<rparr>)"
    if r: "get_role ?d rid = Some r" "\<not> r_is_builtin r" "\<not> list_ex (\<lambda>u. u_role_id u = rid) (d_users ?d)" for r l
  proof -
    let ?rs = "filter (\<lambda>x. r_id x \<noteq> rid) (d_roles ?d)"
    have rm: "r \<in> set (d_roles ?d)" "r_id r = rid" using r by (auto simp: get_role_def dest: first_row_Some)
    have rs: "roles_sound (d_roles ?d)" using assms by (simp add: site_ok_def)
    then obtain s where s: "s \<in> set (d_roles ?d)" "sa_role s" by (auto simp: roles_sound_def)
    have "r_id s \<noteq> rid" using rs rm s r(2) by (auto simp: roles_sound_def distinct_map inj_on_def sa_role_def)
    then have "s \<in> set ?rs" using s by simp
    then have "roles_sound ?rs" using rs s by (auto simp: roles_sound_def distinct_map_filter)
    moreover have "get_role (?d\<lparr>d_audit := l, d_roles := ?rs\<rparr>) i = get_role ?d i" if "i \<noteq> rid" for i
    proof -
      have "first_row (\<lambda>x. r_id x = i) (filter (\<lambda>x. r_id x \<noteq> rid) xs) = first_row (\<lambda>x. r_id x = i) xs" for xs
        using that by (induction xs) auto
      then show ?thesis by (simp add: get_role_def)
    qed
    then have "is_super_admin (?d\<lparr>d_audit := l, d_roles := ?rs\<rparr>) u = is_super_admin ?d u" if "u \<in> set (d_users ?d)" for u
      using r(3) that by (auto simp: is_super_admin_def role_of_def list_ex_iff)
    ultimately show ?thesis using assms by (auto simp: site_ok_def has_active_sa_def)
  qed
  show ?thesis using assms del by (auto simp: delete_role_def Let_def split: option.splits)
qed

lemma site_ok_delete_tag:
  assumes "site_ok (a_db a)"
  shows "site_ok (a_db (snd (delete_tag tid q a)))"
proof -
  have "map f (map (\<lambda>u. u\<lparr>u_allowed_tags := g u\<rparr>) us) = map f us" if "\<And>u x. f (u\<lparr>u_allowed_tags := x\<rparr>) = f u"
    for f :: "user \<Rightarrow> 'b" and g us using that by simp
  moreover have "is_super_admin d (u\<lparr>u_allowed_tags := x\<rparr>) = is_super_admin d u" for d u x
    by (rule is_super_admin_cong) simp_all
  moreover have "is_super_admin (delete_tag_row tid (d\<lparr>d_audit := l\<rparr>)) u = is_super_admin d u" for d l u
    by (rule is_super_admin_cong) (simp_all add: delete_tag_row_def)
  ultimately have "site_ok (delete_tag_row tid ((a_db a)\<lparr>d_audit := l\<rparr>))" for l
    using assms by (auto simp: site_ok_def has_active_sa_def) (auto simp: delete_tag_row_def comp_def)
  then show ?thesis using assms by (auto simp: delete_tag_def Let_def split: option.splits)
qed

lemma site_ok_simple_ops:
  assumes "site_ok (a_db a)"
  shows "site_ok (a_db (snd (revoke_user_session q i a)))" "site_ok (a_db (snd (add_tag fm q a)))"
    "site_ok (a_db (snd (set_tag_networks i fm q a)))" "site_ok (a_db (snd (save_cloudflare fm q a)))"
    "site_ok (a_db (snd (save_local_bypass fm q a)))" "site_ok (a_db (snd (dismiss_bypass_notice q a)))"
    "site_ok (a_db (snd (save_snapshots fm q a)))"
proof -
  have same: "site_ok d" if "d_roles d = d_roles (a_db a)" "d_users d = d_users (a_db a)" for d
    using site_ok_cong[OF that] assms by simp
  show "site_ok (a_db (snd (revoke_user_session q i a)))"
    by (rule same) (simp_all add: revoke_user_session_def revoke_row_def Let_def split: option.splits)
  show "site_ok (a_db (snd (add_tag fm q a)))" by (rule same) (simp_all add: add_tag_def Let_def)
  show "site_ok (a_db (snd (set_tag_networks i fm q a)))"
    by (rule same) (simp_all add: set_tag_networks_def Let_def split: option.splits)
  show "site_ok (a_db (snd (save_cloudflare fm q a)))" by (rule same) (simp_all add: save_cloudflare_def Let_def)
  show "site_ok (a_db (snd (save_local_bypass fm q a)))" by (rule same) (simp_all add: save_local_bypass_def Let_def)
  show "site_ok (a_db (snd (dismiss_bypass_notice q a)))" by (rule same) (simp_all add: dismiss_bypass_notice_def)
  show "site_ok (a_db (snd (save_snapshots fm q a)))" by (rule same) (simp_all add: save_snapshots_def Let_def)
qed

section \<open>Properties\<close>

text \<open>
  C11. The site is never locked out. From a database in which keys and names are unique, the
  super-administrator role stands above all others and somebody active holds it, every request of a
  logged-in active user to the user, role, tag and access management leads to such a database again,
  whatever the form and the outcome.
\<close>

theorem security_requests_keep_site_ok:
  assumes "site_ok (a_db a)" "get_user (a_db a) (u_id cu) = Some cu" "u_is_active_user cu"
  shows "site_ok (a_db (snd (security_request cu q op a)))"
proof (cases "require_access (a_db a) cu (op_path op)")
  case True
  then show ?thesis
    using assms site_ok_add_user site_ok_edit_user site_ok_delete_user site_ok_add_role site_ok_edit_role
      site_ok_delete_role site_ok_delete_tag site_ok_simple_ops
    by (cases op) (simp_all add: security_request_def)
qed (simp add: security_request_def assms)

text \<open>Who may run what: the paths of the role, tag and access handlers are for super administrators.\<close>

lemma user_paths:
  "\<not> is_super_admin d cu \<Longrightarrow> require_access d cu (op_path op) \<Longrightarrow>
   (case op of Revoke_user_session _ \<Rightarrow> True | Add_user _ _ _ \<Rightarrow> True | Edit_user _ _ _ _ \<Rightarrow> True
    | Delete_user _ \<Rightarrow> True | _ \<Rightarrow> False)"
  by (cases op) (auto simp: require_access_def startswith_any_def startswith_def)

definition no_higher :: "db \<Rightarrow> user \<Rightarrow> db \<Rightarrow> bool" where
  "no_higher d cu d' \<longleftrightarrow>
     d_roles d' = d_roles d \<and>
     (\<forall>v \<in> set (d_users d').
        (\<exists>u \<in> set (d_users d). u_id u = u_id v \<and> u_role_id u = u_role_id v) \<or>
        role_level d v < role_level d cu)"

lemma no_higher_same: "d_roles d' = d_roles d \<Longrightarrow> set (d_users d') \<subseteq> set (d_users d) \<Longrightarrow> no_higher d cu d'"
  by (auto simp: no_higher_def)

lemma no_higher_add_user:
  assumes "\<not> is_super_admin (a_db a) cu" "distinct (map r_id (d_roles (a_db a)))"
  shows "no_higher (a_db a) cu (a_db (snd (add_user cu fm h t q a)))"
proof -
  let ?d = "a_db a"
  have ins: "no_higher ?d cu (a_db (insert_user q u r a))"
    if "r \<in> set (d_roles ?d)" "u_role_id u = r_id r" "r_level r < role_level ?d cu" for u r
  proof -
    have "role_level ?d u = r_level r"
      using first_row_unique[OF assms(2) that(1)] that(2) by (simp add: role_level_def role_of_def get_role_def)
    then show ?thesis using that(3) by (auto simp: no_higher_def insert_user_def)
  qed
  from add_user_cases[of cu fm h t q a] show ?thesis
  proof (elim disjE bexE conjE)
    fix r
    let ?n = "py_lower (py_strip (fget fm ''username'' []))"
    assume r: "r \<in> set (d_roles ?d)" and e: "snd (add_user cu fm h t q a) = snd (add_user_with_role cu fm h t q ?n r a)"
    show ?thesis
      unfolding e using add_user_with_role_cases[of cu fm h t q ?n r a] ins[OF r] assms(1) no_higher_same[of ?d ?d cu]
      by (metis order_refl)
  qed (simp add: no_higher_same)
qed

lemma no_higher_edit_user:
  assumes "\<not> is_super_admin (a_db a) cu"
  shows "no_higher (a_db a) cu (a_db (snd (edit_user cu uid fm h t q a)))"
proof (cases rule: edit_user_cases[of cu uid fm h t q a])
  case 1
  then show ?thesis by (simp add: no_higher_same)
next
  case (2 u v reset)
  note k = edit_row_keeps[OF 2(3)]
  have u: "u \<in> set (d_users (a_db a))" "u_id u = uid" using get_user_in[OF 2(1)] by simp_all
  have "d_users (a_db (snd (edit_user cu uid fm h t q a))) = d_users (put_user v (a_db a))"
    "d_roles (a_db (snd (edit_user cu uid fm h t q a))) = d_roles (a_db a)"
    unfolding 2(4) by (simp_all add: revoke_sessions_where_def)
  moreover have "u_role_id v = u_role_id u \<or> v \<in> set (d_users (a_db a)) \<or> role_level (a_db a) v < role_level (a_db a) cu"
    using k assms by blast
  ultimately show ?thesis
    using u k assms unfolding no_higher_def by (auto simp: put_user_def set_update_rows)
qed

text \<open>
  C2. No privilege escalation. If a user who is no super administrator makes a request to the user
  management, no role changes, and every user row afterwards either has the role it had before or
  has a role of a level below the requester's own.
\<close>

theorem no_privilege_escalation:
  assumes "site_ok (a_db a)" "\<not> is_super_admin (a_db a) cu"
    and "(out, a') = security_request cu q op a"
  shows "d_roles (a_db a') = d_roles (a_db a) \<and>
    (\<forall>v \<in> set (d_users (a_db a')).
       (\<exists>u \<in> set (d_users (a_db a)). u_id u = u_id v \<and> u_role_id u = u_role_id v) \<or>
       role_level (a_db a') v < role_level (a_db a) cu)"
proof -
  have dist: "distinct (map r_id (d_roles (a_db a)))" using assms(1) by (simp add: site_ok_def roles_sound_def)
  have "no_higher (a_db a) cu (a_db a')"
  proof (cases "require_access (a_db a) cu (op_path op)")
    case False
    then show ?thesis using assms(3) by (simp add: security_request_def no_higher_same)
  next
    case True
    then have a': "a' = snd (run_op cu q op a)" using assms(3) by (metis security_request_def snd_conv)
    have "no_higher (a_db a) cu (a_db (snd (revoke_user_session q i a)))" for i
      by (rule no_higher_same) (simp_all add: revoke_user_session_def revoke_row_def Let_def split: option.splits)
    moreover have "no_higher (a_db a) cu (a_db (snd (delete_user cu i q a)))" for i
      by (rule no_higher_same) (auto simp: delete_user_def delete_user_row_def Let_def split: option.splits)
    ultimately show ?thesis
      using user_paths[OF assms(2) True] no_higher_add_user[OF assms(2) dist] no_higher_edit_user[OF assms(2)]
      unfolding a' by (cases op) simp_all
  qed
  then show ?thesis using role_level_cong[of "a_db a'" "a_db a"] by (auto simp: no_higher_def)
qed

lemma delete_user_row_gone:
  "get_user (delete_user_row uid d) uid = None" "uid \<notin> s_user_id ` set (d_sessions (delete_user_row uid d))"
  "Some uid \<notin> al_user_id ` set (d_audit (delete_user_row uid d))"
  by (auto simp: delete_user_row_def get_user_def first_row_None)

text \<open>
  Deleting a user. Let the requester be allowed to delete another, existing user. If that user
  owns no AI chat session, AI usage record or push webhook, the deletion succeeds and neither the
  user table, nor the sessions, nor the authors of audit rows mention the user any more. If the user
  owns one, the request fails with an unhandled database error and the database is as before.
\<close>

theorem delete_user_outcome:
  assumes "get_user (a_db a) uid = Some u" "uid \<noteq> u_id cu" "can_edit_user (a_db a) cu u"
    and "(out, a') = delete_user cu uid q a"
  shows "(if uid \<in> snd ` set (d_owned (a_db a)) then out = Crashed \<and> a_db a' = a_db a
    else out = Done \<and> get_user (a_db a') uid = None \<and>
      uid \<notin> s_user_id ` set (d_sessions (a_db a')) \<and> Some uid \<notin> al_user_id ` set (d_audit (a_db a')))"
proof -
  have own: "list_ex (\<lambda>(t, i). i = uid) (d_owned (a_db a)) \<longleftrightarrow> uid \<in> snd ` set (d_owned (a_db a))"
    by (force simp: list_ex_iff)
  show ?thesis
  proof (cases "uid \<in> snd ` set (d_owned (a_db a))")
    case True
    then have "out = Crashed \<and> a_db a' = a_db a"
      using assms unfolding delete_user_def Let_def own by simp
    then show ?thesis using True by simp
  next
    case False
    then obtain d where "out = Done" "a_db a' = delete_user_row uid d"
      using assms unfolding delete_user_def Let_def own by auto
    then show ?thesis using False delete_user_row_gone[of uid d] by simp
  qed
qed

fun same_family :: "ip \<Rightarrow> net \<Rightarrow> bool" where
  "same_family (V4 w) (N4 b m) = True"
| "same_family (V6 w) (N6 b m) = True"
| "same_family _ _ = False"

lemma nonzero_mask_excludes: "\<not> zero_prefix n \<Longrightarrow> \<exists>a. same_family a n \<and> \<not> in_net a n"
proof (cases n)
  case (N4 b m)
  assume "\<not> zero_prefix n"
  then have "\<not> in_net (V4 0) n \<or> \<not> in_net (V4 m) n" using N4 by (auto simp: zero_prefix_def in_net_def)
  then show ?thesis using N4 by (metis same_family.simps(1))
next
  case (N6 b m)
  assume "\<not> zero_prefix n"
  then have "\<not> in_net (V6 0) n \<or> \<not> in_net (V6 m) n" using N6 by (auto simp: zero_prefix_def in_net_def)
  then show ?thesis using N6 by (metis same_family.simps(2))
qed

text \<open>
  The bypass form never trusts the whole Internet in one entry. When the form is accepted, the
  stored setting is read back as submitted, every entry of it that is not blank is a network, and
  for every trusted network some address of its family lies outside.
\<close>

theorem save_local_bypass_confined:
  assumes "save_local_bypass fm q a = (Done, a')"
  shows "get_trusted_networks (a_db a') = parse_networks (py_strip (fget fm ''trusted_subnets'' [])) \<and>
    (\<forall>e \<in> set (py_split (CHR '','') (py_strip (fget fm ''trusted_subnets'' []))).
       py_strip e = [] \<or> ip_network (py_strip e) \<noteq> None) \<and>
    (\<forall>n \<in> set (get_trusted_networks (a_db a')). \<exists>addr. same_family addr n \<and> \<not> in_net addr n)"
proof -
  let ?s = "py_strip (fget fm ''trusted_subnets'' [])"
  have ok: "?s = [] \<or> list_all subnet_entry_ok (py_split (CHR '','') ?s)"
    using assms by (auto simp: save_local_bypass_def DEFAULT_TRUSTED_SUBNETS_def Let_def split: if_splits)
  have all: "e \<in> set (py_split (CHR '','') ?s) \<Longrightarrow> subnet_entry_ok e" for e
  proof -
    assume e: "e \<in> set (py_split (CHR '','') ?s)"
    show "subnet_entry_ok e"
    proof (cases "?s = []")
      case True
      then have "e = []" using e by (simp only: py_split.simps) simp
      then show ?thesis by (simp add: subnet_entry_ok_def py_strip_def)
    qed (use ok e in \<open>auto simp: list_all_iff\<close>)
  qed
  have nets: "get_trusted_networks (a_db a') = parse_networks ?s"
  proof -
    have "d_settings (a_db a') = d_settings (setting_set ''trusted_subnets'' ?s
        (setting_set ''local_bypass_enabled'' (flag (fhas fm ''local_bypass_enabled'')) (a_db a)))"
      using assms by (auto simp: save_local_bypass_def DEFAULT_TRUSTED_SUBNETS_def Let_def split: if_splits)
    from setting_get_cong[OF this] show ?thesis by (simp add: get_trusted_networks_def)
  qed
  have "\<exists>addr. same_family addr n \<and> \<not> in_net addr n" if n: "n \<in> set (parse_networks ?s)" for n
  proof -
    obtain e where "e \<in> set (py_split (CHR '','') ?s)" "ip_network (py_strip e) = Some n"
      using n by (auto simp: set_parse_networks)
    then have "\<not> zero_prefix n" using all[of e] ip_network_empty by (auto simp: subnet_entry_ok_def Let_def)
    then show ?thesis by (rule nonzero_mask_excludes)
  qed
  moreover have "py_strip e = [] \<or> ip_network (py_strip e) \<noteq> None" if "e \<in> set (py_split (CHR '','') ?s)" for e
    using all[OF that] by (auto simp: subnet_entry_ok_def Let_def split: option.splits)
  ultimately show ?thesis using nets by auto
qed

section \<open>Witnesses\<close>

definition desk_admin :: user where
  "desk_admin = sample_user\<lparr>u_id := 2, u_username := ''desk'', u_role_id := 2\<rparr>"

definition office :: app where
  "office = \<lparr>a_db = seeded_db\<lparr>d_users := [site_admin, desk_admin], d_owned := [(''push_webhooks'', 2)]\<rparr>, a_hub = []\<rparr>"

definition office_ctx :: req_ctx where
  "office_ctx = \<lparr>q_in_request = True, q_user = None, q_client_ip = None, q_ts = []\<rparr>"

lemma office_users: "d_users (a_db office) = [site_admin, desk_admin]" by (simp add: office_def)

lemma office_roles: "d_roles (a_db office) = d_roles (seed_roles empty_db)" by (simp add: office_def)

lemma office_rank:
  "role_of (a_db office) site_admin = Some (builtin_role ''super_admin'' ''Super Admin'' 4 all_permissions 1)"
  "role_of (a_db office) desk_admin = Some (builtin_role ''admin'' ''Admin'' 3
     (filter (\<lambda>p. p \<noteq> Can_manage_settings \<and> p \<noteq> Can_manage_credentials) all_permissions) 2)"
  by (simp_all add: role_of_def get_role_def office_roles seeded_roles)
    (simp_all add: builtin_role_def site_admin_def desk_admin_def sample_user_def)

lemma office_ok: "site_ok (a_db office)"
proof -
  have "roles_sound (d_roles (a_db office))"
    by (simp add: roles_sound_def office_roles seeded_roles) (simp add: builtin_role_def sa_role_def)
  moreover have "u_is_active_user site_admin" "is_super_admin (a_db office) site_admin"
    "u_id site_admin = 1" "u_id desk_admin = 2" "u_username site_admin = ''admin''" "u_username desk_admin = ''desk''"
    by (simp_all add: is_super_admin_iff office_rank) (simp_all add: site_admin_def desk_admin_def sample_user_def builtin_role_def)
  ultimately show ?thesis by (simp add: site_ok_def has_active_sa_def office_users)
qed

lemma office_get: "get_user (a_db office) (u_id site_admin) = Some site_admin" "u_is_active_user site_admin"
  "get_user (a_db office) 2 = Some desk_admin" "u_id site_admin = 1"
  by (simp_all add: get_user_def office_users site_admin_def desk_admin_def sample_user_def)

lemma desk_not_sa: "\<not> is_super_admin (a_db office) desk_admin"
  by (simp add: is_super_admin_iff office_rank) (simp add: builtin_role_def)

theorem security_requests_keep_site_ok_witness:
  "site_ok (a_db (snd (security_request site_admin office_ctx (Delete_user 2) office)))"
  by (rule security_requests_keep_site_ok[OF office_ok office_get(1,2)])

theorem no_privilege_escalation_witness:
  "d_roles (a_db (snd (security_request desk_admin office_ctx
     (Edit_user 1 [(''display_name'', ''x''), (''role_id'', ''4'')] ''h'' 0) office))) = d_roles (a_db office)"
  using no_privilege_escalation[OF office_ok desk_not_sa surjective_pairing[symmetric]] by blast

theorem delete_user_outcome_witness:
  "fst (delete_user site_admin 2 office_ctx office) = Crashed \<and>
   a_db (snd (delete_user site_admin 2 office_ctx office)) = a_db office"
proof -
  have "can_edit_user (a_db office) site_admin desk_admin"
    by (simp add: can_edit_user_def is_super_admin_iff office_rank) (simp add: builtin_role_def)
  then have "if (2::int) \<in> snd ` set (d_owned (a_db office))
      then fst (delete_user site_admin 2 office_ctx office) = Crashed \<and>
           a_db (snd (delete_user site_admin 2 office_ctx office)) = a_db office
      else fst (delete_user site_admin 2 office_ctx office) = Done \<and>
           get_user (a_db (snd (delete_user site_admin 2 office_ctx office))) 2 = None \<and>
           2 \<notin> s_user_id ` set (d_sessions (a_db (snd (delete_user site_admin 2 office_ctx office)))) \<and>
           Some 2 \<notin> al_user_id ` set (d_audit (a_db (snd (delete_user site_admin 2 office_ctx office))))"
    using office_get(3,4)
    by (intro delete_user_outcome[where u = desk_admin and cu = site_admin and q = office_ctx]) auto
  then show ?thesis by (simp add: office_def)
qed

theorem save_local_bypass_confined_witness:
  "\<exists>a'. save_local_bypass [(''trusted_subnets'', ''10.0.0.0/8'')] office_ctx office = (Done, a') \<and>
     get_trusted_networks (a_db a') = parse_networks ''10.0.0.0/8''"
proof -
  have net: "ip_network ''10.0.0.0/8'' = Some (mk_net4 167772160 8)"
    by (simp add: ip_network_def split_netmask_def ipv4_address_def parse_v4_def Let_def parse_octet_def code_def
        ascii_digit_def base_value_def v4_prefixlen_def prefix_from_prefix_string_def)
  have strip: "py_strip ''10.0.0.0/8'' = ''10.0.0.0/8''" by (simp add: py_strip_def py_space_def code_def)
  have "\<not> zero_prefix (mk_net4 167772160 8)"
    by (simp add: zero_prefix_def mk_net4_def prefix_mask_def mask_eq_exp_minus_1)
  then have "\<exists>a'. save_local_bypass [(''trusted_subnets'', ''10.0.0.0/8'')] office_ctx office = (Done, a')"
    using net strip by (simp add: save_local_bypass_def fget_def Let_def subnet_entry_ok_def)
  then obtain a' where a': "save_local_bypass [(''trusted_subnets'', ''10.0.0.0/8'')] office_ctx office = (Done, a')" by blast
  from save_local_bypass_confined[OF this] a' strip show ?thesis by (simp add: fget_def)
qed

end
