(* ===== verification/Regex.thy ===== *)
theory Regex
  imports Prelude
begin

text \<open>
  The fragment of Python's \<^verbatim>\<open>re\<close> that the source uses for allow-lists: patterns without
  groups that capture, back-references or look-around, applied with \<^verbatim>\<open>fullmatch\<close>. For these,
  matching is membership in the language of the pattern. The matcher works by derivatives;
  \<open>fullmatch_lang\<close> shows that it decides the language, and \<open>fullmatch_chars\<close> that a matched text
  consists of characters the pattern mentions, the fact that every allow-list of the application
  rests on.
\<close>

section \<open>Patterns and the matcher\<close>

datatype rx = RNone | REps | RChar "char \<Rightarrow> bool" | RSeq rx rx | RAlt rx rx | RStar rx

primrec nullable :: "rx \<Rightarrow> bool" where
  "nullable RNone = False"
| "nullable REps = True"
| "nullable (RChar p) = False"
| "nullable (RSeq r s) = (nullable r \<and> nullable s)"
| "nullable (RAlt r s) = (nullable r \<or> nullable s)"
| "nullable (RStar r) = True"

text \<open>Constructors that keep the derivatives small.\<close>

definition mk_seq :: "rx \<Rightarrow> rx \<Rightarrow> rx" where
  "mk_seq r s = (case r of RNone \<Rightarrow> RNone | REps \<Rightarrow> s | _ \<Rightarrow> RSeq r s)"

definition mk_alt :: "rx \<Rightarrow> rx \<Rightarrow> rx" where
  "mk_alt r s = (case r of RNone \<Rightarrow> s | _ \<Rightarrow> (case s of RNone \<Rightarrow> r | _ \<Rightarrow> RAlt r s))"

primrec deriv :: "char \<Rightarrow> rx \<Rightarrow> rx" where
  "deriv c RNone = RNone"
| "deriv c REps = RNone"
| "deriv c (RChar p) = (if p c then REps else RNone)"
| "deriv c (RSeq r s) =
     (if nullable r then mk_alt (mk_seq (deriv c r) s) (deriv c s) else mk_seq (deriv c r) s)"
| "deriv c (RAlt r s) = mk_alt (deriv c r) (deriv c s)"
| "deriv c (RStar r) = mk_seq (deriv c r) (RStar r)"

fun fullmatch :: "rx \<Rightarrow> string \<Rightarrow> bool" where
  "fullmatch r [] = nullable r"
| "fullmatch r (c # cs) = fullmatch (deriv c r) cs"

section \<open>Pattern notation\<close>

definition r_lit :: "char \<Rightarrow> rx" where "r_lit c = RChar (\<lambda>d. d = c)"

primrec r_str :: "string \<Rightarrow> rx" where
  "r_str [] = REps"
| "r_str (c # cs) = RSeq (r_lit c) (r_str cs)"

definition r_opt :: "rx \<Rightarrow> rx" where "r_opt r = RAlt r REps"

definition r_plus :: "rx \<Rightarrow> rx" where "r_plus r = RSeq r (RStar r)"

text \<open>\<open>r{n}\<close> and \<open>r{0,n}\<close>.\<close>

primrec r_times :: "nat \<Rightarrow> rx \<Rightarrow> rx" where
  "r_times 0 r = REps"
| "r_times (Suc n) r = RSeq r (r_times n r)"

primrec r_upto :: "nat \<Rightarrow> rx \<Rightarrow> rx" where
  "r_upto 0 r = REps"
| "r_upto (Suc n) r = r_opt (RSeq r (r_upto n r))"

primrec r_seqs :: "rx list \<Rightarrow> rx" where
  "r_seqs [] = REps"
| "r_seqs (r # rs) = RSeq r (r_seqs rs)"

text \<open>
  Character classes. \<^verbatim>\<open>\w\<close> on a Python \<^verbatim>\<open>str\<close> is \<^verbatim>\<open>isalnum()\<close> or the underscore,
  which on Latin-1 includes the accented letters, the ordinal signs, the micro sign, the
  superscript digits and the fractions; \<^verbatim>\<open>\d\<close> is the ASCII digits there.
\<close>

definition ascii_upper :: "char \<Rightarrow> bool" where "ascii_upper c \<longleftrightarrow> 65 \<le> code c \<and> code c \<le> 90"
definition ascii_lower :: "char \<Rightarrow> bool" where "ascii_lower c \<longleftrightarrow> 97 \<le> code c \<and> code c \<le> 122"
definition ascii_alpha :: "char \<Rightarrow> bool" where "ascii_alpha c \<longleftrightarrow> ascii_upper c \<or> ascii_lower c"
definition ascii_alnum :: "char \<Rightarrow> bool" where "ascii_alnum c \<longleftrightarrow> ascii_alpha c \<or> ascii_digit c"

definition py_word_char :: "char \<Rightarrow> bool" where
  "py_word_char c \<longleftrightarrow> ascii_alnum c \<or> c = CHR ''_'' \<or>
     code c \<in> {170, 178, 179, 181, 185, 186, 188, 189, 190} \<or>
     192 \<le> code c \<and> code c \<noteq> 215 \<and> code c \<noteq> 247"

definition one_of :: "string \<Rightarrow> char \<Rightarrow> bool" where "one_of cs c \<longleftrightarrow> List.member cs c"

definition cls :: "(char \<Rightarrow> bool) list \<Rightarrow> rx" where
  "cls ps = RChar (\<lambda>c. list_ex (\<lambda>p. p c) ps)"

lemmas class_defs = ascii_upper_def ascii_lower_def ascii_alpha_def ascii_alnum_def ascii_digit_def
  py_word_char_def one_of_def

section \<open>The language of a pattern\<close>

inductive matches :: "rx \<Rightarrow> string \<Rightarrow> bool" where
  m_eps: "matches REps []"
| m_char: "p c \<Longrightarrow> matches (RChar p) [c]"
| m_seq: "matches r u \<Longrightarrow> matches s v \<Longrightarrow> matches (RSeq r s) (u @ v)"
| m_altl: "matches r u \<Longrightarrow> matches (RAlt r s) u"
| m_altr: "matches s u \<Longrightarrow> matches (RAlt r s) u"
| m_star0: "matches (RStar r) []"
| m_star: "matches r u \<Longrightarrow> matches (RStar r) v \<Longrightarrow> matches (RStar r) (u @ v)"

inductive_cases m_noneE: "matches RNone u"
inductive_cases m_epsE: "matches REps u"
inductive_cases m_charE: "matches (RChar p) u"
inductive_cases m_seqE: "matches (RSeq r s) u"
inductive_cases m_altE: "matches (RAlt r s) u"
inductive_cases m_starE: "matches (RStar r) u"

lemma matches_simps [simp]:
  "\<not> matches RNone u" "matches REps u \<longleftrightarrow> u = []"
  "matches (RChar p) u \<longleftrightarrow> (\<exists>c. u = [c] \<and> p c)"
  "matches (RAlt r s) u \<longleftrightarrow> matches r u \<or> matches s u"
  "matches (RSeq r s) u \<longleftrightarrow> (\<exists>v w. u = v @ w \<and> matches r v \<and> matches s w)"
  by (auto intro: matches.intros elim: m_noneE m_epsE m_charE m_altE) (blast elim: m_seqE)

lemma nullable_iff: "nullable r \<longleftrightarrow> matches r []"
  by (induction r) (auto intro: m_star0)

lemma matches_mk_seq [simp]: "matches (mk_seq r s) u \<longleftrightarrow> matches (RSeq r s) u"
  by (cases r) (auto simp: mk_seq_def)

lemma matches_mk_alt [simp]: "matches (mk_alt r s) u \<longleftrightarrow> matches (RAlt r s) u"
  by (cases r; cases s) (auto simp: mk_alt_def)

text \<open>A non-empty match of a repetition starts with a non-empty match of its body.\<close>

lemma star_Cons:
  "matches (RStar r) (c # u) \<longleftrightarrow> (\<exists>v w. u = v @ w \<and> matches r (c # v) \<and> matches (RStar r) w)"
proof
  assume "matches (RStar r) (c # u)"
  then show "\<exists>v w. u = v @ w \<and> matches r (c # v) \<and> matches (RStar r) w"
    by (induction "RStar r" "c # u" arbitrary: r c u rule: matches.induct)
      (metis append_eq_Cons_conv self_append_conv2)
next
  assume "\<exists>v w. u = v @ w \<and> matches r (c # v) \<and> matches (RStar r) w"
  then show "matches (RStar r) (c # u)"
    using m_star[of r "c # _"] by auto
qed

lemma deriv_iff: "matches (deriv c r) u \<longleftrightarrow> matches r (c # u)"
proof (induction r arbitrary: u)
  case (RSeq r s)
  have "matches (RSeq r s) (c # u) \<longleftrightarrow>
      (\<exists>v w. u = v @ w \<and> matches r (c # v) \<and> matches s w) \<or> (matches r [] \<and> matches s (c # u))"
    by (auto simp: Cons_eq_append_conv)
  then show ?case using RSeq by (auto simp: nullable_iff)
next
  case (RStar r)
  then show ?case by (simp add: star_Cons)
qed auto

theorem fullmatch_lang: "fullmatch r u \<longleftrightarrow> matches r u"
  by (induction u arbitrary: r) (simp_all add: nullable_iff deriv_iff)

lemma fullmatch_RNone [simp]: "\<not> fullmatch RNone u"
  by (simp add: fullmatch_lang)

section \<open>The characters of a matched text\<close>

primrec rx_chars :: "rx \<Rightarrow> char \<Rightarrow> bool" where
  "rx_chars RNone c = False"
| "rx_chars REps c = False"
| "rx_chars (RChar p) c = p c"
| "rx_chars (RSeq r s) c = (rx_chars r c \<or> rx_chars s c)"
| "rx_chars (RAlt r s) c = (rx_chars r c \<or> rx_chars s c)"
| "rx_chars (RStar r) c = rx_chars r c"

lemma matches_chars: "matches r u \<Longrightarrow> \<forall>c \<in> set u. rx_chars r c"
  by (induction rule: matches.induct) auto

lemma fullmatch_chars: "fullmatch r u \<Longrightarrow> c \<in> set u \<Longrightarrow> rx_chars r c"
  using matches_chars by (auto simp: fullmatch_lang)

lemma rx_chars_times: "rx_chars (r_times n r) c \<Longrightarrow> rx_chars r c"
  by (induction n) auto

lemma rx_chars_upto: "rx_chars (r_upto n r) c \<Longrightarrow> rx_chars r c"
  by (induction n) (auto simp: r_opt_def)

lemma rx_chars_str: "rx_chars (r_str s) c \<longleftrightarrow> c \<in> set s"
  by (induction s) (auto simp: r_lit_def)

lemma rx_chars_seqs [simp]: "rx_chars (r_seqs rs) c \<longleftrightarrow> (\<exists>r \<in> set rs. rx_chars r c)"
  by (induction rs) auto

lemma rx_chars_simps [simp]:
  "rx_chars (r_lit d) c \<longleftrightarrow> c = d" "rx_chars (r_opt r) c \<longleftrightarrow> rx_chars r c"
  "rx_chars (r_plus r) c \<longleftrightarrow> rx_chars r c" "rx_chars (cls ps) c \<longleftrightarrow> list_ex (\<lambda>p. p c) ps"
  "rx_chars (r_str s) c \<longleftrightarrow> c \<in> set s"
  by (auto simp: r_lit_def r_opt_def r_plus_def cls_def rx_chars_str)

lemma matches_plus_nonempty: "\<not> nullable r \<Longrightarrow> matches (r_plus r) u \<Longrightarrow> u \<noteq> []"
  by (auto simp: r_plus_def nullable_iff)

lemma fullmatch_Nil_plus [simp]: "fullmatch (r_plus (cls ps)) [] = False"
  by (simp add: r_plus_def cls_def)

text \<open>\<open>[class]*\<close> and \<open>[class]+\<close> match exactly the (non-empty) texts over the class.\<close>

lemma matches_star_cls: "matches (RStar (cls ps)) u \<longleftrightarrow> list_all (\<lambda>c. list_ex (\<lambda>p. p c) ps) u"
proof (induction u)
  case Nil
  then show ?case by (simp add: m_star0)
next
  case (Cons c u)
  have "matches (RStar (cls ps)) (c # u) \<longleftrightarrow> list_ex (\<lambda>p. p c) ps \<and> matches (RStar (cls ps)) u"
    by (auto simp: star_Cons cls_def)
  then show ?case using Cons by simp
qed

lemma matches_char_seq: "matches (RSeq (RChar p) s) (c # u) \<longleftrightarrow> p c \<and> matches s u"
  unfolding deriv_iff[symmetric] by (simp add: mk_seq_def)

lemma fullmatch_plus_cls:
  "fullmatch (r_plus (cls ps)) u \<longleftrightarrow> u \<noteq> [] \<and> list_all (\<lambda>c. list_ex (\<lambda>p. p c) ps) u"
proof (cases u)
  case (Cons c v)
  have "matches (r_plus (cls ps)) (c # v) \<longleftrightarrow> list_ex (\<lambda>p. p c) ps \<and> matches (RStar (cls ps)) v"
    unfolding r_plus_def cls_def by (rule matches_char_seq)
  then show ?thesis using Cons by (simp only: fullmatch_lang matches_star_cls) simp
qed (simp add: r_plus_def cls_def)

end
