(* ===== verification/Shell.thy ===== *)
theory Shell
  imports Regex
begin

text \<open>
  What the application sends to a root shell, and what the shell reads. The model side is
  \<^verbatim>\<open>shlex.quote\<close>, \<^verbatim>\<open>base64.b64encode\<close> and \<open>_remote_write_cmd\<close> of
  \<^verbatim>\<open>src/apps/utils.py\<close>. The specification side is \<open>sh_tokens\<close>: token recognition and
  quoting of the POSIX shell (XCU 2.2 and 2.3), for command lines without expansions. Where an
  unquoted character would start an expansion, a comment, an escape or a pattern, or where a quote
  is not closed, \<open>sh_tokens\<close> gives \<^term>\<open>None\<close>; a result \<^term>\<open>Some ts\<close> therefore says that
  the shell takes the line as exactly these words and operators.
\<close>

section \<open>Reading a command line\<close>

datatype sh_tok = Word string | Op string

datatype sh_mode = Plain | Single | Double

definition blank :: "char \<Rightarrow> bool" where "blank c \<longleftrightarrow> c = CHR '' '' \<or> code c = 9"

definition operator_char :: "char \<Rightarrow> bool" where
  "operator_char c \<longleftrightarrow> List.member (CHR 0x0A # '';&|<>()'') c"

text \<open>Unquoted characters that make the shell do something other than take them literally.\<close>

definition active_char :: "char \<Rightarrow> bool" where
  "active_char c \<longleftrightarrow> List.member (CHR 0x5C # ''$`*?[]{}!#^'') c \<or> code c = 0"

definition flush :: "string option \<Rightarrow> sh_tok list \<Rightarrow> sh_tok list" where
  "flush w ts = (case w of None \<Rightarrow> ts | Some s \<Rightarrow> Word s # ts)"

definition grow :: "string option \<Rightarrow> string \<Rightarrow> string option" where
  "grow w s = Some (opt_str w @ s)"

text \<open>The second argument is the word being read, if any.\<close>

fun sh_lex :: "sh_mode \<Rightarrow> string option \<Rightarrow> string \<Rightarrow> sh_tok list option" where
  "sh_lex Plain w [] = Some (flush w [])"
| "sh_lex Single w [] = None"
| "sh_lex Double w [] = None"
| "sh_lex Plain w (c # cs) =
     (if blank c then map_option (flush w) (sh_lex Plain None cs)
      else if operator_char c then
        (if cs \<noteq> [] \<and> hd cs = c \<and> List.member '';&|<>'' c
         then map_option (flush w \<circ> (#) (Op [c, c])) (sh_lex Plain None (tl cs))
         else map_option (flush w \<circ> (#) (Op [c])) (sh_lex Plain None cs))
      else if c = CHR 0x27 then sh_lex Single (grow w []) cs
      else if c = CHR 0x22 then sh_lex Double (grow w []) cs
      else if active_char c \<or> c = CHR ''~'' \<and> w = None then None
      else sh_lex Plain (grow w [c]) cs)"
| "sh_lex Single w (c # cs) =
     (if c = CHR 0x27 then sh_lex Plain w cs
      else if code c = 0 then None
      else sh_lex Single (grow w [c]) cs)"
| "sh_lex Double w (c # cs) =
     (if c = CHR 0x22 then sh_lex Plain w cs
      else if code c = 0 \<or> List.member (CHR 0x5C # ''$`'') c then None
      else sh_lex Double (grow w [c]) cs)"

lemmas sh_step = sh_lex.simps
declare sh_lex.simps [simp del]

definition sh_tokens :: "string \<Rightarrow> sh_tok list option" where
  "sh_tokens s = sh_lex Plain None s"

section \<open>shlex.quote\<close>

definition shlex_safe :: "char \<Rightarrow> bool" where
  "shlex_safe c \<longleftrightarrow> ascii_alnum c \<or> List.member ''_@%+=:,./-'' c"

text \<open>\<^verbatim>\<open>s.replace("'", "'\"'\"'")\<close>\<close>

primrec quote_body :: "string \<Rightarrow> string" where
  "quote_body [] = []"
| "quote_body (c # cs) =
     (if c = CHR 0x27 then [CHR 0x27, CHR 0x22, CHR 0x27, CHR 0x22, CHR 0x27] else [c]) @ quote_body cs"

definition shlex_quote :: "string \<Rightarrow> string" where
  "shlex_quote s =
     (if s = [] then [CHR 0x27, CHR 0x27]
      else if list_all shlex_safe s then s
      else CHR 0x27 # quote_body s @ [CHR 0x27])"

section \<open>base64\<close>

text \<open>\<^verbatim>\<open>content.encode("utf-8")\<close>, the bytes as numbers.\<close>

definition utf8 :: "string \<Rightarrow> nat list" where
  "utf8 s = concat (map (\<lambda>c. let n = code c in
     if n < 128 then [n] else [192 + n div 64, 128 + n mod 64]) s)"

fun un_utf8 :: "nat list \<Rightarrow> string" where
  "un_utf8 [] = []"
| "un_utf8 (n # ns) =
     (if n < 128 then char_of n # un_utf8 ns
      else case ns of [] \<Rightarrow> [] | m # ms \<Rightarrow> char_of ((n - 192) * 64 + (m - 128)) # un_utf8 ms)"

definition b64_alphabet :: string where
  "b64_alphabet = ''ABCDEFGHIJKLMNOPQRSTUVWXYZabcdefghijklmnopqrstuvwxyz0123456789+/''"

definition b64_char :: "nat \<Rightarrow> char" where "b64_char n = b64_alphabet ! n"

fun b64encode :: "nat list \<Rightarrow> string" where
  "b64encode [] = []"
| "b64encode [a] = [b64_char (a div 4), b64_char (a mod 4 * 16), CHR ''='', CHR ''='']"
| "b64encode [a, b] =
     [b64_char (a div 4), b64_char (a mod 4 * 16 + b div 16), b64_char (b mod 16 * 4), CHR ''='']"
| "b64encode (a # b # c # r) =
     [b64_char (a div 4), b64_char (a mod 4 * 16 + b div 16), b64_char (b mod 16 * 4 + c div 64),
      b64_char (c mod 64)] @ b64encode r"

text \<open>What \<^verbatim>\<open>base64 -d\<close> does on the managed host (RFC 4648).\<close>

definition b64_val :: "char \<Rightarrow> nat" where
  "b64_val c = length (takeWhile (\<lambda>d. d \<noteq> c) b64_alphabet)"

fun b64decode :: "string \<Rightarrow> nat list" where
  "b64decode (p # q # r # s # rest) =
     (if r = CHR ''='' then [b64_val p * 4 + b64_val q div 16]
      else if s = CHR ''='' then
        [b64_val p * 4 + b64_val q div 16, b64_val q mod 16 * 16 + b64_val r div 4]
      else [b64_val p * 4 + b64_val q div 16, b64_val q mod 16 * 16 + b64_val r div 4,
            b64_val r mod 4 * 64 + b64_val s]) @ b64decode rest"
| "b64decode _ = []"

section \<open>Remote file writes\<close>

definition truthy_str :: "string option \<Rightarrow> bool" where "truthy_str s \<longleftrightarrow> opt_str s \<noteq> []"

definition remote_write_cmd ::
  "string \<Rightarrow> string \<Rightarrow> string option \<Rightarrow> string option \<Rightarrow> string option \<Rightarrow> bool \<Rightarrow> string" where
  "remote_write_cmd path content mode owner grp append_mode =
     (let b64 = b64encode (utf8 content);
          target = shlex_quote path;
          pipe = ''echo '' @ b64 @ '' | base64 -d''
      in if append_mode then pipe @ '' >> '' @ target
         else if truthy_str mode \<or> truthy_str owner then
           pipe @ '' | install'' @
           (if truthy_str mode then '' -m '' @ shlex_quote (opt_str mode) else []) @
           (if truthy_str owner
            then '' -o '' @ shlex_quote (opt_str owner) @ '' -g '' @
                 shlex_quote (if truthy_str grp then opt_str grp else opt_str owner)
            else []) @
           '' /dev/stdin '' @ target
         else pipe @ '' > '' @ target)"

section \<open>Quoting is read back\<close>

lemma lex_literal:
  assumes "list_all (\<lambda>c. \<not> blank c \<and> \<not> operator_char c \<and> \<not> active_char c \<and>
                          c \<noteq> CHR 0x27 \<and> c \<noteq> CHR 0x22 \<and> c \<noteq> CHR ''~'') s"
    and "s \<noteq> []"
  shows "sh_lex Plain w (s @ rest) = sh_lex Plain (grow w s) rest"
  using assms
proof (induction s arbitrary: w)
  case (Cons c s)
  then show ?case by (cases "s = []") (auto simp: sh_step grow_def opt_str_def)
qed simp

lemma shlex_safe_literal:
  "shlex_safe c \<Longrightarrow> \<not> blank c \<and> \<not> operator_char c \<and> \<not> active_char c \<and>
     c \<noteq> CHR 0x27 \<and> c \<noteq> CHR 0x22 \<and> c \<noteq> CHR ''~''"
  by (auto simp: shlex_safe_def blank_def operator_char_def active_char_def class_defs code_def)

definition no_nul :: "string \<Rightarrow> bool" where "no_nul s \<longleftrightarrow> list_all (\<lambda>c. code c \<noteq> 0) s"

lemma lex_quote_body:
  assumes "no_nul s"
  shows "sh_lex Single (Some w) (quote_body s @ CHR 0x27 # rest) = sh_lex Plain (Some (w @ s)) rest"
  using assms
proof (induction s arbitrary: w)
  case (Cons c s)
  have n: "code c \<noteq> 0" "no_nul s" using Cons.prems by (simp_all add: no_nul_def)
  have ops: "\<not> blank (CHR 0x27)" "\<not> operator_char (CHR 0x27)" "\<not> blank (CHR 0x22)" "\<not> operator_char (CHR 0x22)"
    by (simp_all add: blank_def operator_char_def code_def)
  show ?case
    using Cons.IH[OF n(2), of "w @ [c]"] n ops
    by (cases "c = CHR 0x27") (simp_all add: sh_step grow_def opt_str_def)
qed (simp add: sh_step)

lemma lex_quote:
  assumes "no_nul s"
  shows "sh_lex Plain w (shlex_quote s @ rest) = sh_lex Plain (grow w s) rest"
proof -
  have ops: "\<not> blank (CHR 0x27)" "\<not> operator_char (CHR 0x27)"
    by (simp_all add: blank_def operator_char_def code_def)
  show ?thesis
  proof (cases "s \<noteq> [] \<and> list_all shlex_safe s")
    case True
    then have "list_all (\<lambda>c. \<not> blank c \<and> \<not> operator_char c \<and> \<not> active_char c \<and>
                          c \<noteq> CHR 0x27 \<and> c \<noteq> CHR 0x22 \<and> c \<noteq> CHR ''~'') s"
      using shlex_safe_literal by (simp add: list_all_iff)
    then show ?thesis using True lex_literal by (simp add: shlex_quote_def)
  next
    case False
    then show ?thesis
      using lex_quote_body[OF assms, of "opt_str w" rest] ops
      by (cases "s = []") (auto simp: shlex_quote_def grow_def opt_str_def sh_step)
  qed
qed

section \<open>Joining words by blanks and operators\<close>

lemma lex_blank [simp]: "sh_lex Plain w (CHR '' '' # cs) = map_option (flush w) (sh_lex Plain None cs)"
  by (simp add: blank_def sh_step)

lemma lex_end [simp]: "sh_lex Plain w [] = Some (flush w [])"
  by (simp add: sh_step)

lemma quote_word:
  "no_nul s \<Longrightarrow> sh_lex Plain None (shlex_quote s @ CHR '' '' # cs) = map_option ((#) (Word s)) (sh_lex Plain None cs)"
  by (simp only: lex_quote lex_blank)
    (cases "sh_lex Plain None cs"; simp add: grow_def flush_def opt_str_def)

lemma quote_last: "no_nul s \<Longrightarrow> sh_lex Plain None (shlex_quote s) = Some [Word s]"
  using lex_quote[of s None "[]"] by (simp add: grow_def flush_def opt_str_def)

lemma lex_word:
  assumes "list_all shlex_safe s" "s \<noteq> []"
  shows "sh_lex Plain None (s @ CHR '' '' # cs) = map_option ((#) (Word s)) (sh_lex Plain None cs)"
proof -
  have "sh_lex Plain None (s @ CHR '' '' # cs) = sh_lex Plain (grow None s) (CHR '' '' # cs)"
    using assms shlex_safe_literal by (intro lex_literal) (simp_all add: list_all_iff)
  then show ?thesis by (cases "sh_lex Plain None cs") (simp_all add: grow_def flush_def opt_str_def)
qed

lemma safe_words:
  "list_all shlex_safe ''echo''" "list_all shlex_safe ''base64''" "list_all shlex_safe ''-d''"
  "list_all shlex_safe ''install''" "list_all shlex_safe ''-m''" "list_all shlex_safe ''-o''"
  "list_all shlex_safe ''-g''" "list_all shlex_safe ''/dev/stdin''"
  by (simp_all add: shlex_safe_def class_defs code_def)

lemmas lex_words = safe_words[THEN lex_word, simplified]

lemma lex_ops:
  "sh_lex Plain None (CHR ''|'' # CHR '' '' # cs) = map_option ((#) (Op ''|'')) (sh_lex Plain None cs)"
  "sh_lex Plain None (CHR ''>'' # CHR '' '' # cs) = map_option ((#) (Op ''>'')) (sh_lex Plain None cs)"
  "sh_lex Plain None (CHR ''>'' # CHR ''>'' # CHR '' '' # cs) = map_option ((#) (Op ''>>'')) (sh_lex Plain None cs)"
  by (cases "sh_lex Plain None cs"; simp add: sh_step blank_def operator_char_def flush_def code_def)+

section \<open>base64 is read back\<close>

lemma b64_length [simp]: "length b64_alphabet = 64"
  by (simp add: b64_alphabet_def)

lemma b64_alphabet_safe: "list_all shlex_safe (CHR ''='' # b64_alphabet)"
  by (simp add: b64_alphabet_def shlex_safe_def class_defs code_def)

lemma b64_char_in: "n < 64 \<Longrightarrow> b64_char n \<in> set b64_alphabet"
  unfolding b64_char_def by (rule nth_mem) simp

lemma b64_char_safe: "n < 64 \<Longrightarrow> shlex_safe (b64_char n)"
  using b64_alphabet_safe b64_char_in by (auto simp: list_all_iff)

lemma b64_distinct: "distinct b64_alphabet"
  by (simp add: b64_alphabet_def)

lemma length_takeWhile_nth:
  "distinct xs \<Longrightarrow> i < length xs \<Longrightarrow> length (takeWhile (\<lambda>d. d \<noteq> xs ! i) xs) = i"
proof (induction xs arbitrary: i)
  case (Cons x xs)
  then show ?case by (cases i) (auto simp: nth_mem)
qed simp

lemma b64_val_char [simp]: "n < 64 \<Longrightarrow> b64_val (b64_char n) = n"
  by (simp add: b64_val_def b64_char_def length_takeWhile_nth b64_distinct)

lemma b64_char_not_pad [simp]: "n < 64 \<Longrightarrow> b64_char n \<noteq> CHR ''=''"
  using b64_char_in[of n] by (auto simp: b64_alphabet_def)

text \<open>The four six-bit groups of three bytes, and back.\<close>

lemma sextets:
  fixes a b c :: nat
  shows "a < 256 \<Longrightarrow> a div 4 < 64" "a mod 4 * 16 < 64" "b < 256 \<Longrightarrow> a mod 4 * 16 + b div 16 < 64"
    "b mod 16 * 4 < 64" "c < 256 \<Longrightarrow> b mod 16 * 4 + c div 64 < 64" "c mod 64 < 64"
  by auto

lemma octets:
  fixes a b c :: nat
  shows "b < 256 \<Longrightarrow> (a mod 4 * 16 + b div 16) div 16 = a mod 4"
    "b < 256 \<Longrightarrow> (a mod 4 * 16 + b div 16) mod 16 = b div 16" "a mod 4 * 16 div 16 = a mod 4"
    "c < 256 \<Longrightarrow> (b mod 16 * 4 + c div 64) div 4 = b mod 16" "b mod 16 * 4 div 4 = b mod 16"
    "c < 256 \<Longrightarrow> (b mod 16 * 4 + c div 64) mod 4 = c div 64"
  by auto

lemma high_parts:
  fixes b c :: nat
  shows "b < 256 \<Longrightarrow> b div 16 div 16 = 0" "b < 256 \<Longrightarrow> b div 16 mod 16 = b div 16"
    "c < 256 \<Longrightarrow> c div 64 div 4 = 0" "c < 256 \<Longrightarrow> c div 64 mod 4 = c div 64"
  by auto

lemma b64_roundtrip: "list_all (\<lambda>b. b < 256) bs \<Longrightarrow> b64decode (b64encode bs) = bs"
  by (induction bs rule: b64encode.induct) (simp_all add: sextets octets high_parts)

lemma b64_safe: "list_all (\<lambda>b. b < 256) bs \<Longrightarrow> list_all shlex_safe (b64encode bs)"
  by (induction bs rule: b64encode.induct)
    (simp_all add: b64_char_safe sextets, simp_all add: shlex_safe_def)

lemma b64encode_Nil_iff [simp]: "b64encode bs = [] \<longleftrightarrow> bs = []"
  by (cases bs rule: b64encode.cases) auto

lemma code_less [simp]: "code c < 256"
  unfolding code_def by (cases c) (simp add: of_char_Char)

lemma utf8_bytes: "list_all (\<lambda>b. b < 256) (utf8 s)"
proof -
  have "192 + code c div 64 < 256" "128 + code c mod 64 < 256" for c
    using div_le_mono[OF less_imp_le[OF code_less[of c]], of 64] by (simp_all, linarith?)
  then show ?thesis by (auto simp: utf8_def list_all_iff Let_def split: if_splits)
qed

lemma utf8_Cons:
  "utf8 (c # s) = (if code c < 128 then [code c] else [192 + code c div 64, 128 + code c mod 64]) @ utf8 s"
  by (simp add: utf8_def Let_def)

lemma utf8_roundtrip: "un_utf8 (utf8 s) = s"
proof (induction s)
  case (Cons c s)
  have "code c div 64 * 64 + code c mod 64 = code c" by simp
  then show ?case using Cons by (auto simp: utf8_Cons code_def)
qed (simp add: utf8_def)

lemma utf8_Nil_iff [simp]: "utf8 s = [] \<longleftrightarrow> s = []"
  by (cases s) (auto simp: utf8_Cons, simp add: utf8_def)

section \<open>Properties\<close>

text \<open>The words of the part of the command that decodes the content.\<close>

definition write_pipe_words :: "string \<Rightarrow> sh_tok list" where
  "write_pipe_words content =
     [Word ''echo''] @ (if content = [] then [] else [Word (b64encode (utf8 content))]) @
     [Op ''|'', Word ''base64'', Word ''-d'']"

text \<open>The words after the pipe: which file is written, how, with which mode and owner.\<close>

definition write_target_words ::
  "string \<Rightarrow> string option \<Rightarrow> string option \<Rightarrow> string option \<Rightarrow> bool \<Rightarrow> sh_tok list" where
  "write_target_words path mode owner grp append_mode =
     (if append_mode then [Op ''>>'', Word path]
      else if truthy_str mode \<or> truthy_str owner then
        [Op ''|'', Word ''install''] @
        (if truthy_str mode then [Word ''-m'', Word (opt_str mode)] else []) @
        (if truthy_str owner then [Word ''-o'', Word (opt_str owner), Word ''-g'',
           Word (if truthy_str grp then opt_str grp else opt_str owner)] else []) @
        [Word ''/dev/stdin'', Word path]
      else [Op ''>'', Word path])"

lemma lex_pipe:
  "sh_lex Plain None (''echo '' @ b64encode (utf8 content) @ '' | base64 -d '' @ cs) =
     map_option ((@) (write_pipe_words content)) (sh_lex Plain None cs)"
proof -
  have tail: "sh_lex Plain None (''| base64 -d '' @ cs) =
      map_option ((@) [Op ''|'', Word ''base64'', Word ''-d'']) (sh_lex Plain None cs)"
    by (cases "sh_lex Plain None cs") (simp_all add: lex_ops lex_words)
  show ?thesis
  proof (cases "content = []")
    case True
    then show ?thesis using tail
      by (cases "sh_lex Plain None cs") (simp_all add: lex_words write_pipe_words_def flush_def utf8_def)
  next
    case False
    have "sh_lex Plain None (b64encode (utf8 content) @ CHR '' '' # (''| base64 -d '' @ cs)) =
      map_option ((#) (Word (b64encode (utf8 content)))) (sh_lex Plain None (''| base64 -d '' @ cs))"
      by (rule lex_word) (simp_all add: b64_safe utf8_bytes False)
    then show ?thesis using tail False
      by (cases "sh_lex Plain None cs") (simp_all add: lex_words write_pipe_words_def)
  qed
qed

lemma lex_target:
  assumes "no_nul path" "no_nul (opt_str mode)" "no_nul (opt_str owner)" "no_nul (opt_str grp)"
  shows "sh_lex Plain None
     (if append_mode then ''>> '' @ shlex_quote path
      else if truthy_str mode \<or> truthy_str owner then
        ''| install '' @
        (if truthy_str mode then ''-m '' @ shlex_quote (opt_str mode) @ '' '' else []) @
        (if truthy_str owner
         then ''-o '' @ shlex_quote (opt_str owner) @ '' -g '' @
              shlex_quote (if truthy_str grp then opt_str grp else opt_str owner) @ '' '' else []) @
        ''/dev/stdin '' @ shlex_quote path
      else ''> '' @ shlex_quote path) =
     Some (write_target_words path mode owner grp append_mode)"
  using assms
  by (cases "truthy_str mode"; cases "truthy_str owner"; cases append_mode)
    (simp_all add: write_target_words_def lex_ops lex_words quote_word quote_last)

text \<open>
  C24. A remote file write cannot be broken out of. Whatever the file body is, and whatever the path,
  mode, owner and group are (without a NUL character, which a command line cannot carry), the shell
  reads the command as exactly one \<^verbatim>\<open>echo\<close> of the base64 text piped into \<^verbatim>\<open>base64 -d\<close> and
  then the redirection, or \<^verbatim>\<open>install\<close> with its options, on exactly the given path; and what
  \<^verbatim>\<open>base64 -d\<close> produces from that text is the UTF-8 of the body, which decodes to it.
\<close>

theorem remote_write_exact:
  assumes "no_nul path" "no_nul (opt_str mode)" "no_nul (opt_str owner)" "no_nul (opt_str grp)"
  shows "sh_tokens (remote_write_cmd path content mode owner grp append_mode) =
           Some (write_pipe_words content @ write_target_words path mode owner grp append_mode) \<and>
         un_utf8 (b64decode (b64encode (utf8 content))) = content"
proof -
  have "remote_write_cmd path content mode owner grp append_mode =
    ''echo '' @ b64encode (utf8 content) @ '' | base64 -d '' @
    (if append_mode then ''>> '' @ shlex_quote path
      else if truthy_str mode \<or> truthy_str owner then
        ''| install '' @
        (if truthy_str mode then ''-m '' @ shlex_quote (opt_str mode) @ '' '' else []) @
        (if truthy_str owner
         then ''-o '' @ shlex_quote (opt_str owner) @ '' -g '' @
              shlex_quote (if truthy_str grp then opt_str grp else opt_str owner) @ '' '' else []) @
        ''/dev/stdin '' @ shlex_quote path
      else ''> '' @ shlex_quote path)"
    by (auto simp: remote_write_cmd_def Let_def)
  then show ?thesis
    by (simp only: sh_tokens_def lex_pipe lex_target[OF assms] b64_roundtrip[OF utf8_bytes] utf8_roundtrip)
      simp
qed

theorem remote_write_exact_witness:
  "sh_tokens (remote_write_cmd ''/etc/a b'' ''x'' (Some ''0600'') (Some ''bob'') None False) =
     Some [Word ''echo'', Word ''eA=='', Op ''|'', Word ''base64'', Word ''-d'', Op ''|'', Word ''install'',
       Word ''-m'', Word ''0600'', Word ''-o'', Word ''bob'', Word ''-g'', Word ''bob'',
       Word ''/dev/stdin'', Word ''/etc/a b'']"
  using remote_write_exact[of "''/etc/a b''" "Some ''0600''" "Some ''bob''" None "''x''" False]
  by (simp add: no_nul_def code_def opt_str_def write_pipe_words_def write_target_words_def
      truthy_str_def utf8_def b64_char_def b64_alphabet_def)

end
