(* ===== verification/App_Utils.thy ===== *)
theory App_Utils
  imports Shell
begin

text \<open>
  The helpers every application module shares (\<^verbatim>\<open>src/apps/utils.py\<close>): the allow-list
  validators for values that end up in a root shell, the verified release download, the excerpting
  of command output, version comparison, the background-job tracker, and the per-application
  upgrade lock together with its two clients, the manual upgrade route and the scheduled
  auto-upgrade.
\<close>

section \<open>The patterns\<close>

definition w_class :: "string \<Rightarrow> rx" where
  "w_class extra = cls [py_word_char, one_of extra]"

definition r_digit :: rx where "r_digit = cls [ascii_digit]"

definition SHELL_SAFE_RE :: rx where "SHELL_SAFE_RE = r_plus (w_class ''.-/:~'')"

text \<open>\<open>[a-zA-Z0-9]([a-zA-Z0-9\-]{0,61}[a-zA-Z0-9])?\<close>\<close>

definition r_label :: rx where
  "r_label = RSeq (cls [ascii_alnum])
     (r_opt (RSeq (r_upto 61 (cls [ascii_alnum, one_of ''-''])) (cls [ascii_alnum])))"

definition HOSTNAME_RE :: rx where
  "HOSTNAME_RE = RSeq r_label (RStar (RSeq (r_lit CHR ''.'') r_label))"

text \<open>\<open>25[0-5]|2[0-4]\d|[01]?\d\d?\<close>\<close>

definition r_octet :: rx where
  "r_octet = RAlt (r_seqs [r_lit CHR ''2'', r_lit CHR ''5'', cls [one_of ''012345'']])
     (RAlt (r_seqs [r_lit CHR ''2'', cls [one_of ''01234''], r_digit])
           (r_seqs [r_opt (cls [one_of ''01'']), r_digit, r_opt r_digit]))"

definition IP_RE :: rx where
  "IP_RE = RSeq (r_times 3 (RSeq r_octet (r_lit CHR ''.''))) r_octet"

definition EMAIL_RE :: rx where
  "EMAIL_RE = r_seqs [r_plus (cls [ascii_alnum, one_of ''._%+-'']), r_lit CHR ''@'',
     r_plus (cls [ascii_alnum, one_of ''.-'']), r_lit CHR ''.'',
     cls [ascii_alpha], r_plus (cls [ascii_alpha])]"

definition SAFE_FILENAME_RE :: rx where "SAFE_FILENAME_RE = r_plus (w_class ''.-'')"

definition ABS_PATH_RE :: rx where
  "ABS_PATH_RE = r_seqs [r_lit CHR ''/'', RStar (w_class ''.-/''), w_class ''.-'']"

definition USERNAME_RE :: rx where
  "USERNAME_RE = RSeq (cls [ascii_alpha, one_of ''_'']) (r_upto 31 (cls [ascii_alnum, one_of ''_.-'']))"

definition DB_NAME_RE :: rx where
  "DB_NAME_RE = RSeq (cls [ascii_alpha, one_of ''_'']) (r_upto 62 (cls [ascii_alnum, one_of ''_$'']))"

definition GIT_BRANCH_RE :: rx where
  "GIT_BRANCH_RE = RSeq (cls [ascii_alnum]) (r_upto 127 (w_class ''.-/''))"

definition GIT_REPO_RE :: rx where
  "GIT_REPO_RE = r_seqs [r_plus (w_class ''.-''), r_lit CHR ''/'', r_plus (w_class ''.-'')]"

text \<open>\<open>v?\d+(\.\d+){1,3}([-.\w]*)\<close>\<close>

definition RELEASE_TAG_RE :: rx where
  "RELEASE_TAG_RE = r_seqs [r_opt (r_lit CHR ''v''), r_plus r_digit,
     RSeq (r_lit CHR ''.'') (r_plus r_digit), r_upto 2 (RSeq (r_lit CHR ''.'') (r_plus r_digit)),
     RStar (w_class ''-.'')]"

definition HTTP_URL_RE :: rx where
  "HTTP_URL_RE = r_seqs [r_str ''http'', r_opt (r_lit CHR ''s''), r_str ''://'', r_label,
     RStar (RSeq (r_lit CHR ''.'') r_label),
     r_opt (r_seqs [r_lit CHR '':'', r_digit, r_upto 4 r_digit]),
     r_opt (RSeq (r_lit CHR ''/'') (RStar (w_class ''.-~/'')))]"

definition CONTROL_CHAR :: "char \<Rightarrow> bool" where
  "CONTROL_CHAR c \<longleftrightarrow> code c \<le> 31 \<or> code c = 127"

section \<open>The validators\<close>

text \<open>A raised \<^verbatim>\<open>ValueError\<close>, by what its message says of the label and the value.\<close>

datatype value_error =
    Is_empty string | Unsafe_chars string string | Control_chars string
  | Not_valid string string string | Is_root string | Not_absolute string string
  | Has_dotdot string string | Too_many_parts string string

definition validate_shell_param :: "string \<Rightarrow> string \<Rightarrow> value_error + unit" where
  "validate_shell_param value label =
     (if value = [] then Inl (Is_empty label)
      else if \<not> fullmatch SHELL_SAFE_RE value then Inl (Unsafe_chars label value)
      else Inr ())"

definition validate_no_control_chars :: "string option \<Rightarrow> string \<Rightarrow> value_error + unit" where
  "validate_no_control_chars value label =
     (case value of None \<Rightarrow> Inr ()
      | Some v \<Rightarrow> if list_ex CONTROL_CHAR v then Inl (Control_chars label) else Inr ())"

definition validate_hostname :: "string \<Rightarrow> string \<Rightarrow> value_error + unit" where
  "validate_hostname value label =
     (if value = [] then Inl (Is_empty label)
      else if length value > 253 \<or> \<not> fullmatch HOSTNAME_RE value
      then Inl (Not_valid ''hostname'' label value)
      else Inr ())"

definition validate_ipv4 :: "string \<Rightarrow> string \<Rightarrow> value_error + unit" where
  "validate_ipv4 value label =
     (if value = [] then Inl (Is_empty label)
      else if \<not> fullmatch IP_RE value then Inl (Not_valid ''IPv4 address'' label value)
      else Inr ())"

definition validate_email :: "string \<Rightarrow> string \<Rightarrow> value_error + unit" where
  "validate_email value label =
     (if value = [] then Inl (Is_empty label)
      else if length value > 254 \<or> \<not> fullmatch EMAIL_RE value
      then Inl (Not_valid ''email address'' label value)
      else Inr ())"

definition validate_http_url :: "string \<Rightarrow> string \<Rightarrow> value_error + unit" where
  "validate_http_url value label =
     (if value = [] then Inl (Is_empty label)
      else if length value > 2048 \<or> \<not> fullmatch HTTP_URL_RE value
      then Inl (Not_valid ''http(s) URL'' label value)
      else Inr ())"

definition validate_abs_path :: "string \<Rightarrow> string \<Rightarrow> value_error + unit" where
  "validate_abs_path value label =
     (if value = [] then Inl (Is_empty label)
      else if value = ''/'' then Inl (Is_root label)
      else if \<not> fullmatch ABS_PATH_RE value then Inl (Not_absolute label value)
      else if List.member (py_split CHR ''/'' value) ''..'' then Inl (Has_dotdot label value)
      else Inr ())"

definition validate_username :: "string \<Rightarrow> string \<Rightarrow> value_error + unit" where
  "validate_username value label =
     (if value = [] then Inl (Is_empty label)
      else if \<not> fullmatch USERNAME_RE value then Inl (Not_valid ''user name'' label value)
      else Inr ())"

definition validate_db_name :: "string \<Rightarrow> string \<Rightarrow> value_error + unit" where
  "validate_db_name value label =
     (if value = [] then Inl (Is_empty label)
      else if \<not> fullmatch DB_NAME_RE value then Inl (Not_valid ''database name'' label value)
      else Inr ())"

text \<open>\<^verbatim>\<open>".." in value\<close>\<close>

fun has_dotdot :: "string \<Rightarrow> bool" where
  "has_dotdot (a # b # cs) \<longleftrightarrow> a = CHR ''.'' \<and> b = CHR ''.'' \<or> has_dotdot (b # cs)"
| "has_dotdot _ \<longleftrightarrow> False"

definition validate_git_branch :: "string \<Rightarrow> string \<Rightarrow> value_error + unit" where
  "validate_git_branch value label =
     (if value = [] then Inl (Is_empty label)
      else if \<not> fullmatch GIT_BRANCH_RE value \<or> has_dotdot value
      then Inl (Not_valid ''git branch name'' label value)
      else Inr ())"

definition validate_git_repo :: "string \<Rightarrow> string \<Rightarrow> value_error + unit" where
  "validate_git_repo value label =
     (if value = [] then Inl (Is_empty label)
      else if \<not> fullmatch GIT_REPO_RE value \<or> has_dotdot value
      then Inl (Not_valid ''owner/repo'' label value)
      else Inr ())"

definition validate_release_tag :: "string \<Rightarrow> string \<Rightarrow> value_error + unit" where
  "validate_release_tag value label =
     (if value = [] then Inl (Is_empty label)
      else if length value > 64 \<or> \<not> fullmatch RELEASE_TAG_RE value
      then Inl (Not_valid ''version'' label value)
      else Inr ())"

definition validate_safe_filename :: "bool \<Rightarrow> string \<Rightarrow> string \<Rightarrow> value_error + unit" where
  "validate_safe_filename allow_subdir value label =
     (if value = [] then Inl (Is_empty label)
      else let parts = py_split CHR ''/'' value in
        if length parts > (if allow_subdir then 2 else 1) then Inl (Too_many_parts label value)
        else if list_ex (\<lambda>part. \<not> fullmatch SAFE_FILENAME_RE part \<or> part = ''.'' \<or> part = ''..'') parts
        then Inl (Not_valid ''file name'' label value)
        else Inr ())"

section \<open>Validated values are inert in a shell\<close>

text \<open>Characters the shell takes literally wherever they stand, and the tilde.\<close>

definition inert_char :: "char \<Rightarrow> bool" where
  "inert_char c \<longleftrightarrow> py_word_char c \<or> List.member ''.-/:@%+'' c"

lemma inert_char_literal:
  "inert_char c \<Longrightarrow> \<not> blank c \<and> \<not> operator_char c \<and> \<not> active_char c \<and>
     c \<noteq> CHR 0x27 \<and> c \<noteq> CHR 0x22 \<and> c \<noteq> CHR ''~''"
  by (auto simp: inert_char_def blank_def operator_char_def active_char_def class_defs code_def)

lemma tilde_literal:
  "\<not> blank CHR ''~'' \<and> \<not> operator_char CHR ''~'' \<and> \<not> active_char CHR ''~''"
  by (simp add: blank_def operator_char_def active_char_def code_def)

text \<open>A word of inert characters and tildes, a tilde not at its start, is read as itself.\<close>

lemma lex_inert_rest:
  "list_all (\<lambda>c. inert_char c \<or> c = CHR ''~'') s \<Longrightarrow> sh_lex Plain (Some w) s = Some [Word (w @ s)]"
proof (induction s arbitrary: w)
  case (Cons c s)
  then have "inert_char c \<or> c = CHR ''~''" by simp
  then have "sh_lex Plain (Some w) (c # s) = sh_lex Plain (Some (w @ [c])) s"
    using inert_char_literal[of c] tilde_literal by (elim disjE) (simp_all add: sh_step grow_def opt_str_def)
  then show ?case using Cons by simp
qed (simp add: flush_def)

lemma inert_word:
  assumes "list_all (\<lambda>c. inert_char c \<or> c = CHR ''~'') s" "s \<noteq> []" "hd s \<noteq> CHR ''~''"
  shows "sh_tokens s = Some [Word s]"
proof (cases s)
  case (Cons c t)
  then have "sh_lex Plain None (c # t) = sh_lex Plain (Some [c]) t"
    using assms inert_char_literal[of c] by (auto simp: sh_step grow_def opt_str_def)
  then show ?thesis using assms Cons lex_inert_rest[of t "[c]"] by (simp add: sh_tokens_def)
qed (use assms in simp)

lemma fullmatch_inert:
  assumes "fullmatch r s" "\<And>c. rx_chars r c \<Longrightarrow> inert_char c" "s \<noteq> []"
  shows "sh_tokens s = Some [Word s]"
proof (rule inert_word)
  show "list_all (\<lambda>c. inert_char c \<or> c = CHR ''~'') s"
    using assms fullmatch_chars by (auto simp: list_all_iff)
  show "hd s \<noteq> CHR ''~''"
    using assms fullmatch_chars[OF assms(1), of "hd s"] inert_char_literal[of "hd s"] by auto
qed (rule assms)

lemma w_class_chars [simp]: "rx_chars (w_class e) c \<longleftrightarrow> py_word_char c \<or> c \<in> set e"
  by (simp add: w_class_def one_of_def)

lemma ascii_word: "ascii_alnum c \<Longrightarrow> inert_char c" "ascii_alpha c \<Longrightarrow> inert_char c" "ascii_digit c \<Longrightarrow> inert_char c"
  by (auto simp: inert_char_def py_word_char_def ascii_alnum_def)

lemma r_label_chars: "rx_chars r_label c \<Longrightarrow> inert_char c"
  by (auto simp: r_label_def ascii_word one_of_def dest!: rx_chars_upto) (auto simp: inert_char_def)

lemma pattern_chars:
  "rx_chars HOSTNAME_RE c \<Longrightarrow> inert_char c" "rx_chars EMAIL_RE c \<Longrightarrow> inert_char c"
  "rx_chars SAFE_FILENAME_RE c \<Longrightarrow> inert_char c" "rx_chars ABS_PATH_RE c \<Longrightarrow> inert_char c"
  "rx_chars USERNAME_RE c \<Longrightarrow> inert_char c" "rx_chars GIT_BRANCH_RE c \<Longrightarrow> inert_char c"
  "rx_chars GIT_REPO_RE c \<Longrightarrow> inert_char c" "rx_chars RELEASE_TAG_RE c \<Longrightarrow> inert_char c"
  by (auto simp: HOSTNAME_RE_def EMAIL_RE_def SAFE_FILENAME_RE_def ABS_PATH_RE_def USERNAME_RE_def
      GIT_BRANCH_RE_def GIT_REPO_RE_def RELEASE_TAG_RE_def r_digit_def r_label_chars ascii_word one_of_def
      dest!: rx_chars_upto)
    (auto simp: inert_char_def py_word_char_def ascii_alnum_def ascii_alpha_def ascii_lower_def code_def)

lemma ip_chars: "rx_chars IP_RE c \<Longrightarrow> inert_char c"
  by (auto simp: IP_RE_def r_octet_def r_digit_def ascii_word one_of_def dest!: rx_chars_times)
    (auto simp: inert_char_def class_defs code_def)

text \<open>A URL may hold a tilde, but not in front.\<close>

lemma http_url_chars: "rx_chars HTTP_URL_RE c \<Longrightarrow> inert_char c \<or> c = CHR ''~''"
  by (auto simp: HTTP_URL_RE_def r_digit_def r_label_chars ascii_word one_of_def dest!: rx_chars_upto)
    (auto simp: inert_char_def class_defs code_def)

lemma http_url_head: "fullmatch HTTP_URL_RE s \<Longrightarrow> s \<noteq> [] \<and> hd s = CHR ''h''"
  by (cases s) (auto simp: HTTP_URL_RE_def r_lit_def mk_seq_def split: if_splits)

lemma http_url_inert: "fullmatch HTTP_URL_RE s \<Longrightarrow> sh_tokens s = Some [Word s]"
  using http_url_head[of s] http_url_chars fullmatch_chars[of HTTP_URL_RE s]
  by (intro inert_word) (auto simp: list_all_iff)

text \<open>A file name: the components are inert, and so is the slash between them.\<close>

lemma py_split_chars: "c \<in> set s \<Longrightarrow> c = sep \<or> (\<exists>p \<in> set (py_split sep s). c \<in> set p)"
  by (induction s) (auto split: list.splits if_splits)

lemma safe_filename_inert:
  assumes "validate_safe_filename sub value label = Inr ()"
  shows "sh_tokens value = Some [Word value]"
proof -
  have parts: "\<forall>p \<in> set (py_split CHR ''/'' value). fullmatch SAFE_FILENAME_RE p" and ne: "value \<noteq> []"
    using assms by (auto simp: validate_safe_filename_def Let_def list_ex_iff split: if_splits)
  have inert: "inert_char c" if "c \<in> set value" for c
    using py_split_chars[OF that, of "CHR ''/''"]
  proof
    assume "\<exists>p \<in> set (py_split CHR ''/'' value). c \<in> set p"
    then show ?thesis using parts fullmatch_chars pattern_chars(3) by blast
  qed (simp add: inert_char_def)
  then show ?thesis using ne inert_char_literal[of "hd value"]
    by (intro inert_word) (auto simp: list_all_iff)
qed

text \<open>The validators whose accepted values can stand anywhere in a command line, even unquoted.\<close>

definition inert_validators :: "(string \<Rightarrow> string \<Rightarrow> value_error + unit) list" where
  "inert_validators =
     [validate_hostname, validate_ipv4, validate_email, validate_http_url, validate_abs_path,
      validate_username, validate_git_branch, validate_git_repo, validate_release_tag,
      validate_safe_filename False, validate_safe_filename True]"

lemmas validator_defs = validate_hostname_def validate_ipv4_def validate_email_def validate_http_url_def
  validate_abs_path_def validate_username_def validate_git_branch_def validate_git_repo_def
  validate_release_tag_def validate_db_name_def validate_shell_param_def

lemma inert_validator:
  assumes "v \<in> set inert_validators" "v value label = Inr ()"
  shows "sh_tokens value = Some [Word value]"
  using assms unfolding inert_validators_def
  by (auto simp: validator_defs safe_filename_inert http_url_inert split: if_splits
      intro: fullmatch_inert pattern_chars ip_chars)

lemma lex_dollar:
  "list_all (\<lambda>c. inert_char c \<or> c = CHR ''$'') s \<Longrightarrow> CHR ''$'' \<in> set s \<Longrightarrow> sh_lex Plain w s = None"
proof (induction s arbitrary: w)
  case (Cons c s)
  show ?case
  proof (cases "c = CHR ''$''")
    case True
    then show ?thesis by (simp add: sh_step blank_def operator_char_def active_char_def code_def)
  next
    case False
    then show ?thesis using Cons inert_char_literal[of c] by (simp add: sh_step)
  qed
qed simp

lemma db_name_chars: "rx_chars DB_NAME_RE c \<Longrightarrow> inert_char c \<or> c = CHR ''$''"
  by (auto simp: DB_NAME_RE_def ascii_word one_of_def dest!: rx_chars_upto)
    (auto simp: inert_char_def class_defs code_def)

lemma db_name_inert:
  assumes "validate_db_name value label = Inr ()"
  shows "sh_tokens value = Some [Word value] \<longleftrightarrow> CHR ''$'' \<notin> set value"
proof -
  have ne: "value \<noteq> []" and m: "fullmatch DB_NAME_RE value"
    using assms by (auto simp: validate_db_name_def split: if_splits)
  have cs: "list_all (\<lambda>c. inert_char c \<or> c = CHR ''$'') value"
    using m fullmatch_chars db_name_chars by (auto simp: list_all_iff)
  show ?thesis
  proof (cases "CHR ''$'' \<in> set value")
    case True
    then show ?thesis using lex_dollar[OF cs] by (simp add: sh_tokens_def)
  next
    case False
    then have "\<forall>c \<in> set value. inert_char c" using cs by (auto simp: list_all_iff)
    then show ?thesis using False ne inert_char_literal[of "hd value"]
      by (simp, intro inert_word) (auto simp: list_all_iff)
  qed
qed

lemma shell_safe_chars: "rx_chars SHELL_SAFE_RE c \<Longrightarrow> inert_char c \<or> c = CHR ''~''"
  by (auto simp: SHELL_SAFE_RE_def inert_char_def)

lemma shell_param_inert:
  assumes "validate_shell_param value label = Inr ()"
  shows "sh_tokens value = Some [Word value] \<longleftrightarrow> hd value \<noteq> CHR ''~''"
proof -
  have ne: "value \<noteq> []" and m: "fullmatch SHELL_SAFE_RE value"
    using assms by (auto simp: validate_shell_param_def split: if_splits)
  have "list_all (\<lambda>c. inert_char c \<or> c = CHR ''~'') value"
    using fullmatch_chars[OF m] shell_safe_chars unfolding list_all_iff by blast
  then have inert: "hd value \<noteq> CHR ''~'' \<Longrightarrow> sh_tokens value = Some [Word value]"
    using ne by (rule inert_word)
  have "sh_lex Plain None (CHR ''~'' # t) = None" for t
    using tilde_literal by (simp add: sh_step)
  then have "hd value = CHR ''~'' \<Longrightarrow> sh_tokens value = None"
    using ne by (metis list.collapse sh_tokens_def)
  then show ?thesis using inert by force
qed

text \<open>
  C31. What the allow-lists buy. A value accepted by one of the validators for host names, IPv4
  literals, e-mail addresses, URLs, absolute paths, account names, branches, repositories, release
  tags and file names is read by the shell as exactly one word, itself, even where it stands
  unquoted. For the generic shell-parameter check this holds exactly when the value does not start
  with a tilde, and for database names exactly when it has no dollar sign: values of those two kinds
  rely on the quoting at the sink.
\<close>

theorem validated_values_inert:
  "(\<forall>v \<in> set inert_validators. v value label = Inr () \<longrightarrow> sh_tokens value = Some [Word value]) \<and>
   (validate_shell_param value label = Inr () \<longrightarrow>
      (sh_tokens value = Some [Word value] \<longleftrightarrow> hd value \<noteq> CHR ''~'')) \<and>
   (validate_db_name value label = Inr () \<longrightarrow>
      (sh_tokens value = Some [Word value] \<longleftrightarrow> CHR ''$'' \<notin> set value))"
  using inert_validator shell_param_inert db_name_inert by blast

lemma accepted_samples:
  "validate_abs_path ''/opt/a'' ''dir'' = Inr ()" "validate_shell_param ''~/x'' ''dir'' = Inr ()"
  "validate_db_name ''a$b'' ''db'' = Inr ()"
  by code_simp+

theorem validated_values_inert_witness:
  "sh_tokens ''/opt/a'' = Some [Word ''/opt/a''] \<and> sh_tokens ''~/x'' \<noteq> Some [Word ''~/x''] \<and>
   sh_tokens ''a$b'' \<noteq> Some [Word ''a$b'']"
proof -
  have "validate_abs_path \<in> set inert_validators" by (simp add: inert_validators_def)
  then have "sh_tokens ''/opt/a'' = Some [Word ''/opt/a'']"
    using validated_values_inert[of "''/opt/a''" "''dir''"] accepted_samples(1) by blast
  moreover have "sh_tokens ''~/x'' \<noteq> Some [Word ''~/x'']"
    using validated_values_inert[of "''~/x''" "''dir''"] accepted_samples(2) by simp
  moreover have "sh_tokens ''a$b'' \<noteq> Some [Word ''a$b'']"
    using validated_values_inert[of "''a$b''" "''db''"] accepted_samples(3) by simp
  ultimately show ?thesis by blast
qed

end
