(* ===== verification/App_Upgrade.thy ===== *)
theory App_Upgrade
  imports App_Utils Collaboration
    "HOL-Library.List_Lexorder" "HOL-Library.Char_ord" "HOL-Library.Product_Lexorder"
begin

text \<open>
  The second half of \<^verbatim>\<open>src/apps/utils.py\<close>, what an application upgrade runs on: version
  comparison, excerpts of command output, the verified release download, the background-job
  tracker, and the per-application upgrade lock with its two clients, the manual upgrade route
  (\<^verbatim>\<open>src/routes/ghost.py\<close>, the same in the other application routes) and the scheduled
  auto-upgrade (\<^verbatim>\<open>src/core/scheduler.py\<close>).
\<close>

section \<open>Versions\<close>

text \<open>\<open>Too_long\<close> is the \<^verbatim>\<open>ValueError\<close> of \<^verbatim>\<open>int\<close> on more than 4300 digits.\<close>

datatype version = Not_semver | Too_long | Semver int int int "string option"

text \<open>
  \<open>(?:-(.+))?$\<close> after the third number: a dot matches no line feed, and the dollar also matches
  in front of a final one.
\<close>

definition at_end :: "string \<Rightarrow> bool" where "at_end s \<longleftrightarrow> s = [] \<or> s = [CHR 0x0A]"

definition version_tail :: "string \<Rightarrow> string option option" where
  "version_tail s =
     (if at_end s then Some None
      else if hd s = CHR ''-'' then
        (let pre = takeWhile (\<lambda>c. c \<noteq> CHR 0x0A) (tl s);
             rest = dropWhile (\<lambda>c. c \<noteq> CHR 0x0A) (tl s)
         in if pre \<noteq> [] \<and> at_end rest then Some (Some pre) else None)
      else None)"

text \<open>One \<open>(\d+)\<close>, and \<open>(\d+)\.\<close>\<close>

definition version_number :: "string \<Rightarrow> (string \<times> string) option" where
  "version_number s =
     (let ds = takeWhile ascii_digit s in if ds = [] then None else Some (ds, dropWhile ascii_digit s))"

definition version_number_dot :: "string \<Rightarrow> (string \<times> string) option" where
  "version_number_dot s =
     (case version_number s of None \<Rightarrow> None
      | Some (ds, rest) \<Rightarrow> if rest \<noteq> [] \<and> hd rest = CHR ''.'' then Some (ds, tl rest) else None)"

definition version_groups :: "string \<Rightarrow> (string \<times> string \<times> string \<times> string option) option" where
  "version_groups s =
     (case version_number_dot s of None \<Rightarrow> None
      | Some (a, s1) \<Rightarrow>
     (case version_number_dot s1 of None \<Rightarrow> None
      | Some (b, s2) \<Rightarrow>
     (case version_number s2 of None \<Rightarrow> None
      | Some (c, s3) \<Rightarrow>
     (case version_tail s3 of None \<Rightarrow> None
      | Some pre \<Rightarrow> Some (a, b, c, pre)))))"

definition parse_version :: "string \<Rightarrow> version" where
  "parse_version v =
     (case version_groups (hd (py_split CHR ''+'' (dropWhile (\<lambda>c. c = CHR ''v'') v))) of
        None \<Rightarrow> Not_semver
      | Some (a, b, c, pre) \<Rightarrow>
          (case (py_int a, py_int b, py_int c) of
             (Some x, Some y, Some z) \<Rightarrow> Semver x y z pre
           | _ \<Rightarrow> Too_long))"

definition version_gt :: "string \<Rightarrow> string \<Rightarrow> unit + bool" where
  "version_gt candidate current =
     (case parse_version candidate of Too_long \<Rightarrow> Inl ()
      | pa \<Rightarrow>
     (case parse_version current of Too_long \<Rightarrow> Inl ()
      | pb \<Rightarrow>
     (case (pa, pb) of
        (Semver a1 a2 a3 pre_a, Semver b1 b2 b3 pre_b) \<Rightarrow>
          Inr (if (a1, a2, a3) \<noteq> (b1, b2, b3) then (a1, a2, a3) > (b1, b2, b3)
               else (case (pre_a, pre_b) of
                       (None, None) \<Rightarrow> False
                     | (None, Some _) \<Rightarrow> True
                     | (Some _, None) \<Rightarrow> False
                     | (Some p, Some q) \<Rightarrow> p > q))
      | _ \<Rightarrow> Inr False)))"

text \<open>The order the comparison implements: the numbers, then releases above pre-releases.\<close>

fun version_rank :: "version \<Rightarrow> (int \<times> int \<times> int \<times> nat \<times> string) option" where
  "version_rank (Semver a b c None) = Some (a, b, c, 1, [])"
| "version_rank (Semver a b c (Some p)) = Some (a, b, c, 0, p)"
| "version_rank _ = None"

lemma version_gt_rank:
  assumes "version_rank (parse_version v) = Some k" "version_rank (parse_version w) = Some l"
  shows "version_gt v w = Inr (l < k)"
  using assms
  by (cases "parse_version v" rule: version_rank.cases; cases "parse_version w" rule: version_rank.cases)
    (auto simp: version_gt_def)

lemma version_gt_True:
  "version_gt v w = Inr True \<longleftrightarrow>
     (\<exists>k l. version_rank (parse_version v) = Some k \<and> version_rank (parse_version w) = Some l \<and> l < k)"
proof (cases "version_rank (parse_version v)"; cases "version_rank (parse_version w)")
  fix k l assume "version_rank (parse_version v) = Some k" "version_rank (parse_version w) = Some l"
  then show ?thesis using version_gt_rank by simp
qed (auto simp: version_gt_def split: version.splits option.splits elim: version_rank.elims)

text \<open>
  \<open>_version_gt\<close> is a strict order on version strings: nothing is newer than itself, newer is
  transitive, no two versions are each newer than the other, and of two version strings that parse,
  one is newer unless they have the same numbers and the same pre-release tag.
\<close>

theorem version_gt_strict_order:
  "version_gt a a \<noteq> Inr True \<and>
   (version_gt a b = Inr True \<longrightarrow> version_gt b c = Inr True \<longrightarrow> version_gt a c = Inr True) \<and>
   (version_gt a b = Inr True \<longrightarrow> version_gt b a = Inr False) \<and>
   (\<forall>k l. version_rank (parse_version a) = Some k \<and> version_rank (parse_version b) = Some l \<longrightarrow>
      version_gt a b = Inr True \<or> version_gt b a = Inr True \<or> parse_version a = parse_version b)"
proof -
  have inj: "version_rank x = Some k \<Longrightarrow> version_rank y = Some k \<Longrightarrow> x = y" for x y k
    by (cases x rule: version_rank.cases; cases y rule: version_rank.cases) auto
  show ?thesis
    using inj version_gt_rank[of b _ a]
    by (auto simp: version_gt_True dest: less_asym less_trans) (metis linorder_neqE)
qed

lemma sample_versions:
  "parse_version ''v4.5.7+glitch'' = Semver 4 5 7 None"
  "parse_version ''4.5.7-rc.1'' = Semver 4 5 7 (Some ''rc.1'')"
  "parse_version ''4.5.6'' = Semver 4 5 6 None"
  by code_simp+

theorem version_gt_strict_order_witness:
  "version_gt ''v4.5.7+glitch'' ''4.5.6'' = Inr True \<and> version_gt ''4.5.7-rc.1'' ''v4.5.7+glitch'' = Inr False"
proof -
  have "version_gt ''v4.5.7+glitch'' ''4.5.7-rc.1'' = Inr True" "version_gt ''4.5.7-rc.1'' ''4.5.6'' = Inr True"
    by (simp_all add: version_gt_def sample_versions)
  then show ?thesis
    using version_gt_strict_order[of "''v4.5.7+glitch''" "''4.5.7-rc.1''" "''4.5.6''"] by simp
qed

text \<open>
  Pre-release tags are compared as text, so the tenth release candidate is not newer than the
  ninth.
\<close>

lemma tenth_candidate_not_newer: "version_gt ''4.6.0-rc.10'' ''4.6.0-rc.9'' = Inr False"
  by code_simp

section \<open>Excerpts of command output\<close>

text \<open>\<^verbatim>\<open>str.splitlines\<close> on Latin-1.\<close>

definition line_break :: "char \<Rightarrow> bool" where
  "line_break c \<longleftrightarrow> code c \<in> {10, 11, 12, 13, 28, 29, 30, 133}"

function splitlines :: "string \<Rightarrow> string list" where
  "splitlines s =
     (if s = [] then []
      else let l = takeWhile (\<lambda>c. \<not> line_break c) s; r = dropWhile (\<lambda>c. \<not> line_break c) s in
        l # (case r of [] \<Rightarrow> []
             | c # cs \<Rightarrow> if code c = 13 \<and> cs \<noteq> [] \<and> code (hd cs) = 10 then splitlines (tl cs)
                        else splitlines cs))"
  by auto
termination
proof (relation "measure length")
  fix s l r c cs
  assume "r = dropWhile (\<lambda>c. \<not> line_break c) s" "r = c # cs"
  then have "length (c # cs) \<le> length s" by (metis length_dropWhile_le)
  then show "(cs, s) \<in> measure length" "(tl cs, s) \<in> measure length" by auto
qed simp

declare splitlines.simps [simp del]

fun contains :: "string \<Rightarrow> string \<Rightarrow> bool" where
  "contains p [] \<longleftrightarrow> p = []"
| "contains p (c # cs) \<longleftrightarrow> startswith (c # cs) p \<or> contains p cs"

text \<open>\<open>\boom\b\<close>; the flag says whether the previous character is a word character.\<close>

fun word_oom :: "bool \<Rightarrow> string \<Rightarrow> bool" where
  "word_oom prev [] \<longleftrightarrow> False"
| "word_oom prev (c # cs) \<longleftrightarrow>
     (\<not> prev \<and> startswith (c # cs) ''oom'' \<and> (drop 2 cs = [] \<or> \<not> py_word_char (cs ! 2))) \<or>
     word_oom (py_word_char c) cs"

definition FATAL_LINE :: "string \<Rightarrow> bool" where
  "FATAL_LINE s \<longleftrightarrow>
     (let l = py_lower s in
      list_ex (\<lambda>p. contains p l)
        [''rake aborted'', ''killed'', ''sigkill'', ''out of memory'', ''error'', ''fatal'',
         ''command failed'', ''exit code'', ''exited with''] \<or>
      word_oom False l)"

definition MAX_EXCERPT_LINES :: nat where "MAX_EXCERPT_LINES = 15"
definition MAX_EXCERPT_LINE_CHARS :: nat where "MAX_EXCERPT_LINE_CHARS = 300"

fun excerpt_loop :: "nat \<Rightarrow> bool \<Rightarrow> string list \<Rightarrow> string list \<Rightarrow> string list" where
  "excerpt_loop limit take_next picked [] = picked"
| "excerpt_loop limit take_next picked (line # ls) =
     (let stripped = py_strip line in
      if stripped = [] then excerpt_loop limit take_next picked ls
      else if take_next \<or> FATAL_LINE stripped then
        (let picked' = picked @ [take MAX_EXCERPT_LINE_CHARS stripped];
             take_next' = contains ''rake aborted'' (py_lower stripped)
         in if length picked' \<ge> limit then picked'
            else excerpt_loop limit take_next' picked' ls)
      else excerpt_loop limit take_next picked ls)"

definition error_excerpt :: "string \<Rightarrow> string list" where
  "error_excerpt text = excerpt_loop MAX_EXCERPT_LINES False [] (splitlines text)"

datatype log_line =
    Log string | Log_excerpt_begin | Log_excerpt string | Log_excerpt_end | Log_truncated

text \<open>The lines passed to \<open>log\<close>, in order.\<close>

definition log_cmd_output :: "string \<Rightarrow> string \<Rightarrow> int \<Rightarrow> nat \<Rightarrow> log_line list" where
  "log_cmd_output stdout stderr rc max_chars =
     (let combined = py_strip (stdout @ (if stderr \<noteq> [] then CHR 0x0A # stderr else []));
          n = length combined
      in if combined = [] then []
         else if n \<le> max_chars then [Log combined]
         else if rc \<noteq> 0 then
           (let excerpt = error_excerpt (take (n - 500 - 1500) (drop 1500 combined)) in
            [Log (py_strip (take 1500 combined))] @
            (if excerpt \<noteq> [] then Log_excerpt_begin # map Log_excerpt excerpt @ [Log_excerpt_end]
             else [Log_truncated]) @
            [Log (py_strip (drop (n - 500) combined))])
         else [Log (py_strip (drop (n - max_chars) combined))])"

lemma excerpt_loop_bound:
  "length picked < limit \<Longrightarrow> length (excerpt_loop limit tn picked ls) \<le> limit"
  by (induction limit tn picked ls rule: excerpt_loop.induct) (auto simp: Let_def)

lemma excerpt_loop_keeps: "length picked \<le> length (excerpt_loop limit tn picked ls)"
proof (induction limit tn picked ls rule: excerpt_loop.induct)
  case (2 limit tn picked line ls)
  then show ?case by (fastforce simp: Let_def)
qed simp

text \<open>A fatal line in the omitted part of a failed command's output is never lost altogether.\<close>

lemma fatal_line_reported:
  assumes "l \<in> set ls" "FATAL_LINE (py_strip l)"
  shows "length picked < length (excerpt_loop limit tn picked ls)"
  using assms(1)
proof (induction limit tn picked ls rule: excerpt_loop.induct)
  case (2 limit tn picked line ls)
  have ne: "\<not> FATAL_LINE []" by code_simp
  show ?case
  proof (cases "py_strip line = [] \<or> \<not> (tn \<or> FATAL_LINE (py_strip line))")
    case True
    then have "l \<noteq> line" using ne assms(2) by auto
    then show ?thesis using True 2 by (auto simp: Let_def)
  next
    case False
    then show ?thesis
      using excerpt_loop_keeps[of "picked @ [take MAX_EXCERPT_LINE_CHARS (py_strip line)]"]
      by (auto simp: Let_def Suc_le_eq)
  qed
qed simp

section \<open>Verified release downloads\<close>

text \<open>\<^verbatim>\<open>re.escape\<close>\<close>

definition re_special :: "char \<Rightarrow> bool" where
  "re_special c \<longleftrightarrow> List.member (CHR 0x5C # ''()[]{}?*+-|^$.&~# '') c \<or> 9 \<le> code c \<and> code c \<le> 13"

definition re_escape :: "string \<Rightarrow> string" where
  "re_escape s = concat (map (\<lambda>c. if re_special c then [CHR 0x5C, c] else [c]) s)"

definition WORKDIR_PREFIX :: string where "WORKDIR_PREFIX = ''/tmp/mstdnca-rel-''"

definition tarball_cmd :: "string \<Rightarrow> string \<Rightarrow> string \<Rightarrow> string \<Rightarrow> string" where
  "tarball_cmd workdir url asset_name checksum_url =
     (let q_dir = shlex_quote workdir; q_url = shlex_quote url; q_asset = shlex_quote asset_name;
          q_sums = shlex_quote checksum_url
      in ''set -e; '' @
         ''mkdir -m 700 '' @ q_dir @ ''; '' @
         ''cd '' @ q_dir @ ''; '' @
         ''(curl -sSfL -o '' @ q_asset @ '' '' @ q_url @ '' || wget -q -O '' @ q_asset @ '' '' @ q_url @ ''); '' @
         ''(curl -sSfL -o CHECKSUMS '' @ q_sums @ '' || wget -q -O CHECKSUMS '' @ q_sums @ ''); '' @
         ''grep -E '' @ shlex_quote (''[[:space:]][*]?'' @ re_escape asset_name @ ''$'') @
         '' CHECKSUMS > CHECKSUMS.asset; '' @
         ''test -s CHECKSUMS.asset; '' @
         ''sha256sum -c CHECKSUMS.asset; '' @
         ''tar xzf '' @ q_asset)"

text \<open>The commands a call runs with \<open>execute_sudo\<close>, with their time-outs.\<close>

definition cleanup_workdir :: "string \<Rightarrow> (string \<times> int) list" where
  "cleanup_workdir workdir =
     (if workdir = [] \<or> \<not> startswith workdir WORKDIR_PREFIX then []
      else [(''rm -rf '' @ shlex_quote workdir, 15)])"

record fetch_result =
  f_ok :: bool
  f_workdir :: string
  f_error :: string
  f_commands :: "(string \<times> int) list"
  f_log :: "log_line list"

text \<open>\<open>hex\<close> is \<^verbatim>\<open>secrets.token_hex(16)\<close>; \<open>run\<close> is what the managed host answers to a command:
  its output, its error output and its exit status.\<close>

definition fetch_verified_tarball ::
  "(string \<Rightarrow> string \<times> string \<times> int) \<Rightarrow> string \<Rightarrow> string \<Rightarrow> string \<Rightarrow> string \<Rightarrow> int \<Rightarrow> fetch_result" where
  "fetch_verified_tarball run hex url asset_name checksum_url timeout =
     (let workdir = WORKDIR_PREFIX @ hex;
          cmd = tarball_cmd workdir url asset_name checksum_url;
          (out, err, rc) = run cmd
      in if rc \<noteq> 0 then
           \<lparr>f_ok = False, f_workdir = [], f_error = ''download or SHA-256 verification failed'',
            f_commands = (cmd, timeout) # cleanup_workdir workdir,
            f_log = log_cmd_output out err rc 1000\<rparr>
         else
           \<lparr>f_ok = True, f_workdir = workdir, f_error = [], f_commands = [(cmd, timeout)],
            f_log = [Log (''  SHA-256 verified against '' @ checksum_url)]\<rparr>)"

lemma flush_None [simp]: "map_option (flush None) x = x"
  by (cases x) (simp_all add: flush_def)

lemma lex_op:
  assumes "operator_char c" "\<not> blank c" "cs = [] \<or> hd cs \<noteq> c \<or> \<not> List.member '';&|<>'' c"
  shows "sh_lex Plain w (c # cs) = map_option (flush w \<circ> (#) (Op [c])) (sh_lex Plain None cs)"
proof -
  have "\<not> (cs \<noteq> [] \<and> hd cs = c \<and> List.member '';&|<>'' c)" using assms(3) by blast
  then show ?thesis using assms(1,2) by (simp only: sh_lex.simps(4) if_True if_False)
qed

text \<open>A quoted word may be followed by a semicolon or a closing parenthesis.\<close>

lemma quote_semi:
  assumes "no_nul s"
  shows "sh_lex Plain None (shlex_quote s @ CHR '';'' # CHR '' '' # cs) =
         map_option (\<lambda>ts. Word s # Op '';'' # ts) (sh_lex Plain None cs)"
proof -
  have "sh_lex Plain (Some s) (CHR '';'' # CHR '' '' # cs) =
        map_option (flush (Some s) \<circ> (#) (Op '';'')) (sh_lex Plain None (CHR '' '' # cs))"
    by (rule lex_op) (simp_all add: operator_char_def blank_def code_def)
  then show ?thesis
    by (simp add: lex_quote[OF assms] grow_def opt_str_def flush_def comp_def option.map_comp)
qed

lemma quote_paren:
  assumes "no_nul s"
  shows "sh_lex Plain None (shlex_quote s @ CHR '')'' # CHR '';'' # CHR '' '' # cs) =
         map_option (\<lambda>ts. Word s # Op '')'' # Op '';'' # ts) (sh_lex Plain None cs)"
proof -
  have "sh_lex Plain (Some s) (CHR '')'' # CHR '';'' # CHR '' '' # cs) =
        map_option (flush (Some s) \<circ> (#) (Op '')'')) (sh_lex Plain None (CHR '';'' # CHR '' '' # cs))"
    by (rule lex_op) (simp_all add: operator_char_def blank_def code_def)
  moreover have "sh_lex Plain None (CHR '';'' # CHR '' '' # cs) =
        map_option (flush None \<circ> (#) (Op '';'')) (sh_lex Plain None (CHR '' '' # cs))"
    by (rule lex_op) (simp_all add: operator_char_def blank_def code_def)
  ultimately show ?thesis
    by (simp add: lex_quote[OF assms] grow_def opt_str_def flush_def comp_def option.map_comp)
qed

lemma lex_paren: "sh_lex Plain None (CHR ''('' # cs) = map_option ((#) (Op ''('')) (sh_lex Plain None cs)"
proof -
  have "sh_lex Plain None (CHR ''('' # cs) = map_option (flush None \<circ> (#) (Op ''('')) (sh_lex Plain None cs)"
    by (rule lex_op) (simp_all add: operator_char_def blank_def code_def)
  then show ?thesis by (simp add: flush_def comp_def)
qed

lemma lex_or:
  "sh_lex Plain None (CHR ''|'' # CHR ''|'' # CHR '' '' # cs) = map_option ((#) (Op ''||'')) (sh_lex Plain None cs)"
  by (cases "sh_lex Plain None cs") (simp_all add: sh_step blank_def operator_char_def flush_def code_def)

lemma semi_word:
  assumes "list_all shlex_safe s" "s \<noteq> []"
  shows "sh_lex Plain None (s @ CHR '';'' # CHR '' '' # cs) =
         map_option (\<lambda>ts. Word s # Op '';'' # ts) (sh_lex Plain None cs)"
proof -
  have "shlex_quote s = s" using assms by (simp add: shlex_quote_def)
  moreover have "no_nul s"
    using assms shlex_safe_literal by (auto simp: no_nul_def list_all_iff active_char_def)
  ultimately show ?thesis using quote_semi[of s cs] by simp
qed

lemma tarball_safe:
  "list_all shlex_safe ''set''" "list_all shlex_safe ''mkdir''" "list_all shlex_safe ''700''"
  "list_all shlex_safe ''cd''" "list_all shlex_safe ''curl''" "list_all shlex_safe ''-sSfL''"
  "list_all shlex_safe ''CHECKSUMS''" "list_all shlex_safe ''wget''" "list_all shlex_safe ''-q''"
  "list_all shlex_safe ''-O''" "list_all shlex_safe ''grep''" "list_all shlex_safe ''-E''"
  "list_all shlex_safe ''test''" "list_all shlex_safe ''-s''" "list_all shlex_safe ''sha256sum''"
  "list_all shlex_safe ''-c''" "list_all shlex_safe ''tar''" "list_all shlex_safe ''xzf''"
  "list_all shlex_safe ''rm''" "list_all shlex_safe ''-rf''"
  by (simp_all add: shlex_safe_def class_defs code_def)

lemma tarball_safe_semi: "list_all shlex_safe ''-e''" "list_all shlex_safe ''CHECKSUMS.asset''"
  by (simp_all add: shlex_safe_def class_defs code_def)

lemmas lex_tarball = tarball_safe[THEN lex_word, simplified] tarball_safe_semi[THEN semi_word, simplified]
  lex_words lex_ops lex_or lex_paren quote_word quote_semi quote_paren quote_last

definition tarball_words :: "string \<Rightarrow> string \<Rightarrow> string \<Rightarrow> string \<Rightarrow> sh_tok list" where
  "tarball_words workdir url asset_name checksum_url =
     [Word ''set'', Word ''-e'', Op '';'',
      Word ''mkdir'', Word ''-m'', Word ''700'', Word workdir, Op '';'',
      Word ''cd'', Word workdir, Op '';'',
      Op ''('', Word ''curl'', Word ''-sSfL'', Word ''-o'', Word asset_name, Word url, Op ''||'',
      Word ''wget'', Word ''-q'', Word ''-O'', Word asset_name, Word url, Op '')'', Op '';'',
      Op ''('', Word ''curl'', Word ''-sSfL'', Word ''-o'', Word ''CHECKSUMS'', Word checksum_url, Op ''||'',
      Word ''wget'', Word ''-q'', Word ''-O'', Word ''CHECKSUMS'', Word checksum_url, Op '')'', Op '';'',
      Word ''grep'', Word ''-E'', Word (''[[:space:]][*]?'' @ re_escape asset_name @ ''$''),
      Word ''CHECKSUMS'', Op ''>'', Word ''CHECKSUMS.asset'', Op '';'',
      Word ''test'', Word ''-s'', Word ''CHECKSUMS.asset'', Op '';'',
      Word ''sha256sum'', Word ''-c'', Word ''CHECKSUMS.asset'', Op '';'',
      Word ''tar'', Word ''xzf'', Word asset_name]"

lemma no_nul_simps [simp]:
  "no_nul []" "no_nul (c # s) \<longleftrightarrow> code c \<noteq> 0 \<and> no_nul s" "no_nul (s @ t) \<longleftrightarrow> no_nul s \<and> no_nul t"
  by (simp_all add: no_nul_def)

lemma no_nul_re_escape: "no_nul s \<Longrightarrow> no_nul (re_escape s)"
  by (induction s) (auto simp: re_escape_def code_def)

lemma tarball_tokens:
  assumes "no_nul workdir" "no_nul url" "no_nul asset_name" "no_nul checksum_url"
  shows "sh_tokens (tarball_cmd workdir url asset_name checksum_url) =
         Some (tarball_words workdir url asset_name checksum_url)"
proof -
  have g: "no_nul (''[[:space:]][*]?'' @ re_escape asset_name @ ''$'')"
    using assms(3) by (simp add: no_nul_re_escape code_def)
  show ?thesis
    using quote_word[OF g] assms
    by (simp add: sh_tokens_def tarball_cmd_def tarball_words_def Let_def lex_tarball)
qed

text \<open>
  The verified download. Whatever the release feed puts into the URL, the asset name and the
  checksum URL, the shell reads the command as the fixed script with exactly these three values as
  single words: stop at the first failure, private directory, download, checksum line of this asset,
  \<^verbatim>\<open>sha256sum -c\<close>, and only then \<^verbatim>\<open>tar\<close>. The call reports success exactly when that script
  exits with 0, and then ran nothing else; otherwise it also runs the removal of exactly the working
  directory, and hands no directory to the caller.
\<close>

theorem fetch_runs_fixed_script:
  assumes "no_nul hex" "no_nul url" "no_nul asset_name" "no_nul checksum_url"
  shows "let workdir = WORKDIR_PREFIX @ hex;
             res = fetch_verified_tarball run hex url asset_name checksum_url timeout;
             script = fst (hd (f_commands res))
         in sh_tokens script = Some (tarball_words workdir url asset_name checksum_url) \<and>
            (f_ok res \<longleftrightarrow> snd (snd (run script)) = 0) \<and>
            (f_workdir res = (if f_ok res then workdir else [])) \<and>
            map (sh_tokens \<circ> fst) (tl (f_commands res)) =
              (if f_ok res then [] else [Some [Word ''rm'', Word ''-rf'', Word workdir]])"
proof -
  have wd: "no_nul (WORKDIR_PREFIX @ hex)" using assms(1) by (simp add: WORKDIR_PREFIX_def code_def)
  have rm: "sh_tokens (''rm -rf '' @ shlex_quote (WORKDIR_PREFIX @ hex)) =
        Some [Word ''rm'', Word ''-rf'', Word (WORKDIR_PREFIX @ hex)]"
    using wd by (simp add: sh_tokens_def lex_tarball)
  have "cleanup_workdir (WORKDIR_PREFIX @ hex) = [(''rm -rf '' @ shlex_quote (WORKDIR_PREFIX @ hex), 15)]"
    by (simp add: cleanup_workdir_def startswith_def WORKDIR_PREFIX_def)
  then show ?thesis
    using tarball_tokens[OF wd assms(2-4)] rm
    by (simp add: fetch_verified_tarball_def Let_def split: prod.splits)
qed

theorem fetch_runs_fixed_script_witness:
  "f_ok (fetch_verified_tarball (\<lambda>_. ([], [], 0)) ''ab'' ''u'' ''x;y'' ''c'' 300)"
  using fetch_runs_fixed_script[of "''ab''" "''u''" "''x;y''" "''c''" "\<lambda>_. ([], [], 0)" 300]
  by (simp add: Let_def code_def)

end
