(* ===== verification/Upgrade_Lock.thy ===== *)
theory Upgrade_Lock
  imports Collaboration
begin

text \<open>
  The per-application upgrade lock and the job tracker of \<^verbatim>\<open>src/apps/utils.py\<close>, with the two
  clients of the lock: the manual upgrade route (\<^verbatim>\<open>src/routes/ghost.py\<close>; the routes of the
  other applications have the same frame) and the scheduled auto-upgrade
  (\<^verbatim>\<open>src/core/scheduler.py\<close>). Threads interleave at the lock operations, which are atomic; a
  step of the transition system is one such operation with the code around it. The locale
  \<open>try_lock\<close> is the contract of the lock, interpreted on the lock table.
\<close>

section \<open>The lock table\<close>

text \<open>The table of locks, each with whether it is held.\<close>

type_synonym locks = "(string \<times> bool) list"

definition get_upgrade_lock :: "string \<Rightarrow> locks \<Rightarrow> bool \<times> locks" where
  "get_upgrade_lock app_name ls =
     (case map_of ls app_name of
        None \<Rightarrow> (False, AList.update app_name False ls)
      | Some held \<Rightarrow> (held, ls))"

definition acquire_upgrade_lock :: "string \<Rightarrow> locks \<Rightarrow> bool \<times> locks" where
  "acquire_upgrade_lock app_name ls =
     (let (held, ls') = get_upgrade_lock app_name ls in
      if held then (False, ls') else (True, AList.update app_name True ls'))"

text \<open>Releasing a lock that is not held raises \<^verbatim>\<open>RuntimeError\<close>, which is swallowed.\<close>

definition release_upgrade_lock :: "string \<Rightarrow> locks \<Rightarrow> locks" where
  "release_upgrade_lock app_name ls =
     (let (held, ls') = get_upgrade_lock app_name ls in
      if held then AList.update app_name False ls' else ls')"

definition held :: "string \<Rightarrow> locks \<Rightarrow> bool" where
  "held app_name ls \<longleftrightarrow> map_of ls app_name = Some True"

section \<open>The job tracker\<close>

text \<open>A \<^verbatim>\<open>JobTracker\<close> is its attributes: item access is attribute access.\<close>

type_synonym job = "(string \<times> json) list"

definition job_init :: job where
  "job_init = [(''running'', JBool False), (''success'', JNull), (''log'', JList [])]"

definition job_setitem :: "string \<Rightarrow> json \<Rightarrow> job \<Rightarrow> job" where
  "job_setitem k v j = AList.update k v j"

text \<open>\<^term>\<open>None\<close> is \<^verbatim>\<open>AttributeError\<close>.\<close>

definition job_getitem :: "string \<Rightarrow> job \<Rightarrow> json option" where
  "job_getitem k j = map_of j k"

definition job_update :: "(string \<times> json) list \<Rightarrow> job \<Rightarrow> job" where
  "job_update d j = fold (\<lambda>(k, v). job_setitem k v) d j"

definition job_reset :: "job \<Rightarrow> job" where
  "job_reset j = job_setitem ''log'' (JList []) (job_setitem ''success'' JNull (job_setitem ''running'' (JBool False) j))"

section \<open>The two clients\<close>

datatype trigger = Manual | Auto

text \<open>
  The locks, the jobs of the applications' routes, and the upgrade bodies that are running: which
  application, started by whom.
\<close>

record upgrades =
  up_locks :: locks
  up_jobs :: "(string \<times> job) list"
  up_running :: "(string \<times> trigger) list"

definition job_of :: "string \<Rightarrow> upgrades \<Rightarrow> job" where
  "job_of app_name st = (case map_of (up_jobs st) app_name of None \<Rightarrow> job_init | Some j \<Rightarrow> j)"

definition put_job :: "string \<Rightarrow> (job \<Rightarrow> job) \<Rightarrow> upgrades \<Rightarrow> upgrades" where
  "put_job app_name f st = st\<lparr>up_jobs := AList.update app_name (f (job_of app_name st)) (up_jobs st)\<rparr>"

datatype start_result = Already_running | Started | Raised

text \<open>
  The manual route, up to the start of the background thread. \<open>raises\<close> says whether the code between
  taking the lock and starting the thread (reading a setting, spawning) raises.
\<close>

definition manual_upgrade :: "bool \<Rightarrow> string \<Rightarrow> upgrades \<Rightarrow> start_result \<times> upgrades" where
  "manual_upgrade raises app_name st =
     (let (got, ls) = acquire_upgrade_lock app_name (up_locks st); st1 = st\<lparr>up_locks := ls\<rparr> in
      if \<not> got then (Already_running, st1)
      else let st2 = put_job app_name
                 (job_update [(''running'', JBool True), (''success'', JNull), (''log'', JList [])]) st1
           in if raises then (Raised, st2)
              else (Started, st2\<lparr>up_running := (app_name, Manual) # up_running st2\<rparr>))"

text \<open>The end of the background thread (\<open>_bg_locked\<close>): its body ran, or raised, with outcome \<open>ok\<close>.\<close>

definition manual_finish :: "bool \<Rightarrow> string \<Rightarrow> upgrades \<Rightarrow> upgrades" where
  "manual_finish ok app_name st =
     (let st1 = put_job app_name (job_setitem ''running'' (JBool False) \<circ> job_setitem ''success'' (JBool ok)) st
      in st1\<lparr>up_running := remove1 (app_name, Manual) (up_running st1),
             up_locks := release_upgrade_lock app_name (up_locks st1)\<rparr>)"

text \<open>The scheduled upgrade: \<^verbatim>\<open>with upgrade_lock(app) as acquired\<close>, entered and left.\<close>

definition auto_upgrade :: "string \<Rightarrow> upgrades \<Rightarrow> bool \<times> upgrades" where
  "auto_upgrade app_name st =
     (let (got, ls) = acquire_upgrade_lock app_name (up_locks st); st1 = st\<lparr>up_locks := ls\<rparr> in
      if \<not> got then (False, st1)
      else (True, st1\<lparr>up_running := (app_name, Auto) # up_running st1\<rparr>))"

definition auto_finish :: "string \<Rightarrow> upgrades \<Rightarrow> upgrades" where
  "auto_finish app_name st =
     st\<lparr>up_running := remove1 (app_name, Auto) (up_running st),
        up_locks := release_upgrade_lock app_name (up_locks st)\<rparr>"

definition no_upgrades :: upgrades where
  "no_upgrades = \<lparr>up_locks = [], up_jobs = [], up_running = []\<rparr>"

inductive upgrade_step :: "upgrades \<Rightarrow> upgrades \<Rightarrow> bool" where
  u_manual: "upgrade_step st (snd (manual_upgrade raises a st))"
| u_manual_end: "(a, Manual) \<in> set (up_running st) \<Longrightarrow> upgrade_step st (manual_finish ok a st)"
| u_auto: "upgrade_step st (snd (auto_upgrade a st))"
| u_auto_end: "(a, Auto) \<in> set (up_running st) \<Longrightarrow> upgrade_step st (auto_finish a st)"

inductive upgrade_reachable :: "upgrades \<Rightarrow> bool" where
  ur_init: "upgrade_reachable no_upgrades"
| ur_step: "upgrade_reachable st \<Longrightarrow> upgrade_step st st' \<Longrightarrow> upgrade_reachable st'"

section \<open>The contract of a lock\<close>

text \<open>Acquiring never waits: it succeeds exactly when the lock is free, and touches no other.\<close>

locale try_lock =
  fixes acquire :: "'n \<Rightarrow> 's \<Rightarrow> bool \<times> 's"
    and release :: "'n \<Rightarrow> 's \<Rightarrow> 's"
    and locked :: "'n \<Rightarrow> 's \<Rightarrow> bool"
  assumes acquire_result: "fst (acquire n s) \<longleftrightarrow> \<not> locked n s"
    and acquire_locked: "locked m (snd (acquire n s)) \<longleftrightarrow> m = n \<or> locked m s"
    and release_locked: "locked m (release n s) \<longleftrightarrow> m \<noteq> n \<and> locked m s"
begin

lemma acquire_twice_fails: "\<not> fst (acquire n (snd (acquire n s)))"
  by (simp add: acquire_result acquire_locked)

lemma release_frees: "fst (acquire n (release n s))"
  by (simp add: acquire_result release_locked)

lemma double_release: "locked m (release n (release n s)) \<longleftrightarrow> locked m (release n s)"
  by (auto simp: release_locked)

text \<open>
  Counting the users of each lock: at most one, and then the lock is held. A user starts by
  acquiring, ends by releasing, and changes nothing when refused.
\<close>

lemma count_start:
  assumes "\<forall>m. cnt m \<le> (if locked m s then 1 else 0 :: nat)" "fst (acquire n s)"
  shows "(if m = n then cnt m + 1 else cnt m) \<le> (if locked m (snd (acquire n s)) then 1 else 0)"
  using assms(2) spec[OF assms(1), of m] by (cases "m = n") (auto simp: acquire_result acquire_locked split: if_splits)

lemma count_refused:
  assumes "cnt \<le> (if locked m s then 1 else 0 :: nat)" "\<not> fst (acquire n s)"
  shows "cnt \<le> (if locked m (snd (acquire n s)) then 1 else 0)"
  using assms by (auto simp: acquire_result acquire_locked)

lemma count_finish:
  assumes "cnt \<le> (if locked m s then 1 else 0 :: nat)"
  shows "(if m = n then cnt - 1 else cnt) \<le> (if locked m (release n s) then 1 else 0)"
  using assms by (auto simp: release_locked split: if_splits)

lemma independent: "m \<noteq> n \<Longrightarrow> fst (acquire m (snd (acquire n s))) \<longleftrightarrow> fst (acquire m s)"
  by (simp add: acquire_result acquire_locked)

end

lemma get_upgrade_lock_simps:
  "fst (get_upgrade_lock a ls) = held a ls" "held b (snd (get_upgrade_lock a ls)) = held b ls"
  by (auto simp: get_upgrade_lock_def held_def dict_simps split: option.splits)

interpretation ul: try_lock acquire_upgrade_lock release_upgrade_lock held
proof
  fix n m :: string and s
  obtain h ls where g: "get_upgrade_lock n s = (h, ls)" by (cases "get_upgrade_lock n s")
  then have h: "h = held n s" "held b ls = held b s" for b
    using get_upgrade_lock_simps(1)[of n s] get_upgrade_lock_simps(2)[of b n s] by simp_all
  show "fst (acquire_upgrade_lock n s) \<longleftrightarrow> \<not> held n s"
    by (simp add: acquire_upgrade_lock_def g h)
  show "held m (snd (acquire_upgrade_lock n s)) \<longleftrightarrow> m = n \<or> held m s"
    using h by (auto simp: acquire_upgrade_lock_def g held_def dict_simps)
  show "held m (release_upgrade_lock n s) \<longleftrightarrow> m \<noteq> n \<and> held m s"
    using h by (auto simp: release_upgrade_lock_def g held_def dict_simps)
qed

section \<open>Exclusion\<close>

definition run_count :: "string \<Rightarrow> upgrades \<Rightarrow> nat" where
  "run_count a st = length (filter (\<lambda>r. fst r = a) (up_running st))"

text \<open>An application has at most one running upgrade, and then its lock is held.\<close>

definition exclusive :: "upgrades \<Rightarrow> bool" where
  "exclusive st \<longleftrightarrow> (\<forall>a. run_count a st \<le> (if held a (up_locks st) then 1 else 0))"

lemma put_job_simps [simp]:
  "up_locks (put_job a f st) = up_locks st" "up_running (put_job a f st) = up_running st"
  by (simp_all add: put_job_def)

lemma run_count_remove1:
  "(a, t) \<in> set rs \<Longrightarrow>
   length (filter (\<lambda>r. fst r = b) (remove1 (a, t) rs)) =
   length (filter (\<lambda>r. fst r = b) rs) - (if a = b then 1 else 0)"
  by (simp add: filter_remove1 length_remove1)

lemma exclusive_run_held: "exclusive st \<Longrightarrow> run_count a st > 0 \<Longrightarrow> held a (up_locks st)"
  unfolding exclusive_def by (metis gr_implies_not_zero le_zero_eq)

text \<open>Starting: the lock was free, so nothing was running.\<close>

lemma exclusive_start:
  assumes "exclusive st" "fst (acquire_upgrade_lock a (up_locks st))"
    and "up_locks st' = snd (acquire_upgrade_lock a (up_locks st))"
    and "up_running st' = (a, t) # up_running st \<or> up_running st' = up_running st"
  shows "exclusive st'"
  unfolding exclusive_def
proof
  fix b
  have "run_count b st' \<le> (if b = a then run_count b st + 1 else run_count b st)"
    using assms(4) by (auto simp: run_count_def)
  also have "\<dots> \<le> (if held b (up_locks st') then 1 else 0)"
    unfolding assms(3) using assms(1) by (intro ul.count_start[OF _ assms(2)]) (simp add: exclusive_def)
  finally show "run_count b st' \<le> (if held b (up_locks st') then 1 else 0)" .
qed

lemma exclusive_refused:
  assumes "exclusive st" "\<not> fst (acquire_upgrade_lock a (up_locks st))"
    and "up_locks st' = snd (acquire_upgrade_lock a (up_locks st))" "up_running st' = up_running st"
  shows "exclusive st'"
  unfolding exclusive_def
proof
  fix b
  have "run_count b st \<le> (if held b (up_locks st') then 1 else 0)"
    unfolding assms(3) using assms(1) by (intro ul.count_refused[OF _ assms(2)]) (simp add: exclusive_def)
  then show "run_count b st' \<le> (if held b (up_locks st') then 1 else 0)" using assms(4) by (simp add: run_count_def)
qed

text \<open>Either client either is refused or starts.\<close>

lemma manual_upgrade_cases:
  "up_locks (snd (manual_upgrade raises a st)) = snd (acquire_upgrade_lock a (up_locks st))"
  "\<not> fst (acquire_upgrade_lock a (up_locks st)) \<Longrightarrow>
     fst (manual_upgrade raises a st) = Already_running \<and>
     up_running (snd (manual_upgrade raises a st)) = up_running st"
  "fst (acquire_upgrade_lock a (up_locks st)) \<Longrightarrow>
     fst (manual_upgrade raises a st) = (if raises then Raised else Started) \<and>
     up_running (snd (manual_upgrade raises a st)) =
       (if raises then up_running st else (a, Manual) # up_running st)"
  by (cases "acquire_upgrade_lock a (up_locks st)", simp add: manual_upgrade_def Let_def)+

lemma auto_upgrade_cases:
  "up_locks (snd (auto_upgrade a st)) = snd (acquire_upgrade_lock a (up_locks st))"
  "fst (auto_upgrade a st) = fst (acquire_upgrade_lock a (up_locks st))"
  "up_running (snd (auto_upgrade a st)) =
     (if fst (acquire_upgrade_lock a (up_locks st)) then (a, Auto) # up_running st else up_running st)"
  by (simp_all add: auto_upgrade_def Let_def split: prod.splits)

lemma exclusive_finish:
  assumes "exclusive st" "(a, t) \<in> set (up_running st)"
    and "up_locks st' = release_upgrade_lock a (up_locks st)"
    and "up_running st' = remove1 (a, t) (up_running st)"
  shows "exclusive st'"
  unfolding exclusive_def
proof
  fix b
  have "run_count b st' = (if b = a then run_count b st - 1 else run_count b st)"
    using assms(2,4) by (simp add: run_count_def run_count_remove1)
  also have "\<dots> \<le> (if held b (up_locks st') then 1 else 0)"
    unfolding assms(3) using assms(1) by (intro ul.count_finish) (simp add: exclusive_def)
  finally show "run_count b st' \<le> (if held b (up_locks st') then 1 else 0)" .
qed

lemma exclusive_step: "upgrade_step st st' \<Longrightarrow> exclusive st \<Longrightarrow> exclusive st'"
proof (induction rule: upgrade_step.induct)
  case (u_manual st raises a)
  then show ?case
    by (cases "fst (acquire_upgrade_lock a (up_locks st))")
      (cases raises; force simp: manual_upgrade_cases intro: exclusive_start[where t = Manual] exclusive_refused)+
next
  case (u_auto st a)
  then show ?case
    by (cases "fst (acquire_upgrade_lock a (up_locks st))")
      (auto simp: auto_upgrade_cases intro: exclusive_start[where t = Auto] exclusive_refused)
next
  case (u_manual_end a st ok)
  then show ?case using exclusive_finish[of st a Manual "manual_finish ok a st"] by (simp add: manual_finish_def Let_def)
next
  case (u_auto_end a st)
  then show ?case using exclusive_finish[of st a Auto "auto_finish a st"] by (simp add: auto_finish_def)
qed

lemma exclusive_reachable: "upgrade_reachable st \<Longrightarrow> exclusive st"
  by (induction rule: upgrade_reachable.induct)
    (auto simp: exclusive_step, simp add: exclusive_def run_count_def no_upgrades_def)

text \<open>
  C29. Upgrades of one application exclude each other. In every interleaving of manual upgrade
  requests, scheduled runs and their ends, an application has at most one upgrade running; while it
  runs, a manual request is answered with "already in progress" and a scheduled run is skipped, and
  neither disturbs it; and once it has ended, the next request starts.
\<close>

theorem upgrades_exclusive:
  assumes "upgrade_reachable st"
  shows "run_count a st \<le> 1 \<and>
    (run_count a st = 1 \<longrightarrow>
       fst (manual_upgrade raises a st) = Already_running \<and> \<not> fst (auto_upgrade a st) \<and>
       run_count a (snd (manual_upgrade raises a st)) = 1 \<and> run_count a (snd (auto_upgrade a st)) = 1) \<and>
    ((a, Manual) \<in> set (up_running st) \<longrightarrow> fst (manual_upgrade False a (manual_finish ok a st)) = Started) \<and>
    ((a, Auto) \<in> set (up_running st) \<longrightarrow> fst (manual_upgrade False a (auto_finish a st)) = Started)"
proof -
  have ex: "exclusive st" by (rule exclusive_reachable[OF assms])
  have le: "run_count a st \<le> 1" using ex by (auto simp: exclusive_def dest!: spec[of _ a] split: if_splits)
  have busy: "\<not> fst (acquire_upgrade_lock a (up_locks st))" if "run_count a st = 1"
    using exclusive_run_held[OF ex, of a] that ul.acquire_result by simp
  have free: "fst (acquire_upgrade_lock a (release_upgrade_lock a ls))" for ls by (rule ul.release_frees)
  have "fst (manual_upgrade False a st') = Started" if "up_locks st' = release_upgrade_lock a ls" for st' ls
    using free[of ls] that by (simp add: manual_upgrade_cases)
  moreover have "run_count a st = 1 \<Longrightarrow>
      fst (manual_upgrade raises a st) = Already_running \<and> \<not> fst (auto_upgrade a st) \<and>
      run_count a (snd (manual_upgrade raises a st)) = 1 \<and> run_count a (snd (auto_upgrade a st)) = 1"
    using busy by (simp add: manual_upgrade_cases auto_upgrade_cases run_count_def)
  ultimately show ?thesis using le by (simp add: manual_finish_def auto_finish_def Let_def)
qed

definition one_upgrade :: upgrades where
  "one_upgrade = snd (auto_upgrade ''ghost'' no_upgrades)"

theorem upgrades_exclusive_witness:
  "fst (manual_upgrade False ''ghost'' one_upgrade) = Already_running \<and>
   fst (manual_upgrade False ''ghost'' (auto_finish ''ghost'' one_upgrade)) = Started"
proof -
  have "upgrade_reachable one_upgrade"
    unfolding one_upgrade_def by (rule ur_step[OF ur_init u_auto])
  moreover have "run_count ''ghost'' one_upgrade = 1" "(''ghost'', Auto) \<in> set (up_running one_upgrade)"
    by code_simp+
  ultimately show ?thesis using upgrades_exclusive by blast
qed

text \<open>
  A manual request that raises after taking the lock leaves it held with no upgrade running: every
  later request and scheduled run is then refused until the process restarts.
\<close>

lemma raising_request_leaks_lock:
  assumes "\<not> held a (up_locks st)"
  shows "fst (manual_upgrade True a st) = Raised \<and>
         fst (manual_upgrade False a (snd (manual_upgrade True a st))) = Already_running \<and>
         \<not> fst (auto_upgrade a (snd (manual_upgrade True a st)))"
  using assms ul.acquire_result[of a "up_locks st"] ul.acquire_twice_fails[of a "up_locks st"]
  by (simp add: manual_upgrade_cases auto_upgrade_cases)

end
