(* ===== verification/Config_Backup.thy ===== *)
theory Config_Backup
  imports Data_Model Regex
    "HOL-Library.List_Lexorder" "HOL-Library.Char_ord" "HOL-Library.Product_Lexorder"
begin

text \<open>
  Export and import of the configuration (\<^verbatim>\<open>src/core/config_backup.py\<close>), with the interval
  check of \<^verbatim>\<open>src/core/scheduler.py\<close> it uses and the import route of
  \<^verbatim>\<open>src/routes/settings.py\<close>. The document is a \<^typ>\<open>json\<close> value, as uploaded: every type test
  and truth test of the source is made on it. Floating-point numbers do not occur in the model's
  documents. A result \<^term>\<open>None\<close> of a step is an exception other than the rejection of a malformed
  document; the route answers it by rolling the session back.

  What SQLAlchemy and SQLite decide is a parameter \<^verbatim>\<open>sql\<close>: whether a row is accepted when it
  is flushed (types, \<^verbatim>\<open>NOT NULL\<close>, uniqueness), and how a value from the document compares with
  a column (\<^term>\<open>None\<close> when it cannot be bound).
\<close>

section \<open>State\<close>

record sql =
  sql_flush :: "string \<Rightarrow> (string \<times> json) list \<Rightarrow> bool"
  sql_eq :: "json \<Rightarrow> json \<Rightarrow> bool option"

text \<open>
  A host: its exported columns, its stored secrets (those that are not null) and the link to the
  credential used to log in to it.
\<close>

record cfg_host =
  ch_id :: int
  ch_cols :: "(string \<times> json) list"
  ch_secrets :: "(string \<times> string) list"
  ch_ssh_credential_id :: "int option"

record cfg_guest =
  cg_id :: int
  cg_cols :: "(string \<times> json) list"
  cg_host_id :: "int option"
  cg_credential_id :: "int option"
  cg_tags :: "int list"

record cfg =
  c_tags :: "tag list"
  c_hosts :: "cfg_host list"
  c_guests :: "cfg_guest list"
  c_roles :: "role list"
  c_settings :: "(string \<times> string option) list"

record report =
  rp_hosts :: nat
  rp_tags :: nat
  rp_guests :: nat
  rp_settings :: nat
  rp_roles :: nat
  rp_skipped_settings :: "string list"
  rp_skipped_hosts :: "string list"
  rp_skipped_guests :: "string list"
  rp_skipped_roles :: nat
  rp_clamped_roles :: "string list"
  rp_cleared_secrets :: "string list"

definition empty_report :: report where
  "empty_report = \<lparr>rp_hosts = 0, rp_tags = 0, rp_guests = 0, rp_settings = 0, rp_roles = 0,
     rp_skipped_settings = [], rp_skipped_hosts = [], rp_skipped_guests = [], rp_skipped_roles = 0,
     rp_clamped_roles = [], rp_cleared_secrets = []\<rparr>"

type_synonym progress = "cfg \<times> report"

section \<open>Constants\<close>

definition EXPORT_VERSION :: int where "EXPORT_VERSION = 1"

fun substr :: "string \<Rightarrow> string \<Rightarrow> bool" where
  "substr p [] \<longleftrightarrow> p = []"
| "substr p (c # cs) \<longleftrightarrow> startswith (c # cs) p \<or> substr p cs"

definition looks_like_secret_key :: "string \<Rightarrow> bool" where
  "looks_like_secret_key key \<longleftrightarrow>
     list_ex (\<lambda>p. substr p (py_lower key))
       [''password'', ''passwd'', ''secret'', ''token'', ''apikey'', ''api_key'', ''api-key'',
        ''privatekey'', ''private_key'', ''private-key'', ''webhook'']"

text \<open>\<open>^gAAAAA[A-Za-z0-9_=-]{20,}$\<close> with \<^verbatim>\<open>match\<close>: one final line feed is tolerated.\<close>

definition fernet_body :: "string \<Rightarrow> bool" where
  "fernet_body s \<longleftrightarrow> 20 \<le> length s \<and> list_all (\<lambda>c. ascii_alnum c \<or> one_of ''_=-'' c) s"

definition FERNET_LIKE :: "string \<Rightarrow> bool" where
  "FERNET_LIKE s \<longleftrightarrow> startswith s ''gAAAAA'' \<and>
     (fernet_body (drop 6 s) \<or> s \<noteq> [] \<and> last s = CHR 0x0A \<and> fernet_body (drop 6 (butlast s)))"

fun looks_like_secret_value :: "json \<Rightarrow> bool" where
  "looks_like_secret_value (JStr s) = FERNET_LIKE s"
| "looks_like_secret_value _ = False"

definition AUTH_CRITICAL_SETTING_KEYS :: "string list" where
  "AUTH_CRITICAL_SETTING_KEYS =
     [''trusted_subnets'', ''local_bypass_enabled'', ''cf_access_enabled'', ''cf_access_bypass_local_auth'',
      ''cf_access_audience'', ''cf_access_auto_provision'', ''cf_access_team_domain'', ''app_auto_update'',
      ''app_update_branch'', ''moderation_auto_ban_enabled'']"

definition SECRET_DESTINATION_SETTINGS :: "(string \<times> string list) list" where
  "SECRET_DESTINATION_SETTINGS =
     [(''moderation_mastodon_api_url'', [''moderation_mastodon_api_token'', ''moderation_bot_token'']),
      (''moderation_peertube_api_url'', [''moderation_peertube_api_token'']),
      (''unifi_base_url'', [''unifi_password''])]"

definition MAX_IMPORTED_ROLE_LEVEL :: int where "MAX_IMPORTED_ROLE_LEVEL = 2"

definition HOST_FIELDS :: "string list" where
  "HOST_FIELDS =
     [''name'', ''hostname'', ''port'', ''auth_type'', ''username'', ''api_token_id'', ''verify_ssl'',
      ''host_type'', ''ipmi_enabled'', ''ipmi_address'', ''ipmi_username'', ''ipmi_verify_ssl'']"

definition HOST_SECRET_FIELDS :: "string list" where
  "HOST_SECRET_FIELDS = [''encrypted_password'', ''api_token_secret'', ''ipmi_password'']"

definition GUEST_FIELDS :: "string list" where
  "GUEST_FIELDS =
     [''vmid'', ''name'', ''guest_type'', ''ip_address'', ''connection_method'', ''auto_update'',
      ''status'', ''enabled'', ''replication_target'', ''mac_address'', ''power_state'',
      ''reboot_required'', ''require_snapshot'', ''backup_storage'', ''backup_mode'', ''backup_compress'']"

definition GUEST_CONNECTION_FIELDS :: "string list" where
  "GUEST_CONNECTION_FIELDS = [''ip_address'', ''connection_method'']"

section \<open>Intervals (core/scheduler.py)\<close>

definition INTERVAL_BOUNDS :: "(string \<times> int \<times> int \<times> int) list" where
  "INTERVAL_BOUNDS =
     [(''scan_interval'', 1, 168, 6), (''discovery_interval'', 1, 168, 4),
      (''service_check_interval'', 1, 1440, 5), (''unifi_api_poll_interval'', 1, 1440, 5),
      (''prometheus_collect_interval'', 10, 86400, 60), (''moderation_check_interval_hours'', 1, 8760, 24),
      (''moderation_watch_poll_minutes'', 1, 1440, 5), (''moderation_log_retention_days'', 30, 3650, 365)]"

definition INTERVAL_SETTING_KEYS :: "string list" where
  "INTERVAL_SETTING_KEYS =
     [''scan_interval'', ''discovery_interval'', ''service_check_interval'', ''unifi_api_poll_interval'',
      ''prometheus_collect_interval'', ''moderation_check_interval_hours'',
      ''moderation_watch_poll_minutes'', ''moderation_log_retention_days'']"

text \<open>\<^verbatim>\<open>str(raw)\<close> of a missing value is the text \<open>None\<close>, which is no number.\<close>

definition parse_interval :: "string \<Rightarrow> string option \<Rightarrow> int option" where
  "parse_interval key raw =
     (let (low, high, _) = (case map_of INTERVAL_BOUNDS key of None \<Rightarrow> (1, 100000, 1) | Some b \<Rightarrow> b)
      in case py_int (py_strip (case raw of None \<Rightarrow> ''None'' | Some s \<Rightarrow> s)) of
           None \<Rightarrow> None
         | Some value \<Rightarrow> if value < low \<or> value > high then None else Some value)"

definition interval_setting :: "string \<Rightarrow> string option \<Rightarrow> int" where
  "interval_setting key stored =
     (let (low, high, dflt) = (case map_of INTERVAL_BOUNDS key of None \<Rightarrow> (1, 100000, 1) | Some b \<Rightarrow> b)
      in case py_int (py_strip (case stored of None \<Rightarrow> ''None'' | Some s \<Rightarrow> s)) of
           None \<Rightarrow> dflt
         | Some value \<Rightarrow> if value < low \<or> value > high then max low (min high value) else value)"

section \<open>Export\<close>

definition col :: "string \<Rightarrow> (string \<times> json) list \<Rightarrow> json" where
  "col f cols = (case map_of cols f of None \<Rightarrow> JNull | Some v \<Rightarrow> v)"

fun json_text :: "json \<Rightarrow> string" where
  "json_text (JStr s) = s"
| "json_text _ = []"

definition model_to_dict :: "(string \<times> json) list \<Rightarrow> string list \<Rightarrow> (string \<times> json) list" where
  "model_to_dict cols fs = map (\<lambda>f. (f, col f cols)) fs"

definition json_opt :: "string option \<Rightarrow> json" where
  "json_opt s = (case s of None \<Rightarrow> JNull | Some t \<Rightarrow> JStr t)"

definition role_dict :: "role \<Rightarrow> (string \<times> json) list" where
  "role_dict r =
     [(''name'', JStr (r_name r)), (''display_name'', JStr (r_display_name r)), (''level'', JInt (r_level r)),
      (''is_builtin'', JBool (r_is_builtin r)), (''base_tier'', json_opt (r_base_tier r))] @
     map (\<lambda>(p, f). (f, JBool (List.member (r_perms r) p))) PERMISSION_FIELDS"

definition export_setting :: "string \<Rightarrow> string option \<Rightarrow> json" where
  "export_setting key value =
     (if looks_like_secret_key key \<or> looks_like_secret_value (json_opt value) then JStr ''***REDACTED***''
      else json_opt value)"

definition host_by_id :: "int option \<Rightarrow> cfg \<Rightarrow> cfg_host option" where
  "host_by_id i c = (case i of None \<Rightarrow> None | Some n \<Rightarrow> first_row (\<lambda>h. ch_id h = n) (c_hosts c))"

definition exported_tag_names :: "int list \<Rightarrow> cfg \<Rightarrow> string list" where
  "exported_tag_names ids c = map t_name (filter (\<lambda>t. List.member ids (t_id t)) (c_tags c))"

definition export_guest :: "cfg \<Rightarrow> cfg_guest \<Rightarrow> json" where
  "export_guest c g =
     JDict (model_to_dict (cg_cols g) GUEST_FIELDS @
       [(''host_name'', case host_by_id (cg_host_id g) c of None \<Rightarrow> JNull | Some h \<Rightarrow> col ''name'' (ch_cols h)),
        (''tags'', JList (map JStr (exported_tag_names (cg_tags g) c)))])"

definition export_tag :: "tag \<Rightarrow> json" where
  "export_tag t =
     JDict [(''name'', JStr (t_name t)), (''color'', JStr (t_color t)),
       (''unifi_networks'', JList (map JStr (t_unifi_networks t)))]"

definition build_export :: "cfg \<Rightarrow> json" where
  "build_export c =
     JDict
       [(''version'', JInt EXPORT_VERSION),
        (''hosts'', JList (map (\<lambda>h. JDict (model_to_dict (ch_cols h) HOST_FIELDS))
           (sort_key (\<lambda>h. json_text (col ''name'' (ch_cols h))) (c_hosts c)))),
        (''tags'', JList (map export_tag (sort_key t_name (c_tags c)))),
        (''guests'', JList (map (export_guest c)
           (sort_key (\<lambda>g. json_text (col ''name'' (cg_cols g))) (c_guests c)))),
        (''roles'', JList (map (JDict \<circ> role_dict) (sort_key (\<lambda>r. (- r_level r, r_name r)) (c_roles c)))),
        (''settings'', JDict (map (\<lambda>(k, v). (k, export_setting k v)) (sort_key fst (c_settings c))))]"

section \<open>Import\<close>

text \<open>Rejections of a malformed document, by the message of the \<^verbatim>\<open>_require\<close> that fails.\<close>

datatype doc_error =
    Not_object | Bad_version | Missing_section string | Not_a_list string | Settings_not_object
  | Item_not_object string nat

fun is_dict :: "json \<Rightarrow> bool" where
  "is_dict (JDict _) = True"
| "is_dict _ = False"

fun dict_of :: "json \<Rightarrow> (string \<times> json) list" where
  "dict_of (JDict d) = d"
| "dict_of _ = []"

fun is_list :: "json \<Rightarrow> bool" where
  "is_list (JList _) = True"
| "is_list _ = False"

fun items :: "json \<Rightarrow> json list" where
  "items (JList xs) = xs"
| "items _ = []"

text \<open>The first failing requirement of a list of checks.\<close>

fun first_error :: "(bool \<times> 'e) list \<Rightarrow> 'e option" where
  "first_error [] = None"
| "first_error ((ok, e) # rest) = (if ok then first_error rest else Some e)"

definition LIST_SECTIONS :: "string list" where
  "LIST_SECTIONS = [''hosts'', ''tags'', ''guests'', ''roles'']"

text \<open>\<^verbatim>\<open>doc.get("version") == 1\<close> also holds of the JSON value \<open>true\<close>.\<close>

definition validate_document :: "json \<Rightarrow> doc_error option" where
  "validate_document doc =
     (if \<not> is_dict doc then Some Not_object
      else let d = dict_of doc in
        first_error
          ([(col ''version'' d = JInt EXPORT_VERSION \<or> col ''version'' d = JBool True, Bad_version)] @
           map (\<lambda>k. (map_of d k \<noteq> None, Missing_section k))
             [''hosts'', ''tags'', ''guests'', ''roles'', ''settings''] @
           map (\<lambda>k. (is_list (col k d), Not_a_list k)) LIST_SECTIONS @
           [(is_dict (col ''settings'' d), Settings_not_object)] @
           concat (map (\<lambda>k. map (\<lambda>(i, x). (is_dict x, Item_not_object k i))
             (enumerate 0 (items (col k d)))) LIST_SECTIONS)))"

text \<open>
  \<^verbatim>\<open>(item.get(k) or "").strip()\<close>: a truthy value that is no string has no \<^verbatim>\<open>strip\<close>.
\<close>

definition text_field :: "string \<Rightarrow> (string \<times> json) list \<Rightarrow> string option" where
  "text_field k item =
     (case col k item of
        JStr s \<Rightarrow> Some (py_strip s)
      | v \<Rightarrow> if json_truthy v then None else Some [])"

text \<open>What a text column stores for a bound value; lists and objects cannot be bound.\<close>

fun sql_text :: "json \<Rightarrow> string option" where
  "sql_text (JStr s) = Some s"
| "sql_text (JInt i) = Some (py_str_int i)"
| "sql_text (JBool b) = Some (if b then ''1'' else ''0'')"
| "sql_text _ = None"

text \<open>One loop of the import: an exception ends it.\<close>

fun each :: "('a \<Rightarrow> 's \<Rightarrow> 's option) \<Rightarrow> 'a list \<Rightarrow> 's \<Rightarrow> 's option" where
  "each f [] s = Some s"
| "each f (x # xs) s = (case f x s of None \<Rightarrow> None | Some s' \<Rightarrow> each f xs s')"

subsection \<open>Tags\<close>

definition network_names :: "json list \<Rightarrow> string list" where
  "network_names ns = List.map_filter
     (\<lambda>n. case n of JStr s \<Rightarrow> if py_strip s \<noteq> [] then Some (py_strip s) else None | _ \<Rightarrow> None) ns"

definition or_else :: "json \<Rightarrow> json \<Rightarrow> json" where
  "or_else a b = (if json_truthy a then a else b)"

text \<open>The links are replaced; a name listed twice violates the primary key.\<close>

definition import_tag :: "(string \<times> json) list \<Rightarrow> progress \<Rightarrow> progress option" where
  "import_tag item pr =
     (let (c, rp) = pr in
      case text_field ''name'' item of
        None \<Rightarrow> None
      | Some name \<Rightarrow>
          if name = [] then Some (c, rp)
          else case sql_text (or_else (col ''color'' item) (JStr ''#6c757d'')) of
            None \<Rightarrow> None
          | Some color \<Rightarrow>
              let networks = or_else (col ''unifi_networks'' item) (JList []);
                  links = (\<lambda>old. if is_list networks then network_names (items networks) else old);
                  tags1 = (case first_row (\<lambda>t. t_name t = name) (c_tags c) of
                      None \<Rightarrow> c_tags c @ [\<lparr>t_id = next_id t_id (c_tags c), t_name = name, t_color = color,
                                          t_unifi_networks = links []\<rparr>]
                    | Some tag \<Rightarrow> update_rows (\<lambda>r. t_id r = t_id tag)
                                   (\<lambda>r. r\<lparr>t_color := color, t_unifi_networks := links (t_unifi_networks r)\<rparr>)
                                   (c_tags c))
              in if is_list networks \<and> \<not> distinct (network_names (items networks)) then None
                 else Some (c\<lparr>c_tags := tags1\<rparr>, rp\<lparr>rp_tags := rp_tags rp + 1\<rparr>))"

subsection \<open>Hosts\<close>

text \<open>\<^verbatim>\<open>setattr(obj, field, item[field])\<close> for the fields present in the item.\<close>

definition set_fields :: "string list \<Rightarrow> (string \<times> json) list \<Rightarrow> (string \<times> json) list \<Rightarrow> (string \<times> json) list" where
  "set_fields fs item cols =
     fold (\<lambda>f acc. case map_of item f of None \<Rightarrow> acc | Some v \<Rightarrow> AList.update f v acc) fs cols"

text \<open>Column defaults of an inserted row take the place of nulls.\<close>

definition with_defaults :: "(string \<times> json) list \<Rightarrow> (string \<times> json) list \<Rightarrow> (string \<times> json) list" where
  "with_defaults dflts cols = fold (\<lambda>(f, v) acc. if col f acc = JNull then AList.update f v acc else acc) dflts cols"

definition HOST_DEFAULTS :: "(string \<times> json) list" where
  "HOST_DEFAULTS =
     [(''port'', JInt 8006), (''auth_type'', JStr ''token''), (''verify_ssl'', JBool False),
      (''host_type'', JStr ''pve''), (''ipmi_enabled'', JBool False), (''ipmi_verify_ssl'', JBool False)]"

definition clear_host_secrets :: "cfg_host \<Rightarrow> cfg_host" where
  "clear_host_secrets h = h\<lparr>ch_secrets := fold AList.delete HOST_SECRET_FIELDS (ch_secrets h)\<rparr>"

definition import_host :: "sql \<Rightarrow> bool \<Rightarrow> (string \<times> json) list \<Rightarrow> progress \<Rightarrow> progress option" where
  "import_host sq import_hosts item pr =
     (let (c, rp) = pr in
      case (text_field ''name'' item, text_field ''hostname'' item) of
        (Some name, Some hostname) \<Rightarrow>
          if name = [] \<or> hostname = [] then Some (c, rp)
          else (case first_row (\<lambda>h. col ''name'' (ch_cols h) = JStr name) (c_hosts c) of
            None \<Rightarrow>
              (let cols = with_defaults HOST_DEFAULTS
                     (set_fields HOST_FIELDS item [(''name'', JStr name), (''hostname'', JStr hostname)])
               in if \<not> sql_flush sq ''proxmox_hosts'' cols then None
                  else Some (c\<lparr>c_hosts := c_hosts c @ [\<lparr>ch_id = next_id ch_id (c_hosts c), ch_cols = cols,
                                ch_secrets = [], ch_ssh_credential_id = None\<rparr>]\<rparr>,
                             rp\<lparr>rp_hosts := rp_hosts rp + 1\<rparr>))
          | Some host \<Rightarrow>
              if \<not> import_hosts then Some (c, rp\<lparr>rp_skipped_hosts := rp_skipped_hosts rp @ [name]\<rparr>)
              else let cols = set_fields HOST_FIELDS item (ch_cols host) in
                if \<not> sql_flush sq ''proxmox_hosts'' cols then None
                else Some (c\<lparr>c_hosts := update_rows (\<lambda>r. ch_id r = ch_id host)
                               (\<lambda>r. (clear_host_secrets r)\<lparr>ch_cols := cols\<rparr>) (c_hosts c)\<rparr>,
                           rp\<lparr>rp_hosts := rp_hosts rp + 1\<rparr>))
      | _ \<Rightarrow> None)"

subsection \<open>Guests\<close>

definition GUEST_DEFAULTS :: "(string \<times> json) list" where
  "GUEST_DEFAULTS =
     [(''connection_method'', JStr ''ssh''), (''auto_update'', JBool False), (''status'', JStr ''unknown''),
      (''enabled'', JBool True), (''power_state'', JStr ''unknown''), (''reboot_required'', JBool False),
      (''require_snapshot'', JStr ''inherit'')]"

text \<open>\<^verbatim>\<open>query.filter_by(column=v).first()\<close> with a value of the document.\<close>

definition query_eq :: "sql \<Rightarrow> json \<Rightarrow> ('r \<Rightarrow> json) \<Rightarrow> 'r list \<Rightarrow> 'r option option" where
  "query_eq sq v f rows =
     (if sql_eq sq v JNull = None then None
      else Some (first_row (\<lambda>r. sql_eq sq v (f r) = Some True) rows))"

text \<open>Python's \<open>==\<close> on scalar values: booleans are numbers.\<close>

fun scalar :: "json \<Rightarrow> json" where
  "scalar (JBool b) = JInt (if b then 1 else 0)"
| "scalar v = v"

definition py_eq :: "json \<Rightarrow> json \<Rightarrow> bool" where
  "py_eq a b \<longleftrightarrow> scalar a = scalar b"

definition guest_host :: "sql \<Rightarrow> (string \<times> json) list \<Rightarrow> cfg \<Rightarrow> cfg_host option option" where
  "guest_host sq item c =
     (let host_name = col ''host_name'' item in
      if json_truthy host_name then query_eq sq host_name (\<lambda>h. col ''name'' (ch_cols h)) (c_hosts c)
      else Some None)"

definition find_guest ::
  "sql \<Rightarrow> (string \<times> json) list \<Rightarrow> string \<Rightarrow> string \<Rightarrow> cfg_host option \<Rightarrow> cfg \<Rightarrow> cfg_guest option option" where
  "find_guest sq item name guest_type host c =
     (let vmid = col ''vmid'' item;
          by_name = first_row (\<lambda>g. col ''name'' (cg_cols g) = JStr name \<and>
                                    col ''guest_type'' (cg_cols g) = JStr guest_type) (c_guests c)
      in case host of
           Some h \<Rightarrow>
             if vmid \<noteq> JNull then
               (case query_eq sq vmid (\<lambda>g. col ''vmid'' (cg_cols g))
                       (filter (\<lambda>g. cg_host_id g = Some (ch_id h)) (c_guests c)) of
                  None \<Rightarrow> None
                | Some None \<Rightarrow> Some by_name
                | Some (Some g) \<Rightarrow> Some (Some g))
             else Some by_name
         | None \<Rightarrow> Some by_name)"

text \<open>
  The connection fields: the changed fields of an existing guest are taken over only with the
  opt-in. The result says which fields are to be written and whether some change was refused.
\<close>

definition connection_changes :: "(string \<times> json) list \<Rightarrow> (string \<times> json) list \<Rightarrow> string list" where
  "connection_changes item cols =
     filter (\<lambda>f. case map_of item f of None \<Rightarrow> False | Some v \<Rightarrow> \<not> py_eq v (col f cols)) GUEST_CONNECTION_FIELDS"

definition other_guest_fields :: "string list" where
  "other_guest_fields = filter (\<lambda>f. \<not> List.member GUEST_CONNECTION_FIELDS f) GUEST_FIELDS"

definition guest_tag_choice :: "(string \<times> json) list \<Rightarrow> cfg \<Rightarrow> int list \<Rightarrow> int list" where
  "guest_tag_choice item c old =
     (let names = or_else (col ''tags'' item) (JList []) in
      if is_list names
      then map t_id (filter (\<lambda>t. List.member (items names) (JStr (t_name t))) (c_tags c))
      else old)"

definition finish_guest ::
  "(string \<times> json) list \<Rightarrow> string \<Rightarrow> string \<Rightarrow> cfg_host option \<Rightarrow> cfg \<Rightarrow> cfg_guest \<Rightarrow> cfg_guest" where
  "finish_guest item name guest_type host c g =
     (let cols = AList.update ''guest_type'' (JStr guest_type)
                   (AList.update ''name'' (JStr name) (set_fields other_guest_fields item (cg_cols g)))
      in g\<lparr>cg_cols := cols,
           cg_host_id := (case host of None \<Rightarrow> cg_host_id g | Some h \<Rightarrow> Some (ch_id h)),
           cg_tags := guest_tag_choice item c (cg_tags g)\<rparr>)"

definition import_new_guest ::
  "sql \<Rightarrow> (string \<times> json) list \<Rightarrow> string \<Rightarrow> string \<Rightarrow> cfg_host option \<Rightarrow> progress \<Rightarrow> progress option" where
  "import_new_guest sq item name guest_type host pr =
     (let (c, rp) = pr;
          g0 = \<lparr>cg_id = next_id cg_id (c_guests c),
                cg_cols = set_fields GUEST_CONNECTION_FIELDS item
                            [(''name'', JStr name), (''guest_type'', JStr guest_type)],
                cg_host_id = None, cg_credential_id = None, cg_tags = []\<rparr>;
          g1 = finish_guest item name guest_type host c g0;
          g2 = g1\<lparr>cg_cols := with_defaults GUEST_DEFAULTS (cg_cols g1)\<rparr>
      in if \<not> sql_flush sq ''guests'' (cg_cols g2) then None
         else Some (c\<lparr>c_guests := c_guests c @ [g2]\<rparr>, rp\<lparr>rp_guests := rp_guests rp + 1\<rparr>))"

definition import_old_guest ::
  "sql \<Rightarrow> bool \<Rightarrow> (string \<times> json) list \<Rightarrow> string \<Rightarrow> string \<Rightarrow> cfg_host option \<Rightarrow> cfg_guest \<Rightarrow> progress \<Rightarrow> progress option" where
  "import_old_guest sq import_hosts item name guest_type host guest pr =
     (let (c, rp) = pr;
          changes = connection_changes item (cg_cols guest);
          rp1 = (if changes \<noteq> [] \<and> \<not> import_hosts \<and> \<not> List.member (rp_skipped_guests rp) name
                 then rp\<lparr>rp_skipped_guests := rp_skipped_guests rp @ [name]\<rparr> else rp);
          repointed = (changes \<noteq> [] \<and> import_hosts);
          g0 = (if import_hosts then guest\<lparr>cg_cols := set_fields changes item (cg_cols guest)\<rparr> else guest);
          drop_cred = (repointed \<and> cg_credential_id guest \<noteq> None);
          g1 = (if drop_cred then g0\<lparr>cg_credential_id := None\<rparr> else g0);
          rp2 = (if drop_cred
                 then rp1\<lparr>rp_cleared_secrets := rp_cleared_secrets rp1 @ [''guest credential ('' @ name @ '')'']\<rparr>
                 else rp1);
          g2 = finish_guest item name guest_type host c g1
      in if \<not> sql_flush sq ''guests'' (cg_cols g2) then None
         else Some (c\<lparr>c_guests := update_rows (\<lambda>r. cg_id r = cg_id guest) (\<lambda>_. g2) (c_guests c)\<rparr>,
                    rp2\<lparr>rp_guests := rp_guests rp2 + 1\<rparr>))"

definition import_guest :: "sql \<Rightarrow> bool \<Rightarrow> (string \<times> json) list \<Rightarrow> progress \<Rightarrow> progress option" where
  "import_guest sq import_hosts item pr =
     (case (text_field ''name'' item, text_field ''guest_type'' item) of
        (Some name, Some guest_type) \<Rightarrow>
          if name = [] \<or> \<not> List.member [''vm'', ''ct''] guest_type then Some pr
          else (case guest_host sq item (fst pr) of
            None \<Rightarrow> None
          | Some host \<Rightarrow>
             (case find_guest sq item name guest_type host (fst pr) of
                None \<Rightarrow> None
              | Some None \<Rightarrow> import_new_guest sq item name guest_type host pr
              | Some (Some guest) \<Rightarrow> import_old_guest sq import_hosts item name guest_type host guest pr))
      | _ \<Rightarrow> None)"

subsection \<open>Roles\<close>

text \<open>A number of the document, or 1; booleans are numbers.\<close>

definition wanted_level :: "(string \<times> json) list \<Rightarrow> int" where
  "wanted_level item = (case scalar (col ''level'' item) of JInt i \<Rightarrow> i | _ \<Rightarrow> 1)"

definition set_perm :: "permission \<Rightarrow> bool \<Rightarrow> permission list \<Rightarrow> permission list" where
  "set_perm p b ps = (if b then (if List.member ps p then ps else ps @ [p]) else removeAll p ps)"

definition set_perms :: "(string \<times> json) list \<Rightarrow> permission list \<Rightarrow> permission list" where
  "set_perms item ps =
     fold (\<lambda>(p, f) acc. case map_of item f of None \<Rightarrow> acc | Some v \<Rightarrow> set_perm p (json_truthy v) acc)
       PERMISSION_FIELDS ps"

text \<open>
  \<^verbatim>\<open>Role.BASE_TIER_LEVELS.get(tier, 0)\<close>; lists and objects are unhashable, and an empty one,
  for which a new role skips the look-up, cannot be stored either.
\<close>

definition tier_level :: "json \<Rightarrow> int option" where
  "tier_level tier =
     (case tier of
        JStr s \<Rightarrow> Some (case map_of BASE_TIER_LEVELS s of None \<Rightarrow> 0 | Some l \<Rightarrow> l)
      | JList _ \<Rightarrow> None
      | JDict _ \<Rightarrow> None
      | _ \<Rightarrow> Some 0)"

definition fits_integer :: "int \<Rightarrow> bool" where
  "fits_integer n \<longleftrightarrow> - (2 ^ 63) \<le> n \<and> n < 2 ^ 63"

definition add_imported_role :: "(string \<times> json) list \<Rightarrow> string \<Rightarrow> progress \<Rightarrow> progress option" where
  "add_imported_role item rname pr =
     (let (c, rp) = pr;
          wanted = wanted_level item;
          level = min wanted MAX_IMPORTED_ROLE_LEVEL;
          tier = col ''base_tier'' item
      in case (tier_level tier, sql_text (or_else (col ''display_name'' item) (JStr rname))) of
           (Some tier_lv, Some display) \<Rightarrow>
             if \<not> fits_integer level then None
             else let role = \<lparr>r_id = next_id r_id (c_roles c), r_name = rname, r_display_name = display,
                       r_level = level, r_is_builtin = False,
                       r_base_tier = (if json_truthy tier \<and> tier_lv > level then None else sql_text tier),
                       r_perms = set_perms item []\<rparr>
               in Some (c\<lparr>c_roles := c_roles c @ [role]\<rparr>,
                        rp\<lparr>rp_clamped_roles := rp_clamped_roles rp @ (if level < wanted then [rname] else []),
                           rp_roles := rp_roles rp + 1\<rparr>)
         | _ \<Rightarrow> None)"

text \<open>The assignments to an existing role.\<close>

definition edited_role :: "(string \<times> json) list \<Rightarrow> int \<Rightarrow> int \<Rightarrow> string \<Rightarrow> role \<Rightarrow> role" where
  "edited_role item level tier_lv display r =
     (let tier = col ''base_tier'' item in
      r\<lparr>r_display_name := display,
        r_base_tier := (if json_truthy tier \<and> tier_lv \<le> level then sql_text tier else r_base_tier r),
        r_level := (if map_of item ''level'' \<noteq> None then level else r_level r),
        r_perms := set_perms item (r_perms r)\<rparr>)"

definition edit_imported_role :: "(string \<times> json) list \<Rightarrow> string \<Rightarrow> role \<Rightarrow> progress \<Rightarrow> progress option" where
  "edit_imported_role item rname role pr =
     (let (c, rp) = pr;
          wanted = wanted_level item;
          level = min wanted (max (r_level role) MAX_IMPORTED_ROLE_LEVEL);
          tier = col ''base_tier'' item
      in case (if json_truthy tier then tier_level tier else Some 0,
               if json_truthy (col ''display_name'' item) then sql_text (col ''display_name'' item)
               else Some (r_display_name role)) of
           (Some tier_lv, Some display) \<Rightarrow>
             if map_of item ''level'' \<noteq> None \<and> \<not> fits_integer level then None
             else Some (c\<lparr>c_roles := update_rows (\<lambda>r. r_id r = r_id role)
                                   (edited_role item level tier_lv display) (c_roles c)\<rparr>,
                rp\<lparr>rp_clamped_roles := rp_clamped_roles rp @ (if level < wanted then [rname] else []),
                   rp_roles := rp_roles rp + 1\<rparr>)
         | _ \<Rightarrow> None)"

definition import_role :: "(string \<times> json) list \<Rightarrow> progress \<Rightarrow> progress option" where
  "import_role item pr =
     (case text_field ''name'' item of
        None \<Rightarrow> None
      | Some rname \<Rightarrow>
          if rname = [] then Some pr
          else (case first_row (\<lambda>r. r_name r = rname) (c_roles (fst pr)) of
            None \<Rightarrow> if json_truthy (col ''is_builtin'' item) then Some pr else add_imported_role item rname pr
          | Some role \<Rightarrow> if r_is_builtin role then Some pr else edit_imported_role item rname role pr))"

subsection \<open>Settings\<close>

definition setting_text :: "string \<Rightarrow> cfg \<Rightarrow> string" where
  "setting_text k c = (case map_of (c_settings c) k of None \<Rightarrow> [] | Some v \<Rightarrow> opt_str v)"

definition set_no_commit :: "string \<Rightarrow> string option \<Rightarrow> cfg \<Rightarrow> cfg" where
  "set_no_commit k v c = c\<lparr>c_settings := AList.update k v (c_settings c)\<rparr>"

text \<open>The stored secrets that belong to a repointed destination are emptied.\<close>

definition clear_secrets :: "string list \<Rightarrow> progress \<Rightarrow> progress" where
  "clear_secrets ks pr =
     fold (\<lambda>k (c, rp). if setting_text k c \<noteq> []
             then (set_no_commit k (Some []) c, rp\<lparr>rp_cleared_secrets := rp_cleared_secrets rp @ [k]\<rparr>)
             else (c, rp)) ks pr"

definition skip_setting :: "string \<Rightarrow> progress \<Rightarrow> progress" where
  "skip_setting k pr = (fst pr, (snd pr)\<lparr>rp_skipped_settings := rp_skipped_settings (snd pr) @ [k]\<rparr>)"

definition write_setting :: "bool \<Rightarrow> string \<Rightarrow> string option \<Rightarrow> progress \<Rightarrow> progress" where
  "write_setting import_hosts key value pr =
     (let repoints = (case map_of SECRET_DESTINATION_SETTINGS key of
                        None \<Rightarrow> False | Some _ \<Rightarrow> opt_str value \<noteq> setting_text key (fst pr))
      in if repoints \<and> \<not> import_hosts then skip_setting key pr
         else let (c, rp) = (if repoints
                    then clear_secrets (the (map_of SECRET_DESTINATION_SETTINGS key)) pr else pr)
              in (set_no_commit key value c, rp\<lparr>rp_settings := rp_settings rp + 1\<rparr>))"

definition import_setting :: "bool \<Rightarrow> string \<times> json \<Rightarrow> progress \<Rightarrow> progress" where
  "import_setting import_hosts kv pr =
     (let (key, v) = kv in
      if looks_like_secret_key key \<or> looks_like_secret_value v then pr
      else if List.member AUTH_CRITICAL_SETTING_KEYS key then skip_setting key pr
      else (case v of
              JStr s \<Rightarrow>
                if List.member INTERVAL_SETTING_KEYS key then
                  (case parse_interval key (Some s) of
                     None \<Rightarrow> skip_setting key pr
                   | Some n \<Rightarrow> write_setting import_hosts key (Some (py_str_int n)) pr)
                else write_setting import_hosts key (Some s) pr
            | JNull \<Rightarrow>
                if List.member INTERVAL_SETTING_KEYS key then skip_setting key pr
                else write_setting import_hosts key None pr
            | _ \<Rightarrow> pr))"

subsection \<open>The whole import\<close>

datatype import_result = Rejected doc_error | Failed | Applied cfg report

definition section_items :: "string \<Rightarrow> json \<Rightarrow> (string \<times> json) list list" where
  "section_items k doc = map dict_of (items (col k (dict_of doc)))"

definition import_sections :: "sql \<Rightarrow> json \<Rightarrow> bool \<Rightarrow> bool \<Rightarrow> progress \<Rightarrow> progress option" where
  "import_sections sq doc import_roles import_hosts pr0 =
     (case each import_tag (section_items ''tags'' doc) pr0 of None \<Rightarrow> None
      | Some pr1 \<Rightarrow>
     (case each (import_host sq import_hosts) (section_items ''hosts'' doc) pr1 of None \<Rightarrow> None
      | Some pr2 \<Rightarrow>
     (case each (import_guest sq import_hosts) (section_items ''guests'' doc) pr2 of None \<Rightarrow> None
      | Some pr3 \<Rightarrow>
     (case (if import_roles then each import_role (section_items ''roles'' doc) pr3
            else Some (fst pr3, (snd pr3)\<lparr>rp_skipped_roles := length (section_items ''roles'' doc)\<rparr>)) of
        None \<Rightarrow> None
      | Some pr4 \<Rightarrow> Some (fold (import_setting import_hosts) (dict_of (col ''settings'' (dict_of doc))) pr4)))))"

definition apply_import :: "sql \<Rightarrow> json \<Rightarrow> bool \<Rightarrow> bool \<Rightarrow> cfg \<Rightarrow> import_result" where
  "apply_import sq doc import_roles import_hosts c =
     (case validate_document doc of
        Some e \<Rightarrow> Rejected e
      | None \<Rightarrow>
         (case import_sections sq doc import_roles import_hosts (c, empty_report) of
            None \<Rightarrow> Failed
          | Some (c', rp) \<Rightarrow> Applied c' rp))"

text \<open>The route: a rejection or a failure rolls the session back.\<close>

definition import_config :: "sql \<Rightarrow> json \<Rightarrow> bool \<Rightarrow> bool \<Rightarrow> cfg \<Rightarrow> cfg" where
  "import_config sq doc import_roles import_hosts c =
     (case apply_import sq doc import_roles import_hosts c of Applied c' _ \<Rightarrow> c' | _ \<Rightarrow> c)"

end
