(* ===== verification/Config_Safety.thy ===== *)
theory Config_Safety
  imports Config_Backup
begin

text \<open>
  What the configuration export and import guarantee. The settings part shows that an import leaves
  the settings that guard authentication alone, never brings in a secret, and empties a stored
  secret whenever the address it would be sent to changes. The rows part shows the same for hosts,
  guests and roles, by a relation between the tables before and after that every step of the import
  keeps. The export part shows that an export does not depend on any secret.
\<close>

section \<open>Loops\<close>

lemma each_invariant:
  assumes "each f xs s = Some s'" "P s"
    and "\<And>x t t'. x \<in> set xs \<Longrightarrow> P t \<Longrightarrow> f x t = Some t' \<Longrightarrow> P t'"
  shows "P s'"
  using assms
proof (induction xs arbitrary: s)
  case (Cons x xs)
  then obtain t where "f x s = Some t" "each f xs t = Some s'" by (auto split: option.splits)
  then show ?case using Cons.IH[of t] Cons.prems by (metis list.set_intros)
qed simp

lemma fold_invariant_on:
  assumes "P s" "\<And>x t. x \<in> set xs \<Longrightarrow> P t \<Longrightarrow> P (f x t)"
  shows "P (fold f xs s)"
  using assms by (induction xs arbitrary: s) auto

section \<open>Which table a step writes\<close>

lemma import_tag_frame:
  "import_tag item pr = Some pr' \<Longrightarrow> c_hosts (fst pr') = c_hosts (fst pr) \<and>
     c_guests (fst pr') = c_guests (fst pr) \<and> c_roles (fst pr') = c_roles (fst pr) \<and>
     c_settings (fst pr') = c_settings (fst pr)"
  by (auto simp: import_tag_def Let_def split: prod.splits option.splits if_splits)

lemma import_host_frame:
  "import_host sq ih item pr = Some pr' \<Longrightarrow> c_guests (fst pr') = c_guests (fst pr) \<and>
     c_roles (fst pr') = c_roles (fst pr) \<and> c_settings (fst pr') = c_settings (fst pr)"
  by (auto simp: import_host_def Let_def split: prod.splits option.splits if_splits)

lemma import_new_guest_frame:
  "import_new_guest sq item n t h pr = Some pr' \<Longrightarrow> c_hosts (fst pr') = c_hosts (fst pr) \<and>
     c_roles (fst pr') = c_roles (fst pr) \<and> c_settings (fst pr') = c_settings (fst pr)"
  by (auto simp: import_new_guest_def Let_def split: prod.splits if_splits)

lemma import_old_guest_frame:
  "import_old_guest sq ih item n t h g pr = Some pr' \<Longrightarrow> c_hosts (fst pr') = c_hosts (fst pr) \<and>
     c_roles (fst pr') = c_roles (fst pr) \<and> c_settings (fst pr') = c_settings (fst pr)"
  unfolding import_old_guest_def Let_def by (cases pr) (force split: if_splits)

lemma find_guest_mem: "find_guest sq item n t h c = Some (Some g) \<Longrightarrow> g \<in> set (c_guests c)"
  by (auto simp: find_guest_def query_eq_def Let_def split: option.splits if_splits dest!: first_row_Some)

lemma import_guest_cases:
  "import_guest sq ih item pr = Some pr' \<Longrightarrow>
     pr' = pr \<or> (\<exists>n t h. import_new_guest sq item n t h pr = Some pr') \<or>
     (\<exists>n t h g. import_old_guest sq ih item n t h g pr = Some pr' \<and> g \<in> set (c_guests (fst pr)))"
  by (auto simp: import_guest_def split: if_splits option.splits dest: find_guest_mem)

lemma import_guest_frame:
  "import_guest sq ih item pr = Some pr' \<Longrightarrow> c_hosts (fst pr') = c_hosts (fst pr) \<and>
     c_roles (fst pr') = c_roles (fst pr) \<and> c_settings (fst pr') = c_settings (fst pr)"
  by (drule import_guest_cases) (auto dest: import_new_guest_frame import_old_guest_frame)

lemma import_role_cases:
  "import_role item pr = Some pr' \<Longrightarrow>
     pr' = pr \<or> (\<exists>n. add_imported_role item n pr = Some pr') \<or>
     (\<exists>n role. edit_imported_role item n role pr = Some pr' \<and>
        first_row (\<lambda>r. r_name r = n) (c_roles (fst pr)) = Some role \<and> \<not> r_is_builtin role)"
  by (auto simp: import_role_def split: if_splits option.splits)

lemma add_imported_role_frame:
  "add_imported_role item n pr = Some pr' \<Longrightarrow> c_hosts (fst pr') = c_hosts (fst pr) \<and>
     c_guests (fst pr') = c_guests (fst pr) \<and> c_settings (fst pr') = c_settings (fst pr)"
  by (auto simp: add_imported_role_def Let_def split: prod.splits option.splits if_splits)

lemma edit_imported_role_frame:
  "edit_imported_role item n role pr = Some pr' \<Longrightarrow> c_hosts (fst pr') = c_hosts (fst pr) \<and>
     c_guests (fst pr') = c_guests (fst pr) \<and> c_settings (fst pr') = c_settings (fst pr)"
  unfolding edit_imported_role_def Let_def by (cases pr) (force split: option.splits if_splits)

lemma import_role_frame:
  "import_role item pr = Some pr' \<Longrightarrow> c_hosts (fst pr') = c_hosts (fst pr) \<and>
     c_guests (fst pr') = c_guests (fst pr) \<and> c_settings (fst pr') = c_settings (fst pr)"
  by (drule import_role_cases) (auto dest: add_imported_role_frame edit_imported_role_frame)

lemma set_no_commit_frame [simp]:
  "c_hosts (set_no_commit k v c) = c_hosts c" "c_guests (set_no_commit k v c) = c_guests c"
  "c_roles (set_no_commit k v c) = c_roles c" "c_tags (set_no_commit k v c) = c_tags c"
  by (simp_all add: set_no_commit_def)

section \<open>Settings\<close>

lemma setting_text_set [simp]:
  "setting_text k (set_no_commit k' v c) = (if k = k' then opt_str v else setting_text k c)"
  by (simp add: setting_text_def set_no_commit_def dict_simps)

lemma map_of_set_no_commit:
  "map_of (c_settings (set_no_commit k' v c)) k = (if k = k' then Some v else map_of (c_settings c) k)"
  by (simp add: set_no_commit_def dict_simps)

lemma clear_secrets_simps [simp]:
  "clear_secrets [] pr = pr"
  "clear_secrets (k # ks) pr = clear_secrets ks
     (if setting_text k (fst pr) \<noteq> []
      then (set_no_commit k (Some []) (fst pr), (snd pr)\<lparr>rp_cleared_secrets := rp_cleared_secrets (snd pr) @ [k]\<rparr>)
      else pr)"
  by (simp_all add: clear_secrets_def split: prod.splits)

lemma clear_secrets_text:
  "setting_text s (fst (clear_secrets ks pr)) = (if s \<in> set ks then [] else setting_text s (fst pr))"
  by (induction ks arbitrary: pr) (auto simp: opt_str_def)

lemma clear_secrets_other:
  "s \<notin> set ks \<Longrightarrow> map_of (c_settings (fst (clear_secrets ks pr))) s = map_of (c_settings (fst pr)) s"
  by (induction ks arbitrary: pr) (auto simp: map_of_set_no_commit)

lemma clear_secrets_frame [simp]:
  "c_hosts (fst (clear_secrets ks pr)) = c_hosts (fst pr)"
  "c_guests (fst (clear_secrets ks pr)) = c_guests (fst pr)"
  "c_roles (fst (clear_secrets ks pr)) = c_roles (fst pr)"
  by (induction ks arbitrary: pr) simp_all

lemma skip_setting_fst [simp]: "fst (skip_setting k pr) = fst pr"
  by (simp add: skip_setting_def)

lemma write_setting_fst:
  "fst (write_setting ih key value pr) =
     (case map_of SECRET_DESTINATION_SETTINGS key of
        None \<Rightarrow> set_no_commit key value (fst pr)
      | Some ks \<Rightarrow>
          if opt_str value = setting_text key (fst pr) then set_no_commit key value (fst pr)
          else if ih then set_no_commit key value (fst (clear_secrets ks pr))
          else fst pr)"
  by (cases "clear_secrets (the (map_of SECRET_DESTINATION_SETTINGS key)) pr"; cases pr)
    (auto simp: write_setting_def Let_def split: option.splits prod.splits)

lemma import_setting_cases:
  "fst (import_setting ih kv pr) = fst pr \<or>
   (\<exists>value. \<not> looks_like_secret_key (fst kv) \<and> fst kv \<notin> set AUTH_CRITICAL_SETTING_KEYS \<and>
      fst (import_setting ih kv pr) = fst (write_setting ih (fst kv) value pr))"
  by (cases kv; cases "snd kv") (auto simp: import_setting_def Let_def split: option.splits)

lemma import_setting_frame [simp]:
  "c_hosts (fst (import_setting ih kv pr)) = c_hosts (fst pr)"
  "c_guests (fst (import_setting ih kv pr)) = c_guests (fst pr)"
  "c_roles (fst (import_setting ih kv pr)) = c_roles (fst pr)"
  using import_setting_cases[of ih kv pr] by (auto simp: write_setting_fst split: option.splits)

text \<open>The destinations and the secrets sent to them.\<close>

lemma destinations:
  assumes "(k, ss) \<in> set SECRET_DESTINATION_SETTINGS"
  shows "map_of SECRET_DESTINATION_SETTINGS k = Some ss" "\<not> looks_like_secret_key k"
    "s \<in> set ss \<Longrightarrow> looks_like_secret_key s" "s \<in> set ss \<Longrightarrow> s \<notin> set AUTH_CRITICAL_SETTING_KEYS"
proof -
  have "list_all (\<lambda>(k, ss). map_of SECRET_DESTINATION_SETTINGS k = Some ss \<and> \<not> looks_like_secret_key k \<and>
      list_all (\<lambda>s. looks_like_secret_key s \<and> \<not> List.member AUTH_CRITICAL_SETTING_KEYS s) ss)
      SECRET_DESTINATION_SETTINGS" by code_simp
  then have "map_of SECRET_DESTINATION_SETTINGS k = Some ss \<and> \<not> looks_like_secret_key k \<and>
      list_all (\<lambda>s. looks_like_secret_key s \<and> \<not> List.member AUTH_CRITICAL_SETTING_KEYS s) ss"
    using assms by (auto simp: list_all_iff)
  then show "map_of SECRET_DESTINATION_SETTINGS k = Some ss" "\<not> looks_like_secret_key k"
    "s \<in> set ss \<Longrightarrow> looks_like_secret_key s" "s \<in> set ss \<Longrightarrow> s \<notin> set AUTH_CRITICAL_SETTING_KEYS"
    by (auto simp: list_all_iff)
qed

text \<open>What an import keeps of the settings \<open>c0\<close> it started from.\<close>

definition settings_confined :: "bool \<Rightarrow> cfg \<Rightarrow> cfg \<Rightarrow> bool" where
  "settings_confined ih c0 c \<longleftrightarrow>
     (\<forall>k \<in> set AUTH_CRITICAL_SETTING_KEYS. map_of (c_settings c) k = map_of (c_settings c0) k) \<and>
     (\<forall>k. looks_like_secret_key k \<longrightarrow>
        map_of (c_settings c) k = map_of (c_settings c0) k \<or> setting_text k c = []) \<and>
     (\<forall>(k, ss) \<in> set SECRET_DESTINATION_SETTINGS. setting_text k c \<noteq> setting_text k c0 \<longrightarrow>
        ih \<and> (\<forall>s \<in> set ss. setting_text s c = []))"

lemma settings_confined_refl: "settings_confined ih c c"
  by (auto simp: settings_confined_def)

lemma settings_confined_cong:
  "c_settings c' = c_settings c \<Longrightarrow> settings_confined ih c0 c' = settings_confined ih c0 c"
  by (simp add: settings_confined_def setting_text_def)

text \<open>Writing a setting that is neither secret nor critical, its destination's text unchanged.\<close>

lemma settings_confined_set:
  assumes "settings_confined ih c0 c" "\<not> looks_like_secret_key k" "k \<notin> set AUTH_CRITICAL_SETTING_KEYS"
    and "map_of SECRET_DESTINATION_SETTINGS k = None \<or> opt_str v = setting_text k c"
  shows "settings_confined ih c0 (set_no_commit k v c)"
  unfolding settings_confined_def
proof (intro conjI ballI allI impI)
  fix a assume "a \<in> set AUTH_CRITICAL_SETTING_KEYS"
  then show "map_of (c_settings (set_no_commit k v c)) a = map_of (c_settings c0) a"
    using assms(1,3) by (auto simp: settings_confined_def map_of_set_no_commit)
next
  fix a assume "looks_like_secret_key a"
  then show "map_of (c_settings (set_no_commit k v c)) a = map_of (c_settings c0) a \<or>
      setting_text a (set_no_commit k v c) = []"
    using assms(1,2) by (auto simp: settings_confined_def map_of_set_no_commit)
next
  fix d assume d: "d \<in> set SECRET_DESTINATION_SETTINGS"
  obtain a ss where [simp]: "d = (a, ss)" by (cases d)
  have "setting_text a (set_no_commit k v c) = setting_text a c"
    using assms(4) destinations(1)[of a ss] d by auto
  moreover have "setting_text s (set_no_commit k v c) = setting_text s c" if "s \<in> set ss" for s
    using destinations(3)[of a ss s] d that assms(2) by auto
  ultimately show "case d of (a, ss) \<Rightarrow>
      setting_text a (set_no_commit k v c) \<noteq> setting_text a c0 \<longrightarrow>
      ih \<and> (\<forall>s \<in> set ss. setting_text s (set_no_commit k v c) = [])"
    using assms(1) d by (auto simp: settings_confined_def)
qed

text \<open>Repointing a destination with the opt-in, its secrets emptied first.\<close>

lemma settings_confined_repoint:
  assumes "settings_confined True c0 (fst pr)" "map_of SECRET_DESTINATION_SETTINGS k = Some ks"
    and "k \<notin> set AUTH_CRITICAL_SETTING_KEYS"
  shows "settings_confined True c0 (set_no_commit k v (fst (clear_secrets ks pr)))" (is "settings_confined _ _ ?c")
proof -
  have dk: "(k, ks) \<in> set SECRET_DESTINATION_SETTINGS" using assms(2) by (rule map_of_SomeD)
  have texts: "setting_text s ?c = (if s = k then opt_str v else if s \<in> set ks then [] else setting_text s (fst pr))" for s
    by (simp add: clear_secrets_text)
  have maps: "s \<noteq> k \<Longrightarrow> s \<notin> set ks \<Longrightarrow> map_of (c_settings ?c) s = map_of (c_settings (fst pr)) s" for s
    by (simp add: map_of_set_no_commit clear_secrets_other)
  show ?thesis
    unfolding settings_confined_def
  proof (intro conjI ballI allI impI)
    fix a assume "a \<in> set AUTH_CRITICAL_SETTING_KEYS"
    then show "map_of (c_settings ?c) a = map_of (c_settings c0) a"
      using assms(1,3) maps[of a] destinations(4)[OF dk, of a] by (auto simp: settings_confined_def)
  next
    fix a assume a: "looks_like_secret_key a"
    then have "a \<noteq> k" using destinations(2)[OF dk] by auto
    then show "map_of (c_settings ?c) a = map_of (c_settings c0) a \<or> setting_text a ?c = []"
      using a assms(1) maps[of a] texts[of a] by (cases "a \<in> set ks") (auto simp: settings_confined_def)
  next
    fix d assume d: "d \<in> set SECRET_DESTINATION_SETTINGS"
    obtain a ss where [simp]: "d = (a, ss)" by (cases d)
    have notk: "s \<noteq> k" if "s \<in> set ss" for s using destinations(3)[of a ss s] destinations(2)[OF dk] d that by auto
    have nota: "a \<notin> set ks" using destinations(3)[OF dk, of a] destinations(2)[of a ss] d by auto
    show "case d of (a, ss) \<Rightarrow> setting_text a ?c \<noteq> setting_text a c0 \<longrightarrow>
        True \<and> (\<forall>s \<in> set ss. setting_text s ?c = [])"
    proof (cases "a = k")
      case True
      then have "ss = ks" using destinations(1)[of a ss] d assms(2) by auto
      then show ?thesis using notk texts by auto
    next
      case False
      then show ?thesis using assms(1) d texts[of a] nota notk texts by (auto simp: settings_confined_def)
    qed
  qed
qed

lemma settings_confined_import_setting:
  assumes "settings_confined ih c0 (fst pr)"
  shows "settings_confined ih c0 (fst (import_setting ih kv pr))"
proof -
  have "settings_confined ih c0 (fst (write_setting ih k v pr))"
    if "\<not> looks_like_secret_key k" "k \<notin> set AUTH_CRITICAL_SETTING_KEYS" for k v
    using that assms settings_confined_set[of ih c0 "fst pr" k v] settings_confined_repoint[of c0 pr k _ v]
    by (cases ih) (auto simp: write_setting_fst split: option.splits)
  then show ?thesis using import_setting_cases[of ih kv pr] assms by auto
qed

section \<open>The sections in sequence\<close>

text \<open>A property of the configuration that every step of the import keeps holds of its result.\<close>

lemma import_sections_invariant:
  assumes run: "import_sections sq doc ir ih pr = Some pr'" and init: "P (fst pr)"
    and tag: "\<And>item t t'. P (fst t) \<Longrightarrow> import_tag item t = Some t' \<Longrightarrow> P (fst t')"
    and host: "\<And>item t t'. P (fst t) \<Longrightarrow> import_host sq ih item t = Some t' \<Longrightarrow> P (fst t')"
    and guest: "\<And>item t t'. P (fst t) \<Longrightarrow> import_guest sq ih item t = Some t' \<Longrightarrow> P (fst t')"
    and role: "\<And>item t t'. ir \<Longrightarrow> P (fst t) \<Longrightarrow> import_role item t = Some t' \<Longrightarrow> P (fst t')"
    and setting: "\<And>kv t. P (fst t) \<Longrightarrow> P (fst (import_setting ih kv t))"
  shows "P (fst pr')"
proof -
  obtain pr1 pr2 pr3 pr4 where
    1: "each import_tag (section_items ''tags'' doc) pr = Some pr1" and
    2: "each (import_host sq ih) (section_items ''hosts'' doc) pr1 = Some pr2" and
    3: "each (import_guest sq ih) (section_items ''guests'' doc) pr2 = Some pr3" and
    4: "(if ir then each import_role (section_items ''roles'' doc) pr3
         else Some (fst pr3, (snd pr3)\<lparr>rp_skipped_roles := length (section_items ''roles'' doc)\<rparr>)) = Some pr4" and
    5: "pr' = fold (import_setting ih) (dict_of (col ''settings'' (dict_of doc))) pr4"
    using run by (auto simp: import_sections_def split: option.splits)
  have "P (fst pr1)" using each_invariant[OF 1, of "\<lambda>t. P (fst t)"] init tag by blast
  then have "P (fst pr2)" using each_invariant[OF 2, of "\<lambda>t. P (fst t)"] host by blast
  then have p3: "P (fst pr3)" using each_invariant[OF 3, of "\<lambda>t. P (fst t)"] guest by blast
  have "P (fst pr4)"
  proof (cases ir)
    case True
    then have "each import_role (section_items ''roles'' doc) pr3 = Some pr4" using 4 by simp
    then show ?thesis using each_invariant[of import_role _ pr3 pr4 "\<lambda>t. P (fst t)"] p3 role True by blast
  next
    case False
    then show ?thesis using 4 p3 by auto
  qed
  then show ?thesis unfolding 5 by (rule fold_invariant_on[where P = "\<lambda>t. P (fst t)"]) (rule setting)
qed

lemma apply_import_sections:
  "apply_import sq doc ir ih c = Applied c' rp \<Longrightarrow>
   import_sections sq doc ir ih (c, empty_report) = Some (c', rp)"
  by (auto simp: apply_import_def split: option.splits)

lemmas apply_import_invariant = import_sections_invariant[OF apply_import_sections, simplified]


section \<open>Rows before and after\<close>

text \<open>
  A table after is the table before with each row related to its old version, and new rows at the
  end.
\<close>

definition extends :: "('a \<Rightarrow> 'a \<Rightarrow> bool) \<Rightarrow> ('a \<Rightarrow> bool) \<Rightarrow> 'a list \<Rightarrow> 'a list \<Rightarrow> bool" where
  "extends R N xs ys \<longleftrightarrow> (\<exists>zs ns. ys = zs @ ns \<and> list_all2 R xs zs \<and> list_all N ns)"

text \<open>The contract of a row relation: rows may be kept, and changed repeatedly.\<close>

locale row_change =
  fixes R :: "'a \<Rightarrow> 'a \<Rightarrow> bool" and N :: "'a \<Rightarrow> bool"
  assumes R_refl: "R x x"
    and R_trans: "R x y \<Longrightarrow> R y z \<Longrightarrow> R x z"
    and R_new: "N x \<Longrightarrow> R x y \<Longrightarrow> N y"
begin

lemma extends_refl: "extends R N xs xs"
  unfolding extends_def by (intro exI[of _ xs] exI[of _ "[]"]) (simp add: R_refl list_all2_refl)

lemma extends_append: "extends R N xs ys \<Longrightarrow> N y \<Longrightarrow> extends R N xs (ys @ [y])"
proof -
  assume "extends R N xs ys" "N y"
  then obtain zs ns where "ys = zs @ ns" "list_all2 R xs zs" "list_all N (ns @ [y])"
    by (auto simp: extends_def)
  then show ?thesis unfolding extends_def by (intro exI[of _ zs] exI[of _ "ns @ [y]"]) simp
qed

lemma extends_update:
  assumes "extends R N xs ys" "\<And>y. y \<in> set ys \<Longrightarrow> P y \<Longrightarrow> R y (f y)"
  shows "extends R N xs (update_rows P f ys)"
proof -
  obtain zs ns where ys: "ys = zs @ ns" "list_all2 R xs zs" "list_all N ns"
    using assms(1) by (auto simp: extends_def)
  have step: "y \<in> set ys \<Longrightarrow> R y (if P y then f y else y)" for y using assms(2) R_refl by simp
  have "list_all2 R zs (update_rows P f zs)"
    unfolding update_rows_def list_all2_map2 using step by (intro list.rel_refl_strong) (simp add: ys(1))
  then have "list_all2 R xs (update_rows P f zs)" 
    by (rule list_all2_trans[OF _ ys(2), rotated]) (erule (1) R_trans)
  moreover have "list_all N (update_rows P f ns)"
    using ys(3) step R_new by (fastforce simp: update_rows_def list_all_iff ys(1))
  ultimately show ?thesis
    unfolding extends_def ys(1)
    by (intro exI[of _ "update_rows P f zs"] exI[of _ "update_rows P f ns"]) (simp add: update_rows_def)
qed

lemma extends_old:
  "extends R N xs ys \<Longrightarrow> i < length xs \<Longrightarrow> i < length ys \<and> R (xs ! i) (ys ! i)"
  by (auto simp: extends_def nth_append list_all2_conv_all_nth)

lemma extends_new: "extends R N xs ys \<Longrightarrow> length xs \<le> i \<Longrightarrow> i < length ys \<Longrightarrow> N (ys ! i)"
  by (auto simp: extends_def nth_append list_all2_conv_all_nth list_all_length)

end

subsection \<open>Hosts\<close>

text \<open>A host row after an import that may (\<open>ih\<close>) or may not change existing hosts.\<close>

definition host_cleared :: "bool \<Rightarrow> cfg_host \<Rightarrow> cfg_host \<Rightarrow> bool" where
  "host_cleared ih h h' \<longleftrightarrow>
     ch_id h' = ch_id h \<and> (h' = h \<or> ih \<and> (\<forall>f \<in> set HOST_SECRET_FIELDS. map_of (ch_secrets h') f = None))"

definition host_change :: "bool \<Rightarrow> cfg_host \<Rightarrow> cfg_host \<Rightarrow> bool" where
  "host_change ih h h' \<longleftrightarrow> host_cleared ih h h' \<and> ch_ssh_credential_id h' = ch_ssh_credential_id h"

definition host_new :: "cfg_host \<Rightarrow> bool" where
  "host_new h \<longleftrightarrow> (\<forall>f \<in> set HOST_SECRET_FIELDS. map_of (ch_secrets h) f = None)"

interpretation hosts: row_change "host_change ih" host_new for ih
  by unfold_locales (auto simp: host_change_def host_cleared_def host_new_def)

lemma fold_delete_None: "f \<in> set fs \<Longrightarrow> map_of (fold AList.delete fs al) f = None"
proof -
  have "map_of (fold AList.delete fs al) f = (if f \<in> set fs then None else map_of al f)" for al
    by (induction fs arbitrary: al) (auto simp: dict_simps)
  then show "f \<in> set fs \<Longrightarrow> map_of (fold AList.delete fs al) f = None" by simp
qed

lemma import_host_extends:
  assumes "extends (host_change ih) host_new hs (c_hosts (fst pr))" "import_host sq ih item pr = Some pr'"
  shows "extends (host_change ih) host_new hs (c_hosts (fst pr'))"
  using assms
  by (auto simp: import_host_def Let_def host_new_def host_change_def host_cleared_def clear_host_secrets_def fold_delete_None
      split: prod.splits option.splits if_splits intro!: hosts.extends_append hosts.extends_update)

subsection \<open>Guests\<close>

definition connection :: "cfg_guest \<Rightarrow> json list" where
  "connection g = map (\<lambda>f. col f (cg_cols g)) GUEST_CONNECTION_FIELDS"

definition guest_change :: "bool \<Rightarrow> cfg_guest \<Rightarrow> cfg_guest \<Rightarrow> bool" where
  "guest_change ih g g' \<longleftrightarrow> cg_id g' = cg_id g \<and>
     (connection g' = connection g \<and> cg_credential_id g' = cg_credential_id g \<or>
      ih \<and> cg_credential_id g' = None)"

definition guest_new :: "cfg_guest \<Rightarrow> bool" where
  "guest_new g \<longleftrightarrow> cg_credential_id g = None"

interpretation guests: row_change "guest_change ih" guest_new for ih
  by unfold_locales (auto simp: guest_change_def guest_new_def)

lemma col_update: "col f (AList.update k v cols) = (if f = k then v else col f cols)"
  by (simp add: col_def dict_simps)

lemma col_set_fields: "f \<notin> set fs \<Longrightarrow> col f (set_fields fs item cols) = col f cols"
  by (induction fs arbitrary: cols) (auto simp: set_fields_def col_update split: option.splits)

lemma connection_fields:
  "GUEST_CONNECTION_FIELDS = [''ip_address'', ''connection_method'']"
  "''ip_address'' \<notin> set other_guest_fields" "''connection_method'' \<notin> set other_guest_fields"
  by (simp add: GUEST_CONNECTION_FIELDS_def) code_simp+

lemma finish_guest_keeps:
  "connection (finish_guest item n t h c g) = connection g"
  "cg_credential_id (finish_guest item n t h c g) = cg_credential_id g"
  "cg_id (finish_guest item n t h c g) = cg_id g"
  by (simp_all add: connection_def connection_fields finish_guest_def Let_def col_update col_set_fields)

text \<open>The row an import writes for an existing guest.\<close>

lemma import_old_guest_result:
  assumes "import_old_guest sq ih item n t h guest pr = Some pr'"
  shows "\<exists>g2. c_guests (fst pr') = update_rows (\<lambda>r. cg_id r = cg_id guest) (\<lambda>_. g2) (c_guests (fst pr)) \<and>
           guest_change ih guest g2"
proof -
  let ?changes = "connection_changes item (cg_cols guest)"
  let ?g0 = "if ih then guest\<lparr>cg_cols := set_fields ?changes item (cg_cols guest)\<rparr> else guest"
  let ?drop = "?changes \<noteq> [] \<and> ih \<and> cg_credential_id guest \<noteq> None"
  let ?g1 = "if ?drop then ?g0\<lparr>cg_credential_id := None\<rparr> else ?g0"
  let ?g2 = "finish_guest item n t h (fst pr) ?g1"
  have "c_guests (fst pr') = update_rows (\<lambda>r. cg_id r = cg_id guest) (\<lambda>_. ?g2) (c_guests (fst pr))"
    using assms by (cases pr) (auto simp: import_old_guest_def Let_def split: if_splits)
  moreover have "guest_change ih guest ?g2"
    unfolding guest_change_def finish_guest_keeps
    by (cases "?changes = []") (auto simp: connection_def set_fields_def)
  ultimately show ?thesis by blast
qed

lemma import_new_guest_result:
  assumes "import_new_guest sq item n t h pr = Some pr'"
  shows "\<exists>g. c_guests (fst pr') = c_guests (fst pr) @ [g] \<and> guest_new g \<and>
           cg_id g = next_id cg_id (c_guests (fst pr))"
  using assms
  by (cases pr) (auto simp: import_new_guest_def Let_def guest_new_def finish_guest_keeps split: if_splits)

text \<open>The ids of the guests are a primary key.\<close>

definition guest_keys :: "cfg_guest list \<Rightarrow> bool" where
  "guest_keys gs \<longleftrightarrow> distinct (map cg_id gs)"

lemma guest_keys_row: "guest_keys gs \<Longrightarrow> g \<in> set gs \<Longrightarrow> r \<in> set gs \<Longrightarrow> cg_id r = cg_id g \<Longrightarrow> r = g"
  by (auto simp: guest_keys_def distinct_map inj_on_def)

lemma guest_keys_update:
  "guest_keys gs \<Longrightarrow> cg_id g2 = i \<Longrightarrow> guest_keys (update_rows (\<lambda>r. cg_id r = i) (\<lambda>_. g2) gs)"
proof -
  assume "guest_keys gs" "cg_id g2 = i"
  moreover from this(2) have "map cg_id (update_rows (\<lambda>r. cg_id r = i) (\<lambda>_. g2) gs) = map cg_id gs"
    by (auto simp: update_rows_def)
  ultimately show ?thesis by (simp add: guest_keys_def)
qed

definition guests_ok :: "bool \<Rightarrow> cfg_guest list \<Rightarrow> cfg \<Rightarrow> bool" where
  "guests_ok ih gs c \<longleftrightarrow> guest_keys (c_guests c) \<and> extends (guest_change ih) guest_new gs (c_guests c)"

lemma guests_ok_step:
  assumes ok: "guests_ok ih gs (fst pr)" and run: "import_guest sq ih item pr = Some pr'"
  shows "guests_ok ih gs (fst pr')"
  using import_guest_cases[OF run]
proof (elim disjE exE conjE)
  fix n t h assume "import_new_guest sq item n t h pr = Some pr'"
  then obtain g where g: "c_guests (fst pr') = c_guests (fst pr) @ [g]" "guest_new g"
      "cg_id g = next_id cg_id (c_guests (fst pr))"
    using import_new_guest_result by blast
  have "next_id cg_id (c_guests (fst pr)) \<notin> cg_id ` set (c_guests (fst pr))" by (rule next_id_fresh)
  then show ?thesis using ok g by (simp add: guests_ok_def guest_keys_def guests.extends_append)
next
  fix n t h g
  assume "import_old_guest sq ih item n t h g pr = Some pr'" and g: "g \<in> set (c_guests (fst pr))"
  then obtain g2 where g2: "guest_change ih g g2"
      "c_guests (fst pr') = update_rows (\<lambda>r. cg_id r = cg_id g) (\<lambda>_. g2) (c_guests (fst pr))"
    using import_old_guest_result by blast
  have "guest_change ih y g2" if "y \<in> set (c_guests (fst pr))" "cg_id y = cg_id g" for y
    using guest_keys_row[of "c_guests (fst pr)" g y] g that ok g2(1) by (simp add: guests_ok_def)
  then have "extends (guest_change ih) guest_new gs (c_guests (fst pr'))"
    using ok g2(2) by (auto simp: guests_ok_def intro: guests.extends_update)
  then show ?thesis using ok g2 by (simp add: guests_ok_def guest_keys_update guest_change_def)
qed (use ok in simp)

subsection \<open>Roles\<close>

definition role_change :: "bool \<Rightarrow> role \<Rightarrow> role \<Rightarrow> bool" where
  "role_change ir r r' \<longleftrightarrow>
     r_id r' = r_id r \<and> r_name r' = r_name r \<and> r_is_builtin r' = r_is_builtin r \<and>
     (r_is_builtin r \<or> \<not> ir \<longrightarrow> r' = r) \<and> r_level r' \<le> max (r_level r) MAX_IMPORTED_ROLE_LEVEL"

definition role_new :: "role \<Rightarrow> bool" where
  "role_new r \<longleftrightarrow> \<not> r_is_builtin r \<and> r_level r \<le> MAX_IMPORTED_ROLE_LEVEL"

interpretation roles: row_change "role_change ir" role_new for ir
  by unfold_locales (auto simp: role_change_def role_new_def)

definition role_keys :: "role list \<Rightarrow> bool" where
  "role_keys rs \<longleftrightarrow> distinct (map r_id rs)"

definition role_rows_ok :: "role list \<Rightarrow> cfg \<Rightarrow> bool" where
  "role_rows_ok rs c \<longleftrightarrow> role_keys (c_roles c) \<and> extends (role_change True) role_new rs (c_roles c)"

lemma add_imported_role_result:
  assumes "add_imported_role item n pr = Some pr'"
  shows "\<exists>r. c_roles (fst pr') = c_roles (fst pr) @ [r] \<and> role_new r \<and> r_id r = next_id r_id (c_roles (fst pr))"
  using assms
  by (cases pr) (auto simp: add_imported_role_def Let_def role_new_def split: option.splits if_splits)

lemma edited_role_change:
  "\<not> r_is_builtin r \<Longrightarrow> level \<le> max (r_level r) MAX_IMPORTED_ROLE_LEVEL \<Longrightarrow>
   role_change True r (edited_role item level tier_lv display r)"
  by (simp add: role_change_def edited_role_def Let_def)

lemma edit_imported_role_result:
  assumes "edit_imported_role item n role pr = Some pr'"
  shows "\<exists>lv tl d. lv \<le> max (r_level role) MAX_IMPORTED_ROLE_LEVEL \<and>
     c_roles (fst pr') = update_rows (\<lambda>r. r_id r = r_id role) (edited_role item lv tl d) (c_roles (fst pr))"
proof -
  let ?lv = "min (wanted_level item) (max (r_level role) MAX_IMPORTED_ROLE_LEVEL)"
  have "\<exists>tl d. c_roles (fst pr') = update_rows (\<lambda>r. r_id r = r_id role) (edited_role item ?lv tl d) (c_roles (fst pr))"
    using assms unfolding edit_imported_role_def Let_def
    by (cases pr) (auto simp del: min_less_iff_conj split: option.splits if_splits, (rule exI, rule exI, rule refl)+)
  moreover have "?lv \<le> max (r_level role) MAX_IMPORTED_ROLE_LEVEL" by simp
  ultimately show ?thesis by blast
qed

lemma role_rows_ok_step:
  assumes ok: "role_rows_ok rs (fst pr)" and run: "import_role item pr = Some pr'"
  shows "role_rows_ok rs (fst pr')"
  using import_role_cases[OF run]
proof (elim disjE exE conjE)
  fix n assume "add_imported_role item n pr = Some pr'"
  then obtain r where r: "c_roles (fst pr') = c_roles (fst pr) @ [r]" "role_new r"
      "r_id r = next_id r_id (c_roles (fst pr))"
    using add_imported_role_result by blast
  have "next_id r_id (c_roles (fst pr)) \<notin> r_id ` set (c_roles (fst pr))" by (rule next_id_fresh)
  then show ?thesis using ok r by (simp add: role_rows_ok_def role_keys_def roles.extends_append)
next
  fix n role
  assume e: "edit_imported_role item n role pr = Some pr'" "\<not> r_is_builtin role"
    and "first_row (\<lambda>r. r_name r = n) (c_roles (fst pr)) = Some role"
  then have mem: "role \<in> set (c_roles (fst pr))" by (auto dest: first_row_Some)
  obtain lv tl d where lv: "lv \<le> max (r_level role) MAX_IMPORTED_ROLE_LEVEL"
    and f: "c_roles (fst pr') = update_rows (\<lambda>r. r_id r = r_id role) (edited_role item lv tl d) (c_roles (fst pr))"
    using edit_imported_role_result[OF e(1)] by blast
  have uniq: "y = role" if "y \<in> set (c_roles (fst pr))" "r_id y = r_id role" for y
    using ok mem that by (auto simp: role_rows_ok_def role_keys_def distinct_map inj_on_def)
  have "map r_id (c_roles (fst pr')) = map r_id (c_roles (fst pr))"
    unfolding f by (simp add: update_rows_def edited_role_def Let_def)
  moreover have "extends (role_change True) role_new rs (c_roles (fst pr'))"
    unfolding f using ok edited_role_change[OF e(2) lv] uniq
    by (auto simp: role_rows_ok_def intro!: roles.extends_update)
  ultimately show ?thesis using ok by (simp add: role_rows_ok_def role_keys_def)
qed (use ok in simp)

lemma import_keeps_roles:
  assumes "apply_import sq doc False ih c = Applied c' rp"
  shows "c_roles c' = c_roles c"
  using assms
proof (rule apply_import_invariant[where P = "\<lambda>d. c_roles d = c_roles c"])
  fix item t t' assume "c_roles (fst t) = c_roles c" "import_tag item t = Some t'"
  then show "c_roles (fst t') = c_roles c" using import_tag_frame by metis
next
  fix item t t' assume "c_roles (fst t) = c_roles c" "import_host sq ih item t = Some t'"
  then show "c_roles (fst t') = c_roles c" using import_host_frame by metis
next
  fix item t t' assume "c_roles (fst t) = c_roles c" "import_guest sq ih item t = Some t'"
  then show "c_roles (fst t') = c_roles c" using import_guest_frame by metis
qed simp_all

definition rows_ok :: "bool \<Rightarrow> cfg \<Rightarrow> cfg \<Rightarrow> bool" where
  "rows_ok ih c0 c \<longleftrightarrow> extends (host_change ih) host_new (c_hosts c0) (c_hosts c) \<and>
     guests_ok ih (c_guests c0) c \<and> role_rows_ok (c_roles c0) c"

lemma rows_ok_cong:
  "c_guests c' = c_guests c \<Longrightarrow> guests_ok ih gs c' = guests_ok ih gs c"
  "c_roles c' = c_roles c \<Longrightarrow> role_rows_ok rs c' = role_rows_ok rs c"
  by (simp_all add: guests_ok_def role_rows_ok_def)

lemma apply_import_rows_ok:
  assumes "apply_import sq doc ir ih c = Applied c' rp" "guest_keys (c_guests c)" "role_keys (c_roles c)"
  shows "rows_ok ih c c'"
  using assms(1)
proof (rule apply_import_invariant[where P = "rows_ok ih c"])
  show "rows_ok ih c c"
    using assms(2,3) by (simp add: rows_ok_def guests_ok_def role_rows_ok_def hosts.extends_refl
        guests.extends_refl roles.extends_refl)
next
  fix item t t' assume "rows_ok ih c (fst t)" "import_tag item t = Some t'"
  then show "rows_ok ih c (fst t')"
    using import_tag_frame[of item t t'] rows_ok_cong[of "fst t'" "fst t"] by (simp add: rows_ok_def)
next
  fix item t t' assume "rows_ok ih c (fst t)" "import_host sq ih item t = Some t'"
  then show "rows_ok ih c (fst t')"
    using import_host_frame[of sq ih item t t'] import_host_extends[of ih "c_hosts c" t sq item t']
      rows_ok_cong[of "fst t'" "fst t"] by (simp add: rows_ok_def)
next
  fix item t t' assume "rows_ok ih c (fst t)" "import_guest sq ih item t = Some t'"
  then show "rows_ok ih c (fst t')"
    using import_guest_frame[of sq ih item t t'] guests_ok_step[of ih "c_guests c" t sq item t']
      rows_ok_cong(2)[of "fst t'" "fst t"] by (simp add: rows_ok_def)
next
  fix item t t' assume "rows_ok ih c (fst t)" "import_role item t = Some t'"
  then show "rows_ok ih c (fst t')"
    using import_role_frame[of item t t'] role_rows_ok_step[of "c_roles c" t item t']
      rows_ok_cong(1)[of "fst t'" "fst t"] by (simp add: rows_ok_def)
next
  fix kv and t :: progress assume "rows_ok ih c (fst t)"
  then show "rows_ok ih c (fst (import_setting ih kv t))"
    using rows_ok_cong[of "fst (import_setting ih kv t)" "fst t"] by (simp add: rows_ok_def)
qed

text \<open>
  C10. What an import can do to existing hosts, guests and roles, whatever the document is. A host
  stays as it is unless connection fields are imported, and a host that changes has lost its stored
  password, API token secret and IPMI password; the SSH credential is a link of its own and the subject
  of \<open>import_keeps_ssh_credential\<close>. A guest keeps its address and connection method together with its
  credential, or, with the opt-in only, has lost its credential. Built-in roles never change, no role
  changes without the role opt-in, and no role's level rises above the operator tier or its own
  previous level; new roles are at most operators.
\<close>

theorem import_rows_confined:
  assumes "apply_import sq doc import_roles import_hosts c = Applied c' rp"
    and "guest_keys (c_guests c)" "role_keys (c_roles c)"
  shows "(i < length (c_hosts c) \<longrightarrow>
            i < length (c_hosts c') \<and> host_cleared import_hosts (c_hosts c ! i) (c_hosts c' ! i)) \<and>
         (i < length (c_guests c) \<longrightarrow>
            i < length (c_guests c') \<and> guest_change import_hosts (c_guests c ! i) (c_guests c' ! i)) \<and>
         (i < length (c_roles c) \<longrightarrow>
            i < length (c_roles c') \<and> role_change import_roles (c_roles c ! i) (c_roles c' ! i)) \<and>
         (length (c_roles c) \<le> i \<longrightarrow> i < length (c_roles c') \<longrightarrow> import_roles \<and> role_new (c_roles c' ! i))"
proof -
  have ok: "rows_ok import_hosts c c'" by (rule apply_import_rows_ok[OF assms])
  have r: "extends (role_change import_roles) role_new (c_roles c) (c_roles c')"
    and none: "\<not> import_roles \<Longrightarrow> c_roles c' = c_roles c"
    using ok import_keeps_roles[of sq doc import_hosts c c' rp] assms(1)
    by (cases import_roles; simp add: rows_ok_def role_rows_ok_def roles.extends_refl)+
  have fresh: "length (c_roles c) \<le> i \<Longrightarrow> i < length (c_roles c') \<Longrightarrow> import_roles \<and> role_new (c_roles c' ! i)"
    using none roles.extends_new[OF r, of i] by (cases import_roles) auto
  show ?thesis
    using ok fresh roles.extends_old[OF r]
      hosts.extends_old[of import_hosts "c_hosts c" "c_hosts c'"]
      guests.extends_old[of import_hosts "c_guests c" "c_guests c'"]
    by (auto simp: rows_ok_def guests_ok_def host_change_def)
qed

text \<open>
  The one stored secret of a host that an import does not touch: a host keeps its SSH credential also
  when the import changes its address.
\<close>

theorem import_keeps_ssh_credential:
  assumes "apply_import sq doc import_roles import_hosts c = Applied c' rp"
    and "guest_keys (c_guests c)" "role_keys (c_roles c)" "i < length (c_hosts c)"
  shows "ch_ssh_credential_id (c_hosts c' ! i) = ch_ssh_credential_id (c_hosts c ! i)"
  using apply_import_rows_ok[OF assms(1-3)] assms(4) hosts.extends_old[of import_hosts "c_hosts c" "c_hosts c'" i]
  by (simp add: rows_ok_def host_change_def)

section \<open>An export shows no secret\<close>

text \<open>
  Two configurations that agree on everything but secrets: the stored secrets and credential links of
  hosts and guests, and the values of settings that are secret by their key or by their form.
\<close>

definition same_setting :: "string \<times> string option \<Rightarrow> string \<times> string option \<Rightarrow> bool" where
  "same_setting s t \<longleftrightarrow> fst s = fst t \<and>
     (snd s = snd t \<or> looks_like_secret_key (fst s) \<or>
      looks_like_secret_value (json_opt (snd s)) \<and> looks_like_secret_value (json_opt (snd t)))"

definition same_public :: "cfg \<Rightarrow> cfg \<Rightarrow> bool" where
  "same_public c d \<longleftrightarrow>
     c_tags d = c_tags c \<and> c_roles d = c_roles c \<and>
     map (\<lambda>h. (ch_id h, ch_cols h)) (c_hosts d) = map (\<lambda>h. (ch_id h, ch_cols h)) (c_hosts c) \<and>
     map (\<lambda>g. (cg_cols g, cg_host_id g, cg_tags g)) (c_guests d) =
       map (\<lambda>g. (cg_cols g, cg_host_id g, cg_tags g)) (c_guests c) \<and>
     list_all2 same_setting (c_settings c) (c_settings d)"

lemma insort_key_map: "insort_key k (f x) (map f xs) = map f (insort_key (\<lambda>x. k (f x)) x xs)"
  by (induction xs) auto

lemma sort_key_map: "map f (sort_key (\<lambda>x. k (f x)) xs) = sort_key k (map f xs)"
  by (induction xs) (simp_all add: insort_key_map[symmetric])

text \<open>Sorting by a key of a view, then viewing, is sorting the views.\<close>

lemma sorted_view:
  assumes "map v xs = map v ys"
  shows "map (g \<circ> v) (sort_key (k \<circ> v) xs) = map (g \<circ> v) (sort_key (k \<circ> v) ys)"
  using arg_cong[OF assms, of "map g \<circ> sort_key k"] by (simp add: sort_key_map[symmetric] comp_def)

lemma host_names_agree:
  assumes "map (\<lambda>h. (ch_id h, ch_cols h)) hs = map (\<lambda>h. (ch_id h, ch_cols h)) ks"
  shows "map_option ch_cols (first_row (\<lambda>h. ch_id h = n) hs) = map_option ch_cols (first_row (\<lambda>h. ch_id h = n) ks)"
  using assms
proof (induction hs arbitrary: ks)
  case (Cons h hs)
  then show ?case by (cases ks) auto
qed simp

lemma case_map_option: "(case x of None \<Rightarrow> a | Some y \<Rightarrow> f (g y)) = (case map_option g x of None \<Rightarrow> a | Some z \<Rightarrow> f z)"
  by (cases x) simp_all

lemma host_by_id_agree:
  assumes "same_public c d"
  shows "map_option ch_cols (host_by_id n d) = map_option ch_cols (host_by_id n c)"
proof (cases n)
  case (Some i)
  have "map (\<lambda>h. (ch_id h, ch_cols h)) (c_hosts d) = map (\<lambda>h. (ch_id h, ch_cols h)) (c_hosts c)"
    using assms by (simp add: same_public_def)
  from host_names_agree[OF this, of i] show ?thesis by (simp add: host_by_id_def Some)
qed (simp add: host_by_id_def)

lemma export_guest_agree:
  assumes "same_public c d"
  shows "export_guest d = export_guest c"
proof
  fix g
  have "c_tags d = c_tags c" using assms by (simp add: same_public_def)
  then show "export_guest d g = export_guest c g"
    unfolding export_guest_def exported_tag_names_def
    by (subst (1 2) case_map_option[where g = ch_cols]) (simp add: host_by_id_agree[OF assms])
qed

text \<open>An exported guest depends on its public view only.\<close>

lemma export_guest_view:
  "export_guest c g = export_guest c \<lparr>cg_id = 0, cg_cols = cg_cols g, cg_host_id = cg_host_id g,
     cg_credential_id = None, cg_tags = cg_tags g\<rparr>"
  by (simp add: export_guest_def)

lemma export_setting_agree:
  "same_setting s t \<Longrightarrow> (fst s, export_setting (fst s) (snd s)) = (fst t, export_setting (fst t) (snd t))"
  by (auto simp: same_setting_def export_setting_def)

lemma export_settings_agree:
  assumes "list_all2 same_setting ss ts"
  shows "map (\<lambda>(k, v). (k, export_setting k v)) (sort_key fst ss) =
         map (\<lambda>(k, v). (k, export_setting k v)) (sort_key fst ts)"
proof -
  let ?f = "\<lambda>s. (fst s, export_setting (fst s) (snd s))"
  have views: "map ?f ss = map ?f ts"
    using assms by (induction rule: list_all2_induct) (auto dest: export_setting_agree)
  have "map ?f (sort_key fst us) = sort_key fst (map ?f us)" for us
    using sort_key_map[of ?f fst us] by simp
  then show ?thesis using views by (simp add: case_prod_unfold)
qed

text \<open>
  C38. An export reveals no secret. Configurations that differ only in stored passwords and tokens of
  hosts, in credential links, in the values of settings whose key is secret-shaped and in values of
  Fernet form have the same export.
\<close>

theorem export_noninterference:
  assumes "same_public c d"
  shows "build_export d = build_export c"
proof -
  have pub: "c_tags d = c_tags c" "c_roles d = c_roles c"
      "map (\<lambda>h. (ch_id h, ch_cols h)) (c_hosts d) = map (\<lambda>h. (ch_id h, ch_cols h)) (c_hosts c)"
      "map (\<lambda>g. (cg_cols g, cg_host_id g, cg_tags g)) (c_guests d) =
       map (\<lambda>g. (cg_cols g, cg_host_id g, cg_tags g)) (c_guests c)"
      "list_all2 same_setting (c_settings c) (c_settings d)"
    using assms by (simp_all add: same_public_def)
  have hosts: "map (\<lambda>h. JDict (model_to_dict (ch_cols h) HOST_FIELDS))
        (sort_key (\<lambda>h. json_text (col ''name'' (ch_cols h))) (c_hosts d)) =
      map (\<lambda>h. JDict (model_to_dict (ch_cols h) HOST_FIELDS))
        (sort_key (\<lambda>h. json_text (col ''name'' (ch_cols h))) (c_hosts c))"
    using sorted_view[OF pub(3), of "\<lambda>(_, cols). JDict (model_to_dict cols HOST_FIELDS)"
        "\<lambda>(_, cols). json_text (col ''name'' cols)"] by (simp add: comp_def)
  have guests: "map (export_guest d) (sort_key (\<lambda>g. json_text (col ''name'' (cg_cols g))) (c_guests d)) =
      map (export_guest c) (sort_key (\<lambda>g. json_text (col ''name'' (cg_cols g))) (c_guests c))"
    using sorted_view[OF pub(4), of "\<lambda>(cols, h, ts). export_guest c \<lparr>cg_id = 0, cg_cols = cols,
          cg_host_id = h, cg_credential_id = None, cg_tags = ts\<rparr>"
        "\<lambda>(cols, _, _). json_text (col ''name'' cols)"]
    by (simp add: comp_def export_guest_agree[OF assms] export_guest_view[symmetric])
  show ?thesis
    using export_settings_agree[OF pub(5)] by (simp add: build_export_def hosts guests pub(1,2))
qed

section \<open>Witnesses\<close>

text \<open>A database that accepts every row and compares values exactly.\<close>

definition sample_sql :: sql where
  "sample_sql = \<lparr>sql_flush = (\<lambda>_ _. True), sql_eq = (\<lambda>a b. Some (a = b))\<rparr>"

definition sample_cfg :: cfg where
  "sample_cfg =
     \<lparr>c_tags = [\<lparr>t_id = 1, t_name = ''prod'', t_color = ''#fff'', t_unifi_networks = [''lan'']\<rparr>],
      c_hosts = [\<lparr>ch_id = 1, ch_cols = [(''name'', JStr ''pve1''), (''hostname'', JStr ''10.0.0.1'')],
                  ch_secrets = [(''api_token_secret'', ''x'')], ch_ssh_credential_id = Some 3\<rparr>],
      c_guests = [\<lparr>cg_id = 1, cg_cols = [(''name'', JStr ''web''), (''guest_type'', JStr ''ct''),
                     (''ip_address'', JStr ''10.0.0.5'')],
                   cg_host_id = Some 1, cg_credential_id = Some 2, cg_tags = [1]\<rparr>],
      c_roles = [\<lparr>r_id = 1, r_name = ''ops'', r_display_name = ''Ops'', r_level = 2, r_is_builtin = False,
                  r_base_tier = None, r_perms = []\<rparr>],
      c_settings = [(''trusted_subnets'', Some ''10.0.0.0/8''), (''unifi_base_url'', Some ''https://u''),
                    (''unifi_password'', Some ''pw'')]\<rparr>"

definition sample_doc :: json where
  "sample_doc =
     JDict [(''version'', JInt 1),
       (''hosts'', JList [JDict [(''name'', JStr ''pve1''), (''hostname'', JStr ''evil'')]]),
       (''tags'', JList []),
       (''guests'', JList [JDict [(''name'', JStr ''web''), (''guest_type'', JStr ''ct''),
          (''ip_address'', JStr ''6.6.6.6'')]]),
       (''roles'', JList [JDict [(''name'', JStr ''ops''), (''level'', JInt 4)]]),
       (''settings'', JDict [(''trusted_subnets'', JStr ''0.0.0.0/0''), (''unifi_base_url'', JStr ''https://evil''),
          (''unifi_password'', JStr ''mine'')])]"

lemma sample_import:
  obtains c' rp where "apply_import sample_sql sample_doc True True sample_cfg = Applied c' rp"
    "setting_text ''unifi_base_url'' c' = ''https://evil''" "length (c_roles c') = 1"
proof -
  have "(case apply_import sample_sql sample_doc True True sample_cfg of
      Applied c' _ \<Rightarrow> setting_text ''unifi_base_url'' c' = ''https://evil'' \<and> length (c_roles c') = 1
    | _ \<Rightarrow> False)" by code_simp
  then show ?thesis using that by (auto split: import_result.splits)
qed


theorem import_rows_confined_witness:
  "\<exists>c' rp. apply_import sample_sql sample_doc True True sample_cfg = Applied c' rp \<and> r_level (c_roles c' ! 0) \<le> 2"
proof -
  obtain c' rp where r: "apply_import sample_sql sample_doc True True sample_cfg = Applied c' rp"
    by (rule sample_import)
  have "guest_keys (c_guests sample_cfg)" "role_keys (c_roles sample_cfg)"
    by (simp_all add: guest_keys_def role_keys_def sample_cfg_def)
  then have "role_change True (c_roles sample_cfg ! 0) (c_roles c' ! 0)"
    using import_rows_confined[OF r, of 0] by (simp add: sample_cfg_def)
  then show ?thesis using r by (auto simp: role_change_def sample_cfg_def MAX_IMPORTED_ROLE_LEVEL_def)
qed

theorem export_noninterference_witness:
  "build_export (set_no_commit ''unifi_password'' (Some ''other'') sample_cfg) = build_export sample_cfg"
proof (rule export_noninterference)
  have "looks_like_secret_key ''unifi_password''" by code_simp
  then show "same_public sample_cfg (set_no_commit ''unifi_password'' (Some ''other'') sample_cfg)"
    by (simp add: same_public_def set_no_commit_def sample_cfg_def same_setting_def)
qed

end
