(* ===== verification/Guest_Scope.thy ===== *)
theory Guest_Scope
  imports Permissions
begin

text \<open>
  Tag scope for guests that are chosen indirectly (\<^verbatim>\<open>src/core/guest_scope.py\<close>), and the
  collaboration routes of \<^verbatim>\<open>src/routes/api.py\<close> that use it: the event stream, the presence
  heartbeat, the list of shared terminals and the cursors. A result \<^term>\<open>None\<close> is an unhandled
  exception.
\<close>

section \<open>Pages and guests\<close>

text \<open>
  \<open>(\d+)(?:[/?#]|$)\<close> after the prefix: the dollar also matches in front of a final line feed. The
  result is the digits.
\<close>

definition page_number :: "string \<Rightarrow> string option" where
  "page_number s =
     (let ds = takeWhile ascii_digit s; rest = dropWhile ascii_digit s in
      if ds \<noteq> [] \<and> (rest = [] \<or> rest = [CHR 0x0A] \<or> List.member ''/?#'' (hd rest)) then Some ds else None)"

definition after_prefix :: "string list \<Rightarrow> string \<Rightarrow> string option" where
  "after_prefix ps s = map_option (\<lambda>p. drop (length p) s) (find (\<lambda>p. startswith s p) ps)"

definition page_match :: "string list \<Rightarrow> string \<Rightarrow> string option" where
  "page_match ps s = Option.bind (after_prefix ps s) page_number"

text \<open>\<^verbatim>\<open>db.session.get(Model, int(digits))\<close>: the number must be convertible and fit 64 bits.\<close>

definition row_id :: "string \<Rightarrow> int option" where
  "row_id ds = (case py_int ds of None \<Rightarrow> None | Some n \<Rightarrow> if \<bar>n\<bar> < 2 ^ 63 then Some n else None)"

definition guest_for_page :: "db \<Rightarrow> string \<Rightarrow> guest option option" where
  "guest_for_page d page =
     (case page_match [''/guests/'', ''/terminal/''] page of
        Some ds \<Rightarrow> map_option (get_guest d) (row_id ds)
      | None \<Rightarrow>
         (case page_match [''/services/''] page of
            Some ds \<Rightarrow>
              map_option (\<lambda>n. case get_service d n of None \<Rightarrow> None | Some svc \<Rightarrow> get_guest d (gs_guest_id svc))
                (row_id ds)
          | None \<Rightarrow> Some None))"

definition page_tag_ids :: "db \<Rightarrow> string \<Rightarrow> int list option option" where
  "page_tag_ids d page = map_option (map_option g_tags) (guest_for_page d page)"

definition page_visible_to :: "int list option \<Rightarrow> bool \<Rightarrow> int list \<Rightarrow> bool" where
  "page_visible_to tag_ids viewer_is_admin viewer_tag_ids =
     (case tag_ids of None \<Rightarrow> True
      | Some ts \<Rightarrow> if viewer_is_admin then True else tags_meet ts viewer_tag_ids)"

interpretation page_scope: tag_scope page_visible_to
  by unfold_locales (auto simp: page_visible_to_def split: option.splits)

section \<open>Application settings and guests\<close>

datatype selection = Selected string | Invalid_id | Not_found | Not_permitted | Selection_crash

definition resolve_guest_selection :: "db \<Rightarrow> user \<Rightarrow> string option \<Rightarrow> selection" where
  "resolve_guest_selection d u raw =
     (let raw = py_strip (opt_str raw) in
      if raw = [] \<or> is_admin d u then Selected raw
      else if \<not> py_isdigit raw then Invalid_id
      else (case row_id raw of
              None \<Rightarrow> Selection_crash
            | Some n \<Rightarrow>
               (case get_guest d n of
                  None \<Rightarrow> Not_found
                | Some g \<Rightarrow> if \<not> may_access_guest d u g then Not_permitted else Selected raw)))"

fun configured_guests_out_of_scope :: "db \<Rightarrow> user \<Rightarrow> string list \<Rightarrow> string list option" where
  "configured_guests_out_of_scope d u [] = Some []"
| "configured_guests_out_of_scope d u (key # keys) =
     (let raw = py_strip (setting_get d key []) in
      if \<not> py_isdigit raw then configured_guests_out_of_scope d u keys
      else (case row_id raw of
              None \<Rightarrow> None
            | Some n \<Rightarrow>
               (case configured_guests_out_of_scope d u keys of
                  None \<Rightarrow> None
                | Some rest \<Rightarrow>
                   (case get_guest d n of
                      None \<Rightarrow> Some rest
                    | Some g \<Rightarrow> Some (if may_access_guest d u g then rest else g_name g # rest)))))"

datatype guard = Pass | Refuse string | Guard_crash

definition require_configured_guest_scope :: "db \<Rightarrow> string \<Rightarrow> user option \<Rightarrow> string list \<Rightarrow> string \<Rightarrow> guard" where
  "require_configured_guest_scope d meth u setting_keys redirect_endpoint =
     (if meth \<noteq> ''POST'' then Pass
      else (case u of
              None \<Rightarrow> Pass
            | Some user \<Rightarrow>
               (case configured_guests_out_of_scope d user setting_keys of
                  None \<Rightarrow> Guard_crash
                | Some [] \<Rightarrow> Pass
                | Some _ \<Rightarrow> Refuse redirect_endpoint)))"

section \<open>Collaboration routes\<close>

definition MAX_COLLAB_PAGE_LEN :: nat where "MAX_COLLAB_PAGE_LEN = 512"

definition is_safe_relative_page :: "string \<Rightarrow> bool" where
  "is_safe_relative_page page \<longleftrightarrow>
     0 < length page \<and> length page \<le> MAX_COLLAB_PAGE_LEN \<and>
     hd page = CHR ''/'' \<and> take 1 (tl page) \<noteq> ''/'' \<and>
     \<not> List.member page CHR 0x5C \<and>
     \<not> List.member (takeWhile (\<lambda>c. c \<noteq> CHR ''/'') page) CHR '':''"

datatype collab_reply = Bad_page | Page_crash | Collab_ok

definition collab_stream ::
  "nat \<Rightarrow> seconds \<Rightarrow> (int \<Rightarrow> seconds) \<Rightarrow> user \<Rightarrow> string \<Rightarrow> app \<Rightarrow> collab_reply \<times> app" where
  "collab_stream qid now clk u page a =
     (if \<not> is_safe_relative_page page then (Bad_page, a)
      else (case page_tag_ids (a_db a) page of
              None \<Rightarrow> (Page_crash, a)
            | Some tags \<Rightarrow>
                (Collab_ok, a\<lparr>a_hub :=
                   connect qid now clk (u_id u) (u_username u)
                     (str_or (opt_str (u_display_name u)) (u_username u)) page
                     (is_admin (a_db a) u) (Some (u_allowed_tags u)) (can Can_moderate (a_db a) u) tags
                     (a_hub a)\<rparr>)))"

text \<open>The first message of a stream: presence as the viewer may see it.\<close>

definition stream_snapshot :: "seconds \<Rightarrow> user \<Rightarrow> app \<Rightarrow> presence list" where
  "stream_snapshot now u a =
     get_online_users now (is_admin (a_db a) u) (Some (u_allowed_tags u)) None (a_hub a)"

definition collab_presence ::
  "seconds \<Rightarrow> (int \<Rightarrow> seconds) \<Rightarrow> user \<Rightarrow> string \<Rightarrow> string option \<Rightarrow> app \<Rightarrow> collab_reply \<times> app" where
  "collab_presence now clk u page following a =
     (if \<not> is_safe_relative_page page then (Bad_page, a)
      else (case page_tag_ids (a_db a) page of
              None \<Rightarrow> (Page_crash, a)
            | Some tags \<Rightarrow>
                (Collab_ok, a\<lparr>a_hub := update_presence now clk (u_id u) page
                   (if opt_str following = [] then None else following) tags (a_hub a)\<rparr>)))"

definition collab_terminal_sessions :: "db \<Rightarrow> user \<Rightarrow> registry \<Rightarrow> term_session list" where
  "collab_terminal_sessions d u reg =
     filter (\<lambda>s. case get_guest d (ts_guest_id s) of None \<Rightarrow> False | Some g \<Rightarrow> may_access_guest d u g)
       (registry_get_all reg)"

definition collab_cursor_update ::
  "seconds \<Rightarrow> user \<Rightarrow> (real \<times> real) option \<Rightarrow> string \<Rightarrow> string \<Rightarrow> cursors \<Rightarrow> collab_reply \<times> cursors" where
  "collab_cursor_update now u pos page color cs =
     (case pos of
        None \<Rightarrow> (Bad_page, cs)
      | Some (x, y) \<Rightarrow>
          if \<not> is_safe_relative_page page then (Bad_page, cs)
          else (Collab_ok, cursor_update now (u_username u)
                  (str_or (opt_str (u_display_name u)) (u_username u)) page x y color cs))"

text \<open>\<^term>\<open>None\<close>: refused or crashed.\<close>

definition collab_cursors :: "seconds \<Rightarrow> user \<Rightarrow> string \<Rightarrow> db \<Rightarrow> cursors \<Rightarrow> cursor_view list option" where
  "collab_cursors now u page d cs =
     (if \<not> is_safe_relative_page page then None
      else (case page_tag_ids d page of
              None \<Rightarrow> None
            | Some tags \<Rightarrow>
                if \<not> page_visible_to tags (is_admin d u) (u_allowed_tags u) then Some []
                else Some (cursors_for_page now page (Some (u_username u)) cs)))"

section \<open>Lemmas\<close>

lemma takeWhile_all: "list_all P xs \<Longrightarrow> takeWhile P xs = xs"
  by (induction xs) auto

lemma dropWhile_all: "list_all P xs \<Longrightarrow> dropWhile P xs = []"
  by (induction xs) auto

text \<open>A guest's own page is resolved to the guest.\<close>

lemma guest_page_resolves:
  assumes "0 \<le> n" "n < 2 ^ 63"
  shows "guest_for_page d (''/guests/'' @ py_str_int n) = Some (get_guest d n)"
proof -
  let ?ds = "nat_digits (nat n)"
  have ds: "py_str_int n = ?ds" using assms by (simp add: py_str_int_def)
  have "page_number ?ds = Some ?ds"
    by (simp add: page_number_def Let_def takeWhile_all dropWhile_all nat_digits_digits)
  then have "page_match [''/guests/'', ''/terminal/''] (''/guests/'' @ ?ds) = Some ?ds"
    by (simp add: page_match_def after_prefix_def startswith_def)
  moreover have "row_id ?ds = Some n"
    using py_int_str[of n] assms ds by (simp add: row_id_def)
  ultimately show ?thesis by (simp add: guest_for_page_def ds)
qed

text \<open>The number that a stored setting names, if the guard looks it up.\<close>

definition configured_guest :: "db \<Rightarrow> string \<Rightarrow> guest option" where
  "configured_guest d key =
     (let raw = py_strip (setting_get d key []) in
      if py_isdigit raw then Option.bind (row_id raw) (get_guest d) else None)"

definition configured_ok :: "db \<Rightarrow> string \<Rightarrow> bool" where
  "configured_ok d key \<longleftrightarrow>
     (let raw = py_strip (setting_get d key []) in py_isdigit raw \<longrightarrow> row_id raw \<noteq> None)"

lemma out_of_scope_iff:
  "configured_guests_out_of_scope d u keys =
     (if list_all (configured_ok d) keys
      then Some (map g_name (filter (\<lambda>g. \<not> may_access_guest d u g) (List.map_filter (configured_guest d) keys)))
      else None)"
proof (induction keys)
  case (Cons k ks)
  show ?case
  proof (cases "py_isdigit (py_strip (setting_get d k []))")
    case False
    then have "configured_ok d k" "configured_guest d k = None"
      by (simp_all add: configured_ok_def configured_guest_def)
    then show ?thesis using Cons False by (simp add: map_filter_simps)
  next
    case True
    show ?thesis
    proof (cases "row_id (py_strip (setting_get d k []))")
      case None
      then have "\<not> configured_ok d k" using True by (simp add: configured_ok_def)
      then show ?thesis using True None by simp
    next
      case (Some n)
      then have "configured_ok d k" "configured_guest d k = get_guest d n"
        using True by (simp_all add: configured_ok_def configured_guest_def)
      then show ?thesis using Cons True Some by (auto simp: map_filter_simps split: option.splits)
    qed
  qed
qed (simp add: map_filter_simps)

section \<open>Properties\<close>

lemma py_isdigit_nonempty: "py_isdigit s \<Longrightarrow> s \<noteq> []"
  by (simp add: py_isdigit_def)

lemma configured_guest_after_save:
  assumes "py_isdigit v" "py_strip v = v" "row_id v = Some n"
  shows "configured_guest (setting_set key v d) key = get_guest d n" "configured_ok (setting_set key v d) key"
  using assms by (simp_all add: configured_guest_def configured_ok_def get_guest_def)

lemma may_access_guest_setting_set [simp]:
  "may_access_guest (setting_set k v d) u g = may_access_guest d u g"
  by (simp add: may_access_guest_def can_access_guest_def user_props role_of_def get_role_def)

text \<open>
  Selecting a guest and acting on it. For a user outside the administrator tier, a form value is
  accepted exactly when, stripped, it is empty or names an existing guest within his tags; and once
  that value is stored, the guard of the application's blueprint lets his POST through, and lets the
  POST of any other user through exactly when that user, too, may access the guest.
\<close>

theorem guest_selection_guarded:
  assumes "\<not> is_admin d u"
  shows "(resolve_guest_selection d u raw = Selected v \<longleftrightarrow>
            v = py_strip (opt_str raw) \<and>
            (v = [] \<or> py_isdigit v \<and> (\<exists>n g. row_id v = Some n \<and> get_guest d n = Some g \<and> may_access_guest d u g))) \<and>
         (resolve_guest_selection d u raw = Selected v \<longrightarrow>
            require_configured_guest_scope (setting_set key v d) ''POST'' (Some u) [key] page = Pass \<and>
            (v \<noteq> [] \<longrightarrow> (\<exists>g. configured_guest (setting_set key v d) key = Some g \<and>
               require_configured_guest_scope (setting_set key v d) ''POST'' (Some other) [key] page =
                 (if may_access_guest d other g then Pass else Refuse page))))"
proof -
  have sel: "resolve_guest_selection d u raw = Selected v \<longleftrightarrow>
      v = py_strip (opt_str raw) \<and>
      (v = [] \<or> py_isdigit v \<and> (\<exists>n g. row_id v = Some n \<and> get_guest d n = Some g \<and> may_access_guest d u g))"
    using assms py_isdigit_nonempty
    by (auto simp: resolve_guest_selection_def Let_def split: option.splits if_splits)
  have empty: "require_configured_guest_scope (setting_set key [] d) ''POST'' (Some w) [key] page = Pass" for w
    by (simp add: require_configured_guest_scope_def py_strip_def py_isdigit_def)
  have set: "configured_guest (setting_set key v d) key = Some g \<and>
      require_configured_guest_scope (setting_set key v d) ''POST'' (Some w) [key] page =
        (if may_access_guest d w g then Pass else Refuse page)"
    if "v = py_strip (opt_str raw)" "py_isdigit v" "row_id v = Some n" "get_guest d n = Some g" for w n g
    using configured_guest_after_save[OF that(2) _ that(3), of key d] that py_strip_idem[of "opt_str raw"]
    by (simp add: require_configured_guest_scope_def out_of_scope_iff map_filter_simps)
  show ?thesis
  proof (intro conjI impI)
    assume "resolve_guest_selection d u raw = Selected v"
    then have v: "v = py_strip (opt_str raw)"
      and "v = [] \<or> py_isdigit v \<and> (\<exists>n g. row_id v = Some n \<and> get_guest d n = Some g \<and> may_access_guest d u g)"
      using sel by auto
    then show "require_configured_guest_scope (setting_set key v d) ''POST'' (Some u) [key] page = Pass"
      using empty set by auto
    assume "v \<noteq> []"
    then show "\<exists>g. configured_guest (setting_set key v d) key = Some g \<and>
         require_configured_guest_scope (setting_set key v d) ''POST'' (Some other) [key] page =
           (if may_access_guest d other g then Pass else Refuse page)"
      using v \<open>v = [] \<or> _\<close> set by blast
  qed (rule sel)
qed

definition scoped_db :: db where
  "scoped_db = seeded_db\<lparr>d_users := map (\<lambda>u. u\<lparr>u_role_id := 3, u_allowed_tags := [7]\<rparr>) (d_users seeded_db)\<rparr>"

theorem guest_selection_guarded_witness:
  "require_configured_guest_scope (setting_set ''ghost_guest_id'' ''1'' scoped_db) ''POST''
     (Some (hd (d_users scoped_db))) [''ghost_guest_id''] ''p'' = Pass"
proof -
  have na: "\<not> is_admin scoped_db (hd (d_users scoped_db))" by code_simp
  have "resolve_guest_selection scoped_db (hd (d_users scoped_db)) (Some '' 1 '') = Selected ''1''" by code_simp
  then show ?thesis using guest_selection_guarded[OF na, of "Some '' 1 ''" "''1''"] by blast
qed

text \<open>
  A stored value of superscript digits passes \<^verbatim>\<open>isdigit\<close> but not \<^verbatim>\<open>int\<close>: the guard then
  crashes on every POST of every user, the form that would repair the setting included.
\<close>

lemma superscript_setting_crashes:
  "require_configured_guest_scope (setting_set key [CHR 0xB2] d) ''POST'' (Some u) [key] page = Guard_crash"
  by (simp add: require_configured_guest_scope_def)
    (simp add: py_strip_def py_space_def code_def py_isdigit_def py_isdigit_char_def ascii_digit_def row_id_def
      py_int_def Let_def)

end
