(* ===== verification/Settings_Store.thy ===== *)
theory Settings_Store
  imports Prelude
begin

text \<open>
  The key/value settings table with its per-request cache (\<open>Setting\<close> in \<^verbatim>\<open>src/models.py\<close>).
  The rest of the development reads settings through the table alone; this theory says when that is
  right: the cache is transparent for the reads and writes of one request, provided every read of a
  key passes the same default.

  The state is what one request sees: the committed table, the session's view of it (with writes
  not yet committed) and the cache in \<^verbatim>\<open>flask.g\<close>, absent outside a request and until the
  first read.
\<close>

section \<open>State and operations\<close>

type_synonym settings = "(string \<times> string option) list"

record sctx =
  sx_committed :: settings
  sx_rows :: settings
  sx_in_request :: bool
  sx_cache :: "settings option"

definition row_value :: "string \<Rightarrow> string option \<Rightarrow> settings \<Rightarrow> string option" where
  "row_value key dflt rows = (case map_of rows key of None \<Rightarrow> dflt | Some v \<Rightarrow> v)"

definition setting_get_cached :: "string \<Rightarrow> string option \<Rightarrow> sctx \<Rightarrow> string option \<times> sctx" where
  "setting_get_cached key dflt x =
     (if sx_in_request x then
        (let cache = (case sx_cache x of None \<Rightarrow> [] | Some c \<Rightarrow> c) in
         case map_of cache key of
           Some v \<Rightarrow> (v, x\<lparr>sx_cache := Some cache\<rparr>)
         | None \<Rightarrow>
             let value = row_value key dflt (sx_rows x)
             in (value, x\<lparr>sx_cache := Some (AList.update key value cache)\<rparr>))
      else (row_value key dflt (sx_rows x), x))"

definition invalidate_cache :: "sctx \<Rightarrow> sctx" where
  "invalidate_cache x = (if sx_in_request x then x\<lparr>sx_cache := None\<rparr> else x)"

definition commit :: "sctx \<Rightarrow> sctx" where
  "commit x = x\<lparr>sx_committed := sx_rows x\<rparr>"

definition put_row :: "string \<Rightarrow> string option \<Rightarrow> sctx \<Rightarrow> sctx" where
  "put_row key value x = x\<lparr>sx_rows := AList.update key value (sx_rows x)\<rparr>"

text \<open>
  \<open>Setting.set\<close>. When there is no row, the upsert is tried; \<open>upsert\<close> is \<^term>\<open>None\<close> when it succeeds,
  and otherwise the table as the session finds it after the rollback (a concurrent writer may have
  added the row meanwhile).
\<close>

definition setting_set_commit :: "settings option \<Rightarrow> string \<Rightarrow> string option \<Rightarrow> sctx \<Rightarrow> sctx" where
  "setting_set_commit upsert key value x =
     (let x1 = (if map_of (sx_rows x) key \<noteq> None then commit (put_row key value x)
                else (case upsert of
                        None \<Rightarrow> commit (put_row key value x)
                      | Some table \<Rightarrow> commit (put_row key value (x\<lparr>sx_rows := table, sx_committed := table\<rparr>))))
      in invalidate_cache x1)"

text \<open>\<open>Setting.set_no_commit\<close>: no commit, no cache.\<close>

definition setting_set_no_commit :: "string \<Rightarrow> string option \<Rightarrow> sctx \<Rightarrow> sctx" where
  "setting_set_no_commit key value x = put_row key value x"

section \<open>The cache against the table\<close>

datatype setting_op =
    Get string "string option" | Set string "string option"
  | Batch "(string \<times> string option) list" \<comment> \<open>writes without commit, one commit, cache invalidated\<close>

definition batch_write :: "(string \<times> string option) list \<Rightarrow> sctx \<Rightarrow> sctx" where
  "batch_write kvs x = invalidate_cache (commit (fold (\<lambda>(k, v). setting_set_no_commit k v) kvs x))"

fun run_cached :: "setting_op list \<Rightarrow> sctx \<Rightarrow> string option list \<times> sctx" where
  "run_cached [] x = ([], x)"
| "run_cached (Get k d # ops) x =
     (let (v, x1) = setting_get_cached k d x; (vs, x2) = run_cached ops x1 in (v # vs, x2))"
| "run_cached (Set k v # ops) x = run_cached ops (setting_set_commit None k v x)"
| "run_cached (Batch kvs # ops) x = run_cached ops (batch_write kvs x)"

text \<open>The specification: a table, no cache.\<close>

fun run_plain :: "setting_op list \<Rightarrow> settings \<Rightarrow> string option list \<times> settings" where
  "run_plain [] rows = ([], rows)"
| "run_plain (Get k d # ops) rows =
     (let (vs, rows') = run_plain ops rows in (row_value k d rows # vs, rows'))"
| "run_plain (Set k v # ops) rows = run_plain ops (AList.update k v rows)"
| "run_plain (Batch kvs # ops) rows = run_plain ops (fold (\<lambda>(k, v). AList.update k v) kvs rows)"

fun uniform_default :: "(string \<Rightarrow> string option) \<Rightarrow> setting_op \<Rightarrow> bool" where
  "uniform_default D (Get k d) \<longleftrightarrow> d = D k"
| "uniform_default D _ \<longleftrightarrow> True"

text \<open>Every cached value is what the table gives with the common default.\<close>

definition coherent :: "(string \<Rightarrow> string option) \<Rightarrow> sctx \<Rightarrow> bool" where
  "coherent D x \<longleftrightarrow>
     (case sx_cache x of None \<Rightarrow> True
      | Some c \<Rightarrow> \<forall>k v. map_of c k = Some v \<longrightarrow> v = row_value k (D k) (sx_rows x))"

lemma get_coherent:
  assumes "coherent D x"
  shows "fst (setting_get_cached k (D k) x) = row_value k (D k) (sx_rows x)"
    "coherent D (snd (setting_get_cached k (D k) x))"
    "sx_rows (snd (setting_get_cached k (D k) x)) = sx_rows x"
    "sx_in_request (snd (setting_get_cached k (D k) x)) = sx_in_request x"
  using assms by (auto simp: setting_get_cached_def coherent_def Let_def dict_simps split: option.splits)

lemma fold_put_rows:
  "fold (\<lambda>(k, v). setting_set_no_commit k v) kvs x = x\<lparr>sx_rows := fold (\<lambda>(k, v). AList.update k v) kvs (sx_rows x)\<rparr>"
  by (induction kvs arbitrary: x) (auto simp: setting_set_no_commit_def put_row_def)

lemma write_effects:
  "sx_rows (setting_set_commit None k v x) = AList.update k v (sx_rows x)"
  "sx_in_request (setting_set_commit None k v x) = sx_in_request x"
  "sx_in_request x \<Longrightarrow> sx_cache (setting_set_commit None k v x) = None"
  "sx_rows (batch_write kvs x) = fold (\<lambda>(k, v). AList.update k v) kvs (sx_rows x)"
  "sx_in_request (batch_write kvs x) = sx_in_request x"
  "sx_in_request x \<Longrightarrow> sx_cache (batch_write kvs x) = None"
  by (simp_all add: setting_set_commit_def batch_write_def invalidate_cache_def commit_def put_row_def Let_def fold_put_rows)

text \<open>The cached store refines the plain table, read by read.\<close>

lemma cache_transparent:
  assumes "coherent D x" "sx_in_request x" "list_all (uniform_default D) ops"
  shows "fst (run_cached ops x) = fst (run_plain ops (sx_rows x)) \<and>
         sx_rows (snd (run_cached ops x)) = snd (run_plain ops (sx_rows x))"
  using assms
proof (induction ops x rule: run_cached.induct)
  case (2 k d ops x)
  obtain v x1 where g: "setting_get_cached k d x = (v, x1)" by fastforce
  have d: "d = D k" using 2 by simp
  have "v = row_value k (D k) (sx_rows x)" "coherent D x1" "sx_rows x1 = sx_rows x" "sx_in_request x1"
    using get_coherent[OF "2.prems"(1), of k] g d "2.prems"(2) by simp_all
  then show ?case using 2 g d by (auto simp: Let_def split: prod.splits)
next
  case (3 k v ops x)
  then show ?case by (simp add: write_effects coherent_def)
next
  case (4 kvs ops x)
  then show ?case by (simp add: write_effects coherent_def)
qed simp

text \<open>
  Without the condition it fails: the default of the first read of a key without a row answers the
  later reads.
\<close>

lemma first_default_sticks:
  assumes "sx_in_request x" "sx_cache x = None" "map_of (sx_rows x) k = None"
  shows "fst (run_cached [Get k d1, Get k d2] x) = [d1, d1] \<and>
         fst (run_plain [Get k d1, Get k d2] (sx_rows x)) = [d1, d2]"
  using assms by (simp add: setting_get_cached_def row_value_def dict_simps)

end
