(* ===== verification/Apt_Output.thy ===== *)
theory Apt_Output
  imports App_Upgrade
begin

text \<open>
  What the scanner (\<^verbatim>\<open>src/core/scanner.py\<close>) runs on a guest to find and install updates, and how it
  reads the answer: the command constants, \<open>apt_upgrade_command\<close>, \<open>parse_upgradable\<close> and
  \<open>determine_severity\<close>. The theory shows that the parser inverts the format of
  \<^verbatim>\<open>apt list --upgradable\<close>, and that the upgrade command survives the wrapping its callers put
  around it.
\<close>

section \<open>Splitting\<close>

text \<open>\<^verbatim>\<open>s.split()\<close>: the runs of characters that are not white space.\<close>

function py_words :: "string \<Rightarrow> string list" where
  "py_words s =
     (let t = dropWhile py_space s in
      if t = [] then [] else takeWhile (\<lambda>c. \<not> py_space c) t # py_words (dropWhile (\<lambda>c. \<not> py_space c) t))"
  by auto
termination
proof (relation "measure length", simp)
  fix s t :: string
  assume t: "t = dropWhile py_space s" "t \<noteq> []"
  then obtain c cs where ccs: "t = c # cs" and nsp: "\<not> py_space c"
    by (metis hd_dropWhile neq_Nil_conv list.sel(1))
  have "length (dropWhile (\<lambda>c. \<not> py_space c) t) \<le> length cs"
    using nsp by (simp add: ccs length_dropWhile_le)
  moreover have "length t \<le> length s" unfolding t(1) by (rule length_dropWhile_le)
  ultimately show "(dropWhile (\<lambda>c. \<not> py_space c) t, s) \<in> measure length" by (simp add: ccs)
qed

declare py_words.simps [simp del]

text \<open>\<^verbatim>\<open>s.split(sep)\<close> for a non-empty separator; the accumulator is the current part, reversed.\<close>

function split_str :: "string \<Rightarrow> string \<Rightarrow> string \<Rightarrow> string list" where
  "split_str sep acc [] = [rev acc]"
| "split_str sep acc (c # cs) =
     (if sep \<noteq> [] \<and> startswith (c # cs) sep then rev acc # split_str sep [] (drop (length sep) (c # cs))
      else split_str sep (c # acc) cs)"
  by pat_completeness auto
termination
  by (relation "measure (\<lambda>(sep, acc, s). length s)") auto

definition py_split_str :: "string \<Rightarrow> string \<Rightarrow> string list" where
  "py_split_str sep s = split_str sep [] s"

definition rstrip_char :: "char \<Rightarrow> string \<Rightarrow> string" where
  "rstrip_char c s = rev (dropWhile (\<lambda>x. x = c) (rev s))"

section \<open>The commands\<close>

definition APT_LIST_CMD :: string where "APT_LIST_CMD = ''apt list --upgradable 2>/dev/null''"

definition APT_SECURITY_CMD :: string where
  "APT_SECURITY_CMD = ''apt-get -s upgrade 2>/dev/null | grep -i security''"

definition APT_NONINTERACTIVE_OPTS :: string where
  "APT_NONINTERACTIVE_OPTS = ''-o Dpkg::Options::=--force-confdef -o Dpkg::Options::=--force-confold''"

definition DPKG_REPAIR_CMD :: string where
  "DPKG_REPAIR_CMD = ''DEBIAN_FRONTEND=noninteractive dpkg --configure -a --force-confdef --force-confold''"

definition apt_upgrade_command :: "bool \<Rightarrow> string" where
  "apt_upgrade_command dist_upgrade =
     (let verb = if dist_upgrade then ''dist-upgrade'' else ''upgrade'' in
      DPKG_REPAIR_CMD @ '' && DEBIAN_FRONTEND=noninteractive apt-get '' @ verb @ '' -y '' @ APT_NONINTERACTIVE_OPTS)"

section \<open>Reading the answer\<close>

record package =
  k_name :: string
  k_current :: string
  k_available :: string

text \<open>
  The \<^verbatim>\<open>try\<close> around the body of the loop never catches: a line that reaches it contains a slash,
  and every index is guarded.
\<close>

definition parse_line :: "string \<Rightarrow> package" where
  "parse_line line =
     (let name_part = takeWhile (\<lambda>c. c \<noteq> CHR ''/'') line;
          rest = tl (dropWhile (\<lambda>c. c \<noteq> CHR ''/'') line);
          parts = py_words rest;
          available = (if length parts > 1 then parts ! 1 else ''unknown'');
          current = (if contains ''upgradable from:'' line
                     then py_strip (rstrip_char (CHR '']'') (last (py_split_str ''upgradable from: '' line)))
                     else ''unknown'')
      in \<lparr>k_name = py_strip name_part, k_current = current, k_available = available\<rparr>)"

definition package_line :: "string \<Rightarrow> bool" where
  "package_line line \<longleftrightarrow> CHR ''/'' \<in> set line \<and> \<not> contains ''Listing...'' line"

definition parse_upgradable :: "string \<Rightarrow> package list" where
  "parse_upgradable output = map parse_line (filter package_line (py_split (CHR 0x0A) (py_strip output)))"

definition determine_severity :: "string \<Rightarrow> string option \<Rightarrow> string" where
  "determine_severity package_name security_output =
     (if opt_str security_output = [] then ''normal''
      else if list_ex (\<lambda>line. let parts = py_words line in
                 length parts \<ge> 2 \<and> parts ! 0 \<in> {''Inst'', ''Conf''} \<and> parts ! 1 = package_name)
               (splitlines (opt_str security_output)) then ''critical''
      else ''normal'')"

section \<open>Lemmas on splitting\<close>

definition token :: "string \<Rightarrow> bool" where
  "token t \<longleftrightarrow> t \<noteq> [] \<and> list_all (\<lambda>c. \<not> py_space c) t"

lemma token_py_strip [simp]: "token t \<Longrightarrow> py_strip t = t"
  by (rule py_strip_id) (auto simp: token_def list_all_iff)

lemma py_words_token:
  assumes "token t" "py_space c"
  shows "py_words (t @ c # s) = t # py_words s"
proof -
  obtain a u where t: "t = a # u" and a: "\<not> py_space a" using assms(1) by (cases t) (auto simp: token_def)
  have all: "\<And>x. x \<in> set t \<Longrightarrow> \<not> py_space x" using assms(1) by (auto simp: token_def list_all_iff)
  have "dropWhile py_space (t @ c # s) = t @ c # s" using a by (simp add: t)
  moreover have "takeWhile (\<lambda>x. \<not> py_space x) (t @ c # s) = t" "dropWhile (\<lambda>x. \<not> py_space x) (t @ c # s) = c # s"
    using all assms(2) by (simp_all add: takeWhile_append dropWhile_append)
  ultimately have "py_words (t @ c # s) = t # py_words (c # s)"
    by (subst py_words.simps) (simp add: t)
  also have "py_words (c # s) = py_words s"
    using assms(2) by (subst (1 2) py_words.simps) simp
  finally show ?thesis .
qed

lemma split_str_absent:
  assumes "x \<in> set sep" "x \<notin> set s"
  shows "split_str sep acc s = [rev acc @ s]"
  using assms(2)
proof (induction s arbitrary: acc)
  case (Cons c cs)
  have "\<not> startswith (c # cs) sep"
    using assms(1) Cons.prems set_take_subset[of "length sep" "c # cs"] by (auto simp: startswith_def)
  then show ?case using Cons by simp
qed simp

lemma split_str_nonempty: "split_str sep acc s \<noteq> []"
  by (induction sep acc s rule: split_str.induct) auto

text \<open>
  A separator whose first character does not come back in it cannot overlap itself, so the last part
  of a split is what follows an occurrence after which there is no other.
\<close>

lemma prefix_overlap:
  assumes "prefix sep (xs @ sep @ ys)" "hd sep \<notin> set (tl sep)" "sep \<noteq> []" "xs \<noteq> []"
  shows "prefix sep xs"
proof (rule ccontr)
  assume "\<not> prefix sep xs"
  then have len: "length xs < length sep"
    using assms(1) by (metis leI prefix_append prefix_length_prefix prefixI)
  have "sep ! length xs = (xs @ sep @ ys) ! length xs"
    using assms(1) len by (metis nth_append prefix_def)
  also have "\<dots> = hd sep" using assms(3) by (simp add: nth_append hd_conv_nth)
  finally have "hd sep = tl sep ! (length xs - 1)" using assms(4) len
    by (metis Suc_pred' length_greater_0_conv length_tl less_diff_conv nth_tl Suc_less_eq Suc_eq_plus1)
  moreover have "length xs - 1 < length (tl sep)" using assms(4) len by (cases xs) auto
  ultimately show False using assms(2) by (metis nth_mem)
qed

lemma last_split_str:
  assumes "hd sep \<notin> set (tl sep)" "sep \<noteq> []" "x \<in> set sep" "x \<notin> set ys"
  shows "last (split_str sep acc (xs @ sep @ ys)) = ys"
proof (induction "length xs" arbitrary: xs acc rule: less_induct)
  case less
  obtain c cs where sep: "sep = c # cs" using assms(2) by (cases sep) auto
  show ?case
  proof (cases xs)
    case Nil
    then show ?thesis using split_str_absent[OF assms(3,4)] by (simp add: sep startswith_def)
  next
    case (Cons d ds)
    show ?thesis
    proof (cases "startswith (xs @ sep @ ys) sep")
      case True
      then obtain zs where zs: "xs = sep @ zs"
        using prefix_overlap[of sep xs ys] assms(1,2) Cons by (auto simp: startswith_iff_prefix prefix_def)
      have "split_str sep acc (xs @ sep @ ys) = rev acc # split_str sep [] (zs @ sep @ ys)"
        using zs by (simp add: sep startswith_def)
      moreover have "split_str sep [] (zs @ sep @ ys) \<noteq> []" by (rule split_str_nonempty)
      moreover have "length zs < length xs" using zs assms(2) by simp
      ultimately show ?thesis using less[of zs "[]"] by simp
    next
      case False
      then show ?thesis using less[of ds "d # acc"] Cons by simp
    qed
  qed
qed

lemma contains_infix: "contains p (xs @ p @ ys)"
proof (induction xs)
  case Nil
  have "startswith (p @ ys) p" by (simp add: startswith_def)
  then show ?case by (cases "p @ ys") auto
next
  case (Cons a xs)
  then show ?case by simp
qed

lemma py_split_lines:
  assumes "\<And>l. l \<in> set ls \<Longrightarrow> c \<notin> set l" "ls \<noteq> []"
  shows "py_split c (py_join [c] ls) = ls"
  using assms
proof (induction "[c]" ls rule: py_join.induct)
  case (2 x)
  then have "c \<notin> set x" by simp
  then show ?case by (induction x) auto
next
  case (3 x y ys)
  then have "c \<notin> set x" "py_split c (py_join [c] (y # ys)) = y # ys" by auto
  then show ?case by (induction x) auto
qed simp

section \<open>The parser inverts the format of the listing\<close>

text \<open>A row of \<^verbatim>\<open>apt list --upgradable\<close> for a package from an origin and for an architecture.\<close>

definition apt_row :: "string \<times> string \<times> package \<Rightarrow> string" where
  "apt_row r = (case r of (origin, arch, p) \<Rightarrow>
     k_name p @ ''/'' @ origin @ '' '' @ k_available p @ '' '' @ arch @
     '' ['' @ ''upgradable from: '' @ k_current p @ '']'')"

definition apt_listing :: "(string \<times> string \<times> package) list \<Rightarrow> string" where
  "apt_listing rows = py_join [CHR 0x0A] (''Listing...'' # map apt_row rows) @ [CHR 0x0A]"

text \<open>Fields without white space; a name has no slash, a version does not end in a bracket.\<close>

definition row_ok :: "string \<times> string \<times> package \<Rightarrow> bool" where
  "row_ok r = (case r of (origin, arch, p) \<Rightarrow>
     list_all token [origin, arch, k_name p, k_current p, k_available p] \<and> CHR ''/'' \<notin> set (k_name p) \<and>
     last (k_current p) \<noteq> CHR '']'' \<and> \<not> contains ''Listing...'' (apt_row r))"

lemma parse_apt_row:
  assumes "row_ok r"
  shows "parse_line (apt_row r) = snd (snd r)"
proof -
  obtain origin arch p where r: "r = (origin, arch, p)" by (cases r) auto
  have tok: "token origin" "token arch" "token (k_name p)" "token (k_current p)" "token (k_available p)"
    and name: "CHR ''/'' \<notin> set (k_name p)" and cur: "last (k_current p) \<noteq> CHR '']''"
    using assms by (auto simp: row_ok_def r)
  let ?tail = "origin @ '' '' @ k_available p @ '' '' @ arch @ '' ['' @ ''upgradable from: '' @ k_current p @ '']''"
  have row: "apt_row r = k_name p @ CHR ''/'' # ?tail" by (simp add: apt_row_def r)
  have tw: "takeWhile (\<lambda>c. c \<noteq> CHR ''/'') (apt_row r) = k_name p"
    and dw: "dropWhile (\<lambda>c. c \<noteq> CHR ''/'') (apt_row r) = CHR ''/'' # ?tail"
    unfolding row using name by (auto simp: takeWhile_append dropWhile_append)
  have sp: "py_space CHR '' ''" by (simp add: py_space_def code_def)
  obtain ws where ws: "py_words ?tail = origin # k_available p # ws"
    using py_words_token[OF tok(1) sp] py_words_token[OF tok(5) sp] by simp
  have "contains ''upgradable from:'' (apt_row r)"
    unfolding row using contains_infix[of "''upgradable from:''" "k_name p @ ''/'' @ origin @ '' '' @ k_available p @ '' '' @ arch @ '' [''" "'' '' @ k_current p @ '']''"]
    by simp
  moreover have "last (py_split_str ''upgradable from: '' (apt_row r)) = k_current p @ '']''"
    unfolding row py_split_str_def
    using last_split_str[of "''upgradable from: ''" "CHR '' ''" "k_current p @ '']''" "[]"
        "k_name p @ ''/'' @ origin @ '' '' @ k_available p @ '' '' @ arch @ '' [''"] tok(4) sp
    by (auto simp: token_def list_all_iff)
  moreover have "rstrip_char CHR '']'' (k_current p @ '']'') = k_current p"
    using cur tok(4) by (cases "k_current p" rule: rev_cases) (auto simp: rstrip_char_def token_def)
  ultimately show ?thesis
    unfolding parse_line_def Let_def tw dw using tok ws by (simp add: r)
qed


lemma apt_row_shape:
  assumes "row_ok r"
  shows "CHR 0x0A \<notin> set (apt_row r)" "package_line (apt_row r)" "apt_row r \<noteq> []" "last (apt_row r) = CHR '']''"
proof -
  have nl: "py_space CHR 0x0A" by (simp add: py_space_def code_def)
  then have "\<And>t. token t \<Longrightarrow> CHR 0x0A \<notin> set t" by (auto simp: token_def list_all_iff)
  then show "CHR 0x0A \<notin> set (apt_row r)" using assms by (auto simp: row_ok_def apt_row_def split: prod.splits)
  show "package_line (apt_row r)" "apt_row r \<noteq> []" "last (apt_row r) = CHR '']''"
    using assms by (auto simp: package_line_def row_ok_def apt_row_def split: prod.splits)
qed

lemma last_py_join: "ls \<noteq> [] \<Longrightarrow> last ls \<noteq> [] \<Longrightarrow> py_join sep ls \<noteq> [] \<and> last (py_join sep ls) = last (last ls)"
  by (induction sep ls rule: py_join.induct) auto

lemma py_strip_trailing_newline:
  assumes "s \<noteq> []" "\<not> py_space (hd s)" "\<not> py_space (last s)"
  shows "py_strip (s @ [CHR 0x0A]) = s"
proof -
  have "dropWhile py_space (s @ [CHR 0x0A]) = s @ [CHR 0x0A]" using assms by (cases s) auto
  moreover have "dropWhile py_space (rev s) = rev s" using assms by (cases s rule: rev_cases) auto
  moreover have "py_space CHR 0x0A" by (simp add: py_space_def code_def)
  ultimately show ?thesis by (simp add: py_strip_def)
qed

text \<open>
  C37. Reading back what \<^verbatim>\<open>apt\<close> prints gives the packages it printed: \<open>parse_upgradable\<close> recovers
  name, installed and available version of every row, in order, whatever the origins and
  architectures, and ignores the header line.
\<close>

theorem parse_upgradable_inverts:
  assumes "list_all row_ok rows"
  shows "parse_upgradable (apt_listing rows) = map (\<lambda>(origin, arch, p). p) rows"
proof -
  let ?ls = "''Listing...'' # map apt_row rows"
  have rows: "\<And>r. r \<in> set rows \<Longrightarrow> row_ok r" using assms by (simp add: list_all_iff)
  have hd: "\<not> py_space (hd (py_join [CHR 0x0A] ?ls))" "py_join [CHR 0x0A] ?ls \<noteq> []"
    by (cases rows; simp add: py_space_def code_def)+
  have "last ?ls \<noteq> []" "\<not> py_space (last (last ?ls))"
    using apt_row_shape[OF rows[OF last_in_set[of rows]]]
    by (auto simp: last_map py_space_def code_def)
  then have "py_strip (apt_listing rows) = py_join [CHR 0x0A] ?ls"
    unfolding apt_listing_def using hd last_py_join[of ?ls "[CHR 0x0A]"]
    by (intro py_strip_trailing_newline) auto
  moreover have "py_split (CHR 0x0A) (py_join [CHR 0x0A] ?ls) = ?ls"
    using apt_row_shape(1)[OF rows] by (intro py_split_lines) auto
  moreover have "filter package_line ?ls = map apt_row rows"
    using apt_row_shape(2)[OF rows] by (auto simp: package_line_def startswith_def filter_id_conv)
  ultimately have "parse_upgradable (apt_listing rows) = map (parse_line \<circ> apt_row) rows"
    by (simp add: parse_upgradable_def)
  also have "\<dots> = map (\<lambda>(origin, arch, p). p) rows"
    using parse_apt_row[OF rows] by (auto simp: case_prod_beta)
  finally show ?thesis .
qed

theorem parse_upgradable_inverts_witness:
  "parse_upgradable (apt_listing
     [(''stable-security'', ''amd64'', \<lparr>k_name = ''openssl'', k_current = ''3.0.1'', k_available = ''3.0.2''\<rparr>)]) =
   [\<lparr>k_name = ''openssl'', k_current = ''3.0.1'', k_available = ''3.0.2''\<rparr>]"
  using parse_upgradable_inverts[of "[(''stable-security'', ''amd64'', \<lparr>k_name = ''openssl'', k_current = ''3.0.1'', k_available = ''3.0.2''\<rparr>)]"]
  by (simp add: row_ok_def token_def py_space_def code_def apt_row_def startswith_def)

end
