(* ===== verification/Patching.thy ===== *)
theory Patching
  imports Apt_Output Permissions
begin

text \<open>
  Patch management of guests (\<^verbatim>\<open>src/core/scanner.py\<close>, \<^verbatim>\<open>src/core/errors.py\<close>): running commands on a
  guest over SSH or the QEMU guest agent, scanning for updates, detecting services, applying
  updates, and reconciling the pending rows with what is still upgradable.

  A remote host is a parameter: the record \<open>remote\<close> answers every operation from the sequence of
  operations so far (the last element is the one to be answered), so its state may change in any
  way between two commands. The operations performed are part of the state, as are the alerts
  handed to the notification senders. A value of \<open>'a io\<close> is a piece of code that may raise.
\<close>

section \<open>Tables\<close>

record credential =
  cr_id :: int
  cr_username :: string
  cr_is_default :: bool

text \<open>The columns of a guest beyond those of \<^verbatim>\<open>Data_Model\<close>; a null string is the empty one.\<close>

record pguest = guest +
  pg_type :: string
  pg_ip :: string
  pg_method :: string
  pg_credential :: "int option"
  pg_host :: "int option"
  pg_vmid :: "int option"
  pg_auto_update :: bool
  pg_window :: "int option"
  pg_last_scan :: "usec option"
  pg_status :: string
  pg_power_state :: string
  pg_reboot_required :: bool
  pg_require_snapshot :: string

record update_package =
  up_guest_id :: int
  up_package_name :: string
  up_current_version :: string
  up_available_version :: string
  up_severity :: string
  up_discovered_at :: "usec option"
  up_applied_at :: "usec option"
  up_status :: string

record scan_result =
  sr_guest_id :: int
  sr_scanned_at :: usec
  sr_total_updates :: nat
  sr_security_updates :: nat
  sr_status :: string
  sr_error_message :: "string option"

record update_history =
  uh_guest_id :: int
  uh_applied_at :: usec
  uh_package_count :: nat
  uh_security_count :: nat
  uh_packages_summary :: "string option"
  uh_initiated_by :: "string option"

record maintenance_window =
  mw_id :: int
  mw_name :: string
  mw_day_of_week :: string
  mw_start_time :: string
  mw_end_time :: string
  mw_update_type :: string
  mw_enabled :: bool

record service = guest_service +
  gs_service_name :: string
  gs_unit_name :: string
  gs_port :: "int option"
  gs_status :: string
  gs_last_checked :: "usec option"
  gs_auto_detected :: bool

section \<open>Remote hosts\<close>

text \<open>
  An operation names the address, the host or the machine it is sent to. Creating a Proxmox client
  and listing the guests is one operation, as is creating it and looking up a guest's node.
\<close>

datatype remote_op =
    Ssh_Connect string string
  | Ssh_Run bool string string nat
  | Ssh_Stream string string nat
  | Px_Guests int
  | Px_Find int "int option"
  | Agent_Exec int string "int option" string
  | Agent_Stream int string "int option" string nat

text \<open>An exception: its class, the qualified names of the classes it is an instance of, its text.\<close>

record exn =
  x_name :: string
  x_classes :: "string list"
  x_str :: string

text \<open>
  The answers: whether a connection fails; output, error output and exit code of a command; what the
  guest list of a host contains (\<^verbatim>\<open>vmid\<close> and \<^verbatim>\<open>node\<close>, the empty string for none); a node; output and error of an agent command;
  the chunks of a streamed command, which may raise half way, and its exit code; and the clock.
\<close>

record remote =
  rm_connect :: "remote_op list \<Rightarrow> exn option"
  rm_ssh :: "remote_op list \<Rightarrow> exn + string \<times> string \<times> int"
  rm_ssh_stream :: "remote_op list \<Rightarrow> string list \<times> (exn + int)"
  rm_guests :: "remote_op list \<Rightarrow> exn + (int option \<times> string) list"
  rm_find_node :: "remote_op list \<Rightarrow> exn + string"
  rm_agent :: "remote_op list \<Rightarrow> exn + string option \<times> string option"
  rm_agent_stream :: "remote_op list \<Rightarrow> string list \<times> (exn + int option)"
  rm_now :: "remote_op list \<Rightarrow> usec"

datatype alert =
    Push int string
  | Service_Alert string string string
  | Updates_Applied "(string \<times> nat \<times> nat) list"
  | Update_Notification "scan_result list"

record fleet =
  f_app :: app
  f_guests :: "pguest list"
  f_credentials :: "credential list"
  f_windows :: "maintenance_window list"
  f_updates :: "update_package list"
  f_scans :: "scan_result list"
  f_history :: "update_history list"
  f_services :: "service list"
  f_ops :: "remote_op list"
  f_alerts :: "alert list"

type_synonym 'a io = "(exn, fleet, 'a) run"

definition perform :: "remote_op \<Rightarrow> (remote_op list \<Rightarrow> exn + 'a) \<Rightarrow> 'a io" where
  "perform op ans f = (let ops = f_ops f @ [op] in (ans ops, f\<lparr>f_ops := ops\<rparr>))"

definition ssh_open :: "remote \<Rightarrow> string \<Rightarrow> credential \<Rightarrow> unit io" where
  "ssh_open R ip c = perform (Ssh_Connect ip (cr_username c))
     (\<lambda>ops. case rm_connect R ops of None \<Rightarrow> Inr () | Some e \<Rightarrow> Inl e)"

definition ssh_execute :: "remote \<Rightarrow> string \<Rightarrow> string \<Rightarrow> nat \<Rightarrow> (string \<times> string \<times> int) io" where
  "ssh_execute R ip cmd timeout = perform (Ssh_Run False ip cmd timeout) (rm_ssh R)"

definition ssh_execute_sudo :: "remote \<Rightarrow> string \<Rightarrow> string \<Rightarrow> nat \<Rightarrow> (string \<times> string \<times> int) io" where
  "ssh_execute_sudo R ip cmd timeout = perform (Ssh_Run True ip cmd timeout) (rm_ssh R)"

definition get_all_guests :: "remote \<Rightarrow> int \<Rightarrow> (int option \<times> string) list io" where
  "get_all_guests R host = perform (Px_Guests host) (rm_guests R)"

definition find_guest_node :: "remote \<Rightarrow> int \<Rightarrow> int option \<Rightarrow> string io" where
  "find_guest_node R host vmid = perform (Px_Find host vmid) (rm_find_node R)"

definition exec_guest_agent ::
  "remote \<Rightarrow> int \<Rightarrow> string \<Rightarrow> int option \<Rightarrow> string \<Rightarrow> (string option \<times> string option) io" where
  "exec_guest_agent R host node vmid cmd = perform (Agent_Exec host node vmid cmd) (rm_agent R)"

text \<open>The chunks that arrived are kept also when the streaming raises.\<close>

definition exec_guest_agent_streaming ::
  "remote \<Rightarrow> int \<Rightarrow> string \<Rightarrow> int option \<Rightarrow> string \<Rightarrow> nat \<Rightarrow> (string list \<times> int option) io" where
  "exec_guest_agent_streaming R host node vmid cmd timeout =
     perform (Agent_Stream host node vmid cmd timeout)
       (\<lambda>ops. case rm_agent_stream R ops of (chunks, Inl e) \<Rightarrow> Inl e | (chunks, Inr rc) \<Rightarrow> Inr (chunks, rc))"

section \<open>Errors (core/errors.py)\<close>

definition KNOWN_EXCEPTIONS :: "(string \<times> string) list" where
  "KNOWN_EXCEPTIONS =
     [(''paramiko.AuthenticationException'', ''SSH authentication failed''),
      (''paramiko.BadHostKeyException'', ''SSH host key verification failed''),
      (''paramiko.ssh_exception.NoValidConnectionsError'', ''SSH port is unreachable''),
      (''paramiko.SSHException'', ''SSH protocol error''),
      (''proxmoxer.backends.https.AuthenticationError'', ''Proxmox API authentication failed''),
      (''proxmoxer.core.ResourceException'', ''Proxmox API rejected the request (see the server log)''),
      (''requests.exceptions.SSLError'', ''TLS handshake failed''),
      (''requests.exceptions.Timeout'', ''request timed out''),
      (''requests.exceptions.ConnectionError'', ''could not connect to the remote host''),
      (''requests.exceptions.HTTPError'', ''remote API returned an HTTP error''),
      (''requests.exceptions.RequestException'', ''request failed''),
      (''socket.gaierror'', ''hostname could not be resolved''),
      (''ConnectionRefusedError'', ''connection refused''),
      (''ConnectionResetError'', ''connection reset by peer''),
      (''TimeoutError'', ''connection timed out''),
      (''PermissionError'', ''permission denied''),
      (''FileNotFoundError'', ''file not found''),
      (''OSError'', ''network or I/O error''),
      (''json.JSONDecodeError'', ''invalid JSON''),
      (''UnicodeError'', ''text could not be decoded''),
      (''ValueError'', ''invalid value'')]"

definition describe_exception :: "exn \<Rightarrow> string" where
  "describe_exception e =
     (case find (\<lambda>(kls, message). kls \<in> set (x_classes e)) KNOWN_EXCEPTIONS of
        Some (kls, message) \<Rightarrow> message
      | None \<Rightarrow> ''unexpected error ('' @ x_name e @ '')'')"

section \<open>Running commands on a guest\<close>

definition has_valid_ip :: "pguest \<Rightarrow> bool" where
  "has_valid_ip g \<longleftrightarrow> pg_ip g \<noteq> [] \<and> py_lower (pg_ip g) \<notin> {''dhcp'', ''dhcp6'', ''auto''}"

definition ssh_allowed :: "pguest \<Rightarrow> bool" where
  "ssh_allowed g \<longleftrightarrow> pg_method g \<in> {''ssh'', ''auto''} \<and> has_valid_ip g"

definition agent_allowed :: "pguest \<Rightarrow> bool" where
  "agent_allowed g \<longleftrightarrow> pg_method g \<in> {''agent'', ''auto''} \<and> pg_host g \<noteq> None \<and> pg_type g = ''vm''"

definition credential_of :: "fleet \<Rightarrow> pguest \<Rightarrow> credential option" where
  "credential_of f g =
     (case Option.bind (pg_credential g) (\<lambda>i. first_row (\<lambda>c. cr_id c = i) (f_credentials f)) of
        Some c \<Rightarrow> Some c
      | None \<Rightarrow> first_row cr_is_default (f_credentials f))"

definition node_of :: "int option \<Rightarrow> (int option \<times> string) list \<Rightarrow> string" where
  "node_of vmid gs = (case find (\<lambda>(v, n). v = vmid) gs of None \<Rightarrow> [] | Some (v, n) \<Rightarrow> n)"

definition no_vm :: "pguest \<Rightarrow> string" where
  "no_vm g = ''Could not find VM '' @ (case pg_vmid g of None \<Rightarrow> ''None'' | Some v \<Rightarrow> py_str_int v) @ '' on any node''"

text \<open>Listing, security listing and error of a scan.\<close>

type_synonym scan_output = "string option \<times> string option \<times> string option"

text \<open>The SSH attempt; \<^term>\<open>None\<close> goes on to the agent.\<close>

definition scan_ssh :: "remote \<Rightarrow> pguest \<Rightarrow> credential \<Rightarrow> scan_output option io" where
  "scan_ssh R g c =
     rbind (ssh_open R (pg_ip g) c) (\<lambda>_.
     rbind (ssh_execute_sudo R (pg_ip g) ''apt-get update -qq 2>/dev/null'' 120) (\<lambda>_.
     rbind (ssh_execute R (pg_ip g) APT_LIST_CMD 60) (\<lambda>(stdout, stderr, rc).
       if rc = 0 then
         rbind (ssh_execute_sudo R (pg_ip g) APT_SECURITY_CMD 60) (\<lambda>(sec_out, _, _).
           rreturn (Some (Some stdout, Some sec_out, None)))
       else if pg_method g = ''ssh'' then rreturn (Some (None, None, Some (''SSH apt list failed: '' @ stderr)))
       else rreturn None)))"

definition scan_agent :: "remote \<Rightarrow> pguest \<Rightarrow> int \<Rightarrow> scan_output io" where
  "scan_agent R g host =
     rbind (get_all_guests R host) (\<lambda>gs.
       let node = node_of (pg_vmid g) gs in
       if node \<noteq> [] then
         rbind (exec_guest_agent R host node (pg_vmid g) ''apt-get update -qq'') (\<lambda>_.
         rbind (exec_guest_agent R host node (pg_vmid g) ''apt list --upgradable'') (\<lambda>(stdout, err).
           case err of
             None \<Rightarrow>
               rbind (exec_guest_agent R host node (pg_vmid g) (''sh -c '' @ shlex_quote APT_SECURITY_CMD))
                 (\<lambda>(sec_out, _). rreturn (stdout, sec_out, None))
           | Some m \<Rightarrow> rreturn (None, None, Some (''Agent exec failed: '' @ m))))
       else rreturn (None, None, Some (no_vm g)))"

text \<open>The frame that running commands shares: SSH first, then the agent.\<close>

definition reach_guest ::
  "pguest \<Rightarrow> (credential \<Rightarrow> 'r option io) \<Rightarrow> (int \<Rightarrow> 'r io) \<Rightarrow> (string \<Rightarrow> 'r) \<Rightarrow> fleet \<Rightarrow> 'r \<times> fleet" where
  "reach_guest g over_ssh over_agent failure f =
     (let (first, f1) =
        (case (if ssh_allowed g then credential_of f g else None) of
           None \<Rightarrow> (None, f)
         | Some c \<Rightarrow>
             (case over_ssh c f of
                (Inr r, f1) \<Rightarrow> (r, f1)
              | (Inl e, f1) \<Rightarrow>
                  (if pg_method g = ''ssh'' then Some (failure (''SSH failed: '' @ describe_exception e)) else None, f1)))
      in case first of
           Some r \<Rightarrow> (r, f1)
         | None \<Rightarrow>
             if agent_allowed g then
               (case over_agent (the (pg_host g)) f1 of
                  (Inr r, f2) \<Rightarrow> (r, f2)
                | (Inl e, f2) \<Rightarrow> (failure (''Agent failed: '' @ describe_exception e), f2))
             else (failure ''No viable connection method available'', f1))"

definition execute_on_guest :: "remote \<Rightarrow> pguest \<Rightarrow> fleet \<Rightarrow> scan_output \<times> fleet" where
  "execute_on_guest R g = reach_guest g (scan_ssh R g) (scan_agent R g) (\<lambda>m. (None, None, Some m))"

definition command_ssh ::
  "remote \<Rightarrow> pguest \<Rightarrow> credential \<Rightarrow> string \<Rightarrow> nat \<Rightarrow> bool \<Rightarrow> (string option \<times> string option) option io" where
  "command_ssh R g c command timeout sudo =
     rbind (ssh_open R (pg_ip g) c) (\<lambda>_.
     rbind (if sudo then ssh_execute_sudo R (pg_ip g) command timeout else ssh_execute R (pg_ip g) command timeout)
       (\<lambda>(stdout, stderr, rc).
         if rc = 0 then rreturn (Some (Some stdout, None))
         else if pg_method g = ''ssh'' then
           rreturn (Some (Some stdout, Some (str_or stderr (''Exit code '' @ py_str_int rc))))
         else rreturn None))"

definition command_agent :: "remote \<Rightarrow> pguest \<Rightarrow> int \<Rightarrow> string \<Rightarrow> (string option \<times> string option) io" where
  "command_agent R g host command =
     rbind (find_guest_node R host (pg_vmid g)) (\<lambda>node.
       if node \<noteq> [] then exec_guest_agent R host node (pg_vmid g) (''sh -c '' @ shlex_quote command)
       else rreturn (None, Some (no_vm g)))"

definition execute_command ::
  "remote \<Rightarrow> pguest \<Rightarrow> string \<Rightarrow> nat \<Rightarrow> bool \<Rightarrow> fleet \<Rightarrow> (string option \<times> string option) \<times> fleet" where
  "execute_command R g command timeout sudo =
     reach_guest g (\<lambda>c. command_ssh R g c command timeout sudo) (\<lambda>host. command_agent R g host command)
       (\<lambda>m. (None, Some m))"

section \<open>Tables of the fleet\<close>

definition set_guest :: "int \<Rightarrow> (pguest \<Rightarrow> pguest) \<Rightarrow> fleet \<Rightarrow> fleet" where
  "set_guest gid h f = f\<lparr>f_guests := update_rows (\<lambda>g. g_id g = gid) h (f_guests f)\<rparr>"

definition get_pguest :: "fleet \<Rightarrow> int \<Rightarrow> pguest option" where
  "get_pguest f gid = first_row (\<lambda>g. g_id g = gid) (f_guests f)"

definition add_alert :: "alert \<Rightarrow> fleet \<Rightarrow> fleet" where
  "add_alert a f = f\<lparr>f_alerts := f_alerts f @ [a]\<rparr>"

definition is_pending :: "int \<Rightarrow> update_package \<Rightarrow> bool" where
  "is_pending gid u \<longleftrightarrow> up_guest_id u = gid \<and> up_status u = ''pending''"

definition pending_updates :: "fleet \<Rightarrow> int \<Rightarrow> update_package list" where
  "pending_updates f gid = filter (is_pending gid) (f_updates f)"

definition security_updates :: "fleet \<Rightarrow> int \<Rightarrow> update_package list" where
  "security_updates f gid = filter (\<lambda>u. up_severity u = ''critical'') (pending_updates f gid)"

text \<open>The guest's exporters are rows of a table that is not modelled.\<close>

definition clear_stale_data :: "int \<Rightarrow> fleet \<Rightarrow> fleet" where
  "clear_stale_data gid f =
     set_guest gid (\<lambda>g. g\<lparr>pg_last_scan := None, pg_status := ''unknown'', pg_reboot_required := False\<rparr>)
       (f\<lparr>f_scans := filter (\<lambda>s. sr_guest_id s \<noteq> gid) (f_scans f),
          f_updates := filter (\<lambda>u. up_guest_id u \<noteq> gid) (f_updates f),
          f_services := filter (\<lambda>s. gs_guest_id s \<noteq> gid) (f_services f)\<rparr>)"

section \<open>Notification scope (core/notifier.py)\<close>

text \<open>\<^term>\<open>None\<close> is the \<^verbatim>\<open>ValueError\<close> of \<^verbatim>\<open>int\<close> on a digit it does not know.\<close>

fun notify_tag_ids :: "string list \<Rightarrow> int list option" where
  "notify_tag_ids [] = Some []"
| "notify_tag_ids (t # ts) =
     (if py_isdigit (py_strip t)
      then (case py_int t of None \<Rightarrow> None | Some i \<Rightarrow> map_option ((#) i) (notify_tag_ids ts))
      else notify_tag_ids ts)"

definition get_notify_tag_ids :: "fleet \<Rightarrow> int list option" where
  "get_notify_tag_ids f = notify_tag_ids (py_split (CHR '','') (setting_get (a_db (f_app f)) ''discord_notify_tags'' []))"

definition guest_matches_notify_tags :: "fleet \<Rightarrow> pguest \<Rightarrow> bool option" where
  "guest_matches_notify_tags f g =
     map_option (\<lambda>wanted. wanted = [] \<or> list_ex (\<lambda>t. List.member wanted t) (g_tags g)) (get_notify_tag_ids f)"

definition summarize_applied_packages :: "update_package list \<Rightarrow> nat \<times> nat" where
  "summarize_applied_packages ps = (length ps, length (filter (\<lambda>p. up_severity p = ''critical'') ps))"

section \<open>Services\<close>

definition KNOWN_SERVICES :: "(string \<times> string \<times> int option) list" where
  "KNOWN_SERVICES =
     [(''elasticsearch'', ''elasticsearch.service'', Some 9200),
      (''postgresql'', ''postgresql.service'', Some 5432),
      (''redis'', ''redis-server.service'', Some 6379),
      (''libretranslate'', ''libretranslate.service'', Some 5000),
      (''puma'', ''mastodon-web.service'', Some 3000),
      (''sidekiq'', ''mastodon-sidekiq*.service'', None),
      (''jitsi-videobridge2'', ''jitsi-videobridge2.service'', Some 8080),
      (''jicofo'', ''jicofo.service'', None),
      (''prosody'', ''prosody.service'', None),
      (''prometheus'', ''prometheus.service'', Some 9090)]"

text \<open>\<^verbatim>\<open>^[\w.\-@*]+$\<close> with \<^verbatim>\<open>match\<close>: the dollar also matches before a final newline.\<close>

definition VALID_UNIT_RE :: "string \<Rightarrow> bool" where
  "VALID_UNIT_RE s \<longleftrightarrow>
     (let t = (if s \<noteq> [] \<and> last s = CHR 0x0A then butlast s else s) in
      t \<noteq> [] \<and> list_all (\<lambda>c. py_word_char c \<or> one_of ''.-@*'' c) t)"

definition safe_unit_name :: "string \<Rightarrow> string option" where
  "safe_unit_name name = (if name = [] \<or> \<not> VALID_UNIT_RE name then None else Some name)"

definition map_systemctl_status :: "string \<Rightarrow> string" where
  "map_systemctl_status s =
     (if s = ''active'' then ''running'' else if s = ''inactive'' then ''stopped''
      else if s = ''failed'' then ''failed'' else ''unknown'')"

definition notify_service_transition ::
  "pguest \<Rightarrow> string \<Rightarrow> string \<Rightarrow> string option \<Rightarrow> string \<Rightarrow> fleet \<Rightarrow> fleet" where
  "notify_service_transition g service_key unit_name old_status new_status f =
     (if new_status = ''failed'' \<and> old_status \<noteq> Some ''failed'' then
        add_alert (Push (g_id g) ''service_failed'')
          (if guest_matches_notify_tags f g = Some True
           then add_alert (Service_Alert ''service_failed'' (g_name g) service_key) f else f)
      else if new_status = ''running'' \<and> old_status = Some ''failed'' then
        add_alert (Push (g_id g) ''service_recovered'')
          (if guest_matches_notify_tags f g = Some True
           then add_alert (Service_Alert ''service_recovered'' (g_name g) service_key) f else f)
      else f)"

definition find_service :: "fleet \<Rightarrow> int \<Rightarrow> string \<Rightarrow> service option" where
  "find_service f gid unit_name = first_row (\<lambda>s. gs_guest_id s = gid \<and> gs_unit_name s = unit_name) (f_services f)"

definition set_service :: "int \<Rightarrow> (service \<Rightarrow> service) \<Rightarrow> fleet \<Rightarrow> fleet" where
  "set_service sid h f = f\<lparr>f_services := update_rows (\<lambda>s. gs_id s = sid) h (f_services f)\<rparr>"

definition upsert_service ::
  "pguest \<Rightarrow> string \<Rightarrow> string \<Rightarrow> int option \<Rightarrow> string \<Rightarrow> usec \<Rightarrow> fleet \<Rightarrow> fleet" where
  "upsert_service g service_key unit_name default_port status now f =
     (case safe_unit_name unit_name of
        None \<Rightarrow> f
      | Some _ \<Rightarrow>
          (case find_service f (g_id g) unit_name of
             Some existing \<Rightarrow>
               if status \<in> {''running'', ''failed''} then
                 notify_service_transition g service_key unit_name (Some (gs_status existing)) status
                   (set_service (gs_id existing) (\<lambda>s. s\<lparr>gs_status := status, gs_last_checked := Some now\<rparr>) f)
               else if status = ''stopped'' then
                 set_service (gs_id existing) (\<lambda>s. s\<lparr>gs_status := status, gs_last_checked := Some now\<rparr>) f
               else f
           | None \<Rightarrow>
               if status \<in> {''running'', ''failed''} then
                 notify_service_transition g service_key unit_name None status
                   (f\<lparr>f_services := f_services f @
                       [\<lparr>gs_id = next_id gs_id (f_services f), gs_guest_id = g_id g, gs_service_name = service_key,
                         gs_unit_name = unit_name, gs_port = default_port, gs_status = status,
                         gs_last_checked = Some now, gs_auto_detected = True\<rparr>]\<rparr>)
               else f))"

definition line_at :: "string list \<Rightarrow> nat \<Rightarrow> string" where
  "line_at lines i = (if i < length lines then py_strip (lines ! i) else ''unknown'')"

definition fixed_services :: "(string \<times> string \<times> int option) list" where
  "fixed_services = filter (\<lambda>(key, unit_name, port). CHR ''*'' \<notin> set unit_name) KNOWN_SERVICES"

definition glob_services :: "(string \<times> string \<times> int option) list" where
  "glob_services = filter (\<lambda>(key, unit_name, port). CHR ''*'' \<in> set unit_name) KNOWN_SERVICES"

definition detect_fixed :: "remote \<Rightarrow> pguest \<Rightarrow> usec \<Rightarrow> fleet \<Rightarrow> fleet" where
  "detect_fixed R g now f =
     (let cmd = ''systemctl is-active '' @ py_join '' '' (map (fst \<circ> snd) fixed_services) @ '' 2>/dev/null'';
          ((stdout, error), f1) = execute_command R g cmd 60 False f in
      if truthy_str stdout \<or> \<not> truthy_str error then
        (let lines = py_split (CHR 0x0A) (py_strip (opt_str stdout)) in
         fold (\<lambda>(i, key, unit_name, port).
                 upsert_service g key unit_name port (map_systemctl_status (line_at lines i)) now)
           (enumerate 0 fixed_services) f1)
      else f1)"

definition detect_line :: "pguest \<Rightarrow> string \<Rightarrow> int option \<Rightarrow> usec \<Rightarrow> string \<Rightarrow> fleet \<Rightarrow> fleet" where
  "detect_line g key port now line f =
     (let parts = py_words line in
      if length parts < 3 then f
      else upsert_service g key (parts ! 0) port (map_systemctl_status (parts ! 2)) now f)"

definition detect_glob :: "remote \<Rightarrow> pguest \<Rightarrow> usec \<Rightarrow> string \<times> string \<times> int option \<Rightarrow> fleet \<Rightarrow> fleet" where
  "detect_glob R g now s f =
     (case s of (key, unit_pattern, port) \<Rightarrow>
       let ((stdout, error), f1) = execute_command R g
             (''systemctl list-units '' @ CHR 0x27 # unit_pattern @ CHR 0x27 # '' --no-legend --plain 2>/dev/null'')
             60 False f in
       if \<not> truthy_str stdout then f1
       else fold (detect_line g key port now) (py_split (CHR 0x0A) (py_strip (opt_str stdout))) f1)"

definition detect_services :: "remote \<Rightarrow> pguest \<Rightarrow> fleet \<Rightarrow> fleet" where
  "detect_services R g f =
     (let now = rm_now R (f_ops f) in fold (detect_glob R g now) glob_services (detect_fixed R g now f))"

text \<open>The services of a guest in the order of the relationship.\<close>

definition services_of :: "fleet \<Rightarrow> int \<Rightarrow> service list" where
  "services_of f gid = filter (\<lambda>s. gs_guest_id s = gid) (f_services f)"

text \<open>\<^term>\<open>None\<close> is the \<^verbatim>\<open>ValueError\<close> of an invalid unit name, which the callers catch.\<close>

definition check_service_statuses :: "remote \<Rightarrow> pguest \<Rightarrow> fleet \<Rightarrow> fleet option" where
  "check_service_statuses R g f =
     (let svcs = services_of f (g_id g) in
      if svcs = [] then Some f
      else if list_ex (\<lambda>s. safe_unit_name (gs_unit_name s) = None) svcs then None
      else let cmd = ''systemctl is-active '' @ py_join '' '' (map gs_unit_name svcs) @ '' 2>/dev/null'';
               ((stdout, error), f1) = execute_command R g cmd 60 False f in
        if truthy_str error \<and> \<not> truthy_str stdout then Some f1
        else let lines = py_split (CHR 0x0A) (py_strip (opt_str stdout));
                 now = rm_now R (f_ops f1);
                 new_status = (\<lambda>i. map_systemctl_status (line_at lines i));
                 f2 = fold (\<lambda>(i, s). set_service (gs_id s)
                        (\<lambda>r. r\<lparr>gs_status := new_status i, gs_last_checked := Some now\<rparr>)) (enumerate 0 svcs) f1;
                 transitions = filter (\<lambda>(i, s). new_status i \<noteq> gs_status s) (enumerate 0 svcs)
             in Some (fold (\<lambda>(i, s). notify_service_transition g (gs_service_name s) (gs_unit_name s)
                              (Some (gs_status s)) (new_status i)) transitions f2))"

definition service_action :: "remote \<Rightarrow> pguest \<Rightarrow> service \<Rightarrow> string \<Rightarrow> fleet \<Rightarrow> (bool \<times> string) \<times> fleet" where
  "service_action R g svc action f =
     (if action \<notin> {''start'', ''stop'', ''restart''} then ((False, ''Invalid action''), f)
      else case safe_unit_name (gs_unit_name svc) of
        None \<Rightarrow> ((False, ''Invalid systemd unit name''), f)
      | Some unit_name \<Rightarrow>
          let ((stdout, error), f1) = execute_command R g (''systemctl '' @ action @ '' '' @ unit_name) 30 True f in
          if truthy_str error then ((False, opt_str error), f1)
          else let ((status_out, _), f2) =
                     execute_command R g (''systemctl is-active '' @ unit_name @ '' 2>/dev/null'') 60 False f1;
                   now = rm_now R (f_ops f2);
                   status = map_systemctl_status (py_strip (opt_str status_out))
               in ((True, str_or (opt_str stdout)
                            ((if action = ''start'' then ''Start'' else if action = ''stop'' then ''Stop'' else ''Restart'')
                             @ '' command sent'')),
                   set_service (gs_id svc) (\<lambda>s. s\<lparr>gs_status := status, gs_last_checked := Some now\<rparr>) f2))"

section \<open>Scanning\<close>

definition check_reboot_required :: "remote \<Rightarrow> pguest \<Rightarrow> fleet \<Rightarrow> fleet" where
  "check_reboot_required R g f =
     (let ((stdout, error), f1) =
        execute_command R g ''[ -f /var/run/reboot-required ] && echo yes || echo no'' 60 False f in
      if \<not> truthy_str error \<and> truthy_str stdout
      then set_guest (g_id g) (\<lambda>r. r\<lparr>pg_reboot_required := py_strip (opt_str stdout) = ''yes''\<rparr>) f1
      else f1)"

definition scan_failed :: "pguest \<Rightarrow> usec \<Rightarrow> string option \<Rightarrow> fleet \<Rightarrow> scan_result \<times> fleet" where
  "scan_failed g now error f =
     (let result = \<lparr>sr_guest_id = g_id g, sr_scanned_at = now, sr_total_updates = 0, sr_security_updates = 0,
            sr_status = ''error'', sr_error_message = error\<rparr>;
          f1 = set_guest (g_id g) (\<lambda>r. r\<lparr>pg_status := ''error'', pg_last_scan := Some now\<rparr>) f
      in (result, add_alert (Push (g_id g) ''guest_error'') (f1\<lparr>f_scans := f_scans f1 @ [result]\<rparr>)))"

definition new_update :: "int \<Rightarrow> usec \<Rightarrow> string option \<Rightarrow> package \<Rightarrow> update_package" where
  "new_update gid now security_output p =
     \<lparr>up_guest_id = gid, up_package_name = k_name p, up_current_version = k_current p,
      up_available_version = k_available p, up_severity = determine_severity (k_name p) security_output,
      up_discovered_at = Some now, up_applied_at = None, up_status = ''pending''\<rparr>"

definition store_scan ::
  "pguest \<Rightarrow> usec \<Rightarrow> string option \<Rightarrow> string option \<Rightarrow> fleet \<Rightarrow> scan_result \<times> fleet" where
  "store_scan g now upgradable_output security_output f =
     (let packages = parse_upgradable (opt_str upgradable_output);
          rows = map (new_update (g_id g) now security_output) packages;
          security_count = length (filter (\<lambda>u. up_severity u = ''critical'') rows);
          result = \<lparr>sr_guest_id = g_id g, sr_scanned_at = now, sr_total_updates = length packages,
            sr_security_updates = security_count, sr_status = ''success'', sr_error_message = None\<rparr>;
          f1 = f\<lparr>f_updates := filter (\<lambda>u. \<not> is_pending (g_id g) u) (f_updates f) @ rows\<rparr>;
          f2 = set_guest (g_id g) (\<lambda>r. r\<lparr>pg_status := (if packages \<noteq> [] then ''updates-available'' else ''up-to-date''),
                 pg_last_scan := Some now\<rparr>) f1
      in (result, f2\<lparr>f_scans := f_scans f2 @ [result]\<rparr>))"

definition scan_alerts :: "pguest \<Rightarrow> scan_result \<Rightarrow> fleet \<Rightarrow> fleet" where
  "scan_alerts g result f =
     (let f1 = (if sr_security_updates result > 0 then add_alert (Push (g_id g) ''security_update'') f else f) in
      if (case get_pguest f1 (g_id g) of None \<Rightarrow> False | Some r \<Rightarrow> pg_reboot_required r)
      then add_alert (Push (g_id g) ''reboot_required'') f1 else f1)"

text \<open>
  \<^verbatim>\<open>scan_guest\<close> runs \<^verbatim>\<open>_scan_guest_locked\<close> under a lock of the guest, so the steps of one scan are not
  interleaved with another scan of the same guest.
\<close>

definition scan_guest :: "remote \<Rightarrow> pguest \<Rightarrow> fleet \<Rightarrow> scan_result \<times> fleet" where
  "scan_guest R g f =
     (let ((upgradable_output, security_output, error), f1) = execute_on_guest R g f;
          now = rm_now R (f_ops f1) in
      if truthy_str error then scan_failed g now error f1
      else let (result, f2) = store_scan g now upgradable_output security_output f1
           in (result, scan_alerts g result (check_reboot_required R g (detect_services R g f2))))"

fun scan_guests :: "remote \<Rightarrow> pguest list \<Rightarrow> fleet \<Rightarrow> scan_result list \<times> fleet" where
  "scan_guests R [] f = ([], f)"
| "scan_guests R (g # gs) f =
     (let (r, f1) = scan_guest R g f; (rs, f2) = scan_guests R gs f1 in (r # rs, f2))"

definition scan_all_guests :: "remote \<Rightarrow> fleet \<Rightarrow> scan_result list \<times> fleet" where
  "scan_all_guests R f =
     scan_guests R (filter (\<lambda>g. g_enabled g \<and> pg_power_state g = ''running'') (f_guests f)) f"

section \<open>Applying updates\<close>

definition reconcile_applied_updates :: "pguest \<Rightarrow> usec \<Rightarrow> string option \<Rightarrow> fleet \<Rightarrow> fleet" where
  "reconcile_applied_updates g now upgradable_output f =
     (case upgradable_output of
        None \<Rightarrow> f
      | Some output \<Rightarrow>
          let still_upgradable = map k_name (parse_upgradable output);
              kept_back = filter (\<lambda>u. List.member still_upgradable (up_package_name u)) (pending_updates f (g_id g));
              f1 = f\<lparr>f_updates := update_rows
                     (\<lambda>u. is_pending (g_id g) u \<and> \<not> List.member still_upgradable (up_package_name u))
                     (\<lambda>u. u\<lparr>up_status := ''applied'', up_applied_at := Some now\<rparr>) (f_updates f)\<rparr>
          in set_guest (g_id g) (\<lambda>r. r\<lparr>pg_status := (if kept_back \<noteq> [] then ''updates-available'' else ''up-to-date'')\<rparr>) f1)"

text \<open>
  The end of a successful run: reconcile and check for a reboot. The recheck itself may raise, which
  the caller turns into a failure although the upgrade ran.
\<close>

definition finish_apply :: "remote \<Rightarrow> pguest \<Rightarrow> string option \<Rightarrow> fleet \<Rightarrow> fleet" where
  "finish_apply R g recheck f =
     check_reboot_required R g (reconcile_applied_updates g (rm_now R (f_ops f)) recheck f)"

definition apply_ssh :: "remote \<Rightarrow> pguest \<Rightarrow> credential \<Rightarrow> string \<Rightarrow> (bool \<times> string) io" where
  "apply_ssh R g c cmd =
     rbind (ssh_open R (pg_ip g) c) (\<lambda>_.
     rbind (ssh_execute_sudo R (pg_ip g) ''apt-get update -qq'' 120) (\<lambda>_.
     rbind (ssh_execute_sudo R (pg_ip g) cmd 600) (\<lambda>(stdout, stderr, rc).
       if rc = 0 then
         rbind (ssh_execute_sudo R (pg_ip g) APT_LIST_CMD 120) (\<lambda>(recheck_out, _, recheck_code) f.
           (Inr (True, stdout), finish_apply R g (if recheck_code = 0 then Some recheck_out else None) f))
       else rreturn (False, stderr))))"

text \<open>\<^term>\<open>None\<close>: the machine is on no node, and the code goes on.\<close>

definition apply_agent :: "remote \<Rightarrow> pguest \<Rightarrow> int \<Rightarrow> string \<Rightarrow> (bool \<times> string) option io" where
  "apply_agent R g host cmd =
     rbind (get_all_guests R host) (\<lambda>gs.
       let node = node_of (pg_vmid g) gs in
       if node \<noteq> [] then
         rbind (exec_guest_agent_streaming R host node (pg_vmid g) (''apt-get update -qq && '' @ cmd) 1800)
           (\<lambda>(chunks, exit_code).
             let output = concat chunks in
             case exit_code of
               None \<Rightarrow> rreturn (Some (False, str_or output ''The command did not complete''))
             | Some rc \<Rightarrow>
                 if rc = 0 then
                   rbind (exec_guest_agent R host node (pg_vmid g) ''apt list --upgradable'')
                     (\<lambda>(recheck_out, recheck_err) f.
                       (Inr (Some (True, output)),
                        finish_apply R g (if recheck_err = None then recheck_out else None) f))
                 else rreturn (Some (False, str_or output (''Exit code '' @ py_str_int rc))))
       else rreturn None)"

definition apply_updates :: "remote \<Rightarrow> pguest \<Rightarrow> bool \<Rightarrow> fleet \<Rightarrow> (bool \<times> string) \<times> fleet" where
  "apply_updates R g dist_upgrade f =
     (let cmd = apt_upgrade_command dist_upgrade in
      case (if ssh_allowed g then credential_of f g else None) of
        Some c \<Rightarrow>
          (case apply_ssh R g c cmd f of
             (Inr r, f1) \<Rightarrow> (r, f1)
           | (Inl e, f1) \<Rightarrow> ((False, x_str e), f1))
      | None \<Rightarrow>
          if agent_allowed g then
            (case apply_agent R g (the (pg_host g)) cmd f of
               (Inr (Some r), f1) \<Rightarrow> (r, f1)
             | (Inr None, f1) \<Rightarrow> ((False, ''No viable connection method''), f1)
             | (Inl e, f1) \<Rightarrow> ((False, x_str e), f1))
          else ((False, ''No viable connection method''), f))"

end
