(* ===== verification/Patch_Safety.thy ===== *)
theory Patch_Safety
  imports Patching
begin

text \<open>
  What scanning and updating a guest guarantee. The frame relations \<open>quiet\<close> (only remote operations
  happened), \<open>aside\<close> (only services, alerts and remote operations) and \<open>ops_grow\<close> (about the operations
  alone) carry the proofs: every piece of code is shown to stay within one of them, for operations
  addressed to its guest with commands from a fixed set. On top of them stand the exact effect of a
  scan and of an update, and the agreement of a guest's status with its pending rows.
\<close>

section \<open>Which commands reach which machine\<close>

primrec op_command :: "remote_op \<Rightarrow> string option" where
  "op_command (Ssh_Connect ip user) = None"
| "op_command (Ssh_Run sudo ip cmd timeout) = Some cmd"
| "op_command (Ssh_Stream ip cmd timeout) = Some cmd"
| "op_command (Px_Guests host) = None"
| "op_command (Px_Find host vmid) = None"
| "op_command (Agent_Exec host node vmid cmd) = Some cmd"
| "op_command (Agent_Stream host node vmid cmd timeout) = Some cmd"

primrec op_to :: "pguest \<Rightarrow> remote_op \<Rightarrow> bool" where
  "op_to g (Ssh_Connect ip user) = (ip = pg_ip g)"
| "op_to g (Ssh_Run sudo ip cmd timeout) = (ip = pg_ip g)"
| "op_to g (Ssh_Stream ip cmd timeout) = (ip = pg_ip g)"
| "op_to g (Px_Guests host) = (pg_host g = Some host)"
| "op_to g (Px_Find host vmid) = (pg_host g = Some host \<and> vmid = pg_vmid g)"
| "op_to g (Agent_Exec host node vmid cmd) = (pg_host g = Some host \<and> vmid = pg_vmid g)"
| "op_to g (Agent_Stream host node vmid cmd timeout) = (pg_host g = Some host \<and> vmid = pg_vmid g)"

text \<open>An operation for a guest whose command, if it has one, is one of the given ones.\<close>

definition op_within :: "pguest \<Rightarrow> string set \<Rightarrow> remote_op \<Rightarrow> bool" where
  "op_within g cmds op \<longleftrightarrow> op_to g op \<and> (\<forall>c. op_command op = Some c \<longrightarrow> c \<in> cmds)"

lemma op_within_simps [simp]:
  "op_within g cmds (Ssh_Connect ip user) \<longleftrightarrow> ip = pg_ip g"
  "op_within g cmds (Ssh_Run sudo ip cmd timeout) \<longleftrightarrow> ip = pg_ip g \<and> cmd \<in> cmds"
  "op_within g cmds (Ssh_Stream ip cmd timeout) \<longleftrightarrow> ip = pg_ip g \<and> cmd \<in> cmds"
  "op_within g cmds (Px_Guests host) \<longleftrightarrow> pg_host g = Some host"
  "op_within g cmds (Px_Find host vmid) \<longleftrightarrow> pg_host g = Some host \<and> vmid = pg_vmid g"
  "op_within g cmds (Agent_Exec host node vmid cmd) \<longleftrightarrow> pg_host g = Some host \<and> vmid = pg_vmid g \<and> cmd \<in> cmds"
  "op_within g cmds (Agent_Stream host node vmid cmd timeout) \<longleftrightarrow> pg_host g = Some host \<and> vmid = pg_vmid g \<and> cmd \<in> cmds"
  by (auto simp: op_within_def)

text \<open>From \<open>f\<close> to \<open>f'\<close> nothing happened but remote operations that satisfy \<open>P\<close>.\<close>

definition quiet :: "(remote_op \<Rightarrow> bool) \<Rightarrow> fleet \<Rightarrow> fleet \<Rightarrow> bool" where
  "quiet P f f' \<longleftrightarrow> (\<exists>ops. f' = f\<lparr>f_ops := f_ops f @ ops\<rparr> \<and> list_all P ops)"

definition stays :: "(remote_op \<Rightarrow> bool) \<Rightarrow> 'a io \<Rightarrow> bool" where
  "stays P m \<longleftrightarrow> (\<forall>f. quiet P f (snd (m f)))"

named_theorems stays_intros "code that only performs remote operations"

text \<open>The weaker fact about the operations alone.\<close>

definition ops_grow :: "(remote_op \<Rightarrow> bool) \<Rightarrow> fleet \<Rightarrow> fleet \<Rightarrow> bool" where
  "ops_grow P f f' \<longleftrightarrow> (\<exists>ops. f_ops f' = f_ops f @ ops \<and> list_all P ops)"

lemma ops_grow_refl: "f_ops f' = f_ops f \<Longrightarrow> ops_grow P f f'"
  by (simp add: ops_grow_def)

lemma ops_grow_trans: "ops_grow P f f' \<Longrightarrow> ops_grow P f' f'' \<Longrightarrow> ops_grow P f f''"
  unfolding ops_grow_def by (metis append.assoc list_all_append)

lemma ops_grow_mono: "ops_grow P f f' \<Longrightarrow> (\<And>op. P op \<Longrightarrow> Q op) \<Longrightarrow> ops_grow Q f f'"
  unfolding ops_grow_def by (auto simp: list_all_iff)

lemma ops_grow_quiet: "quiet P f f' \<Longrightarrow> ops_grow P f f'"
  unfolding quiet_def ops_grow_def by auto

lemma quiet_refl [simp]: "quiet P f f"
  unfolding quiet_def by (rule exI[of _ "[]"]) simp

lemma quiet_trans: "quiet P f f' \<Longrightarrow> quiet P f' f'' \<Longrightarrow> quiet P f f''"
proof -
  assume "quiet P f f'" "quiet P f' f''"
  then obtain a b where "f' = f\<lparr>f_ops := f_ops f @ a\<rparr>" "f'' = f'\<lparr>f_ops := f_ops f' @ b\<rparr>"
    "list_all P (a @ b)" by (auto simp: quiet_def)
  then show "quiet P f f''" unfolding quiet_def by (intro exI[of _ "a @ b"]) simp
qed

lemma quiet_mono: "quiet P f f' \<Longrightarrow> (\<And>op. P op \<Longrightarrow> Q op) \<Longrightarrow> quiet Q f f'"
  unfolding quiet_def by (auto simp: list_all_iff)

lemma stays_rreturn [stays_intros]: "stays P (rreturn x)"
  by (simp add: stays_def rreturn_def)

lemma stays_perform: "P op \<Longrightarrow> stays P (perform op ans)"
  unfolding stays_def quiet_def perform_def by (auto simp: Let_def)

lemma stays_rbind [stays_intros]:
  assumes "stays P m" "\<And>x. stays P (k x)"
  shows "stays P (rbind m k)"
  unfolding stays_def
proof
  fix f
  obtain r f1 where mf: "m f = (r, f1)" by (cases "m f") auto
  then have "quiet P f f1" using assms(1) by (metis stays_def snd_conv)
  moreover have "\<And>x. quiet P f1 (snd (k x f1))" using assms(2) by (simp add: stays_def)
  ultimately show "quiet P f (snd (rbind m k f))"
    by (cases r) (auto simp: rbind_def mf intro: quiet_trans)
qed

lemma stays_ops [stays_intros]:
  "ip = pg_ip g \<Longrightarrow> stays (op_within g cmds) (ssh_open R ip c)"
  "ip = pg_ip g \<Longrightarrow> cmd \<in> cmds \<Longrightarrow> stays (op_within g cmds) (ssh_execute R ip cmd timeout)"
  "ip = pg_ip g \<Longrightarrow> cmd \<in> cmds \<Longrightarrow> stays (op_within g cmds) (ssh_execute_sudo R ip cmd timeout)"
  "pg_host g = Some host \<Longrightarrow> stays (op_within g cmds) (get_all_guests R host)"
  "pg_host g = Some host \<Longrightarrow> vmid = pg_vmid g \<Longrightarrow> stays (op_within g cmds) (find_guest_node R host vmid)"
  "pg_host g = Some host \<Longrightarrow> vmid = pg_vmid g \<Longrightarrow> cmd \<in> cmds \<Longrightarrow>
     stays (op_within g cmds) (exec_guest_agent R host node vmid cmd)"
  "pg_host g = Some host \<Longrightarrow> vmid = pg_vmid g \<Longrightarrow> cmd \<in> cmds \<Longrightarrow>
     stays (op_within g cmds) (exec_guest_agent_streaming R host node vmid cmd timeout)"
  unfolding ssh_open_def ssh_execute_def ssh_execute_sudo_def get_all_guests_def find_guest_node_def
    exec_guest_agent_def exec_guest_agent_streaming_def by (rule stays_perform, simp)+

lemma stays_splits [stays_intros]:
  "(b \<Longrightarrow> stays P m) \<Longrightarrow> (\<not> b \<Longrightarrow> stays P n) \<Longrightarrow> stays P (if b then m else n)"
  "(x = None \<Longrightarrow> stays P m) \<Longrightarrow> (\<And>y. x = Some y \<Longrightarrow> stays P (k y)) \<Longrightarrow> stays P (case x of None \<Rightarrow> m | Some y \<Rightarrow> k y)"
  "(\<And>a b. stays P (h a b)) \<Longrightarrow> stays P (case p of (a, b) \<Rightarrow> h a b)"
  by (simp_all split: option.splits prod.splits)

lemma staysD: "stays P m \<Longrightarrow> m f = (r, f') \<Longrightarrow> quiet P f f'"
  by (metis stays_def snd_conv)

text \<open>The commands of the first half of a scan, and those a single command becomes.\<close>

definition scan_commands :: "string set" where
  "scan_commands = {''apt-get update -qq 2>/dev/null'', APT_LIST_CMD, APT_SECURITY_CMD, ''apt-get update -qq'',
     ''apt list --upgradable'', ''sh -c '' @ shlex_quote APT_SECURITY_CMD}"

definition ways :: "string \<Rightarrow> string set" where
  "ways cmd = {cmd, ''sh -c '' @ shlex_quote cmd}"

lemma scan_ssh_stays: "stays (op_within g scan_commands) (scan_ssh R g c)"
  unfolding scan_ssh_def by (intro stays_intros) (auto simp: scan_commands_def)

lemma scan_agent_stays: "pg_host g = Some host \<Longrightarrow> stays (op_within g scan_commands) (scan_agent R g host)"
  unfolding scan_agent_def Let_def by (intro stays_intros) (auto simp: scan_commands_def)

lemma command_ssh_stays: "stays (op_within g (ways cmd)) (command_ssh R g c cmd timeout sudo)"
  unfolding command_ssh_def by (intro stays_intros) (auto simp: ways_def)

lemma command_agent_stays: "pg_host g = Some host \<Longrightarrow> stays (op_within g (ways cmd)) (command_agent R g host cmd)"
  unfolding command_agent_def by (intro stays_intros) (auto simp: ways_def)

lemma reach_guest_quiet:
  assumes "\<And>c. stays P (over_ssh c)" "\<And>host. pg_host g = Some host \<Longrightarrow> stays P (over_agent host)"
  shows "quiet P f (snd (reach_guest g over_ssh over_agent failure f))"
proof -
  define first where "first =
        (case (if ssh_allowed g then credential_of f g else None) of
           None \<Rightarrow> (None, f)
         | Some c \<Rightarrow>
             (case over_ssh c f of
                (Inr r, f1) \<Rightarrow> (r, f1)
              | (Inl e, f1) \<Rightarrow>
                  (if pg_method g = ''ssh'' then Some (failure (''SSH failed: '' @ describe_exception e)) else None, f1)))"
  have q1: "quiet P f (snd first)"
    using staysD[OF assms(1)] by (auto simp: first_def split: option.splits prod.splits sum.splits)
  have q2: "agent_allowed g \<Longrightarrow> quiet P f1 (snd (over_agent (the (pg_host g)) f1))" for f1
    using assms(2) by (auto simp: agent_allowed_def stays_def)
  have "snd (reach_guest g over_ssh over_agent failure f) =
      (if fst first = None \<and> agent_allowed g then snd (over_agent (the (pg_host g)) (snd first)) else snd first)"
    unfolding reach_guest_def first_def[symmetric] by (auto split: option.splits prod.splits sum.splits)
  then show ?thesis using q1 q2[of "snd first"] by (auto intro: quiet_trans)
qed

lemma execute_on_guest_quiet: "quiet (op_within g scan_commands) f (snd (execute_on_guest R g f))"
  unfolding execute_on_guest_def by (rule reach_guest_quiet[OF scan_ssh_stays scan_agent_stays])

lemma execute_command_quiet: "quiet (op_within g (ways cmd)) f (snd (execute_command R g cmd timeout sudo f))"
  unfolding execute_command_def by (rule reach_guest_quiet[OF command_ssh_stays command_agent_stays])

section \<open>What a scan leaves alone\<close>

text \<open>
  From \<open>f\<close> to \<open>f'\<close> only services, alerts and remote operations that satisfy \<open>P\<close> changed: the
  patch state is as before.
\<close>

definition aside :: "(remote_op \<Rightarrow> bool) \<Rightarrow> fleet \<Rightarrow> fleet \<Rightarrow> bool" where
  "aside P f f' \<longleftrightarrow> (\<exists>ops. f' = f\<lparr>f_services := f_services f', f_alerts := f_alerts f', f_ops := f_ops f @ ops\<rparr> \<and>
     list_all P ops)"

lemma aside_trans:
  assumes "aside P f f'" "aside P f' f''"
  shows "aside P f f''"
proof -
  obtain a b where a: "f' = f\<lparr>f_services := f_services f', f_alerts := f_alerts f', f_ops := f_ops f @ a\<rparr>" "list_all P a"
    and b: "f'' = f'\<lparr>f_services := f_services f'', f_alerts := f_alerts f'', f_ops := f_ops f' @ b\<rparr>" "list_all P b"
    using assms by (auto simp: aside_def)
  have "f_ops f' = f_ops f @ a" by (subst a(1)) simp
  then have "f'' = f\<lparr>f_services := f_services f'', f_alerts := f_alerts f'', f_ops := f_ops f @ a @ b\<rparr>"
    by (subst b(1), subst a(1)) simp
  then show ?thesis unfolding aside_def using a(2) b(2) by (intro exI[of _ "a @ b"]) simp
qed

lemma aside_refl [simp]: "aside P f f"
  unfolding aside_def by (rule exI[of _ "[]"]) simp

lemma aside_quiet: "quiet P f f' \<Longrightarrow> aside P f f'"
  unfolding aside_def quiet_def by auto

lemma aside_local:
  "aside P f (add_alert a f)" "aside P f (set_service i h f)" "aside P f (f\<lparr>f_services := ss\<rparr>)"
  unfolding aside_def add_alert_def set_service_def by (rule exI[of _ "[]"], simp)+

lemma aside_mono: "aside P f f' \<Longrightarrow> (\<And>op. P op \<Longrightarrow> Q op) \<Longrightarrow> aside Q f f'"
  unfolding aside_def by (auto simp: list_all_iff)

lemma aside_fold:
  assumes "\<And>x f. x \<in> set xs \<Longrightarrow> aside P f (h x f)"
  shows "aside P f (fold h xs f)"
  using assms
proof (induction xs arbitrary: f)
  case (Cons x xs)
  then have "aside P f (h x f)" "aside P (h x f) (fold h xs (h x f))" by simp_all
  then show ?case by (auto intro: aside_trans)
qed simp

lemma aside_fields:
  assumes "aside P f f'"
  shows "f_updates f' = f_updates f" "f_guests f' = f_guests f" "f_scans f' = f_scans f"
    "f_history f' = f_history f" "f_app f' = f_app f" "f_windows f' = f_windows f" "f_credentials f' = f_credentials f"
    "ops_grow P f f'"
proof -
  obtain ops where f': "f' = f\<lparr>f_services := f_services f', f_alerts := f_alerts f', f_ops := f_ops f @ ops\<rparr>"
    and "list_all P ops" using assms by (auto simp: aside_def)
  then show "ops_grow P f f'" unfolding ops_grow_def by (metis fleet.select_convs(9) fleet.surjective fleet.update_convs(9))
  show "f_updates f' = f_updates f" "f_guests f' = f_guests f" "f_scans f' = f_scans f" "f_history f' = f_history f"
    "f_app f' = f_app f" "f_windows f' = f_windows f" "f_credentials f' = f_credentials f" by (subst f', simp)+
qed

lemma notify_aside: "aside P f (notify_service_transition g k u old new f)"
  unfolding notify_service_transition_def by (auto intro: aside_local aside_trans)

lemma upsert_aside: "aside P f (upsert_service g k u port st now f)"
  unfolding upsert_service_def
  by (auto split: option.split intro: aside_local aside_trans[OF _ notify_aside])

definition fixed_command :: string where
  "fixed_command = ''systemctl is-active '' @ py_join '' '' (map (fst \<circ> snd) fixed_services) @ '' 2>/dev/null''"

definition glob_command :: "string \<Rightarrow> string" where
  "glob_command unit_pattern =
     ''systemctl list-units '' @ CHR 0x27 # unit_pattern @ CHR 0x27 # '' --no-legend --plain 2>/dev/null''"

definition reboot_command :: string where
  "reboot_command = ''[ -f /var/run/reboot-required ] && echo yes || echo no''"

text \<open>Every command a scan can send, whatever the guest answers.\<close>

definition all_scan_commands :: "string set" where
  "all_scan_commands = scan_commands \<union> ways fixed_command \<union> (\<Union>(k, u, p) \<in> set glob_services. ways (glob_command u)) \<union>
     ways reboot_command"

lemma detect_fixed_aside: "aside (op_within g all_scan_commands) f (detect_fixed R g now f)"
proof -
  obtain r f1 where ex: "execute_command R g fixed_command 60 False f = (r, f1)"
    by (cases "execute_command R g fixed_command 60 False f") auto
  have "quiet (op_within g (ways fixed_command)) f f1"
    using execute_command_quiet[of g fixed_command f R 60 False] by (simp add: ex)
  then have "aside (op_within g all_scan_commands) f f1"
    by (intro aside_quiet) (auto elim!: quiet_mono simp: op_within_def all_scan_commands_def)
  then show ?thesis
    unfolding detect_fixed_def fixed_command_def[symmetric] ex Let_def
    by (auto intro!: aside_fold upsert_aside elim!: aside_trans split: prod.splits)
qed

lemma detect_glob_aside:
  assumes "s \<in> set glob_services"
  shows "aside (op_within g all_scan_commands) f (detect_glob R g now s f)"
proof -
  obtain k u p where s: "s = (k, u, p)" by (cases s) auto
  obtain r f1 where ex: "execute_command R g (glob_command u) 60 False f = (r, f1)"
    by (cases "execute_command R g (glob_command u) 60 False f") auto
  have "quiet (op_within g (ways (glob_command u))) f f1"
    using execute_command_quiet[of g "glob_command u" f R 60 False] by (simp add: ex)
  then have "aside (op_within g all_scan_commands) f f1"
    using assms by (intro aside_quiet) (force elim!: quiet_mono simp: op_within_def all_scan_commands_def s)
  moreover have "aside P h (fold (detect_line g k p now) ls h)" for P ls h
    by (intro aside_fold) (auto simp: detect_line_def Let_def upsert_aside)
  ultimately show ?thesis
    unfolding detect_glob_def s prod.case glob_command_def[symmetric] ex Let_def
    by (auto elim!: aside_trans split: prod.splits)
qed

lemma detect_services_aside: "aside (op_within g all_scan_commands) f (detect_services R g f)"
  unfolding detect_services_def Let_def
  by (rule aside_trans[OF detect_fixed_aside aside_fold[OF detect_glob_aside]])

text \<open>The reboot check may also set the flag of its guest.\<close>

lemma check_reboot_effect:
  "\<exists>f1 h. quiet (op_within g (ways reboot_command)) f f1 \<and>
     check_reboot_required R g f = set_guest (g_id g) (\<lambda>r. r\<lparr>pg_reboot_required := h r\<rparr>) f1"
proof -
  obtain r f1 where ex: "execute_command R g reboot_command 60 False f = (r, f1)"
    by (cases "execute_command R g reboot_command 60 False f") auto
  have q: "quiet (op_within g (ways reboot_command)) f f1"
    using execute_command_quiet[of g reboot_command f R 60 False] by (simp add: ex)
  have same: "f1 = set_guest (g_id g) (\<lambda>r. r\<lparr>pg_reboot_required := pg_reboot_required r\<rparr>) f1"
    by (simp add: set_guest_def update_rows_def)
  show ?thesis
  proof (cases "\<not> truthy_str (snd r) \<and> truthy_str (fst r)")
    case True
    then have "check_reboot_required R g f =
        set_guest (g_id g) (\<lambda>x. x\<lparr>pg_reboot_required := py_strip (opt_str (fst r)) = ''yes''\<rparr>) f1"
      unfolding check_reboot_required_def reboot_command_def[symmetric] ex Let_def by (cases r) simp
    then show ?thesis using q by (intro exI[of _ f1] exI[of _ "\<lambda>_. py_strip (opt_str (fst r)) = ''yes''"]) simp
  next
    case False
    then have "check_reboot_required R g f = f1"
      unfolding check_reboot_required_def reboot_command_def[symmetric] ex Let_def by (cases r) auto
    then show ?thesis using q same by metis
  qed
qed

lemma set_guest_fields [simp]:
  "f_updates (set_guest gid h f) = f_updates f" "f_scans (set_guest gid h f) = f_scans f"
  "f_history (set_guest gid h f) = f_history f" "f_ops (set_guest gid h f) = f_ops f"
  "f_services (set_guest gid h f) = f_services f" "f_app (set_guest gid h f) = f_app f"
  "f_windows (set_guest gid h f) = f_windows f" "f_credentials (set_guest gid h f) = f_credentials f"
  "f_alerts (set_guest gid h f) = f_alerts f"
  "f_guests (set_guest gid h f) = update_rows (\<lambda>g. g_id g = gid) h (f_guests f)"
  by (simp_all add: set_guest_def)

lemma update_rows_other:
  assumes "\<And>r. g_id (h r) = g_id r"
  shows "filter (\<lambda>r. g_id r \<noteq> gid) (update_rows (\<lambda>g. g_id g = gid) h rows) = filter (\<lambda>r. g_id r \<noteq> gid) rows"
  using assms by (induction rows) (auto simp: update_rows_def)

lemma scan_alerts_aside: "aside P f (scan_alerts g res f)"
  unfolding scan_alerts_def Let_def by (auto intro: aside_local aside_trans split: option.splits)

text \<open>
  The end of a scan, after its rows are stored: services, the reboot flag and alerts. The guests'
  rows keep everything but the flag of the scanned guest.
\<close>

lemma scan_tail_effect:
  assumes "f' = scan_alerts g res (check_reboot_required R g (detect_services R g f))"
  shows "f_updates f' = f_updates f" "f_scans f' = f_scans f" "f_history f' = f_history f"
    "\<exists>h. f_guests f' = update_rows (\<lambda>r. g_id r = g_id g) (\<lambda>r. r\<lparr>pg_reboot_required := h r\<rparr>) (f_guests f)"
    "ops_grow (op_within g all_scan_commands) f f'"
    "f_app f' = f_app f" "f_windows f' = f_windows f" "f_credentials f' = f_credentials f"
proof -
  let ?P = "op_within g all_scan_commands"
  define f2 where "f2 = detect_services R g f"
  obtain f3 h where q: "quiet (op_within g (ways reboot_command)) f2 f3"
    and f4: "check_reboot_required R g f2 = set_guest (g_id g) (\<lambda>r. r\<lparr>pg_reboot_required := h r\<rparr>) f3"
    using check_reboot_effect by blast
  have "quiet ?P f2 f3" using q by (rule quiet_mono) (auto simp: op_within_def all_scan_commands_def)
  then have a1: "aside ?P f f3"
    unfolding f2_def by (rule aside_trans[OF detect_services_aside aside_quiet])
  have a2: "aside ?P (set_guest (g_id g) (\<lambda>r. r\<lparr>pg_reboot_required := h r\<rparr>) f3) f'"
    unfolding assms f2_def[symmetric] f4 by (rule scan_alerts_aside)
  show "f_updates f' = f_updates f" "f_scans f' = f_scans f" "f_history f' = f_history f"
    "f_app f' = f_app f" "f_windows f' = f_windows f" "f_credentials f' = f_credentials f"
    using aside_fields[OF a1] aside_fields[OF a2] by simp_all
  show "\<exists>h. f_guests f' = update_rows (\<lambda>r. g_id r = g_id g) (\<lambda>r. r\<lparr>pg_reboot_required := h r\<rparr>) (f_guests f)"
    using aside_fields(2)[OF a1] aside_fields(2)[OF a2] by auto
  have "ops_grow ?P f3 (set_guest (g_id g) (\<lambda>r. r\<lparr>pg_reboot_required := h r\<rparr>) f3)"
    by (rule ops_grow_refl) simp
  then show "ops_grow ?P f f'"
    using aside_fields(8)[OF a1] aside_fields(8)[OF a2] by (blast intro: ops_grow_trans)
qed

lemma store_scan_effect:
  assumes "store_scan g now out sec f = (res, f')"
  shows "pending_updates f' (g_id g) = map (new_update (g_id g) now sec) (parse_upgradable (opt_str out))"
    "filter (\<lambda>u. \<not> is_pending (g_id g) u) (f_updates f') = filter (\<lambda>u. \<not> is_pending (g_id g) u) (f_updates f)"
    "sr_total_updates res = length (pending_updates f' (g_id g))"
    "sr_security_updates res = length (security_updates f' (g_id g))"
    "f_guests f' = update_rows (\<lambda>r. g_id r = g_id g) (\<lambda>r. r\<lparr>pg_status :=
       (if pending_updates f' (g_id g) \<noteq> [] then ''updates-available'' else ''up-to-date''), pg_last_scan := Some now\<rparr>) (f_guests f)"
    "f_scans f' = f_scans f @ [res]" "f_history f' = f_history f" "f_ops f' = f_ops f"
    "sr_guest_id res = g_id g" "sr_scanned_at res = now" "sr_status res = ''success''"
    "f_app f' = f_app f" "f_windows f' = f_windows f" "f_credentials f' = f_credentials f"
    "f_services f' = f_services f" "f_alerts f' = f_alerts f"
proof -
  let ?rows = "map (new_update (g_id g) now sec) (parse_upgradable (opt_str out))"
  have new: "filter (is_pending (g_id g)) ?rows = ?rows" "filter (\<lambda>u. \<not> is_pending (g_id g) u) ?rows = []"
    by (simp_all add: filter_id_conv filter_empty_conv is_pending_def new_update_def)
  have upd: "f_updates f' = filter (\<lambda>u. \<not> is_pending (g_id g) u) (f_updates f) @ ?rows"
    using assms by (auto simp: store_scan_def Let_def)
  show pend: "pending_updates f' (g_id g) = ?rows"
    by (simp add: pending_updates_def upd new)
  show "filter (\<lambda>u. \<not> is_pending (g_id g) u) (f_updates f') = filter (\<lambda>u. \<not> is_pending (g_id g) u) (f_updates f)"
    by (simp add: upd new)
  show "sr_total_updates res = length (pending_updates f' (g_id g))"
    "sr_security_updates res = length (security_updates f' (g_id g))" "sr_guest_id res = g_id g"
    "sr_scanned_at res = now" "sr_status res = ''success''"
    unfolding pend security_updates_def using assms by (auto simp: store_scan_def Let_def)
  show "f_guests f' = update_rows (\<lambda>r. g_id r = g_id g) (\<lambda>r. r\<lparr>pg_status :=
       (if pending_updates f' (g_id g) \<noteq> [] then ''updates-available'' else ''up-to-date''), pg_last_scan := Some now\<rparr>) (f_guests f)"
    unfolding pend using assms by (auto simp: store_scan_def Let_def)
  show "f_scans f' = f_scans f @ [res]" "f_history f' = f_history f" "f_ops f' = f_ops f"
    "f_app f' = f_app f" "f_windows f' = f_windows f" "f_credentials f' = f_credentials f"
    "f_services f' = f_services f" "f_alerts f' = f_alerts f"
    using assms by (auto simp: store_scan_def Let_def)
qed

text \<open>The two ways a scan can go, in terms of what running the commands returned.\<close>

lemma scan_guest_cases [consumes 1, case_names failure success]:
  assumes "scan_guest R g f = (res, f')"
  obtains out sec err f1 where "execute_on_guest R g f = ((out, sec, err), f1)" "truthy_str err"
    "scan_failed g (rm_now R (f_ops f1)) err f1 = (res, f')"
  | out sec err f1 f2 where "execute_on_guest R g f = ((out, sec, err), f1)" "\<not> truthy_str err"
    "store_scan g (rm_now R (f_ops f1)) out sec f1 = (res, f2)"
    "f' = scan_alerts g res (check_reboot_required R g (detect_services R g f2))"
proof -
  obtain out sec err f1 where ex: "execute_on_guest R g f = ((out, sec, err), f1)"
    by (cases "execute_on_guest R g f") auto
  show thesis
  proof (cases "truthy_str err")
    case True
    then show ?thesis using assms ex that(1) by (simp add: scan_guest_def)
  next
    case False
    obtain res' f2 where "store_scan g (rm_now R (f_ops f1)) out sec f1 = (res', f2)"
      by (cases "store_scan g (rm_now R (f_ops f1)) out sec f1") auto
    then show ?thesis using assms ex False that(2) by (auto simp: scan_guest_def)
  qed
qed

lemma execute_on_guest_fields:
  assumes "execute_on_guest R g f = (r, f1)"
  shows "f_updates f1 = f_updates f" "f_guests f1 = f_guests f" "f_scans f1 = f_scans f" "f_history f1 = f_history f"
    "ops_grow (op_within g all_scan_commands) f f1"
    "f_app f1 = f_app f" "f_windows f1 = f_windows f" "f_credentials f1 = f_credentials f"
    "f_services f1 = f_services f" "f_alerts f1 = f_alerts f"
proof -
  have q: "quiet (op_within g scan_commands) f f1" using execute_on_guest_quiet[of g f R] assms by simp
  then show "f_updates f1 = f_updates f" "f_guests f1 = f_guests f" "f_scans f1 = f_scans f" "f_history f1 = f_history f"
    "f_app f1 = f_app f" "f_windows f1 = f_windows f" "f_credentials f1 = f_credentials f"
    "f_services f1 = f_services f" "f_alerts f1 = f_alerts f"
    by (auto simp: quiet_def)
  show "ops_grow (op_within g all_scan_commands) f f1"
    by (rule ops_grow_mono[OF ops_grow_quiet[OF q]]) (auto simp: op_within_def all_scan_commands_def)
qed

lemma update_rows_twice:
  "(\<And>r. P (h r) = P r) \<Longrightarrow> update_rows P k (update_rows P h rows) = update_rows P (k \<circ> h) rows"
  by (auto simp: update_rows_def)

lemma scan_guest_frame:
  assumes "scan_guest R g f = (res, f')"
  shows "(\<forall>r \<in> set (f_guests f'). g_id r = g_id g \<longrightarrow> pg_last_scan r = Some (sr_scanned_at res) \<and>
            pg_status r = (if sr_status res = ''error'' then ''error''
                           else if pending_updates f' (g_id g) = [] then ''up-to-date'' else ''updates-available'')) \<and>
         f_scans f' = f_scans f @ [res] \<and> f_history f' = f_history f \<and>
         filter (\<lambda>u. \<not> is_pending (g_id g) u) (f_updates f') = filter (\<lambda>u. \<not> is_pending (g_id g) u) (f_updates f) \<and>
         filter (\<lambda>r. g_id r \<noteq> g_id g) (f_guests f') = filter (\<lambda>r. g_id r \<noteq> g_id g) (f_guests f)"
  using assms
proof (cases rule: scan_guest_cases)
  case (failure out sec err f1)
  note fr = execute_on_guest_fields[OF failure(1)]
  have f': "f_updates f' = f_updates f1" "f_scans f' = f_scans f1 @ [res]" "f_history f' = f_history f1"
    "f_guests f' = update_rows (\<lambda>r. g_id r = g_id g) (\<lambda>r. r\<lparr>pg_status := ''error'', pg_last_scan := Some (sr_scanned_at res)\<rparr>) (f_guests f1)"
    and res: "sr_status res = ''error''"
    using failure(3) by (auto simp: scan_failed_def Let_def add_alert_def)
  show ?thesis unfolding f' using res fr by (auto simp: update_rows_other) (auto simp: update_rows_def)
next
  case (success out sec err f1 f2)
  note fr = execute_on_guest_fields[OF success(1)]
  note st = store_scan_effect[OF success(3)]
  note tl = scan_tail_effect[OF success(4)]
  have pend: "pending_updates f' = pending_updates f2" by (simp add: fun_eq_iff pending_updates_def tl(1))
  obtain h where "f_guests f' = update_rows (\<lambda>r. g_id r = g_id g) (\<lambda>r. r\<lparr>pg_reboot_required := h r\<rparr>) (f_guests f2)"
    using tl(4) by blast
  then have gs: "f_guests f' = update_rows (\<lambda>r. g_id r = g_id g) ((\<lambda>r. r\<lparr>pg_reboot_required := h r\<rparr>) \<circ>
      (\<lambda>r. r\<lparr>pg_status := (if pending_updates f2 (g_id g) \<noteq> [] then ''updates-available'' else ''up-to-date''),
              pg_last_scan := Some (sr_scanned_at res)\<rparr>)) (f_guests f)"
    by (simp add: st(5,10) update_rows_twice fr(2))
  have "filter (\<lambda>r. g_id r \<noteq> g_id g) (f_guests f') = filter (\<lambda>r. g_id r \<noteq> g_id g) (f_guests f)"
    unfolding gs by (rule update_rows_other) simp
  moreover have "\<forall>r \<in> set (f_guests f'). g_id r = g_id g \<longrightarrow> pg_last_scan r = Some (sr_scanned_at res) \<and>
      pg_status r = (if pending_updates f2 (g_id g) \<noteq> [] then ''updates-available'' else ''up-to-date'')"
    unfolding gs by (auto simp: update_rows_def)
  ultimately show ?thesis
    using st(2,6,7,11) tl(1-3) fr(1,3,4) unfolding pend by auto
qed

subsection \<open>Services and alerts\<close>

text \<open>
  A scan of a guest may set the status of the guest's own services and add new ones; \<open>I\<close> are the keys
  of the guest's services. Alerts are about the guest.
\<close>

definition service_kept :: "int set \<Rightarrow> service \<Rightarrow> service \<Rightarrow> bool" where
  "service_kept I s s' \<longleftrightarrow> s' = s \<or> gs_id s \<in> I \<and> (\<exists>st t. s' = s\<lparr>gs_status := st, gs_last_checked := t\<rparr>)"

definition service_ids :: "int \<Rightarrow> service list \<Rightarrow> int set" where
  "service_ids gid ss = gs_id ` {s \<in> set ss. gs_guest_id s = gid}"

definition services_kept :: "int \<Rightarrow> service list \<Rightarrow> service list \<Rightarrow> bool" where
  "services_kept gid ss ss' \<longleftrightarrow> (\<exists>old new. ss' = old @ new \<and> list_all2 (service_kept (service_ids gid ss)) ss old \<and>
     (\<forall>s \<in> set new. gs_guest_id s = gid \<and> gs_id s \<notin> gs_id ` set ss))"

definition alert_about :: "pguest \<Rightarrow> alert \<Rightarrow> bool" where
  "alert_about g a =
     (case a of Push i _ \<Rightarrow> i = g_id g | Service_Alert _ name _ \<Rightarrow> name = g_name g | _ \<Rightarrow> False)"

definition scan_side :: "pguest \<Rightarrow> fleet \<Rightarrow> fleet \<Rightarrow> bool" where
  "scan_side g f f' \<longleftrightarrow> services_kept (g_id g) (f_services f) (f_services f') \<and>
     (\<exists>as. f_alerts f' = f_alerts f @ as \<and> list_all (alert_about g) as)"

lemma service_keptI: "gs_id s \<in> I \<Longrightarrow> service_kept I s (s\<lparr>gs_status := st, gs_last_checked := t\<rparr>)"
  unfolding service_kept_def by blast

lemma service_kept_trans:
  assumes "service_kept I s s'" "service_kept J s' s''" "gs_id s \<in> J \<Longrightarrow> gs_id s \<in> I"
  shows "service_kept I s s''"
proof (cases "s'' = s'")
  case False
  then obtain st t where "gs_id s' \<in> J" "s'' = s'\<lparr>gs_status := st, gs_last_checked := t\<rparr>"
    using assms(2) unfolding service_kept_def by blast
  moreover have "s'\<lparr>gs_status := st, gs_last_checked := t\<rparr> = s\<lparr>gs_status := st, gs_last_checked := t\<rparr>" "gs_id s' = gs_id s"
    using assms(1) by (auto simp: service_kept_def)
  ultimately show ?thesis using assms(3) service_keptI by metis
qed (use assms(1) in simp)

lemma services_keptI:
  "list_all2 (service_kept (service_ids gid ss)) ss old \<Longrightarrow>
   \<forall>s \<in> set new. gs_guest_id s = gid \<and> gs_id s \<notin> gs_id ` set ss \<Longrightarrow> services_kept gid ss (old @ new)"
  unfolding services_kept_def by blast

lemma services_kept_refl: "services_kept gid ss ss"
  using services_keptI[of gid ss ss "[]"] by (simp add: list.rel_refl service_kept_def)

lemma service_kept_ids: "list_all2 (service_kept I) ss old \<Longrightarrow> map gs_id old = map gs_id ss \<and> map gs_guest_id old = map gs_guest_id ss"
  by (induction rule: list_all2_induct) (auto simp: service_kept_def)

lemma service_ids_kept:
  assumes "map gs_id old = map gs_id ss" "map gs_guest_id old = map gs_guest_id ss"
  shows "service_ids gid old = service_ids gid ss"
proof -
  have "service_ids gid xs = fst ` {p \<in> set (zip (map gs_id xs) (map gs_guest_id xs)). snd p = gid}" for xs
    by (force simp: service_ids_def zip_map_map zip_same_conv_map image_iff)
  then show ?thesis using assms by simp
qed

lemma services_kept_trans:
  assumes "services_kept gid ss ss'" "services_kept gid ss' ss''"
  shows "services_kept gid ss ss''"
proof -
  obtain old new where 1: "ss' = old @ new" "list_all2 (service_kept (service_ids gid ss)) ss old"
    "\<forall>s \<in> set new. gs_guest_id s = gid \<and> gs_id s \<notin> gs_id ` set ss"
    using assms(1) unfolding services_kept_def by blast
  obtain old' new' where 2: "ss'' = old' @ new'" "list_all2 (service_kept (service_ids gid ss')) ss' old'"
    "\<forall>s \<in> set new'. gs_guest_id s = gid \<and> gs_id s \<notin> gs_id ` set ss'"
    using assms(2) unfolding services_kept_def by blast
  obtain oa ob where o: "old' = oa @ ob" "list_all2 (service_kept (service_ids gid ss')) old oa"
    "list_all2 (service_kept (service_ids gid ss')) new ob"
    using 2(2) unfolding 1(1) by (auto simp: list_all2_append1)
  note ids = service_kept_ids[OF 1(2)]
  have set_ids: "gs_id ` set old = gs_id ` set ss" using arg_cong[OF conjunct1[OF ids], of set] by simp
  have I': "service_ids gid ss' \<subseteq> service_ids gid ss \<union> gs_id ` set new"
    using service_ids_kept[of old ss gid] ids by (auto simp: service_ids_def 1(1))
  have "list_all2 (service_kept (service_ids gid ss)) ss oa"
  proof (rule list_all2_all_nthI)
    show "length ss = length oa" using 1(2) o(2) by (simp add: list_all2_lengthD)
    fix i assume i: "i < length ss"
    have a: "service_kept (service_ids gid ss) (ss ! i) (old ! i)" by (rule list_all2_nthD[OF 1(2) i])
    have b: "service_kept (service_ids gid ss') (old ! i) (oa ! i)"
      using list_all2_nthD2[OF o(2), of i] i 1(2) o(2) by (simp add: list_all2_lengthD)
    have "gs_id (old ! i) = gs_id (ss ! i)" using a by (auto simp: service_kept_def)
    moreover have "gs_id (ss ! i) \<notin> gs_id ` set new" using 1(3) i nth_mem[OF i] by (metis imageE image_eqI)
    ultimately show "service_kept (service_ids gid ss) (ss ! i) (oa ! i)"
      using service_kept_trans[OF a b] I' by auto
  qed
  moreover have "\<forall>s \<in> set (ob @ new'). gs_guest_id s = gid \<and> gs_id s \<notin> gs_id ` set ss"
  proof -
    have keep: "gs_id ` set ob = gs_id ` set new" "gs_guest_id ` set ob = gs_guest_id ` set new"
      using service_kept_ids[OF o(3)] by (metis list.set_map)+
    have "gs_guest_id s = gid \<and> gs_id s \<notin> gs_id ` set ss" if "s \<in> set ob" for s
    proof -
      have "gs_id s \<in> gs_id ` set new" "gs_guest_id s \<in> gs_guest_id ` set new" using keep that by blast+
      then show ?thesis using 1(3) by (metis imageE)
    qed
    moreover have "gs_guest_id s = gid \<and> gs_id s \<notin> gs_id ` set ss" if "s \<in> set new'" for s
      using 2(3) that set_ids unfolding 1(1) set_append image_Un by blast
    ultimately show ?thesis unfolding set_append by blast
  qed
  ultimately show ?thesis using services_keptI[of gid ss oa "ob @ new'"] by (simp add: 2(1) o(1))
qed

lemma scan_side_same: "f_services f' = f_services f \<Longrightarrow> f_alerts f' = f_alerts f \<Longrightarrow> scan_side g f f'"
  by (simp add: scan_side_def services_kept_refl)

lemma scan_side_trans: "scan_side g f f' \<Longrightarrow> scan_side g f' f'' \<Longrightarrow> scan_side g f f''"
  unfolding scan_side_def by (auto elim: services_kept_trans)

lemma scan_side_quiet: "quiet P f f' \<Longrightarrow> scan_side g f f'"
  by (auto simp: quiet_def intro: scan_side_same)

lemma scan_side_alert: "alert_about g a \<Longrightarrow> scan_side g f (add_alert a f)"
  by (simp add: scan_side_def add_alert_def services_kept_refl)

lemma scan_side_fold: "(\<And>x f. scan_side g f (h x f)) \<Longrightarrow> scan_side g f (fold h xs f)"
  by (induction xs arbitrary: f) (auto intro: scan_side_same scan_side_trans)

lemma scan_side_notify: "scan_side g f (notify_service_transition g k u old new f)"
  unfolding notify_service_transition_def
  by (auto intro!: scan_side_same scan_side_trans[OF scan_side_alert scan_side_alert] scan_side_alert simp: alert_about_def)

lemma scan_side_set:
  assumes "find_service f (g_id g) u = Some s"
  shows "scan_side g f (set_service (gs_id s) (\<lambda>r. r\<lparr>gs_status := st, gs_last_checked := t\<rparr>) f)"
proof -
  have "gs_id s \<in> service_ids (g_id g) (f_services f)"
    using assms by (auto simp: find_service_def service_ids_def dest: first_row_Some)
  then have "list_all2 (service_kept (service_ids (g_id g) (f_services f))) (f_services f)
      (update_rows (\<lambda>r. gs_id r = gs_id s) (\<lambda>r. r\<lparr>gs_status := st, gs_last_checked := t\<rparr>) (f_services f))"
    by (auto simp: list_all2_conv_all_nth update_rows_def intro: service_keptI) (simp add: service_kept_def)
  then have "services_kept (g_id g) (f_services f)
      (update_rows (\<lambda>r. gs_id r = gs_id s) (\<lambda>r. r\<lparr>gs_status := st, gs_last_checked := t\<rparr>) (f_services f))"
    using services_keptI[of _ _ _ "[]"] by simp
  then show ?thesis by (simp add: scan_side_def set_service_def)
qed

lemma scan_side_add:
  assumes "gs_guest_id s = g_id g" "gs_id s = next_id gs_id (f_services f)"
  shows "scan_side g f (f\<lparr>f_services := f_services f @ [s]\<rparr>)"
proof -
  have "gs_id s \<notin> gs_id ` set (f_services f)" by (simp only: assms(2) next_id_fresh not_False_eq_True)
  moreover have "list_all2 (service_kept I) ss ss" for I ss by (simp add: list.rel_refl service_kept_def)
  ultimately have "services_kept (g_id g) (f_services f) (f_services f @ [s])"
    by (intro services_keptI) (simp_all add: assms(1))
  then show ?thesis by (simp add: scan_side_def)
qed

lemma scan_side_upsert: "scan_side g f (upsert_service g k u port st now f)"
  unfolding upsert_service_def
  by (auto split: option.split intro!: scan_side_same scan_side_set scan_side_trans[OF scan_side_set scan_side_notify]
      scan_side_trans[OF scan_side_add scan_side_notify])

lemma scan_side_command: "execute_command R g cmd n b f = (r, f1) \<Longrightarrow> scan_side g f f1"
  using scan_side_quiet[OF execute_command_quiet[of g cmd f R n b], of g] by simp

lemma scan_side_line: "scan_side g f (detect_line g k p now l f)"
  by (simp add: detect_line_def Let_def scan_side_upsert scan_side_same)

lemma scan_side_glob: "scan_side g f (detect_glob R g now s f)"
proof -
  obtain k u p where s: "s = (k, u, p)" by (cases s) auto
  obtain out e f1 where ex: "execute_command R g (glob_command u) 60 False f = ((out, e), f1)" by (metis prod.exhaust)
  note first = scan_side_command[OF ex]
  have "scan_side g f1 (fold (detect_line g k p now) ls f1)" for ls by (rule scan_side_fold) (rule scan_side_line)
  then show ?thesis
    using first unfolding detect_glob_def s prod.case glob_command_def[symmetric] ex Let_def
    by (auto intro: scan_side_trans)
qed

lemma scan_side_fixed: "scan_side g f (detect_fixed R g now f)"
proof -
  obtain out e f1 where ex: "execute_command R g fixed_command 60 False f = ((out, e), f1)" by (metis prod.exhaust)
  note first = scan_side_command[OF ex]
  have "scan_side g f1 (fold (\<lambda>(i, key, unit_name, port). upsert_service g key unit_name port
      (map_systemctl_status (line_at (py_split (CHR 0x0A) (py_strip (opt_str out))) i)) now) (enumerate 0 fixed_services) f1)"
    by (rule scan_side_fold) (auto split: prod.splits intro: scan_side_upsert)
  from scan_side_trans[OF first this] show ?thesis
    using first unfolding detect_fixed_def fixed_command_def[symmetric] ex Let_def prod.case by simp
qed

lemma scan_side_detect: "scan_side g f (detect_services R g f)"
  unfolding detect_services_def Let_def
  by (rule scan_side_trans[OF scan_side_fixed scan_side_fold[OF scan_side_glob]])

lemma scan_side_reboot: "scan_side g f (check_reboot_required R g f)"
proof -
  obtain f1 h where "quiet (op_within g (ways reboot_command)) f f1"
    "check_reboot_required R g f = set_guest (g_id g) (\<lambda>r. r\<lparr>pg_reboot_required := h r\<rparr>) f1"
    using check_reboot_effect by blast
  then show ?thesis by (auto intro!: scan_side_trans[OF scan_side_quiet scan_side_same])
qed

lemma scan_side_scan_alerts: "scan_side g f (scan_alerts g res f)"
  unfolding scan_alerts_def Let_def
  by (auto split: option.splits simp: alert_about_def
      intro!: scan_side_same scan_side_alert scan_side_trans[OF scan_side_alert scan_side_alert])

text \<open>Everything a scan leaves as it was.\<close>

lemma scan_guest_rest:
  assumes "scan_guest R g f = (res, f')"
  shows "(\<exists>reboot. f_guests f' = update_rows (\<lambda>r. g_id r = g_id g) (\<lambda>r. r\<lparr>pg_status :=
            (if sr_status res = ''error'' then ''error''
             else if pending_updates f' (g_id g) = [] then ''up-to-date'' else ''updates-available''),
            pg_last_scan := Some (sr_scanned_at res), pg_reboot_required := reboot r\<rparr>) (f_guests f)) \<and>
         services_kept (g_id g) (f_services f) (f_services f') \<and>
         (\<exists>as. f_alerts f' = f_alerts f @ as \<and> list_all (alert_about g) as) \<and>
         f_app f' = f_app f \<and> f_windows f' = f_windows f \<and> f_credentials f' = f_credentials f"
  using assms
proof (cases rule: scan_guest_cases)
  case (failure out sec err f1)
  note fr = execute_on_guest_fields[OF failure(1)]
  have "f_guests f' = update_rows (\<lambda>r. g_id r = g_id g) (\<lambda>r. r\<lparr>pg_status := ''error'',
      pg_last_scan := Some (sr_scanned_at res), pg_reboot_required := pg_reboot_required r\<rparr>) (f_guests f1)"
    and res: "sr_status res = ''error''"
    using failure(3) by (auto simp: scan_failed_def Let_def add_alert_def update_rows_def)
  moreover have "f_services f' = f_services f1" "f_alerts f' = f_alerts f1 @ [Push (g_id g) ''guest_error'']"
    "f_app f' = f_app f1" "f_windows f' = f_windows f1" "f_credentials f' = f_credentials f1"
    using failure(3) by (auto simp: scan_failed_def Let_def add_alert_def)
  ultimately show ?thesis
    using fr by (intro conjI exI[of _ pg_reboot_required]) (simp_all add: alert_about_def services_kept_refl)
next
  case (success out sec err f1 f2)
  note fr = execute_on_guest_fields[OF success(1)]
  note st = store_scan_effect[OF success(3)]
  note tl = scan_tail_effect[OF success(4)]
  have pend: "pending_updates f' = pending_updates f2" by (simp add: fun_eq_iff pending_updates_def tl(1))
  obtain h where "f_guests f' = update_rows (\<lambda>r. g_id r = g_id g) (\<lambda>r. r\<lparr>pg_reboot_required := h r\<rparr>) (f_guests f2)"
    using tl(4) by blast
  then have "f_guests f' = update_rows (\<lambda>r. g_id r = g_id g) ((\<lambda>r. r\<lparr>pg_reboot_required := h r\<rparr>) \<circ>
      (\<lambda>r. r\<lparr>pg_status := (if pending_updates f2 (g_id g) \<noteq> [] then ''updates-available'' else ''up-to-date''),
              pg_last_scan := Some (sr_scanned_at res)\<rparr>)) (f_guests f)"
    by (simp add: st(5,10) update_rows_twice fr(2))
  then have "\<exists>reboot. f_guests f' = update_rows (\<lambda>r. g_id r = g_id g) (\<lambda>r. r\<lparr>pg_status :=
      (if pending_updates f2 (g_id g) \<noteq> [] then ''updates-available'' else ''up-to-date''),
      pg_last_scan := Some (sr_scanned_at res), pg_reboot_required := reboot r\<rparr>) (f_guests f)"
    by (auto simp: comp_def)
  moreover have "scan_side g f2 f'"
    unfolding success(4) by (blast intro: scan_side_trans scan_side_detect scan_side_reboot scan_side_scan_alerts)
  ultimately show ?thesis
    using st(11-16) tl(6-8) fr(6-10) unfolding pend scan_side_def by auto
qed

lemma scan_guest_content:
  assumes "scan_guest R g f = (res, f')"
  shows "sr_status res = ''success'' \<and>
            (\<exists>out sec err. fst (execute_on_guest R g f) = (out, sec, err) \<and> \<not> truthy_str err \<and>
               pending_updates f' (g_id g) = map (new_update (g_id g) (sr_scanned_at res) sec) (parse_upgradable (opt_str out))) \<and>
            sr_total_updates res = length (pending_updates f' (g_id g)) \<and>
            sr_security_updates res = length (security_updates f' (g_id g)) \<or>
          sr_status res = ''error'' \<and> sr_error_message res = snd (snd (fst (execute_on_guest R g f))) \<and>
            truthy_str (sr_error_message res) \<and> f_updates f' = f_updates f"
  using assms
proof (cases rule: scan_guest_cases)
  case (failure out sec err f1)
  then show ?thesis using execute_on_guest_fields(1)[OF failure(1)]
    by (auto simp: scan_failed_def Let_def add_alert_def)
next
  case (success out sec err f1 f2)
  have "pending_updates f' = pending_updates f2" "security_updates f' = security_updates f2"
    by (simp_all add: fun_eq_iff pending_updates_def security_updates_def scan_tail_effect(1)[OF success(4)])
  then show ?thesis using store_scan_effect[OF success(3)] success(1,2) by auto
qed

text \<open>A guest reachable over SSH that offers one security update, and installs it when asked.\<close>

definition sample_guest :: pguest where
  "sample_guest = \<lparr>g_id = 1, g_name = ''web'', g_enabled = True, g_tags = [], pg_type = ''ct'', pg_ip = ''10.0.0.5'',
     pg_method = ''ssh'', pg_credential = Some 7, pg_host = None, pg_vmid = None, pg_auto_update = True,
     pg_window = Some 3, pg_last_scan = None, pg_status = ''unknown'', pg_power_state = ''running'',
     pg_reboot_required = False, pg_require_snapshot = ''no''\<rparr>"

definition sample_fleet :: fleet where
  "sample_fleet = \<lparr>f_app = \<lparr>a_db = empty_db, a_hub = []\<rparr>, f_guests = [sample_guest],
     f_credentials = [\<lparr>cr_id = 7, cr_username = ''root'', cr_is_default = True\<rparr>],
     f_windows = [\<lparr>mw_id = 3, mw_name = ''night'', mw_day_of_week = ''daily'', mw_start_time = ''23:00'',
       mw_end_time = ''02:00'', mw_update_type = ''upgrade'', mw_enabled = True\<rparr>],
     f_updates = [\<lparr>up_guest_id = 1, up_package_name = ''openssl'', up_current_version = ''3.0.1'',
       up_available_version = ''3.0.2'', up_severity = ''critical'', up_discovered_at = Some 0,
       up_applied_at = None, up_status = ''pending''\<rparr>],
     f_scans = [], f_history = [], f_services = [], f_ops = [], f_alerts = []\<rparr>"

definition sample_answer :: "remote_op list \<Rightarrow> string" where
  "sample_answer ops =
     (let upgraded = List.member (map op_command ops) (Some (apt_upgrade_command False)) in
      if op_command (last ops) = Some APT_LIST_CMD \<and> \<not> upgraded
      then ''openssl/stable 3.0.2 amd64 [upgradable from: 3.0.1]''
      else if op_command (last ops) = Some APT_SECURITY_CMD then ''Inst openssl [3.0.1] (3.0.2 security)''
      else [])"

definition sample_remote :: remote where
  "sample_remote = \<lparr>rm_connect = \<lambda>_. None, rm_ssh = \<lambda>ops. Inr (sample_answer ops, [], 0),
     rm_ssh_stream = \<lambda>_. ([], Inr 0), rm_guests = \<lambda>_. Inr [], rm_find_node = \<lambda>_. Inr [],
     rm_agent = \<lambda>_. Inr (None, None), rm_agent_stream = \<lambda>_. ([], Inr None), rm_now = \<lambda>ops. int (length ops)\<rparr>"

lemma scan_guest_ops:
  assumes "scan_guest R g f = (res, f')"
  shows "ops_grow (op_within g all_scan_commands) f f' \<and> sr_guest_id res = g_id g"
  using assms
proof (cases rule: scan_guest_cases)
  case (failure out sec err f1)
  have "f_ops f' = f_ops f1" and id: "sr_guest_id res = g_id g"
    using failure(3) by (auto simp: scan_failed_def Let_def add_alert_def)
  then show ?thesis using execute_on_guest_fields(5)[OF failure(1)] by (auto intro: ops_grow_trans ops_grow_refl)
next
  case (success out sec err f1 f2)
  have "ops_grow (op_within g all_scan_commands) f1 f2" by (rule ops_grow_refl) (rule store_scan_effect(8)[OF success(3)])
  then show ?thesis
    using execute_on_guest_fields(5)[OF success(1)] scan_tail_effect(5)[OF success(4)] store_scan_effect(9)[OF success(3)]
    by (blast intro: ops_grow_trans)
qed

text \<open>
  C18. What a scan of a guest records, and what it leaves alone. If the commands answer, the guest's
  pending rows become the parsed listing, the result counts them and the security updates among them,
  and the guest is marked by whether there are any; if they do not, the pending rows stay and the guest
  and the result carry the error. Either way one result is added. Of the guests, only the scanned one
  changes, in its status, scan time and reboot flag; of the services, only the status and check time of
  its own ones, besides new rows for it; alerts are added about it only; the operations go to it and
  run commands of a fixed list. Updates that are not its pending ones, the history, windows,
  credentials, users, settings, audit log and hub stay as they were.
\<close>

theorem scan_records_listing:
  assumes "scan_guest R g f = (res, f')"
  shows "(sr_status res = ''success'' \<and>
            (\<exists>out sec err. fst (execute_on_guest R g f) = (out, sec, err) \<and> \<not> truthy_str err \<and>
               pending_updates f' (g_id g) = map (new_update (g_id g) (sr_scanned_at res) sec) (parse_upgradable (opt_str out))) \<and>
            sr_total_updates res = length (pending_updates f' (g_id g)) \<and>
            sr_security_updates res = length (security_updates f' (g_id g)) \<or>
          sr_status res = ''error'' \<and> sr_error_message res = snd (snd (fst (execute_on_guest R g f))) \<and>
            truthy_str (sr_error_message res) \<and> f_updates f' = f_updates f) \<and>
         f_scans f' = f_scans f @ [res] \<and>
         (\<exists>reboot. f_guests f' = update_rows (\<lambda>r. g_id r = g_id g) (\<lambda>r. r\<lparr>pg_status :=
            (if sr_status res = ''error'' then ''error''
             else if pending_updates f' (g_id g) = [] then ''up-to-date'' else ''updates-available''),
            pg_last_scan := Some (sr_scanned_at res), pg_reboot_required := reboot r\<rparr>) (f_guests f)) \<and>
         filter (\<lambda>u. \<not> is_pending (g_id g) u) (f_updates f') = filter (\<lambda>u. \<not> is_pending (g_id g) u) (f_updates f) \<and>
         services_kept (g_id g) (f_services f) (f_services f') \<and>
         (\<exists>as. f_alerts f' = f_alerts f @ as \<and> list_all (alert_about g) as) \<and>
         (\<exists>ops. f_ops f' = f_ops f @ ops \<and> list_all (op_within g all_scan_commands) ops) \<and>
         f_history f' = f_history f \<and> f_windows f' = f_windows f \<and> f_credentials f' = f_credentials f \<and>
         f_app f' = f_app f"
  by (intro conjI scan_guest_content[OF assms])
     (use scan_guest_frame[OF assms] scan_guest_rest[OF assms] scan_guest_ops[OF assms, unfolded ops_grow_def] in blast)+

theorem scan_records_listing_witness:
  "sr_status (fst (scan_guest sample_remote sample_guest sample_fleet)) = ''success'' \<and>
   sr_total_updates (fst (scan_guest sample_remote sample_guest sample_fleet)) = 1"
proof -
  let ?r = "scan_guest sample_remote sample_guest sample_fleet"
  have ex: "fst (execute_on_guest sample_remote sample_guest sample_fleet) =
      (Some ''openssl/stable 3.0.2 amd64 [upgradable from: 3.0.1]'', Some ''Inst openssl [3.0.1] (3.0.2 security)'', None)"
    by code_simp
  have len: "length (parse_upgradable ''openssl/stable 3.0.2 amd64 [upgradable from: 3.0.1]'') = 1" by code_simp
  show ?thesis
    using scan_records_listing[OF prod.collapse[symmetric], of sample_remote sample_guest sample_fleet] len
    unfolding ex by (auto simp: truthy_str_def opt_str_def)
qed

lemma scan_guests_ops:
  assumes "scan_guests R gs f = (rs, f')"
  shows "ops_grow (\<lambda>op. \<exists>g \<in> set gs. op_within g all_scan_commands op) f f' \<and> map sr_guest_id rs = map g_id gs"
  using assms
proof (induction gs arbitrary: f rs)
  case Nil
  then show ?case by (auto intro: ops_grow_refl)
next
  case (Cons g gs)
  obtain r f1 rs' where step: "scan_guest R g f = (r, f1)" "scan_guests R gs f1 = (rs', f')" "rs = r # rs'"
    using Cons.prems by (auto split: prod.splits)
  have "ops_grow (\<lambda>op. \<exists>g \<in> set (g # gs). op_within g all_scan_commands op) f f1"
    by (rule ops_grow_mono[OF conjunct1[OF scan_guest_ops[OF step(1)]]]) auto
  moreover have "ops_grow (\<lambda>op. \<exists>g \<in> set (g # gs). op_within g all_scan_commands op) f1 f'"
    by (rule ops_grow_mono[OF conjunct1[OF Cons.IH[OF step(2)]]]) auto
  ultimately show ?case
    using Cons.IH[OF step(2)] scan_guest_ops[OF step(1)] step(3) by (auto intro: ops_grow_trans)
qed

text \<open>
  The scheduled scan of the fleet reaches every enabled running guest once, in order, whatever
  fails on the way; it touches no other machine; and every command it sends is one of a fixed list
  that no answer of a guest can influence and that does not contain the upgrade command.
\<close>

theorem scan_all_confined:
  assumes "scan_all_guests R f = (rs, f')"
  shows "map sr_guest_id rs = map g_id (filter (\<lambda>g. g_enabled g \<and> pg_power_state g = ''running'') (f_guests f)) \<and>
         (\<exists>ops. f_ops f' = f_ops f @ ops \<and>
            (\<forall>op \<in> set ops. \<exists>g \<in> set (f_guests f). g_enabled g \<and> pg_power_state g = ''running'' \<and>
               op_to g op \<and> (\<forall>c. op_command op = Some c \<longrightarrow> c \<in> all_scan_commands))) \<and>
         (\<forall>b. apt_upgrade_command b \<notin> all_scan_commands)"
proof -
  have "apt_upgrade_command b \<notin> all_scan_commands" for b
    by (cases b) (simp_all add: all_scan_commands_def scan_commands_def ways_def apt_upgrade_command_def DPKG_REPAIR_CMD_def
        APT_LIST_CMD_def APT_SECURITY_CMD_def fixed_command_def glob_command_def reboot_command_def split: prod.splits)
  then show ?thesis
    using scan_guests_ops[OF assms[unfolded scan_all_guests_def]]
    by (fastforce simp: ops_grow_def list_all_iff op_within_def)
qed

theorem scan_all_confined_witness:
  "map sr_guest_id (fst (scan_all_guests sample_remote sample_fleet)) = [1]"
  using scan_all_confined[OF prod.collapse[symmetric], of sample_remote sample_fleet]
  by (simp add: sample_fleet_def sample_guest_def)

section \<open>What an upgrade changes\<close>

definition apply_commands :: "bool \<Rightarrow> string set" where
  "apply_commands du = {''apt-get update -qq'', apt_upgrade_command du,
     ''apt-get update -qq && '' @ apt_upgrade_command du, APT_LIST_CMD, ''apt list --upgradable''} \<union> ways reboot_command"

text \<open>The answer to the last operation is a complete listing of what is upgradable.\<close>

definition listing_answer :: "remote \<Rightarrow> remote_op list \<Rightarrow> string \<Rightarrow> bool" where
  "listing_answer R ops listing \<longleftrightarrow>
     op_command (last ops) = Some APT_LIST_CMD \<and> (\<exists>err. rm_ssh R ops = Inr (listing, err, 0)) \<or>
     op_command (last ops) = Some ''apt list --upgradable'' \<and> rm_agent R ops = Inr (Some listing, None)"

text \<open>The last operation is the upgrade, and it succeeded.\<close>

definition upgrade_answer :: "remote \<Rightarrow> bool \<Rightarrow> remote_op list \<Rightarrow> bool" where
  "upgrade_answer R du ops \<longleftrightarrow>
     op_command (last ops) = Some (apt_upgrade_command du) \<and> (\<exists>out err. rm_ssh R ops = Inr (out, err, 0)) \<or>
     op_command (last ops) = Some (''apt-get update -qq && '' @ apt_upgrade_command du) \<and>
       (\<exists>chunks. rm_agent_stream R ops = (chunks, Inr (Some 0)))"

text \<open>
  A run that succeeded: the upgrade returned 0, then the packages were listed, and then the rows were
  reconciled with the listing if it could be read.
\<close>

definition upgraded :: "remote \<Rightarrow> pguest \<Rightarrow> bool \<Rightarrow> fleet \<Rightarrow> fleet \<Rightarrow> bool" where
  "upgraded R g du f f' \<longleftrightarrow> (\<exists>f1 recheck pre up lst. quiet (op_within g (apply_commands du)) f f1 \<and>
     f_ops f1 = f_ops f @ pre @ [up, lst] \<and> upgrade_answer R du (f_ops f @ pre @ [up]) \<and>
     f' = finish_apply R g recheck f1 \<and> (\<forall>l. recheck = Some l \<longleftrightarrow> listing_answer R (f_ops f1) l))"

lemma rbindE:
  assumes "rbind m k f = (r, f')"
  obtains e where "m f = (Inl e, f')" "r = Inl e"
  | x f1 where "m f = (Inr x, f1)" "k x f1 = (r, f')"
  using assms by (auto simp: rbind_def split: prod.splits sum.splits)

text \<open>
  Code that performs allowed operations and then, at one point, may finish an upgrade: the shape that
  both transports share.
\<close>

definition upgrade_outcome ::
  "remote \<Rightarrow> pguest \<Rightarrow> bool \<Rightarrow> (exn + 'a) \<Rightarrow> ('a \<Rightarrow> bool) \<Rightarrow> fleet \<Rightarrow> fleet \<Rightarrow> bool" where
  "upgrade_outcome R g du r good f f' \<longleftrightarrow>
     (if (\<exists>x. r = Inr x \<and> good x) then upgraded R g du f f' else quiet (op_within g (apply_commands du)) f f')"

lemma upgraded_later:
  assumes "quiet (op_within g (apply_commands du)) f f1" "upgraded R g du f1 f'"
  shows "upgraded R g du f f'"
proof -
  obtain ops where ops: "f_ops f1 = f_ops f @ ops" using assms(1) by (auto simp: quiet_def)
  obtain f2 recheck pre up lst where "quiet (op_within g (apply_commands du)) f1 f2"
    "f_ops f2 = f_ops f1 @ pre @ [up, lst]" "upgrade_answer R du (f_ops f1 @ pre @ [up])"
    "f' = finish_apply R g recheck f2" "\<forall>l. recheck = Some l \<longleftrightarrow> listing_answer R (f_ops f2) l"
    using assms(2) unfolding upgraded_def by blast
  then show ?thesis
    using quiet_trans[OF assms(1)] ops unfolding upgraded_def
    by (intro exI[of _ f2] exI[of _ recheck] exI[of _ "ops @ pre"] exI[of _ up] exI[of _ lst]) simp
qed

lemma upgrade_outcome_rbind:
  assumes "rbind m k f = (r, f')" "stays (op_within g (apply_commands du)) m"
    and "\<And>x f1. m f = (Inr x, f1) \<Longrightarrow> k x f1 = (r, f') \<Longrightarrow> upgrade_outcome R g du r good f1 f'"
  shows "upgrade_outcome R g du r good f f'"
  using assms(1)
proof (cases rule: rbindE)
  case (1 e)
  then show ?thesis using staysD[OF assms(2)] by (simp add: upgrade_outcome_def)
next
  case (2 x f1)
  have q: "quiet (op_within g (apply_commands du)) f f1" by (rule staysD[OF assms(2) 2(1)])
  show ?thesis using assms(3)[OF 2] upgraded_later[OF q] quiet_trans[OF q]
    by (auto simp: upgrade_outcome_def split: if_splits)
qed

lemma return_outcome:
  "rreturn x f = (r, f') \<Longrightarrow> \<not> good x \<Longrightarrow> upgrade_outcome R g du r good f f'"
  by (auto simp: rreturn_def upgrade_outcome_def)

lemma rbind_perform:
  "rbind (perform op ans) k f =
     (case ans (f_ops f @ [op]) of
        Inl e \<Rightarrow> (Inl e, f\<lparr>f_ops := f_ops f @ [op]\<rparr>)
      | Inr x \<Rightarrow> k x (f\<lparr>f_ops := f_ops f @ [op]\<rparr>))"
  by (simp add: rbind_def perform_def Let_def split: sum.splits)

lemma quiet_ops: "list_all P ops \<Longrightarrow> quiet P f (f\<lparr>f_ops := f_ops f @ ops\<rparr>)"
  by (auto simp: quiet_def)

lemma finish_outcome:
  assumes "list_all (op_within g (apply_commands du)) [up, lst]" "upgrade_answer R du (f_ops f @ [up])"
    and "\<And>l. recheck = Some l \<longleftrightarrow> listing_answer R (f_ops f @ [up, lst]) l"
    and "r = Inr x" "good x" "f' = finish_apply R g recheck (f\<lparr>f_ops := f_ops f @ [up, lst]\<rparr>)"
  shows "upgrade_outcome R g du r good f f'"
proof -
  have "upgraded R g du f f'"
    unfolding upgraded_def
    by (intro exI[of _ "f\<lparr>f_ops := f_ops f @ [up, lst]\<rparr>"] exI[of _ recheck] exI[of _ "[]"] exI[of _ up] exI[of _ lst])
       (use assms(2,3,6) quiet_ops[OF assms(1)] in simp)
  then show ?thesis using assms(4,5) by (simp add: upgrade_outcome_def)
qed

lemma commands_distinct: "APT_LIST_CMD \<noteq> ''apt list --upgradable''"
  by (simp add: APT_LIST_CMD_def)

lemma ssh_upgrade_outcome:
  assumes "rbind (ssh_execute_sudo R (pg_ip g) (apt_upgrade_command du) 600) (\<lambda>(stdout, stderr, rc).
       if rc = 0 then
         rbind (ssh_execute_sudo R (pg_ip g) APT_LIST_CMD 120) (\<lambda>(recheck_out, _, recheck_code) f.
           (Inr (True, stdout), finish_apply R g (if recheck_code = 0 then Some recheck_out else None) f))
       else rreturn (False, stderr)) f = (r, f')"
  shows "upgrade_outcome R g du r fst f f'"
proof -
  let ?P = "op_within g (apply_commands du)"
  define up ls where "up = Ssh_Run True (pg_ip g) (apt_upgrade_command du) 600" and "ls = Ssh_Run True (pg_ip g) APT_LIST_CMD 120"
  have ok: "list_all ?P [up]" "list_all ?P [up, ls]" by (simp_all add: up_def ls_def apply_commands_def)
  note run = assms[unfolded ssh_execute_sudo_def rbind_perform, folded up_def ls_def]
  show ?thesis
  proof (cases "rm_ssh R (f_ops f @ [up])")
    case (Inl e)
    then show ?thesis using run quiet_ops[OF ok(1), of f] by (auto simp: upgrade_outcome_def)
  next
    case (Inr z)
    obtain out err rc where z: "z = (out, err, rc)" by (metis prod.exhaust)
    show ?thesis
    proof (cases "rc = 0")
      case False
      then show ?thesis using run Inr z quiet_ops[OF ok(1), of f] by (auto simp: upgrade_outcome_def rreturn_def)
    next
      case True
      have ua: "upgrade_answer R du (f_ops f @ [up])" using Inr z True by (simp add: upgrade_answer_def up_def)
      show ?thesis
      proof (cases "rm_ssh R (f_ops f @ [up, ls])")
        case (Inl e)
        then show ?thesis using run Inr z True quiet_ops[OF ok(2), of f] by (auto simp: upgrade_outcome_def)
      next
        case lsok: (Inr w)
        obtain ro e2 rcode where w: "w = (ro, e2, rcode)" by (metis prod.exhaust)
        have lst: "(if rcode = 0 then Some ro else None) = Some l \<longleftrightarrow> listing_answer R (f_ops f @ [up, ls]) l" for l
          using lsok w by (auto simp: listing_answer_def ls_def commands_distinct)
        show ?thesis
          by (rule finish_outcome[OF ok(2) ua lst, of _ "(True, out)"]) (use run Inr z True lsok w in auto)
      qed
    qed
  qed
qed

lemma apply_ssh_outcome:
  assumes "apply_ssh R g c (apt_upgrade_command du) f = (r, f')"
  shows "upgrade_outcome R g du r fst f f'"
  using assms unfolding apply_ssh_def
  by (elim upgrade_outcome_rbind ssh_upgrade_outcome) (simp_all add: stays_ops apply_commands_def)

lemma agent_upgrade_outcome:
  assumes "rbind (exec_guest_agent_streaming R host node (pg_vmid g) (''apt-get update -qq && '' @ apt_upgrade_command du) 1800)
           (\<lambda>(chunks, exit_code).
             let output = concat chunks in
             case exit_code of
               None \<Rightarrow> rreturn (Some (False, str_or output ''The command did not complete''))
             | Some rc \<Rightarrow>
                 if rc = 0 then
                   rbind (exec_guest_agent R host node (pg_vmid g) ''apt list --upgradable'')
                     (\<lambda>(recheck_out, recheck_err) f.
                       (Inr (Some (True, output)), finish_apply R g (if recheck_err = None then recheck_out else None) f))
                 else rreturn (Some (False, str_or output (''Exit code '' @ py_str_int rc)))) f = (r, f')"
    and "pg_host g = Some host"
  shows "upgrade_outcome R g du r (\<lambda>x. \<exists>out. x = Some (True, out)) f f'"
proof -
  let ?P = "op_within g (apply_commands du)"
  define up where "up = Agent_Stream host node (pg_vmid g) (''apt-get update -qq && '' @ apt_upgrade_command du) 1800"
  define ls where "ls = Agent_Exec host node (pg_vmid g) ''apt list --upgradable''"
  have ok: "list_all ?P [up]" "list_all ?P [up, ls]" by (simp_all add: up_def ls_def apply_commands_def assms(2))
  note run = assms(1)[unfolded exec_guest_agent_streaming_def exec_guest_agent_def rbind_perform, folded up_def ls_def]
  obtain chunks a where a: "rm_agent_stream R (f_ops f @ [up]) = (chunks, a)" by fastforce
  show ?thesis
  proof (cases "a = Inr (Some 0)")
    case False
    then show ?thesis using run a quiet_ops[OF ok(1), of f]
      by (cases a) (auto simp: upgrade_outcome_def rreturn_def Let_def split: option.splits if_splits)
  next
    case True
    have ua: "upgrade_answer R du (f_ops f @ [up])" using a True by (simp add: upgrade_answer_def up_def)
    show ?thesis
    proof (cases "rm_agent R (f_ops f @ [up, ls])")
      case (Inl e)
      then show ?thesis using run a True quiet_ops[OF ok(2), of f] by (auto simp: upgrade_outcome_def)
    next
      case (Inr w)
      obtain ro re where w: "w = (ro, re)" by (metis prod.exhaust)
      have lst: "(if re = None then ro else None) = Some l \<longleftrightarrow> listing_answer R (f_ops f @ [up, ls]) l" for l
        using Inr w commands_distinct by (auto simp: listing_answer_def ls_def)
      show ?thesis
        by (rule finish_outcome[OF ok(2) ua lst, of _ "Some (True, concat chunks)"]) (use run a True Inr w in auto)
    qed
  qed
qed

lemma apply_agent_outcome:
  assumes "apply_agent R g host (apt_upgrade_command du) f = (r, f')" "pg_host g = Some host"
  shows "upgrade_outcome R g du r (\<lambda>x. \<exists>out. x = Some (True, out)) f f'"
  using assms(1) unfolding apply_agent_def
proof (rule upgrade_outcome_rbind, goal_cases)
  case 1
  show ?case by (rule stays_ops) (rule assms(2))
next
  case (2 gs f1)
  show ?case
  proof (cases "node_of (pg_vmid g) gs = []")
    case True
    then show ?thesis using 2(2) by (intro return_outcome[of None]) simp_all
  next
    case False
    from 2(2) show ?thesis unfolding Let_def[of "node_of (pg_vmid g) gs"] if_P[OF False]
      by (rule agent_upgrade_outcome) (rule assms(2))
  qed
qed

text \<open>The two ways an update run can end.\<close>

lemma apply_updates_outcome:
  assumes "apply_updates R g du f = ((ok, out), f')"
  shows "if ok then upgraded R g du f f' else quiet (op_within g (apply_commands du)) f f'"
proof (cases "if ssh_allowed g then credential_of f g else None")
  case (Some c)
  obtain r f1 where ap: "apply_ssh R g c (apt_upgrade_command du) f = (r, f1)"
    by (cases "apply_ssh R g c (apt_upgrade_command du) f") auto
  then show ?thesis using assms Some apply_ssh_outcome[OF ap]
    by (cases r) (auto simp: apply_updates_def Let_def upgrade_outcome_def)
next
  case None
  show ?thesis
  proof (cases "agent_allowed g")
    case True
    then obtain host where host: "pg_host g = Some host" by (auto simp: agent_allowed_def)
    obtain r f1 where ap: "apply_agent R g host (apt_upgrade_command du) f = (r, f1)"
      by (cases "apply_agent R g host (apt_upgrade_command du) f") auto
    show ?thesis using assms None True host ap apply_agent_outcome[OF ap host]
      by (auto simp: apply_updates_def Let_def upgrade_outcome_def split: sum.splits option.splits if_splits)
  next
    case False
    then show ?thesis using assms None by (auto simp: apply_updates_def Let_def)
  qed
qed

text \<open>What the reconciliation does to a row, and what finishing a run does to the tables.\<close>

definition retired :: "int \<Rightarrow> usec \<Rightarrow> string \<Rightarrow> update_package \<Rightarrow> update_package" where
  "retired gid now listing u =
     (if is_pending gid u \<and> up_package_name u \<notin> k_name ` set (parse_upgradable listing)
      then u\<lparr>up_status := ''applied'', up_applied_at := Some now\<rparr> else u)"

lemma pending_retired:
  "filter (is_pending gid) (map (retired gid now listing) us) =
   filter (\<lambda>u. is_pending gid u \<and> up_package_name u \<in> k_name ` set (parse_upgradable listing)) us"
  by (induction us) (auto simp: retired_def is_pending_def)

lemma reconcile_effect:
  "reconcile_applied_updates g now None f = f"
  "f_updates (reconcile_applied_updates g now (Some l) f) = map (retired (g_id g) now l) (f_updates f)"
  "f_guests (reconcile_applied_updates g now (Some l) f) =
     update_rows (\<lambda>r. g_id r = g_id g) (\<lambda>r. r\<lparr>pg_status :=
       (if pending_updates (reconcile_applied_updates g now (Some l) f) (g_id g) \<noteq> [] then ''updates-available'' else ''up-to-date'')\<rparr>)
       (f_guests f)"
  "f_scans (reconcile_applied_updates g now r f) = f_scans f" "f_history (reconcile_applied_updates g now r f) = f_history f"
  "f_ops (reconcile_applied_updates g now r f) = f_ops f" "f_alerts (reconcile_applied_updates g now r f) = f_alerts f"
  "f_services (reconcile_applied_updates g now r f) = f_services f" "f_app (reconcile_applied_updates g now r f) = f_app f"
  "f_windows (reconcile_applied_updates g now r f) = f_windows f" "f_credentials (reconcile_applied_updates g now r f) = f_credentials f"
proof -
  show 1: "f_updates (reconcile_applied_updates g now (Some l) f) = map (retired (g_id g) now l) (f_updates f)"
    by (auto simp: reconcile_applied_updates_def Let_def update_rows_def retired_def List.member_iff)
  have "pending_updates (reconcile_applied_updates g now (Some l) f) (g_id g) =
      filter (\<lambda>u. List.member (map k_name (parse_upgradable l)) (up_package_name u)) (pending_updates f (g_id g))"
    unfolding pending_updates_def 1 pending_retired by (simp add: List.member_iff conj_commute)
  then show "f_guests (reconcile_applied_updates g now (Some l) f) =
     update_rows (\<lambda>r. g_id r = g_id g) (\<lambda>r. r\<lparr>pg_status :=
       (if pending_updates (reconcile_applied_updates g now (Some l) f) (g_id g) \<noteq> [] then ''updates-available'' else ''up-to-date'')\<rparr>)
       (f_guests f)"
    by (simp add: reconcile_applied_updates_def Let_def)
qed (simp_all add: reconcile_applied_updates_def Let_def split: option.splits)

lemma finish_apply_effect:
  "f_updates (finish_apply R g recheck f) = f_updates (reconcile_applied_updates g (rm_now R (f_ops f)) recheck f)"
  "\<exists>h. f_guests (finish_apply R g recheck f) = update_rows (\<lambda>r. g_id r = g_id g) (\<lambda>r. r\<lparr>pg_reboot_required := h r\<rparr>)
     (f_guests (reconcile_applied_updates g (rm_now R (f_ops f)) recheck f))"
  "f_scans (finish_apply R g recheck f) = f_scans f" "f_history (finish_apply R g recheck f) = f_history f"
  "f_app (finish_apply R g recheck f) = f_app f" "f_windows (finish_apply R g recheck f) = f_windows f"
  "ops_grow (op_within g (ways reboot_command)) f (finish_apply R g recheck f)"
proof -
  let ?f1 = "reconcile_applied_updates g (rm_now R (f_ops f)) recheck f"
  obtain f2 h where q: "quiet (op_within g (ways reboot_command)) ?f1 f2"
    and eq: "finish_apply R g recheck f = set_guest (g_id g) (\<lambda>r. r\<lparr>pg_reboot_required := h r\<rparr>) f2"
    unfolding finish_apply_def using check_reboot_effect by blast
  then obtain ops where f2: "f2 = ?f1\<lparr>f_ops := f_ops ?f1 @ ops\<rparr>" "list_all (op_within g (ways reboot_command)) ops"
    by (auto simp: quiet_def)
  show "f_updates (finish_apply R g recheck f) = f_updates ?f1" "f_scans (finish_apply R g recheck f) = f_scans f"
    "f_history (finish_apply R g recheck f) = f_history f" "f_app (finish_apply R g recheck f) = f_app f"
    "f_windows (finish_apply R g recheck f) = f_windows f"
    unfolding eq f2(1) by (simp_all add: reconcile_effect)
  show "ops_grow (op_within g (ways reboot_command)) f (finish_apply R g recheck f)"
    unfolding eq f2(1) ops_grow_def using f2(2) by (simp add: reconcile_effect)
  show "\<exists>h. f_guests (finish_apply R g recheck f) = update_rows (\<lambda>r. g_id r = g_id g) (\<lambda>r. r\<lparr>pg_reboot_required := h r\<rparr>)
     (f_guests ?f1)"
    unfolding eq f2(1) by auto
qed

text \<open>
  C8. An unattended update retires a pending row only on proof. When it reports failure, no row and no
  guest changed, whatever had already run. When it reports success, the upgrade command ran and
  succeeded, and right after it the upgradable packages were listed; if that listing could be read,
  exactly the guest's pending rows whose package is missing from it are marked as applied, and no row
  changed otherwise. In every case the operations went to that guest alone and their commands are
  those of the update.
\<close>

theorem apply_retires_exactly:
  assumes "apply_updates R g du f = ((ok, out), f')"
  shows "(\<not> ok \<longrightarrow> f_updates f' = f_updates f \<and> f_guests f' = f_guests f) \<and>
         (ok \<longrightarrow> (\<exists>pre up lst post. f_ops f' = f_ops f @ pre @ [up, lst] @ post \<and>
            upgrade_answer R du (f_ops f @ pre @ [up]) \<and>
            (let ops = f_ops f @ pre @ [up, lst] in
             (\<exists>listing. listing_answer R ops listing \<and>
                f_updates f' = map (retired (g_id g) (rm_now R ops) listing) (f_updates f)) \<or>
             (\<nexists>listing. listing_answer R ops listing) \<and> f_updates f' = f_updates f))) \<and>
         f_scans f' = f_scans f \<and> f_history f' = f_history f \<and>
         (\<exists>ops. f_ops f' = f_ops f @ ops \<and> list_all (op_within g (apply_commands du)) ops)"
proof (cases ok)
  case True
  then obtain f1 recheck pre up lst where q: "quiet (op_within g (apply_commands du)) f f1"
    and ops1: "f_ops f1 = f_ops f @ pre @ [up, lst]" and ua: "upgrade_answer R du (f_ops f @ pre @ [up])"
    and f': "f' = finish_apply R g recheck f1" and ans: "\<And>l. recheck = Some l \<longleftrightarrow> listing_answer R (f_ops f1) l"
    using apply_updates_outcome[OF assms] by (auto simp: upgraded_def)
  have grow: "ops_grow (op_within g (apply_commands du)) f1 f'"
    unfolding f' by (rule ops_grow_mono[OF finish_apply_effect(7)]) (auto simp: op_within_def apply_commands_def)
  then obtain post where post: "f_ops f' = f_ops f @ pre @ [up, lst] @ post" using ops1 by (auto simp: ops_grow_def)
  have upd: "f_updates f1 = f_updates f" "f_scans f1 = f_scans f" "f_history f1 = f_history f" using q by (auto simp: quiet_def)
  have rows: "f_updates f' = (case recheck of None \<Rightarrow> f_updates f
      | Some l \<Rightarrow> map (retired (g_id g) (rm_now R (f_ops f1)) l) (f_updates f))"
    by (simp add: f' finish_apply_effect reconcile_effect upd split: option.split)
  have "(\<exists>listing. listing_answer R (f_ops f1) listing \<and>
           f_updates f' = map (retired (g_id g) (rm_now R (f_ops f1)) listing) (f_updates f)) \<or>
        (\<nexists>listing. listing_answer R (f_ops f1) listing) \<and> f_updates f' = f_updates f"
    using rows ans by (cases recheck) auto
  moreover have "\<exists>ops. f_ops f' = f_ops f @ ops \<and> list_all (op_within g (apply_commands du)) ops"
    using ops_grow_trans[OF ops_grow_quiet[OF q] grow] by (simp add: ops_grow_def)
  ultimately show ?thesis
    using True post ua upd unfolding Let_def ops1 by (auto simp: f' finish_apply_effect(3,4))
next
  case False
  then have "quiet (op_within g (apply_commands du)) f f'" using apply_updates_outcome[OF assms] by simp
  then show ?thesis using False by (auto simp: quiet_def)
qed

theorem apply_retires_exactly_witness:
  "map up_status (f_updates (snd (apply_updates sample_remote sample_guest False sample_fleet))) = [''applied''] \<and>
   (\<exists>listing t. f_updates (snd (apply_updates sample_remote sample_guest False sample_fleet)) =
      map (retired 1 t listing) (f_updates sample_fleet))"
proof -
  let ?r = "apply_updates sample_remote sample_guest False sample_fleet"
  have ok: "fst (fst ?r)" and st: "map up_status (f_updates (snd ?r)) = [''applied'']" by code_simp+
  have "f_updates (snd ?r) \<noteq> f_updates sample_fleet"
    using st by (auto simp: sample_fleet_def)
  moreover have "?r = ((fst (fst ?r), snd (fst ?r)), snd ?r)" by simp
  ultimately have "\<exists>listing t. f_updates (snd ?r) = map (retired (g_id sample_guest) t listing) (f_updates sample_fleet)"
    using apply_retires_exactly[of sample_remote sample_guest False sample_fleet "fst (fst ?r)" "snd (fst ?r)" "snd ?r"] ok
    unfolding Let_def by blast
  moreover have "g_id sample_guest = 1" by (simp add: sample_guest_def)
  ultimately show ?thesis using st by simp
qed

section \<open>Status and pending rows agree\<close>

text \<open>A guest shown as up to date has nothing pending, and one with updates available has something.\<close>

definition status_ok :: "fleet \<Rightarrow> bool" where
  "status_ok f \<longleftrightarrow> (\<forall>g \<in> set (f_guests f).
     (pg_status g = ''up-to-date'' \<longrightarrow> pending_updates f (g_id g) = []) \<and>
     (pg_status g = ''updates-available'' \<longrightarrow> pending_updates f (g_id g) \<noteq> []))"

lemma pending_other:
  assumes "filter (\<lambda>u. \<not> is_pending gid u) us = filter (\<lambda>u. \<not> is_pending gid u) vs" "i \<noteq> gid"
  shows "filter (is_pending i) us = filter (is_pending i) vs"
proof -
  have "filter (is_pending i) xs = filter (is_pending i) (filter (\<lambda>u. \<not> is_pending gid u) xs)" for xs
    using assms(2) by (auto simp: is_pending_def intro: filter_cong)
  then show ?thesis using assms(1) by metis
qed

text \<open>A change to one guest keeps the agreement if it sets that guest's status right.\<close>

lemma status_ok_step:
  assumes "status_ok f"
    and "filter (\<lambda>r. g_id r \<noteq> gid) (f_guests f') = filter (\<lambda>r. g_id r \<noteq> gid) (f_guests f)"
    and "filter (\<lambda>u. \<not> is_pending gid u) (f_updates f') = filter (\<lambda>u. \<not> is_pending gid u) (f_updates f)"
    and "\<And>r. r \<in> set (f_guests f') \<Longrightarrow> g_id r = gid \<Longrightarrow>
      (pg_status r = ''up-to-date'' \<longrightarrow> pending_updates f' gid = []) \<and> (pg_status r = ''updates-available'' \<longrightarrow> pending_updates f' gid \<noteq> [])"
  shows "status_ok f'"
proof -
  have "(pg_status r = ''up-to-date'' \<longrightarrow> pending_updates f' (g_id r) = []) \<and>
        (pg_status r = ''updates-available'' \<longrightarrow> pending_updates f' (g_id r) \<noteq> [])"
    if r: "r \<in> set (f_guests f')" for r
  proof (cases "g_id r = gid")
    case True
    then show ?thesis using assms(4)[OF r] by simp
  next
    case False
    then have "r \<in> set (filter (\<lambda>r. g_id r \<noteq> gid) (f_guests f))" using r assms(2) by (metis (mono_tags, lifting) mem_Collect_eq set_filter)
    moreover have "pending_updates f' (g_id r) = pending_updates f (g_id r)"
      unfolding pending_updates_def by (rule pending_other[OF assms(3) False])
    ultimately show ?thesis using assms(1) by (auto simp: status_ok_def)
  qed
  then show ?thesis by (simp add: status_ok_def)
qed

lemma scan_guest_status_ok:
  assumes "status_ok f" "scan_guest R g f = (res, f')"
  shows "status_ok f'"
  using scan_guest_frame[OF assms(2)]
  by (intro status_ok_step[OF assms(1), of "g_id g"]) (auto split: if_splits)

lemma same_status_ok:
  assumes "status_ok f" "f_updates f' = f_updates f"
    and "map (\<lambda>r. (g_id r, pg_status r)) (f_guests f') = map (\<lambda>r. (g_id r, pg_status r)) (f_guests f)"
  shows "status_ok f'"
proof -
  have *: "status_ok h \<longleftrightarrow> (\<forall>(i, st) \<in> set (map (\<lambda>r. (g_id r, pg_status r)) (f_guests h)).
      (st = ''up-to-date'' \<longrightarrow> pending_updates h i = []) \<and> (st = ''updates-available'' \<longrightarrow> pending_updates h i \<noteq> []))" for h
    by (simp add: status_ok_def)
  show ?thesis using assms(1) unfolding *[of f'] *[of f] assms(3) by (simp add: pending_updates_def assms(2))
qed

lemma retired_other_rows:
  "i \<noteq> gid \<Longrightarrow> filter (is_pending i) (map (retired gid now l) us) = filter (is_pending i) us"
  by (induction us) (auto simp: retired_def is_pending_def)

lemma finish_apply_status_ok:
  assumes "status_ok f"
  shows "status_ok (finish_apply R g recheck f)"
proof -
  define f1 where "f1 = reconcile_applied_updates g (rm_now R (f_ops f)) recheck f"
  have ok1: "status_ok f1"
  proof (cases recheck)
    case None
    then show ?thesis using assms by (simp add: f1_def reconcile_effect)
  next
    case (Some l)
    then have upd: "f_updates f1 = map (retired (g_id g) (rm_now R (f_ops f)) l) (f_updates f)"
      and gs: "f_guests f1 = update_rows (\<lambda>r. g_id r = g_id g) (\<lambda>r. r\<lparr>pg_status :=
         (if pending_updates f1 (g_id g) \<noteq> [] then ''updates-available'' else ''up-to-date'')\<rparr>) (f_guests f)"
      by (simp_all add: f1_def reconcile_effect(2) reconcile_effect(3)[symmetric])
    have "pending_updates f1 i = pending_updates f i" if "i \<noteq> g_id g" for i
      using that by (simp add: pending_updates_def upd retired_other_rows)
    then show ?thesis using assms by (auto simp: status_ok_def gs update_rows_def split: if_splits)
  qed
  obtain h where "f_guests (finish_apply R g recheck f) = update_rows (\<lambda>r. g_id r = g_id g) (\<lambda>r. r\<lparr>pg_reboot_required := h r\<rparr>) (f_guests f1)"
    using finish_apply_effect(2)[of R g recheck f] unfolding f1_def by blast
  then show ?thesis
    by (intro same_status_ok[OF ok1]) (auto simp: finish_apply_effect f1_def update_rows_def)
qed

lemma quiet_status_ok: "quiet P f f' \<Longrightarrow> status_ok f \<Longrightarrow> status_ok f'"
  by (auto simp: quiet_def status_ok_def pending_updates_def)

lemma aside_status_ok: "aside P f f' \<Longrightarrow> status_ok f \<Longrightarrow> status_ok f'"
  using aside_fields[of P f f'] by (auto simp: status_ok_def pending_updates_def)

lemma apply_updates_status_ok:
  assumes "status_ok f" "apply_updates R g du f = (r, f')"
  shows "status_ok f'"
  using apply_updates_outcome[of R g du f "fst r" "snd r" f'] assms
  by (auto simp: upgraded_def intro: quiet_status_ok finish_apply_status_ok split: if_splits)

lemma clear_stale_status_ok:
  assumes "status_ok f"
  shows "status_ok (clear_stale_data gid f)"
proof -
  have "pending_updates (clear_stale_data gid f) i = pending_updates f i" if "i \<noteq> gid" for i
    using that by (auto simp: pending_updates_def clear_stale_data_def is_pending_def intro: filter_cong)
  then show ?thesis using assms by (auto simp: status_ok_def clear_stale_data_def update_rows_def split: if_splits)
qed

end
