(* ===== verification/Maintenance.thy ===== *)
theory Maintenance
  imports Patch_Safety
begin

text \<open>
  Maintenance windows, scheduled scans and unattended updates (\<^verbatim>\<open>src/core/scheduler.py\<close>), the history
  of applied updates (\<^verbatim>\<open>src/core/update_history.py\<close>) and its evaluation
  (\<^verbatim>\<open>src/core/update_trends.py\<close>).

  A naive local \<^verbatim>\<open>datetime\<close> is the number of microseconds since midnight of the first of January
  1970, local time, a Thursday.
\<close>

section \<open>Maintenance windows\<close>

definition DAY :: int where "DAY = 86400000000"

definition weekday :: "int \<Rightarrow> nat" where "weekday now = nat ((now div DAY + 3) mod 7)"

definition time_of_day :: "int \<Rightarrow> int" where "time_of_day now = now mod DAY"

definition day_name :: "string list" where
  "day_name = [''Monday'', ''Tuesday'', ''Wednesday'', ''Thursday'', ''Friday'', ''Saturday'', ''Sunday'']"

text \<open>
  The time of day in microseconds. \<^term>\<open>Inl ()\<close> is the \<^verbatim>\<open>ValueError\<close> of \<^verbatim>\<open>int\<close> for the digits that
  \<^verbatim>\<open>isdigit\<close> accepts and \<^verbatim>\<open>int\<close> does not.
\<close>

definition parse_window_time :: "string \<Rightarrow> unit + int option" where
  "parse_window_time value =
     (let text = py_strip value in
      if length text \<noteq> 5 \<or> text ! 2 \<noteq> CHR '':'' \<or> \<not> (py_isdigit (take 2 text) \<and> py_isdigit (drop 3 text))
      then Inr None
      else case (py_int (take 2 text), py_int (drop 3 text)) of
             (Some hour, Some minute) \<Rightarrow>
               if hour > 23 \<or> minute > 59 then Inr None else Inr (Some ((hour * 60 + minute) * 60000000))
           | _ \<Rightarrow> Inl ())"

definition in_maintenance_window :: "maintenance_window \<Rightarrow> int \<Rightarrow> unit + bool" where
  "in_maintenance_window w now =
     (let day = py_lower (py_strip (mw_day_of_week w)) in
      if day \<noteq> ''daily'' \<and> day \<noteq> py_lower (day_name ! weekday now) then Inr False
      else case parse_window_time (mw_start_time w) of
             Inl e \<Rightarrow> Inl e
           | Inr start \<Rightarrow>
               (case parse_window_time (mw_end_time w) of
                  Inl e \<Rightarrow> Inl e
                | Inr stop \<Rightarrow>
                    (case (start, stop) of
                       (Some s, Some e) \<Rightarrow>
                         let current = time_of_day now in
                         Inr (if s \<le> e then s \<le> current \<and> current \<le> e else current \<ge> s \<or> current \<le> e)
                     | _ \<Rightarrow> Inr False)))"

section \<open>Update history\<close>

definition SUMMARY_MAX_PACKAGES :: nat where "SUMMARY_MAX_PACKAGES = 25"

definition record_update_history ::
  "pguest \<Rightarrow> update_package list \<Rightarrow> string option \<Rightarrow> usec \<Rightarrow> fleet \<Rightarrow> fleet" where
  "record_update_history g applied_pkgs initiated_by now f =
     (let package_count = length applied_pkgs;
          security_count = length (filter (\<lambda>p. up_severity p = ''critical'') applied_pkgs);
          names = map up_package_name (take SUMMARY_MAX_PACKAGES applied_pkgs);
          summary = py_join '', '' names @
            (if package_count > SUMMARY_MAX_PACKAGES
             then '', and '' @ py_str_int (int (package_count - SUMMARY_MAX_PACKAGES)) @ '' more'' else [])
      in f\<lparr>f_history := f_history f @
            [\<lparr>uh_guest_id = g_id g, uh_applied_at = now, uh_package_count = package_count,
              uh_security_count = security_count, uh_packages_summary = (if summary = [] then None else Some summary),
              uh_initiated_by = initiated_by\<rparr>]\<rparr>)"

section \<open>The scheduled jobs\<close>

definition run_scan :: "remote \<Rightarrow> fleet \<Rightarrow> fleet" where
  "run_scan R f =
     (if setting_get (a_db (f_app f)) ''scan_enabled'' ''true'' = ''false'' then f
      else let (results, f1) = scan_all_guests R f in add_alert (Update_Notification results) f1)"

definition window_of :: "fleet \<Rightarrow> pguest \<Rightarrow> maintenance_window option" where
  "window_of f g = Option.bind (pg_window g) (\<lambda>i. first_row (\<lambda>w. mw_id w = i) (f_windows f))"

text \<open>
  One guest of the unattended run, with the results so far; \<^term>\<open>Inl ()\<close> is an exception that ends the
  job (a window time or a notification setting with digits that \<^verbatim>\<open>int\<close> does not accept).
\<close>

definition auto_update_guest ::
  "remote \<Rightarrow> int \<Rightarrow> pguest \<Rightarrow> (string \<times> nat \<times> nat) list \<Rightarrow> fleet \<Rightarrow> (unit + (string \<times> nat \<times> nat) list) \<times> fleet" where
  "auto_update_guest R now g acc f =
     (case window_of f g of
        None \<Rightarrow> (Inr acc, f)
      | Some w \<Rightarrow>
          if \<not> mw_enabled w then (Inr acc, f)
          else case in_maintenance_window w now of
            Inl e \<Rightarrow> (Inl e, f)
          | Inr inside \<Rightarrow>
              if \<not> inside then (Inr acc, f)
              else if pending_updates f (g_id g) = [] then (Inr acc, f)
              else
                let pending_pkgs = pending_updates f (g_id g);
                    (applied_count, security_count) = summarize_applied_packages pending_pkgs;
                    ((ok, out), f1) = apply_updates R g (mw_update_type w = ''dist-upgrade'') f
                in if \<not> ok then (Inr acc, f1)
                   else let f2 = record_update_history g pending_pkgs (Some ''scheduler'') (rm_now R (f_ops f1)) f1 in
                     (case guest_matches_notify_tags f2 g of
                        None \<Rightarrow> (Inl (), f2)
                      | Some True \<Rightarrow> (Inr (acc @ [(g_name g, applied_count, security_count)]), f2)
                      | Some False \<Rightarrow> (Inr acc, f2)))"

fun auto_update_loop ::
  "remote \<Rightarrow> int \<Rightarrow> pguest list \<Rightarrow> (string \<times> nat \<times> nat) list \<Rightarrow> fleet \<Rightarrow> (unit + (string \<times> nat \<times> nat) list) \<times> fleet" where
  "auto_update_loop R now [] acc f = (Inr acc, f)"
| "auto_update_loop R now (g # gs) acc f =
     (case auto_update_guest R now g acc f of
        (Inl e, f1) \<Rightarrow> (Inl e, f1)
      | (Inr acc', f1) \<Rightarrow> auto_update_loop R now gs acc' f1)"

definition run_auto_updates :: "remote \<Rightarrow> int \<Rightarrow> fleet \<Rightarrow> (unit + unit) \<times> fleet" where
  "run_auto_updates R now f =
     (case auto_update_loop R now (filter (\<lambda>g. g_enabled g \<and> pg_auto_update g) (f_guests f)) [] f of
        (Inl e, f1) \<Rightarrow> (Inl e, f1)
      | (Inr results, f1) \<Rightarrow> (Inr (), if results \<noteq> [] then add_alert (Updates_Applied results) f1 else f1))"

section \<open>Trends\<close>

definition num_weeks :: "int \<Rightarrow> nat" where "num_weeks days = nat (max 1 (- ((- days) div 7)))"

record bucket_row =
  b_week_start :: int
  b_total :: nat
  b_security :: nat

definition empty_buckets :: "int \<Rightarrow> int \<Rightarrow> bucket_row list" where
  "empty_buckets since days =
     map (\<lambda>i. \<lparr>b_week_start = (since + int i * 7 * DAY) div DAY, b_total = 0, b_security = 0\<rparr>) [0..<num_weeks days]"

definition add_to_bucket :: "int \<Rightarrow> int \<Rightarrow> update_history \<Rightarrow> bucket_row list \<Rightarrow> bucket_row list" where
  "add_to_bucket since days row bs =
     (let idx = min (((uh_applied_at row - since) div DAY) div 7) (int (num_weeks days) - 1) in
      if idx < 0 then bs
      else bs[nat idx := (bs ! nat idx)\<lparr>b_total := b_total (bs ! nat idx) + uh_package_count row,
                                        b_security := b_security (bs ! nat idx) + uh_security_count row\<rparr>])"

definition weekly_apply_series :: "int list \<Rightarrow> int \<Rightarrow> usec \<Rightarrow> fleet \<Rightarrow> bucket_row list" where
  "weekly_apply_series guest_ids days now f =
     (let since = now - days * DAY in
      if guest_ids = [] then empty_buckets since days
      else fold (add_to_bucket since days)
             (filter (\<lambda>r. List.member guest_ids (uh_guest_id r) \<and> uh_applied_at r \<ge> since) (f_history f))
             (empty_buckets since days))"

record behind =
  bh_guest :: pguest
  bh_pending_count :: nat
  bh_pending_security_count :: nat
  bh_oldest_pending_days :: int
  bh_days_since_last_update :: "int option"

definition least :: "int list \<Rightarrow> int option" where
  "least xs = (case xs of [] \<Rightarrow> None | y # ys \<Rightarrow> Some (fold min ys y))"

definition behind_entry :: "fleet \<Rightarrow> usec \<Rightarrow> pguest \<Rightarrow> behind" where
  "behind_entry f now g =
     (let pkgs = pending_updates f (g_id g);
          oldest = least (map the (filter (\<lambda>d. d \<noteq> None) (map up_discovered_at pkgs)));
          last_applied = map_option uminus (least (map (\<lambda>h. - uh_applied_at h) (filter (\<lambda>h. uh_guest_id h = g_id g) (f_history f))))
      in \<lparr>bh_guest = g, bh_pending_count = length pkgs,
          bh_pending_security_count = length (filter (\<lambda>p. up_severity p = ''critical'') pkgs),
          bh_oldest_pending_days = (case oldest of None \<Rightarrow> 0 | Some d \<Rightarrow> max 0 ((now - d) div DAY)),
          bh_days_since_last_update = map_option (\<lambda>d. max 0 ((now - d) div DAY)) last_applied\<rparr>)"

text \<open>
  The pending rows are grouped by guest in the order of their first row; the sort is stable, also in
  reverse.
\<close>

definition chronically_behind :: "pguest list \<Rightarrow> usec \<Rightarrow> fleet \<Rightarrow> behind list" where
  "chronically_behind guests now f =
     (let guest_ids = map g_id guests;
          rows = filter (\<lambda>u. List.member guest_ids (up_guest_id u) \<and> up_status u = ''pending'') (f_updates f);
          order = rev (remdups (rev (map up_guest_id rows)));
          by_id = (\<lambda>i. map_of (rev (map (\<lambda>g. (g_id g, g)) guests)) i);
          results = map (behind_entry f now) (List.map_filter by_id order)
      in sort_key (\<lambda>r. - bh_oldest_pending_days r) results)"

section \<open>When a window is open\<close>

lemma time_of_day_bounds: "0 \<le> time_of_day now" "time_of_day now < DAY"
  by (simp_all add: time_of_day_def DAY_def)

lemma py_int_isdigit_nonneg:
  assumes "py_isdigit s" "py_int s = Some i"
  shows "0 \<le> i"
proof -
  have nsp: "\<And>c. py_isdigit_char c \<Longrightarrow> \<not> py_space c \<and> c \<noteq> CHR ''-''"
    by (auto simp: py_isdigit_char_def ascii_digit_def py_space_def code_def Let_def)
  then have "py_strip s = s"
    using assms(1) by (intro py_strip_id) (auto simp: py_isdigit_def list_all_iff)
  moreover have "hd s \<noteq> CHR ''-''" using assms(1) nsp by (cases s) (auto simp: py_isdigit_def)
  ultimately show ?thesis using assms(2) by (auto simp: py_int_def Let_def split: option.splits if_splits)
qed

lemma parse_window_time_bounds:
  assumes "parse_window_time v = Inr (Some t)"
  shows "0 \<le> t" "t < DAY"
proof -
  define t0 where "t0 = py_strip v"
  obtain h m where hm: "py_int (take 2 t0) = Some h" "py_int (drop 3 t0) = Some m" "h \<le> 23" "m \<le> 59"
    "t = (h * 60 + m) * 60000000" and dig: "py_isdigit (take 2 t0)" "py_isdigit (drop 3 t0)"
    using assms unfolding parse_window_time_def t0_def[symmetric] Let_def
    by (auto split: if_splits option.splits)
  have "0 \<le> h" "0 \<le> m"
    using py_int_isdigit_nonneg[OF dig(1) hm(1)] py_int_isdigit_nonneg[OF dig(2) hm(2)] .
  then show "0 \<le> t" "t < DAY" using hm by (auto simp: DAY_def)
qed

lemma cyclic_interval:
  fixes s e c D :: int
  assumes "0 \<le> s" "s < D" "0 \<le> e" "e < D" "0 \<le> c" "c < D"
  shows "(if s \<le> e then s \<le> c \<and> c \<le> e else c \<ge> s \<or> c \<le> e) \<longleftrightarrow> (c - s) mod D \<le> (e - s) mod D"
proof -
  have shift: "x mod D = (if x < 0 then x + D else x)" if "- D < x" "x < D" for x :: int
  proof (cases "x < 0")
    case True
    then have "(x + D) mod D = x + D" using that by (intro mod_pos_pos_trivial) auto
    then show ?thesis using True by simp
  next
    case False
    then show ?thesis using that by simp
  qed
  have "(c - s) mod D = (if c < s then c - s + D else c - s)" "(e - s) mod D = (if e < s then e - s + D else e - s)"
    using assms by (auto simp: shift)
  then show ?thesis using assms by auto
qed

text \<open>
  The occurrences of a window: one starts on each of its days at the start time and lasts until the
  end time comes round, on the next day if the end time is the earlier one.
\<close>

definition on_day :: "maintenance_window \<Rightarrow> int \<Rightarrow> bool" where
  "on_day w t \<longleftrightarrow> py_lower (py_strip (mw_day_of_week w)) \<in> {''daily'', py_lower (day_name ! weekday t)}"

definition window_runs :: "maintenance_window \<Rightarrow> int \<Rightarrow> int \<Rightarrow> int \<Rightarrow> bool" where
  "window_runs w s e now \<longleftrightarrow>
     (\<exists>k. on_day w (k * DAY) \<and> k * DAY + s \<le> now \<and> now \<le> k * DAY + s + (e - s) mod DAY)"

lemma in_window_cyclic:
  assumes "parse_window_time (mw_start_time w) = Inr (Some s)" "parse_window_time (mw_end_time w) = Inr (Some e)"
  shows "in_maintenance_window w now =
     Inr (on_day w now \<and> (time_of_day now - s) mod DAY \<le> (e - s) mod DAY)"
proof -
  note b = parse_window_time_bounds[OF assms(1)] parse_window_time_bounds[OF assms(2)]
  have "(if s \<le> e then s \<le> time_of_day now \<and> time_of_day now \<le> e else time_of_day now \<ge> s \<or> time_of_day now \<le> e) \<longleftrightarrow>
      (time_of_day now - s) mod DAY \<le> (e - s) mod DAY"
    by (rule cyclic_interval[OF b time_of_day_bounds])
  then show ?thesis using assms by (auto simp: in_maintenance_window_def on_day_def Let_def)
qed

lemma on_day_start: "on_day w (now div DAY * DAY) = on_day w now"
  by (simp add: on_day_def weekday_def DAY_def)

text \<open>Only the occurrence of today or that of yesterday can be under way.\<close>

lemma window_runs_split:
  assumes "0 \<le> s" "s < DAY"
  shows "window_runs w s e now \<longleftrightarrow>
    on_day w now \<and> s \<le> time_of_day now \<and> time_of_day now \<le> s + (e - s) mod DAY \<or>
    on_day w (now - DAY) \<and> time_of_day now + DAY \<le> s + (e - s) mod DAY"
proof -
  define q c where "q = now div DAY" and "c = time_of_day now"
  have now: "now = q * DAY + c" and c: "0 \<le> c" "c < DAY"
    using time_of_day_bounds[of now] by (simp_all add: q_def c_def time_of_day_def)
  have len: "0 \<le> (e - s) mod DAY" "(e - s) mod DAY < DAY" by (simp_all add: DAY_def)
  have pos: "0 < DAY" by (simp add: DAY_def)
  have today: "on_day w (q * DAY) = on_day w now" by (simp add: q_def on_day_start)
  have "(now - DAY) div DAY = q - 1" by (simp add: q_def DAY_def)
  then have yesterday: "on_day w ((q - 1) * DAY) = on_day w (now - DAY)" using on_day_start[of w "now - DAY"] by simp
  have near: "k = q \<or> k = q - 1" if "k * DAY + s \<le> now" "now \<le> k * DAY + s + (e - s) mod DAY" for k
  proof -
    have "k * DAY < q * DAY + DAY" "q * DAY - 2 * DAY < k * DAY" using that now c assms len by linarith+
    then have "k * DAY < (q + 1) * DAY" "(q - 2) * DAY < k * DAY" by (simp_all add: algebra_simps)
    then have "k < q + 1" "q - 2 < k" using pos by (auto simp only: mult_less_cancel_right)
    then show ?thesis by linarith
  qed
  have "(q - 1) * DAY = q * DAY - DAY" by (simp add: algebra_simps)
  then have bounds: "q * DAY + s \<le> now \<longleftrightarrow> s \<le> c" "now \<le> q * DAY + s + (e - s) mod DAY \<longleftrightarrow> c \<le> s + (e - s) mod DAY"
    "(q - 1) * DAY + s \<le> now" "now \<le> (q - 1) * DAY + s + (e - s) mod DAY \<longleftrightarrow> c + DAY \<le> s + (e - s) mod DAY"
    using now c assms by linarith+
  have "window_runs w s e now \<longleftrightarrow>
      (\<exists>k \<in> {q, q - 1}. on_day w (k * DAY) \<and> k * DAY + s \<le> now \<and> now \<le> k * DAY + s + (e - s) mod DAY)"
    unfolding window_runs_def using near by blast
  then show ?thesis
    unfolding c_def[symmetric] by (simp only: bex_simps today yesterday bounds simp_thms)
qed

text \<open>
  C36. A maintenance window fires during its occurrences. For a window with valid times that is daily
  or ends on the day it starts, the check answers without raising, and it says yes if and only if an
  occurrence is under way: one that started on a day of the window, today or (for a daily window that
  wraps past midnight) yesterday. The remaining windows, those of one weekday that wrap past midnight,
  are the subject of \<open>weekday_window_after_midnight\<close>.
\<close>

theorem window_fires_during_occurrences:
  assumes "parse_window_time (mw_start_time w) = Inr (Some s)" "parse_window_time (mw_end_time w) = Inr (Some e)"
    and "py_lower (py_strip (mw_day_of_week w)) = ''daily'' \<or> s \<le> e"
  shows "in_maintenance_window w now = Inr (window_runs w s e now)"
proof -
  note b = parse_window_time_bounds[OF assms(1)] parse_window_time_bounds[OF assms(2)]
  have cyc: "(time_of_day now - s) mod DAY \<le> (e - s) mod DAY \<longleftrightarrow>
      (if s \<le> e then s \<le> time_of_day now \<and> time_of_day now \<le> e else time_of_day now \<ge> s \<or> time_of_day now \<le> e)"
    using cyclic_interval[OF b time_of_day_bounds[of now]] by blast
  have len: "(e - s) mod DAY = (if s \<le> e then e - s else e - s + DAY)"
  proof (cases "s \<le> e")
    case False
    then have "(e - s + DAY) mod DAY = e - s + DAY" using b by (intro mod_pos_pos_trivial) auto
    then show ?thesis using False by simp
  qed (use b in simp)
  have "on_day w t" if "py_lower (py_strip (mw_day_of_week w)) = ''daily''" for t using that by (simp add: on_day_def)
  then have "on_day w now \<and> (time_of_day now - s) mod DAY \<le> (e - s) mod DAY \<longleftrightarrow> window_runs w s e now"
    unfolding cyc unfolding window_runs_split[OF b(1,2)] len
    using assms(3) b time_of_day_bounds[of now] by auto
  then show ?thesis by (simp add: in_window_cyclic[OF assms(1,2)])
qed

theorem window_fires_during_occurrences_witness:
  "in_maintenance_window (hd (f_windows sample_fleet)) (DAY + 3600000000) =
     Inr (window_runs (hd (f_windows sample_fleet)) 82800000000 7200000000 (DAY + 3600000000)) \<and>
   window_runs (hd (f_windows sample_fleet)) 82800000000 7200000000 (DAY + 3600000000)"
proof -
  have w: "parse_window_time (mw_start_time (hd (f_windows sample_fleet))) = Inr (Some 82800000000)"
    "parse_window_time (mw_end_time (hd (f_windows sample_fleet))) = Inr (Some 7200000000)"
    "py_lower (py_strip (mw_day_of_week (hd (f_windows sample_fleet)))) = ''daily''"
    "in_maintenance_window (hd (f_windows sample_fleet)) (DAY + 3600000000) = Inr True" by code_simp+
  from window_fires_during_occurrences[OF w(1,2) disjI1[OF w(3)], of "DAY + 3600000000"] w(4) show ?thesis by simp
qed

text \<open>
  A window of one weekday that wraps past midnight does not follow its occurrence. In the early hours
  that belong to the occurrence of the day before, the check looks at the weekday of the current day:
  it says no on the morning after the window's day, when the occurrence is under way, and yes on the
  morning of the window's day, before it has started.
\<close>

theorem weekday_window_after_midnight:
  assumes "parse_window_time (mw_start_time w) = Inr (Some s)" "parse_window_time (mw_end_time w) = Inr (Some e)"
    and "e < s" "time_of_day now \<le> e"
  shows "in_maintenance_window w now = Inr (on_day w now) \<and> window_runs w s e now = on_day w (now - DAY)"
proof -
  note b = parse_window_time_bounds[OF assms(1)] parse_window_time_bounds[OF assms(2)]
  have "(e - s + DAY) mod DAY = e - s + DAY" using b assms(3) by (intro mod_pos_pos_trivial) auto
  then have len: "(e - s) mod DAY = e - s + DAY" by simp
  have "(time_of_day now - s) mod DAY \<le> (e - s) mod DAY"
    using cyclic_interval[OF b time_of_day_bounds[of now]] assms(3,4) by simp
  then show ?thesis
    using assms(3,4) unfolding in_window_cyclic[OF assms(1,2)] window_runs_split[OF b(1,2)] len by auto
qed

section \<open>What the unattended run touches\<close>

text \<open>Nothing recorded about a guest changed.\<close>

definition same_guest :: "int \<Rightarrow> fleet \<Rightarrow> fleet \<Rightarrow> bool" where
  "same_guest i f f' \<longleftrightarrow>
     filter (\<lambda>u. up_guest_id u = i) (f_updates f') = filter (\<lambda>u. up_guest_id u = i) (f_updates f) \<and>
     filter (\<lambda>r. g_id r = i) (f_guests f') = filter (\<lambda>r. g_id r = i) (f_guests f) \<and>
     filter (\<lambda>h. uh_guest_id h = i) (f_history f') = filter (\<lambda>h. uh_guest_id h = i) (f_history f)"

lemma same_guest_refl [simp]: "same_guest i f f" by (simp add: same_guest_def)

lemma same_guest_trans: "same_guest i f f' \<Longrightarrow> same_guest i f' f'' \<Longrightarrow> same_guest i f f''"
  by (simp add: same_guest_def)

lemma same_guest_pending: "same_guest i f f' \<Longrightarrow> pending_updates f' i = pending_updates f i"
proof -
  have "filter (is_pending i) us = filter (is_pending i) (filter (\<lambda>u. up_guest_id u = i) us)" for us
    by (auto simp: is_pending_def intro: filter_cong)
  then show "same_guest i f f' \<Longrightarrow> pending_updates f' i = pending_updates f i"
    unfolding same_guest_def pending_updates_def by metis
qed

lemma same_guest_quiet: "quiet P f f' \<Longrightarrow> same_guest i f f'"
  by (auto simp: quiet_def same_guest_def)

lemma filter_update_rows_other:
  assumes "\<And>r. g_id (h r) = g_id r" "i \<noteq> gid"
  shows "filter (\<lambda>r. g_id r = i) (update_rows (\<lambda>g. g_id g = gid) h rows) = filter (\<lambda>r. g_id r = i) rows"
  using assms by (induction rows) (auto simp: update_rows_def)

lemma filter_retired_other:
  "i \<noteq> gid \<Longrightarrow> filter (\<lambda>u. up_guest_id u = i) (map (retired gid now l) us) = filter (\<lambda>u. up_guest_id u = i) us"
  by (induction us) (auto simp: retired_def is_pending_def)

lemma finish_apply_other:
  assumes "i \<noteq> g_id g"
  shows "same_guest i f (finish_apply R g recheck f)"
proof -
  let ?f1 = "reconcile_applied_updates g (rm_now R (f_ops f)) recheck f"
  obtain h where gs: "f_guests (finish_apply R g recheck f) =
      update_rows (\<lambda>r. g_id r = g_id g) (\<lambda>r. r\<lparr>pg_reboot_required := h r\<rparr>) (f_guests ?f1)"
    using finish_apply_effect(2) by blast
  have "filter (\<lambda>r. g_id r = i) (f_guests (finish_apply R g recheck f)) = filter (\<lambda>r. g_id r = i) (f_guests ?f1)"
    unfolding gs by (rule filter_update_rows_other) (simp_all add: assms)
  moreover have "filter (\<lambda>r. g_id r = i) (f_guests ?f1) = filter (\<lambda>r. g_id r = i) (f_guests f)"
  proof (cases recheck)
    case (Some l)
    show ?thesis unfolding Some reconcile_effect(3) by (rule filter_update_rows_other) (simp_all add: assms)
  qed (simp add: reconcile_effect)
  moreover have "filter (\<lambda>u. up_guest_id u = i) (f_updates ?f1) = filter (\<lambda>u. up_guest_id u = i) (f_updates f)"
    using assms by (cases recheck) (simp_all add: reconcile_effect filter_retired_other)
  ultimately show ?thesis by (simp add: same_guest_def finish_apply_effect)
qed

lemma apply_updates_frame:
  assumes "apply_updates R g du f = (r, f')"
  shows "ops_grow (op_within g (apply_commands du)) f f' \<and> f_windows f' = f_windows f \<and>
         (\<forall>i. i \<noteq> g_id g \<longrightarrow> same_guest i f f')"
proof (cases "fst r")
  case True
  then obtain f1 recheck where q: "quiet (op_within g (apply_commands du)) f f1" and f': "f' = finish_apply R g recheck f1"
    using apply_updates_outcome[of R g du f "fst r" "snd r" f'] assms by (cases r) (auto simp: upgraded_def)
  have "ops_grow (op_within g (apply_commands du)) f1 f'"
    unfolding f' by (rule ops_grow_mono[OF finish_apply_effect(7)]) (auto simp: op_within_def apply_commands_def)
  moreover have "f_windows f' = f_windows f" using q by (auto simp: f' finish_apply_effect quiet_def)
  moreover have "same_guest i f f'" if "i \<noteq> g_id g" for i
    unfolding f' by (rule same_guest_trans[OF same_guest_quiet[OF q] finish_apply_other[OF that]])
  ultimately show ?thesis using ops_grow_trans[OF ops_grow_quiet[OF q]] by blast
next
  case False
  then have q: "quiet (op_within g (apply_commands du)) f f'"
    using apply_updates_outcome[of R g du f "fst r" "snd r" f'] assms by (cases r) auto
  then show ?thesis using ops_grow_quiet[OF q] same_guest_quiet[OF q] by (auto simp: quiet_def)
qed

text \<open>Enabled, set to update itself, in an open window of its own, and with something pending.\<close>

definition due :: "fleet \<Rightarrow> int \<Rightarrow> pguest \<Rightarrow> bool" where
  "due f now g \<longleftrightarrow> g_enabled g \<and> pg_auto_update g \<and> pending_updates f (g_id g) \<noteq> [] \<and>
     (case window_of f g of None \<Rightarrow> False | Some w \<Rightarrow> mw_enabled w \<and> in_maintenance_window w now = Inr True)"

definition dist_of :: "fleet \<Rightarrow> pguest \<Rightarrow> bool" where
  "dist_of f g \<longleftrightarrow> (case window_of f g of None \<Rightarrow> False | Some w \<Rightarrow> mw_update_type w = ''dist-upgrade'')"

lemma auto_update_guest_frame:
  assumes "auto_update_guest R now g acc f = (r, f')" "g_enabled g" "pg_auto_update g"
  shows "if due f now g
         then ops_grow (op_within g (apply_commands (dist_of f g))) f f' \<and> f_windows f' = f_windows f \<and>
              (\<forall>i. i \<noteq> g_id g \<longrightarrow> same_guest i f f')
         else f' = f"
proof (cases "due f now g")
  case True
  then obtain w where w: "window_of f g = Some w" "mw_enabled w" "in_maintenance_window w now = Inr True"
    "pending_updates f (g_id g) \<noteq> []" by (auto simp: due_def split: option.splits)
  obtain ok out f1 where ap: "apply_updates R g (dist_of f g) f = ((ok, out), f1)"
    by (cases "apply_updates R g (dist_of f g) f") auto
  have dist: "dist_of f g = (mw_update_type w = ''dist-upgrade'')" by (simp add: dist_of_def w)
  define f2 where "f2 = record_update_history g (pending_updates f (g_id g)) (Some ''scheduler'') (rm_now R (f_ops f1)) f1"
  have "f' = (if ok then f2 else f1)"
    using assms(1) w ap[unfolded dist] unfolding auto_update_guest_def
    by (auto simp: Let_def f2_def summarize_applied_packages_def split: option.splits bool.splits)
  moreover have "ops_grow P f1 f2" "f_windows f2 = f_windows f1" "i \<noteq> g_id g \<Longrightarrow> same_guest i f1 f2" for P i
    by (auto simp: f2_def record_update_history_def Let_def same_guest_def intro: ops_grow_refl)
  ultimately show ?thesis
    using apply_updates_frame[OF ap] True by (auto intro: ops_grow_trans same_guest_trans)
next
  case False
  then show ?thesis using assms
    by (auto simp: auto_update_guest_def due_def split: option.splits sum.splits if_splits)
qed

lemma due_cong:
  "f_windows f' = f_windows f \<Longrightarrow> same_guest (g_id g) f f' \<Longrightarrow> due f' now g = due f now g"
  "f_windows f' = f_windows f \<Longrightarrow> dist_of f' g = dist_of f g"
  by (simp_all add: due_def dist_of_def window_of_def same_guest_pending)

lemma auto_update_loop_frame:
  assumes "auto_update_loop R now gs acc f = (r, f')" "distinct (map g_id gs)"
    and "\<And>g. g \<in> set gs \<Longrightarrow> g_enabled g \<and> pg_auto_update g"
  shows "ops_grow (\<lambda>op. \<exists>g \<in> set gs. due f now g \<and> op_within g (apply_commands (dist_of f g)) op) f f' \<and>
         (\<forall>i. (\<forall>g \<in> set gs. g_id g = i \<longrightarrow> \<not> due f now g) \<longrightarrow> same_guest i f f')"
  using assms
proof (induction gs arbitrary: acc f)
  case Nil
  then show ?case by (auto intro: ops_grow_refl)
next
  case (Cons g gs)
  let ?P = "\<lambda>f gs op. \<exists>g \<in> set gs. due f now g \<and> op_within g (apply_commands (dist_of f g)) op"
  obtain x f1 where step: "auto_update_guest R now g acc f = (x, f1)" by (cases "auto_update_guest R now g acc f") auto
  note fr = auto_update_guest_frame[OF step]
  have win: "f_windows f1 = f_windows f" and oth: "\<And>i. i \<noteq> g_id g \<or> \<not> due f now g \<Longrightarrow> same_guest i f f1"
    and og: "ops_grow (?P f (g # gs)) f f1"
    using fr Cons.prems(3)[of g] by (auto split: if_splits elim: ops_grow_mono intro: ops_grow_refl)
  have same: "due f1 now h = due f now h" "dist_of f1 h = dist_of f h" if "h \<in> set gs" for h
    using that Cons.prems(2) by (auto intro!: due_cong win oth) (metis image_eqI)
  show ?case
  proof (cases x)
    case (Inl e)
    then have "f' = f1" using Cons.prems(1) step by simp
    then show ?thesis using og oth by auto
  next
    case (Inr acc')
    then have rest: "auto_update_loop R now gs acc' f1 = (r, f')" using Cons.prems(1) step by simp
    have "ops_grow (?P f1 gs) f1 f' \<and> (\<forall>i. (\<forall>g \<in> set gs. g_id g = i \<longrightarrow> \<not> due f1 now g) \<longrightarrow> same_guest i f1 f')"
      using Cons.prems(2,3) by (intro Cons.IH[OF rest]) auto
    then have r1: "ops_grow (?P f (g # gs)) f1 f'" and r2: "\<And>i. (\<forall>g \<in> set gs. g_id g = i \<longrightarrow> \<not> due f now g) \<Longrightarrow> same_guest i f1 f'"
      using same by (auto elim!: ops_grow_mono)
    have "same_guest i f f'" if "\<forall>h \<in> set (g # gs). g_id h = i \<longrightarrow> \<not> due f now h" for i
      using that by (intro same_guest_trans[OF oth r2]) auto
    then show ?thesis using ops_grow_trans[OF og r1] by blast
  qed
qed

text \<open>
  C13. Unattended updates stay within their windows. Whatever the machines answer and wherever the job
  ends, every operation it performs is addressed to a guest that is due (enabled, set to update
  itself, inside an enabled maintenance window that is open now, and with pending updates), with
  the commands of the kind of upgrade its window asks for; and nothing recorded about a guest that
  is not due changes: not its rows, not its packages, not its history.
\<close>

theorem auto_updates_within_windows:
  assumes "run_auto_updates R now f = (r, f')" "distinct (map g_id (f_guests f))"
  shows "(\<exists>ops. f_ops f' = f_ops f @ ops \<and>
            (\<forall>op \<in> set ops. \<exists>g \<in> set (f_guests f). due f now g \<and> op_to g op \<and>
               (\<forall>c. op_command op = Some c \<longrightarrow> c \<in> apply_commands (dist_of f g)))) \<and>
         (\<forall>g \<in> set (f_guests f). \<not> due f now g \<longrightarrow> same_guest (g_id g) f f')"
proof -
  let ?gs = "filter (\<lambda>g. g_enabled g \<and> pg_auto_update g) (f_guests f)"
  obtain x f1 where loop: "auto_update_loop R now ?gs [] f = (x, f1)" by (cases "auto_update_loop R now ?gs [] f") auto
  have f': "f_ops f' = f_ops f1" "\<And>i. same_guest i f1 f'"
    using assms(1) loop by (auto simp: run_auto_updates_def add_alert_def same_guest_def split: sum.splits if_splits)
  have fr: "ops_grow (\<lambda>op. \<exists>g \<in> set ?gs. due f now g \<and> op_within g (apply_commands (dist_of f g)) op) f f1"
    "\<And>i. (\<forall>g \<in> set ?gs. g_id g = i \<longrightarrow> \<not> due f now g) \<Longrightarrow> same_guest i f f1"
    using auto_update_loop_frame[OF loop distinct_map_filter[OF assms(2)]] by simp_all
  have "\<not> due f now h" if "g \<in> set (f_guests f)" "\<not> due f now g" "h \<in> set (f_guests f)" "g_id h = g_id g" for g h
    using that assms(2) by (metis distinct_map inj_onD)
  then have "same_guest (g_id g) f f1" if "g \<in> set (f_guests f)" "\<not> due f now g" for g
    using that by (intro fr(2)) auto
  then have "\<forall>g \<in> set (f_guests f). \<not> due f now g \<longrightarrow> same_guest (g_id g) f f'"
    using f'(2) by (blast intro: same_guest_trans)
  moreover obtain ops where "f_ops f1 = f_ops f @ ops"
    "\<And>op. op \<in> set ops \<Longrightarrow> \<exists>g \<in> set ?gs. due f now g \<and> op_within g (apply_commands (dist_of f g)) op"
    using fr(1) by (auto simp: ops_grow_def list_all_iff)
  then have "f_ops f' = f_ops f @ ops \<and> (\<forall>op \<in> set ops. \<exists>g \<in> set (f_guests f). due f now g \<and> op_to g op \<and>
      (\<forall>c. op_command op = Some c \<longrightarrow> c \<in> apply_commands (dist_of f g)))"
    unfolding f'(1) by (fastforce simp: op_within_def)
  ultimately show ?thesis by blast
qed

theorem auto_updates_within_windows_witness:
  "(let f' = snd (run_auto_updates sample_remote (DAY div 2) sample_fleet) in
    same_guest 1 sample_fleet f') \<and> map up_status (f_updates (snd (run_auto_updates sample_remote 0 sample_fleet))) = [''applied'']"
proof -
  have "\<not> due sample_fleet (DAY div 2) sample_guest" by code_simp
  moreover have "sample_guest \<in> set (f_guests sample_fleet)" "distinct (map g_id (f_guests sample_fleet))" "g_id sample_guest = 1"
    by (simp_all add: sample_fleet_def sample_guest_def)
  ultimately have "same_guest 1 sample_fleet (snd (run_auto_updates sample_remote (DAY div 2) sample_fleet))"
    using auto_updates_within_windows[OF prod.collapse[symmetric], of sample_fleet sample_remote "DAY div 2"] by metis
  moreover have "map up_status (f_updates (snd (run_auto_updates sample_remote 0 sample_fleet))) = [''applied'']" by code_simp
  ultimately show ?thesis by (simp add: Let_def)
qed

section \<open>The weekly series counts every update once\<close>

definition week_index :: "int \<Rightarrow> int \<Rightarrow> update_history \<Rightarrow> int" where
  "week_index since days row = min (((uh_applied_at row - since) div DAY) div 7) (int (num_weeks days) - 1)"

lemma num_weeks_pos: "num_weeks days > 0"
  by (simp add: num_weeks_def)

lemma week_index_bounds:
  assumes "since \<le> uh_applied_at row"
  shows "0 \<le> week_index since days row" "nat (week_index since days row) < num_weeks days"
proof -
  show "0 \<le> week_index since days row"
    using assms num_weeks_pos[of days] by (auto simp: week_index_def DAY_def pos_imp_zdiv_nonneg_iff)
  then show "nat (week_index since days row) < num_weeks days"
    using num_weeks_pos[of days] by (auto simp: week_index_def)
qed

lemma fold_buckets:
  assumes "\<forall>r \<in> set rows. since \<le> uh_applied_at r" "length bs = num_weeks days" "i < num_weeks days"
  shows "length (fold (add_to_bucket since days) rows bs) = num_weeks days \<and>
         b_total (fold (add_to_bucket since days) rows bs ! i) =
           b_total (bs ! i) + sum_list (map uh_package_count (filter (\<lambda>r. week_index since days r = int i) rows)) \<and>
         b_security (fold (add_to_bucket since days) rows bs ! i) =
           b_security (bs ! i) + sum_list (map uh_security_count (filter (\<lambda>r. week_index since days r = int i) rows))"
  using assms(1,2)
proof (induction rows arbitrary: bs)
  case (Cons r rows)
  let ?bs = "add_to_bucket since days r bs"
  note b = week_index_bounds[of since r days]
  have len: "length ?bs = num_weeks days" using Cons.prems(2) by (simp add: add_to_bucket_def Let_def)
  have "b_total (?bs ! i) = b_total (bs ! i) + (if week_index since days r = int i then uh_package_count r else 0)"
    "b_security (?bs ! i) = b_security (bs ! i) + (if week_index since days r = int i then uh_security_count r else 0)"
    using b Cons.prems assms(3) unfolding add_to_bucket_def week_index_def[symmetric] Let_def
    by (auto simp: nth_list_update)
  then show ?case using Cons.IH[OF _ len] Cons.prems(1) by auto
qed simp

text \<open>
  The weekly series loses and doubles nothing: the series has one bucket for each week of the
  range, a bucket holds the packages and the security updates of exactly the history rows of the
  selected guests that fall into its week (what is newer than the last week's start goes to the
  last), so that the totals add up to those of all rows within the range.
\<close>

theorem weekly_series_exact:
  assumes "i < num_weeks days" "guest_ids \<noteq> []"
  shows "let rows = filter (\<lambda>r. uh_guest_id r \<in> set guest_ids \<and> now - days * DAY \<le> uh_applied_at r) (f_history f);
             mine = filter (\<lambda>r. week_index (now - days * DAY) days r = int i) rows;
             bs = weekly_apply_series guest_ids days now f
         in length bs = num_weeks days \<and> b_week_start (empty_buckets (now - days * DAY) days ! i) = (now - days * DAY + int i * 7 * DAY) div DAY \<and>
            b_total (bs ! i) = sum_list (map uh_package_count mine) \<and>
            b_security (bs ! i) = sum_list (map uh_security_count mine) \<and>
            (\<forall>r \<in> set rows. \<exists>j < num_weeks days. week_index (now - days * DAY) days r = int j)"
proof -
  let ?since = "now - days * DAY"
  let ?rows = "filter (\<lambda>r. uh_guest_id r \<in> set guest_ids \<and> ?since \<le> uh_applied_at r) (f_history f)"
  have "weekly_apply_series guest_ids days now f = fold (add_to_bucket ?since days) ?rows (empty_buckets ?since days)"
    using assms(2) by (simp add: weekly_apply_series_def Let_def List.member_iff)
  moreover have "length (empty_buckets ?since days) = num_weeks days" "b_total (empty_buckets ?since days ! i) = 0"
    "b_security (empty_buckets ?since days ! i) = 0"
    "b_week_start (empty_buckets ?since days ! i) = (?since + int i * 7 * DAY) div DAY"
    using assms(1) by (simp_all add: empty_buckets_def)
  moreover have "\<exists>j < num_weeks days. week_index ?since days r = int j" if "?since \<le> uh_applied_at r" for r
    using week_index_bounds[OF that] by (intro exI[of _ "nat (week_index ?since days r)"]) simp
  ultimately show ?thesis
    using fold_buckets[of ?rows ?since "empty_buckets ?since days" days i] assms(1) by (simp add: Let_def)
qed

theorem weekly_series_exact_witness:
  "length (weekly_apply_series [1] 90 0 sample_fleet) = num_weeks 90 \<and> num_weeks 90 = 13"
proof -
  have nw: "num_weeks 90 = 13" by code_simp
  then show ?thesis
    using weekly_series_exact[of 0 90 "[1]" 0 sample_fleet] by (simp add: Let_def)
qed

lemma set_map_filter: "set (List.map_filter h xs) = {y. \<exists>x \<in> set xs. h x = Some y}"
  by (force simp: map_filter_def)

lemma bh_guest_entry: "bh_guest (behind_entry f now g) = g"
  by (simp add: behind_entry_def Let_def)

text \<open>The ranking lists exactly the guests that wait, each once, the longest wait first.\<close>

lemma chronically_behind_exact:
  assumes "distinct (map g_id guests)"
  shows "set (map bh_guest (chronically_behind guests now f)) =
           {g \<in> set guests. pending_updates f (g_id g) \<noteq> []}"
    "sorted_wrt (\<ge>) (map bh_oldest_pending_days (chronically_behind guests now f))"
proof -
  define rows where "rows = filter (\<lambda>u. List.member (map g_id guests) (up_guest_id u) \<and> up_status u = ''pending'') (f_updates f)"
  have ids: "map_of (rev (map (\<lambda>g. (g_id g, g)) guests)) i = Some g \<longleftrightarrow> g \<in> set guests \<and> g_id g = i" for i g
    using assms by (subst map_of_eq_Some_iff) (auto simp: rev_map[symmetric] comp_def)
  have "set (map bh_guest (chronically_behind guests now f)) =
      {g \<in> set guests. \<exists>u \<in> set rows. up_guest_id u = g_id g}"
    unfolding chronically_behind_def Let_def rows_def[symmetric]
    by (auto simp: set_map_filter ids bh_guest_entry image_image) (metis image_eqI)
  also have "\<dots> = {g \<in> set guests. pending_updates f (g_id g) \<noteq> []}"
    by (auto simp: rows_def pending_updates_def filter_empty_conv is_pending_def List.member_iff)
  finally show "set (map bh_guest (chronically_behind guests now f)) = {g \<in> set guests. pending_updates f (g_id g) \<noteq> []}" .
  show "sorted_wrt (\<ge>) (map bh_oldest_pending_days (chronically_behind guests now f))"
    unfolding chronically_behind_def Let_def
    using sorted_sort_key[of "\<lambda>r. - bh_oldest_pending_days r"] by (simp add: sorted_wrt_map)
qed

end
