(* ===== verification/Update_Jobs.thy ===== *)
theory Update_Jobs
  imports Maintenance Upgrade_Lock
begin

text \<open>
  Updates that a user starts (\<^verbatim>\<open>src/routes/api.py\<close>): the job of a guest, the worker that runs the
  upgrade in the background, the routes that start and cancel it, and the bulk run over all guests;
  with the snapshot requirement of \<^verbatim>\<open>src/routes/guests.py\<close> and the hint about sudo of
  \<^verbatim>\<open>src/clients/ssh_client.py\<close>.

  The table of jobs is a lock per guest, an instance of \<open>try_lock\<close>. A worker's run is one step of the
  transition system: its changes to the database are one transaction at its end, and its remote
  operations are answered by a parameter that may depend on everything sent before. Whether a user
  has asked for cancellation by the end of a streamed command is a parameter, too.
\<close>

section \<open>Jobs\<close>

record update_job =
  uj_log :: string
  uj_running :: bool
  uj_success :: "bool option"
  uj_cancel_requested :: bool
  uj_cancelled :: bool
  uj_reboot_required :: bool

definition new_job :: update_job where
  "new_job = \<lparr>uj_log = [], uj_running = True, uj_success = None, uj_cancel_requested = False,
     uj_cancelled = False, uj_reboot_required = False\<rparr>"

definition job_append :: "string \<Rightarrow> update_job \<Rightarrow> update_job" where
  "job_append t j = j\<lparr>uj_log := uj_log j @ t\<rparr>"

definition job_finish :: "bool \<Rightarrow> update_job \<Rightarrow> update_job" where
  "job_finish success j =
     j\<lparr>uj_running := False, uj_success := Some success,
       uj_cancelled := uj_cancelled j \<or> (\<not> success \<and> uj_cancel_requested j)\<rparr>"

type_synonym jobs = "(int \<times> update_job) list"

definition job_running :: "int \<Rightarrow> jobs \<Rightarrow> bool" where
  "job_running gid js \<longleftrightarrow> (case map_of js gid of None \<Rightarrow> False | Some j \<Rightarrow> uj_running j)"

text \<open>The check-and-set under \<^verbatim>\<open>_jobs_lock\<close>, and the end of a job.\<close>

definition reserve_job :: "int \<Rightarrow> jobs \<Rightarrow> bool \<times> jobs" where
  "reserve_job gid js = (if job_running gid js then (False, js) else (True, AList.update gid new_job js))"

definition release_job :: "int \<Rightarrow> jobs \<Rightarrow> jobs" where
  "release_job gid js =
     (case map_of js gid of
        None \<Rightarrow> js
      | Some j \<Rightarrow> if uj_running j then AList.update gid (job_finish False j) js else js)"

section \<open>The worker\<close>

definition SUDO_AUTH_MARKERS :: "string list" where
  "SUDO_AUTH_MARKERS =
     [''sudo: a password is required'', ''sudo: a terminal is required to read the password'',
      ''is not in the sudoers file'', ''is not allowed to run sudo'', ''sudo: not found'',
      ''sudo: command not found'']"

definition sudo_auth_failure_hint :: "string \<Rightarrow> string \<Rightarrow> string option" where
  "sudo_auth_failure_hint output username =
     (let t = py_lower output;
          who = (if username \<noteq> [] then CHR 0x27 # username @ [CHR 0x27] else ''the SSH user'') in
      if output = [] \<or> \<not> list_ex (\<lambda>m. contains m t) SUDO_AUTH_MARKERS then None
      else if contains ''not in the sudoers file'' t \<or> contains ''not allowed to run sudo'' t then
        Some (''sudo refused: '' @ who @ '' is not permitted to use sudo on this host. '' @
              ''Grant it sudo access or assign a different credential.'')
      else if contains ''sudo: not found'' t \<or> contains ''sudo: command not found'' t then
        Some (''sudo is not installed on this host, so '' @ who @ '' cannot run privileged commands. '' @
              ''Install sudo or assign a root credential.'')
      else Some (''sudo needs a password for '' @ who @ '' on this host, but the credential has no sudo password stored. '' @
              ''Either add the sudo password to the credential, or grant the user passwordless sudo '' @
              ''(NOPASSWD in /etc/sudoers.d/).''))"

definition NL :: string where "NL = [CHR 0x0A]"

type_synonym work = "update_job \<times> fleet"

definition wlog :: "string \<Rightarrow> work \<Rightarrow> work" where "wlog t w = (job_append t (fst w), snd w)"

definition wfinish :: "bool \<Rightarrow> work \<Rightarrow> work" where "wfinish ok w = (job_finish ok (fst w), snd w)"

text \<open>A streamed command: output and cancellation reach the job also when the streaming raises.\<close>

definition wstream ::
  "(remote_op list \<Rightarrow> bool) \<Rightarrow> remote_op \<Rightarrow> (remote_op list \<Rightarrow> string list \<times> (exn + 'a)) \<Rightarrow> work \<Rightarrow> (exn + string \<times> 'a) \<times> work" where
  "wstream cancel op ans w =
     (let ops = f_ops (snd w) @ [op]; (chunks, r) = ans ops; t = concat chunks;
          j = job_append t (fst w);
          w' = (j\<lparr>uj_cancel_requested := uj_cancel_requested j \<or> cancel ops\<rparr>, (snd w)\<lparr>f_ops := ops\<rparr>)
      in (map_sum id (Pair t) r, w'))"

text \<open>The bookkeeping of a successful run.\<close>

definition mark_all_applied :: "pguest \<Rightarrow> usec \<Rightarrow> fleet \<Rightarrow> fleet" where
  "mark_all_applied g now f =
     set_guest (g_id g) (\<lambda>r. r\<lparr>pg_status := ''up-to-date''\<rparr>)
       (f\<lparr>f_updates := update_rows (is_pending (g_id g))
            (\<lambda>u. u\<lparr>up_status := ''applied'', up_applied_at := Some now\<rparr>) (f_updates f)\<rparr>)"

definition complete_update :: "remote \<Rightarrow> pguest \<Rightarrow> string option \<Rightarrow> fleet \<Rightarrow> fleet" where
  "complete_update R g initiated_by f =
     (let now = rm_now R (f_ops f);
          applied_pkgs = pending_updates f (g_id g);
          (applied_count, security_count) = summarize_applied_packages applied_pkgs;
          f1 = mark_all_applied g now (record_update_history g applied_pkgs initiated_by now f)
      in if guest_matches_notify_tags f1 g = Some True
         then add_alert (Updates_Applied [(g_name g, applied_count, security_count)]) f1 else f1)"

text \<open>Whether the attempt ended the job, or went on to the agent, or raised.\<close>

datatype attempt = Ended | Goes_on | Raised_exn exn

definition ssh_upgrade ::
  "remote \<Rightarrow> (remote_op list \<Rightarrow> bool) \<Rightarrow> pguest \<Rightarrow> credential \<Rightarrow> string \<Rightarrow> string option \<Rightarrow> work \<Rightarrow> attempt \<times> work" where
  "ssh_upgrade R cancel g c cmd initiated_by w =
     (case wstream cancel (Ssh_Stream (pg_ip g) cmd 600) (rm_ssh_stream R) (wlog (NL @ ''$ '' @ cmd @ NL) w) of
        (Inl e, w1) \<Rightarrow> (Raised_exn e, w1)
      | (Inr (captured, exit_code), w1) \<Rightarrow>
          if uj_cancel_requested (fst w1) then (Ended, wfinish False (wlog (NL @ ''[Cancelled by user]'' @ NL) w1))
          else if exit_code = 0 then
            let w2 = wlog (NL @ NL @ ''Updates applied successfully.'' @ NL) w1 in
            (case ssh_execute_sudo R (pg_ip g) ''[ -f /var/run/reboot-required ] && echo yes || echo no'' 10 (snd w2) of
               (Inl e, f3) \<Rightarrow> (Raised_exn e, (fst w2, f3))
             | (Inr (rb_out, _, _), f3) \<Rightarrow>
                 let needed = (py_strip rb_out = ''yes'');
                     f4 = set_guest (g_id g) (\<lambda>r. r\<lparr>pg_reboot_required := needed\<rparr>) f3
                 in (Ended, wfinish True ((fst w2)\<lparr>uj_reboot_required := needed\<rparr>, complete_update R g initiated_by f4)))
          else
            let w2 = wlog (NL @ NL @ ''apt exited with code '' @ py_str_int exit_code @ ''.'' @ NL) w1 in
            (Ended, wfinish False (case sudo_auth_failure_hint captured (cr_username c) of
                                     None \<Rightarrow> w2 | Some hint \<Rightarrow> wlog (NL @ ''[Hint] '' @ hint @ NL) w2)))"

definition ssh_update ::
  "remote \<Rightarrow> (remote_op list \<Rightarrow> bool) \<Rightarrow> pguest \<Rightarrow> credential \<Rightarrow> string \<Rightarrow> string option \<Rightarrow> work \<Rightarrow> attempt \<times> work" where
  "ssh_update R cancel g c cmd initiated_by w0 =
     (let w = wlog (''Connecting to '' @ g_name g @ '' ('' @ pg_ip g @ '') via SSH...'' @ NL) w0 in
      case ssh_open R (pg_ip g) c (snd w) of
        (Inl e, f1) \<Rightarrow> (Raised_exn e, (fst w, f1))
      | (Inr _, f1) \<Rightarrow>
          (case wstream cancel (Ssh_Stream (pg_ip g) ''apt-get update'' 120) (rm_ssh_stream R)
                  (wlog (''$ apt-get update'' @ NL) (fst w, f1)) of
             (Inl e, w1) \<Rightarrow> (Raised_exn e, w1)
           | (Inr (captured, update_code), w1) \<Rightarrow>
               if uj_cancel_requested (fst w1) then (Ended, wfinish False (wlog (NL @ ''[Cancelled by user]'' @ NL) w1))
               else if update_code \<noteq> 0 then
                 let w2 = wlog (NL @ ''apt-get update exited with code '' @ py_str_int update_code @ ''.'' @ NL) w1 in
                 (case sudo_auth_failure_hint captured (cr_username c) of
                    Some hint \<Rightarrow> (Ended, wfinish False (wlog (NL @ ''[Hint] '' @ hint @ NL) w2))
                  | None \<Rightarrow> ssh_upgrade R cancel g c cmd initiated_by w2)
               else ssh_upgrade R cancel g c cmd initiated_by w1))"

definition agent_update ::
  "remote \<Rightarrow> (remote_op list \<Rightarrow> bool) \<Rightarrow> pguest \<Rightarrow> int \<Rightarrow> string \<Rightarrow> string option \<Rightarrow> work \<Rightarrow> work" where
  "agent_update R cancel g host cmd initiated_by w0 =
     (let w = wlog (''Connecting to '' @ g_name g @ '' via QEMU guest agent...'' @ NL) w0 in
      case get_all_guests R host (snd w) of
        (Inl e, f1) \<Rightarrow> wfinish False (wlog (NL @ ''[Agent Error] '' @ x_str e @ NL) (fst w, f1))
      | (Inr gs, f1) \<Rightarrow>
          let node = node_of (pg_vmid g) gs in
          if node = [] then wfinish False (wlog (''[Error] '' @ no_vm g @ ''.'' @ NL) (fst w, f1))
          else
            let combined = ''apt-get update && '' @ cmd in
            (case wstream cancel (Agent_Stream host node (pg_vmid g) combined 1800) (rm_agent_stream R)
                    (wlog (''$ '' @ combined @ NL) (fst w, f1)) of
               (Inl e, w1) \<Rightarrow> wfinish False (wlog (NL @ ''[Agent Error] '' @ x_str e @ NL) w1)
             | (Inr (t, exit_code), w1) \<Rightarrow>
                 if uj_cancel_requested (fst w1) then wfinish False (wlog (NL @ ''[Cancelled by user]'' @ NL) w1)
                 else if exit_code = Some 0 then
                   let w2 = wlog (NL @ NL @ ''Updates applied successfully.'' @ NL) w1;
                       f3 = check_reboot_required R g (snd w2);
                       needed = (case get_pguest f3 (g_id g) of None \<Rightarrow> False | Some r \<Rightarrow> pg_reboot_required r)
                   in wfinish True ((fst w2)\<lparr>uj_reboot_required := needed\<rparr>, complete_update R g initiated_by f3)
                 else
                   let err = (case exit_code of None \<Rightarrow> ''The command did not complete (see above).''
                                | Some rc \<Rightarrow> ''apt exited with code '' @ py_str_int rc @ ''.'')
                   in wfinish False (wlog (NL @ ''[Agent Error] '' @ err @ NL) w1)))"

definition run_update ::
  "remote \<Rightarrow> (remote_op list \<Rightarrow> bool) \<Rightarrow> pguest \<Rightarrow> bool \<Rightarrow> string option \<Rightarrow> work \<Rightarrow> work" where
  "run_update R cancel g dist_upgrade initiated_by w =
     (let cmd = apt_upgrade_command dist_upgrade;
          (how, w1) = (case (if has_valid_ip g then credential_of (snd w) g else None) of
             None \<Rightarrow> (Goes_on, w)
           | Some c \<Rightarrow>
               (case ssh_update R cancel g c cmd initiated_by w of
                  (Raised_exn e, w1) \<Rightarrow>
                    if pg_method g = ''ssh'' then (Ended, wfinish False (wlog (NL @ ''[SSH Error] '' @ x_str e @ NL) w1))
                    else (Goes_on, wlog (''SSH failed, trying guest agent...'' @ NL) w1)
                | (how, w1) \<Rightarrow> (how, w1)))
      in if how = Ended then w1
         else if agent_allowed g then agent_update R cancel g (the (pg_host g)) cmd initiated_by w1
         else wfinish False (wlog (''[Error] No viable connection method available.'' @ NL) w1))"

section \<open>State of the routes\<close>

record bulk_item =
  bi_guest_id :: int
  bi_name :: string
  bi_state :: string
  bi_reason :: "string option"

record bulk =
  bu_running :: bool
  bu_total :: nat
  bu_done :: nat
  bu_items :: "bulk_item list"

text \<open>\<open>pt_workers\<close> are the guests whose worker runs, one entry per worker.\<close>

record patcher =
  pt_fleet :: fleet
  pt_jobs :: jobs
  pt_workers :: "int list"
  pt_bulk :: bulk

definition run_update_background ::
  "remote \<Rightarrow> (remote_op list \<Rightarrow> bool) \<Rightarrow> int \<Rightarrow> bool \<Rightarrow> string option \<Rightarrow> patcher \<Rightarrow> patcher" where
  "run_update_background R cancel gid dist_upgrade initiated_by st =
     (case map_of (pt_jobs st) gid of
        None \<Rightarrow> st
      | Some job \<Rightarrow>
          (case get_pguest (pt_fleet st) gid of
             None \<Rightarrow> st\<lparr>pt_jobs := AList.update gid (job_finish False (job_append (''[Error] Guest not found.'' @ NL) job)) (pt_jobs st)\<rparr>
           | Some g \<Rightarrow>
               let (job', f') = run_update R cancel g dist_upgrade initiated_by (job, pt_fleet st)
               in st\<lparr>pt_jobs := AList.update gid job' (pt_jobs st), pt_fleet := f'\<rparr>))"

section \<open>The snapshot requirement (routes/guests.py)\<close>

definition guest_requires_snapshot :: "db \<Rightarrow> pguest \<Rightarrow> bool" where
  "guest_requires_snapshot d g =
     (if pg_require_snapshot g = ''yes'' then True
      else if pg_require_snapshot g = ''no'' then False
      else setting_get d ''require_snapshot_before_action'' ''false'' = ''true'')"

text \<open>
  What Proxmox answers: the node, the snapshots (creation time and name), the outcome of creating one;
  and the clock.
\<close>

record snapper =
  sn_node :: "pguest \<Rightarrow> exn + string"
  sn_list :: "pguest \<Rightarrow> exn + (real \<times> string) list"
  sn_create :: "pguest \<Rightarrow> exn + bool \<times> string"
  sn_now :: real

definition auto_snapshot_if_needed :: "snapper \<Rightarrow> pguest \<Rightarrow> exn + bool \<times> string" where
  "auto_snapshot_if_needed S g =
     (if pg_host g = None \<or> pg_vmid g = None \<or> pg_vmid g = Some 0
      then Inr (True, ''No Proxmox host configured, skipping snapshot'')
      else case sn_node S g of
        Inl e \<Rightarrow> Inl e
      | Inr node \<Rightarrow>
          if node = [] then Inr (False, ''Could not find '' @ pg_type g @ ''/'' @ py_str_int (the (pg_vmid g)) @ '' on any node'')
          else (case sn_list S g of
            Inl e \<Rightarrow> Inl e
          | Inr snapshots \<Rightarrow>
              (case find (\<lambda>(t, name). t \<ge> sn_now S - 3600) snapshots of
                 Some (t, name) \<Rightarrow> Inr (True, ''Recent snapshot '' @ CHR 0x27 # name @ CHR 0x27 # '' exists, skipping'')
               | None \<Rightarrow> sn_create S g)))"

section \<open>The routes\<close>

datatype apply_result =
    Not_found | No_access | No_permission | Snapshot_failed string | Snapshot_raised exn
  | Already_updating | Update_started

text \<open>
  \<open>q\<close> is the request and \<open>cu\<close> the signed-in user; starting the thread adds a worker.
\<close>

definition snapshot_gate :: "snapper \<Rightarrow> db \<Rightarrow> bool \<Rightarrow> pguest \<Rightarrow> exn + bool \<times> string" where
  "snapshot_gate S d enforce g =
     (if enforce \<and> guest_requires_snapshot d g then auto_snapshot_if_needed S g else Inr (True, []))"

definition start_update :: "req_ctx \<Rightarrow> pguest \<Rightarrow> bool \<Rightarrow> patcher \<Rightarrow> apply_result \<times> patcher" where
  "start_update q g dist_upgrade st =
     (let (got, js) = reserve_job (g_id g) (pt_jobs st) in
      if \<not> got then (Already_updating, st)
      else (Update_started,
            st\<lparr>pt_jobs := js, pt_workers := g_id g # pt_workers st,
               pt_fleet := (pt_fleet st)\<lparr>f_app := log_action q (entry ''guest_update'' ''guest'' (Some (g_id g)) (Some (g_name g))
                 (JDict [(''dist_upgrade'', JBool dist_upgrade)])) (f_app (pt_fleet st))\<rparr>\<rparr>))"

definition apply_route ::
  "snapper \<Rightarrow> req_ctx \<Rightarrow> user \<Rightarrow> int \<Rightarrow> bool \<Rightarrow> patcher \<Rightarrow> apply_result \<times> patcher" where
  "apply_route S q cu gid dist_upgrade st =
     (let d = a_db (f_app (pt_fleet st)) in
      case get_pguest (pt_fleet st) gid of
        None \<Rightarrow> (Not_found, st)
      | Some g \<Rightarrow>
          if \<not> may_access_guest d cu (guest.truncate g) then (No_access, st)
          else if \<not> can Can_update d cu then (No_permission, st)
          else case snapshot_gate S d (\<not> is_admin d cu) g of
            Inl e \<Rightarrow> (Snapshot_raised e, st)
          | Inr (ok, msg) \<Rightarrow> if \<not> ok then (Snapshot_failed msg, st) else start_update q g dist_upgrade st)"

definition update_cancel :: "user \<Rightarrow> int \<Rightarrow> patcher \<Rightarrow> bool \<times> patcher" where
  "update_cancel cu gid st =
     (let f = pt_fleet st; d = a_db (f_app f) in
      case get_pguest f gid of
        None \<Rightarrow> (False, st)
      | Some g \<Rightarrow>
          if \<not> may_access_guest d cu (guest.truncate g) \<or> \<not> can Can_update d cu then (False, st)
          else case map_of (pt_jobs st) gid of
            None \<Rightarrow> (False, st)
          | Some j \<Rightarrow>
              if \<not> uj_running j then (False, st)
              else (True, st\<lparr>pt_jobs := AList.update gid (j\<lparr>uj_cancel_requested := True\<rparr>) (pt_jobs st)\<rparr>))"

section \<open>The bulk run\<close>

definition has_tag_named :: "db \<Rightarrow> string list \<Rightarrow> pguest \<Rightarrow> bool" where
  "has_tag_named d names g \<longleftrightarrow>
     list_ex (\<lambda>i. case get_tag d i of None \<Rightarrow> False | Some t \<Rightarrow> List.member names (t_name t)) (g_tags g)"

definition tag_names :: "db \<Rightarrow> user \<Rightarrow> string list" where
  "tag_names d u = List.map_filter (\<lambda>i. map_option t_name (get_tag d i)) (u_allowed_tags u)"

definition apply_all_targets :: "fleet \<Rightarrow> user \<Rightarrow> string \<Rightarrow> pguest list" where
  "apply_all_targets f cu tag_filter =
     (let d = a_db (f_app f);
          candidates = filter (\<lambda>g. g_enabled g \<and> pg_status g = ''updates-available'' \<and> pg_power_state g = ''running'') (f_guests f);
          scoped = (if tag_filter = ''__my_tags__'' then filter (has_tag_named d (tag_names d cu)) candidates
                    else if tag_filter \<noteq> [] then filter (has_tag_named d [tag_filter]) candidates
                    else candidates)
      in filter (\<lambda>g. may_access_guest d cu (guest.truncate g) \<and> pending_updates f (g_id g) \<noteq> [])
           (sort_key g_name scoped))"

datatype bulk_result = Bulk_no_permission | Bulk_already_running | Bulk_no_targets | Bulk_started

text \<open>
  The early check and the authoritative one see the same flag here: within the model the request is
  one step.
\<close>

definition apply_all :: "req_ctx \<Rightarrow> user \<Rightarrow> string \<Rightarrow> bool \<Rightarrow> patcher \<Rightarrow> bulk_result \<times> patcher" where
  "apply_all q cu tag dist_upgrade st =
     (let f = pt_fleet st; d = a_db (f_app f); tag_filter = py_strip tag;
          targets = apply_all_targets f cu tag_filter in
      if \<not> can Can_update d cu then (Bulk_no_permission, st)
      else if bu_running (pt_bulk st) then (Bulk_already_running, st)
      else if targets = [] then (Bulk_no_targets, st)
      else
        let items = map (\<lambda>g. \<lparr>bi_guest_id = g_id g, bi_name = g_name g, bi_state = ''pending'', bi_reason = None\<rparr>) targets;
            a1 = fold (\<lambda>g. log_action q (entry ''guest_update'' ''guest'' (Some (g_id g)) (Some (g_name g))
                   (JDict [(''dist_upgrade'', JBool dist_upgrade), (''bulk'', JBool True)]))) targets (f_app f);
            a2 = log_action q (entry ''guest_update_all'' ''system'' None (Some ''all guests'')
                   (JDict [(''targets'', JInt (int (length targets))), (''dist_upgrade'', JBool dist_upgrade),
                          (''tag'', if tag_filter = [] then JNull else JStr tag_filter)])) a1
        in (Bulk_started, st\<lparr>pt_fleet := f\<lparr>f_app := a2\<rparr>,
              pt_bulk := \<lparr>bu_running = True, bu_total = length items, bu_done = 0, bu_items = items\<rparr>\<rparr>))"

definition set_item :: "int \<Rightarrow> (bulk_item \<Rightarrow> bulk_item) \<Rightarrow> bulk \<Rightarrow> bulk" where
  "set_item gid h b = b\<lparr>bu_items := update_rows (\<lambda>i. bi_guest_id i = gid) h (bu_items b)\<rparr>"

definition item_done :: "int \<Rightarrow> string \<Rightarrow> string option \<Rightarrow> bulk \<Rightarrow> bulk" where
  "item_done gid state reason b =
     (let b1 = set_item gid (\<lambda>i. i\<lparr>bi_state := state, bi_reason := (if reason = None then bi_reason i else reason)\<rparr>) b
      in b1\<lparr>bu_done := bu_done b1 + 1\<rparr>)"

text \<open>One guest of the bulk run: up to the reservation of its job, and from the worker on.\<close>

definition bulk_begin :: "snapper \<Rightarrow> bool \<Rightarrow> int \<Rightarrow> patcher \<Rightarrow> bool \<times> patcher" where
  "bulk_begin S enforce_snapshot gid st =
     (let st1 = st\<lparr>pt_bulk := set_item gid (\<lambda>i. i\<lparr>bi_state := ''running''\<rparr>) (pt_bulk st)\<rparr>;
          skip = (\<lambda>reason. (False, st1\<lparr>pt_bulk := item_done gid ''skipped'' (Some reason) (pt_bulk st1)\<rparr>));
          f = pt_fleet st in
      case get_pguest f gid of
        None \<Rightarrow> skip ''Guest not found''
      | Some g \<Rightarrow>
          let gate = (case snapshot_gate S (a_db (f_app f)) enforce_snapshot g of Inl e \<Rightarrow> (False, x_str e) | Inr r \<Rightarrow> r)
          in if \<not> fst gate then skip (''Snapshot required but failed: '' @ snd gate)
             else let (got, js) = reserve_job gid (pt_jobs st1) in
               if \<not> got then skip ''An update is already running for this guest''
               else (True, st1\<lparr>pt_jobs := js, pt_workers := gid # pt_workers st1\<rparr>))"

definition bulk_end ::
  "remote \<Rightarrow> (remote_op list \<Rightarrow> bool) \<Rightarrow> bool \<Rightarrow> string option \<Rightarrow> int \<Rightarrow> patcher \<Rightarrow> patcher" where
  "bulk_end R cancel dist_upgrade initiated_by gid st =
     (let st1 = run_update_background R cancel gid dist_upgrade initiated_by st;
          success = (case map_of (pt_jobs st1) gid of None \<Rightarrow> False | Some j \<Rightarrow> uj_success j = Some True)
      in st1\<lparr>pt_jobs := release_job gid (pt_jobs st1), pt_workers := remove1 gid (pt_workers st1),
             pt_bulk := item_done gid (if success then ''success'' else ''failed'') None (pt_bulk st1)\<rparr>)"

definition bulk_finish :: "patcher \<Rightarrow> patcher" where
  "bulk_finish st = st\<lparr>pt_bulk := (pt_bulk st)\<lparr>bu_running := False\<rparr>\<rparr>"

definition run_bulk_update ::
  "remote \<Rightarrow> (remote_op list \<Rightarrow> bool) \<Rightarrow> snapper \<Rightarrow> int list \<Rightarrow> bool \<Rightarrow> bool \<Rightarrow> string option \<Rightarrow> patcher \<Rightarrow> patcher" where
  "run_bulk_update R cancel S guest_ids dist_upgrade enforce_snapshot initiated_by st =
     bulk_finish (fold (\<lambda>gid st. let (go, st1) = bulk_begin S enforce_snapshot gid st in
                          if go then bulk_end R cancel dist_upgrade initiated_by gid st1 else st1) guest_ids st)"

text \<open>The thread that a single update starts.\<close>

definition worker_end ::
  "remote \<Rightarrow> (remote_op list \<Rightarrow> bool) \<Rightarrow> bool \<Rightarrow> string option \<Rightarrow> int \<Rightarrow> patcher \<Rightarrow> patcher" where
  "worker_end R cancel dist_upgrade initiated_by gid st =
     (let st1 = run_update_background R cancel gid dist_upgrade initiated_by st
      in st1\<lparr>pt_workers := remove1 gid (pt_workers st1)\<rparr>)"

section \<open>The table of jobs is a lock per guest\<close>

lemma job_running_update [simp]:
  "job_running m (AList.update n j js) = (if m = n then uj_running j else job_running m js)"
  by (simp add: job_running_def dict_simps)

interpretation jobs: try_lock reserve_job release_job job_running
proof
  fix n m :: int and s :: jobs
  show "fst (reserve_job n s) \<longleftrightarrow> \<not> job_running n s" by (simp add: reserve_job_def)
  show "job_running m (snd (reserve_job n s)) \<longleftrightarrow> m = n \<or> job_running m s"
    by (auto simp: reserve_job_def new_job_def)
  show "job_running m (release_job n s) \<longleftrightarrow> m \<noteq> n \<and> job_running m s"
    by (auto simp: release_job_def job_running_def job_finish_def dict_simps split: option.splits if_splits)
qed

text \<open>Whatever happens, the worker ends its job.\<close>

lemma wfinish_ended: "wfinish ok w = (j, f) \<Longrightarrow> \<not> uj_running j"
  by (auto simp: wfinish_def job_finish_def)

lemma ssh_upgrade_ends: "ssh_upgrade R cancel g c cmd by w = (Ended, j, f) \<Longrightarrow> \<not> uj_running j"
  unfolding ssh_upgrade_def by (auto simp: Let_def dest: wfinish_ended split: sum.splits prod.splits if_splits option.splits)

lemma ssh_update_ends: "ssh_update R cancel g c cmd by w = (Ended, j, f) \<Longrightarrow> \<not> uj_running j"
  unfolding ssh_update_def Let_def
  by (auto split: sum.splits prod.splits if_splits option.splits dest: ssh_upgrade_ends wfinish_ended)

lemma agent_update_ends: "agent_update R cancel g host cmd by w = (j, f) \<Longrightarrow> \<not> uj_running j"
  unfolding agent_update_def by (auto simp: Let_def dest: wfinish_ended split: sum.splits prod.splits if_splits)

lemma run_update_ends: "run_update R cancel g du by w = (j, f) \<Longrightarrow> \<not> uj_running j"
  unfolding run_update_def Let_def
  by (auto split: option.splits prod.splits attempt.splits if_splits
      dest: ssh_update_ends agent_update_ends wfinish_ended)

lemma background_jobs:
  "job_running m (pt_jobs (run_update_background R cancel gid du by st)) = job_running m (release_job gid (pt_jobs st))"
proof (cases "map_of (pt_jobs st) gid")
  case None
  then show ?thesis by (simp add: run_update_background_def release_job_def)
next
  case (Some j)
  then show ?thesis
    by (auto simp: run_update_background_def jobs.release_locked job_finish_def Let_def dest: run_update_ends
        split: option.splits prod.splits)
qed

lemma background_workers [simp]:
  "pt_workers (run_update_background R cancel gid du by st) = pt_workers st"
  by (simp add: run_update_background_def Let_def split: option.splits prod.splits)

section \<open>The transition system\<close>

text \<open>
  Every way the patch state changes: the routes, the workers, the bulk run, scheduled and requested
  scans, unattended updates, service checks, the reset of a guest, and a guest added as unknown.
\<close>

inductive patch_step :: "patcher \<Rightarrow> patcher \<Rightarrow> bool" where
  s_apply: "patch_step st (snd (apply_route S q cu gid du st))"
| s_cancel: "patch_step st (snd (update_cancel cu gid st))"
| s_worker: "gid \<in> set (pt_workers st) \<Longrightarrow> patch_step st (worker_end R cancel du by gid st)"
| s_apply_all: "patch_step st (snd (apply_all q cu tag du st))"
| s_bulk_begin: "patch_step st (snd (bulk_begin S enforce gid st))"
| s_bulk_end: "gid \<in> set (pt_workers st) \<Longrightarrow> patch_step st (bulk_end R cancel du by gid st)"
| s_bulk_finish: "patch_step st (bulk_finish st)"
| s_scan: "scan_guest R g (pt_fleet st) = (res, f') \<Longrightarrow> patch_step st (st\<lparr>pt_fleet := f'\<rparr>)"
| s_auto: "patch_step st (st\<lparr>pt_fleet := snd (run_auto_updates R now (pt_fleet st))\<rparr>)"
| s_services: "check_service_statuses R g (pt_fleet st) = Some f' \<Longrightarrow> patch_step st (st\<lparr>pt_fleet := f'\<rparr>)"
| s_reset: "patch_step st (st\<lparr>pt_fleet := clear_stale_data gid (pt_fleet st)\<rparr>)"
| s_add: "pg_status g = ''unknown'' \<Longrightarrow>
    patch_step st (st\<lparr>pt_fleet := (pt_fleet st)\<lparr>f_guests := f_guests (pt_fleet st) @ [g]\<rparr>\<rparr>)"

definition no_patching :: "app \<Rightarrow> credential list \<Rightarrow> maintenance_window list \<Rightarrow> patcher" where
  "no_patching a cs ws =
     \<lparr>pt_fleet = \<lparr>f_app = a, f_guests = [], f_credentials = cs, f_windows = ws, f_updates = [], f_scans = [],
        f_history = [], f_services = [], f_ops = [], f_alerts = []\<rparr>,
      pt_jobs = [], pt_workers = [], pt_bulk = \<lparr>bu_running = False, bu_total = 0, bu_done = 0, bu_items = []\<rparr>\<rparr>"

inductive patch_reachable :: "patcher \<Rightarrow> bool" where
  pr_init: "patch_reachable (no_patching a cs ws)"
| pr_step: "patch_reachable st \<Longrightarrow> patch_step st st' \<Longrightarrow> patch_reachable st'"

section \<open>One worker per guest\<close>

definition workers_ok :: "patcher \<Rightarrow> bool" where
  "workers_ok st \<longleftrightarrow> (\<forall>m. count_list (pt_workers st) m \<le> (if job_running m (pt_jobs st) then 1 else 0))"

lemma workers_ok_reserve:
  assumes "workers_ok st" "fst (reserve_job gid (pt_jobs st))"
    and "pt_workers st' = gid # pt_workers st" "pt_jobs st' = snd (reserve_job gid (pt_jobs st))"
  shows "workers_ok st'"
  unfolding workers_ok_def assms(3,4)
proof
  fix m
  show "count_list (gid # pt_workers st) m \<le> (if job_running m (snd (reserve_job gid (pt_jobs st))) then 1 else 0)"
    using jobs.count_start[OF assms(1)[unfolded workers_ok_def] assms(2), of m] by (cases "m = gid") auto
qed

lemma workers_ok_release:
  assumes "workers_ok st" "gid \<in> set (pt_workers st)" "pt_workers st' = remove1 gid (pt_workers st)"
    and "\<And>m. job_running m (pt_jobs st') = job_running m (release_job gid (pt_jobs st))"
  shows "workers_ok st'"
proof -
  have "count_list (remove1 gid xs) m = (if m = gid then count_list xs m - 1 else count_list xs m)" for xs m
    by (induction xs) auto
  then show ?thesis
    using jobs.count_finish[of "count_list (pt_workers st) m" m "pt_jobs st" gid for m] assms(1)
    unfolding workers_ok_def assms(3,4) by simp
qed

lemma workers_ok_same:
  assumes "workers_ok st" "pt_workers st' = pt_workers st" "\<And>m. job_running m (pt_jobs st') = job_running m (pt_jobs st)"
  shows "workers_ok st'"
  using assms by (simp add: workers_ok_def)

lemma update_cancel_running: "job_running m (pt_jobs (snd (update_cancel cu gid st))) = job_running m (pt_jobs st)"
  by (auto simp: update_cancel_def Let_def job_running_def dict_simps split: option.splits)

lemma apply_route_cases:
  "snd (apply_route S q cu gid du st) = st \<and> fst (apply_route S q cu gid du st) \<noteq> Update_started \<or>
   (\<exists>g msg. get_pguest (pt_fleet st) gid = Some g \<and> may_access_guest (a_db (f_app (pt_fleet st))) cu (guest.truncate g) \<and>
      can Can_update (a_db (f_app (pt_fleet st))) cu \<and>
      snapshot_gate S (a_db (f_app (pt_fleet st))) (\<not> is_admin (a_db (f_app (pt_fleet st))) cu) g = Inr (True, msg) \<and>
      apply_route S q cu gid du st = start_update q g du st)"
  unfolding apply_route_def Let_def by (simp split: option.split sum.split prod.split)

lemma workers_ok_step: "patch_step st st' \<Longrightarrow> workers_ok st \<Longrightarrow> workers_ok st'"
proof (induction rule: patch_step.induct)
  case (s_apply st S q cu gid du)
  show ?case
    using apply_route_cases[of S q cu gid du st] s_apply
  proof (elim disjE exE conjE)
    fix g
    assume "apply_route S q cu gid du st = start_update q g du st"
    then show ?thesis using s_apply
      by (cases "job_running (g_id g) (pt_jobs st)")
        (auto simp: start_update_def reserve_job_def intro: workers_ok_reserve[of st "g_id g"])
  qed simp
next
  case (s_cancel st cu gid)
  have "pt_workers (snd (update_cancel cu gid st)) = pt_workers st"
    by (auto simp: update_cancel_def Let_def split: option.splits)
  then show ?case by (rule workers_ok_same[OF s_cancel _ update_cancel_running])
next
  case (s_worker gid st R cancel du by')
  show ?case
    by (rule workers_ok_release[OF s_worker(2,1)]) (simp_all add: worker_end_def Let_def background_jobs)
next
  case (s_apply_all st q cu tag du)
  then show ?case by (rule workers_ok_same) (simp_all add: apply_all_def Let_def)
next
  case (s_bulk_begin st S enforce gid)
  show ?case
  proof (cases "fst (bulk_begin S enforce gid st)")
    case True
    then have "fst (reserve_job gid (pt_jobs st))" "pt_workers (snd (bulk_begin S enforce gid st)) = gid # pt_workers st"
      "pt_jobs (snd (bulk_begin S enforce gid st)) = snd (reserve_job gid (pt_jobs st))"
      by (auto simp: bulk_begin_def Let_def split: option.splits prod.splits if_splits)
    then show ?thesis by (rule workers_ok_reserve[OF s_bulk_begin])
  next
    case False
    then have "pt_workers (snd (bulk_begin S enforce gid st)) = pt_workers st" "pt_jobs (snd (bulk_begin S enforce gid st)) = pt_jobs st"
      by (auto simp: bulk_begin_def Let_def split: option.splits prod.splits if_splits)
    then show ?thesis using s_bulk_begin by (simp add: workers_ok_def)
  qed
next
  case (s_bulk_end gid st R cancel du by')
  show ?case
    by (rule workers_ok_release[OF s_bulk_end(2,1)])
      (simp_all add: bulk_end_def Let_def jobs.release_locked background_jobs)
qed (simp_all add: workers_ok_def bulk_finish_def)


lemma workers_ok_reachable: "patch_reachable st \<Longrightarrow> workers_ok st"
  by (induction rule: patch_reachable.induct) (auto intro: workers_ok_step, simp add: workers_ok_def no_patching_def)

lemma workers_ok_count:
  assumes "workers_ok st"
  shows "count_list (pt_workers st) m \<le> 1" "\<not> job_running m (pt_jobs st) \<Longrightarrow> count_list (pt_workers st) m = 0"
  using spec[OF assms[unfolded workers_ok_def], of m] by (auto split: if_splits)

section \<open>Who can start an update\<close>

text \<open>
  C5. In every reachable state a guest has at most one worker, however single updates, bulk updates,
  cancellations and scans interleave; and the update route starts one only for an existing guest the
  user may access, with the update permission, with the snapshot taken that a non-administrator
  needs, and only when none is running. Otherwise it changes nothing.
\<close>

theorem update_route_guarded:
  assumes "patch_reachable st" "apply_route S q cu gid du st = (r, st')"
  shows "count_list (pt_workers st') gid \<le> 1 \<and>
    (r \<noteq> Update_started \<longrightarrow> st' = st) \<and>
    (r = Update_started \<longrightarrow> count_list (pt_workers st) gid = 0 \<and> pt_workers st' = gid # pt_workers st \<and>
      (\<exists>g. get_pguest (pt_fleet st) gid = Some g \<and> may_access_guest (a_db (f_app (pt_fleet st))) cu (guest.truncate g) \<and>
         can Can_update (a_db (f_app (pt_fleet st))) cu \<and>
         (is_admin (a_db (f_app (pt_fleet st))) cu \<or> \<not> guest_requires_snapshot (a_db (f_app (pt_fleet st))) g \<or>
          (\<exists>msg. auto_snapshot_if_needed S g = Inr (True, msg))) \<and>
         d_audit (a_db (f_app (pt_fleet st'))) = d_audit (a_db (f_app (pt_fleet st))) @
           [audit_row q (entry ''guest_update'' ''guest'' (Some gid) (Some (g_name g)) (JDict [(''dist_upgrade'', JBool du)]))]))"
proof -
  have "patch_step st st'" using s_apply[of st S q cu gid du] assms(2) by simp
  then have ok: "workers_ok st" "workers_ok st'" using workers_ok_reachable[OF assms(1)] workers_ok_step by blast+
  have one: "count_list (pt_workers st') gid \<le> 1"
    by (rule workers_ok_count(1)[OF ok(2)])
  show ?thesis
  proof (cases "r = Update_started")
    case True
    then obtain g msg where g: "get_pguest (pt_fleet st) gid = Some g"
      "may_access_guest (a_db (f_app (pt_fleet st))) cu (guest.truncate g)" "can Can_update (a_db (f_app (pt_fleet st))) cu"
      "snapshot_gate S (a_db (f_app (pt_fleet st))) (\<not> is_admin (a_db (f_app (pt_fleet st))) cu) g = Inr (True, msg)"
      "start_update q g du st = (Update_started, st')"
      using apply_route_cases[of S q cu gid du st] assms(2) by auto
    have id: "g_id g = gid" using g(1) by (auto simp: get_pguest_def dest: first_row_Some)
    have free: "\<not> job_running gid (pt_jobs st)" and st': "pt_workers st' = gid # pt_workers st"
      "d_audit (a_db (f_app (pt_fleet st'))) = d_audit (a_db (f_app (pt_fleet st))) @
           [audit_row q (entry ''guest_update'' ''guest'' (Some gid) (Some (g_name g)) (JDict [(''dist_upgrade'', JBool du)]))]"
      using g(5) id by (auto simp: start_update_def reserve_job_def split: if_splits)
    have "count_list (pt_workers st) gid = 0" by (rule workers_ok_count(2)[OF ok(1) free])
    then show ?thesis using True one g(1-4) st' by (auto simp: snapshot_gate_def split: if_splits)
  next
    case False
    have "start_update q g du st = (r, st') \<Longrightarrow> st' = st" for g
      using False by (auto simp: start_update_def split: prod.splits if_splits)
    then show ?thesis using apply_route_cases[of S q cu gid du st] assms(2) False one by auto
  qed
qed

text \<open>An administrator, the guest of the samples, and Proxmox answering nothing.\<close>

definition sample_patcher :: patcher where
  "sample_patcher = (let st = no_patching \<lparr>a_db = seeded_db, a_hub = []\<rparr> (f_credentials sample_fleet) (f_windows sample_fleet)
     in st\<lparr>pt_fleet := (pt_fleet st)\<lparr>f_guests := f_guests (pt_fleet st) @ [sample_guest]\<rparr>\<rparr>)"

definition sample_snapper :: snapper where
  "sample_snapper = \<lparr>sn_node = \<lambda>_. Inr [], sn_list = \<lambda>_. Inr [], sn_create = \<lambda>_. Inr (False, []), sn_now = 0\<rparr>"

definition sample_request :: req_ctx where
  "sample_request = \<lparr>q_in_request = True, q_user = Some (hd (d_users seeded_db)), q_client_ip = None, q_ts = []\<rparr>"

lemma sample_reachable: "patch_reachable sample_patcher"
  unfolding sample_patcher_def Let_def
  by (rule pr_step[OF pr_init s_add]) (simp add: sample_guest_def)

definition sample_started :: "apply_result \<times> patcher" where
  "sample_started = apply_route sample_snapper sample_request (hd (d_users seeded_db)) 1 False sample_patcher"

theorem update_route_guarded_witness:
  "fst sample_started = Update_started \<and> pt_workers (snd sample_started) = [1]"
proof -
  have ok: "fst sample_started = Update_started" by code_simp
  moreover have "pt_workers sample_patcher = []" by (simp add: sample_patcher_def no_patching_def Let_def)
  ultimately show ?thesis
    using update_route_guarded[OF sample_reachable prod.collapse[symmetric],
        of sample_snapper sample_request "hd (d_users seeded_db)" 1 False]
    unfolding sample_started_def[symmetric] by simp
qed

section \<open>Status and pending rows agree in every reachable state\<close>

lemma status_ok_simps [simp]:
  "status_ok (f\<lparr>f_ops := x\<rparr>) = status_ok f" "status_ok (f\<lparr>f_app := a\<rparr>) = status_ok f"
  "status_ok (f\<lparr>f_history := h\<rparr>) = status_ok f" "status_ok (add_alert al f) = status_ok f"
  by (simp_all add: status_ok_def pending_updates_def add_alert_def)

lemma w_snd [simp]: "snd (wlog t w) = snd w" "snd (wfinish ok w) = snd w"
  by (simp_all add: wlog_def wfinish_def)

lemma wstream_fleet: "wstream cancel op ans w = (r, j, f) \<Longrightarrow> status_ok f = status_ok (snd w)"
  by (auto simp: wstream_def Let_def split: prod.splits)

lemma perform_status_ok: "perform op ans f = (r, f') \<Longrightarrow> status_ok f' = status_ok f"
  by (auto simp: perform_def Let_def)

lemma reboot_flag_status_ok: "status_ok (set_guest i (\<lambda>r. r\<lparr>pg_reboot_required := h r\<rparr>) f) = status_ok f"
proof -
  have "map (\<lambda>r. (g_id r, pg_status r)) (f_guests (set_guest i (\<lambda>r. r\<lparr>pg_reboot_required := h r\<rparr>) f)) =
      map (\<lambda>r. (g_id r, pg_status r)) (f_guests f)" by (simp add: update_rows_def)
  then show ?thesis using same_status_ok[of f "set_guest i (\<lambda>r. r\<lparr>pg_reboot_required := h r\<rparr>) f"]
      same_status_ok[of "set_guest i (\<lambda>r. r\<lparr>pg_reboot_required := h r\<rparr>) f" f] by auto
qed

lemma check_reboot_status_ok: "status_ok f \<Longrightarrow> status_ok (check_reboot_required R g f)"
  using check_reboot_effect[of g f R] by (auto simp: reboot_flag_status_ok intro: quiet_status_ok)

lemma mark_all_applied_status_ok:
  assumes "status_ok f"
  shows "status_ok (mark_all_applied g now f)"
proof -
  let ?f' = "mark_all_applied g now f"
  have upd: "f_updates ?f' = map (\<lambda>u. if is_pending (g_id g) u then u\<lparr>up_status := ''applied'', up_applied_at := Some now\<rparr> else u) (f_updates f)"
    by (simp add: mark_all_applied_def update_rows_def)
  have own: "pending_updates ?f' (g_id g) = []"
    unfolding pending_updates_def upd by (auto simp: filter_empty_conv is_pending_def)
  have "filter (is_pending i) (map (\<lambda>u. if is_pending gid u then u\<lparr>up_status := ''applied'', up_applied_at := Some now\<rparr> else u) us) =
      filter (is_pending i) us" if "i \<noteq> gid" for i gid us
    using that by (induction us) (auto simp: is_pending_def)
  then have "pending_updates ?f' i = pending_updates f i" if "i \<noteq> g_id g" for i
    using that by (simp add: pending_updates_def upd)
  then show ?thesis using assms own
    by (auto simp: status_ok_def mark_all_applied_def update_rows_def split: if_splits)
qed

lemma complete_update_status_ok: "status_ok f \<Longrightarrow> status_ok (complete_update R g by f)"
  by (simp add: complete_update_def Let_def record_update_history_def mark_all_applied_status_ok split: prod.split)

lemma ssh_upgrade_status_ok:
  assumes "ssh_upgrade R cancel g c cmd by w = (how, j, f)" "status_ok (snd w)"
  shows "status_ok f"
  using assms unfolding ssh_upgrade_def ssh_execute_sudo_def Let_def
  by (auto split: sum.splits prod.splits if_splits option.splits
      simp: wfinish_def wlog_def reboot_flag_status_ok
      dest!: wstream_fleet perform_status_ok intro!: complete_update_status_ok)

lemma ssh_update_status_ok:
  assumes "ssh_update R cancel g c cmd by w = (how, j, f)" "status_ok (snd w)"
  shows "status_ok f"
  using assms unfolding ssh_update_def ssh_open_def Let_def
  by (auto split: sum.splits prod.splits if_splits option.splits
      simp: wfinish_def wlog_def dest!: wstream_fleet perform_status_ok ssh_upgrade_status_ok)

lemma agent_update_status_ok:
  assumes "agent_update R cancel g host cmd by w = (j, f)" "status_ok (snd w)"
  shows "status_ok f"
  using assms unfolding agent_update_def get_all_guests_def Let_def
  by (auto split: sum.splits prod.splits if_splits
      simp: wfinish_def wlog_def dest!: wstream_fleet perform_status_ok
      intro!: complete_update_status_ok check_reboot_status_ok)

lemma run_update_status_ok:
  assumes "run_update R cancel g du by w = (j, f)" "status_ok (snd w)"
  shows "status_ok f"
  using assms unfolding run_update_def Let_def
  by (auto split: option.splits prod.splits attempt.splits if_splits
      simp: wfinish_def wlog_def dest!: ssh_update_status_ok agent_update_status_ok)

lemma background_status_ok:
  "status_ok (pt_fleet st) \<Longrightarrow> status_ok (pt_fleet (run_update_background R cancel gid du by st))"
  by (auto simp: run_update_background_def Let_def dest: run_update_status_ok split: option.splits prod.splits)

lemma auto_guest_status_ok:
  assumes "auto_update_guest R now g acc f = (r, f')" "status_ok f"
  shows "status_ok f'"
  using assms unfolding auto_update_guest_def Let_def
  by (auto simp: record_update_history_def Let_def dest: apply_updates_status_ok
      split: option.splits sum.splits prod.splits if_splits bool.splits)

lemma auto_loop_status_ok:
  "auto_update_loop R now gs acc f = (r, f') \<Longrightarrow> status_ok f \<Longrightarrow> status_ok f'"
  by (induction gs arbitrary: acc f) (auto dest: auto_guest_status_ok split: prod.splits sum.splits)

lemma auto_updates_status_ok: "status_ok f \<Longrightarrow> status_ok (snd (run_auto_updates R now f))"
  by (auto simp: run_auto_updates_def dest: auto_loop_status_ok split: prod.splits sum.splits)

lemma check_services_aside:
  assumes "check_service_statuses R g f = Some f'"
  shows "\<exists>P. aside P f f'"
proof -
  define cmd where "cmd = ''systemctl is-active '' @ py_join '' '' (map gs_unit_name (services_of f (g_id g))) @ '' 2>/dev/null''"
  obtain r f1 where ex: "execute_command R g cmd 60 False f = (r, f1)" by (cases "execute_command R g cmd 60 False f") auto
  have a1: "aside (op_within g (ways cmd)) f f1"
    using execute_command_quiet[of g cmd f R 60 False] by (simp add: ex aside_quiet)
  have folds: "aside P h (fold (\<lambda>(i, s). set_service (gs_id s) (k i)) xs h)"
    "aside P h (fold (\<lambda>(i, s). notify_service_transition g (gs_service_name s) (gs_unit_name s) (Some (gs_status s)) (n i)) ys h)"
    for P h k xs n ys by (rule aside_fold, auto simp: aside_local notify_aside)+
  show ?thesis
    using assms a1 unfolding check_service_statuses_def Let_def cmd_def[symmetric] ex
    by (auto split: if_splits prod.splits intro!: exI[of _ "op_within g (ways cmd)"] intro: aside_trans[OF aside_trans[OF a1 folds(1)] folds(2)])
qed

lemma patch_step_status_ok: "patch_step st st' \<Longrightarrow> status_ok (pt_fleet st) \<Longrightarrow> status_ok (pt_fleet st')"
proof (induction rule: patch_step.induct)
  case (s_apply st S q cu gid du)
  have "status_ok (pt_fleet (snd (start_update q g du st)))" for g
    using s_apply by (simp add: start_update_def split: prod.split)
  then show ?case using apply_route_cases[of S q cu gid du st] s_apply by auto
next
  case (s_cancel st cu gid)
  then show ?case by (simp add: update_cancel_def Let_def split: option.split)
next
  case (s_bulk_begin st S enforce gid)
  then show ?case by (simp add: bulk_begin_def Let_def split: option.split prod.split)
next
  case (s_services R g st f')
  then show ?case using check_services_aside aside_status_ok by fastforce
next
  case (s_add g st)
  then show ?case by (simp add: status_ok_def pending_updates_def)
qed (simp_all add: worker_end_def bulk_end_def apply_all_def bulk_finish_def Let_def background_status_ok
      scan_guest_status_ok auto_updates_status_ok clear_stale_status_ok)

text \<open>
  C17. The status shown for a guest agrees with its pending updates in every state that scans, updates
  by hand, in bulk and unattended, service checks and resets can reach in any order: a guest marked
  as up to date has no pending update, and one marked as having updates has at least one.
\<close>

theorem status_reflects_pending:
  assumes "patch_reachable st" "g \<in> set (f_guests (pt_fleet st))"
  shows "(pg_status g = ''up-to-date'' \<longrightarrow> pending_updates (pt_fleet st) (g_id g) = []) \<and>
         (pg_status g = ''updates-available'' \<longrightarrow> pending_updates (pt_fleet st) (g_id g) \<noteq> [])"
proof -
  have "status_ok (pt_fleet st)"
    using assms(1) by (induction rule: patch_reachable.induct)
      (simp add: no_patching_def status_ok_def, rule patch_step_status_ok)
  then show ?thesis using assms(2) by (simp add: status_ok_def)
qed

theorem status_reflects_pending_witness:
  "map pg_status (f_guests (pt_fleet (worker_end sample_remote (\<lambda>_. False) False None 1 (snd sample_started)))) = [''up-to-date''] \<and>
   pending_updates (pt_fleet (worker_end sample_remote (\<lambda>_. False) False None 1 (snd sample_started))) 1 = []"
proof -
  let ?st = "worker_end sample_remote (\<lambda>_. False) False None 1 (snd sample_started)"
  have "patch_reachable (snd sample_started)"
    unfolding sample_started_def by (rule pr_step[OF sample_reachable s_apply])
  moreover have "1 \<in> set (pt_workers (snd sample_started))" by code_simp
  ultimately have reach: "patch_reachable ?st" by (rule pr_step[OF _ s_worker])
  have st: "map (\<lambda>g. (g_id g, pg_status g)) (f_guests (pt_fleet ?st)) = [(1, ''up-to-date'')]" by code_simp
  then obtain g where g: "f_guests (pt_fleet ?st) = [g]" "g_id g = 1" "pg_status g = ''up-to-date''" by auto
  then show ?thesis using status_reflects_pending[OF reach, of g] by simp
qed

end
