(* ===== verification/Mastodon_Client.thy ===== *)
theory Mastodon_Client
  imports Patching Regex
begin

text \<open>
  The client of the Mastodon Admin API and of the welcome bot (\<^verbatim>\<open>src/core/mastodon_admin.py\<close>):
  requests and their errors, rate limits, pagination, the summaries of the entities an instance
  returns, and the rendering of direct messages.

  The instance is a parameter: \<open>wb_http\<close> answers each request from the sequence of requests made so
  far (the last one is the one to be answered), so an instance may answer in any way, also in a
  hostile one. An entity has the documented fields; a field that is absent is \<^term>\<open>None\<close> or empty, and
  an object of another shape reads as one without the fields. The summaries keep the fields the program
  reads again; the ones it only shows (avatars, counts, notes, the list of addresses) are left out. \<^verbatim>\<open>datetime.fromisoformat\<close>,
  \<^verbatim>\<open>isoformat\<close>, \<^verbatim>\<open>html.unescape\<close>, \<^verbatim>\<open>json.dumps\<close> and \<^verbatim>\<open>str.format_map\<close> are fields of the same
  parameter; the theorems hold for every choice of them. The requests and the rate limits last seen
  are a record that the users of the client extend with their own tables.
\<close>

section \<open>Entities\<close>

text \<open>The \<^verbatim>\<open>role\<close> of an account: absent, a plain name, or an object with permissions and a name.\<close>

datatype role_field = No_Role | Role_Name string | Role_Obj "string option" string

record pub_account =
  pa_id :: "string option"
  pa_acct :: string
  pa_display_name :: string
  pa_url :: string
  pa_role :: role_field
  pa_statuses_count :: "int option"

record adm_account =
  ad_id :: "string option"
  ad_username :: string
  ad_domain :: "string option"
  ad_created_at :: string
  ad_suspended :: bool
  ad_role :: role_field
  ad_ip :: string
  ad_ips :: "string option list"
  ad_account :: pub_account

record status_entity =
  se_id :: "string option"
  se_url :: "string option"
  se_uri :: string
  se_content :: string
  se_account_acct :: "string option"

record report_entity =
  re_id :: "string option"
  re_action_taken :: bool
  re_target :: adm_account
  re_statuses :: "status_entity list"

record domain_block =
  db_id :: "string option"
  db_domain :: string
  db_severity :: string
  db_reject_media :: bool
  db_reject_reports :: bool
  db_obfuscate :: bool
  db_public_comment :: string
  db_private_comment :: string

datatype item =
    It_Account adm_account
  | It_Public pub_account
  | It_Status status_entity
  | It_Report report_entity
  | It_Block domain_block
  | It_Json json

datatype payload = P_List "item list" | P_Item item

definition no_public :: pub_account where
  "no_public = \<lparr>pa_id = None, pa_acct = [], pa_display_name = [], pa_url = [], pa_role = No_Role,
     pa_statuses_count = None\<rparr>"

definition no_account :: adm_account where
  "no_account = \<lparr>ad_id = None, ad_username = [], ad_domain = None, ad_created_at = [], ad_suspended = False,
     ad_role = No_Role, ad_ip = [], ad_ips = [], ad_account = no_public\<rparr>"

definition no_status :: status_entity where
  "no_status = \<lparr>se_id = None, se_url = None, se_uri = [], se_content = [], se_account_acct = None\<rparr>"

definition no_report :: report_entity where
  "no_report = \<lparr>re_id = None, re_action_taken = False, re_target = no_account, re_statuses = []\<rparr>"

definition no_block :: domain_block where
  "no_block = \<lparr>db_id = None, db_domain = [], db_severity = [], db_reject_media = False,
     db_reject_reports = False, db_obfuscate = False, db_public_comment = [], db_private_comment = []\<rparr>"

definition as_account :: "item \<Rightarrow> adm_account" where
  "as_account i = (case i of It_Account a \<Rightarrow> a | _ \<Rightarrow> no_account)"

definition as_public :: "item \<Rightarrow> pub_account" where
  "as_public i = (case i of It_Public a \<Rightarrow> a | _ \<Rightarrow> no_public)"

definition as_status :: "item \<Rightarrow> status_entity" where
  "as_status i = (case i of It_Status s \<Rightarrow> s | _ \<Rightarrow> no_status)"

definition as_report :: "item \<Rightarrow> report_entity" where
  "as_report i = (case i of It_Report r \<Rightarrow> r | _ \<Rightarrow> no_report)"

definition as_block :: "item \<Rightarrow> domain_block" where
  "as_block i = (case i of It_Block b \<Rightarrow> b | _ \<Rightarrow> no_block)"

text \<open>The object a client method works on: a list where an object is expected has no fields.\<close>

definition the_item :: "payload \<Rightarrow> item" where
  "the_item p = (case p of P_Item i \<Rightarrow> i | P_List _ \<Rightarrow> It_Json JNull)"

section \<open>Requests and answers\<close>

datatype client_kind = Admin_Client | Bot_Client

record client =
  cl_kind :: client_kind
  cl_api_url :: string
  cl_token :: string

record http_request =
  hr_method :: string
  hr_url :: string
  hr_token :: string
  hr_body :: "json option"
  hr_key :: "string option"

record headers =
  h_link :: string
  h_limit :: "string option"
  h_remaining :: "string option"
  h_reset :: "string option"
  h_retry_after :: "string option"

text \<open>
  What the transport yields: a body that is JSON, an empty one or one that is no JSON; an HTTP error
  (every 3xx is one, since redirects are not followed) with its code and the error text its body
  yields; a failure of the connection.
\<close>

datatype http_answer =
    Json_Answer payload headers
  | Empty_Answer headers
  | Text_Answer headers
  | Error_Answer nat string headers
  | Transport_Failure exn

record rate_limit =
  rl_limit :: "int option"
  rl_remaining :: "int option"
  rl_reset_at :: "usec option"

record web =
  wb_http :: "http_request list \<Rightarrow> http_answer"
  wb_now :: "http_request list \<Rightarrow> usec"
  wb_fromiso :: "string \<Rightarrow> usec option"
  wb_isoformat :: "usec \<Rightarrow> string"
  wb_isodate :: "string \<Rightarrow> string"
  wb_unescape :: "string \<Rightarrow> string"
  wb_dumps :: "json \<Rightarrow> string"
  wb_format :: "string \<Rightarrow> (string \<times> string) list \<Rightarrow> string option"

record net =
  n_reqs :: "http_request list"
  n_rate :: "client_kind \<Rightarrow> rate_limit option"

text \<open>\<^verbatim>\<open>MastodonAPIError\<close> with message, status and delay; \<^verbatim>\<open>ValueError\<close>, which the poll does not catch.\<close>

datatype mexn = Api_Error string "nat option" "int option" | Value_Error string

type_synonym ('x, 'a) mio = "(mexn, 'x net_scheme, 'a) run"

definition rstrip_char :: "char \<Rightarrow> string \<Rightarrow> string" where
  "rstrip_char c s = rev (dropWhile (\<lambda>d. d = c) (rev s))"

definition lstrip_char :: "char \<Rightarrow> string \<Rightarrow> string" where
  "lstrip_char c s = dropWhile (\<lambda>d. d = c) s"

definition new_client :: "client_kind \<Rightarrow> string \<Rightarrow> string \<Rightarrow> client" where
  "new_client k api_url secret =
     \<lparr>cl_kind = k, cl_api_url = rstrip_char CHR ''/'' api_url, cl_token = secret\<rparr>"

definition parse_iso :: "web \<Rightarrow> string \<Rightarrow> usec option" where
  "parse_iso W value =
     (if value = [] then None
      else let text = py_strip value in
           wb_fromiso W (if text \<noteq> [] \<and> last text = CHR ''Z'' then butlast text @ ''+00:00'' else text))"

definition parse_rate_limit_headers :: "web \<Rightarrow> headers \<Rightarrow> rate_limit" where
  "parse_rate_limit_headers W h =
     \<lparr>rl_limit = Option.bind (h_limit h) (\<lambda>s. py_int (py_strip s)),
      rl_remaining = Option.bind (h_remaining h) (\<lambda>s. py_int (py_strip s)),
      rl_reset_at = Option.bind (h_reset h) (parse_iso W)\<rparr>"

text \<open>\<^verbatim>\<open>urllib.parse.urlencode\<close>: UTF-8, blanks as plus signs.\<close>

definition hex_digit :: "nat \<Rightarrow> char" where
  "hex_digit n = (if n < 10 then char_of (48 + n) else char_of (55 + n))"

definition quote_char :: "char \<Rightarrow> string" where
  "quote_char c =
     (if ascii_alnum c \<or> List.member ''_.-~'' c then [c]
      else if c = CHR '' '' then ''+''
      else concat (map (\<lambda>n. [CHR ''%'', hex_digit (n div 16), hex_digit (n mod 16)]) (utf8 [c])))"

definition quote_plus :: "string \<Rightarrow> string" where
  "quote_plus s = concat (map quote_char s)"

type_synonym params = "(string \<times> string option) list"

definition urlencode :: "(string \<times> string) list \<Rightarrow> string" where
  "urlencode ps = py_join ''&'' (map (\<lambda>(k, v). quote_plus k @ ''='' @ quote_plus v) ps)"

definition given_params :: "params \<Rightarrow> (string \<times> string) list" where
  "given_params ps = List.map_filter (\<lambda>(k, v). case v of None \<Rightarrow> None | Some [] \<Rightarrow> None | Some s \<Rightarrow> Some (k, s)) ps"

definition base_url :: "client \<Rightarrow> string \<Rightarrow> mexn + string" where
  "base_url c path =
     (if startswith path ''http://'' \<or> startswith path ''https://'' then
        if startswith path (cl_api_url c @ ''/'') then Inr path
        else Inl (Api_Error ''Refusing to follow a pagination link to a different host'' None None)
      else Inr (cl_api_url c @ path))"

definition with_params :: "string \<Rightarrow> params \<Rightarrow> string" where
  "with_params url ps =
     (if ps = [] then url
      else url @ (if List.member url CHR ''?'' then ''&'' else ''?'') @ urlencode (given_params ps))"

section \<open>Errors and rate limits\<close>

definition http_hint :: "nat \<Rightarrow> string" where
  "http_hint st =
     (if st = 401 then ''token rejected''
      else if st = 403 then ''forbidden (token scope, account role, or an upstream firewall)''
      else if st = 404 then ''not found''
      else if st = 422 then ''request rejected''
      else if st = 429 then ''rate limited by Mastodon; try again shortly''
      else [])"

definition describe_http_error :: "nat \<Rightarrow> string \<Rightarrow> string" where
  "describe_http_error st detail =
     (let base = ''Mastodon API returned HTTP '' @ nat_digits st;
          more = filter (\<lambda>p. p \<noteq> []) [http_hint st, detail]
      in if more = [] then base else base @ '': '' @ py_join '' - '' more)"

definition budget_ok :: "client \<Rightarrow> int \<Rightarrow> 'x net_scheme \<Rightarrow> bool" where
  "budget_ok c reserve s =
     (case n_rate s (cl_kind c) of
        None \<Rightarrow> True
      | Some rl \<Rightarrow> (case rl_remaining rl of None \<Rightarrow> True | Some r \<Rightarrow> r \<ge> reserve))"

definition retry_after :: "rate_limit \<Rightarrow> usec \<Rightarrow> int option" where
  "retry_after rl now = map_option (\<lambda>t. max 0 ((t - now) div 1000000)) (rl_reset_at rl)"

definition error_delay :: "web \<Rightarrow> nat \<Rightarrow> headers \<Rightarrow> usec \<Rightarrow> int option" where
  "error_delay W st h now =
     (if st = 429 then
        (case Option.bind (h_retry_after h) (\<lambda>s. py_int (py_strip s)) of
           Some n \<Rightarrow> Some (max 0 n)
         | None \<Rightarrow> retry_after (parse_rate_limit_headers W h) now)
      else None)"

definition set_rate :: "client \<Rightarrow> rate_limit \<Rightarrow> 'x net_scheme \<Rightarrow> 'x net_scheme" where
  "set_rate c rl s = s\<lparr>n_rate := (n_rate s)(cl_kind c := Some rl)\<rparr>"

section \<open>One request\<close>

definition no_headers :: headers where
  "no_headers = \<lparr>h_link = [], h_limit = None, h_remaining = None, h_reset = None, h_retry_after = None\<rparr>"

text \<open>\<^verbatim>\<open>core/url_safety.py\<close>\<close>

definition is_redirect :: "nat \<Rightarrow> bool" where
  "is_redirect st \<longleftrightarrow> 300 \<le> st \<and> st < 400"

definition receive :: "web \<Rightarrow> client \<Rightarrow> http_answer \<Rightarrow> ('x, payload \<times> headers) mio" where
  "receive W c ans s =
     (case ans of
        Json_Answer p h \<Rightarrow> (Inr (p, h), set_rate c (parse_rate_limit_headers W h) s)
      | Empty_Answer h \<Rightarrow> (Inr (P_Item (It_Json (JDict [])), h), set_rate c (parse_rate_limit_headers W h) s)
      | Text_Answer h \<Rightarrow>
          (Inl (Api_Error ''Mastodon API returned a non-JSON response'' None None),
           set_rate c (parse_rate_limit_headers W h) s)
      | Error_Answer st detail h \<Rightarrow>
          if is_redirect st then
            (Inl (Api_Error (''Mastodon API answered with a redirect (HTTP '' @ nat_digits st @
                   ''); not following it. Check the configured API URL.'') None None), s)
          else
            (Inl (Api_Error (describe_http_error st detail) (Some st)
                   (error_delay W st h (wb_now W (n_reqs s)))),
             set_rate c (parse_rate_limit_headers W h) s)
      | Transport_Failure e \<Rightarrow>
          (Inl (Api_Error (''Mastodon API request failed: '' @ describe_exception e) None None), s))"

definition request ::
  "web \<Rightarrow> client \<Rightarrow> string \<Rightarrow> string \<Rightarrow> params \<Rightarrow> json option \<Rightarrow> string option \<Rightarrow> ('x, payload \<times> headers) mio" where
  "request W c method path ps body key s =
     (case base_url c path of
        Inl e \<Rightarrow> (Inl e, s)
      | Inr url \<Rightarrow>
          let r = \<lparr>hr_method = method, hr_url = with_params url ps, hr_token = cl_token c,
                   hr_body = body, hr_key = key\<rparr>;
              reqs = n_reqs s @ [r]
          in receive W c (wb_http W reqs) (s\<lparr>n_reqs := reqs\<rparr>))"

definition get :: "web \<Rightarrow> client \<Rightarrow> string \<Rightarrow> params \<Rightarrow> ('x, payload \<times> headers) mio" where
  "get W c path ps = request W c ''GET'' path ps None None"

section \<open>Pagination\<close>

text \<open>The first match of \<^verbatim>\<open><([^>]+)>;\s*rel="next"\<close> in a \<^verbatim>\<open>Link\<close> header.\<close>

definition REL_NEXT :: string where
  "REL_NEXT = ''rel='' @ [CHR 0x22] @ ''next'' @ [CHR 0x22]"

definition link_at :: "string \<Rightarrow> string option" where
  "link_at cs =
     (let u = takeWhile (\<lambda>c. c \<noteq> CHR ''>'') cs; rest = dropWhile (\<lambda>c. c \<noteq> CHR ''>'') cs
      in if u \<noteq> [] \<and> startswith rest ''>;'' \<and> startswith (py_lstrip (drop 2 rest)) REL_NEXT
         then Some u else None)"

fun link_next :: "string \<Rightarrow> string option" where
  "link_next [] = None"
| "link_next (c # cs) =
     (if c = CHR ''<'' then (case link_at cs of Some u \<Rightarrow> Some u | None \<Rightarrow> link_next cs)
      else link_next cs)"

definition MAX_PAGES :: nat where "MAX_PAGES = 5"
definition PAGE_SIZE :: string where "PAGE_SIZE = ''100''"

definition list_error :: mexn where
  "list_error = Api_Error ''Mastodon API returned an unexpected payload for a list endpoint'' None None"

text \<open>
  The generator together with the loop that consumes it: \<open>k\<close> takes a page and says whether the
  consumer stops. The first argument is the number of pages still allowed.
\<close>

fun iter_pages ::
  "nat \<Rightarrow> web \<Rightarrow> client \<Rightarrow> string \<Rightarrow> params \<Rightarrow> ('s \<Rightarrow> item list \<Rightarrow> bool \<times> 's) \<Rightarrow> 's \<Rightarrow> ('x, 's) mio" where
  "iter_pages 0 W c next_url ps k acc = rreturn acc"
| "iter_pages (Suc n) W c next_url ps k acc =
     rbind (get W c next_url ps) (\<lambda>(data, h).
       case data of
         P_Item _ \<Rightarrow> rraise list_error
       | P_List xs \<Rightarrow>
           (let (stop, acc') = k acc xs in
            if stop then rreturn acc'
            else case link_next (h_link h) of
                   None \<Rightarrow> rreturn acc'
                 | Some u \<Rightarrow> if xs = [] then rreturn acc' else iter_pages n W c u [] k acc'))"

definition with_limit :: "params \<Rightarrow> params" where
  "with_limit ps = (if ''limit'' \<in> fst ` set ps then ps else ps @ [(''limit'', Some PAGE_SIZE)])"

definition get_all :: "web \<Rightarrow> client \<Rightarrow> string \<Rightarrow> params \<Rightarrow> nat \<Rightarrow> ('x, item list) mio" where
  "get_all W c path ps max_pages =
     iter_pages max_pages W c path (with_limit ps) (\<lambda>items page. (False, items @ page)) []"

section \<open>Summaries\<close>

unbundle bit_operations_syntax

definition ROLE_INVITE_USERS_BIT :: int where "ROLE_INVITE_USERS_BIT = 65536"

definition LEGACY_STAFF_ROLE_NAMES :: "string list" where
  "LEGACY_STAFF_ROLE_NAMES = [''admin'', ''owner'', ''moderator'']"

definition is_staff_role :: "role_field \<Rightarrow> bool" where
  "is_staff_role role =
     (case role of
        No_Role \<Rightarrow> False
      | Role_Name s \<Rightarrow> List.member LEGACY_STAFF_ROLE_NAMES (py_lower (py_strip s))
      | Role_Obj permissions name \<Rightarrow>
          (case Option.bind permissions py_int of
             Some perms \<Rightarrow> perms AND NOT ROLE_INVITE_USERS_BIT \<noteq> 0
           | None \<Rightarrow> py_strip name \<noteq> [] \<and> py_lower (py_strip name) \<noteq> ''user''))"

definition mastodon_role_name :: "role_field \<Rightarrow> string" where
  "mastodon_role_name role = (case role of No_Role \<Rightarrow> [] | Role_Name s \<Rightarrow> s | Role_Obj _ name \<Rightarrow> name)"

record adm_summary =
  as_id :: "string option"
  as_acct :: string
  as_username :: string
  as_domain :: "string option"
  as_suspended :: bool
  as_role_name :: string
  as_is_staff :: bool
  as_ip :: string

definition summarize_admin_account :: "adm_account \<Rightarrow> adm_summary" where
  "summarize_admin_account a =
     \<lparr>as_id = (if opt_str (ad_id a) \<noteq> [] then ad_id a else pa_id (ad_account a)),
      as_acct = (if pa_acct (ad_account a) \<noteq> [] then pa_acct (ad_account a)
                 else ad_username a @ (if opt_str (ad_domain a) \<noteq> [] then ''@'' @ opt_str (ad_domain a) else [])),
      as_username = ad_username a, as_domain = ad_domain a, as_suspended = ad_suspended a,
      as_role_name = mastodon_role_name (ad_role a), as_is_staff = is_staff_role (ad_role a), as_ip = ad_ip a\<rparr>"

text \<open>\<^verbatim>\<open>strip_html\<close>: every \<^verbatim>\<open><[^>]+>\<close> becomes a blank, entities are unescaped, white space collapses.\<close>

function strip_tags :: "string \<Rightarrow> string" where
  "strip_tags [] = []"
| "strip_tags (c # cs) =
     (let u = takeWhile (\<lambda>d. d \<noteq> CHR ''>'') cs; rest = dropWhile (\<lambda>d. d \<noteq> CHR ''>'') cs in
      if c = CHR ''<'' \<and> u \<noteq> [] \<and> rest \<noteq> [] then CHR '' '' # strip_tags (tl rest)
      else c # strip_tags cs)"
  by pat_completeness auto
termination
  by (relation "measure length")
     (auto simp: less_Suc_eq_le intro: le_trans[OF diff_le_self length_dropWhile_le])

definition strip_html :: "web \<Rightarrow> string \<Rightarrow> string" where
  "strip_html W text = (if text = [] then [] else py_join '' '' (py_words (wb_unescape W (strip_tags text))))"

definition STATUS_EXCERPT_LEN :: nat where "STATUS_EXCERPT_LEN = 300"

record status =
  st_id :: "string option"
  st_url :: string
  st_excerpt :: string
  st_account_acct :: "string option"

definition summarize_status :: "web \<Rightarrow> status_entity \<Rightarrow> status" where
  "summarize_status W e =
     \<lparr>st_id = se_id e, st_url = str_or (opt_str (se_url e)) (se_uri e),
      st_excerpt = take STATUS_EXCERPT_LEN (strip_html W (se_content e)),
      st_account_acct = se_account_acct e\<rparr>"

record activity =
  ac_id :: "string option"
  ac_acct :: string
  ac_username :: string
  ac_display_name :: string
  ac_created_at :: string
  ac_statuses_count :: "int option"
  ac_last_login_at :: "string option"

text \<open>The \<^verbatim>\<open>used_at\<close> of the latest dated address; \<^verbatim>\<open>max\<close> keeps the first of equal ones.\<close>

definition latest_login :: "web \<Rightarrow> string option list \<Rightarrow> string option" where
  "latest_login W ips =
     (let dated = List.map_filter (\<lambda>u. Option.bind u (\<lambda>s. map_option (\<lambda>t. (t, s)) (parse_iso W s))) ips
      in case dated of
           [] \<Rightarrow> None
         | d # ds \<Rightarrow> Some (snd (foldl (\<lambda>best p. if fst best < fst p then p else best) d ds)))"

definition summarize_account_activity :: "web \<Rightarrow> adm_account \<Rightarrow> activity" where
  "summarize_account_activity W a =
     \<lparr>ac_id = (case ad_id a of None \<Rightarrow> pa_id (ad_account a) | Some i \<Rightarrow> Some i),
      ac_acct = str_or (pa_acct (ad_account a)) (ad_username a), ac_username = ad_username a,
      ac_display_name = pa_display_name (ad_account a), ac_created_at = ad_created_at a,
      ac_statuses_count = pa_statuses_count (ad_account a), ac_last_login_at = latest_login W (ad_ips a)\<rparr>"

record report_summary =
  rp_id :: "string option"
  rp_action_taken :: bool
  rp_target :: adm_summary
  rp_statuses :: "status list"

definition summarize_report :: "web \<Rightarrow> report_entity \<Rightarrow> report_summary" where
  "summarize_report W r =
     \<lparr>rp_id = re_id r, rp_action_taken = re_action_taken r, rp_target = summarize_admin_account (re_target r),
      rp_statuses = map (summarize_status W) (re_statuses r)\<rparr>"

section \<open>The length of a status\<close>

definition MAX_STATUS_CHARS :: int where "MAX_STATUS_CHARS = 500"
definition MIN_STATUS_CHARS :: int where "MIN_STATUS_CHARS = 100"
definition MAX_STATUS_CHARS_CEILING :: int where "MAX_STATUS_CHARS_CEILING = 25000"

fun json_to_int :: "json \<Rightarrow> int option" where
  "json_to_int (JInt i) = Some i"
| "json_to_int (JBool b) = Some (if b then 1 else 0)"
| "json_to_int (JStr s) = py_int s"
| "json_to_int _ = None"

definition json_field :: "string \<Rightarrow> json \<Rightarrow> json" where
  "json_field k j = (case j of JDict d \<Rightarrow> (case map_of d k of None \<Rightarrow> JNull | Some v \<Rightarrow> v) | _ \<Rightarrow> JNull)"

definition the_json :: "payload \<Rightarrow> json" where
  "the_json p = (case the_item p of It_Json j \<Rightarrow> j | _ \<Rightarrow> JNull)"

definition extract_v2_max_chars :: "json \<Rightarrow> int option" where
  "extract_v2_max_chars data =
     json_to_int (json_field ''max_characters'' (json_field ''statuses'' (json_field ''configuration'' data)))"

definition extract_v1_max_chars :: "json \<Rightarrow> int option" where
  "extract_v1_max_chars data = json_to_int (json_field ''max_toot_chars'' data)"

text \<open>One attempt: the number the instance gives, or the error.\<close>

definition try_max_chars :: "web \<Rightarrow> client \<Rightarrow> string \<Rightarrow> (json \<Rightarrow> int option) \<Rightarrow> ('x, mexn + int option) mio" where
  "try_max_chars W c path extract =
     rcatch (rbind (get W c path []) (\<lambda>(data, _). rreturn (Inr (extract (the_json data)))))
       (\<lambda>e. case e of Api_Error _ _ _ \<Rightarrow> Some (rreturn (Inl e)) | Value_Error _ \<Rightarrow> None)"

definition hard_fail :: "mexn + int option \<Rightarrow> bool" where
  "hard_fail r = (case r of Inl (Api_Error _ st _) \<Rightarrow> st \<noteq> Some 404 | _ \<Rightarrow> False)"

definition clamp :: "int \<Rightarrow> int \<Rightarrow> int \<Rightarrow> int" where
  "clamp low high n = max low (min high n)"

definition max_status_chars :: "web \<Rightarrow> client \<Rightarrow> ('x, int) mio" where
  "max_status_chars W c =
     rbind (try_max_chars W c ''/api/v2/instance'' extract_v2_max_chars) (\<lambda>v2.
       case v2 of
         Inr (Some n) \<Rightarrow> rreturn (clamp MIN_STATUS_CHARS MAX_STATUS_CHARS_CEILING n)
       | _ \<Rightarrow>
           rbind (try_max_chars W c ''/api/v1/instance'' extract_v1_max_chars) (\<lambda>v1.
             case v1 of
               Inr (Some n) \<Rightarrow> rreturn (clamp MIN_STATUS_CHARS MAX_STATUS_CHARS_CEILING n)
             | Inl e \<Rightarrow> if hard_fail v2 \<and> hard_fail v1 then rraise e else rreturn MAX_STATUS_CHARS
             | Inr None \<Rightarrow> rreturn MAX_STATUS_CHARS))"

section \<open>Calls of the admin client\<close>

definition admin_path :: "string \<Rightarrow> int \<Rightarrow> string \<Rightarrow> string" where
  "admin_path what i rest = ''/api/v1/admin/'' @ what @ ''/'' @ py_str_int i @ rest"

definition post_admin :: "web \<Rightarrow> client \<Rightarrow> string \<Rightarrow> json option \<Rightarrow> ('x, payload) mio" where
  "post_admin W c path body = rbind (request W c ''POST'' path [] body None) (\<lambda>(data, _). rreturn data)"

definition get_report :: "web \<Rightarrow> client \<Rightarrow> int \<Rightarrow> ('x, report_summary) mio" where
  "get_report W c rid =
     rbind (get W c (admin_path ''reports'' rid []) []) (\<lambda>(data, _).
       rreturn (summarize_report W (as_report (the_item data))))"

definition resolve_report :: "web \<Rightarrow> client \<Rightarrow> int \<Rightarrow> ('x, payload) mio" where
  "resolve_report W c rid = post_admin W c (admin_path ''reports'' rid ''/resolve'') None"

definition reopen_report :: "web \<Rightarrow> client \<Rightarrow> int \<Rightarrow> ('x, payload) mio" where
  "reopen_report W c rid = post_admin W c (admin_path ''reports'' rid ''/reopen'') None"

definition approve_account :: "web \<Rightarrow> client \<Rightarrow> int \<Rightarrow> ('x, payload) mio" where
  "approve_account W c i = post_admin W c (admin_path ''accounts'' i ''/approve'') None"

definition reject_account :: "web \<Rightarrow> client \<Rightarrow> int \<Rightarrow> ('x, payload) mio" where
  "reject_account W c i = post_admin W c (admin_path ''accounts'' i ''/reject'') None"

definition get_admin_account :: "web \<Rightarrow> client \<Rightarrow> int \<Rightarrow> ('x, adm_summary) mio" where
  "get_admin_account W c i =
     rbind (get W c (admin_path ''accounts'' i []) []) (\<lambda>(data, _).
       rreturn (summarize_admin_account (as_account (the_item data))))"

definition delete_account :: "web \<Rightarrow> client \<Rightarrow> int \<Rightarrow> ('x, bool) mio" where
  "delete_account W c i =
     rbind (request W c ''DELETE'' (admin_path ''accounts'' i []) [] None None) (\<lambda>_. rreturn True)"

definition ACCOUNT_ACTION_TYPES :: "string list" where
  "ACCOUNT_ACTION_TYPES = [''none'', ''disable'', ''silence'', ''suspend'', ''sensitive'']"

definition ACCOUNT_LIFT_ACTIONS :: "string list" where
  "ACCOUNT_LIFT_ACTIONS = [''enable'', ''unsilence'', ''unsuspend'', ''unsensitive'']"

definition DOMAIN_BLOCK_SEVERITIES :: "string list" where
  "DOMAIN_BLOCK_SEVERITIES = [''silence'', ''suspend'', ''noop'']"

definition account_action ::
  "web \<Rightarrow> client \<Rightarrow> int \<Rightarrow> string \<Rightarrow> string \<Rightarrow> int \<Rightarrow> bool \<Rightarrow> ('x, payload) mio" where
  "account_action W c i action_type text report_id notify =
     (if \<not> List.member ACCOUNT_ACTION_TYPES action_type
      then rraise (Api_Error (''Unknown account action '' @ [CHR 0x27] @ action_type @ [CHR 0x27]) None None)
      else post_admin W c (admin_path ''accounts'' i ''/action'')
             (Some (JDict ([(''type'', JStr action_type), (''text'', JStr text),
                            (''send_email_notification'', JBool notify)] @
                           (if report_id \<noteq> 0 then [(''report_id'', JStr (py_str_int report_id))] else [])))))"

definition lift_account_action :: "web \<Rightarrow> client \<Rightarrow> int \<Rightarrow> string \<Rightarrow> ('x, payload) mio" where
  "lift_account_action W c i lift =
     (if \<not> List.member ACCOUNT_LIFT_ACTIONS lift
      then rraise (Api_Error (''Unknown account action '' @ [CHR 0x27] @ lift @ [CHR 0x27]) None None)
      else post_admin W c (admin_path ''accounts'' i (''/'' @ lift)) None)"

text \<open>The identity behind an admin token, read after a probe of its scope.\<close>

definition admin_verify :: "web \<Rightarrow> client \<Rightarrow> ('x, pub_account) mio" where
  "admin_verify W c =
     rbind (get W c ''/api/v1/accounts/verify_credentials'' []) (\<lambda>(me, _).
       rbind (get W c ''/api/v1/admin/reports'' [(''limit'', Some ''1'')]) (\<lambda>_.
         rreturn (as_public (the_item me))))"

definition list_reports ::
  "web \<Rightarrow> client \<Rightarrow> bool \<Rightarrow> int option \<Rightarrow> int option \<Rightarrow> nat \<Rightarrow> ('x, report_summary list) mio" where
  "list_reports W c resolved target_id account_id max_pages =
     rbind (get_all W c ''/api/v1/admin/reports''
              ([(''resolved'', Some (if resolved then ''true'' else ''false''))] @
               (case target_id of None \<Rightarrow> [] | Some i \<Rightarrow> [(''target_account_id'', Some (py_str_int i))]) @
               (case account_id of None \<Rightarrow> [] | Some i \<Rightarrow> [(''account_id'', Some (py_str_int i))])) max_pages)
       (\<lambda>raw. rreturn (map (\<lambda>r. summarize_report W (as_report r)) raw))"

text \<open>Open and resolved reports, one page each.\<close>

definition reports_for_account :: "web \<Rightarrow> client \<Rightarrow> int \<Rightarrow> bool \<Rightarrow> ('x, report_summary list) mio" where
  "reports_for_account W c i as_target =
     (let t = (if as_target then Some i else None); a = (if as_target then None else Some i) in
      rbind (list_reports W c False t a 1) (\<lambda>open_reports.
        rbind (list_reports W c True t a 1) (\<lambda>resolved. rreturn (open_reports @ resolved))))"

definition admin_accounts :: "web \<Rightarrow> client \<Rightarrow> params \<Rightarrow> nat \<Rightarrow> ('x, adm_summary list) mio" where
  "admin_accounts W c ps max_pages =
     rbind (get_all W c ''/api/v2/admin/accounts'' ps max_pages) (\<lambda>raw.
       rreturn (map (\<lambda>a. summarize_admin_account (as_account a)) raw))"

definition list_pending_accounts :: "web \<Rightarrow> client \<Rightarrow> ('x, adm_summary list) mio" where
  "list_pending_accounts W c = admin_accounts W c [(''status'', Some ''pending'')] MAX_PAGES"

definition lookup_account :: "web \<Rightarrow> client \<Rightarrow> string \<Rightarrow> ('x, adm_summary) mio" where
  "lookup_account W c raw =
     (let acct = lstrip_char CHR ''@'' (py_strip raw) in
      if acct = [] then rraise (Api_Error ''Enter an account handle to look up'' None None)
      else rbind (get W c ''/api/v1/accounts/lookup'' [(''acct'', Some acct)]) (\<lambda>(data, _).
             let account_id = opt_str (pa_id (as_public (the_item data))) in
             if account_id = [] then rraise (Api_Error ''Account not found'' None None)
             else case py_int account_id of
                    None \<Rightarrow> rraise (Value_Error account_id)
                  | Some i \<Rightarrow> get_admin_account W c i))"

text \<open>The filters that are given; the callers never pass an origin or a status.\<close>

definition search_accounts :: "web \<Rightarrow> client \<Rightarrow> (string \<times> string) list \<Rightarrow> int \<Rightarrow> ('x, adm_summary list) mio" where
  "search_accounts W c filters limit =
     admin_accounts W c (map (\<lambda>(k, v). (k, Some v)) (filter (\<lambda>(k, v). v \<noteq> []) filters) @
       [(''limit'', Some (py_str_int (max 1 (min 100 limit))))]) 1"

definition list_domain_blocks :: "web \<Rightarrow> client \<Rightarrow> ('x, domain_block list) mio" where
  "list_domain_blocks W c =
     rbind (get_all W c ''/api/v1/admin/domain_blocks'' [] MAX_PAGES) (\<lambda>raw. rreturn (map as_block raw))"

text \<open>The size of one page and whether there is a next one.\<close>

definition count_hint :: "web \<Rightarrow> client \<Rightarrow> string \<Rightarrow> params \<Rightarrow> ('x, nat \<times> bool) mio" where
  "count_hint W c path ps =
     rbind (get W c path (with_limit ps)) (\<lambda>(data, h).
       case data of
         P_Item _ \<Rightarrow> rraise list_error
       | P_List xs \<Rightarrow> rreturn (length xs, link_next (h_link h) \<noteq> None))"

definition open_report_count :: "web \<Rightarrow> client \<Rightarrow> ('x, nat \<times> bool) mio" where
  "open_report_count W c = count_hint W c ''/api/v1/admin/reports'' [(''resolved'', Some ''false'')]"

definition pending_account_count :: "web \<Rightarrow> client \<Rightarrow> ('x, nat \<times> bool) mio" where
  "pending_account_count W c = count_hint W c ''/api/v2/admin/accounts'' [(''status'', Some ''pending'')]"

definition past_cutoff :: "usec option \<Rightarrow> usec option \<Rightarrow> bool" where
  "past_cutoff newer_than t = (case (newer_than, t) of (Some n, Some x) \<Rightarrow> x \<le> n | _ \<Rightarrow> False)"

text \<open>
  One page of \<^verbatim>\<open>list_local_accounts\<close>: accounts with a domain are passed over; the oldest dated row
  decides whether the next page is fetched.
\<close>

definition local_rows :: "item list \<Rightarrow> adm_account list" where
  "local_rows page = filter (\<lambda>a. opt_str (ad_domain a) = []) (map as_account page)"

definition local_page :: "web \<Rightarrow> usec option \<Rightarrow> activity list \<Rightarrow> item list \<Rightarrow> bool \<times> activity list" where
  "local_page W newer_than out page =
     (let rows = map (\<lambda>a. (a, parse_iso W (ad_created_at a))) (local_rows page)
      in (list_ex (\<lambda>(a, t). past_cutoff newer_than t) rows,
          out @ map (\<lambda>(a, t). summarize_account_activity W a)
                  (filter (\<lambda>(a, t). \<not> past_cutoff newer_than t) rows)))"

definition list_local_accounts :: "web \<Rightarrow> client \<Rightarrow> usec option \<Rightarrow> nat \<Rightarrow> ('x, activity list) mio" where
  "list_local_accounts W c newer_than max_pages =
     iter_pages max_pages W c ''/api/v2/admin/accounts''
       [(''origin'', Some ''local''), (''status'', Some ''active''), (''limit'', Some PAGE_SIZE)]
       (local_page W newer_than) []"

definition account_statuses ::
  "web \<Rightarrow> client \<Rightarrow> string \<Rightarrow> string option \<Rightarrow> nat \<Rightarrow> ('x, status list) mio" where
  "account_statuses W c account_id since_id limit =
     (case py_int account_id of
        None \<Rightarrow> rraise (Value_Error account_id)
      | Some i \<Rightarrow>
          rbind (get W c (''/api/v1/accounts/'' @ py_str_int i @ ''/statuses'')
                   [(''since_id'', since_id), (''limit'', Some (nat_digits limit)),
                    (''exclude_reblogs'', Some ''true'')])
            (\<lambda>(data, _). case data of
               P_Item _ \<Rightarrow> rraise list_error
             | P_List xs \<Rightarrow> rreturn (map (\<lambda>x. summarize_status W (as_status x)) xs)))"

section \<open>The welcome bot and its messages\<close>

definition bot_verify :: "web \<Rightarrow> client \<Rightarrow> ('x, string option) mio" where
  "bot_verify W c =
     rbind (get W c ''/api/v1/accounts/verify_credentials'' []) (\<lambda>(me, _).
       rreturn (pa_id (as_public (the_item me))))"

definition post_direct :: "web \<Rightarrow> client \<Rightarrow> string \<Rightarrow> string \<Rightarrow> ('x, status) mio" where
  "post_direct W c text key =
     rbind (request W c ''POST'' ''/api/v1/statuses'' []
              (Some (JDict [(''status'', JStr text), (''visibility'', JStr ''direct'')])) (Some key))
       (\<lambda>(data, _). rreturn (summarize_status W (as_status (the_item data))))"

text \<open>The account a message is addressed to; a missing name is empty.\<close>

record dm_account =
  dm_username :: string
  dm_display_name :: string
  dm_acct :: string

definition account_vars :: "dm_account \<Rightarrow> (string \<times> string) list" where
  "account_vars a = [(''username'', dm_username a),
     (''display_name'', str_or (dm_display_name a) (dm_username a)),
     (''acct'', str_or (dm_acct a) (dm_username a))]"

definition render_body :: "web \<Rightarrow> string \<Rightarrow> (string \<times> string) list \<Rightarrow> string option" where
  "render_body W template variables = map_option py_strip (wb_format W template variables)"

text \<open>\<^term>\<open>None\<close> is the \<^verbatim>\<open>ValueError\<close> of a text over the budget.\<close>

definition compose_direct :: "string \<Rightarrow> string \<Rightarrow> int \<Rightarrow> string option" where
  "compose_direct mention body max_chars =
     (let text = ''@'' @ mention @ '' '' @ body
      in if int (length text) > max_chars then None else Some text)"

definition render_welcome :: "web \<Rightarrow> string \<Rightarrow> dm_account \<Rightarrow> int \<Rightarrow> string option" where
  "render_welcome W template a max_chars =
     Option.bind (render_body W template (account_vars a)) (\<lambda>body. compose_direct (dm_username a) body max_chars)"

definition render_report_notice_body :: "web \<Rightarrow> string \<Rightarrow> dm_account \<Rightarrow> string \<Rightarrow> string option" where
  "render_report_notice_body W template a report_id =
     render_body W template (account_vars a @ [(''report_id'', report_id)])"

definition validate_welcome_template :: "web \<Rightarrow> string \<Rightarrow> int \<Rightarrow> bool" where
  "validate_welcome_template W template max_chars \<longleftrightarrow>
     py_strip template \<noteq> [] \<and>
     (let a = replicate 30 CHR ''a''
      in render_welcome W template \<lparr>dm_username = a, dm_display_name = a, dm_acct = a\<rparr> max_chars \<noteq> None)"

definition validate_report_notice_template :: "web \<Rightarrow> string \<Rightarrow> int \<Rightarrow> bool" where
  "validate_report_notice_template W template max_chars \<longleftrightarrow>
     py_strip template \<noteq> [] \<and>
     (let a = replicate 30 CHR ''a''; acct = a @ ''@'' @ replicate 40 CHR ''b'' in
      Option.bind (render_report_notice_body W template \<lparr>dm_username = a, dm_display_name = a, dm_acct = acct\<rparr>
                     (replicate 20 CHR ''1''))
        (\<lambda>body. compose_direct acct body max_chars) \<noteq> None)"

section \<open>Domain names\<close>

text \<open>\<^verbatim>\<open>_DOMAIN_RE\<close> without its anchors.\<close>

definition r_alnum :: rx where "r_alnum = cls [ascii_lower, ascii_digit]"
definition r_alnum_hyphen :: rx where "r_alnum_hyphen = cls [ascii_lower, ascii_digit, one_of ''-'']"

definition DOMAIN_RE :: rx where
  "DOMAIN_RE = r_seqs
     [r_plus (r_seqs [r_alnum, r_opt (RSeq (r_upto 61 r_alnum_hyphen) r_alnum), r_lit CHR ''.'']),
      r_alnum, r_upto 61 r_alnum_hyphen, r_alnum]"

text \<open>The dollar sign of \<^verbatim>\<open>re.match\<close> also matches before a line feed at the end.\<close>

definition chop_newline :: "string \<Rightarrow> string" where
  "chop_newline s = (if s \<noteq> [] \<and> last s = CHR 0x0A then butlast s else s)"

definition validate_domain :: "string \<Rightarrow> string option" where
  "validate_domain raw =
     (let domain = rstrip_char CHR ''.'' (py_lower (py_strip raw)); t = chop_newline domain
      in if length t \<le> 253 \<and> fullmatch DOMAIN_RE t then Some domain else None)"

definition HOSTNAME_ERROR :: string where
  "HOSTNAME_ERROR = ''Enter a bare hostname such as example.social (no scheme, path or port)''"

record block_options =
  bo_severity :: string
  bo_reject_media :: bool
  bo_reject_reports :: bool
  bo_obfuscate :: bool
  bo_public_comment :: string
  bo_private_comment :: string

definition create_domain_block :: "web \<Rightarrow> client \<Rightarrow> string \<Rightarrow> block_options \<Rightarrow> ('x, domain_block) mio" where
  "create_domain_block W c domain o1 =
     (if \<not> List.member DOMAIN_BLOCK_SEVERITIES (bo_severity o1)
      then rraise (Api_Error (''Unknown domain block severity '' @ [CHR 0x27] @ bo_severity o1 @ [CHR 0x27]) None None)
      else case validate_domain domain of
             None \<Rightarrow> rraise (Value_Error HOSTNAME_ERROR)
           | Some d \<Rightarrow>
               rbind (post_admin W c ''/api/v1/admin/domain_blocks''
                        (Some (JDict [(''domain'', JStr d), (''severity'', JStr (bo_severity o1)),
                           (''reject_media'', JBool (bo_reject_media o1)),
                           (''reject_reports'', JBool (bo_reject_reports o1)),
                           (''public_comment'', JStr (bo_public_comment o1)),
                           (''private_comment'', JStr (bo_private_comment o1)),
                           (''obfuscate'', JBool (bo_obfuscate o1))])))
                 (\<lambda>data. rreturn (as_block (the_item data))))"

definition delete_domain_block :: "web \<Rightarrow> client \<Rightarrow> int \<Rightarrow> ('x, payload) mio" where
  "delete_domain_block W c i =
     rbind (request W c ''DELETE'' (admin_path ''domain_blocks'' i []) [] None None) (\<lambda>(data, _). rreturn data)"

section \<open>What the client sends\<close>

text \<open>
  A piece of client code is framed by the number of requests it makes, what they look like, and that
  it touches nothing but the requests and the rate limits.
\<close>

definition calls :: "nat \<Rightarrow> (http_request \<Rightarrow> bool) \<Rightarrow> ('x, 'a) mio \<Rightarrow> bool" where
  "calls n P m \<longleftrightarrow> (\<forall>s. net.more (snd (m s)) = net.more s \<and>
     (\<exists>qs. n_reqs (snd (m s)) = n_reqs s @ qs \<and> length qs \<le> n \<and> (\<forall>q \<in> set qs. P q)))"

named_theorems calls_intros "composition of framed client code"

lemma callsD:
  assumes "calls n P m"
  obtains qs where "n_reqs (snd (m s)) = n_reqs s @ qs" "length qs \<le> n" "\<forall>q \<in> set qs. P q"
    "net.more (snd (m s)) = net.more s"
  using assms unfolding calls_def by blast

lemma calls_rreturn [calls_intros]: "calls n P (rreturn x)"
  by (simp add: calls_def rreturn_def)

lemma calls_rraise [calls_intros]: "calls n P (rraise e)"
  by (simp add: calls_def rraise_def)

lemma calls_rbind_dep:
  assumes "calls a P m" "\<And>s x s'. m s = (Inr x, s') \<Longrightarrow> calls b P (k x)"
  shows "calls (a + b) P (rbind m k)"
  unfolding calls_def
proof (intro allI)
  fix s
  obtain r s1 where m: "m s = (r, s1)" by fastforce
  obtain qs where qs: "n_reqs s1 = n_reqs s @ qs" "length qs \<le> a" "\<forall>q \<in> set qs. P q"
    "net.more s1 = net.more s"
    using callsD[OF assms(1), of s] m by auto
  show "net.more (snd (rbind m k s)) = net.more s \<and>
        (\<exists>qs. n_reqs (snd (rbind m k s)) = n_reqs s @ qs \<and> length qs \<le> a + b \<and> (\<forall>q \<in> set qs. P q))"
  proof (cases r)
    case (Inl e)
    then show ?thesis using qs m by (auto simp: rbind_def)
  next
    case (Inr x)
    obtain ws where "n_reqs (snd (k x s1)) = n_reqs s1 @ ws" "length ws \<le> b" "\<forall>q \<in> set ws. P q"
      "net.more (snd (k x s1)) = net.more s1"
      using callsD[OF assms(2)[OF m[unfolded Inr]], of s1] by auto
    then show ?thesis using qs m Inr by (intro conjI exI[of _ "qs @ ws"]) (auto simp: rbind_def)
  qed
qed

lemma calls_mono: "calls n P m \<Longrightarrow> n \<le> n' \<Longrightarrow> (\<And>q. P q \<Longrightarrow> Q q) \<Longrightarrow> calls n' Q m"
  unfolding calls_def by (meson order_trans)

lemma set_rate_frame [simp]:
  "n_reqs (set_rate c rl s) = n_reqs s" "net.more (set_rate c rl s) = net.more s"
  by (simp_all add: set_rate_def)

lemma receive_frame [simp]:
  "n_reqs (snd (receive W c ans s)) = n_reqs s" "net.more (snd (receive W c ans s)) = net.more s"
  by (auto simp: receive_def split: http_answer.splits)

definition request_of :: "client \<Rightarrow> string \<Rightarrow> string \<Rightarrow> params \<Rightarrow> json option \<Rightarrow> string option \<Rightarrow> http_request \<Rightarrow> bool" where
  "request_of c method path ps body key q \<longleftrightarrow>
     (\<exists>url. base_url c path = Inr url \<and>
        q = \<lparr>hr_method = method, hr_url = with_params url ps, hr_token = cl_token c, hr_body = body, hr_key = key\<rparr>)"

lemma calls_request: "calls 1 (request_of c method path ps body key) (request W c method path ps body key)"
  by (auto simp: calls_def request_def request_of_def Let_def split: sum.splits)

lemma request_answer:
  assumes "request W c method path ps body key s = (Inr (p, h), s')"
  shows "\<exists>reqs. wb_http W reqs = Json_Answer p h \<or> p = P_Item (It_Json (JDict []))"
  using assms
  by (auto simp: request_def receive_def Let_def split: sum.splits http_answer.splits if_splits)

subsection \<open>The token stays on the configured host\<close>

definition same_origin :: "client \<Rightarrow> string \<Rightarrow> bool" where
  "same_origin c url \<longleftrightarrow> startswith url (cl_api_url c @ ''/'')"

definition absolute_url :: "string \<Rightarrow> bool" where
  "absolute_url u \<longleftrightarrow> startswith u ''http://'' \<or> startswith u ''https://''"

definition links_absolute :: "web \<Rightarrow> bool" where
  "links_absolute W \<longleftrightarrow> (\<forall>reqs p h u. wb_http W reqs = Json_Answer p h \<longrightarrow>
     link_next (h_link h) = Some u \<longrightarrow> absolute_url u)"

text \<open>A path the client may be asked for: one of its own, or a link.\<close>

definition rooted :: "string \<Rightarrow> bool" where
  "rooted p \<longleftrightarrow> startswith p ''/'' \<or> absolute_url p"

lemma startswith_trans: "startswith s p \<Longrightarrow> startswith p q \<Longrightarrow> startswith s q"
  by (auto simp: startswith_iff_prefix)

lemma startswith_app: "startswith s p \<Longrightarrow> startswith (s @ t) p"
  by (auto simp: startswith_iff_prefix)

lemma base_url_on_host: "base_url c path = Inr url \<Longrightarrow> startswith url (cl_api_url c)"
  by (auto simp: base_url_def split: if_splits intro: startswith_trans)

lemma base_url_same_origin: "base_url c path = Inr url \<Longrightarrow> rooted path \<Longrightarrow> same_origin c url"
  by (auto simp: base_url_def rooted_def absolute_url_def same_origin_def startswith_iff_prefix split: if_splits)

lemma with_params_startswith: "startswith url p \<Longrightarrow> startswith (with_params url ps) p"
  by (simp add: with_params_def startswith_app)

text \<open>A request that carries the token to the host of the client.\<close>

definition to_host :: "bool \<Rightarrow> client \<Rightarrow> string \<Rightarrow> http_request \<Rightarrow> bool" where
  "to_host strict c method q \<longleftrightarrow> hr_method q = method \<and> hr_token q = cl_token c \<and>
     startswith (hr_url q) (cl_api_url c) \<and> (strict \<longrightarrow> same_origin c (hr_url q))"

lemma request_of_to_host:
  assumes "request_of c method path ps body key q" "strict \<longrightarrow> rooted path"
  shows "to_host strict c method q"
  using assms base_url_on_host base_url_same_origin with_params_startswith
  unfolding request_of_def to_host_def same_origin_def by fastforce

lemma calls_request_to_host [calls_intros]:
  "strict \<longrightarrow> rooted path \<Longrightarrow> calls 1 (to_host strict c method) (request W c method path ps body key)"
  by (rule calls_mono[OF calls_request order_refl]) (rule request_of_to_host)

lemma iter_pages_calls:
  assumes "strict \<longrightarrow> rooted path \<and> links_absolute W"
  shows "calls n (to_host strict c ''GET'') (iter_pages n W c path ps k acc :: ('x, 's) mio)"
  using assms
proof (induction n arbitrary: path ps acc)
  case 0
  then show ?case by (simp add: calls_rreturn)
next
  case (Suc n)
  have "calls (1 + n) (to_host strict c ''GET'') (iter_pages (Suc n) W c path ps k acc :: ('x, 's) mio)"
    unfolding iter_pages.simps get_def
  proof (rule calls_rbind_dep, goal_cases)
    case 1
    then show ?case using Suc.prems by (intro calls_request_to_host) simp
  next
    case (2 s x s')
    obtain data h where x: "x = (data, h)" by fastforce
    have "calls n (to_host strict c ''GET'') (iter_pages n W c u [] k a :: ('x, 's) mio)"
      if "data = P_List xs" "link_next (h_link h) = Some u" for xs u a
      using request_answer[OF 2[unfolded x]] that Suc.prems
      by (intro Suc.IH) (auto simp: links_absolute_def rooted_def)
    then show ?case unfolding x
      by (auto simp: Let_def split: payload.splits prod.splits option.splits intro: calls_intros)
  qed
  then show ?case by simp
qed

text \<open>
  C26. Whatever an instance answers, a listing makes at most as many requests as its page cap, and each
  of them is a GET whose URL begins with the configured API URL. When the links of the instance are
  absolute URLs, as Mastodon's are, every request goes to the configured host.
\<close>

theorem listing_confined:
  assumes "startswith path ''/''"
  shows "\<exists>qs. n_reqs (snd (iter_pages n W c path ps k acc s)) = n_reqs s @ qs \<and> length qs \<le> n \<and>
           (\<forall>q \<in> set qs. hr_method q = ''GET'' \<and> hr_token q = cl_token c \<and>
              startswith (hr_url q) (cl_api_url c) \<and> (links_absolute W \<longrightarrow> same_origin c (hr_url q)))"
proof -
  have "calls n (to_host (links_absolute W) c ''GET'') (iter_pages n W c path ps k acc)"
    by (rule iter_pages_calls) (use assms in \<open>simp add: rooted_def\<close>)
  then show ?thesis by (auto simp: to_host_def elim: callsD[of _ _ _ s])
qed

definition page_headers :: "string \<Rightarrow> headers" where
  "page_headers u = no_headers\<lparr>h_link := ''<'' @ u @ ''>; '' @ REL_NEXT\<rparr>"

text \<open>An instance whose every page is one account and links to the same next page.\<close>

definition linking_web :: "string \<Rightarrow> web" where
  "linking_web u =
     \<lparr>wb_http = (\<lambda>_. Json_Answer (P_List [It_Account no_account]) (page_headers u)),
      wb_now = (\<lambda>_. 0), wb_fromiso = (\<lambda>_. None), wb_isoformat = (\<lambda>_. []), wb_isodate = (\<lambda>_. []),
      wb_unescape = (\<lambda>t. t), wb_dumps = (\<lambda>_. []), wb_format = (\<lambda>t _. Some t)\<rparr>"

definition sample_client :: client where
  "sample_client = new_client Admin_Client ''https://mastodon.example/'' ''secret''"

definition sample_net :: net where
  "sample_net = \<lparr>n_reqs = [], n_rate = (\<lambda>_. None)\<rparr>"

lemma link_next_single:
  assumes "u \<noteq> []" "CHR ''>'' \<notin> set u"
  shows "link_next (h_link (page_headers u)) = Some u"
proof -
  have "takeWhile (\<lambda>c. c \<noteq> CHR ''>'') (u @ CHR ''>'' # rest) = u"
    "dropWhile (\<lambda>c. c \<noteq> CHR ''>'') (u @ CHR ''>'' # rest) = CHR ''>'' # rest" for rest
    using assms(2) by (auto simp: takeWhile_append dropWhile_append)
  then show ?thesis
    using assms(1)
    by (simp add: page_headers_def no_headers_def link_at_def Let_def startswith_def REL_NEXT_def
        py_lstrip_def py_space_def code_def)
qed

theorem listing_confined_witness:
  "let s = snd (iter_pages 3 (linking_web ''https://mastodon.example/next'') sample_client ''/api/v1/admin/reports''
                 [] (\<lambda>acc page. (False, acc @ page)) [] sample_net)
   in length (n_reqs s) \<le> 3 \<and> (\<forall>q \<in> set (n_reqs s). same_origin sample_client (hr_url q))"
proof -
  let ?W = "linking_web ''https://mastodon.example/next''"
  have "link_next (h_link (page_headers ''https://mastodon.example/next'')) = Some ''https://mastodon.example/next''"
    by (rule link_next_single) simp_all
  then have "links_absolute ?W"
    by (auto simp: links_absolute_def linking_web_def absolute_url_def startswith_def)
  then show ?thesis
    using listing_confined[of "''/api/v1/admin/reports''" 3 ?W sample_client "[]" "\<lambda>acc page. (False, acc @ page)" "[]"
        sample_net]
    by (auto simp: startswith_def sample_net_def Let_def)
qed

text \<open>
  The host a request is sent to, as \<^verbatim>\<open>urllib.request\<close> takes it from the URL: what stands between the two
  slashes after the scheme and the next slash, question mark or hash. Host names are of letters, digits,
  hyphens and dots.
\<close>

definition url_host :: "string \<Rightarrow> string" where
  "url_host u = takeWhile (\<lambda>c. c \<notin> {CHR ''/'', CHR ''?'', CHR ''#''}) (drop 3 (dropWhile (\<lambda>c. c \<noteq> CHR '':'') u))"

definition host_text :: "string \<Rightarrow> bool" where
  "host_text h \<longleftrightarrow> h \<noteq> [] \<and> list_all (\<lambda>c. ascii_alnum c \<or> c = CHR ''-'' \<or> c = CHR ''.'') h"

lemma host_text_chars: "host_text h \<Longrightarrow> c \<in> set h \<Longrightarrow> c \<notin> {CHR ''/'', CHR ''?'', CHR ''#'', CHR '':''}"
  by (auto simp: host_text_def list_all_iff class_defs code_def)

lemma host_text_append: "host_text h \<Longrightarrow> host_text e \<Longrightarrow> host_text (h @ e)"
  by (simp add: host_text_def)

lemma url_host_text:
  assumes "host_text h" "scheme \<in> {''http'', ''https''}"
  shows "url_host (scheme @ ''://'' @ h @ CHR ''/'' # rest) = h"
proof -
  have "takeWhile (\<lambda>c. c \<notin> {CHR ''/'', CHR ''?'', CHR ''#''}) (h @ CHR ''/'' # rest) = h"
    using host_text_chars[OF assms(1)] by (subst takeWhile_append2) auto
  then show ?thesis using assms(2) by (auto simp: url_host_def)
qed

lemma host_link_relative:
  assumes "host_text e"
  shows "\<not> startswith (e @ CHR ''/'' # rest) ''http://''" "\<not> startswith (e @ CHR ''/'' # rest) ''https://''"
proof -
  have "takeWhile (\<lambda>c. c \<noteq> CHR ''/'') (e @ CHR ''/'' # rest) = e" using host_text_chars[OF assms] by auto
  then have "CHR '':'' \<notin> set (takeWhile (\<lambda>c. c \<noteq> CHR ''/'') (e @ CHR ''/'' # rest))"
    using host_text_chars[OF assms] by auto
  then show "\<not> startswith (e @ CHR ''/'' # rest) ''http://''" "\<not> startswith (e @ CHR ''/'' # rest) ''https://''"
    unfolding startswith_iff_prefix prefix_def by auto
qed

text \<open>
  C33. The refusal of foreign pagination links covers absolute links only. Whenever the first page of a
  listing names as its next page a link that has no scheme but begins with host characters, such as
  \<^verbatim>\<open>.evil.example/x\<close>, the link is appended to the API URL, and the next request, with the token, goes to
  the host whose name is the configured one with those characters added, which is another host.
\<close>

theorem relative_link_leaves_host:
  assumes "cl_api_url c = scheme @ ''://'' @ h" "scheme \<in> {''http'', ''https''}" "host_text h" "startswith path ''/''"
    and "first = \<lparr>hr_method = ''GET'', hr_url = with_params (cl_api_url c @ path) (with_limit ps), hr_token = cl_token c,
           hr_body = None, hr_key = None\<rparr>"
    and "wb_http W (n_reqs s @ [first]) = Json_Answer (P_List (x # xs)) hs"
    and "link_next (h_link hs) = Some (ext @ CHR ''/'' # rest)" "host_text ext"
  shows "\<exists>second more. n_reqs (snd (get_all W c path ps (Suc (Suc n)) (s :: 'x net_scheme))) = n_reqs s @ [first, second] @ more \<and>
     url_host (hr_url first) = h \<and> url_host (hr_url second) = h @ ext \<and> h @ ext \<noteq> h \<and> hr_token second = cl_token c"
proof -
  let ?l = "ext @ CHR ''/'' # rest" and ?k = "\<lambda>items page. (False, items @ page)"
  define second where "second = \<lparr>hr_method = ''GET'', hr_url = cl_api_url c @ ?l, hr_token = cl_token c,
    hr_body = None, hr_key = None\<rparr>"
  obtain p where p: "path = CHR ''/'' # p" using assms(4) unfolding startswith_iff_prefix by (auto simp: prefix_def)
  have b: "base_url c path = Inr (cl_api_url c @ path)" "base_url c ?l = Inr (cl_api_url c @ ?l)"
    using host_link_relative[OF assms(8)] by (simp_all add: base_url_def p startswith_def)
  obtain s1 where s1: "get W c path (with_limit ps) s = (Inr (P_List (x # xs), hs), s1)" "n_reqs s1 = n_reqs s @ [first]"
    using assms(6) by (simp add: get_def request_def b Let_def assms(5)[symmetric] receive_def set_rate_def)
  have "\<exists>more. n_reqs (snd (iter_pages (Suc n) W c ?l [] ?k a s1)) = n_reqs s1 @ second # more" for a
  proof -
    let ?g = "get W c ?l [] s1"
    have "n_reqs (snd ?g) = n_reqs s1 @ [second]"
      using receive_frame[of W c "wb_http W (n_reqs s1 @ [second])" "s1\<lparr>n_reqs := n_reqs s1 @ [second]\<rparr>"]
      by (simp add: get_def request_def b Let_def with_params_def second_def)
    moreover have "\<exists>qs. n_reqs (snd (iter_pages n W c u [] ?k a t)) = n_reqs t @ qs" for u a and t :: "'x net_scheme"
    proof -
      have "calls n (to_host False c ''GET'') (iter_pages n W c u [] ?k a :: ('x, item list) mio)" by (rule iter_pages_calls) simp
      then show ?thesis unfolding calls_def by blast
    qed
    ultimately show ?thesis
      by (cases ?g) (auto simp: rbind_def rraise_def rreturn_def Let_def split: sum.splits payload.splits option.splits,
          metis append.assoc append_Cons append_Nil)
  qed
  moreover have "snd (get_all W c path ps (Suc (Suc n)) s) = snd (iter_pages (Suc n) W c ?l [] ?k (x # xs) s1)"
    unfolding get_all_def iter_pages.simps(2)[of "Suc n"] by (simp add: rbind_def s1(1) assms(7) del: iter_pages.simps(2))
  ultimately obtain more where "n_reqs (snd (get_all W c path ps (Suc (Suc n)) s)) = n_reqs s @ [first, second] @ more"
    using s1(2) by force
  moreover have "url_host (hr_url second) = h @ ext"
    using url_host_text[OF host_text_append[OF assms(3,8)] assms(2), of rest] by (simp add: second_def assms(1))
  moreover have "url_host (hr_url first) = h"
    using url_host_text[OF assms(3,2)] by (auto simp: assms(5,1) with_params_def p)
  ultimately show ?thesis using assms(8) by (auto simp: second_def host_text_def)
qed

theorem relative_link_leaves_host_witness:
  "\<exists>second more. n_reqs (snd (get_all (linking_web ''.evil.example/x'') sample_client ''/api/v1/admin/reports'' [] 2 sample_net)) =
       \<lparr>hr_method = ''GET'', hr_url = ''https://mastodon.example/api/v1/admin/reports?limit=100'', hr_token = ''secret'',
        hr_body = None, hr_key = None\<rparr> # second # more \<and>
     url_host (hr_url second) = ''mastodon.example.evil.example'' \<and> hr_token second = ''secret''"
proof -
  let ?W = "linking_web ''.evil.example/x''" and ?first = "\<lparr>hr_method = ''GET'',
    hr_url = with_params (cl_api_url sample_client @ ''/api/v1/admin/reports'') (with_limit []), hr_token = cl_token sample_client,
    hr_body = None, hr_key = None\<rparr>"
  have "link_next (h_link (page_headers ''.evil.example/x'')) = Some (''.evil.example'' @ CHR ''/'' # ''x'')"
    using link_next_single[of "''.evil.example/x''"] by simp
  moreover have "wb_http ?W (n_reqs sample_net @ [?first]) = Json_Answer (P_List [It_Account no_account]) (page_headers ''.evil.example/x'')"
    by (simp add: linking_web_def)
  moreover have "host_text ''mastodon.example''" "host_text ''.evil.example''" by code_simp+
  moreover have url: "cl_api_url sample_client = ''https'' @ ''://'' @ ''mastodon.example''" "cl_token sample_client = ''secret''"
    "with_params (cl_api_url sample_client @ ''/api/v1/admin/reports'') (with_limit []) =
       ''https://mastodon.example/api/v1/admin/reports?limit=100''"
    by code_simp+
  ultimately show ?thesis
    using relative_link_leaves_host[of sample_client "''https''" "''mastodon.example''" "''/api/v1/admin/reports''" ?first "[]" ?W
        sample_net "It_Account no_account" "[]" "page_headers ''.evil.example/x''" "''.evil.example''" "''x''" 0]
    by (auto simp: startswith_def sample_net_def numeral_2_eq_2)
qed
end
