(* ===== verification/Moderation_Watch.thy ===== *)
theory Moderation_Watch
  imports Mastodon_Client Config_Backup "HOL-Library.Option_ord"
begin

text \<open>
  The moderation watch (\<^verbatim>\<open>src/core/moderation_watch.py\<close>, the moderation tables of
  \<^verbatim>\<open>src/models.py\<close> and the job of \<^verbatim>\<open>src/core/scheduler.py\<close>): watched accounts, deduplicated
  alerts, welcome messages and report notices, and the poll that raises them.

  The state extends the client's record with the tables, the notifications handed to the Discord
  sender, and the summary of the running poll, which the code keeps in a dictionary that every step
  changes in place. \<open>now\<close> is the time the poll is given; rows created on the way take the clock of
  their moment.
\<close>

section \<open>Tables and state\<close>

record watch =
  w_id :: int
  w_account_id :: string
  w_acct :: string
  w_reason :: "string option"
  w_added_by :: "int option"
  w_expires_at :: "usec option"
  w_auto_added :: bool
  w_last_status_id :: "string option"
  w_last_checked_at :: "usec option"

record mod_alert =
  ma_id :: int
  ma_kind :: string
  ma_dedupe_key :: string
  ma_account_id :: string
  ma_acct :: string
  ma_status_id :: "string option"
  ma_status_url :: "string option"
  ma_excerpt :: "string option"
  ma_created_at :: usec
  ma_acknowledged_at :: "usec option"
  ma_acknowledged_by :: "int option"

record welcome_row =
  wl_account_id :: string
  wl_acct :: string
  wl_sent_at :: usec
  wl_sent_by :: "int option"
  wl_status_id :: "string option"

record report_notice =
  rn_report_id :: string
  rn_reporter_id :: "string option"
  rn_reporter_acct :: string
  rn_sent_at :: usec
  rn_sent_by :: "int option"
  rn_status_id :: "string option"

datatype mod_note =
    Alert_Note string string "string option" "string option"
  | Silent_Summary nat "string list"

record poll_result =
  pr_checked :: nat
  pr_watch_total :: int
  pr_watched_post :: nat
  pr_new_account :: nat
  pr_silent_login :: nat
  pr_deferred :: bool
  pr_bootstrapped :: bool
  pr_backoff_until :: "string option"
  pr_errors :: "string list"
  pr_notices :: "string list"
  pr_new_accounts :: "activity list"
  pr_welcomed :: nat
  pr_status_limit :: "int option"

record moderation = net +
  m_app :: app
  m_watches :: "watch list"
  m_alerts :: "mod_alert list"
  m_welcomes :: "welcome_row list"
  m_report_notices :: "report_notice list"
  m_notes :: "mod_note list"
  m_result :: poll_result

type_synonym 'a pio = "(mexn, moderation, 'a) run"

definition MAX_WATCH_REQUESTS_PER_RUN :: nat where "MAX_WATCH_REQUESTS_PER_RUN = 100"
definition RATE_RESERVE :: int where "RATE_RESERVE = 60"
definition ALERT_RETENTION_DAYS :: int where "ALERT_RETENTION_DAYS = 90"
definition SILENT_SCAN_MIN_HOURS :: int where "SILENT_SCAN_MIN_HOURS = 24"
definition MAX_WELCOMES_PER_RUN :: nat where "MAX_WELCOMES_PER_RUN = 20"
definition STATUS_LIMIT_REFRESH_HOURS :: int where "STATUS_LIMIT_REFRESH_HOURS = 24"

definition STATUS_LIMIT_SETTING :: string where
  "STATUS_LIMIT_SETTING = ''moderation_mastodon_max_chars''"

definition STATUS_LIMIT_CHECKED_SETTING :: string where
  "STATUS_LIMIT_CHECKED_SETTING = ''moderation_mastodon_max_chars_checked_at''"

definition WELCOME_RENDER_ERROR :: string where
  "WELCOME_RENDER_ERROR = ''Welcome message template is invalid or too long; fix it under Welcome message settings''"

definition REPORT_NOTICE_RENDER_ERROR :: string where
  "REPORT_NOTICE_RENDER_ERROR = ''Report notice template is invalid or too long; fix it under Reporter notice settings''"

definition usec_of_days :: "int \<Rightarrow> usec" where "usec_of_days n = n * 86400000000"
definition usec_of_hours :: "int \<Rightarrow> usec" where "usec_of_hours n = n * 3600000000"
definition usec_of_seconds :: "int \<Rightarrow> usec" where "usec_of_seconds n = n * 1000000"

section \<open>State access\<close>

definition mdb :: "moderation \<Rightarrow> db" where "mdb s = a_db (m_app s)"

definition mget :: "moderation \<Rightarrow> string \<Rightarrow> string \<Rightarrow> string" where
  "mget s k dflt = setting_get (mdb s) k dflt"

definition mset :: "string \<Rightarrow> string \<Rightarrow> moderation \<Rightarrow> moderation" where
  "mset k v s = s\<lparr>m_app := (m_app s)\<lparr>a_db := setting_set k v (a_db (m_app s))\<rparr>\<rparr>"

definition clock :: "web \<Rightarrow> moderation \<Rightarrow> usec" where "clock W s = wb_now W (n_reqs s)"

text \<open>An audit entry for moderators; the time stamp of the broadcast is that of the moment.\<close>

definition mlog :: "web \<Rightarrow> req_ctx \<Rightarrow> string option \<Rightarrow> string \<Rightarrow> string \<Rightarrow> string option \<Rightarrow> json \<Rightarrow>
    moderation \<Rightarrow> moderation" where
  "mlog W q actor action rtype rname details s =
     s\<lparr>m_app := log_action (q\<lparr>q_ts := wb_isoformat W (clock W s)\<rparr>)
        ((entry action rtype None rname details)\<lparr>l_actor := actor, l_audience := Some ''moderators''\<rparr>) (m_app s)\<rparr>"

definition on_result :: "(poll_result \<Rightarrow> poll_result) \<Rightarrow> moderation \<Rightarrow> moderation" where
  "on_result h s = s\<lparr>m_result := h (m_result s)\<rparr>"

definition add_error :: "string \<Rightarrow> moderation \<Rightarrow> moderation" where
  "add_error m = on_result (\<lambda>r. r\<lparr>pr_errors := pr_errors r @ [m]\<rparr>)"

definition set_deferred :: "moderation \<Rightarrow> moderation" where
  "set_deferred = on_result (\<lambda>r. r\<lparr>pr_deferred := True\<rparr>)"

definition set_watch :: "int \<Rightarrow> (watch \<Rightarrow> watch) \<Rightarrow> moderation \<Rightarrow> moderation" where
  "set_watch i h s = s\<lparr>m_watches := update_rows (\<lambda>w. w_id w = i) h (m_watches s)\<rparr>"

section \<open>Settings\<close>

definition parse_int :: "string \<Rightarrow> int \<Rightarrow> int option \<Rightarrow> int option \<Rightarrow> int" where
  "parse_int raw dflt low high =
     (case py_int (py_strip raw) of
        None \<Rightarrow> dflt
      | Some v \<Rightarrow>
          let v = (case low of Some l \<Rightarrow> max l v | None \<Rightarrow> v)
          in (case high of Some h \<Rightarrow> min h v | None \<Rightarrow> v))"

record watch_settings =
  ws_auto_watch_days :: int
  ws_silent_login_days :: int
  ws_silent_min_age_days :: int
  ws_silent_scan_window_days :: int

definition get_watch_settings :: "moderation \<Rightarrow> watch_settings" where
  "get_watch_settings s =
     \<lparr>ws_auto_watch_days = parse_int (mget s ''moderation_watch_auto_watch_days'' ''0'') 0 (Some 0) (Some 90),
      ws_silent_login_days = parse_int (mget s ''moderation_watch_silent_login_days'' ''7'') 7 (Some 1) None,
      ws_silent_min_age_days = parse_int (mget s ''moderation_watch_silent_min_age_days'' ''14'') 14 (Some 0) None,
      ws_silent_scan_window_days =
        parse_int (mget s ''moderation_watch_silent_scan_window_days'' ''90'') 90 (Some 1) None\<rparr>"

definition log_retention_days :: "moderation \<Rightarrow> int" where
  "log_retention_days s =
     interval_setting ''moderation_log_retention_days''
       (map_of (d_settings (mdb s)) ''moderation_log_retention_days'')"

definition get_status_limit :: "moderation \<Rightarrow> int" where
  "get_status_limit s =
     parse_int (mget s STATUS_LIMIT_SETTING (py_str_int MAX_STATUS_CHARS)) MAX_STATUS_CHARS
       (Some MIN_STATUS_CHARS) (Some MAX_STATUS_CHARS_CEILING)"

definition refresh_status_limit :: "web \<Rightarrow> client \<Rightarrow> int pio" where
  "refresh_status_limit W c s =
     (case max_status_chars W c s of
        (Inl (Value_Error v), s1) \<Rightarrow> (Inl (Value_Error v), s1)
      | (Inl (Api_Error _ _ _), s1) \<Rightarrow> (Inr (get_status_limit s1), s1)
      | (Inr v, s1) \<Rightarrow>
          (let s2 = mset STATUS_LIMIT_SETTING (py_str_int v) s1
           in (Inr v, mset STATUS_LIMIT_CHECKED_SETTING (wb_isoformat W (clock W s2)) s2)))"

text \<open>
  The clients are built from the settings; \<open>decrypt\<close> stands for the credential store: \<^term>\<open>None\<close> is
  its error.
\<close>

definition build_client ::
  "(string \<Rightarrow> string option) \<Rightarrow> client_kind \<Rightarrow> string \<Rightarrow> string \<Rightarrow> string \<Rightarrow> moderation \<Rightarrow> string + client" where
  "build_client decrypt k token_key unset broken s =
     (let api_url = mget s ''moderation_mastodon_api_url'' []; secret = mget s token_key [] in
      if api_url = [] \<or> secret = [] then Inl unset
      else case decrypt secret of
             None \<Rightarrow> Inl broken
           | Some plain \<Rightarrow> if plain = [] then Inl broken else Inr (new_client k api_url plain))"

definition build_bot_client :: "(string \<Rightarrow> string option) \<Rightarrow> moderation \<Rightarrow> string + client" where
  "build_bot_client decrypt = build_client decrypt Bot_Client ''moderation_bot_token''
     ''Welcome bot token not configured'' ''Failed to decrypt the welcome bot token''"

definition build_admin_client :: "(string \<Rightarrow> string option) \<Rightarrow> moderation \<Rightarrow> string + client" where
  "build_admin_client decrypt = build_client decrypt Admin_Client ''moderation_mastodon_api_token''
     ''Mastodon API URL or token not configured'' ''Failed to decrypt the Mastodon API token''"

section \<open>Alerts\<close>

definition LINK_BREAKERS :: string where
  "LINK_BREAKERS = [CHR '' '', CHR 0x22, CHR 0x27, CHR ''<'', CHR ''>'', CHR 0x5C]"

definition http_url_or_none :: "string \<Rightarrow> string option" where
  "http_url_or_none value =
     (let v = py_strip value in
      if length v > 512 \<or> \<not> startswith_any (py_lower v) [''http://'', ''https://''] then None
      else if list_ex (\<lambda>ch. List.member LINK_BREAKERS ch \<or> code ch < 32) v then None
      else Some v)"

definition make_dedupe_key :: "string \<Rightarrow> string \<Rightarrow> string option \<Rightarrow> string" where
  "make_dedupe_key kind account_id status_id = kind @ '':'' @ account_id @ '':'' @ opt_str status_id"

text \<open>The text \<open>str(x)\<close> of an id that may be missing.\<close>

definition str_id :: "string option \<Rightarrow> string" where
  "str_id i = (case i of None \<Rightarrow> ''None'' | Some t \<Rightarrow> t)"

definition alert_row ::
  "int \<Rightarrow> usec \<Rightarrow> string \<Rightarrow> string \<Rightarrow> string \<Rightarrow> string option \<Rightarrow> status option \<Rightarrow> mod_alert" where
  "alert_row i now kind account_id acct excerpt st =
     (let status_id = map_option (\<lambda>t. str_id (st_id t)) st in
      \<lparr>ma_id = i, ma_kind = kind, ma_dedupe_key = make_dedupe_key kind account_id status_id,
       ma_account_id = account_id, ma_acct = acct, ma_status_id = status_id,
       ma_status_url = Option.bind st (\<lambda>t. http_url_or_none (st_url t)),
       ma_excerpt = (case st of Some t \<Rightarrow> Some (st_excerpt t) | None \<Rightarrow> excerpt),
       ma_created_at = now, ma_acknowledged_at = None, ma_acknowledged_by = None\<rparr>)"

definition alert_note :: "mod_alert \<Rightarrow> mod_note" where
  "alert_note a = Alert_Note (ma_kind a) (ma_acct a) (ma_status_url a) (ma_excerpt a)"

definition alert_details :: "mod_alert \<Rightarrow> json" where
  "alert_details a = JDict [(''kind'', JStr (ma_kind a)), (''account_id'', JStr (ma_account_id a)),
     (''status_url'', json_opt (ma_status_url a))]"

text \<open>
  The key is looked up before the row is added. That the insert finds the key taken after all (the
  \<^verbatim>\<open>IntegrityError\<close>) needs a second poll between the two and does not happen in one poll.
\<close>

definition record_alert ::
  "web \<Rightarrow> req_ctx \<Rightarrow> bool \<Rightarrow> string \<Rightarrow> string \<Rightarrow> string \<Rightarrow> string option \<Rightarrow> status option \<Rightarrow>
   moderation \<Rightarrow> bool \<times> moderation" where
  "record_alert W q notify kind account_id acct excerpt st s =
     (let a = alert_row (next_id ma_id (m_alerts s)) (clock W s) kind account_id acct excerpt st in
      if first_row (\<lambda>r. ma_dedupe_key r = ma_dedupe_key a) (m_alerts s) \<noteq> None then (False, s)
      else
        let s1 = mlog W q None (''moderation_alert_'' @ kind) ''mastodon_account'' (Some acct) (alert_details a)
                   (s\<lparr>m_alerts := m_alerts s @ [a]\<rparr>)
        in (True, if notify then s1\<lparr>m_notes := m_notes s1 @ [alert_note a]\<rparr> else s1))"

section \<open>Welcome messages and report notices\<close>

definition DEFAULT_WELCOME_TEMPLATE :: string where
  "DEFAULT_WELCOME_TEMPLATE =
     ''Welcome to the instance! Take a look at the local timeline to see what people are posting, and follow anyone who catches your eye -- you can also follow a hashtag to track a topic. Check out the About page for our house rules, and consider adding a bio and an avatar so people know you''
     @ [CHR 0x27] @ ''re a real person.''"

definition DEFAULT_REPORT_NOTICE_TEMPLATE :: string where
  "DEFAULT_REPORT_NOTICE_TEMPLATE =
     ''Thanks for report #{report_id}. Moderators reviewed it and took the action they felt was appropriate. We don''
     @ [CHR 0x27] @ ''t share details of actions taken on other accounts, so please keep reporting anything that concerns you.''"

definition welcome_record :: "moderation \<Rightarrow> string \<Rightarrow> welcome_row option" where
  "welcome_record s account_id = first_row (\<lambda>w. wl_account_id w = account_id) (m_welcomes s)"

definition report_notice_record :: "moderation \<Rightarrow> string \<Rightarrow> report_notice option" where
  "report_notice_record s report_id = first_row (\<lambda>n. rn_report_id n = report_id) (m_report_notices s)"

text \<open>Insert the row of a key, or overwrite it.\<close>

definition put_row :: "('a \<Rightarrow> bool) \<Rightarrow> 'a \<Rightarrow> 'a list \<Rightarrow> 'a list" where
  "put_row P r rows = (if first_row P rows = None then rows @ [r] else update_rows P (\<lambda>_. r) rows)"

definition welcome_key :: "string \<Rightarrow> string" where "welcome_key account_id = ''welcome-'' @ account_id"

text \<open>\<^verbatim>\<open>(record, error)\<close>: the error, if there is one.\<close>

definition send_welcome ::
  "web \<Rightarrow> req_ctx \<Rightarrow> client \<Rightarrow> string \<Rightarrow> dm_account \<Rightarrow> int option \<Rightarrow> bool \<Rightarrow> moderation \<Rightarrow> string option \<times> moderation" where
  "send_welcome W q bc account_id a sent_by force s =
     (if welcome_record s account_id \<noteq> None \<and> \<not> force then (Some ''already welcomed'', s)
      else
        case render_welcome W (mget s ''moderation_welcome_template'' DEFAULT_WELCOME_TEMPLATE) a (get_status_limit s) of
          None \<Rightarrow> (Some WELCOME_RENDER_ERROR, s)
        | Some text \<Rightarrow>
            (case post_direct W bc text (welcome_key account_id) s of
               (Inl (Api_Error m _ _), s1) \<Rightarrow> (Some m, s1)
             | (Inl (Value_Error m), s1) \<Rightarrow> (Some m, s1)
             | (Inr st, s1) \<Rightarrow>
                 (let row = \<lparr>wl_account_id = account_id, wl_acct = dm_acct a, wl_sent_at = clock W s1,
                             wl_sent_by = sent_by, wl_status_id = st_id st\<rparr>;
                      s2 = s1\<lparr>m_welcomes := put_row (\<lambda>w. wl_account_id w = account_id) row (m_welcomes s1)\<rparr>
                  in (None, mlog W q None ''mastodon_welcome_send'' ''mastodon_account'' (Some (dm_acct a))
                        (JDict [(''account_id'', JStr account_id), (''status_id'', json_opt (st_id st)),
                                (''automatic'', JBool (sent_by = None))]) s2))))"

definition notice_key :: "web \<Rightarrow> string \<Rightarrow> bool \<Rightarrow> moderation \<Rightarrow> string" where
  "notice_key W report_id force s =
     ''report-notice-'' @ report_id @ (if force then ''-r'' @ py_str_int (clock W s div 1000000) else [])"

text \<open>The text of a notice: the moderator's own, or the rendered template.\<close>

definition notice_text ::
  "web \<Rightarrow> string \<Rightarrow> dm_account \<Rightarrow> string option \<Rightarrow> moderation \<Rightarrow> string + string" where
  "notice_text W report_id a text s =
     (let limit = get_status_limit s in
      case text of
        Some t \<Rightarrow>
          (let full = ''@'' @ dm_acct a @ '' '' @ py_strip t in
           if int (length full) > limit
           then Inl (''Message would be '' @ nat_digits (length full) @ '' characters; this instance allows '' @
                     py_str_int limit)
           else Inr full)
      | None \<Rightarrow>
          (case Option.bind (render_report_notice_body W
                  (mget s ''moderation_report_notice_template'' DEFAULT_REPORT_NOTICE_TEMPLATE) a report_id)
                  (\<lambda>body. compose_direct (dm_acct a) body limit) of
             None \<Rightarrow> Inl REPORT_NOTICE_RENDER_ERROR
           | Some full \<Rightarrow> Inr full))"

definition send_report_notice ::
  "web \<Rightarrow> req_ctx \<Rightarrow> client \<Rightarrow> string \<Rightarrow> string option \<Rightarrow> dm_account \<Rightarrow> string option \<Rightarrow> int option \<Rightarrow> bool \<Rightarrow>
   moderation \<Rightarrow> string option \<times> moderation" where
  "send_report_notice W q bc report_id reporter_id a text sent_by force s =
     (if report_notice_record s report_id \<noteq> None \<and> \<not> force then (Some ''already notified'', s)
      else
        case notice_text W report_id a text s of
          Inl e \<Rightarrow> (Some e, s)
        | Inr full \<Rightarrow>
            (case post_direct W bc full (notice_key W report_id force s) s of
               (Inl (Api_Error m _ _), s1) \<Rightarrow> (Some m, s1)
             | (Inl (Value_Error m), s1) \<Rightarrow> (Some m, s1)
             | (Inr st, s1) \<Rightarrow>
                 (let row = \<lparr>rn_report_id = report_id, rn_reporter_id = reporter_id, rn_reporter_acct = dm_acct a,
                             rn_sent_at = clock W s1, rn_sent_by = sent_by, rn_status_id = st_id st\<rparr>;
                      s2 = s1\<lparr>m_report_notices :=
                             put_row (\<lambda>n. rn_report_id n = report_id) row (m_report_notices s1)\<rparr>
                  in (None, mlog W q None ''mastodon_report_notice_send'' ''mastodon_report''
                        (Some (''report '' @ report_id))
                        (JDict [(''report_id'', JStr report_id), (''reporter_account_id'', json_opt reporter_id),
                                (''reporter_acct'', JStr (dm_acct a)), (''status_id'', json_opt (st_id st)),
                                (''remote'', JBool (CHR ''@'' \<in> set (dm_acct a))), (''forced'', JBool force)]) s2))))"

section \<open>Steps of a poll\<close>

definition expired :: "usec \<Rightarrow> watch \<Rightarrow> bool" where
  "expired now w = (case w_expires_at w of None \<Rightarrow> False | Some t \<Rightarrow> t < now)"

definition stale_alert :: "usec \<Rightarrow> int \<Rightarrow> mod_alert \<Rightarrow> bool" where
  "stale_alert now retention a =
     (case ma_acknowledged_at a of
        Some t \<Rightarrow> t < now - usec_of_days ALERT_RETENTION_DAYS
      | None \<Rightarrow> ma_created_at a < now - usec_of_days retention)"

definition prune :: "usec \<Rightarrow> moderation \<Rightarrow> moderation" where
  "prune now s =
     s\<lparr>m_watches := filter (\<lambda>w. \<not> expired now w) (m_watches s),
       m_alerts := filter (\<lambda>a. \<not> stale_alert now (log_retention_days s) a) (m_alerts s)\<rparr>"

text \<open>One new post of a watched account; the handle the post carries becomes the watch's.\<close>

definition alert_post :: "web \<Rightarrow> req_ctx \<Rightarrow> string \<Rightarrow> status \<Rightarrow> string \<times> moderation \<Rightarrow> string \<times> moderation" where
  "alert_post W q account_id st = (\<lambda>(acct, s).
     let handle = str_or (opt_str (st_account_acct st)) acct;
         (created, s1) = record_alert W q True ''watched_post'' account_id handle None (Some st) s
     in (handle, if created then on_result (\<lambda>r. r\<lparr>pr_watched_post := Suc (pr_watched_post r)\<rparr>) s1 else s1))"

definition poll_watch :: "web \<Rightarrow> req_ctx \<Rightarrow> client \<Rightarrow> watch \<Rightarrow> unit pio" where
  "poll_watch W q c w =
     (case w_last_status_id w of
        None \<Rightarrow>
          rbind (account_statuses W c (w_account_id w) None 1) (\<lambda>sts s.
            (Inr (), case sts of
               [] \<Rightarrow> s
             | st # _ \<Rightarrow> set_watch (w_id w) (\<lambda>r. r\<lparr>w_last_status_id := st_id st,
                 w_acct := str_or (opt_str (st_account_acct st)) (w_acct r)\<rparr>) s))
      | Some last_id \<Rightarrow>
          rbind (account_statuses W c (w_account_id w) (Some last_id) 40) (\<lambda>sts s.
            if sts = [] then (Inr (), s)
            else let (acct, s1) = fold (alert_post W q (w_account_id w)) (rev sts) (w_acct w, s)
                 in (Inr (), set_watch (w_id w) (\<lambda>r. r\<lparr>w_acct := acct, w_last_status_id := st_id (hd sts)\<rparr>) s1)))"

text \<open>Never checked first, then the longest unchecked; ties by key, the order of the table (the sort is stable).\<close>

definition due_watches :: "moderation \<Rightarrow> watch list" where
  "due_watches s = take MAX_WATCH_REQUESTS_PER_RUN (sort_key w_last_checked_at (m_watches s))"

definition watch_label :: "watch \<Rightarrow> string" where
  "watch_label w = ''@'' @ w_acct w @ '' (account '' @ w_account_id w @ '')''"

definition drop_watch :: "web \<Rightarrow> req_ctx \<Rightarrow> watch \<Rightarrow> nat \<Rightarrow> moderation \<Rightarrow> moderation" where
  "drop_watch W q w http_status s =
     (let s1 = mlog W q (Some ''moderation watch'') ''mastodon_watch_remove'' ''mastodon_account'' (Some (w_acct w))
                 (JDict [(''watch_id'', JInt (w_id w)), (''account_id'', JStr (w_account_id w)),
                         (''reason'', JStr ''account no longer exists on the instance''),
                         (''http_status'', JInt (int http_status))]) s;
          s2 = s1\<lparr>m_watches := filter (\<lambda>r. w_id r \<noteq> w_id w) (m_watches s1)\<rparr>
      in on_result (\<lambda>r. r\<lparr>pr_notices := pr_notices r @
             [''Removed watch on '' @ watch_label w @ '': the account no longer exists''],
             pr_watch_total := pr_watch_total r - 1\<rparr>) s2)"

definition mark_checked :: "usec \<Rightarrow> watch \<Rightarrow> moderation \<Rightarrow> moderation" where
  "mark_checked now w = set_watch (w_id w) (\<lambda>r. r\<lparr>w_last_checked_at := Some now\<rparr>)"

fun check_each :: "web \<Rightarrow> req_ctx \<Rightarrow> client \<Rightarrow> usec \<Rightarrow> watch list \<Rightarrow> nat \<Rightarrow> nat pio" where
  "check_each W q c now [] n s = (Inr n, s)"
| "check_each W q c now (w # ws) n s =
     (if \<not> budget_ok c RATE_RESERVE s then (Inr n, set_deferred s)
      else case poll_watch W q c w s of
             (Inr _, s1) \<Rightarrow> check_each W q c now ws (Suc n) (mark_checked now w s1)
           | (Inl (Value_Error v), s1) \<Rightarrow> (Inl (Value_Error v), s1)
           | (Inl (Api_Error m st ra), s1) \<Rightarrow>
               (if st = Some 429 then (Inl (Api_Error m st ra), s1)
                else if st = Some 404 \<or> st = Some 410
                then check_each W q c now ws n (drop_watch W q w (the st) s1)
                else check_each W q c now ws (Suc n)
                       (mark_checked now w (add_error (''check_watched '' @ watch_label w @ '': '' @ m) s1))))"

definition check_watched :: "web \<Rightarrow> req_ctx \<Rightarrow> client \<Rightarrow> usec \<Rightarrow> unit pio" where
  "check_watched W q c now s =
     rbind (check_each W q c now (due_watches s) 0)
       (\<lambda>n s. (Inr (), on_result (\<lambda>r. r\<lparr>pr_checked := n\<rparr>) s))
       (on_result (\<lambda>r. r\<lparr>pr_watch_total := int (length (m_watches s))\<rparr>) s)"

definition auto_watch :: "usec \<Rightarrow> int \<Rightarrow> activity \<Rightarrow> moderation \<Rightarrow> moderation" where
  "auto_watch now days a s =
     (let account_id = str_id (ac_id a) in
      if days > 0 \<and> first_row (\<lambda>w. w_account_id w = account_id) (m_watches s) = None then
        s\<lparr>m_watches := m_watches s @
          [\<lparr>w_id = next_id w_id (m_watches s), w_account_id = account_id, w_acct = ac_acct a,
            w_reason = Some ''Auto-watch: new account'', w_added_by = None,
            w_expires_at = Some (now + usec_of_days days), w_auto_added = True,
            w_last_status_id = None, w_last_checked_at = None\<rparr>]\<rparr>
      else s)"

definition new_account :: "web \<Rightarrow> req_ctx \<Rightarrow> usec \<Rightarrow> int \<Rightarrow> activity \<Rightarrow> moderation \<Rightarrow> moderation" where
  "new_account W q now days a s =
     (let (created, s1) = record_alert W q True ''new_account'' (str_id (ac_id a)) (ac_acct a) None None s;
          s2 = (if created then on_result (\<lambda>r. r\<lparr>pr_new_account := Suc (pr_new_account r)\<rparr>) s1 else s1)
      in auto_watch now days a s2)"

definition CURSOR :: string where "CURSOR = ''moderation_watch_new_account_cursor''"

definition discover_new_accounts :: "web \<Rightarrow> req_ctx \<Rightarrow> client \<Rightarrow> usec \<Rightarrow> watch_settings \<Rightarrow> unit pio" where
  "discover_new_accounts W q c now settings s =
     (if \<not> budget_ok c RATE_RESERVE s then (Inr (), set_deferred s)
      else
        let cursor_raw = mget s CURSOR [] in
        if cursor_raw = [] then
          rbind (list_local_accounts W c None 1) (\<lambda>accounts s.
            let s1 = (case accounts of
                        [] \<Rightarrow> s
                      | a # _ \<Rightarrow> if ac_created_at a \<noteq> [] then mset CURSOR (ac_created_at a) s else s)
            in (Inr (), on_result (\<lambda>r. r\<lparr>pr_bootstrapped := True\<rparr>) s1)) s
        else
          rbind (list_local_accounts W c (parse_iso W cursor_raw) 2) (\<lambda>accounts s.
            if accounts = [] then (Inr (), s)
            else let s1 = fold (new_account W q now (ws_auto_watch_days settings)) (rev accounts) s;
                     s2 = mset CURSOR (str_or (ac_created_at (hd accounts)) cursor_raw) s1
                 in (Inr (), on_result (\<lambda>r. r\<lparr>pr_new_accounts := rev accounts\<rparr>) s2)) s)"

definition dm_of :: "activity \<Rightarrow> dm_account" where
  "dm_of a = \<lparr>dm_username = ac_username a, dm_display_name = ac_display_name a, dm_acct = ac_acct a\<rparr>"

fun welcome_each ::
  "web \<Rightarrow> req_ctx \<Rightarrow> client \<Rightarrow> string option \<Rightarrow> activity list \<Rightarrow> nat \<Rightarrow> moderation \<Rightarrow> nat \<times> moderation" where
  "welcome_each W q bc self [] n s = (n, s)"
| "welcome_each W q bc self (a # as) n s =
     (if n \<ge> MAX_WELCOMES_PER_RUN then (n, s)
      else
        let account_id = str_id (ac_id a) in
        if opt_str self \<noteq> [] \<and> self = Some account_id \<or> welcome_record s account_id \<noteq> None
        then welcome_each W q bc self as n s
        else if \<not> budget_ok bc RATE_RESERVE s then (n, set_deferred s)
        else case send_welcome W q bc account_id (dm_of a) None False s of
               (None, s1) \<Rightarrow> welcome_each W q bc self as (Suc n) s1
             | (Some e, s1) \<Rightarrow> welcome_each W q bc self as n (add_error (''send_welcome: '' @ e) s1))"

text \<open>The bot's own account; without an answer nobody is excluded.\<close>

definition bot_identity :: "web \<Rightarrow> client \<Rightarrow> moderation \<Rightarrow> string option \<times> moderation" where
  "bot_identity W bc s =
     (case bot_verify W bc s of (Inl _, s1) \<Rightarrow> (None, s1) | (Inr i, s1) \<Rightarrow> (Some (str_id i), s1))"

definition send_welcomes :: "web \<Rightarrow> req_ctx \<Rightarrow> client \<Rightarrow> activity list \<Rightarrow> moderation \<Rightarrow> moderation" where
  "send_welcomes W q bc accounts s =
     (if pr_bootstrapped (m_result s) \<or> accounts = [] then s
      else
        let (self, s1) = bot_identity W bc s;
            (n, s2) = welcome_each W q bc self (sort_key ac_created_at accounts) 0 s1
        in on_result (\<lambda>r. r\<lparr>pr_welcomed := n\<rparr>) s2)"

definition is_silent :: "web \<Rightarrow> usec \<Rightarrow> watch_settings \<Rightarrow> activity \<Rightarrow> bool" where
  "is_silent W now settings a =
     (case (ac_statuses_count a, parse_iso W (ac_created_at a), Option.bind (ac_last_login_at a) (parse_iso W)) of
        (n, Some created_at, Some last_login) \<Rightarrow>
          (n = None \<or> n = Some 0) \<and>
          \<not> created_at > now - usec_of_days (ws_silent_min_age_days settings) \<and>
          \<not> last_login < now - usec_of_days (ws_silent_login_days settings)
      | _ \<Rightarrow> False)"

definition silent_excerpt :: "web \<Rightarrow> activity \<Rightarrow> string" where
  "silent_excerpt W a = ''Created '' @ wb_isodate W (ac_created_at a) @ '', last login '' @
     wb_isodate W (opt_str (ac_last_login_at a)) @ '', 0 posts''"

definition silent_account ::
  "web \<Rightarrow> req_ctx \<Rightarrow> activity \<Rightarrow> activity list \<times> moderation \<Rightarrow> activity list \<times> moderation" where
  "silent_account W q a = (\<lambda>(found, s).
     let (created, s1) = record_alert W q False ''silent_login'' (str_id (ac_id a)) (ac_acct a)
                           (Some (silent_excerpt W a)) None s
     in if created
        then (found @ [a], on_result (\<lambda>r. r\<lparr>pr_silent_login := Suc (pr_silent_login r)\<rparr>) s1)
        else (found, s1))"

definition SILENT_SCAN :: string where "SILENT_SCAN = ''moderation_watch_silent_last_scan_at''"

definition scanned_recently :: "web \<Rightarrow> usec \<Rightarrow> moderation \<Rightarrow> bool" where
  "scanned_recently W now s =
     (case parse_iso W (mget s SILENT_SCAN []) of
        None \<Rightarrow> False | Some t \<Rightarrow> now - t < usec_of_hours SILENT_SCAN_MIN_HOURS)"

definition scan_silent_logins :: "web \<Rightarrow> req_ctx \<Rightarrow> client \<Rightarrow> usec \<Rightarrow> watch_settings \<Rightarrow> unit pio" where
  "scan_silent_logins W q c now settings s =
     (if scanned_recently W now s then (Inr (), s)
      else if \<not> budget_ok c (RATE_RESERVE + 10) s then (Inr (), set_deferred s)
      else
        rbind (list_local_accounts W c (Some (now - usec_of_days (ws_silent_scan_window_days settings))) 10)
          (\<lambda>accounts s.
            let (found, s1) = fold (silent_account W q) (filter (is_silent W now settings) accounts) ([], s);
                s2 = (if found = [] then s1
                      else s1\<lparr>m_notes := m_notes s1 @ [Silent_Summary (length found) (map ac_acct (take 5 found))]\<rparr>)
            in (Inr (), mset SILENT_SCAN (wb_isoformat W now) s2)) s)"

definition maybe_refresh_status_limit :: "web \<Rightarrow> client \<Rightarrow> usec \<Rightarrow> moderation \<Rightarrow> moderation" where
  "maybe_refresh_status_limit W c now s =
     (let stale = (case parse_iso W (mget s STATUS_LIMIT_CHECKED_SETTING []) of
                     None \<Rightarrow> True | Some t \<Rightarrow> now - t \<ge> usec_of_hours STATUS_LIMIT_REFRESH_HOURS) in
      if \<not> stale \<or> \<not> budget_ok c RATE_RESERVE s then s
      else case refresh_status_limit W c s of
             (Inl _, s1) \<Rightarrow> s1
           | (Inr v, s1) \<Rightarrow> on_result (\<lambda>r. r\<lparr>pr_status_limit := Some v\<rparr>) s1)"

section \<open>The poll\<close>

definition empty_result :: poll_result where
  "empty_result = \<lparr>pr_checked = 0, pr_watch_total = 0, pr_watched_post = 0, pr_new_account = 0,
     pr_silent_login = 0, pr_deferred = False, pr_bootstrapped = False, pr_backoff_until = None,
     pr_errors = [], pr_notices = [], pr_new_accounts = [], pr_welcomed = 0, pr_status_limit = None\<rparr>"

text \<open>A step of the poll: an API error is noted, and a 429 sets the back-off and ends the run.\<close>

definition note_error :: "web \<Rightarrow> usec \<Rightarrow> string \<Rightarrow> string \<Rightarrow> nat option \<Rightarrow> int option \<Rightarrow> moderation \<Rightarrow> bool \<times> moderation" where
  "note_error W now step m st ra s =
     (let s1 = add_error (step @ '': '' @ m) s in
      if st = Some 429 then
        (True, on_result (\<lambda>r. r\<lparr>pr_backoff_until :=
           Some (wb_isoformat W (now + usec_of_seconds (case ra of None \<Rightarrow> 60 | Some n \<Rightarrow> n)))\<rparr>) s1)
      else (False, s1))"

definition poll_step :: "web \<Rightarrow> usec \<Rightarrow> string \<Rightarrow> unit pio \<Rightarrow> bool \<Rightarrow> bool pio" where
  "poll_step W now step m aborted s =
     (if aborted then (Inr True, s)
      else case m s of
             (Inr _, s1) \<Rightarrow> (Inr False, s1)
           | (Inl (Api_Error msg st ra), s1) \<Rightarrow> (let (ab, s2) = note_error W now step msg st ra s1 in (Inr ab, s2))
           | (Inl (Value_Error v), s1) \<Rightarrow> (Inl (Value_Error v), s1))"

definition welcome_step :: "web \<Rightarrow> req_ctx \<Rightarrow> client option \<Rightarrow> unit pio" where
  "welcome_step W q bc s =
     (Inr (), case bc of
        None \<Rightarrow> s
      | Some b \<Rightarrow>
          if pr_new_accounts (m_result s) \<noteq> [] \<and> mget s ''moderation_welcome_enabled'' ''false'' = ''true''
          then send_welcomes W q b (pr_new_accounts (m_result s)) s else s)"

definition persisted :: "web \<Rightarrow> rate_limit option \<Rightarrow> poll_result \<Rightarrow> json" where
  "persisted W rl r =
     JDict [(''checked'', JInt (int (pr_checked r))), (''watch_total'', JInt (pr_watch_total r)),
       (''alerts'', JDict [(''watched_post'', JInt (int (pr_watched_post r))),
          (''new_account'', JInt (int (pr_new_account r))), (''silent_login'', JInt (int (pr_silent_login r)))]),
       (''deferred'', JBool (pr_deferred r)), (''bootstrapped'', JBool (pr_bootstrapped r)),
       (''backoff_until'', json_opt (pr_backoff_until r)), (''errors'', JList (map JStr (pr_errors r))),
       (''notices'', JList (map JStr (pr_notices r))),
       (''rate_limit'', case rl of
          None \<Rightarrow> JNull
        | Some l \<Rightarrow> JDict [(''limit'', case rl_limit l of None \<Rightarrow> JNull | Some n \<Rightarrow> JInt n),
                         (''remaining'', case rl_remaining l of None \<Rightarrow> JNull | Some n \<Rightarrow> JInt n),
                         (''reset_at'', json_opt (map_option (wb_isoformat W) (rl_reset_at l)))]),
       (''welcomed'', JInt (int (pr_welcomed r))),
       (''status_limit'', case pr_status_limit r of None \<Rightarrow> JNull | Some n \<Rightarrow> JInt n)]"

definition finish_poll :: "web \<Rightarrow> client \<Rightarrow> usec \<Rightarrow> unit pio" where
  "finish_poll W c now s =
     (let s1 = mset ''moderation_watch_last_run_at'' (wb_isoformat W now) s
      in (Inr (), mset ''moderation_watch_last_run_result''
            (wb_dumps W (persisted W (n_rate s1 (cl_kind c)) (m_result s1))) s1))"

definition run_watch_poll :: "web \<Rightarrow> req_ctx \<Rightarrow> client \<Rightarrow> client option \<Rightarrow> usec \<Rightarrow> unit pio" where
  "run_watch_poll W q c bc now s =
     (let settings = get_watch_settings s;
          s0 = prune now (maybe_refresh_status_limit W c now (s\<lparr>m_result := empty_result\<rparr>))
      in rbind (poll_step W now ''check_watched'' (check_watched W q c now) False) (\<lambda>ab1.
         rbind (poll_step W now ''discover_new_accounts'' (discover_new_accounts W q c now settings) ab1) (\<lambda>ab2.
         rbind (poll_step W now ''send_welcomes'' (welcome_step W q bc) ab2) (\<lambda>ab3.
         rbind (poll_step W now ''scan_silent_logins'' (scan_silent_logins W q c now settings) ab3) (\<lambda>_.
         finish_poll W c now)))) s0)"

end
