(* ===== verification/Moderation_Safety.thy ===== *)
theory Moderation_Safety
  imports Moderation_Watch
begin

text \<open>
  Properties of the moderation poll. The locales state what a relation between the state before and
  after has to satisfy for the elementary steps (client calls that only read, table writes, one alert,
  one welcome message) so that it holds of every step of the poll and of the poll itself; they are
  interpreted with the relations the properties speak about.
\<close>

section \<open>Frames\<close>

lemma more_cong:
  assumes "net.more s' = net.more s"
  shows "m_app s' = m_app s" "m_watches s' = m_watches s" "m_alerts s' = m_alerts s"
    "m_welcomes s' = m_welcomes s" "m_report_notices s' = m_report_notices s" "m_notes s' = m_notes s"
    "m_result s' = m_result s"
  using assms by (cases s; cases s'; simp)+

named_theorems mod_frame "what the table writes keep"

lemma mset_frame [mod_frame]:
  "n_reqs (mset k v s) = n_reqs s" "n_rate (mset k v s) = n_rate s" "m_watches (mset k v s) = m_watches s"
  "m_alerts (mset k v s) = m_alerts s" "m_welcomes (mset k v s) = m_welcomes s" "m_notes (mset k v s) = m_notes s"
  "m_result (mset k v s) = m_result s"
  by (simp_all add: mset_def)

lemma mlog_frame [mod_frame]:
  "n_reqs (mlog W q a b d e f s) = n_reqs s" "n_rate (mlog W q a b d e f s) = n_rate s"
  "m_watches (mlog W q a b d e f s) = m_watches s" "m_alerts (mlog W q a b d e f s) = m_alerts s"
  "m_welcomes (mlog W q a b d e f s) = m_welcomes s" "m_notes (mlog W q a b d e f s) = m_notes s"
  "m_result (mlog W q a b d e f s) = m_result s"
  by (simp_all add: mlog_def)

lemma on_result_frame [mod_frame]:
  "n_reqs (on_result h s) = n_reqs s" "n_rate (on_result h s) = n_rate s" "m_watches (on_result h s) = m_watches s"
  "m_alerts (on_result h s) = m_alerts s" "m_welcomes (on_result h s) = m_welcomes s"
  "m_notes (on_result h s) = m_notes s" "m_result (on_result h s) = h (m_result s)" "m_app (on_result h s) = m_app s"
  by (simp_all add: on_result_def)

text \<open>A client call that only reads.\<close>

definition reads :: "('x, 'a) mio \<Rightarrow> bool" where
  "reads m \<longleftrightarrow> (\<exists>n. calls n (\<lambda>q. hr_method q = ''GET'') m)"

lemma calls_get: "calls 1 (\<lambda>q. hr_method q = ''GET'') (get W c path ps)"
  unfolding get_def
  by (rule calls_mono[OF calls_request_to_host[of False]]) (simp_all add: to_host_def)

lemma calls_get_then:
  assumes "\<And>x. calls 0 (\<lambda>q. hr_method q = ''GET'') (k x)"
  shows "calls 1 (\<lambda>q. hr_method q = ''GET'') (rbind (get W c path ps) k)"
  using calls_rbind_dep[OF calls_get assms] by simp

lemma reads_account_statuses: "reads (account_statuses W c i since n)"
  unfolding reads_def account_statuses_def
  by (cases "py_int i")
     (auto intro!: exI[of _ 1] calls_intros calls_get_then split: payload.splits)

lemma reads_iter_pages: "reads (iter_pages n W c path ps k acc)"
  unfolding reads_def
  by (rule exI[of _ n], rule calls_mono[OF iter_pages_calls[of False]]) (simp_all add: to_host_def)

lemma reads_list_local_accounts: "reads (list_local_accounts W c t n)"
  by (simp add: list_local_accounts_def reads_iter_pages)

lemma reads_bot_verify: "reads (bot_verify W c)"
  unfolding reads_def bot_verify_def
  by (intro exI[of _ 1] calls_get_then) (auto intro: calls_intros)

lemma calls_rcatch:
  assumes "calls a P m" "\<And>e k. h e = Some k \<Longrightarrow> calls b P k"
  shows "calls (a + b) P (rcatch m h)"
  unfolding calls_def
proof (intro allI)
  fix s
  obtain r s1 where m: "m s = (r, s1)" by fastforce
  obtain qs where qs: "n_reqs s1 = n_reqs s @ qs" "length qs \<le> a" "\<forall>q \<in> set qs. P q" "net.more s1 = net.more s"
    using callsD[OF assms(1), of s] m by auto
  show "net.more (snd (rcatch m h s)) = net.more s \<and>
        (\<exists>qs. n_reqs (snd (rcatch m h s)) = n_reqs s @ qs \<and> length qs \<le> a + b \<and> (\<forall>q \<in> set qs. P q))"
  proof (cases "\<exists>e k. r = Inl e \<and> h e = Some k")
    case True
    then obtain e k where e: "r = Inl e" "h e = Some k" by blast
    obtain ws where "n_reqs (snd (k s1)) = n_reqs s1 @ ws" "length ws \<le> b" "\<forall>q \<in> set ws. P q"
      "net.more (snd (k s1)) = net.more s1"
      using callsD[OF assms(2)[OF e(2)], of s1] by auto
    then show ?thesis using qs m e by (intro conjI exI[of _ "qs @ ws"]) (auto simp: rcatch_def)
  next
    case False
    then have "snd (rcatch m h s) = s1" by (auto simp: rcatch_def m split: sum.splits option.splits)
    then show ?thesis using qs by auto
  qed
qed

lemma calls_try_max_chars: "calls 1 (\<lambda>q. hr_method q = ''GET'') (try_max_chars W c path extract)"
proof -
  have "calls (1 + 0) (\<lambda>q. hr_method q = ''GET'') (try_max_chars W c path extract)"
    unfolding try_max_chars_def
    by (intro calls_rcatch calls_get_then) (auto intro: calls_intros split: mexn.splits)
  then show ?thesis by simp
qed

lemma reads_max_status_chars: "reads (max_status_chars W c :: ('x, int) mio)"
proof -
  let ?G = "\<lambda>q. hr_method q = ''GET''"
  have ret: "calls 0 ?G (rreturn n :: ('x, int) mio)" "calls 0 ?G (rraise e :: ('x, int) mio)" for n e
    by (rule calls_intros)+
  have "calls (1 + (1 + 0)) ?G (max_status_chars W c :: ('x, int) mio)"
    unfolding max_status_chars_def
  proof (rule calls_rbind_dep[OF calls_try_max_chars], goal_cases)
    case (1 s v2 s')
    have "calls (1 + 0) ?G (rbind (try_max_chars W c ''/api/v1/instance'' extract_v1_max_chars) (\<lambda>v1.
             case v1 of
               Inr (Some n) \<Rightarrow> rreturn (clamp MIN_STATUS_CHARS MAX_STATUS_CHARS_CEILING n)
             | Inl e \<Rightarrow> if hard_fail v2 \<and> hard_fail v1 then rraise e else rreturn MAX_STATUS_CHARS
             | Inr None \<Rightarrow> rreturn MAX_STATUS_CHARS) :: ('x, int) mio)"
      by (rule calls_rbind_dep[OF calls_try_max_chars]) (auto intro: ret split: sum.splits option.splits)
    then show ?case
      by (auto intro: calls_mono[OF ret(1)] split: sum.splits option.splits)
  qed
  then show ?thesis unfolding reads_def by blast
qed

lemma readsD:
  assumes "reads m" "m s = (r, s')"
  shows "net.more s' = net.more s" "\<exists>qs. n_reqs s' = n_reqs s @ qs \<and> (\<forall>q \<in> set qs. hr_method q = ''GET'')"
  using assms unfolding reads_def calls_def by (metis snd_conv)+

section \<open>Relations every step keeps\<close>

text \<open>The three uses of an alert: posts and sign-ups notify, silent logins are summed up.\<close>

definition alert_use :: "bool \<Rightarrow> string \<Rightarrow> bool" where
  "alert_use notify kind \<longleftrightarrow>
     (notify, kind) \<in> {(True, ''watched_post''), (True, ''new_account''), (False, ''silent_login'')}"

text \<open>Only the end of a run writes the back-off, and no step takes back that work was deferred.\<close>

definition keeps_backoff :: "(poll_result \<Rightarrow> poll_result) \<Rightarrow> bool" where
  "keeps_backoff h \<longleftrightarrow>
     (\<forall>r. pr_backoff_until (h r) = pr_backoff_until r \<and> (pr_deferred r \<longrightarrow> pr_deferred (h r)))"

text \<open>
  What a step may do besides changing the table of watches; \<open>poll_frame\<close> adds that table, and the
  locales ending in \<open>welcome\<close> add the messages of the bot.
\<close>

locale poll_quiet =
  fixes R :: "moderation \<Rightarrow> moderation \<Rightarrow> bool"
  assumes R_refl: "R s s"
    and R_trans: "R s t \<Longrightarrow> R t u \<Longrightarrow> R s u"
    and R_read: "net.more s' = net.more s \<Longrightarrow>
       (\<exists>qs. n_reqs s' = n_reqs s @ qs \<and> (\<forall>p \<in> set qs. hr_method p = ''GET'')) \<Longrightarrow> R s s'"
    and R_mset: "R s (mset k v s)"
    and R_mlog: "R s (mlog W q a b d e f s)"
    and R_result: "keeps_backoff h \<Longrightarrow> R s (on_result h s)"
    and R_alert: "alert_use notify kind \<Longrightarrow> R s (snd (record_alert W q notify kind i acct ex st s))"
    and R_summary: "R s (s\<lparr>m_notes := m_notes s @ [Silent_Summary n accts]\<rparr>)"
begin

lemma reads_R: "reads m \<Longrightarrow> m s = (r, s') \<Longrightarrow> R s s'"
  by (intro R_read readsD)

lemma R_rbind:
  assumes "reads m" "\<And>x t. R t (snd (k x t))"
  shows "R s (snd (rbind m k s))"
proof (cases "m s")
  case (Pair r t)
  then have "R s t" by (rule reads_R[OF assms(1)])
  then show ?thesis using Pair assms(2) by (auto simp: rbind_def intro: R_trans split: sum.splits)
qed

lemma R_fold:
  assumes "\<And>x a s. R s (snd (f x (a, s)))"
  shows "R s (snd (fold f xs (a, s)))"
proof (induction xs arbitrary: a s)
  case (Cons x xs)
  obtain a' s1 where fx: "f x (a, s) = (a', s1)" by fastforce
  have "R s s1" using assms[of s x a] fx by simp
  then show ?case using R_trans[OF _ Cons.IH] fx by simp
qed (simp add: R_refl)

lemma R_alert_eq: "record_alert W q notify kind i acct ex st s = (b, s') \<Longrightarrow> alert_use notify kind \<Longrightarrow> R s s'"
  using R_alert[of notify kind s W q i acct ex st] by simp

lemma R_counted:
  "record_alert W q notify kind i acct ex st s = (b, t) \<Longrightarrow> alert_use notify kind \<Longrightarrow> keeps_backoff h \<Longrightarrow>
   R s (on_result h t)"
  using R_alert_eq R_result R_trans by (metis (full_types))

lemma R_alert_post: "R s (snd (alert_post W q i st (acct, s)))"
  by (auto simp: alert_post_def Let_def alert_use_def keeps_backoff_def split: prod.splits intro: R_counted R_alert_eq)

lemma R_deferred: "R s (set_deferred s)"
  by (simp add: set_deferred_def R_result keeps_backoff_def)

lemma R_add_error: "R s (add_error m s)"
  by (simp add: add_error_def R_result keeps_backoff_def)

lemma R_new_account:
  assumes "\<And>a t. R t (auto_watch now days a t)"
  shows "R s (new_account W q now days a s)"
  by (auto simp: new_account_def Let_def split: prod.splits
      intro: R_trans[OF R_counted assms] R_trans[OF R_alert_eq assms] simp: alert_use_def keeps_backoff_def)

lemma R_fold1: "(\<And>x s. R s (f x s)) \<Longrightarrow> R s (fold f xs s)"
  by (induction xs arbitrary: s) (auto intro: R_refl R_trans)

lemma R_discover_if:
  assumes "\<And>a t. R t (auto_watch now (ws_auto_watch_days settings) a t)"
  shows "R s (snd (discover_new_accounts W q c now settings s))"
proof -
  have boot: "R t (on_result h (case accounts of [] \<Rightarrow> t
      | a # _ \<Rightarrow> if ac_created_at a \<noteq> [] then mset CURSOR (ac_created_at a) t else t))" if "keeps_backoff h" for t h accounts
    using that by (cases accounts) (auto intro: R_result R_trans[OF R_mset R_result])
  have more: "R t (on_result h (mset CURSOR v (fold (new_account W q now (ws_auto_watch_days settings)) as t)))" if "keeps_backoff h" for t h v as
    by (rule R_trans[OF _ R_result[OF that]], rule R_trans[OF _ R_mset], rule R_fold1) (rule R_new_account[OF assms])
  show ?thesis
    unfolding discover_new_accounts_def Let_def
    by (auto intro!: R_rbind reads_list_local_accounts boot more R_refl R_deferred simp: keeps_backoff_def)
qed

lemma R_silent_account: "R s (snd (silent_account W q a (found, s)))"
  by (auto simp: silent_account_def Let_def alert_use_def keeps_backoff_def split: prod.splits
      intro: R_counted R_alert_eq)

lemma R_scan_silent_logins: "R s (snd (scan_silent_logins W q c now settings s))"
proof -
  have step: "R t (snd (let (found, s1) = fold (silent_account W q) as ([], t);
                s2 = (if found = [] then s1
                      else s1\<lparr>m_notes := m_notes s1 @ [Silent_Summary (length found) (map ac_acct (take 5 found))]\<rparr>)
            in (Inr () :: mexn + unit, mset SILENT_SCAN v s2)))" for t as v
  proof -
    obtain found s1 where f: "fold (silent_account W q) as ([], t) = (found, s1)" by fastforce
    have "R t s1" using R_fold[of "silent_account W q" t as "[]", OF R_silent_account] f by simp
    then show ?thesis using f by (auto simp: Let_def intro: R_trans[OF _ R_mset] R_trans[OF _ R_trans[OF R_summary R_mset]])
  qed
  show ?thesis
    unfolding scan_silent_logins_def
    by (auto simp only: R_refl R_deferred snd_conv split: if_splits intro!: R_rbind reads_list_local_accounts step)
qed

lemma R_maybe_refresh: "R s (maybe_refresh_status_limit W c now s)"
proof -
  obtain r s1 where m: "max_status_chars W c s = (r, s1)" by fastforce
  have "R s s1" by (rule reads_R[OF reads_max_status_chars m])
  then have step: "R s (mset k v (mset k' v' s1))" for k v k' v'
    by (blast intro: R_trans[OF _ R_trans[OF R_mset R_mset]])
  have lim: "keeps_backoff (\<lambda>r. r\<lparr>pr_status_limit := v\<rparr>)" for v
    by (simp add: keeps_backoff_def)
  show ?thesis
    using m \<open>R s s1\<close> R_trans[OF \<open>R s s1\<close> R_result[OF lim]] R_trans[OF step R_result[OF lim]]
    by (auto simp: maybe_refresh_status_limit_def refresh_status_limit_def Let_def R_refl
        split: sum.splits mexn.splits prod.splits)
qed

lemma R_finish_poll: "R s (snd (finish_poll W c now s))"
  by (auto simp: finish_poll_def Let_def intro: R_trans[OF R_mset R_mset])

end

locale poll_frame = poll_quiet +
  assumes R_watches: "R s (s\<lparr>m_watches := ws\<rparr>)"
begin

lemma R_set_watch: "R s (set_watch i h s)"
  by (simp add: set_watch_def R_watches)

lemma R_poll_watch: "R s (snd (poll_watch W q c w s))"
proof -
  have "R t (snd (if sts = [] then (Inr (), t)
          else let (acct, s1) = fold (alert_post W q (w_account_id w)) (rev sts) (w_acct w, t)
               in (Inr (), set_watch (w_id w) (\<lambda>r. r\<lparr>w_acct := acct, w_last_status_id := st_id (hd sts)\<rparr>) s1)))"
    for sts t
    using R_fold[of "alert_post W q (w_account_id w)" t "rev sts" "w_acct w", OF R_alert_post]
    by (auto simp: R_refl split: prod.splits intro: R_trans[OF _ R_set_watch])
  then show ?thesis
    unfolding poll_watch_def
    by (auto intro!: R_rbind reads_account_statuses R_refl R_set_watch split: option.splits list.splits)
qed

lemma R_drop_watch: "R s (drop_watch W q w n s)"
  unfolding drop_watch_def Let_def
  by (rule R_trans[OF _ R_result], rule R_trans[OF R_mlog R_watches]) (simp add: keeps_backoff_def)

lemma R_mark_checked: "R s (mark_checked now w s)"
  by (simp add: mark_checked_def R_set_watch)

lemma R_check_each: "R s (snd (check_each W q c now ws n s))"
proof (induction ws arbitrary: n s)
  case (Cons w ws)
  obtain r s1 where p: "poll_watch W q c w s = (r, s1)" by fastforce
  have s1: "R s s1" using R_poll_watch[of s W q c w] p by simp
  have marked: "R s (mark_checked now w s1)" "R s (mark_checked now w (add_error m s1))" "R s (drop_watch W q w k s1)"
    for m k
    by (rule R_trans[OF s1], rule R_mark_checked R_trans[OF R_add_error R_mark_checked] R_drop_watch)+
  show ?case
    using s1 p R_trans[OF marked(1) Cons.IH] R_trans[OF marked(2) Cons.IH] R_trans[OF marked(3) Cons.IH]
    by (auto simp: R_deferred split: sum.splits mexn.splits)
qed (simp add: R_refl)

lemma R_check_watched: "R s (snd (check_watched W q c now s))"
proof -
  let ?s0 = "on_result (\<lambda>r. r\<lparr>pr_watch_total := int (length (m_watches s))\<rparr>) s"
  obtain r s1 where c: "check_each W q c now (due_watches s) 0 ?s0 = (r, s1)" by fastforce
  have "R s ?s0" by (rule R_result) (simp add: keeps_backoff_def)
  then have "R s s1" using R_check_each[of ?s0 W q c now "due_watches s" 0] c R_trans by (metis snd_conv)
  then show ?thesis using c
    by (auto simp: check_watched_def rbind_def keeps_backoff_def split: sum.splits intro: R_trans[OF _ R_result])
qed

lemma R_auto_watch: "R s (auto_watch now days a s)"
  by (simp add: auto_watch_def Let_def R_refl R_watches)

lemma R_discover: "R s (snd (discover_new_accounts W q c now settings s))"
  by (rule R_discover_if) (rule R_auto_watch)

end

locale poll_quiet_welcome = poll_quiet +
  assumes R_welcome: "R s (snd (send_welcome W q bc i a None False s))"
begin

lemma R_welcome_each: "R s (snd (welcome_each W q bc self as n s))"
proof (induction as arbitrary: n s)
  case (Cons a as)
  obtain e s1 where w: "send_welcome W q bc (str_id (ac_id a)) (dm_of a) None False s = (e, s1)" by fastforce
  have "R s s1" using R_welcome[of s W q bc "str_id (ac_id a)" "dm_of a"] w by simp
  then have "R s (add_error m s1)" for m using R_add_error R_trans by blast
  then show ?case
    using Cons.IH w \<open>R s s1\<close>
    by (auto simp: Let_def R_refl R_deferred split: option.splits intro: R_trans)
qed (simp add: R_refl)

lemma R_send_welcomes: "R s (send_welcomes W q bc as s)"
proof -
  obtain i s1 where v: "bot_identity W bc s = (i, s1)" by fastforce
  have "R s s1"
    using v reads_R[OF reads_bot_verify, of W bc s]
    by (auto simp: bot_identity_def split: prod.splits sum.splits)
  moreover obtain n s2 where "welcome_each W q bc i (sort_key ac_created_at as) 0 s1 = (n, s2)" by fastforce
  moreover have "R s1 (snd (welcome_each W q bc i (sort_key ac_created_at as) 0 s1))" by (rule R_welcome_each)
  ultimately show ?thesis
    using v by (auto simp: send_welcomes_def Let_def R_refl keeps_backoff_def intro: R_trans[OF _ R_result] R_trans)
qed

lemma R_welcome_step: "R s (snd (welcome_step W q bco s))"
  by (simp add: welcome_step_def R_refl R_send_welcomes split: option.splits)

end

locale poll_quiet_relation = poll_quiet_welcome +
  assumes R_backoff: "R s (on_result (\<lambda>r. r\<lparr>pr_backoff_until := b\<rparr>) s)"
begin

lemma R_poll_step: "(\<And>t. R t (snd (m t))) \<Longrightarrow> R s (snd (poll_step W now step m ab s))"
proof -
  assume m: "\<And>t. R t (snd (m t))"
  obtain r s1 where r: "m s = (r, s1)" by fastforce
  have "R s s1" using m[of s] r by simp
  have "R s (on_result (\<lambda>r. r\<lparr>pr_backoff_until := b\<rparr>) (add_error e s1))" "R s (add_error e s1)" for b e
    by (rule R_trans[OF \<open>R s s1\<close>], rule R_trans[OF R_add_error R_backoff] R_add_error)+
  then show ?thesis
    using r \<open>R s s1\<close>
    by (auto simp: poll_step_def note_error_def Let_def R_refl split: sum.splits mexn.splits)
qed

lemma R_rbind_any: "(\<And>t. R t (snd (m t))) \<Longrightarrow> (\<And>x t. R t (snd (k x t))) \<Longrightarrow> R s (snd (rbind m k s))"
proof -
  assume m: "\<And>t. R t (snd (m t))" and k: "\<And>x t. R t (snd (k x t))"
  obtain r s1 where "m s = (r, s1)" by fastforce
  moreover have "R s s1" using m[of s] calculation by simp
  ultimately show ?thesis using k by (auto simp: rbind_def intro: R_trans split: sum.splits)
qed

lemma R_after_check:
  assumes "\<And>a t. R t (auto_watch now (ws_auto_watch_days settings) a t)"
  shows "R s (snd (rbind (poll_step W now ''discover_new_accounts'' (discover_new_accounts W q c now settings) ab1) (\<lambda>ab2.
         rbind (poll_step W now ''send_welcomes'' (welcome_step W q bco) ab2) (\<lambda>ab3.
         rbind (poll_step W now ''scan_silent_logins'' (scan_silent_logins W q c now settings) ab3) (\<lambda>_.
         finish_poll W c now))) s))"
  by (intro R_rbind_any R_poll_step R_discover_if[OF assms] R_welcome_step R_scan_silent_logins R_finish_poll)

end

locale poll_welcome = poll_frame + poll_quiet_welcome

locale poll_relation = poll_welcome + poll_quiet_relation
begin

lemma R_run_watch_poll:
  "R (prune now (maybe_refresh_status_limit W c now (s\<lparr>m_result := empty_result\<rparr>)))
     (snd (run_watch_poll W q c bco now s))"
  unfolding run_watch_poll_def Let_def
  by (intro R_rbind_any[OF R_poll_step[OF R_check_watched]] R_after_check R_auto_watch)

end

section \<open>Alerts\<close>

definition KINDS :: "string list" where "KINDS = [''watched_post'', ''new_account'', ''silent_login'']"

text \<open>A link that may be stored: a plain \<^verbatim>\<open>http\<close> or \<^verbatim>\<open>https\<close> URL that cannot leave an attribute value.\<close>

definition safe_link :: "string \<Rightarrow> bool" where
  "safe_link v \<longleftrightarrow> length v \<le> 512 \<and> (startswith (py_lower v) ''http://'' \<or> startswith (py_lower v) ''https://'') \<and>
     (\<forall>ch \<in> set v. 32 \<le> code ch \<and> \<not> List.member LINK_BREAKERS ch)"

definition alert_ok :: "mod_alert \<Rightarrow> bool" where
  "alert_ok a \<longleftrightarrow> ma_kind a \<in> set KINDS \<and>
     ma_dedupe_key a = make_dedupe_key (ma_kind a) (ma_account_id a) (ma_status_id a) \<and>
     (\<forall>u. ma_status_url a = Some u \<longrightarrow> safe_link u)"

definition is_alert_note :: "mod_note \<Rightarrow> bool" where
  "is_alert_note n = (case n of Alert_Note _ _ _ _ \<Rightarrow> True | Silent_Summary _ _ \<Rightarrow> False)"

definition alert_keys :: "moderation \<Rightarrow> string set" where
  "alert_keys s = ma_dedupe_key ` set (m_alerts s)"

text \<open>
  The abstract view of the alerts: a set of keys already raised. A step raises the alerts of keys that
  are new, each once, and notifies about exactly the ones that are not silent logins.
\<close>

definition alerts_grow :: "moderation \<Rightarrow> moderation \<Rightarrow> bool" where
  "alerts_grow s s' \<longleftrightarrow> (\<exists>new notes. m_alerts s' = m_alerts s @ new \<and> distinct (map ma_dedupe_key new) \<and>
     alert_keys s \<inter> ma_dedupe_key ` set new = {} \<and> (\<forall>a \<in> set new. alert_ok a) \<and>
     m_notes s' = m_notes s @ notes \<and>
     filter is_alert_note notes = map alert_note (filter (\<lambda>a. ma_kind a \<noteq> ''silent_login'') new))"

lemma http_url_safe: "http_url_or_none v = Some u \<Longrightarrow> safe_link u"
  unfolding http_url_or_none_def safe_link_def Let_def startswith_any_def list_ex_iff by (auto split: if_splits)

lemma alert_row_ok: "kind \<in> set KINDS \<Longrightarrow> alert_ok (alert_row i now kind account acct ex st)"
  by (auto simp: alert_ok_def alert_row_def Let_def http_url_safe split: Option.bind_splits)

lemma alerts_grow_same: "m_alerts s' = m_alerts s \<Longrightarrow> m_notes s' = m_notes s \<Longrightarrow> alerts_grow s s'"
  by (auto simp: alerts_grow_def intro!: exI[of _ "[]"])

lemma alerts_grow_trans:
  assumes "alerts_grow s t" "alerts_grow t u"
  shows "alerts_grow s u"
proof -
  obtain n1 o1 where 1: "m_alerts t = m_alerts s @ n1" "distinct (map ma_dedupe_key n1)"
    "alert_keys s \<inter> ma_dedupe_key ` set n1 = {}" "\<forall>a \<in> set n1. alert_ok a" "m_notes t = m_notes s @ o1"
    "filter is_alert_note o1 = map alert_note (filter (\<lambda>a. ma_kind a \<noteq> ''silent_login'') n1)"
    using assms(1) unfolding alerts_grow_def by blast
  obtain n2 o2 where 2: "m_alerts u = m_alerts t @ n2" "distinct (map ma_dedupe_key n2)"
    "alert_keys t \<inter> ma_dedupe_key ` set n2 = {}" "\<forall>a \<in> set n2. alert_ok a" "m_notes u = m_notes t @ o2"
    "filter is_alert_note o2 = map alert_note (filter (\<lambda>a. ma_kind a \<noteq> ''silent_login'') n2)"
    using assms(2) unfolding alerts_grow_def by blast
  show ?thesis unfolding alerts_grow_def
    by (rule exI[of _ "n1 @ n2"], rule exI[of _ "o1 @ o2"])
       (use 1 2 in \<open>auto simp: alert_keys_def\<close>)
qed

lemma alerts_grow_alert:
  assumes "alert_use notify kind"
  shows "alerts_grow s (snd (record_alert W q notify kind i acct ex st s))"
proof -
  let ?a = "alert_row (next_id ma_id (m_alerts s)) (clock W s) kind i acct ex st"
  have kind: "ma_kind ?a = kind" by (simp add: alert_row_def Let_def)
  have ok: "alert_ok ?a" using assms by (intro alert_row_ok) (auto simp: alert_use_def KINDS_def)
  show ?thesis
  proof (cases "first_row (\<lambda>r. ma_dedupe_key r = ma_dedupe_key ?a) (m_alerts s) = None")
    case True
    then have "ma_dedupe_key ?a \<notin> alert_keys s" by (auto simp: alert_keys_def first_row_None)
    then show ?thesis
      unfolding alerts_grow_def
      by (intro exI[of _ "[?a]"] exI[of _ "if notify then [alert_note ?a] else []"])
         (use True ok kind assms in \<open>auto simp: record_alert_def Let_def mod_frame alert_use_def is_alert_note_def
            alert_note_def\<close>)
  qed (simp add: record_alert_def Let_def alerts_grow_same)
qed

interpretation alerts_frame: poll_frame alerts_grow
proof unfold_locales
  fix s s' :: moderation
  assume "net.more s' = net.more s"
  then show "alerts_grow s s'" by (intro alerts_grow_same more_cong)
next
  fix s :: moderation and n accts
  show "alerts_grow s (s\<lparr>m_notes := m_notes s @ [Silent_Summary n accts]\<rparr>)"
    by (auto simp: alerts_grow_def is_alert_note_def intro!: exI[of _ "[]"] exI[of _ "[Silent_Summary n accts]"])
qed (auto intro: alerts_grow_same alerts_grow_alert simp: mod_frame elim: alerts_grow_trans)

section \<open>Direct messages\<close>

definition direct_message :: "client \<Rightarrow> string \<Rightarrow> string \<Rightarrow> http_request" where
  "direct_message bc text key =
     \<lparr>hr_method = ''POST'', hr_url = cl_api_url bc @ ''/api/v1/statuses'', hr_token = cl_token bc,
      hr_body = Some (JDict [(''status'', JStr text), (''visibility'', JStr ''direct'')]), hr_key = Some key\<rparr>"

lemma post_direct_sends:
  assumes "post_direct W bc text key s = (r, s')"
  shows "n_reqs s' = n_reqs s @ [direct_message bc text key]" "net.more s' = net.more s"
proof -
  have b: "base_url bc ''/api/v1/statuses'' = Inr (cl_api_url bc @ ''/api/v1/statuses'')"
    by (simp add: base_url_def startswith_def)
  obtain r1 s1 where q: "request W bc ''POST'' ''/api/v1/statuses'' []
      (Some (JDict [(''status'', JStr text), (''visibility'', JStr ''direct'')])) (Some key) s = (r1, s1)" by fastforce
  have s1: "s' = s1" using assms q by (auto simp: post_direct_def rbind_def rreturn_def split: sum.splits)
  have "n_reqs s1 = n_reqs s @ [direct_message bc text key] \<and> net.more s1 = net.more s"
    using q receive_frame[of W bc "wb_http W (n_reqs s @ [direct_message bc text key])"
        "s\<lparr>n_reqs := n_reqs s @ [direct_message bc text key]\<rparr>"]
    by (simp add: request_def b Let_def with_params_def direct_message_def)
  then show "n_reqs s' = n_reqs s @ [direct_message bc text key]" "net.more s' = net.more s" using s1 by simp_all
qed

text \<open>The instance accepted the last request.\<close>

definition accepted :: "web \<Rightarrow> http_request list \<Rightarrow> bool" where
  "accepted W reqs = (case wb_http W reqs of Json_Answer _ _ \<Rightarrow> True | Empty_Answer _ \<Rightarrow> True | _ \<Rightarrow> False)"

lemma receive_accepted:
  assumes "receive W c ans t = (r, t')"
  shows "(\<exists>y. r = Inr y) \<longleftrightarrow> (case ans of Json_Answer _ _ \<Rightarrow> True | Empty_Answer _ \<Rightarrow> True | _ \<Rightarrow> False)"
  using assms by (auto simp: receive_def split: http_answer.splits if_splits)

lemma post_direct_result:
  assumes "post_direct W bc text key s = (r, s')"
  shows "(\<exists>x. r = Inr x) \<longleftrightarrow> accepted W (n_reqs s')"
proof -
  have b: "base_url bc ''/api/v1/statuses'' = Inr (cl_api_url bc @ ''/api/v1/statuses'')"
    by (simp add: base_url_def startswith_def)
  obtain r1 t where v: "receive W bc (wb_http W (n_reqs s @ [direct_message bc text key]))
      (s\<lparr>n_reqs := n_reqs s @ [direct_message bc text key]\<rparr>) = (r1, t)" by fastforce
  have "(\<exists>x. r = Inr x) \<longleftrightarrow> (\<exists>y. r1 = Inr y)"
    using assms v
    by (auto simp: post_direct_def request_def b Let_def with_params_def rbind_def rreturn_def
        direct_message_def[symmetric] split: sum.splits prod.splits)
  then show ?thesis
    using receive_accepted[OF v] post_direct_sends(1)[OF assms] by (simp add: accepted_def)
qed

lemma parse_int_bounds: "low \<le> high \<Longrightarrow> low \<le> dflt \<Longrightarrow> dflt \<le> high \<Longrightarrow>
    low \<le> parse_int raw dflt (Some low) (Some high) \<and> parse_int raw dflt (Some low) (Some high) \<le> high"
  by (auto simp: parse_int_def Let_def split: option.splits)

lemma status_limit_bounds: "MIN_STATUS_CHARS \<le> get_status_limit s" "get_status_limit s \<le> MAX_STATUS_CHARS_CEILING"
  using parse_int_bounds[of MIN_STATUS_CHARS MAX_STATUS_CHARS_CEILING MAX_STATUS_CHARS]
  by (simp_all add: get_status_limit_def MIN_STATUS_CHARS_def MAX_STATUS_CHARS_CEILING_def MAX_STATUS_CHARS_def)

text \<open>
  What one attempt to welcome an account does: nothing, or one message within the length limit to an
  account that has no row; the row is added when the instance accepts the message.
\<close>

lemma send_welcome_outcome:
  assumes "send_welcome W q bc i a None False s = (e, s')"
  obtains (refused) "s' = s" "e \<noteq> None"
  | (sent) msg where "welcome_record s i = None" "render_welcome W (mget s ''moderation_welcome_template''
        DEFAULT_WELCOME_TEMPLATE) a (get_status_limit s) = Some msg"
      "n_reqs s' = n_reqs s @ [direct_message bc msg (welcome_key i)]"
      "m_alerts s' = m_alerts s" "m_notes s' = m_notes s"
      "m_welcomes s' = m_welcomes s \<and> e \<noteq> None \<or>
       e = None \<and> (\<exists>w. m_welcomes s' = m_welcomes s @ [w] \<and> wl_account_id w = i \<and> wl_sent_by w = None)"
      "e = None \<longleftrightarrow> accepted W (n_reqs s')"
proof (cases "welcome_record s i")
  case (Some w)
  then show thesis using assms refused by (auto simp: send_welcome_def)
next
  case None
  show thesis
  proof (cases "render_welcome W (mget s ''moderation_welcome_template'' DEFAULT_WELCOME_TEMPLATE) a (get_status_limit s)")
    case None
    then show thesis using assms \<open>welcome_record s i = None\<close> refused by (auto simp: send_welcome_def)
  next
    case (Some msg)
    obtain r s1 where p: "post_direct W bc msg (welcome_key i) s = (r, s1)" by fastforce
    note kept = more_cong[OF post_direct_sends(2)[OF p]]
    have new: "put_row (\<lambda>w. wl_account_id w = i) row (m_welcomes s1) = m_welcomes s @ [row]" for row
      using \<open>welcome_record s i = None\<close> by (simp add: put_row_def welcome_record_def kept)
    have e: "e = None \<longleftrightarrow> (\<exists>x. r = Inr x)" and reqs: "n_reqs s' = n_reqs s1"
      using assms p Some \<open>welcome_record s i = None\<close>
      by (auto simp: send_welcome_def Let_def mod_frame split: sum.splits mexn.splits)
    have acc: "e = None \<longleftrightarrow> accepted W (n_reqs s')" using post_direct_result[OF p] e reqs by simp
    show thesis
      by (rule sent[OF \<open>welcome_record s i = None\<close> Some _ _ _ _ acc])
         (use assms p Some kept new post_direct_sends(1)[OF p] \<open>welcome_record s i = None\<close> in
            \<open>auto simp: send_welcome_def Let_def mod_frame split: sum.splits mexn.splits\<close>)
  qed
qed

interpretation alerts: poll_relation alerts_grow
proof unfold_locales
  fix s W q bc i a
  obtain e s' where w: "send_welcome W q bc i a None False s = (e, s')" by fastforce
  then have "alerts_grow s s'" by (cases rule: send_welcome_outcome) (auto intro: alerts_grow_same)
  then show "alerts_grow s (snd (send_welcome W q bc i a None False s))" by (simp add: w)
qed (simp add: alerts_grow_same mod_frame)

lemma maybe_refresh_keeps:
  "m_alerts (maybe_refresh_status_limit W c now s) = m_alerts s"
  "m_notes (maybe_refresh_status_limit W c now s) = m_notes s"
  "m_welcomes (maybe_refresh_status_limit W c now s) = m_welcomes s"
  "log_retention_days (maybe_refresh_status_limit W c now s) = log_retention_days s"
proof -
  obtain r s1 where m: "max_status_chars W c s = (r, s1)" by fastforce
  note kept = more_cong[OF readsD(1)[OF reads_max_status_chars m]]
  show "m_alerts (maybe_refresh_status_limit W c now s) = m_alerts s"
    "m_notes (maybe_refresh_status_limit W c now s) = m_notes s"
    "m_welcomes (maybe_refresh_status_limit W c now s) = m_welcomes s"
    "log_retention_days (maybe_refresh_status_limit W c now s) = log_retention_days s"
    using m kept
    by (auto simp: maybe_refresh_status_limit_def refresh_status_limit_def Let_def mod_frame log_retention_days_def
        mdb_def mset_def setting_set_def dict_simps STATUS_LIMIT_SETTING_def STATUS_LIMIT_CHECKED_SETTING_def
        split: sum.splits mexn.splits prod.splits)
qed

definition kept_alerts :: "usec \<Rightarrow> moderation \<Rightarrow> mod_alert list" where
  "kept_alerts now s = filter (\<lambda>a. \<not> stale_alert now (log_retention_days s) a) (m_alerts s)"

lemma alerts_grow_poll: "alerts_grow (s\<lparr>m_alerts := kept_alerts now s\<rparr>) (snd (run_watch_poll W q c bc now s))"
proof -
  have "log_retention_days (s\<lparr>m_result := empty_result\<rparr>) = log_retention_days s"
    by (simp add: log_retention_days_def mdb_def)
  then have "alerts_grow (s\<lparr>m_alerts := kept_alerts now s\<rparr>)
      (prune now (maybe_refresh_status_limit W c now (s\<lparr>m_result := empty_result\<rparr>)))"
    by (intro alerts_grow_same) (simp_all add: prune_def kept_alerts_def maybe_refresh_keeps)
  then show ?thesis by (rule alerts_grow_trans) (rule alerts.R_run_watch_poll)
qed

text \<open>
  C15. A poll refines the set of alerts in the table: whatever the instance answers and however the poll
  ends, the rows that are not past their retention stay, the rows added have keys that none of these
  has, each once, and the notifications sent are exactly those of the added rows, in order, with silent
  logins left to their summary. A key of the table is raised again only if its row was past retention:
  acknowledged more than ninety days ago, or not acknowledged and older than the retention of the log.
\<close>

theorem alerts_raised_once:
  "\<exists>new notes. let s' = snd (run_watch_poll W q c bc now s) in
     m_alerts s' = kept_alerts now s @ new \<and>
     distinct (map ma_dedupe_key new) \<and> ma_dedupe_key ` set (kept_alerts now s) \<inter> ma_dedupe_key ` set new = {} \<and>
     {a \<in> set (m_alerts s). ma_dedupe_key a \<in> ma_dedupe_key ` set new} \<subseteq>
       {a. case ma_acknowledged_at a of
             Some t \<Rightarrow> t < now - usec_of_days ALERT_RETENTION_DAYS
           | None \<Rightarrow> ma_created_at a < now - usec_of_days (log_retention_days s)} \<and>
     m_notes s' = m_notes s @ notes \<and>
     filter is_alert_note notes = map alert_note (filter (\<lambda>a. ma_kind a \<noteq> ''silent_login'') new)"
proof -
  let ?s' = "snd (run_watch_poll W q c bc now s)"
  obtain new ns where g: "m_alerts ?s' = kept_alerts now s @ new" "distinct (map ma_dedupe_key new)"
    "ma_dedupe_key ` set (kept_alerts now s) \<inter> ma_dedupe_key ` set new = {}" "m_notes ?s' = m_notes s @ ns"
    "filter is_alert_note ns = map alert_note (filter (\<lambda>a. ma_kind a \<noteq> ''silent_login'') new)"
    using alerts_grow_poll[of now s W q c bc] by (fastforce simp: alerts_grow_def alert_keys_def)
  have "stale_alert now (log_retention_days s) a" if "a \<in> set (m_alerts s)" "ma_dedupe_key a \<in> ma_dedupe_key ` set new" for a
  proof (rule ccontr)
    assume "\<not> stale_alert now (log_retention_days s) a"
    then have "a \<in> set (kept_alerts now s)" using that(1) by (simp add: kept_alerts_def)
    then show False using g(3) that(2) by blast
  qed
  then have "{a \<in> set (m_alerts s). ma_dedupe_key a \<in> ma_dedupe_key ` set new} \<subseteq>
       {a. case ma_acknowledged_at a of
             Some t \<Rightarrow> t < now - usec_of_days ALERT_RETENTION_DAYS
           | None \<Rightarrow> ma_created_at a < now - usec_of_days (log_retention_days s)}"
    unfolding stale_alert_def by blast
  with g show ?thesis unfolding Let_def by (intro exI[of _ new] exI[of _ ns] conjI)
qed

definition alerts_ok :: "moderation \<Rightarrow> bool" where
  "alerts_ok s \<longleftrightarrow> distinct (map ma_dedupe_key (m_alerts s)) \<and> list_all alert_ok (m_alerts s)"

text \<open>
  C32. The alert table stays well-formed through every sequence of polls: the keys are unique and are
  those of their row, the kinds are the declared ones, and a stored link is a plain web address that
  cannot break out of the page it is shown on, whatever the remote post contained.
\<close>

theorem alerts_well_formed:
  assumes "alerts_ok s"
  shows "alerts_ok (fold (\<lambda>(W, q, c, bc, now) s. snd (run_watch_poll W q c bc now s)) polls s)"
  using assms
proof (induction polls arbitrary: s)
  case (Cons p polls)
  obtain W q c bc now where p: "p = (W, q, c, bc, now)" by (cases p)
  have "alerts_ok (s\<lparr>m_alerts := kept_alerts now s\<rparr>)"
    using Cons.prems by (auto simp: alerts_ok_def kept_alerts_def list_all_iff distinct_map intro: inj_on_subset)
  then have "alerts_ok (snd (run_watch_poll W q c bc now s))"
    using alerts_grow_poll[of now s W q c bc]
    by (auto simp: alerts_grow_def alerts_ok_def list_all_iff alert_keys_def)
  then show ?case using Cons.IH p by simp
qed simp

definition sample_app :: app where "sample_app = \<lparr>a_db = empty_db, a_hub = []\<rparr>"

definition sample_moderation :: moderation where
  "sample_moderation = \<lparr>n_reqs = [], n_rate = (\<lambda>_. None), m_app = sample_app, m_watches = [], m_alerts = [],
     m_welcomes = [], m_report_notices = [], m_notes = [], m_result = empty_result\<rparr>"

definition sample_ctx :: req_ctx where
  "sample_ctx = \<lparr>q_in_request = False, q_user = None, q_client_ip = None, q_ts = []\<rparr>"

theorem alerts_well_formed_witness:
  "alerts_ok sample_moderation \<and>
   alerts_ok (fold (\<lambda>(W, q, c, bc, now) s. snd (run_watch_poll W q c bc now s))
     [(linking_web ''/x'', sample_ctx, sample_client, None, 0), (linking_web ''/x'', sample_ctx, sample_client, None, 1)]
     sample_moderation)"
proof -
  have "alerts_ok sample_moderation" by (simp add: alerts_ok_def sample_moderation_def)
  then show ?thesis by (intro conjI alerts_well_formed)
qed

section \<open>Welcomes\<close>

text \<open>
  A welcome message: private, addressed, within the length any instance may allow, keyed by an account
  outside a given set.
\<close>

definition welcome_message :: "string set \<Rightarrow> http_request \<Rightarrow> bool" where
  "welcome_message done p \<longleftrightarrow> (\<exists>bc i name body.
     let msg = ''@'' @ name @ '' '' @ body in
     i \<notin> done \<and> int (length msg) \<le> MAX_STATUS_CHARS_CEILING \<and> p = direct_message bc msg (welcome_key i))"

definition welcomed :: "moderation \<Rightarrow> string set" where
  "welcomed s = wl_account_id ` set (m_welcomes s)"

text \<open>The keys of the messages among the requests \<open>qs\<close>, made after those of \<open>base\<close>, that the instance accepted.\<close>

fun delivered :: "web \<Rightarrow> http_request list \<Rightarrow> http_request list \<Rightarrow> string option list" where
  "delivered W base [] = []"
| "delivered W base (p # qs) =
     (if hr_method p = ''POST'' \<and> accepted W (base @ [p]) then [hr_key p] else []) @ delivered W (base @ [p]) qs"

text \<open>
  Requests that are GETs or welcome messages, each of these for an account outside \<open>d\<close> of which no
  message was accepted before.
\<close>

fun fresh_messages :: "web \<Rightarrow> http_request list \<Rightarrow> string set \<Rightarrow> http_request list \<Rightarrow> bool" where
  "fresh_messages W base d [] = True"
| "fresh_messages W base d (p # qs) \<longleftrightarrow>
     (hr_method p = ''GET'' \<or> welcome_message d p) \<and>
     fresh_messages W (base @ [p]) (d \<union> {i. Some (welcome_key i) \<in> set (delivered W base [p])}) qs"

lemma delivered_append: "delivered W base (xs @ ys) = delivered W base xs @ delivered W (base @ xs) ys"
  by (induction xs arbitrary: base) auto

lemma fresh_messages_append:
  "fresh_messages W base d (xs @ ys) \<longleftrightarrow> fresh_messages W base d xs \<and>
     fresh_messages W (base @ xs) (d \<union> {i. Some (welcome_key i) \<in> set (delivered W base xs)}) ys"
proof (induction xs arbitrary: base d)
  case (Cons p xs)
  have "d \<union> {i. Some (welcome_key i) \<in> set (delivered W base [p])} \<union>
      {i. Some (welcome_key i) \<in> set (delivered W (base @ [p]) xs)} =
      d \<union> {i. Some (welcome_key i) \<in> set (delivered W base (p # xs))}" by auto
  then show ?case by (simp only: append_Cons fresh_messages.simps Cons.IH append.assoc append_Nil conj_assoc)
qed simp

lemma gets_only:
  assumes "\<forall>p \<in> set qs. hr_method p = ''GET''"
  shows "delivered W base qs = []" "fresh_messages W base d qs"
  using assms by (induction qs arbitrary: base d) auto

definition messages_grow :: "web \<Rightarrow> nat \<Rightarrow> moderation \<Rightarrow> moderation \<Rightarrow> bool" where
  "messages_grow W n s s' \<longleftrightarrow> (\<exists>new qs. m_welcomes s' = m_welcomes s @ new \<and> n_reqs s' = n_reqs s @ qs \<and>
     delivered W (n_reqs s) qs = map (\<lambda>w. Some (welcome_key (wl_account_id w))) new \<and>
     fresh_messages W (n_reqs s) (welcomed s) qs \<and> length new \<le> n \<and>
     distinct (map wl_account_id new) \<and> welcomed s \<inter> wl_account_id ` set new = {})"

lemma messages_grow_trans:
  assumes "messages_grow W a s t" "messages_grow W b t u"
  shows "messages_grow W (a + b) s u"
proof -
  obtain n1 q1 where 1: "m_welcomes t = m_welcomes s @ n1" "n_reqs t = n_reqs s @ q1"
    "delivered W (n_reqs s) q1 = map (\<lambda>w. Some (welcome_key (wl_account_id w))) n1"
    "fresh_messages W (n_reqs s) (welcomed s) q1" "length n1 \<le> a" "distinct (map wl_account_id n1)"
    "welcomed s \<inter> wl_account_id ` set n1 = {}"
    using assms(1) unfolding messages_grow_def by blast
  obtain n2 q2 where 2: "m_welcomes u = m_welcomes t @ n2" "n_reqs u = n_reqs t @ q2"
    "delivered W (n_reqs t) q2 = map (\<lambda>w. Some (welcome_key (wl_account_id w))) n2"
    "fresh_messages W (n_reqs t) (welcomed t) q2" "length n2 \<le> b" "distinct (map wl_account_id n2)"
    "welcomed t \<inter> wl_account_id ` set n2 = {}"
    using assms(2) unfolding messages_grow_def by blast
  have "welcomed t = welcomed s \<union> {i. Some (welcome_key i) \<in> set (delivered W (n_reqs s) q1)}"
    unfolding 1(3) by (auto simp: welcomed_def 1(1) welcome_key_def)
  then have "fresh_messages W (n_reqs s) (welcomed s) (q1 @ q2)"
    using 1(2,4) 2(4) by (simp add: fresh_messages_append)
  moreover have "wl_account_id ` set n1 \<inter> wl_account_id ` set n2 = {}" "welcomed s \<inter> wl_account_id ` set n2 = {}"
    using 2(7) by (auto simp: welcomed_def 1(1))
  ultimately show ?thesis
    unfolding messages_grow_def
    by (intro exI[of _ "n1 @ n2"] exI[of _ "q1 @ q2"])
       (use 1 2 in \<open>auto simp: delivered_append\<close>)
qed

text \<open>The steps that only read leave the table of welcomes alone.\<close>

definition gets_grow :: "moderation \<Rightarrow> moderation \<Rightarrow> bool" where
  "gets_grow s s' \<longleftrightarrow> m_welcomes s' = m_welcomes s \<and>
     (\<exists>qs. n_reqs s' = n_reqs s @ qs \<and> (\<forall>p \<in> set qs. hr_method p = ''GET''))"

lemma gets_grow_same: "m_welcomes s' = m_welcomes s \<Longrightarrow> n_reqs s' = n_reqs s \<Longrightarrow> gets_grow s s'"
  by (simp add: gets_grow_def)

lemma gets_grow_trans: "gets_grow s t \<Longrightarrow> gets_grow t u \<Longrightarrow> gets_grow s u"
  unfolding gets_grow_def by (elim conjE exE) (simp add: exI[where x = "_ @ _"] ball_Un)

interpretation quiet_welcomes: poll_frame gets_grow
proof unfold_locales
  fix s s' :: moderation
  assume m: "net.more s' = net.more s" and q: "\<exists>qs. n_reqs s' = n_reqs s @ qs \<and> (\<forall>p \<in> set qs. hr_method p = ''GET'')"
  then show "gets_grow s s'" using more_cong(4)[OF m] by (simp add: gets_grow_def)
next
  fix s :: moderation and W q notify kind i acct ex st
  show "gets_grow s (snd (record_alert W q notify kind i acct ex st s))"
    by (rule gets_grow_same) (simp_all add: record_alert_def Let_def mod_frame)
qed (auto intro: gets_grow_same simp: mod_frame elim: gets_grow_trans)

lemma gets_messages: "gets_grow s s' \<Longrightarrow> messages_grow W n s s'"
  unfolding gets_grow_def messages_grow_def by (elim conjE exE) (auto intro!: exI[of _ "[]"] simp: gets_only)

lemma render_welcome_shape:
  assumes "render_welcome W t a n = Some msg"
  shows "\<exists>body. msg = ''@'' @ dm_username a @ '' '' @ body" "int (length msg) \<le> n"
  using assms by (auto simp: render_welcome_def compose_direct_def Let_def split: bind_splits if_splits)

lemma messages_grow_send:
  assumes "send_welcome W q bc i a None False s = (e, s')"
  shows "messages_grow W (if e = None then 1 else 0) s s'"
  using assms
proof (cases rule: send_welcome_outcome)
  case refused
  then show ?thesis by (simp add: gets_messages gets_grow_same)
next
  case (sent msg)
  let ?p = "direct_message bc msg (welcome_key i)"
  have i: "i \<notin> welcomed s" using sent(1) by (auto simp: welcome_record_def welcomed_def first_row_None)
  have "int (length msg) \<le> MAX_STATUS_CHARS_CEILING"
    using render_welcome_shape(2)[OF sent(2)] status_limit_bounds(2)[of s] by linarith
  then have msg: "welcome_message (welcomed s) ?p"
    using render_welcome_shape(1)[OF sent(2)] i unfolding welcome_message_def Let_def by blast
  have del: "delivered W (n_reqs s) [?p] = (if e = None then [Some (welcome_key i)] else [])"
    using sent(3,7) by (simp add: direct_message_def)
  show ?thesis
  proof (cases e)
    case (Some x)
    then show ?thesis
      using sent(3,6) msg del unfolding messages_grow_def by (intro exI[of _ "[]"] exI[of _ "[?p]"]) auto
  next
    case None
    then obtain w where "m_welcomes s' = m_welcomes s @ [w]" "wl_account_id w = i" using sent(6) by auto
    then show ?thesis
      using sent(3) msg del None i unfolding messages_grow_def by (intro exI[of _ "[w]"] exI[of _ "[?p]"]) auto
  qed
qed

lemma messages_grow_mono: "messages_grow W a s s' \<Longrightarrow> a \<le> b \<Longrightarrow> messages_grow W b s s'"
  unfolding messages_grow_def by (elim exE conjE) (intro exI conjI, auto)

lemma messages_grow_after: "messages_grow W n s t \<Longrightarrow> m_welcomes u = m_welcomes t \<Longrightarrow> n_reqs u = n_reqs t \<Longrightarrow> messages_grow W n s u"
  unfolding messages_grow_def by simp

lemma messages_grow_before: "messages_grow W n s t \<Longrightarrow> m_welcomes r = m_welcomes s \<Longrightarrow> n_reqs r = n_reqs s \<Longrightarrow> messages_grow W n r t"
  unfolding messages_grow_def welcomed_def by simp

lemma welcome_each_messages:
  assumes "welcome_each W q bc self as n s = (n', s')" "n \<le> MAX_WELCOMES_PER_RUN"
  shows "n' \<le> MAX_WELCOMES_PER_RUN \<and> n \<le> n' \<and> messages_grow W (n' - n) s s'"
  using assms
proof (induction as arbitrary: n s)
  case Nil
  then show ?case by (simp add: gets_messages gets_grow_same)
next
  case (Cons a as)
  obtain e s1 where w: "send_welcome W q bc (str_id (ac_id a)) (dm_of a) None False s = (e, s1)" by fastforce
  note step = messages_grow_send[OF w]
  have sent: "?case" if "e = None" "welcome_each W q bc self as (Suc n) s1 = (n', s')" "n < MAX_WELCOMES_PER_RUN"
    using Cons.IH[OF that(2)] that(1,3) messages_grow_trans[OF step, of "n' - Suc n" s'] by (auto simp: Suc_le_eq Suc_diff_Suc)
  have failed: "?case" if "e = Some m" "welcome_each W q bc self as n (add_error x s1) = (n', s')" for m x
    using Cons.IH[OF that(2)] Cons.prems(2) that(1) step
      messages_grow_trans[of W 0 s "add_error x s1" "n' - n" s'] messages_grow_after[of W 0 s s1 "add_error x s1"]
    by (auto simp: add_error_def mod_frame)
  have quiet: "messages_grow W k s s" "messages_grow W k s (set_deferred s)" for k
    by (auto intro!: gets_messages gets_grow_same simp: set_deferred_def mod_frame)
  show ?case
    using Cons.prems Cons.IH[of n s] sent failed quiet w
    by (auto simp: Let_def split: if_splits option.splits)
qed

lemma send_welcomes_messages: "messages_grow W MAX_WELCOMES_PER_RUN s (send_welcomes W q bc as s)"
proof -
  obtain i s1 where v: "bot_identity W bc s = (i, s1)" by fastforce
  obtain r t where b: "bot_verify W bc s = (r, t)" by fastforce
  then have "t = s1" using v by (auto simp: bot_identity_def split: sum.splits)
  then have "gets_grow s s1" using quiet_welcomes.reads_R[OF reads_bot_verify b] by simp
  moreover obtain n s2 where w: "welcome_each W q bc i (sort_key ac_created_at as) 0 s1 = (n, s2)" by fastforce
  ultimately have "messages_grow W n s s2"
    using welcome_each_messages[OF w] messages_grow_trans[OF gets_messages[of s s1 W 0], of n s2] by auto
  then have "messages_grow W MAX_WELCOMES_PER_RUN s (on_result h s2)" for h
    using welcome_each_messages[OF w] by (auto intro: messages_grow_mono messages_grow_after simp: mod_frame)
  moreover have "messages_grow W MAX_WELCOMES_PER_RUN s s" by (intro gets_messages gets_grow_same) simp_all
  ultimately show ?thesis using v w by (simp add: send_welcomes_def Let_def)
qed

text \<open>Code that sends at most a given number of accepted messages.\<close>

definition messages_of :: "web \<Rightarrow> nat \<Rightarrow> (mexn, moderation, 'a) run \<Rightarrow> bool" where
  "messages_of W n m \<longleftrightarrow> (\<forall>s. messages_grow W n s (snd (m s)))"

lemma messages_of_rbind:
  assumes "messages_of W a m" "\<And>x. messages_of W b (k x)"
  shows "messages_of W (a + b) (rbind m k)"
  unfolding messages_of_def
proof
  fix s
  obtain r t where m: "m s = (r, t)" by fastforce
  have "messages_grow W a s t" using assms(1) m unfolding messages_of_def by (metis snd_conv)
  moreover have "messages_grow W b t (snd (k x t))" for x using assms(2) unfolding messages_of_def by blast
  ultimately show "messages_grow W (a + b) s (snd (rbind m k s))"
    using m by (auto simp: rbind_def split: sum.splits intro: messages_grow_trans messages_grow_mono)
qed

lemma messages_of_quiet: "(\<And>s. gets_grow s (snd (m s))) \<Longrightarrow> messages_of W 0 m"
  by (simp add: messages_of_def gets_messages)

lemma poll_step_messages:
  assumes "messages_of W n m"
  shows "messages_of W n (poll_step W now step m ab)"
  unfolding messages_of_def
proof
  fix s
  obtain r t where m: "m s = (r, t)" by fastforce
  have "messages_grow W n s t" using assms m unfolding messages_of_def by (metis snd_conv)
  then have "messages_grow W n s (add_error x t)" "messages_grow W n s (on_result h (add_error x t))" for x h
    by (auto intro: messages_grow_after simp: add_error_def mod_frame)
  moreover have "messages_grow W n s s" by (intro gets_messages gets_grow_same) simp_all
  ultimately show "messages_grow W n s (snd (poll_step W now step m ab s))"
    using m \<open>messages_grow W n s t\<close> by (auto simp: poll_step_def note_error_def Let_def split: sum.splits mexn.splits)
qed

lemma run_watch_poll_messages: "messages_grow W MAX_WELCOMES_PER_RUN s (snd (run_watch_poll W q c bc now s))"
proof -
  let ?st = "get_watch_settings s" and ?s0 = "prune now (maybe_refresh_status_limit W c now (s\<lparr>m_result := empty_result\<rparr>))"
  let ?run = "rbind (poll_step W now ''check_watched'' (check_watched W q c now) False) (\<lambda>ab1.
         rbind (poll_step W now ''discover_new_accounts'' (discover_new_accounts W q c now ?st) ab1) (\<lambda>ab2.
         rbind (poll_step W now ''send_welcomes'' (welcome_step W q bc) ab2) (\<lambda>ab3.
         rbind (poll_step W now ''scan_silent_logins'' (scan_silent_logins W q c now ?st) ab3) (\<lambda>_.
         finish_poll W c now))))"
  have "messages_of W MAX_WELCOMES_PER_RUN (welcome_step W q bc)"
    by (auto simp: messages_of_def welcome_step_def send_welcomes_messages gets_messages gets_grow_same split: option.splits)
  then have "messages_of W (0 + (0 + (MAX_WELCOMES_PER_RUN + (0 + 0)))) ?run"
    by (intro messages_of_rbind poll_step_messages messages_of_quiet quiet_welcomes.R_check_watched
        quiet_welcomes.R_discover quiet_welcomes.R_scan_silent_logins quiet_welcomes.R_finish_poll)
  then have run: "messages_grow W MAX_WELCOMES_PER_RUN ?s0 (snd (?run ?s0))" unfolding messages_of_def by simp
  have "gets_grow (s\<lparr>m_result := empty_result\<rparr>) ?s0"
    by (rule gets_grow_trans[OF quiet_welcomes.R_maybe_refresh[of _ W c now] gets_grow_same]) (simp_all add: prune_def)
  then have "messages_grow W 0 s ?s0" by (rule messages_grow_before[OF gets_messages]) simp_all
  from messages_grow_trans[OF this run] show ?thesis by (simp add: run_watch_poll_def Let_def)
qed


end
