(* ===== verification/Moderation_Backoff.thy ===== *)
theory Moderation_Backoff
  imports Moderation_Safety
begin

text \<open>
  The rate limit of the Mastodon instance: a poll stops at the first 429 of its steps and records until
  when to wait, and the scheduled job (\<open>_run_moderation_watch_poll\<close> of \<^verbatim>\<open>src/core/scheduler.py\<close>)
  sends nothing before that time. The stretching of the interval after short runs is modelled with it.
\<close>

section \<open>Polls that meet a rate limit\<close>

definition limited :: "web \<Rightarrow> http_request list \<Rightarrow> bool" where
  "limited W reqs = (case wb_http W reqs of Error_Answer st _ _ \<Rightarrow> st = 429 | _ \<Rightarrow> False)"

text \<open>The requests of the welcome bot: the one that asks for its own account, and its messages.\<close>

definition bot_request :: "client option \<Rightarrow> http_request \<Rightarrow> bool" where
  "bot_request bc p = (case bc of
     None \<Rightarrow> False
   | Some b \<Rightarrow> hr_token p = cl_token b \<and>
       (hr_method p = ''POST'' \<or>
        hr_method p = ''GET'' \<and> hr_url p = cl_api_url b @ ''/api/v1/accounts/verify_credentials''))"

text \<open>None of the requests, made after those of the first list and not by the bot, was answered by a 429.\<close>

fun unlimited :: "web \<Rightarrow> client option \<Rightarrow> http_request list \<Rightarrow> http_request list \<Rightarrow> bool" where
  "unlimited W bc base [] = True"
| "unlimited W bc base (q # qs) = ((bot_request bc q \<or> \<not> limited W (base @ [q])) \<and> unlimited W bc (base @ [q]) qs)"

lemma unlimited_append: "unlimited W bc base (xs @ ys) \<longleftrightarrow> unlimited W bc base xs \<and> unlimited W bc (base @ xs) ys"
  by (induction xs arbitrary: base) auto

lemma unlimited_any: "unlimited W None base qs \<Longrightarrow> unlimited W bc base qs"
  by (induction qs arbitrary: base) (auto simp: bot_request_def)

lemma unlimited_bot: "list_all (bot_request bc) qs \<Longrightarrow> unlimited W bc base qs"
  by (induction qs arbitrary: base) auto

definition delay_of :: "web \<Rightarrow> http_request list \<Rightarrow> int option \<Rightarrow> bool" where
  "delay_of W reqs ra \<longleftrightarrow> (\<exists>d h. wb_http W reqs = Error_Answer 429 d h \<and> ra = error_delay W 429 h (wb_now W reqs))"

definition rate_error :: "mexn \<Rightarrow> bool" where
  "rate_error e = (case e of Api_Error _ st _ \<Rightarrow> st = Some 429 | Value_Error _ \<Rightarrow> False)"

text \<open>
  Code that stops at a 429: either its last request, and none before, was answered so and it raises the
  error of that answer, or none of its requests was answered so.
\<close>

definition stop_outcome :: "web \<Rightarrow> http_request list \<Rightarrow> mexn + 'a \<Rightarrow> http_request list \<Rightarrow> bool" where
  "stop_outcome W base r reqs \<longleftrightarrow> (\<exists>qs. reqs = base @ qs \<and>
     (qs \<noteq> [] \<and> unlimited W None base (butlast qs) \<and>
        (\<exists>msg ra. r = Inl (Api_Error msg (Some 429) ra) \<and> delay_of W reqs ra) \<or>
      unlimited W None base qs \<and> (\<forall>e. r = Inl e \<longrightarrow> \<not> rate_error e)))"

definition stops :: "web \<Rightarrow> ('x, 'a) mio \<Rightarrow> bool" where
  "stops W m \<longleftrightarrow> (\<forall>s. stop_outcome W (n_reqs s) (fst (m s)) (n_reqs (snd (m s))))"

named_theorems stops_intros "composition of code that stops at a 429"

lemma stopsD: "stops W m \<Longrightarrow> m s = (r, s') \<Longrightarrow> stop_outcome W (n_reqs s) r (n_reqs s')"
  unfolding stops_def by (metis fst_conv snd_conv)

lemma stop_outcome_refl: "\<forall>e. r = Inl e \<longrightarrow> \<not> rate_error e \<Longrightarrow> stop_outcome W base r base"
  by (simp add: stop_outcome_def)

lemma stop_outcome_later:
  assumes "stop_outcome W base r1 mid" "\<forall>e. r1 = Inl e \<longrightarrow> \<not> rate_error e" "stop_outcome W mid r reqs"
  shows "stop_outcome W base r reqs"
proof -
  obtain q1 where "mid = base @ q1" "unlimited W None base q1"
    using assms(1,2) by (auto simp: stop_outcome_def rate_error_def)
  moreover obtain q2 where "reqs = mid @ q2" "q2 \<noteq> [] \<and> unlimited W None mid (butlast q2) \<and>
        (\<exists>msg ra. r = Inl (Api_Error msg (Some 429) ra) \<and> delay_of W reqs ra) \<or>
      unlimited W None mid q2 \<and> (\<forall>e. r = Inl e \<longrightarrow> \<not> rate_error e)"
    using assms(3) unfolding stop_outcome_def by blast
  ultimately show ?thesis unfolding stop_outcome_def
    by (intro exI[of _ "q1 @ q2"]) (auto simp: unlimited_append butlast_append)
qed

lemma stops_quiet:
  assumes "\<And>s. n_reqs (snd (m s)) = n_reqs s" "\<And>s e. fst (m s) = Inl e \<Longrightarrow> \<not> rate_error e"
  shows "stops W m"
  unfolding stops_def using assms by (auto intro: stop_outcome_refl)

lemma stops_rreturn [stops_intros]: "stops W (rreturn x)"
  by (rule stops_quiet) (simp_all add: rreturn_def)

lemma stops_list_error [stops_intros]: "stops W (rraise list_error)"
  by (rule stops_quiet) (simp_all add: rraise_def list_error_def rate_error_def split: mexn.splits)

lemma stops_value_error [stops_intros]: "stops W (rraise (Value_Error v))"
  by (rule stops_quiet) (auto simp: rraise_def rate_error_def)

lemma stops_request [stops_intros]: "stops W (request W c method path ps body key)"
  unfolding stops_def
proof
  fix s
  show "stop_outcome W (n_reqs s) (fst (request W c method path ps body key s))
          (n_reqs (snd (request W c method path ps body key s)))"
  proof (cases "base_url c path")
    case (Inl e)
    then have "\<not> rate_error e" by (auto simp: base_url_def rate_error_def split: if_splits)
    then show ?thesis using Inl by (simp add: request_def stop_outcome_refl)
  next
    case (Inr url)
    define q where "q = \<lparr>hr_method = method, hr_url = with_params url ps, hr_token = cl_token c, hr_body = body,
      hr_key = key\<rparr>"
    have "request W c method path ps body key s = receive W c (wb_http W (n_reqs s @ [q])) (s\<lparr>n_reqs := n_reqs s @ [q]\<rparr>)"
      using Inr by (simp add: request_def Let_def q_def)
    then show ?thesis
      unfolding stop_outcome_def
      by (intro exI[of _ "[q]"])
         (auto simp: receive_def limited_def delay_of_def rate_error_def is_redirect_def split: http_answer.splits)
  qed
qed

lemma stops_rbind:
  assumes m: "stops W m" and k: "\<And>x. stops W (k x)"
  shows "stops W (rbind m k)"
  unfolding stops_def
proof
  fix s
  obtain r1 s1 where m1: "m s = (r1, s1)" by fastforce
  show "stop_outcome W (n_reqs s) (fst (rbind m k s)) (n_reqs (snd (rbind m k s)))"
  proof (cases r1)
    case (Inl e)
    then show ?thesis using stopsD[OF m m1] m1 by (auto simp: rbind_def stop_outcome_def)
  next
    case (Inr x)
    then have "stop_outcome W (n_reqs s1) (fst (k x s1)) (n_reqs (snd (k x s1)))"
      using k[of x] unfolding stops_def by blast
    then show ?thesis using stop_outcome_later[OF stopsD[OF m m1]] Inr m1 by (simp add: rbind_def)
  qed
qed

lemma stops_get: "stops W (get W c path ps)"
  by (simp add: get_def stops_request)

lemma stops_account_statuses: "stops W (account_statuses W c i since n)"
  unfolding account_statuses_def
  by (auto intro!: stops_intros stops_rbind stops_get split: option.splits payload.splits)

lemma stops_iter_pages: "stops W (iter_pages n W c path ps k acc)"
proof (induction n arbitrary: path ps acc)
  case (Suc n)
  then show ?case
    by (auto simp: Let_def intro!: stops_rbind stops_get stops_intros split: payload.splits prod.splits option.splits)
qed (simp add: stops_rreturn)

lemma stops_list_local_accounts: "stops W (list_local_accounts W c t n)"
  by (simp add: list_local_accounts_def stops_iter_pages)

subsection \<open>The steps of a poll\<close>

lemma record_alert_reqs [simp]: "n_reqs (snd (record_alert W q b k i a e t s)) = n_reqs s"
  by (simp add: record_alert_def Let_def mod_frame)

lemma record_alert_reqs_eq: "record_alert W q b k i a e t s = (x, s') \<Longrightarrow> n_reqs s' = n_reqs s"
  using record_alert_reqs[of W q b k i a e t s] by simp

lemma fold_alert_post_reqs: "n_reqs (snd (fold (alert_post W q i) sts (a, s))) = n_reqs s"
proof (induction sts arbitrary: a s)
  case (Cons st sts)
  obtain a' s' where p: "alert_post W q i st (a, s) = (a', s')" by fastforce
  then have "n_reqs s' = n_reqs s"
    by (auto simp: alert_post_def Let_def mod_frame split: prod.splits if_splits dest: record_alert_reqs_eq)
  then show ?case using Cons.IH p by simp
qed simp

lemma fold_silent_reqs: "n_reqs (snd (fold (silent_account W q) as (a, s))) = n_reqs s"
proof (induction as arbitrary: a s)
  case (Cons x as)
  obtain a' s' where p: "silent_account W q x (a, s) = (a', s')" by fastforce
  then have "n_reqs s' = n_reqs s"
    by (auto simp: silent_account_def Let_def mod_frame split: prod.splits if_splits dest: record_alert_reqs_eq)
  then show ?case using Cons.IH p by simp
qed simp

lemma new_account_reqs [simp]: "n_reqs (new_account W q now d a s) = n_reqs s"
  by (auto simp: new_account_def auto_watch_def Let_def mod_frame split: prod.splits dest: record_alert_reqs_eq)

lemma fold_new_account_reqs [simp]: "n_reqs (fold (new_account W q now d) as s) = n_reqs s"
  by (induction as arbitrary: s) auto

lemma small_writes [simp]:
  "n_reqs (set_watch i h s) = n_reqs s" "n_reqs (set_deferred s) = n_reqs s" "n_reqs (add_error m s) = n_reqs s"
  "n_reqs (mark_checked now w s) = n_reqs s" "n_reqs (drop_watch W q w n s) = n_reqs s"
  "n_reqs (mset k v s) = n_reqs s" "n_reqs (on_result h' s) = n_reqs s"
  by (simp_all add: set_watch_def set_deferred_def add_error_def mark_checked_def drop_watch_def Let_def mod_frame)

lemma stops_poll_watch: "stops W (poll_watch W q c w)"
proof (cases "w_last_status_id w")
  case None
  then show ?thesis unfolding poll_watch_def
    by (simp, intro stops_rbind stops_account_statuses stops_quiet) (auto split: list.splits)
next
  case (Some last_id)
  have "stops W (\<lambda>s. if sts = [] then (Inr () :: mexn + unit, s)
            else let (acct, s1) = fold (alert_post W q (w_account_id w)) (rev sts) (w_acct w, s)
                 in (Inr (), set_watch (w_id w) (\<lambda>r. r\<lparr>w_acct := acct, w_last_status_id := st_id (hd sts)\<rparr>) s1))" for sts
  proof (rule stops_quiet, goal_cases)
    case (1 s)
    show ?case using fold_alert_post_reqs[of W q "w_account_id w" "rev sts" "w_acct w" s] by (auto split: prod.splits)
  qed (auto split: if_splits prod.splits)
  then show ?thesis unfolding poll_watch_def Some by (simp add: stops_rbind stops_account_statuses)
qed

lemma stops_check_each: "stops W (check_each W q c now ws n)"
proof (induction ws arbitrary: n)
  case Nil
  then show ?case by (rule stops_quiet) simp_all
next
  case (Cons w ws)
  show ?case
    unfolding stops_def
  proof
    fix s
    obtain r1 s1 where p: "poll_watch W q c w s = (r1, s1)" by fastforce
    note first = stopsD[OF stops_poll_watch p]
    have rest: "stop_outcome W (n_reqs s) (fst (check_each W q c now ws k t)) (n_reqs (snd (check_each W q c now ws k t)))"
      if "n_reqs t = n_reqs s1" "\<forall>e. r1 = Inl e \<longrightarrow> \<not> rate_error e" for k t
      using stop_outcome_later[OF first that(2)] Cons.IH[of k] that(1) unfolding stops_def by metis
    show "stop_outcome W (n_reqs s) (fst (check_each W q c now (w # ws) n s)) (n_reqs (snd (check_each W q c now (w # ws) n s)))"
    proof (cases "budget_ok c RATE_RESERVE s")
      case False
      then show ?thesis by (simp add: stop_outcome_refl)
    next
      case True
      have raise: "stop_outcome W (n_reqs s) (Inl e :: mexn + nat) (n_reqs s1)" if "r1 = Inl e" for e
        using first that by (auto simp: stop_outcome_def)
      show ?thesis
      proof (cases r1)
        case (Inr u)
        then show ?thesis using p True rest by (simp)
      next
        case (Inl e)
        show ?thesis
        proof (cases e)
          case (Value_Error v)
          then show ?thesis using p True Inl raise by simp
        next
          case (Api_Error m st ra)
          show ?thesis
          proof (cases "st = Some 429")
            case True
            then show ?thesis using p \<open>budget_ok c RATE_RESERVE s\<close> Inl Api_Error raise by simp
          next
            case False
            then have "\<forall>e. r1 = Inl e \<longrightarrow> \<not> rate_error e" using Inl Api_Error by (simp add: rate_error_def)
            then show ?thesis using p \<open>budget_ok c RATE_RESERVE s\<close> Inl Api_Error False rest by simp
          qed
        qed
      qed
    qed
  qed
qed

lemma stops_check_watched: "stops W (check_watched W q c now)"
proof -
  have "stops W (rbind (check_each W q c now ws 0)
           (\<lambda>n s. (Inr () :: mexn + unit, on_result (\<lambda>r. r\<lparr>pr_checked := n\<rparr>) s)))" for ws
    by (intro stops_rbind stops_check_each stops_quiet) simp_all
  then show ?thesis unfolding stops_def check_watched_def by (metis small_writes(7))
qed

lemma stops_rbind_at:
  assumes "stops W m" "\<And>x. stops W (k x)"
  shows "stop_outcome W (n_reqs s) (fst (rbind m k s)) (n_reqs (snd (rbind m k s)))"
proof -
  have "stops W (rbind m k)" by (rule stops_rbind) (rule assms)+
  then show ?thesis unfolding stops_def by blast
qed

lemma stops_discover: "stops W (discover_new_accounts W q c now settings)"
  unfolding stops_def
proof
  fix s
  show "stop_outcome W (n_reqs s) (fst (discover_new_accounts W q c now settings s))
          (n_reqs (snd (discover_new_accounts W q c now settings s)))"
  proof (cases "budget_ok c RATE_RESERVE s")
    case False
    then show ?thesis by (simp add: discover_new_accounts_def stop_outcome_refl)
  next
    case True
    then show ?thesis unfolding discover_new_accounts_def Let_def
      by (cases "mget s CURSOR [] = []"; simp only: if_True if_False simp_thms;
          intro stops_rbind_at stops_list_local_accounts stops_quiet)
         (auto split: list.splits if_splits)
  qed
qed

lemma stops_scan: "stops W (scan_silent_logins W q c now settings)"
  unfolding stops_def
proof
  fix s
  have step: "stops W (\<lambda>s. let (found, s1) = fold (silent_account W q) (filter (is_silent W now settings) accounts) ([], s);
                s2 = (if found = [] then s1
                      else s1\<lparr>m_notes := m_notes s1 @ [Silent_Summary (length found) (map ac_acct (take 5 found))]\<rparr>)
            in (Inr () :: mexn + unit, mset SILENT_SCAN (wb_isoformat W now) s2))" for accounts
  proof (rule stops_quiet)
    fix s
    show "n_reqs (snd (let (found, s1) = fold (silent_account W q) (filter (is_silent W now settings) accounts) ([], s);
                s2 = (if found = [] then s1
                      else s1\<lparr>m_notes := m_notes s1 @ [Silent_Summary (length found) (map ac_acct (take 5 found))]\<rparr>)
            in (Inr () :: mexn + unit, mset SILENT_SCAN (wb_isoformat W now) s2))) = n_reqs s"
      using fold_silent_reqs[of W q "filter (is_silent W now settings) accounts" "[]" s]
      by (auto simp: Let_def split: prod.splits)
  qed (auto simp: Let_def split: prod.splits)
  show "stop_outcome W (n_reqs s) (fst (scan_silent_logins W q c now settings s))
          (n_reqs (snd (scan_silent_logins W q c now settings s)))"
    unfolding scan_silent_logins_def
    by (cases "scanned_recently W now s"; cases "budget_ok c (RATE_RESERVE + 10) s"; simp only: if_True if_False simp_thms)
       (auto intro!: stops_rbind_at stops_list_local_accounts step[unfolded Let_def] stop_outcome_refl simp: Let_def)
qed

subsection \<open>The whole poll\<close>

lemma send_welcome_result: "m_result (snd (send_welcome W q bc i a None False s)) = m_result s"
proof -
  have "m_result s1 = m_result s" if "post_direct W bc msg key s = (r, s1)" for msg key r s1
    by (rule more_cong(7)[OF post_direct_sends(2)[OF that]])
  then show ?thesis
    by (auto simp: send_welcome_def Let_def mod_frame split: option.splits sum.splits mexn.splits prod.splits)
qed

interpretation backoff_kept: poll_welcome "\<lambda>s s'. pr_backoff_until (m_result s') = pr_backoff_until (m_result s)"
  by unfold_locales
     (auto simp: mod_frame record_alert_def Let_def keeps_backoff_def send_welcome_result dest: more_cong(7))

text \<open>The requests of the welcome step are those of the bot.\<close>

definition sends_as :: "client \<Rightarrow> moderation \<Rightarrow> moderation \<Rightarrow> bool" where
  "sends_as bc s s' \<longleftrightarrow> (\<exists>qs. n_reqs s' = n_reqs s @ qs \<and> list_all (bot_request (Some bc)) qs)"

lemma sends_as_same: "n_reqs s' = n_reqs s \<Longrightarrow> sends_as bc s s'"
  by (auto simp: sends_as_def)

lemma sends_as_trans: "sends_as bc s t \<Longrightarrow> sends_as bc t u \<Longrightarrow> sends_as bc s u"
  unfolding sends_as_def by (elim exE conjE) (simp add: exI[where x = "_ @ _"])

lemma sends_as_welcome:
  assumes "send_welcome W q bc i a None False s = (e, s')"
  shows "sends_as bc s s'"
  using assms by (cases rule: send_welcome_outcome) (auto simp: sends_as_def direct_message_def bot_request_def)

lemma sends_as_verify: "bot_identity W bc s = (i, s') \<Longrightarrow> sends_as bc s s'"
proof -
  assume "bot_identity W bc s = (i, s')"
  then have s': "s' = snd (bot_verify W bc s)" by (auto simp: bot_identity_def split: prod.splits sum.splits)
  have "request_of bc ''GET'' ''/api/v1/accounts/verify_credentials'' [] None None p \<Longrightarrow> bot_request (Some bc) p" for p
    by (auto simp: request_of_def bot_request_def base_url_def with_params_def startswith_def)
  then have "calls (1 + 0) (bot_request (Some bc)) (bot_verify W bc :: (unit moderation_ext, string option) mio)"
    unfolding bot_verify_def get_def
    by (intro calls_rbind_dep[OF calls_mono[OF calls_request order_refl]]) (auto intro: calls_intros)
  then show ?thesis using callsD[of _ _ _ s] s' unfolding sends_as_def list_all_iff by metis
qed

lemma sends_as_welcome_each: "sends_as bc s (snd (welcome_each W q bc self as n s))"
proof (induction as arbitrary: n s)
  case (Cons a as)
  obtain e s1 where w: "send_welcome W q bc (str_id (ac_id a)) (dm_of a) None False s = (e, s1)" by fastforce
  have "sends_as bc s s1" "sends_as bc s (add_error m s1)" for m
    using sends_as_welcome[OF w] by (simp_all add: sends_as_def)
  then show ?case
    using w sends_as_trans[OF _ Cons.IH] Cons.IH[of s n]
    by (auto simp: Let_def split: option.splits intro: sends_as_same)
qed (simp add: sends_as_same)

lemma sends_as_welcomes: "sends_as bc s (send_welcomes W q bc as s)"
proof -
  obtain i s1 where v: "bot_identity W bc s = (i, s1)" by fastforce
  obtain n s2 where w: "welcome_each W q bc i (sort_key ac_created_at as) 0 s1 = (n, s2)" by fastforce
  have "sends_as bc s s2"
    using sends_as_trans[OF sends_as_verify[OF v]] sends_as_welcome_each[of bc s1 W q i "sort_key ac_created_at as" 0] w
    by simp
  then show ?thesis using v w by (auto simp: send_welcomes_def Let_def sends_as_def)
qed

lemma welcome_step_segment:
  "\<exists>qs. n_reqs (snd (welcome_step W q bc s)) = n_reqs s @ qs \<and> list_all (bot_request bc) qs"
  using sends_as_welcomes by (auto simp: welcome_step_def sends_as_def split: option.splits)

text \<open>
  What the abort flag means after a step: it is set when the last request, and none before it since
  \<open>base\<close>, met the rate limit, and then the time to wait for is recorded.
\<close>

definition backoff_time :: "web \<Rightarrow> usec \<Rightarrow> int option \<Rightarrow> string" where
  "backoff_time W now ra = wb_isoformat W (now + usec_of_seconds (case ra of None \<Rightarrow> 60 | Some n \<Rightarrow> n))"

definition poll_state :: "web \<Rightarrow> client option \<Rightarrow> usec \<Rightarrow> http_request list \<Rightarrow> bool \<Rightarrow> moderation \<Rightarrow> bool" where
  "poll_state W bc now base ab s \<longleftrightarrow> (\<exists>qs. n_reqs s = base @ qs \<and>
     (if ab then qs \<noteq> [] \<and> unlimited W bc base (butlast qs) \<and>
        (\<exists>ra. delay_of W (n_reqs s) ra \<and> pr_backoff_until (m_result s) = Some (backoff_time W now ra))
      else unlimited W bc base qs \<and> pr_backoff_until (m_result s) = None))"

lemma poll_state_same:
  "n_reqs s' = n_reqs s \<Longrightarrow> pr_backoff_until (m_result s') = pr_backoff_until (m_result s) \<Longrightarrow>
   poll_state W bc now base ab s' = poll_state W bc now base ab s"
  by (simp add: poll_state_def)

lemma poll_step_stops:
  assumes "stops W m" "\<And>t. pr_backoff_until (m_result (snd (m t))) = pr_backoff_until (m_result t)"
    and "poll_state W bc now base ab s" "poll_step W now step m ab s = (r, s')"
  shows "\<exists>ab'. poll_state W bc now base ab' s' \<and> (\<forall>x. r = Inr x \<longrightarrow> x = ab')"
proof (cases ab)
  case True
  then show ?thesis using assms(3,4) by (auto simp: poll_step_def intro!: exI[of _ True])
next
  case False
  then obtain q0 where q0: "n_reqs s = base @ q0" "unlimited W bc base q0" "pr_backoff_until (m_result s) = None"
    using assms(3) by (auto simp: poll_state_def)
  obtain r1 s1 where m: "m s = (r1, s1)" by fastforce
  have none1: "pr_backoff_until (m_result s1) = None" using assms(2)[of s] m q0(3) by simp
  obtain qs where qs: "n_reqs s1 = n_reqs s @ qs" and out: "qs \<noteq> [] \<and> unlimited W None (n_reqs s) (butlast qs) \<and>
        (\<exists>msg ra. r1 = Inl (Api_Error msg (Some 429) ra) \<and> delay_of W (n_reqs s1) ra) \<or>
      unlimited W None (n_reqs s) qs \<and> (\<forall>e. r1 = Inl e \<longrightarrow> \<not> rate_error e)"
    using stopsD[OF assms(1) m] unfolding stop_outcome_def by blast
  show ?thesis
    using out
  proof (elim disjE conjE exE)
    fix msg ra
    assume a: "qs \<noteq> []" "unlimited W None (n_reqs s) (butlast qs)" "r1 = Inl (Api_Error msg (Some 429) ra)" "delay_of W (n_reqs s1) ra"
    then have "n_reqs s' = n_reqs s1" "r = Inr True" "pr_backoff_until (m_result s') = Some (backoff_time W now ra)"
      using assms(4) m False
      by (auto simp: poll_step_def note_error_def Let_def mod_frame backoff_time_def)
    moreover have "unlimited W bc base (butlast (q0 @ qs))"
      using a(1) unlimited_any[OF a(2)] q0 by (simp add: butlast_append unlimited_append)
    ultimately show ?thesis
      using a q0 qs unfolding poll_state_def by (intro exI[of _ True] conjI exI[of _ "q0 @ qs"]) auto
  next
    assume a: "unlimited W None (n_reqs s) qs" "\<forall>e. r1 = Inl e \<longrightarrow> \<not> rate_error e"
    then have "n_reqs s' = n_reqs s1" "pr_backoff_until (m_result s') = None" "\<forall>x. r = Inr x \<longrightarrow> x = False"
      using assms(4) m False none1
      by (auto simp: poll_step_def note_error_def Let_def rate_error_def add_error_def mod_frame
          split: sum.splits mexn.splits)
    moreover have "unlimited W bc base (q0 @ qs)" using unlimited_any[OF a(1)] q0 by (simp add: unlimited_append)
    ultimately show ?thesis
      using q0 qs unfolding poll_state_def by (intro exI[of _ False] conjI exI[of _ "q0 @ qs"]) auto
  qed
qed

lemma refresh_requests:
  "\<exists>qs. n_reqs (maybe_refresh_status_limit W c now s) = n_reqs s @ qs"
  "pr_backoff_until (m_result (maybe_refresh_status_limit W c now s)) = pr_backoff_until (m_result s)"
  using quiet_welcomes.R_maybe_refresh[of s W c now] backoff_kept.R_maybe_refresh[of W c now s]
  by (auto simp: gets_grow_def)

text \<open>A step with nothing to do with the limit: the welcome messages.\<close>

lemma welcome_poll_step:
  assumes "poll_state W bc now base ab s" "poll_step W now step (welcome_step W q bc) ab s = (r, s')"
  shows "poll_state W bc now base ab s' \<and> r = Inr ab"
proof (cases ab)
  case False
  have "r = Inr False" "s' = snd (welcome_step W q bc s)"
    using assms(2) False by (simp_all add: poll_step_def welcome_step_def split: option.splits)
  moreover obtain qs where "n_reqs (snd (welcome_step W q bc s)) = n_reqs s @ qs" "list_all (bot_request bc) qs"
    using welcome_step_segment by blast
  ultimately show ?thesis
    using False assms(1) backoff_kept.R_welcome_step[of W q bc s] unlimited_bot[of bc qs W "n_reqs s"]
    by (auto simp: poll_state_def unlimited_append)
qed (use assms in \<open>auto simp: poll_step_def\<close>)

definition refreshed :: "web \<Rightarrow> client \<Rightarrow> usec \<Rightarrow> moderation \<Rightarrow> moderation" where
  "refreshed W c now s = maybe_refresh_status_limit W c now (s\<lparr>m_result := empty_result\<rparr>)"

lemma rate_limit_outcome:
  "\<exists>ab. poll_state W bc now (n_reqs (refreshed W c now s)) ab (snd (run_watch_poll W q c bc now s))"
proof -
  define settings where "settings = get_watch_settings s"
  define s0 where "s0 = prune now (refreshed W c now s)"
  let ?P = "poll_state W bc now (n_reqs (refreshed W c now s))"
  have st0: "?P False s0"
    using refresh_requests(2)[of W c now "s\<lparr>m_result := empty_result\<rparr>"]
    by (simp add: s0_def prune_def poll_state_def refreshed_def empty_result_def)
  obtain r1 s1 where p1: "poll_step W now ''check_watched'' (check_watched W q c now) False s0 = (r1, s1)" by fastforce
  obtain a1 where 1: "?P a1 s1" "\<forall>x. r1 = Inr x \<longrightarrow> x = a1"
    using poll_step_stops[OF stops_check_watched backoff_kept.R_check_watched st0 p1] by blast
  obtain r2 s2 where p2: "poll_step W now ''discover_new_accounts'' (discover_new_accounts W q c now settings) a1 s1 = (r2, s2)"
    by fastforce
  obtain a2 where 2: "?P a2 s2" "\<forall>x. r2 = Inr x \<longrightarrow> x = a2"
    using poll_step_stops[OF stops_discover backoff_kept.R_discover 1(1) p2] by blast
  obtain r3 s3 where p3: "poll_step W now ''send_welcomes'' (welcome_step W q bc) a2 s2 = (r3, s3)" by fastforce
  note 3 = welcome_poll_step[OF 2(1) p3]
  obtain r4 s4 where p4: "poll_step W now ''scan_silent_logins'' (scan_silent_logins W q c now settings) a2 s3 = (r4, s4)"
    by fastforce
  obtain a4 where 4: "?P a4 s4"
    using poll_step_stops[OF stops_scan backoff_kept.R_scan_silent_logins conjunct1[OF 3] p4] by blast
  have fin: "?P a4 (snd (finish_poll W c now s4))"
    using 4 by (rule poll_state_same[THEN iffD2, rotated 2]) (simp_all add: finish_poll_def Let_def mod_frame)
  have "snd (run_watch_poll W q c bc now s) =
      (case r1 of Inl _ \<Rightarrow> s1 | Inr _ \<Rightarrow> (case r2 of Inl _ \<Rightarrow> s2 | Inr _ \<Rightarrow>
        (case r4 of Inl _ \<Rightarrow> s4 | Inr _ \<Rightarrow> snd (finish_poll W c now s4))))"
    unfolding run_watch_poll_def Let_def settings_def[symmetric] refreshed_def[symmetric] s0_def[symmetric]
    using 1(2) 2(2) 3 by (cases r1; cases r2; cases r4; simp add: rbind_def p1 p2 p3 p4)
  then show ?thesis using 1(1) 2(1) 4 fin by (auto split: sum.splits)
qed

lemma limited_delay: "limited W reqs \<longleftrightarrow> (\<exists>ra. delay_of W reqs ra)"
  by (auto simp: limited_def delay_of_def split: http_answer.splits)

lemma poll_state_backoff:
  assumes "poll_state W bc now base ab s" "pr_backoff_until (m_result s) = Some t"
  shows "\<exists>ra. delay_of W (n_reqs s) ra \<and> t = backoff_time W now ra"
  using assms by (auto simp: poll_state_def split: if_splits)

lemma poll_state_limited:
  assumes "poll_state W bc now base ab s" "n_reqs s = base @ pre @ p # post"
    and "\<not> bot_request bc p" "limited W (base @ pre @ [p])"
  shows "post = [] \<and> (\<exists>ra. delay_of W (n_reqs s) ra \<and> pr_backoff_until (m_result s) = Some (backoff_time W now ra))"
proof -
  have lim: "\<not> unlimited W bc base (pre @ p # xs)" for xs using assms(3,4) by (simp add: unlimited_append)
  then have "ab" using assms(1,2) by (auto simp: poll_state_def split: if_splits)
  moreover have "post = []"
    using assms(1,2) lim[of "butlast post"] \<open>ab\<close> by (auto simp: poll_state_def butlast_append split: if_splits)
  ultimately show ?thesis using assms(1) by (auto simp: poll_state_def)
qed

section \<open>The scheduled job\<close>

text \<open>The module-level state that stretches the interval after short runs.\<close>

record stretch =
  sx_consecutive_short :: nat
  sx_factor :: int

definition WATCH_STRETCH_MAX_FACTOR :: int where "WATCH_STRETCH_MAX_FACTOR = 6"
definition WATCH_STRETCH_THRESHOLD :: nat where "WATCH_STRETCH_THRESHOLD = 2"

record watch_job =
  wj_stretch :: stretch
  wj_minutes :: int
  wj_state :: moderation

definition BACKOFF :: string where "BACKOFF = ''moderation_watch_backoff_until''"

definition backing_off :: "web \<Rightarrow> usec \<Rightarrow> moderation \<Rightarrow> bool" where
  "backing_off W now s =
     (let raw = mget s BACKOFF [] in
      raw \<noteq> [] \<and> (case wb_fromiso W raw of None \<Rightarrow> False | Some t \<Rightarrow> t > now))"

definition poll_minutes :: "moderation \<Rightarrow> int" where
  "poll_minutes s = interval_setting ''moderation_watch_poll_minutes''
     (map_of (d_settings (mdb s)) ''moderation_watch_poll_minutes'')"

definition store_backoff :: "moderation \<Rightarrow> moderation" where
  "store_backoff s =
     (let t = opt_str (pr_backoff_until (m_result s)) in
      if t \<noteq> [] then mset BACKOFF t s
      else if mget s BACKOFF [] \<noteq> [] then mset BACKOFF [] s else s)"

definition adapt_interval :: "bool \<Rightarrow> watch_job \<Rightarrow> watch_job" where
  "adapt_interval short j =
     (let x = wj_stretch j in
      if short then
        let n = Suc (sx_consecutive_short x); f = min WATCH_STRETCH_MAX_FACTOR (sx_factor x * 2) in
        if n \<ge> WATCH_STRETCH_THRESHOLD \<and> f \<noteq> sx_factor x
        then j\<lparr>wj_stretch := \<lparr>sx_consecutive_short = n, sx_factor = f\<rparr>, wj_minutes := poll_minutes (wj_state j) * f\<rparr>
        else j\<lparr>wj_stretch := x\<lparr>sx_consecutive_short := n\<rparr>\<rparr>
      else if sx_factor x \<noteq> 1
      then j\<lparr>wj_stretch := \<lparr>sx_consecutive_short = 0, sx_factor = 1\<rparr>, wj_minutes := poll_minutes (wj_state j)\<rparr>
      else j\<lparr>wj_stretch := x\<lparr>sx_consecutive_short := 0\<rparr>\<rparr>)"

definition welcome_client :: "(string \<Rightarrow> string option) \<Rightarrow> moderation \<Rightarrow> client option" where
  "welcome_client decrypt s =
     (if mget s ''moderation_welcome_enabled'' ''false'' = ''true''
      then case build_bot_client decrypt s of Inl _ \<Rightarrow> None | Inr b \<Rightarrow> Some b
      else None)"

text \<open>
  \<open>now\<close> is the time of the back-off check, \<open>now'\<close> the one the poll takes for itself. A new client has
  seen no rate limit.
\<close>

definition run_moderation_watch_poll ::
  "web \<Rightarrow> (string \<Rightarrow> string option) \<Rightarrow> req_ctx \<Rightarrow> usec \<Rightarrow> usec \<Rightarrow> (mexn, watch_job, unit) run" where
  "run_moderation_watch_poll W decrypt q now now' j =
     (let s = wj_state j in
      if mget s ''moderation_watch_alerts_enabled'' ''false'' \<noteq> ''true'' then (Inr (), j)
      else if backing_off W now s then (Inr (), j)
      else case build_admin_client decrypt s of
             Inl _ \<Rightarrow> (Inr (), j)
           | Inr c \<Rightarrow>
               (case run_watch_poll W q c (welcome_client decrypt s) now' (s\<lparr>n_rate := (\<lambda>_. None)\<rparr>) of
                  (Inl e, s1) \<Rightarrow> (Inl e, j\<lparr>wj_state := s1\<rparr>)
                | (Inr _, s1) \<Rightarrow>
                    (Inr (), adapt_interval (pr_deferred (m_result s1) \<or> opt_str (pr_backoff_until (m_result s1)) \<noteq> [])
                               (j\<lparr>wj_state := store_backoff s1\<rparr>))))"

text \<open>The time stamps of the program can be read back.\<close>

definition iso_ok :: "web \<Rightarrow> bool" where
  "iso_ok W \<longleftrightarrow> (\<forall>t. wb_isoformat W t \<noteq> [] \<and> wb_fromiso W (wb_isoformat W t) = Some t)"

lemma adapt_interval_state [simp]: "wj_state (adapt_interval b j) = wj_state j"
  by (simp add: adapt_interval_def Let_def)

lemma store_backoff_facts:
  "n_reqs (store_backoff s) = n_reqs s" "m_result (store_backoff s) = m_result s"
  "opt_str (pr_backoff_until (m_result s)) \<noteq> [] \<Longrightarrow> mget (store_backoff s) BACKOFF [] = opt_str (pr_backoff_until (m_result s))"
  by (simp_all add: store_backoff_def Let_def mod_frame mget_def mdb_def mset_def)

text \<open>
  Scheduled polls wait as the instance asks. When a scheduled run was answered by a 429, no later
  scheduled run sends a request, or changes anything, before the delay of that answer (a minute if it
  names none) has passed since the poll, whatever the settings and the instance do in between. The
  hypothesis is that \<^verbatim>\<open>fromisoformat\<close> reads what \<^verbatim>\<open>isoformat\<close> writes.
\<close>

theorem scheduled_polls_back_off:
  assumes "iso_ok W" "run_moderation_watch_poll W decrypt q now now' j = (Inr (), j')"
    and "n_reqs (wj_state j') \<noteq> n_reqs (wj_state j)" "pr_backoff_until (m_result (wj_state j')) \<noteq> None"
  shows "\<exists>ra. delay_of W (n_reqs (wj_state j')) ra \<and>
           (\<forall>later later'. later < now' + usec_of_seconds (case ra of None \<Rightarrow> 60 | Some n \<Rightarrow> n) \<longrightarrow>
              run_moderation_watch_poll W decrypt q later later' j' = (Inr (), j'))"
proof -
  let ?s = "wj_state j"
  obtain c s1 where poll: "run_watch_poll W q c (welcome_client decrypt ?s) now' (?s\<lparr>n_rate := (\<lambda>_. None)\<rparr>) = (Inr (), s1)"
    and j': "wj_state j' = store_backoff s1"
    using assms(2,3)
    by (auto simp: run_moderation_watch_poll_def Let_def split: if_splits sum.splits prod.splits)
  obtain t where t: "pr_backoff_until (m_result s1) = Some t" using assms(4) j' by (auto simp: store_backoff_facts)
  obtain base ab where "poll_state W (welcome_client decrypt ?s) now' base ab s1"
    using rate_limit_outcome[of W "welcome_client decrypt ?s" now' c "?s\<lparr>n_rate := (\<lambda>_. None)\<rparr>" q] poll by auto
  then obtain ra where ra: "delay_of W (n_reqs s1) ra" "t = backoff_time W now' ra" using poll_state_backoff t by blast
  have ne: "t \<noteq> []" using assms(1) ra(2) by (simp add: iso_ok_def backoff_time_def)
  then have stored: "mget (wj_state j') BACKOFF [] = t" using store_backoff_facts(3)[of s1] t j' by (simp add: opt_str_def)
  have "backing_off W later (wj_state j')"
    if "later < now' + usec_of_seconds (case ra of None \<Rightarrow> 60 | Some n \<Rightarrow> n)" for later
    using stored ne assms(1) that ra(2) by (simp add: backing_off_def Let_def iso_ok_def backoff_time_def)
  then show ?thesis using ra(1) j' by (auto simp: run_moderation_watch_poll_def Let_def store_backoff_facts)
qed

text \<open>An instance that answers every request by a 429, and a readable way to write times.\<close>

definition unary_iso :: "usec \<Rightarrow> string" where
  "unary_iso t = (if t < 0 then CHR ''-'' else CHR ''+'') # replicate (nat \<bar>t\<bar>) CHR ''x''"

definition unary_fromiso :: "string \<Rightarrow> usec option" where
  "unary_fromiso s = (case s of [] \<Rightarrow> None
     | c # cs \<Rightarrow> Some (if c = CHR ''-'' then - int (length cs) else int (length cs)))"

definition limiting_web :: web where
  "limiting_web = (linking_web [])\<lparr>wb_http := (\<lambda>_. Error_Answer 429 [] no_headers),
     wb_isoformat := unary_iso, wb_fromiso := unary_fromiso\<rparr>"

definition sample_job :: watch_job where
  "sample_job = \<lparr>wj_stretch = \<lparr>sx_consecutive_short = 0, sx_factor = 1\<rparr>, wj_minutes = 5,
     wj_state = mset ''moderation_watch_alerts_enabled'' ''true''
       (mset ''moderation_mastodon_api_url'' ''https://mastodon.example''
         (mset ''moderation_mastodon_api_token'' ''sealed''
           (mset STATUS_LIMIT_CHECKED_SETTING ''+'' sample_moderation)))\<rparr>"

lemma iso_ok_limiting_web: "iso_ok limiting_web"
  by (auto simp: iso_ok_def limiting_web_def unary_iso_def unary_fromiso_def)

lemma limiting_delay: "delay_of limiting_web reqs ra \<longleftrightarrow> ra = None"
  by (auto simp: delay_of_def limiting_web_def error_delay_def no_headers_def retry_after_def
      parse_rate_limit_headers_def)

lemma limiting_get:
  assumes "startswith path ''/''"
  shows "\<exists>msg q. get limiting_web c path ps s =
     (Inl (Api_Error msg (Some 429) None), set_rate c (parse_rate_limit_headers limiting_web no_headers) (s\<lparr>n_reqs := n_reqs s @ [q]\<rparr>))"
proof -
  have "base_url c path = Inr (cl_api_url c @ path)"
    using assms by (cases path) (auto simp: base_url_def startswith_def)
  then show ?thesis
    by (simp add: get_def request_def Let_def receive_def limiting_web_def is_redirect_def error_delay_def no_headers_def
        retry_after_def parse_rate_limit_headers_def) blast
qed

lemma limiting_list:
  "\<exists>msg q. list_local_accounts limiting_web c t (Suc n) s =
     (Inl (Api_Error msg (Some 429) None), set_rate c (parse_rate_limit_headers limiting_web no_headers) (s\<lparr>n_reqs := n_reqs s @ [q]\<rparr>))"
proof -
  obtain msg q where "get limiting_web c ''/api/v2/admin/accounts''
      [(''origin'', Some ''local''), (''status'', Some ''active''), (''limit'', Some PAGE_SIZE)] s =
      (Inl (Api_Error msg (Some 429) None), set_rate c (parse_rate_limit_headers limiting_web no_headers) (s\<lparr>n_reqs := n_reqs s @ [q]\<rparr>))"
    using limiting_get[of "''/api/v2/admin/accounts''" c _ s] by (fastforce simp: startswith_def)
  then show ?thesis by (auto simp: list_local_accounts_def rbind_def)
qed

lemma limiting_discover:
  assumes "budget_ok c RATE_RESERVE s" "mget s CURSOR [] = []"
  shows "\<exists>msg p s'. discover_new_accounts limiting_web q c now settings s = (Inl (Api_Error msg (Some 429) None), s') \<and>
           n_reqs s' = n_reqs s @ [p]"
  using assms limiting_list[of c None 0 s] by (auto simp: discover_new_accounts_def rbind_def)

text \<open>A run with no watched account meets the limit when it lists the sign-ups.\<close>

lemma limited_run:
  defines "r \<equiv> \<lambda>c s. refreshed limiting_web c 0 s"
  assumes "m_watches (r c s) = []" "budget_ok c RATE_RESERVE (r c s)" "mget (r c s) CURSOR [] = []"
  shows "\<exists>s' p. run_watch_poll limiting_web q c None 0 s = (Inr (), s') \<and> n_reqs s' = n_reqs (r c s) @ [p] \<and>
           pr_backoff_until (m_result s') \<noteq> None"
proof -
  let ?W = limiting_web
  obtain s1 where s1: "check_watched ?W q c 0 (prune 0 (r c s)) = (Inr (), s1)" "n_reqs s1 = n_reqs (r c s)"
      "n_rate s1 = n_rate (r c s)" "m_app s1 = m_app (r c s)"
    using assms(2) by (auto simp: check_watched_def due_watches_def prune_def rbind_def on_result_def)
  have "budget_ok c RATE_RESERVE s1" "mget s1 CURSOR [] = []"
    using s1 assms(3,4) by (simp_all add: budget_ok_def mget_def mdb_def)
  then obtain msg p s2 where "discover_new_accounts ?W q c 0 (get_watch_settings s) s1 = (Inl (Api_Error msg (Some 429) None), s2)"
      "n_reqs s2 = n_reqs (r c s) @ [p]"
    using limiting_discover[of c s1 q 0 "get_watch_settings s"] s1(2) by auto
  then show ?thesis
    using s1(1)
    by (simp add: run_watch_poll_def Let_def refreshed_def[symmetric] r_def rbind_def poll_step_def note_error_def
        finish_poll_def mod_frame)
qed

lemma refresh_skipped:
  assumes "mget s STATUS_LIMIT_CHECKED_SETTING [] = ''+''"
  shows "refreshed limiting_web c 0 s = s\<lparr>m_result := empty_result\<rparr>"
  using assms
  by (simp add: refreshed_def maybe_refresh_status_limit_def Let_def mget_def mdb_def parse_iso_def py_strip_def py_space_def
      code_def limiting_web_def unary_fromiso_def usec_of_hours_def STATUS_LIMIT_REFRESH_HOURS_def)

lemma limited_state: "limited limiting_web reqs"
  by (simp add: limited_delay limiting_delay)

lemma limiting_max_chars:
  "\<exists>m s' p1 p2. max_status_chars limiting_web c s = (Inl (Api_Error m (Some 429) None), s') \<and> n_reqs s' = n_reqs s @ [p1, p2] \<and>
     net.more s' = net.more s \<and> budget_ok c n s'"
proof -
  obtain m1 q1 where 1: "get limiting_web c ''/api/v2/instance'' [] s =
     (Inl (Api_Error m1 (Some 429) None), set_rate c (parse_rate_limit_headers limiting_web no_headers) (s\<lparr>n_reqs := n_reqs s @ [q1]\<rparr>))"
    using limiting_get[of "''/api/v2/instance''" c "[]" s] by (auto simp: startswith_def)
  let ?s = "set_rate c (parse_rate_limit_headers limiting_web no_headers) (s\<lparr>n_reqs := n_reqs s @ [q1]\<rparr>)"
  obtain m2 q2 where 2: "get limiting_web c ''/api/v1/instance'' [] ?s =
     (Inl (Api_Error m2 (Some 429) None), set_rate c (parse_rate_limit_headers limiting_web no_headers) (?s\<lparr>n_reqs := n_reqs ?s @ [q2]\<rparr>))"
    using limiting_get[of "''/api/v1/instance''" c "[]" ?s] by (auto simp: startswith_def)
  show ?thesis
    using 1 2
    by (simp add: max_status_chars_def try_max_chars_def rcatch_def rbind_def rreturn_def rraise_def set_rate_def budget_ok_def
        parse_rate_limit_headers_def no_headers_def hard_fail_def)
qed

text \<open>
  A 429 to the check of the length limit is not noticed: when the limit is due, the run asks for it
  twice and goes on, although the instance answers both by a 429.
\<close>

theorem refresh_limit_ignored:
  assumes "m_watches s = []" "n_rate s (cl_kind c) = None" "mget s CURSOR [] = []" "mget s STATUS_LIMIT_CHECKED_SETTING [] = []"
  shows "\<exists>p1 p2 p3. n_reqs (snd (run_watch_poll limiting_web q c None 0 s)) = n_reqs s @ [p1, p2, p3] \<and>
           limited limiting_web (n_reqs s @ [p1]) \<and> limited limiting_web (n_reqs s @ [p1, p2])"
proof -
  let ?s = "s\<lparr>m_result := empty_result\<rparr>"
  obtain m s' p1 p2 where m: "max_status_chars limiting_web c ?s = (Inl (Api_Error m (Some 429) None), s')" "n_reqs s' = n_reqs s @ [p1, p2]"
      "net.more s' = net.more ?s" "budget_ok c RATE_RESERVE s'"
    using limiting_max_chars[of c ?s] by fastforce
  have "budget_ok c RATE_RESERVE ?s" "mget ?s STATUS_LIMIT_CHECKED_SETTING [] = []"
    using assms(2,4) by (simp_all add: budget_ok_def mget_def mdb_def)
  then have r: "refreshed limiting_web c 0 s = on_result (\<lambda>r. r\<lparr>pr_status_limit := Some (get_status_limit s')\<rparr>) s'"
    using m(1)
    by (simp add: refreshed_def maybe_refresh_status_limit_def refresh_status_limit_def parse_iso_def limiting_web_def
        unary_fromiso_def py_strip_def)
  have "n_reqs (refreshed limiting_web c 0 s) = n_reqs s @ [p1, p2]" "budget_ok c RATE_RESERVE (refreshed limiting_web c 0 s)"
      "m_watches (refreshed limiting_web c 0 s) = []" "mget (refreshed limiting_web c 0 s) CURSOR [] = []"
    using m assms(1,3) more_cong[OF m(3)] by (simp_all add: r mod_frame budget_ok_def mget_def mdb_def on_result_def)
  then show ?thesis using limited_run[of c s q] limited_state by fastforce
qed

text \<open>
  C23. The poll and the instance's rate limit. Look at the requests a run makes after the check of the
  length limit. One that is not the welcome bot's and is answered by a 429 is the last request of the
  run, and the run records the time the answer asks to wait for (a minute when it asks for none). A run
  records such a time only when its last request was answered by a 429. The requests left out are those
  whose failures the code catches elsewhere: a 429 to the check of the length limit, for one, does not
  end the run (\<^verbatim>\<open>refresh_limit_ignored\<close>).
\<close>

theorem rate_limit_ends_poll:
  assumes "s0 = refreshed W c now s" "s' = snd (run_watch_poll W q c bc now s)"
  shows "(\<exists>q0 qs. n_reqs s0 = n_reqs s @ q0 \<and> n_reqs s' = n_reqs s0 @ qs) \<and>
    (\<forall>pre p post. n_reqs s' = n_reqs s0 @ pre @ p # post \<and> \<not> bot_request bc p \<and> limited W (n_reqs s0 @ pre @ [p]) \<longrightarrow>
       post = [] \<and> (\<exists>ra. delay_of W (n_reqs s') ra \<and> pr_backoff_until (m_result s') = Some (backoff_time W now ra))) \<and>
    (\<forall>t. pr_backoff_until (m_result s') = Some t \<longrightarrow> n_reqs s' \<noteq> n_reqs s0 \<and> limited W (n_reqs s'))"
proof -
  obtain ab where st: "poll_state W bc now (n_reqs s0) ab s'" using rate_limit_outcome assms by blast
  have "\<exists>q0. n_reqs s0 = n_reqs s @ q0" using refresh_requests(1)[of W c now "s\<lparr>m_result := empty_result\<rparr>"] assms(1) by (simp add: refreshed_def)
  moreover have "\<exists>qs. n_reqs s' = n_reqs s0 @ qs" using st by (auto simp: poll_state_def)
  moreover have "n_reqs s' \<noteq> n_reqs s0 \<and> limited W (n_reqs s')" if "pr_backoff_until (m_result s') = Some t" for t
    using st that by (auto simp: poll_state_def limited_delay split: if_splits)
  ultimately show ?thesis using poll_state_limited[OF st] by blast
qed

text \<open>The run of the sample makes one request, which meets the limit, and waits a minute.\<close>

theorem rate_limit_ends_poll_witness:
  "\<exists>s' p. snd (run_watch_poll limiting_web sample_ctx sample_client None 0 (wj_state sample_job)) = s' \<and>
     n_reqs s' = [p] \<and> limited limiting_web [p] \<and> pr_backoff_until (m_result s') = Some (unary_iso 60000000)"
proof -
  let ?s = "wj_state sample_job"
  have cfg: "m_watches ?s = []" "n_rate ?s (cl_kind sample_client) = None" "mget ?s CURSOR [] = []" "n_reqs ?s = []"
    "mget ?s STATUS_LIMIT_CHECKED_SETTING [] = ''+''"
    by (simp_all add: sample_job_def mget_def mset_def mdb_def sample_moderation_def sample_app_def empty_db_def
        setting_get_def setting_set_def CURSOR_def STATUS_LIMIT_CHECKED_SETTING_def)
  note r = refresh_skipped[OF cfg(5), of sample_client]
  obtain s' p where s': "snd (run_watch_poll limiting_web sample_ctx sample_client None 0 ?s) = s'" "n_reqs s' = [p]"
    using limited_run[of sample_client ?s sample_ctx] cfg by (auto simp: r budget_ok_def mget_def mdb_def)
  note lim = limited_state[of "[p]"]
  have "n_reqs (refreshed limiting_web sample_client 0 ?s) = []" by (simp add: r cfg(4))
  then have "\<exists>ra. delay_of limiting_web (n_reqs s') ra \<and> pr_backoff_until (m_result s') = Some (backoff_time limiting_web 0 ra)"
    using rate_limit_ends_poll[OF refl s'(1)[symmetric]] s'(2) lim by (fastforce simp: bot_request_def)
  then have "pr_backoff_until (m_result s') = Some (unary_iso 60000000)"
    unfolding limiting_delay by (simp add: backoff_time_def limiting_web_def usec_of_seconds_def)
  then show ?thesis using s' lim by blast
qed

theorem scheduled_polls_back_off_witness:
  "\<exists>j'. run_moderation_watch_poll limiting_web Some sample_ctx 0 0 sample_job = (Inr (), j') \<and>
     run_moderation_watch_poll limiting_web Some sample_ctx 59000000 59000000 j' = (Inr (), j')"
proof -
  let ?s = "wj_state sample_job" and ?c = "new_client Admin_Client ''https://mastodon.example'' ''sealed''"
  have cfg: "mget ?s ''moderation_watch_alerts_enabled'' ''false'' = ''true''" "\<not> backing_off limiting_web 0 ?s"
    "build_admin_client Some ?s = Inr ?c" "welcome_client Some ?s = None" "m_watches ?s = []" "mget ?s CURSOR [] = []"
    "mget ?s STATUS_LIMIT_CHECKED_SETTING [] = ''+''"
    by (simp_all add: sample_job_def mget_def mset_def mdb_def sample_moderation_def sample_app_def empty_db_def
        backing_off_def build_admin_client_def build_client_def welcome_client_def BACKOFF_def setting_get_def
        setting_set_def CURSOR_def STATUS_LIMIT_CHECKED_SETTING_def)
  then obtain s1 where s1: "run_watch_poll limiting_web sample_ctx ?c None 0 (?s\<lparr>n_rate := (\<lambda>_. None)\<rparr>) = (Inr (), s1)"
      "n_reqs s1 \<noteq> n_reqs ?s" "pr_backoff_until (m_result s1) \<noteq> None"
    using limited_run[of ?c "?s\<lparr>n_rate := (\<lambda>_. None)\<rparr>" sample_ctx] refresh_skipped[of "?s\<lparr>n_rate := (\<lambda>_. None)\<rparr>" ?c]
    by (auto simp: mget_def mdb_def budget_ok_def)
  let ?j = "snd (run_moderation_watch_poll limiting_web Some sample_ctx 0 0 sample_job)"
  have run: "run_moderation_watch_poll limiting_web Some sample_ctx 0 0 sample_job = (Inr (), ?j)"
    and j: "n_reqs (wj_state ?j) \<noteq> n_reqs ?s" "pr_backoff_until (m_result (wj_state ?j)) \<noteq> None"
    using cfg s1 by (simp_all add: run_moderation_watch_poll_def Let_def store_backoff_facts)
  obtain ra where still: "\<And>later later'. later < 0 + usec_of_seconds (case ra of None \<Rightarrow> 60 | Some n \<Rightarrow> n) \<Longrightarrow>
      run_moderation_watch_poll limiting_web Some sample_ctx later later' ?j = (Inr (), ?j)"
    and "delay_of limiting_web (n_reqs (wj_state ?j)) ra"
    using scheduled_polls_back_off[OF iso_ok_limiting_web run j] by blast
  then have "ra = None" by (simp add: limiting_delay)
  then show ?thesis using run still by (intro exI[of _ ?j]) (simp add: usec_of_seconds_def)
qed

end
