(* ===== verification/Moderation_Rotation.thy ===== *)
theory Moderation_Rotation
  imports Moderation_Safety
begin

text \<open>
  The rotation of the watched accounts (\<open>_check_watched\<close> of \<^verbatim>\<open>src/core/moderation_watch.py\<close>): a poll
  looks at a bounded number of accounts, those not looked at for longest first, and an account that
  fails is put at the back or removed. The theory shows that this starves no watch.
\<close>

section \<open>What a poll does to the table of watches\<close>

text \<open>The rows as the rotation sees them.\<close>

definition watch_ages :: "moderation \<Rightarrow> (int \<times> usec option) list" where
  "watch_ages s = map (\<lambda>w. (w_id w, w_last_checked_at w)) (m_watches s)"

definition stamp :: "int set \<Rightarrow> usec \<Rightarrow> int \<times> usec option \<Rightarrow> int \<times> usec option" where
  "stamp I now = (\<lambda>(i, t). (i, if i \<in> I then Some now else t))"

lemma watch_ages_set_watch:
  assumes "\<And>r. w_id (h r) = w_id r" "\<And>r. w_last_checked_at (h r) = w_last_checked_at r"
  shows "watch_ages (set_watch i h s) = watch_ages s"
  using assms by (simp add: watch_ages_def set_watch_def update_rows_def)

lemma watch_ages_mark: "watch_ages (mark_checked now w s) = map (stamp {w_id w} now) (watch_ages s)"
  by (simp add: watch_ages_def mark_checked_def set_watch_def update_rows_def stamp_def)

lemma watch_ages_drop: "watch_ages (drop_watch W q w k s) = filter (\<lambda>(i, _). i \<noteq> w_id w) (watch_ages s)"
  by (simp add: watch_ages_def drop_watch_def Let_def mod_frame filter_map comp_def)

lemma watch_ages_cong: "m_watches s' = m_watches s \<Longrightarrow> watch_ages s' = watch_ages s"
  by (simp add: watch_ages_def)

lemma send_welcome_keeps:
  "m_watches (snd (send_welcome W q bc i a None False s)) = m_watches s"
  "m_result (snd (send_welcome W q bc i a None False s)) = m_result s"
proof -
  have "m_watches s1 = m_watches s" "m_result s1 = m_result s" if "post_direct W bc msg key s = (r, s1)" for msg key r s1
    using more_cong(2,7)[OF post_direct_sends(2)[OF that]] .
  then show "m_watches (snd (send_welcome W q bc i a None False s)) = m_watches s"
    "m_result (snd (send_welcome W q bc i a None False s)) = m_result s"
    by (auto simp: send_welcome_def Let_def mod_frame split: option.splits sum.splits mexn.splits prod.splits)
qed

interpretation quiet_watches: poll_quiet_relation "\<lambda>s s'. m_watches s' = m_watches s"
  by unfold_locales (auto simp: mod_frame record_alert_def Let_def send_welcome_keeps dest: more_cong(2))

text \<open>Deferred work stays deferred until the end of the run.\<close>

interpretation deferral: poll_quiet_relation "\<lambda>s s'. pr_deferred (m_result s) \<longrightarrow> pr_deferred (m_result s')"
  by unfold_locales
     (auto simp: mod_frame record_alert_def Let_def keeps_backoff_def send_welcome_keeps dest: more_cong(7))

lemma watch_ages_poll_watch: "watch_ages (snd (poll_watch W q c w s)) = watch_ages s"
proof -
  obtain r s1 where a: "account_statuses W c (w_account_id w) (w_last_status_id w) (if w_last_status_id w = None then 1 else 40) s = (r, s1)"
    by fastforce
  have s1: "watch_ages s1 = watch_ages s"
    by (rule watch_ages_cong) (rule quiet_watches.reads_R[OF reads_account_statuses a])
  have posts: "watch_ages (snd (fold (alert_post W q i) sts (x, t))) = watch_ages t" for i sts x t
    by (rule watch_ages_cong) (rule quiet_watches.R_fold[OF quiet_watches.R_alert_post])
  show ?thesis
  proof (cases "w_last_status_id w")
    case None
    then show ?thesis using a s1
      by (auto simp: poll_watch_def rbind_def watch_ages_set_watch split: sum.splits list.splits)
  next
    case (Some l)
    have "watch_ages (snd (let (acct, s2) = fold (alert_post W q (w_account_id w)) (rev sts) (w_acct w, s1)
        in (Inr () :: mexn + unit, set_watch (w_id w) (\<lambda>r. r\<lparr>w_acct := acct, w_last_status_id := st_id (hd sts)\<rparr>) s2))) = watch_ages s1" for sts
      using posts[of "w_account_id w" "rev sts" "w_acct w" s1] by (auto simp: Let_def watch_ages_set_watch split: prod.splits)
    then show ?thesis using a s1 Some by (auto simp: poll_watch_def rbind_def split: sum.splits)
  qed
qed

text \<open>A loop that is neither stopped nor deferred stamps or removes every row it was given.\<close>

lemma check_each_ages:
  assumes "check_each W q c now ws n s = (Inr m, s')" "\<not> pr_deferred (m_result s')"
  shows "\<exists>gone. watch_ages s' = map (stamp (w_id ` set ws) now) (filter (\<lambda>(i, _). i \<notin> gone) (watch_ages s))"
  using assms
proof (induction ws arbitrary: n s)
  case Nil
  then show ?case by (intro exI[of _ "{}"]) (simp add: stamp_def case_prod_unfold)
next
  case (Cons w ws)
  obtain r s1 where p: "poll_watch W q c w s = (r, s1)" by fastforce
  have s1: "watch_ages s1 = watch_ages s" using watch_ages_poll_watch[of W q c w s] p by simp
  consider (marked) k t where "check_each W q c now ws k (mark_checked now w t) = (Inr m, s')" "watch_ages t = watch_ages s"
    | (dropped) k j where "check_each W q c now ws k (drop_watch W q w j s1) = (Inr m, s')"
    using Cons.prems p s1
    by (auto simp: set_deferred_def mod_frame add_error_def watch_ages_def split: if_splits sum.splits mexn.splits)
  then show ?case
  proof cases
    case marked
    obtain gone where "watch_ages s' = map (stamp (w_id ` set ws) now) (filter (\<lambda>(i, _). i \<notin> gone) (watch_ages (mark_checked now w t)))"
      using Cons.IH[OF marked(1) Cons.prems(2)] by blast
    then show ?thesis
      by (intro exI[of _ gone])
         (auto simp: watch_ages_mark marked(2) filter_map stamp_def comp_def case_prod_unfold intro!: map_cong)
  next
    case dropped
    obtain gone where "watch_ages s' = map (stamp (w_id ` set ws) now) (filter (\<lambda>(i, _). i \<notin> gone) (watch_ages (drop_watch W q w j s1)))"
      using Cons.IH[OF dropped Cons.prems(2)] by blast
    then show ?thesis
      by (intro exI[of _ "insert (w_id w) gone"])
         (auto simp: watch_ages_drop s1 stamp_def case_prod_unfold intro!: map_cong filter_cong)
  qed
qed

section \<open>The watches that wait\<close>

text \<open>The rows nobody has looked at since \<open>t0\<close>; a row never looked at is older than every time.\<close>

definition waiting :: "usec \<Rightarrow> moderation \<Rightarrow> watch list" where
  "waiting t0 s = filter (\<lambda>w. w_last_checked_at w < Some t0) (m_watches s)"

lemma length_waiting: "length (waiting t0 s) = length (filter (\<lambda>(_, t). t < Some t0) (watch_ages s))"
  by (simp add: waiting_def watch_ages_def filter_map comp_def)

text \<open>In a list sorted by age those that wait come first.\<close>

lemma take_sorted_filter:
  fixes f :: "'a \<Rightarrow> 'b :: linorder"
  assumes "sorted (map f xs)"
  shows "length (filter (\<lambda>x. f x < b) (drop n xs)) = length (filter (\<lambda>x. f x < b) xs) - n"
  using assms
proof (induction xs arbitrary: n)
  case (Cons x xs)
  show ?case
  proof (cases n)
    case (Suc m)
    have "filter (\<lambda>x. f x < b) xs = []" if "\<not> f x < b"
      using Cons.prems that by (force simp: filter_empty_conv)
    then show ?thesis using Cons Suc by auto
  qed simp
qed simp

lemma length_filter_mono: "(\<And>x. P x \<Longrightarrow> Q x) \<Longrightarrow> length (filter P xs) \<le> length (filter Q xs)"
  by (induction xs) (auto simp: le_Suc_eq)

text \<open>A prefix of a list with distinct keys and the rest of the list share no key.\<close>

lemma filter_outside_take:
  assumes "distinct (map f xs)"
  shows "filter (\<lambda>x. f x \<notin> f ` set (take n xs) \<and> P x) xs = filter P (drop n xs)"
proof -
  let ?Q = "\<lambda>x. f x \<notin> f ` set (take n xs) \<and> P x"
  have "f ` set (take n xs) \<inter> f ` set (drop n xs) = {}"
    using assms by (subst (asm) append_take_drop_id[of n xs, symmetric]) (simp only: map_append distinct_append set_map)
  then have "filter ?Q (drop n xs) = filter P (drop n xs)" by (intro filter_cong) auto
  moreover have "filter ?Q (take n xs) = []" by (auto simp: filter_empty_conv)
  moreover have "filter ?Q xs = filter ?Q (take n xs) @ filter ?Q (drop n xs)"
    by (subst filter_append[symmetric]) simp
  ultimately show ?thesis by simp
qed

lemma check_watched_waiting:
  assumes "distinct (map w_id (m_watches s))" "check_watched W q c now s = (Inr (), s')"
    "\<not> pr_deferred (m_result s')" "t0 \<le> now"
  shows "length (waiting t0 s') \<le> length (waiting t0 s) - MAX_WATCH_REQUESTS_PER_RUN" "distinct (map w_id (m_watches s'))"
proof -
  let ?s0 = "on_result (\<lambda>r. r\<lparr>pr_watch_total := int (length (m_watches s))\<rparr>) s" and ?I = "w_id ` set (due_watches s)"
  let ?old = "\<lambda>w. w_last_checked_at w < Some t0" and ?sorted = "sort_key w_last_checked_at (m_watches s)"
  obtain n s1 where "check_each W q c now (due_watches s) 0 ?s0 = (Inr n, s1)" "m_watches s' = m_watches s1"
      "pr_deferred (m_result s') = pr_deferred (m_result s1)"
    using assms(2) by (auto simp: check_watched_def rbind_def mod_frame split: sum.splits prod.splits)
  then obtain gone where ages: "watch_ages s' = map (stamp ?I now) (filter (\<lambda>(i, _). i \<notin> gone) (watch_ages s))"
    using check_each_ages[of W q c now "due_watches s" 0 ?s0] assms(3) by (fastforce simp: watch_ages_def mod_frame)
  have "map w_id (m_watches s') = map w_id (filter (\<lambda>w. w_id w \<notin> gone) (m_watches s))"
    using arg_cong[OF ages, of "map fst"] by (simp add: watch_ages_def stamp_def case_prod_unfold filter_map comp_def)
  then show "distinct (map w_id (m_watches s'))" using assms(1) by (simp add: distinct_map_filter)
  have "length (waiting t0 s') = length (filter (\<lambda>(_, t). t < Some t0) (map (stamp ?I now) (filter (\<lambda>(i, _). i \<notin> gone) (watch_ages s))))"
    by (simp only: length_waiting ages)
  also have "\<dots> \<le> length (filter (\<lambda>w. w_id w \<notin> ?I \<and> ?old w) (m_watches s))"
    using assms(4) unfolding watch_ages_def
    by (auto simp: filter_map comp_def stamp_def intro!: length_filter_mono split: if_splits)
  also have "\<dots> = length (filter (\<lambda>w. w_id w \<notin> ?I \<and> ?old w) ?sorted)" by (simp add: filter_sort)
  also have "\<dots> = length (filter ?old (drop MAX_WATCH_REQUESTS_PER_RUN ?sorted))"
    unfolding due_watches_def using assms(1) by (subst filter_outside_take) (simp_all add: distinct_map)
  finally show "length (waiting t0 s') \<le> length (waiting t0 s) - MAX_WATCH_REQUESTS_PER_RUN"
    by (simp add: take_sorted_filter filter_sort waiting_def)
qed

section \<open>The whole poll\<close>

text \<open>The only API error the loop passes on is a 429, which ends the run with a back-off.\<close>

lemma check_watched_error:
  "check_watched W q c now s = (Inl (Api_Error m st ra), s') \<Longrightarrow> st = Some 429"
proof -
  have "st = Some 429" if "check_each W q c now ws n t = (Inl (Api_Error m st ra), t')" for ws n t t'
    using that by (induction ws arbitrary: n t) (auto split: if_splits sum.splits mexn.splits prod.splits)
  moreover assume "check_watched W q c now s = (Inl (Api_Error m st ra), s')"
  ultimately show ?thesis by (auto simp: check_watched_def rbind_def split: sum.splits prod.splits)
qed

lemma aborted_backoff:
  assumes "rbind (poll_step W now a m True) (\<lambda>ab2. rbind (poll_step W now b m' ab2) (\<lambda>ab3.
      rbind (poll_step W now d m'' ab3) (\<lambda>_. finish_poll W c now))) s = (r, s')"
  shows "m_result s' = m_result s"
  using assms by (auto simp: rbind_def poll_step_def finish_poll_def Let_def mod_frame)

lemma poll_waiting:
  assumes "distinct (map w_id (m_watches s))" "run_watch_poll W q c bc now s = (Inr (), s')"
    and "\<not> pr_deferred (m_result s')" "pr_backoff_until (m_result s') = None"
    and "ws_auto_watch_days (get_watch_settings s) \<le> 0" "t0 \<le> now"
  shows "length (waiting t0 s') \<le> length (waiting t0 s) - MAX_WATCH_REQUESTS_PER_RUN" "distinct (map w_id (m_watches s'))"
proof -
  define settings where "settings = get_watch_settings s"
  define s0 where "s0 = prune now (maybe_refresh_status_limit W c now (s\<lparr>m_result := empty_result\<rparr>))"
  let ?rest = "\<lambda>ab1. rbind (poll_step W now ''discover_new_accounts'' (discover_new_accounts W q c now settings) ab1) (\<lambda>ab2.
         rbind (poll_step W now ''send_welcomes'' (welcome_step W q bc) ab2) (\<lambda>ab3.
         rbind (poll_step W now ''scan_silent_logins'' (scan_silent_logins W q c now settings) ab3) (\<lambda>_.
         finish_poll W c now)))"
  have run: "rbind (poll_step W now ''check_watched'' (check_watched W q c now) False) ?rest s0 = (Inr (), s')"
    using assms(2) by (simp add: run_watch_poll_def Let_def s0_def settings_def)
  have s0: "m_watches s0 = filter (\<lambda>w. \<not> expired now w) (m_watches s)"
    using quiet_watches.R_maybe_refresh[of W c now "s\<lparr>m_result := empty_result\<rparr>"] by (simp add: s0_def prune_def)
  obtain r1 s1 where c: "check_watched W q c now s0 = (r1, s1)" by fastforce
  have ok: "r1 = Inr () \<and> ?rest False s1 = (Inr (), s')"
    using run c assms(4) check_watched_error
    by (cases r1) (auto simp: rbind_def[of "poll_step _ _ ''check_watched'' _ _"] poll_step_def[of _ _ "''check_watched''"]
        note_error_def Let_def mod_frame add_error_def split: mexn.splits dest!: aborted_backoff)
  have off: "auto_watch now (ws_auto_watch_days settings) a t = t" for a t
    using assms(5) by (simp add: auto_watch_def settings_def Let_def)
  have "m_watches (snd (?rest False s1)) = m_watches s1"
    by (rule quiet_watches.R_after_check) (simp add: off)
  then have watches: "m_watches s' = m_watches s1" using ok by simp
  have "pr_deferred (m_result s1) \<longrightarrow> pr_deferred (m_result (snd (?rest False s1)))"
    by (rule deferral.R_after_check) (simp add: off)
  then have "\<not> pr_deferred (m_result s1)" using ok assms(3) by simp
  moreover have "distinct (map w_id (m_watches s0))" using assms(1) s0 by (simp add: distinct_map_filter)
  ultimately have "length (waiting t0 s1) \<le> length (waiting t0 s0) - MAX_WATCH_REQUESTS_PER_RUN" "distinct (map w_id (m_watches s1))"
    using check_watched_waiting[of s0 W q c now s1 t0] c ok assms(6) by simp_all
  moreover have "length (waiting t0 s0) \<le> length (waiting t0 s)"
    by (auto simp: waiting_def s0 intro: length_filter_mono)
  ultimately show "length (waiting t0 s') \<le> length (waiting t0 s) - MAX_WATCH_REQUESTS_PER_RUN"
    "distinct (map w_id (m_watches s'))"
    using watches by (simp_all add: waiting_def)
qed

section \<open>A sequence of polls\<close>

type_synonym poll_call = "web \<times> req_ctx \<times> client \<times> client option \<times> usec"

definition poll :: "poll_call \<Rightarrow> moderation \<Rightarrow> moderation" where
  "poll = (\<lambda>(W, q, c, bc, now) s. snd (run_watch_poll W q c bc now s))"

text \<open>
  Polls that run to their end, while accounts are not watched automatically: none fails, is stopped by
  a rate limit, or defers work for lack of rate-limit budget.
\<close>

fun complete_polls :: "poll_call list \<Rightarrow> moderation \<Rightarrow> bool" where
  "complete_polls [] s = True"
| "complete_polls ((W, q, c, bc, now) # ps) s =
     (let (r, s') = run_watch_poll W q c bc now s in
      ws_auto_watch_days (get_watch_settings s) \<le> 0 \<and> r = Inr () \<and> \<not> pr_deferred (m_result s') \<and>
      pr_backoff_until (m_result s') = None \<and> complete_polls ps s')"

definition poll_time :: "poll_call \<Rightarrow> usec" where
  "poll_time = (\<lambda>(W, q, c, bc, now). now)"

lemma polls_waiting:
  assumes "distinct (map w_id (m_watches s))" "complete_polls polls s" "\<And>p. p \<in> set polls \<Longrightarrow> t0 \<le> poll_time p"
  shows "length (waiting t0 (fold poll polls s)) \<le> length (waiting t0 s) - MAX_WATCH_REQUESTS_PER_RUN * length polls"
  using assms
proof (induction polls arbitrary: s)
  case (Cons p polls)
  obtain W q c bc now where p: "p = (W, q, c, bc, now)" by (cases p)
  obtain r s' where run: "run_watch_poll W q c bc now s = (r, s')" by fastforce
  have t0: "t0 \<le> now" using Cons.prems(3)[of p] p by (simp add: poll_time_def)
  have step: "length (waiting t0 s') \<le> length (waiting t0 s) - MAX_WATCH_REQUESTS_PER_RUN" "distinct (map w_id (m_watches s'))"
    using poll_waiting[of s W q c bc now s' t0] Cons.prems(1,2) p run t0 by simp_all
  have "length (waiting t0 (fold poll polls s')) \<le> length (waiting t0 s') - MAX_WATCH_REQUESTS_PER_RUN * length polls"
    using Cons.IH[of s'] step(2) Cons.prems p run by simp
  then show ?case using step(1) p run by (simp add: poll_def)
qed simp

text \<open>
  C16. No watched account is starved. With the automatic watching of new accounts off (so that no watch
  is added meanwhile), however many accounts are watched, and whichever of them fail or vanish, as many
  polls that run to their end as there are hundreds of watched accounts look at every one of them: each
  watch still in the table then was looked at by one of these polls.
\<close>

theorem watches_all_served:
  assumes "distinct (map w_id (m_watches s))" "complete_polls polls s"
    and "\<forall>p \<in> set polls. t0 \<le> poll_time p"
    and "length (m_watches s) \<le> MAX_WATCH_REQUESTS_PER_RUN * length polls"
  shows "\<forall>w \<in> set (m_watches (fold poll polls s)). \<exists>t. w_last_checked_at w = Some t \<and> t0 \<le> t"
proof
  fix w
  assume w: "w \<in> set (m_watches (fold poll polls s))"
  have "length (waiting t0 s) \<le> length (m_watches s)" by (simp add: waiting_def)
  then have "waiting t0 (fold poll polls s) = []"
    using polls_waiting[of s polls t0] assms by simp
  then have "\<not> w_last_checked_at w < Some t0" using w by (auto simp: waiting_def filter_empty_conv)
  then show "\<exists>t. w_last_checked_at w = Some t \<and> t0 \<le> t" by (cases "w_last_checked_at w") auto
qed

text \<open>An instance that fails on every request: the watch that fails rotates to the back.\<close>

definition failing_web :: web where
  "failing_web = (linking_web [])\<lparr>wb_http := \<lambda>_. Error_Answer 500 [] no_headers\<rparr>"

definition watching :: moderation where
  "watching = sample_moderation\<lparr>m_watches :=
     [\<lparr>w_id = 1, w_account_id = ''7'', w_acct = ''spam'', w_reason = None, w_added_by = None,
       w_expires_at = None, w_auto_added = False, w_last_status_id = None, w_last_checked_at = None\<rparr>]\<rparr>"

theorem watches_all_served_witness:
  "m_watches (poll (failing_web, sample_ctx, sample_client, None, 5) watching) \<noteq> [] \<and>
   list_all (\<lambda>w. Some 5 \<le> w_last_checked_at w)
     (m_watches (poll (failing_web, sample_ctx, sample_client, None, 5) watching))"
proof -
  let ?p = "(failing_web, sample_ctx, sample_client, None, 5)"
  have "complete_polls [?p] watching \<and> m_watches (poll ?p watching) \<noteq> []"
    unfolding complete_polls.simps poll_def prod.case Let_def by code_simp
  moreover have "distinct (map w_id (m_watches watching))" "length (m_watches watching) \<le> MAX_WATCH_REQUESTS_PER_RUN * 1"
    by (simp_all add: watching_def MAX_WATCH_REQUESTS_PER_RUN_def)
  ultimately show ?thesis
    using watches_all_served[of watching "[?p]" 5] by (fastforce simp: poll_time_def list_all_iff)
qed

end
