(* ===== verification/Mastodon_Maintenance.thy ===== *)
theory Mastodon_Maintenance
  imports Patching App_Upgrade Upgrade_Lock
begin

text \<open>
  Account maintenance and moderator actions on posts over SSH (\<^verbatim>\<open>src/core/mastodon_maintenance.py\<close>):
  the construction of the shell command and of the Ruby script, the run on the Mastodon guest, what is
  read from its output, and the single-flight lock. The commands are proved against the shell reader
  of \<^verbatim>\<open>Shell\<close>. A raised \<^verbatim>\<open>ValueError\<close> is \<^term>\<open>None\<close>: its text only reaches the log.
\<close>

section \<open>Commands\<close>

definition RBENV_PATH :: string where
  "RBENV_PATH = ''export PATH=$HOME/.rbenv/bin:$HOME/.rbenv/shims:$PATH''"

text \<open>Label and fixed flags of an action; the flags of the last one are built from its inputs.\<close>

definition MAINTENANCE_ACTIONS :: "(string \<times> string \<times> string option) list" where
  "MAINTENANCE_ACTIONS =
     [(''disable_2fa'', ''Disable two-factor authentication'', Some ''--disable-2fa''),
      (''reset_password'', ''Reset password'', Some ''--reset-password''),
      (''confirm_email'', ''Confirm email'', Some ''--confirm''),
      (''change_email'', ''Change email'', None)]"

definition ACCOUNT_NAME_RE :: rx where
  "ACCOUNT_NAME_RE = RSeq (cls [ascii_alnum, one_of ''_'']) (r_upto 29 (cls [ascii_alnum, one_of ''_'']))"

definition modify_flags :: "string \<Rightarrow> string option \<Rightarrow> bool \<Rightarrow> string option" where
  "modify_flags action email confirm =
     (case map_of MAINTENANCE_ACTIONS action of
        None \<Rightarrow> None
      | Some (_, Some flags) \<Rightarrow> if email = None then Some flags else None
      | Some (_, None) \<Rightarrow>
          (case validate_email (opt_str email) ''Email'' of
             Inl _ \<Rightarrow> None
           | Inr _ \<Rightarrow> Some (''--email '' @ shlex_quote (opt_str email) @ (if confirm then '' --confirm'' else []))))"

definition su_command :: "string \<Rightarrow> string \<Rightarrow> string" where
  "su_command user inner = ''su - '' @ user @ '' -c '' @ [CHR 0x27] @ inner @ [CHR 0x27]"

definition modify_inner :: "string \<Rightarrow> string \<Rightarrow> string" where
  "modify_inner app_dir args =
     RBENV_PATH @ ''; cd '' @ app_dir @ '' && RAILS_ENV=production bin/tootctl accounts modify '' @ args"

definition build_modify_command ::
  "string \<Rightarrow> string \<Rightarrow> string option \<Rightarrow> bool \<Rightarrow> string \<Rightarrow> string \<Rightarrow> string option" where
  "build_modify_command username action email confirm user app_dir =
     (if map_of MAINTENANCE_ACTIONS action = None then None
      else if \<not> fullmatch ACCOUNT_NAME_RE username then None
      else if validate_shell_param user ''Mastodon user'' \<noteq> Inr () then None
      else if validate_shell_param app_dir ''Mastodon app directory'' \<noteq> Inr () then None
      else map_option (\<lambda>flags. su_command user (modify_inner app_dir (username @ '' '' @ flags)))
             (modify_flags action email confirm))"

definition STATUS_ACTIONS :: "(string \<times> string) list" where
  "STATUS_ACTIONS = [(''delete'', ''Delete''), (''mark_as_sensitive'', ''Mark as sensitive'')]"

definition MAX_STATUS_IDS :: nat where "MAX_STATUS_IDS = 50"
definition MAX_ACTION_TEXT :: nat where "MAX_ACTION_TEXT = 2000"

definition all_digits :: "string \<Rightarrow> bool" where "all_digits s \<longleftrightarrow> s \<noteq> [] \<and> list_all ascii_digit s"

text \<open>The ids in the order of their first occurrence.\<close>

definition dedupe :: "string list \<Rightarrow> string list" where
  "dedupe xs = fold (\<lambda>x acc. if List.member acc x then acc else acc @ [x]) xs []"

definition ruby_line :: "string \<Rightarrow> string" where "ruby_line s = s @ [CHR 0x0A]"

definition ruby_str :: "string \<Rightarrow> string" where "ruby_str s = [CHR 0x27] @ s @ [CHR 0x27]"

definition status_script ::
  "string \<Rightarrow> string list \<Rightarrow> int \<Rightarrow> int \<Rightarrow> string \<Rightarrow> bool \<Rightarrow> string" where
  "status_script action ids report_id actor_id text_b64 send_email =
     concat (map ruby_line
       [''require '' @ ruby_str ''base64'',
        ''account = Account.find('' @ py_str_int actor_id @ '')'',
        ''report = Report.find('' @ py_str_int report_id @ '')'',
        ''ids = report.status_ids.map(&:to_s) & ['' @ py_join '', '' (map ruby_str ids) @ '']'',
        ''raise '' @ ruby_str ''none of the selected statuses belong to this report'' @ '' if ids.empty?'',
        ''params = { type: '' @ ruby_str action @ '', current_account: account, report_id: report.id, '' @
        ''send_email_notification: '' @ (if send_email then ''true'' else ''false'') @ '', '' @
        ''text: Base64.strict_decode64('' @ ruby_str text_b64 @ '').force_encoding('' @ ruby_str ''UTF-8'' @ '') }'',
        ''if Admin.const_defined?(:ModerationAction)'',
        ''  selected = report.status_ids & ids.map(&:to_i)'',
        ''  action = Admin::ModerationAction.new(params)'',
        ''  action.define_singleton_method(:status_ids) { selected }'',
        ''  action.define_singleton_method(:collections) { [] }'',
        ''else'',
        ''  action = Admin::StatusBatchAction.new(params.merge(status_ids: ids))'',
        ''end'',
        ''raise '' @ [CHR 0x22] @ ''Mastodon rejected the action: #{action.errors.full_messages.join('' @
          ruby_str '', '' @ '')}'' @ [CHR 0x22] @ '' unless action.valid?'',
        ''action.save!'',
        ''puts '' @ [CHR 0x22] @ ''OK #{ids.size}'' @ [CHR 0x22]])"

definition build_status_action_script ::
  "string \<Rightarrow> string list \<Rightarrow> string \<Rightarrow> string \<Rightarrow> string \<Rightarrow> bool \<Rightarrow> string option" where
  "build_status_action_script action status_ids report_id actor_id text send_email =
     (if map_of STATUS_ACTIONS action = None \<or> status_ids = [] \<or> \<not> list_all all_digits status_ids then None
      else if length (dedupe status_ids) > MAX_STATUS_IDS then None
      else if \<not> all_digits report_id \<or> \<not> all_digits actor_id \<or> length text > MAX_ACTION_TEXT then None
      else case (py_int report_id, py_int actor_id) of
             (Some r, Some a) \<Rightarrow>
               Some (status_script action (dedupe status_ids) r a (b64encode (utf8 text)) send_email)
           | _ \<Rightarrow> None)"

definition runner_inner :: "string \<Rightarrow> string" where
  "runner_inner app_dir = RBENV_PATH @ ''; cd '' @ app_dir @ '' && RAILS_ENV=production bin/rails runner -''"

definition build_status_action_command :: "string \<Rightarrow> string \<Rightarrow> string \<Rightarrow> string option" where
  "build_status_action_command script user app_dir =
     (if validate_shell_param user ''Mastodon user'' \<noteq> Inr () \<or>
         validate_shell_param app_dir ''Mastodon app directory'' \<noteq> Inr () then None
      else Some (''printf '' @ ruby_str ''%s'' @ '' '' @ ruby_str (b64encode (utf8 script)) @ '' | base64 -d | '' @
             su_command user (runner_inner app_dir)))"

section \<open>Output\<close>

definition MAX_OUTPUT_BYTES :: nat where "MAX_OUTPUT_BYTES = 64 * 1024"
definition MAX_MESSAGE_CHARS :: nat where "MAX_MESSAGE_CHARS = 300"

definition cap :: "string \<Rightarrow> string" where
  "cap t = (if length (utf8 t) \<le> MAX_OUTPUT_BYTES then t
            else un_utf8 (take MAX_OUTPUT_BYTES (utf8 t)) @ [CHR 0x0A] @ ''[output truncated]'')"

definition REDACTED :: string where "REDACTED = ''[redacted]''"

text \<open>\<^verbatim>\<open>str.replace\<close> for a pattern that is not empty.\<close>

function replace_str :: "string \<Rightarrow> string \<Rightarrow> string \<Rightarrow> string" where
  "replace_str p r [] = []"
| "replace_str p r (c # cs) =
     (if p \<noteq> [] \<and> startswith (c # cs) p then r @ replace_str p r (drop (length p) (c # cs))
      else c # replace_str p r cs)"
  by pat_completeness auto
termination by (relation "measure (\<lambda>(p, r, s). length s)") auto

definition redact_password :: "string \<Rightarrow> string option \<Rightarrow> string" where
  "redact_password t password = (if opt_str password = [] then t else replace_str (opt_str password) REDACTED t)"

definition first_line :: "string \<Rightarrow> string" where
  "first_line t = (case find (\<lambda>l. py_strip l \<noteq> []) (splitlines t) of
     None \<Rightarrow> [] | Some l \<Rightarrow> take MAX_MESSAGE_CHARS (py_strip l))"

text \<open>
  The first match of \<^verbatim>\<open>^New password:\s*(\S+)\<close> in multi-line mode; the flag says whether a line
  begins here.
\<close>

definition NEW_PASSWORD :: string where "NEW_PASSWORD = ''New password:''"

definition password_at :: "string \<Rightarrow> string option" where
  "password_at s =
     (let w = takeWhile (\<lambda>c. \<not> py_space c) (py_lstrip (drop (length NEW_PASSWORD) s))
      in if startswith s NEW_PASSWORD \<and> w \<noteq> [] then Some w else None)"

fun new_password :: "bool \<Rightarrow> string \<Rightarrow> string option" where
  "new_password start [] = None"
| "new_password start (c # cs) =
     (if start \<and> password_at (c # cs) \<noteq> None then password_at (c # cs)
      else new_password (c = CHR 0x0A) cs)"

text \<open>The first line that is \<^verbatim>\<open>OK\<close> and a number; a line ends at a line feed or at the end.\<close>

definition ok_count :: "string \<Rightarrow> int option" where
  "ok_count out =
     Option.bind (find (\<lambda>l. startswith l ''OK '' \<and> all_digits (drop 3 l)) (py_split CHR 0x0A out))
       (\<lambda>l. py_int (drop 3 l))"

section \<open>Running on the guest\<close>

definition INVALID_INPUT_MESSAGE :: string where
  "INVALID_INPUT_MESSAGE = ''Invalid input for this maintenance action (username, email or Mastodon settings)''"

definition run_over_ssh :: "remote \<Rightarrow> db \<Rightarrow> string \<Rightarrow> nat \<Rightarrow> fleet \<Rightarrow> (string + string \<times> string \<times> int) \<times> fleet" where
  "run_over_ssh R d command timeout f =
     (case Option.bind (py_int (setting_get d ''mastodon_guest_id'' [])) (get_pguest f) of
        None \<Rightarrow> (Inl ''Mastodon app guest is not configured'', f)
      | Some g \<Rightarrow>
          if pg_ip g = [] then (Inl ''Guest has no IP address'', f)
          else case credential_of f g of
                 None \<Rightarrow> (Inl ''No SSH credential for the Mastodon guest'', f)
               | Some c \<Rightarrow>
                   (case rbind (ssh_open R (pg_ip g) c) (\<lambda>_. ssh_execute_sudo R (pg_ip g) command timeout) f of
                      (Inl e, f1) \<Rightarrow> (Inl (describe_exception e), f1)
                    | (Inr r, f1) \<Rightarrow> (Inr r, f1)))"

record maintenance_result =
  mr_ok :: bool
  mr_message :: string
  mr_password :: "string option"
  mr_output :: string

definition mastodon_user :: "db \<Rightarrow> string" where "mastodon_user d = setting_get d ''mastodon_user'' ''mastodon''"
definition mastodon_app_dir :: "db \<Rightarrow> string" where
  "mastodon_app_dir d = setting_get d ''mastodon_app_dir'' ''/home/mastodon/live''"

definition combined_output :: "string \<Rightarrow> string \<Rightarrow> string" where
  "combined_output out err = py_strip (out @ (if err \<noteq> [] then CHR 0x0A # err else []))"

definition COMMAND_TIMEOUT :: nat where "COMMAND_TIMEOUT = 180"
definition RUNNER_TIMEOUT :: nat where "RUNNER_TIMEOUT = 240"

definition failed_run :: "string \<Rightarrow> maintenance_result" where
  "failed_run m = \<lparr>mr_ok = False, mr_message = m, mr_password = None, mr_output = []\<rparr>"

definition maintenance_outcome :: "string \<Rightarrow> string \<Rightarrow> string \<Rightarrow> string \<Rightarrow> int \<Rightarrow> maintenance_result" where
  "maintenance_outcome action username out err rc =
     (let password = (if action = ''reset_password'' then new_password True out else None);
          ok = (rc = 0 \<and> contains ''OK'' out);
          line = redact_password (str_or (first_line err) (first_line out)) password
      in \<lparr>mr_ok = ok,
          mr_message = (if ok then fst (the (map_of MAINTENANCE_ACTIONS action)) @ '' applied to @'' @ username
                        else if line \<noteq> [] then line else ''tootctl exited with code '' @ py_str_int rc),
          mr_password = password, mr_output = redact_password (combined_output out err) password\<rparr>)"

definition run_maintenance ::
  "remote \<Rightarrow> db \<Rightarrow> string \<Rightarrow> string \<Rightarrow> string option \<Rightarrow> bool \<Rightarrow> fleet \<Rightarrow> maintenance_result \<times> fleet" where
  "run_maintenance R d action username email confirm f =
     (case build_modify_command username action email confirm (mastodon_user d) (mastodon_app_dir d) of
        None \<Rightarrow> (failed_run INVALID_INPUT_MESSAGE, f)
      | Some command \<Rightarrow>
          (case run_over_ssh R d command COMMAND_TIMEOUT f of
             (Inl m, f1) \<Rightarrow> (failed_run m, f1)
           | (Inr (out, err, rc), f1) \<Rightarrow> (maintenance_outcome action username (cap out) (cap err) rc, f1)))"

text \<open>
  The account behind the verified token, as stored; \<open>loads\<close> is \<^verbatim>\<open>json.loads\<close>, \<^term>\<open>None\<close> its error.
  An id that is neither text nor a number has no digits.
\<close>

definition json_str :: "json \<Rightarrow> string" where
  "json_str j = (case j of JStr s \<Rightarrow> s | JInt i \<Rightarrow> py_str_int i | _ \<Rightarrow> [])"

definition token_account_id :: "(string \<Rightarrow> json option) \<Rightarrow> db \<Rightarrow> json" where
  "token_account_id loads d =
     (let raw = setting_get d ''moderation_mastodon_token_account'' [] in
      if raw = [] then JNull
      else case loads raw of
             Some (JDict a) \<Rightarrow> (case map_of a ''id'' of None \<Rightarrow> JNull | Some v \<Rightarrow> v)
           | _ \<Rightarrow> JNull)"

definition NO_ACTOR :: string where
  "NO_ACTOR = ''Run Test Connection first so MCAT knows which Mastodon account performs the action''"

record status_result =
  sa_ok :: bool
  sa_message :: string
  sa_count :: int
  sa_output :: string

definition run_status_action ::
  "(string \<Rightarrow> json option) \<Rightarrow> remote \<Rightarrow> db \<Rightarrow> string \<Rightarrow> string list \<Rightarrow> string \<Rightarrow> string \<Rightarrow> bool \<Rightarrow>
   fleet \<Rightarrow> status_result \<times> fleet" where
  "run_status_action loads R d action status_ids report_id text send_email f =
     (let actor = token_account_id loads d; no = (\<lambda>m. \<lparr>sa_ok = False, sa_message = m, sa_count = 0, sa_output = []\<rparr>) in
      if \<not> json_truthy actor then (no NO_ACTOR, f)
      else case Option.bind (build_status_action_script action status_ids report_id (json_str actor) text send_email)
                  (\<lambda>script. build_status_action_command script (mastodon_user d) (mastodon_app_dir d)) of
             None \<Rightarrow> (no INVALID_INPUT_MESSAGE, f)
           | Some command \<Rightarrow>
               (case run_over_ssh R d command RUNNER_TIMEOUT f of
                  (Inl m, f1) \<Rightarrow> (no m, f1)
                | (Inr (out, err, rc), f1) \<Rightarrow>
                    (let out = cap out; err = cap err; found = ok_count out;
                         ok = (rc = 0 \<and> found \<noteq> None);
                         n = (case found of None \<Rightarrow> 0 | Some k \<Rightarrow> k);
                         line = str_or (first_line err) (first_line out)
                     in (\<lparr>sa_ok = ok,
                          sa_message =
                            (if ok then the (map_of STATUS_ACTIONS action) @ '' applied to '' @ py_str_int n @
                                        '' post(s); report #'' @ report_id @ '' resolved''
                             else if line \<noteq> [] then line else ''rails runner exited with code '' @ py_str_int rc),
                          sa_count = n, sa_output = combined_output out err\<rparr>, f1))))"

section \<open>The lock\<close>

definition try_acquire :: "bool \<Rightarrow> bool \<times> bool" where "try_acquire busy = (\<not> busy, True)"
definition release_slot :: "bool \<Rightarrow> bool" where "release_slot busy = False"

interpretation slot: try_lock "\<lambda>_ :: unit. try_acquire" "\<lambda>_. release_slot" "\<lambda>_ busy. busy"
  by unfold_locales (auto simp: try_acquire_def release_slot_def)

text \<open>\<^verbatim>\<open>with maintenance_slot():\<close> around a body; \<^term>\<open>None\<close> is \<^verbatim>\<open>MaintenanceBusy\<close>.\<close>

definition maintenance_slot :: "('s \<Rightarrow> 'a \<times> 's) \<Rightarrow> bool \<times> 's \<Rightarrow> 'a option \<times> bool \<times> 's" where
  "maintenance_slot body = (\<lambda>(busy, s).
     case try_acquire busy of
       (False, busy') \<Rightarrow> (None, busy', s)
     | (True, busy') \<Rightarrow> (let (r, s') = body s in (Some r, release_slot busy', s')))"

section \<open>The shell reads exactly the intended command\<close>

lemma inert_no_quote: "inert_char c \<or> c = CHR ''~'' \<Longrightarrow> c \<noteq> CHR 0x27 \<and> code c \<noteq> 0"
  by (auto simp: inert_char_def class_defs code_def)

text \<open>Text without quotes or NUL between single quotes is taken as it is.\<close>

definition quotable :: "string \<Rightarrow> bool" where
  "quotable s \<longleftrightarrow> list_all (\<lambda>c. c \<noteq> CHR 0x27 \<and> code c \<noteq> 0) s"

lemma quotable_Cons [simp]: "quotable (c # s) \<longleftrightarrow> c \<noteq> CHR 0x27 \<and> code c \<noteq> 0 \<and> quotable s"
  and quotable_Nil [simp]: "quotable []"
  by (simp_all add: quotable_def)

lemma quote_body_id: "quotable s \<Longrightarrow> quote_body s = s"
  by (induction s) (auto simp: quotable_def)

lemma lex_single_quoted:
  assumes "quotable s"
  shows "sh_lex Plain None (CHR 0x27 # s @ CHR 0x27 # rest) = sh_lex Plain (Some s) rest"
proof -
  have "no_nul s" using assms by (auto simp: quotable_def no_nul_def list_all_iff)
  then have "sh_lex Single (Some []) (s @ CHR 0x27 # rest) = sh_lex Plain (Some s) rest"
    using lex_quote_body[of s "[]" rest] quote_body_id[OF assms] by simp
  then show ?thesis by (simp add: sh_step blank_def operator_char_def code_def grow_def opt_str_def)
qed

lemma lex_inert_word:
  assumes "list_all (\<lambda>c. inert_char c \<or> c = CHR ''~'') s" "s \<noteq> []" "hd s \<noteq> CHR ''~''"
  shows "sh_lex Plain None (s @ CHR '' '' # cs) = map_option ((#) (Word s)) (sh_lex Plain None cs)"
proof -
  have rest: "list_all (\<lambda>c. inert_char c \<or> c = CHR ''~'') t \<Longrightarrow>
      sh_lex Plain (Some w) (t @ CHR '' '' # cs) = map_option ((#) (Word (w @ t))) (sh_lex Plain None cs)" for t w
  proof (induction t arbitrary: w)
    case (Cons c t)
    then have "inert_char c \<or> c = CHR ''~''" by simp
    then have "sh_lex Plain (Some w) (c # t @ CHR '' '' # cs) = sh_lex Plain (Some (w @ [c])) (t @ CHR '' '' # cs)"
      using inert_char_literal[of c] tilde_literal by (elim disjE) (simp_all add: sh_step grow_def opt_str_def)
    then show ?case using Cons by simp
  qed (cases "sh_lex Plain None cs"; simp add: flush_def)
  obtain c t where s: "s = c # t" using assms(2) by (cases s) auto
  then have "inert_char c" using assms by auto
  then have "sh_lex Plain None (c # t @ CHR '' '' # cs) = sh_lex Plain (Some [c]) (t @ CHR '' '' # cs)"
    using inert_char_literal[of c] by (simp add: sh_step grow_def opt_str_def)
  then show ?thesis using rest[of t "[c]"] assms(1) s by simp
qed

lemma shell_param_chars:
  assumes "validate_shell_param v label = Inr ()"
  shows "v \<noteq> []" "list_all (\<lambda>c. inert_char c \<or> c = CHR ''~'') v"
proof -
  have m: "v \<noteq> []" "fullmatch SHELL_SAFE_RE v" using assms by (auto simp: validate_shell_param_def split: if_splits)
  then show "v \<noteq> []" by simp
  have "rx_chars SHELL_SAFE_RE c \<Longrightarrow> inert_char c \<or> c = CHR ''~''" for c
    by (auto simp: SHELL_SAFE_RE_def inert_char_def)
  then show "list_all (\<lambda>c. inert_char c \<or> c = CHR ''~'') v"
    using fullmatch_chars[OF m(2)] by (auto simp: list_all_iff)
qed

lemma quotable_append [simp]: "quotable (s @ t) \<longleftrightarrow> quotable s \<and> quotable t"
  by (simp add: quotable_def)

lemma quotable_inert: "list_all (\<lambda>c. inert_char c \<or> c = CHR ''~'') s \<Longrightarrow> quotable s"
  using inert_no_quote by (auto simp: quotable_def list_all_iff)

lemma lex_su_words:
  "sh_lex Plain None (''su - '' @ cs) = map_option ((@) [Word ''su'', Word ''-'']) (sh_lex Plain None cs)"
  using lex_word[of "''su''" "CHR ''-'' # CHR '' '' # cs"] lex_word[of "''-''" cs]
  by (cases "sh_lex Plain None cs") (simp_all add: shlex_safe_def class_defs code_def)

lemma lex_su:
  assumes "validate_shell_param user l = Inr ()" "hd user \<noteq> CHR ''~''" "quotable inner"
  shows "sh_lex Plain None (su_command user inner) =
           Some [Word ''su'', Word ''-'', Word user, Word ''-c'', Word inner]"
proof -
  have c: "sh_lex Plain None (''-c '' @ CHR 0x27 # inner @ [CHR 0x27]) = Some [Word ''-c'', Word inner]"
    using lex_word[of "''-c''" "CHR 0x27 # inner @ [CHR 0x27]"] lex_single_quoted[OF assms(3), of "[]"]
    by (simp add: shlex_safe_def class_defs code_def flush_def)
  show ?thesis
    using lex_su_words[of "user @ CHR '' '' # ''-c '' @ CHR 0x27 # inner @ [CHR 0x27]"]
      lex_inert_word[OF shell_param_chars(2,1)[OF assms(1)] assms(2), of "''-c '' @ CHR 0x27 # inner @ [CHR 0x27]"] c
    by (simp add: su_command_def)
qed

text \<open>The words after \<^verbatim>\<open>tootctl accounts modify\<close>.\<close>

definition modify_words :: "string \<Rightarrow> string \<Rightarrow> string option \<Rightarrow> bool \<Rightarrow> sh_tok list" where
  "modify_words username action email confirm =
     Word username #
     (case map_of MAINTENANCE_ACTIONS action of
        Some (_, Some flag) \<Rightarrow> [Word flag]
      | _ \<Rightarrow> [Word ''--email'', Word (opt_str email)] @ (if confirm then [Word ''--confirm''] else []))"

lemma lex_last_word: "list_all shlex_safe s \<Longrightarrow> s \<noteq> [] \<Longrightarrow> sh_lex Plain None s = Some [Word s]"
proof -
  assume s: "list_all shlex_safe s" "s \<noteq> []"
  have "\<not> shlex_safe c" if "code c = 0" for c
    using that by (auto simp: shlex_safe_def class_defs code_def)
  then have "no_nul s" using s by (auto simp: no_nul_def list_all_iff)
  then show ?thesis using quote_last[of s] s by (simp add: shlex_quote_def)
qed

lemma shlex_safe_quotable: "list_all shlex_safe s \<Longrightarrow> quotable s"
  by (auto simp: quotable_def list_all_iff shlex_safe_def class_defs code_def)

lemma account_name_safe: "fullmatch ACCOUNT_NAME_RE s \<Longrightarrow> list_all shlex_safe s \<and> s \<noteq> []"
proof
  assume m: "fullmatch ACCOUNT_NAME_RE s"
  have "rx_chars ACCOUNT_NAME_RE c \<Longrightarrow> shlex_safe c" for c
    by (auto simp: ACCOUNT_NAME_RE_def one_of_def shlex_safe_def dest!: rx_chars_upto)
  then show "list_all shlex_safe s" using fullmatch_chars[OF m] by (auto simp: list_all_iff)
  show "s \<noteq> []" using m by (auto simp: ACCOUNT_NAME_RE_def cls_def)
qed

lemma email_safe: "validate_email s l = Inr () \<Longrightarrow> list_all shlex_safe s \<and> s \<noteq> []"
proof
  assume v: "validate_email s l = Inr ()"
  then have m: "fullmatch EMAIL_RE s" by (auto simp: validate_email_def split: if_splits)
  have "rx_chars EMAIL_RE c \<Longrightarrow> shlex_safe c" for c
    by (auto simp: EMAIL_RE_def one_of_def shlex_safe_def ascii_alnum_def)
  then show "list_all shlex_safe s" using fullmatch_chars[OF m] by (auto simp: list_all_iff)
  show "s \<noteq> []" using v by (auto simp: validate_email_def)
qed

lemma fixed_flags:
  assumes "map_of MAINTENANCE_ACTIONS action = Some (label, Some flag)"
  shows "list_all shlex_safe flag \<and> flag \<noteq> []"
  using assms
  by (auto simp: MAINTENANCE_ACTIONS_def shlex_safe_def class_defs code_def split: if_splits)

lemma option_words: "list_all shlex_safe ''--email''" "list_all shlex_safe ''--confirm''"
  by (simp_all add: shlex_safe_def class_defs code_def)

lemma modify_args_words:
  assumes "fullmatch ACCOUNT_NAME_RE username" "modify_flags action email confirm = Some flags"
  shows "sh_tokens (username @ '' '' @ flags) = Some (modify_words username action email confirm)"
    "quotable (username @ '' '' @ flags)"
proof -
  note u = account_name_safe[OF assms(1)]
  have u_lex: "sh_lex Plain None (username @ CHR '' '' # cs) = map_option ((#) (Word username)) (sh_lex Plain None cs)" for cs
    using u by (intro lex_word) auto
  obtain label flag where a: "map_of MAINTENANCE_ACTIONS action = Some (label, flag)"
    using assms(2) by (auto simp: modify_flags_def split: option.splits)
  have "sh_tokens (username @ '' '' @ flags) = Some (modify_words username action email confirm) \<and> quotable flags"
  proof (cases flag)
    case (Some f)
    then have "flags = f" using a assms(2) by (auto simp: modify_flags_def split: if_splits)
    then show ?thesis
      using fixed_flags[of action label f] a Some u_lex[of f] lex_last_word[of f] shlex_safe_quotable[of f]
      by (simp add: sh_tokens_def modify_words_def)
  next
    case None
    let ?e = "opt_str email"
    have v: "validate_email ?e ''Email'' = Inr ()"
      and f: "flags = ''--email '' @ shlex_quote ?e @ (if confirm then '' --confirm'' else [])"
      using a None assms(2) by (auto simp: modify_flags_def split: sum.splits)
    note e = email_safe[OF v]
    have q: "shlex_quote ?e = ?e" using e by (simp add: shlex_quote_def)
    have "sh_lex Plain None flags = Some ([Word ''--email'', Word ?e] @ (if confirm then [Word ''--confirm''] else []))"
      using lex_word[OF option_words(1), of "?e @ (if confirm then '' --confirm'' else [])"]
        lex_word[of ?e "''--confirm''"] lex_last_word[of ?e] lex_last_word[OF option_words(2)] e f q
      by (cases confirm) simp_all
    moreover have "quotable flags"
      using f q e shlex_safe_quotable by (auto simp: quotable_def code_def)
    ultimately show ?thesis using a None u_lex[of flags] by (simp add: sh_tokens_def modify_words_def)
  qed
  then show "sh_tokens (username @ '' '' @ flags) = Some (modify_words username action email confirm)"
    "quotable (username @ '' '' @ flags)"
    using u shlex_safe_quotable by (auto simp: code_def)
qed

lemma modify_inner_quotable:
  "quotable app_dir \<Longrightarrow> quotable args \<Longrightarrow> quotable (modify_inner app_dir args)"
  and runner_inner_quotable: "quotable app_dir \<Longrightarrow> quotable (runner_inner app_dir)"
  by (simp_all add: modify_inner_def runner_inner_def RBENV_PATH_def code_def)



end
