(* ===== verification/Moderation_Routes.thy ===== *)
theory Moderation_Routes
  imports Moderation_Safety Mastodon_Maintenance Ip_Address
begin

text \<open>
  The requests of the moderation tab (\<^verbatim>\<open>src/routes/moderation.py\<close>): who may make them, what they send
  to the Mastodon instance and to the Mastodon guest, and what they write. One operation per route
  that changes something or asks the instance; \<open>moderation_request\<close> is the check before every request
  followed by the route.

  The state is that of the moderation watch together with the machines, the lock of the server-side
  actions, the flag of a manual poll and the interval of the scheduled one. Every request builds a
  client of its own, so the rate limits kept in the state are not read here. Flash messages are left
  out, and of an error that \<^verbatim>\<open>int()\<close> raises the value it refused stands for its text.
\<close>

section \<open>State, environment and replies\<close>

record mod_site =
  ms_mod :: moderation
  ms_fleet :: fleet
  ms_busy :: bool
  ms_polling :: bool
  ms_minutes :: int

text \<open>The instance, the machines, the credential store and \<^verbatim>\<open>json.loads\<close>.\<close>

record mod_env =
  me_web :: web
  me_remote :: remote
  me_decrypt :: "string \<Rightarrow> string option"
  me_encrypt :: "string \<Rightarrow> string"
  me_loads :: "string \<Rightarrow> json option"

text \<open>The form of a request; \<open>rf_status_ids\<close> is the one field that is read as a list.\<close>

record mod_form =
  rf_fields :: "(string \<times> string) list"
  rf_status_ids :: "string list"

datatype mod_body =
    B_None
  | B_Id string
  | B_Account adm_summary
  | B_Accounts "adm_summary list"
  | B_Found "(adm_summary \<times> bool) list"
  | B_Reports "(report_summary \<times> usec option) list"
  | B_Block domain_block
  | B_Blocks "domain_block list"
  | B_Watch watch
  | B_Count nat
  | B_Message string "string option"
  | B_Acted string int
  | B_Token pub_account string int
  | B_Bot "string option"

datatype mod_reply =
    Json_Ok mod_body
  | Json_Error nat string
  | Server_Error
  | Redirect string

definition put_mod :: "mod_site \<Rightarrow> moderation \<Rightarrow> mod_site" where
  "put_mod st s = st\<lparr>ms_mod := s\<rparr>"

definition form_get :: "mod_form \<Rightarrow> string \<Rightarrow> string \<Rightarrow> string" where
  "form_get fm k dflt = (case map_of (rf_fields fm) k of None \<Rightarrow> dflt | Some v \<Rightarrow> v)"

definition MAX_TEXT_LEN :: nat where "MAX_TEXT_LEN = 2000"

definition form_text :: "mod_form \<Rightarrow> string \<Rightarrow> string" where
  "form_text fm k = take MAX_TEXT_LEN (py_strip (form_get fm k []))"

definition form_flag :: "mod_form \<Rightarrow> string \<Rightarrow> bool" where
  "form_flag fm k = List.member [''1'', ''true'', ''on'', ''yes''] (py_lower (form_get fm k []))"

text \<open>\<^verbatim>\<open>request.form.get(k, type=int)\<close>; absent, malformed and zero are the same to its users.\<close>

definition form_int :: "mod_form \<Rightarrow> string \<Rightarrow> int" where
  "form_int fm k = (case py_int (form_get fm k []) of None \<Rightarrow> 0 | Some i \<Rightarrow> i)"

definition STAFF_TARGET_ERROR :: string where
  "STAFF_TARGET_ERROR = ''This account holds a Mastodon staff role; your MCAT role may not act on it''"

definition audit :: "mod_env \<Rightarrow> req_ctx \<Rightarrow> string \<Rightarrow> string \<Rightarrow> string option \<Rightarrow> json \<Rightarrow> moderation \<Rightarrow> moderation" where
  "audit E q action rtype rname details = mlog (me_web E) q None action rtype rname details"

section \<open>Clients and wrappers\<close>

text \<open>A token that cannot be decrypted raises; nothing on this path catches it.\<close>

definition get_mastodon_client :: "mod_env \<Rightarrow> moderation \<Rightarrow> mod_reply + client" where
  "get_mastodon_client E s =
     (let api_url = mget s ''moderation_mastodon_api_url'' [];
          secret = mget s ''moderation_mastodon_api_token'' [] in
      if api_url = [] \<or> secret = [] then Inl (Json_Error 400 ''Mastodon API URL or token not configured'')
      else case me_decrypt E secret of
             None \<Rightarrow> Inl Server_Error
           | Some plain \<Rightarrow>
               if plain = [] then Inl (Json_Error 400 ''Failed to decrypt the Mastodon API token'')
               else Inr (new_client Admin_Client api_url plain))"

type_synonym audit_args = "string \<times> string \<times> string option \<times> json"

definition write_audit :: "mod_env \<Rightarrow> req_ctx \<Rightarrow> audit_args option \<Rightarrow> moderation \<Rightarrow> moderation" where
  "write_audit E q a s = (case a of None \<Rightarrow> s | Some (action, rtype, rname, details) \<Rightarrow> audit E q action rtype rname details s)"

definition wrap_json ::
  "mod_env \<Rightarrow> req_ctx \<Rightarrow> mod_body pio \<Rightarrow> audit_args option \<Rightarrow> mod_site \<Rightarrow> mod_reply \<times> mod_site" where
  "wrap_json E q call a st =
     (case call (ms_mod st) of
        (Inl (Api_Error m _ _), s1) \<Rightarrow> (Json_Error 502 m, put_mod st s1)
      | (Inl (Value_Error m), s1) \<Rightarrow> (Json_Error 400 m, put_mod st s1)
      | (Inr b, s1) \<Rightarrow> (Json_Ok b, put_mod st (write_audit E q a s1)))"

definition mastodon_json ::
  "mod_env \<Rightarrow> req_ctx \<Rightarrow> (client \<Rightarrow> mod_body pio) \<Rightarrow> audit_args option \<Rightarrow> mod_site \<Rightarrow> mod_reply \<times> mod_site" where
  "mastodon_json E q fn a st =
     (case get_mastodon_client E (ms_mod st) of
        Inl r \<Rightarrow> (r, st)
      | Inr c \<Rightarrow> wrap_json E q (fn c) a st)"

definition bot_json ::
  "mod_env \<Rightarrow> req_ctx \<Rightarrow> (client \<Rightarrow> mod_body pio) \<Rightarrow> audit_args option \<Rightarrow> mod_site \<Rightarrow> mod_reply \<times> mod_site" where
  "bot_json E q fn a st =
     (case build_bot_client (me_decrypt E) (ms_mod st) of
        Inl m \<Rightarrow> (Json_Error 400 m, st)
      | Inr c \<Rightarrow> wrap_json E q (fn c) a st)"

definition account_details :: "int \<Rightarrow> (string \<times> json) list" where
  "account_details i = [(''account_id'', JStr (py_str_int i))]"

section \<open>Configuration\<close>

text \<open>The URL a stored token is sent to: https, or empty to clear it.\<close>

definition clean_api_url :: "string \<Rightarrow> string \<Rightarrow> string option" where
  "clean_api_url raw label =
     (let value = rstrip_char CHR ''/'' (py_strip raw) in
      if value = [] then Some []
      else if validate_http_url value label \<noteq> Inr () then None
      else if \<not> startswith value ''https://'' then None
      else Some value)"

definition TOKEN_ACCOUNT :: string where "TOKEN_ACCOUNT = ''moderation_mastodon_token_account''"

definition token_account_json :: "pub_account \<Rightarrow> string \<Rightarrow> json" where
  "token_account_json me checked_at =
     JDict [(''id'', json_opt (pa_id me)), (''acct'', JStr (pa_acct me)),
       (''display_name'', JStr (pa_display_name me)),
       (''role'', JStr (case pa_role me of Role_Obj _ name \<Rightarrow> name | _ \<Rightarrow> [])),
       (''url'', JStr (pa_url me)), (''checked_at'', JStr checked_at)]"

definition store_token_account :: "web \<Rightarrow> pub_account \<Rightarrow> string pio" where
  "store_token_account W me s =
     (let checked_at = wb_isoformat W (clock W s)
      in (Inr checked_at, mset TOKEN_ACCOUNT (wb_dumps W (token_account_json me checked_at)) s))"

definition verify_and_store :: "web \<Rightarrow> client \<Rightarrow> mod_body pio" where
  "verify_and_store W c =
     rbind (admin_verify W c) (\<lambda>me.
       rbind (store_token_account W me) (\<lambda>checked_at.
         rbind (refresh_status_limit W c) (\<lambda>n. rreturn (B_Token me checked_at n))))"

definition mastodon_save :: "mod_env \<Rightarrow> req_ctx \<Rightarrow> mod_form \<Rightarrow> mod_site \<Rightarrow> mod_reply \<times> mod_site" where
  "mastodon_save E q fm st =
     (case clean_api_url (form_get fm ''mastodon_api_url'' []) ''Mastodon API URL'' of
        None \<Rightarrow> (Redirect ''moderation.index'', st)
      | Some api_url \<Rightarrow>
          (let s = ms_mod st; previous = mget s ''moderation_mastodon_api_url'' [];
               s1 = mset ''moderation_mastodon_api_url'' api_url s;
               new_token = py_strip (form_get fm ''mastodon_api_token'' []);
               s2 = (if new_token \<noteq> [] then
                       let s2 = mset ''moderation_mastodon_api_token'' (me_encrypt E new_token) s1
                       in (case verify_and_store (me_web E) (new_client Admin_Client api_url new_token) s2 of
                             (Inr _, s3) \<Rightarrow> s3
                           | (Inl _, s3) \<Rightarrow> mset TOKEN_ACCOUNT [] s3)
                     else if api_url \<noteq> previous then mset TOKEN_ACCOUNT [] s1 else s1)
           in (Redirect ''moderation.index'',
               put_mod st (audit E q ''moderation_mastodon_config_save'' ''moderation'' None JNull s2))))"

definition mastodon_test :: "mod_env \<Rightarrow> req_ctx \<Rightarrow> mod_site \<Rightarrow> mod_reply \<times> mod_site" where
  "mastodon_test E q = mastodon_json E q (verify_and_store (me_web E)) None"

definition bool_str :: "bool \<Rightarrow> string" where "bool_str b = (if b then ''true'' else ''false'')"

definition welcome_save :: "mod_env \<Rightarrow> req_ctx \<Rightarrow> mod_form \<Rightarrow> mod_site \<Rightarrow> mod_reply \<times> mod_site" where
  "welcome_save E q fm st =
     (let s = ms_mod st; template = form_get fm ''welcome_template'' [] in
      if \<not> validate_welcome_template (me_web E) template (get_status_limit s) then (Redirect ''moderation.index'', st)
      else
        let new_token = py_strip (form_get fm ''bot_token'' []);
            s1 = (if new_token \<noteq> [] then mset ''moderation_bot_token'' (me_encrypt E new_token) s else s);
            s2 = mset ''moderation_welcome_template'' (py_strip template) s1;
            enabled = form_flag fm ''welcome_enabled'';
            s3 = mset ''moderation_welcome_enabled'' (bool_str enabled) s2
        in (Redirect ''moderation.index'', put_mod st (audit E q ''moderation_welcome_config_save'' ''moderation'' None
              (JDict [(''enabled'', JBool enabled), (''template_len'', JInt (int (length (py_strip template)))),
                      (''token_changed'', JBool (new_token \<noteq> []))]) s3)))"

definition welcome_test :: "mod_env \<Rightarrow> req_ctx \<Rightarrow> mod_site \<Rightarrow> mod_reply \<times> mod_site" where
  "welcome_test E q =
     bot_json E q (\<lambda>c. rbind (bot_verify (me_web E) c) (\<lambda>me.
                      rbind (refresh_status_limit (me_web E) c) (\<lambda>_. rreturn (B_Bot me))))
       (Some (''mastodon_welcome_test'', ''moderation'', None, JNull))"

definition report_notice_save :: "mod_env \<Rightarrow> req_ctx \<Rightarrow> mod_form \<Rightarrow> mod_site \<Rightarrow> mod_reply \<times> mod_site" where
  "report_notice_save E q fm st =
     (let s = ms_mod st; template = form_get fm ''report_notice_template'' [] in
      if \<not> validate_report_notice_template (me_web E) template (get_status_limit s) then (Redirect ''moderation.index'', st)
      else (Redirect ''moderation.index'',
            put_mod st (audit E q ''moderation_report_notice_config_save'' ''moderation'' None
              (JDict [(''template_len'', JInt (int (length (py_strip template))))])
              (mset ''moderation_report_notice_template'' (py_strip template) s))))"

text \<open>The settings of the PeerTube check; the interval is stored as it was typed.\<close>

definition peertube_save :: "mod_env \<Rightarrow> req_ctx \<Rightarrow> mod_form \<Rightarrow> mod_site \<Rightarrow> mod_reply \<times> mod_site" where
  "peertube_save E q fm st =
     (case clean_api_url (form_get fm ''peertube_api_url'' []) ''PeerTube API URL'' of
        None \<Rightarrow> (Redirect ''moderation.index'', st)
      | Some api_url \<Rightarrow>
          (let s1 = mset ''moderation_peertube_api_url'' api_url (ms_mod st);
               new_token = py_strip (form_get fm ''peertube_api_token'' []);
               s2 = (if new_token \<noteq> [] then mset ''moderation_peertube_api_token'' (me_encrypt E new_token) s1 else s1);
               s3 = mset ''moderation_check_interval_hours'' (py_strip (form_get fm ''check_interval_hours'' ''24'')) s2;
               s4 = mset ''moderation_auto_ban_enabled'' (bool_str (form_get fm ''auto_ban_enabled'' [] \<noteq> [])) s3
           in (Redirect ''moderation.index'',
               put_mod st (audit E q ''moderation_config_save'' ''moderation'' None JNull s4))))"

definition clamp_field :: "mod_form \<Rightarrow> string \<Rightarrow> int \<Rightarrow> int \<Rightarrow> int \<Rightarrow> int" where
  "clamp_field fm k dflt low high =
     max low (min high (case py_int (py_strip (form_get fm k (py_str_int dflt))) of None \<Rightarrow> dflt | Some v \<Rightarrow> v))"

definition watch_save :: "mod_env \<Rightarrow> req_ctx \<Rightarrow> mod_form \<Rightarrow> mod_site \<Rightarrow> mod_reply \<times> mod_site" where
  "watch_save E q fm st =
     (case (parse_interval ''moderation_watch_poll_minutes'' (Some (form_get fm ''poll_minutes'' ''5'')),
            parse_interval ''moderation_log_retention_days'' (Some (form_get fm ''log_retention_days'' ''365''))) of
        (Some minutes, Some retention) \<Rightarrow>
          (let s = fold (\<lambda>(k, v). mset k v)
                 [(''moderation_watch_alerts_enabled'', bool_str (form_flag fm ''alerts_enabled'')),
                  (''moderation_watch_poll_minutes'', py_str_int minutes),
                  (''moderation_watch_auto_watch_days'', py_str_int (clamp_field fm ''auto_watch_days'' 0 0 90)),
                  (''moderation_watch_silent_login_days'', py_str_int (clamp_field fm ''silent_login_days'' 7 1 90)),
                  (''moderation_watch_silent_min_age_days'', py_str_int (clamp_field fm ''silent_min_age_days'' 14 0 365)),
                  (''moderation_watch_silent_scan_window_days'', py_str_int (clamp_field fm ''silent_scan_window_days'' 90 7 365)),
                  (''moderation_log_retention_days'', py_str_int retention)] (ms_mod st)
           in (Redirect ''moderation.index'',
               (put_mod st (audit E q ''moderation_watch_config_save'' ''moderation'' None JNull s))\<lparr>ms_minutes := minutes\<rparr>))
      | _ \<Rightarrow> (Redirect ''moderation.index'', st))"

section \<open>Reports\<close>

definition notified_at :: "moderation \<Rightarrow> report_summary \<Rightarrow> usec option" where
  "notified_at s r = map_option rn_sent_at (report_notice_record s (opt_str (rp_id r)))"

definition reports_list :: "mod_env \<Rightarrow> req_ctx \<Rightarrow> bool \<Rightarrow> mod_site \<Rightarrow> mod_reply \<times> mod_site" where
  "reports_list E q resolved =
     mastodon_json E q (\<lambda>c. rbind (list_reports (me_web E) c resolved None None MAX_PAGES) (\<lambda>rs s.
       (Inr (B_Reports (map (\<lambda>r. (r, notified_at s r)) rs)), s))) None"

definition report_audit :: "string \<Rightarrow> int \<Rightarrow> audit_args" where
  "report_audit action i = (action, ''mastodon_report'', Some (''report '' @ py_str_int i),
     JDict [(''report_id'', JStr (py_str_int i))])"

definition report_resolve :: "mod_env \<Rightarrow> req_ctx \<Rightarrow> int \<Rightarrow> mod_site \<Rightarrow> mod_reply \<times> mod_site" where
  "report_resolve E q i =
     mastodon_json E q (\<lambda>c. rbind (resolve_report (me_web E) c i) (\<lambda>_. rreturn (B_Id (py_str_int i))))
       (Some (report_audit ''mastodon_report_resolve'' i))"

definition report_reopen :: "mod_env \<Rightarrow> req_ctx \<Rightarrow> int \<Rightarrow> mod_site \<Rightarrow> mod_reply \<times> mod_site" where
  "report_reopen E q i =
     mastodon_json E q (\<lambda>c. rbind (reopen_report (me_web E) c i) (\<lambda>_. rreturn (B_Id (py_str_int i))))
       (Some (report_audit ''mastodon_report_reopen'' i))"

text \<open>The account a message goes to, from the handle of the form.\<close>

definition handle_account :: "string \<Rightarrow> string \<Rightarrow> dm_account" where
  "handle_account acct display_name =
     \<lparr>dm_username = lstrip_char CHR ''@'' (hd (py_split CHR ''@'' acct)),
      dm_display_name = display_name, dm_acct = lstrip_char CHR ''@'' acct\<rparr>"

definition report_notify :: "mod_env \<Rightarrow> req_ctx \<Rightarrow> user \<Rightarrow> int \<Rightarrow> mod_form \<Rightarrow> mod_site \<Rightarrow> mod_reply \<times> mod_site" where
  "report_notify E q u i fm st =
     (let raw = py_strip (form_get fm ''reporter_id'' []);
          reporter_id = (if py_isdigit raw then Some raw else None);
          acct = form_text fm ''reporter_acct''; text = form_text fm ''text'' in
      if acct = [] then (Json_Error 400 ''reporter_acct is required'', st)
      else if text = [] then (Json_Error 400 ''text is required'', st)
      else case build_bot_client (me_decrypt E) (ms_mod st) of
             Inl _ \<Rightarrow> (Json_Error 400 ''Welcome bot is not configured'', st)
           | Inr bc \<Rightarrow>
               (case send_report_notice (me_web E) q bc (py_str_int i) reporter_id
                       (handle_account acct (form_text fm ''display_name'')) (Some text) (Some (u_id u))
                       (form_flag fm ''force'') (ms_mod st) of
                  (None, s1) \<Rightarrow> (Json_Ok B_None, put_mod st s1)
                | (Some e, s1) \<Rightarrow>
                    (Json_Error (if e = ''already notified'' then 409
                                 else if e = REPORT_NOTICE_RENDER_ERROR \<or> startswith e ''Message would be'' then 400
                                 else 502) e, put_mod st s1)))"

section \<open>Actions on accounts\<close>

definition pending_list :: "mod_env \<Rightarrow> req_ctx \<Rightarrow> mod_site \<Rightarrow> mod_reply \<times> mod_site" where
  "pending_list E q =
     mastodon_json E q (\<lambda>c. rbind (list_pending_accounts (me_web E) c) (\<lambda>as. rreturn (B_Accounts as))) None"

definition account_audit :: "string \<Rightarrow> string \<Rightarrow> int \<Rightarrow> audit_args" where
  "account_audit action acct i =
     (action, ''mastodon_account'', Some (str_or acct (py_str_int i)), JDict (account_details i))"

definition account_approve :: "mod_env \<Rightarrow> req_ctx \<Rightarrow> int \<Rightarrow> mod_form \<Rightarrow> mod_site \<Rightarrow> mod_reply \<times> mod_site" where
  "account_approve E q i fm =
     mastodon_json E q (\<lambda>c. rbind (approve_account (me_web E) c i) (\<lambda>_. rreturn (B_Id (py_str_int i))))
       (Some (account_audit ''mastodon_account_approve'' (form_text fm ''acct'') i))"

definition account_reject :: "mod_env \<Rightarrow> req_ctx \<Rightarrow> int \<Rightarrow> mod_form \<Rightarrow> mod_site \<Rightarrow> mod_reply \<times> mod_site" where
  "account_reject E q i fm =
     mastodon_json E q (\<lambda>c. rbind (reject_account (me_web E) c i) (\<lambda>_. rreturn (B_Id (py_str_int i))))
       (Some (account_audit ''mastodon_account_reject'' (form_text fm ''acct'') i))"

definition account_lookup :: "mod_env \<Rightarrow> req_ctx \<Rightarrow> mod_form \<Rightarrow> mod_site \<Rightarrow> mod_reply \<times> mod_site" where
  "account_lookup E q fm st =
     (let acct = take 320 (py_strip (form_get fm ''acct'' [])) in
      if acct = [] then (Json_Error 400 ''Enter an account handle to look up'', st)
      else mastodon_json E q (\<lambda>c. rbind (lookup_account (me_web E) c acct) (\<lambda>a. rreturn (B_Account a))) None st)"

definition watched :: "moderation \<Rightarrow> string option \<Rightarrow> bool" where
  "watched s i = (opt_str i \<noteq> [] \<and> list_ex (\<lambda>w. Some (w_account_id w) = i) (m_watches s))"

definition account_search :: "mod_env \<Rightarrow> req_ctx \<Rightarrow> mod_form \<Rightarrow> mod_site \<Rightarrow> mod_reply \<times> mod_site" where
  "account_search E q fm st =
     (let field = (\<lambda>k n. take n (py_strip (form_get fm k [])));
          filters = filter (\<lambda>(k, v). v \<noteq> [])
            [(''email'', field ''email'' 320), (''ip'', field ''ip'' 64), (''username'', field ''username'' 64),
             (''display_name'', field ''display_name'' 128)] in
      if filters = [] then (Json_Error 400 ''Provide an email, IP, username or display name'', st)
      else if field ''ip'' 64 \<noteq> [] \<and> ip_network (field ''ip'' 64) = None
      then (Json_Error 400 ''invalid IP or CIDR'', st)
      else mastodon_json E q (\<lambda>c. rbind (search_accounts (me_web E) c filters 25) (\<lambda>as s.
               (Inr (B_Found (map (\<lambda>a. (a, watched s (as_id a))) as)), s)))
             (Some (''mastodon_account_search'', ''mastodon_account'', None,
                JDict [(''filters'', JList (map JStr (sort (map fst filters))))])) st)"

text \<open>
  The part the guarded actions share: read the account, refuse a staff account to a user who may not
  act on staff (and say so in the log), and go on with the account otherwise. \<open>kind\<close> and \<open>extra\<close> are
  what the log entry of a refusal says.
\<close>

definition refuse_staff ::
  "mod_env \<Rightarrow> req_ctx \<Rightarrow> string \<Rightarrow> string \<Rightarrow> string \<Rightarrow> (string \<times> json) list \<Rightarrow> adm_summary \<Rightarrow> mod_site \<Rightarrow>
   mod_reply \<times> mod_site" where
  "refuse_staff E q rname account_id kind extra t st =
     (Json_Error 403 STAFF_TARGET_ERROR,
      put_mod st (audit E q ''mastodon_account_action_refused'' ''mastodon_account'' (Some rname)
        (JDict ([(''account_id'', JStr account_id), (''type'', JStr kind), (''target_role'', JStr (as_role_name t))] @ extra))
        (ms_mod st)))"

definition may_act_on :: "moderation \<Rightarrow> user \<Rightarrow> adm_summary \<Rightarrow> bool" where
  "may_act_on s u t \<longleftrightarrow> \<not> as_is_staff t \<or> can Can_moderate_staff (mdb s) u"

definition with_target ::
  "mod_env \<Rightarrow> int \<Rightarrow> (adm_summary \<Rightarrow> mod_site \<Rightarrow> mod_reply \<times> mod_site) \<Rightarrow> mod_site \<Rightarrow> mod_reply \<times> mod_site" where
  "with_target E i k st =
     (case get_mastodon_client E (ms_mod st) of
        Inl r \<Rightarrow> (r, st)
      | Inr c \<Rightarrow>
          (case get_admin_account (me_web E) c i (ms_mod st) of
             (Inl (Api_Error m _ _), s1) \<Rightarrow> (Json_Error 502 m, put_mod st s1)
           | (Inl (Value_Error m), s1) \<Rightarrow> (Server_Error, put_mod st s1)
           | (Inr t, s1) \<Rightarrow> k t (put_mod st s1)))"

definition target_name :: "string \<Rightarrow> adm_summary \<Rightarrow> int \<Rightarrow> string" where
  "target_name acct t i = str_or acct (str_or (as_acct t) (py_str_int i))"

text \<open>The routes once the account has been read.\<close>

definition act_on_target ::
  "mod_env \<Rightarrow> req_ctx \<Rightarrow> user \<Rightarrow> int \<Rightarrow> string \<Rightarrow> string \<Rightarrow> string \<Rightarrow> int \<Rightarrow> bool \<Rightarrow> adm_summary \<Rightarrow>
   mod_site \<Rightarrow> mod_reply \<times> mod_site" where
  "act_on_target E q u i action_type acct text report_id notify t st =
     (let about = (if report_id \<noteq> 0 then [(''report_id'', JStr (py_str_int report_id))] else []) in
      if \<not> may_act_on (ms_mod st) u t
      then refuse_staff E q (target_name acct t i) (py_str_int i) action_type about t st
      else mastodon_json E q
             (\<lambda>c. rbind (account_action (me_web E) c i action_type text report_id notify) (\<lambda>_.
                   rbind (get_admin_account (me_web E) c i) (\<lambda>a. rreturn (B_Account a))))
             (Some (''mastodon_account_'' @ action_type, ''mastodon_account'', Some (str_or acct (py_str_int i)),
                JDict (account_details i @ [(''type'', JStr action_type), (''notify'', JBool notify)] @ about))) st)"

definition account_action_route ::
  "mod_env \<Rightarrow> req_ctx \<Rightarrow> user \<Rightarrow> int \<Rightarrow> mod_form \<Rightarrow> mod_site \<Rightarrow> mod_reply \<times> mod_site" where
  "account_action_route E q u i fm st =
     (let action_type = form_text fm ''type'' in
      if \<not> List.member ACCOUNT_ACTION_TYPES action_type then (Json_Error 400 ''Unknown account action'', st)
      else with_target E i (act_on_target E q u i action_type (form_text fm ''acct'') (form_text fm ''text'')
             (form_int fm ''report_id'') (form_flag fm ''send_email_notification'')) st)"

definition delete_target ::
  "mod_env \<Rightarrow> req_ctx \<Rightarrow> user \<Rightarrow> int \<Rightarrow> string \<Rightarrow> adm_summary \<Rightarrow> mod_site \<Rightarrow> mod_reply \<times> mod_site" where
  "delete_target E q u i acct t st =
     (if \<not> as_suspended t then (Json_Error 400 ''Suspend the account before deleting it'', st)
      else if \<not> may_act_on (ms_mod st) u t
      then refuse_staff E q (target_name acct t i) (py_str_int i) ''delete'' [] t st
      else mastodon_json E q
             (\<lambda>c. rbind (delete_account (me_web E) c i) (\<lambda>_. rreturn B_None))
             (Some (''mastodon_account_delete'', ''mastodon_account'', Some acct,
                JDict (account_details i @ [(''domain'', json_opt (as_domain t))]))) st)"

definition account_delete_route ::
  "mod_env \<Rightarrow> req_ctx \<Rightarrow> user \<Rightarrow> int \<Rightarrow> mod_form \<Rightarrow> mod_site \<Rightarrow> mod_reply \<times> mod_site" where
  "account_delete_route E q u i fm st =
     (let acct = form_text fm ''acct'' in
      if acct = [] then (Json_Error 400 ''acct is required'', st)
      else if form_text fm ''confirm'' \<noteq> acct then (Json_Error 400 ''Type the account handle to confirm'', st)
      else with_target E i (delete_target E q u i acct) st)"

definition account_lift :: "mod_env \<Rightarrow> req_ctx \<Rightarrow> int \<Rightarrow> string \<Rightarrow> mod_form \<Rightarrow> mod_site \<Rightarrow> mod_reply \<times> mod_site" where
  "account_lift E q i lift fm st =
     (if \<not> List.member ACCOUNT_LIFT_ACTIONS lift then (Json_Error 404 ''Unknown account action'', st)
      else mastodon_json E q
             (\<lambda>c. rbind (lift_account_action (me_web E) c i lift) (\<lambda>_.
                   rbind (get_admin_account (me_web E) c i) (\<lambda>a. rreturn (B_Account a))))
             (Some (account_audit (''mastodon_account_'' @ lift) (form_text fm ''acct'') i)) st)"

section \<open>Server-side actions\<close>

text \<open>A body under the lock of the server-side actions.\<close>

definition in_slot :: "(fleet \<Rightarrow> 'a \<times> fleet) \<Rightarrow> mod_site \<Rightarrow> 'a option \<times> mod_site" where
  "in_slot run st =
     (case maintenance_slot run (ms_busy st, ms_fleet st) of
        (r, busy, f) \<Rightarrow> (r, st\<lparr>ms_busy := busy, ms_fleet := f\<rparr>))"

text \<open>The route once the account has been read.\<close>

definition maintain_target ::
  "mod_env \<Rightarrow> req_ctx \<Rightarrow> user \<Rightarrow> int \<Rightarrow> string \<Rightarrow> string \<Rightarrow> string option \<Rightarrow> bool \<Rightarrow> adm_summary \<Rightarrow>
   mod_site \<Rightarrow> mod_reply \<times> mod_site" where
  "maintain_target E q u i action acct email confirm t st =
     (let d = mdb (ms_mod st); username = as_username t in
      if opt_str (as_domain t) \<noteq> [] then (Json_Error 400 ''Maintenance actions apply to local accounts only'', st)
      else if \<not> may_act_on (ms_mod st) u t
      then refuse_staff E q (target_name acct t i) (py_str_int i) (''maintenance:'' @ action) [] t st
      else if build_modify_command username action email confirm (mastodon_user d) (mastodon_app_dir d) = None
      then (Json_Error 400 INVALID_INPUT_MESSAGE, st)
      else case in_slot (run_maintenance (me_remote E) d action username email confirm) st of
             (None, st1) \<Rightarrow> (Json_Error 409 ''Another maintenance action is running'', st1)
           | (Some r, st1) \<Rightarrow>
               (if mr_ok r then Json_Ok (B_Message (mr_message r) (if action = ''reset_password'' then mr_password r else None))
                else Json_Error 502 (mr_message r),
                put_mod st1 (audit E q (''mastodon_maintenance_'' @ action) ''mastodon_account''
                  (Some (str_or acct username))
                  (JDict (account_details i @ [(''ok'', JBool (mr_ok r)),
                     (''email_changed'', JBool (action = ''change_email'' \<and> mr_ok r))])) (ms_mod st1))))"

definition account_maintenance ::
  "mod_env \<Rightarrow> req_ctx \<Rightarrow> user \<Rightarrow> int \<Rightarrow> mod_form \<Rightarrow> mod_site \<Rightarrow> mod_reply \<times> mod_site" where
  "account_maintenance E q u i fm st =
     (let action = form_get fm ''action'' [];
          email = (if form_text fm ''email'' = [] then None else Some (form_text fm ''email'')) in
      if \<not> can Can_maintain_mastodon_accounts (mdb (ms_mod st)) u then
        (Json_Error 403 ''Your role may not run account maintenance'',
         put_mod st (audit E q ''mastodon_maintenance_refused'' ''mastodon_account'' (Some (py_str_int i))
           (JDict (account_details i @ [(''action'', JStr (form_text fm ''action'')), (''reason'', JStr ''permission'')]))
           (ms_mod st)))
      else if map_of MAINTENANCE_ACTIONS action = None then (Json_Error 400 ''Unknown maintenance action'', st)
      else with_target E i (maintain_target E q u i action (form_text fm ''acct'') email (form_flag fm ''confirm'')) st)"

definition get_token_account :: "mod_env \<Rightarrow> moderation \<Rightarrow> json" where
  "get_token_account E s = token_account_id (me_loads E) (mdb s)"

text \<open>The route once the report has been read.\<close>

definition posts_action ::
  "mod_env \<Rightarrow> req_ctx \<Rightarrow> user \<Rightarrow> int \<Rightarrow> mod_form \<Rightarrow> string \<Rightarrow> string list \<Rightarrow> report_summary \<Rightarrow>
   mod_site \<Rightarrow> mod_reply \<times> mod_site" where
  "posts_action E q u i fm action wanted rep st =
     (let s = ms_mod st; d = mdb s; t = rp_target rep; text = form_text fm ''text'';
          known = List.map_filter st_id (rp_statuses rep); ids = filter (List.member known) wanted;
          send_email = (form_flag fm ''send_email_notification'' \<and> opt_str (as_domain t) = []);
          actor = get_token_account E s in
      if rp_action_taken rep then (Json_Error 400 ''This report is already resolved; reopen it first'', st)
      else if ids = [] then (Json_Error 400 ''None of the selected posts belong to this report'', st)
      else if \<not> may_act_on s u t
      then refuse_staff E q (str_or (as_acct t) (opt_str (as_id t))) (opt_str (as_id t)) (''posts:'' @ action)
             [(''report_id'', JStr (py_str_int i))] t st
      else if \<not> json_truthy actor then (Json_Error 400 NO_ACTOR, st)
      else if setting_get d ''mastodon_guest_id'' [] = [] then (Json_Error 400 ''Configure the Mastodon app guest first'', st)
      else if build_status_action_script action ids (py_str_int i) (json_str actor) text send_email = None
      then (Json_Error 400 INVALID_INPUT_MESSAGE, st)
      else case in_slot (run_status_action (me_loads E) (me_remote E) d action ids (py_str_int i) text send_email) st of
             (None, st1) \<Rightarrow> (Json_Error 409 ''Another server-side action is running'', st1)
           | (Some r, st1) \<Rightarrow>
               (if sa_ok r then Json_Ok (B_Acted (sa_message r) (sa_count r)) else Json_Error 502 (sa_message r),
                put_mod st1 (audit E q (''mastodon_report_posts_'' @ action) ''mastodon_report''
                  (Some (''report '' @ py_str_int i))
                  (JDict [(''report_id'', JStr (py_str_int i)), (''status_count'', JInt (int (length ids))),
                     (''acted'', JInt (sa_count r)), (''ok'', JBool (sa_ok r)), (''target'', JStr (as_acct t)),
                     (''text_len'', JInt (int (length text))), (''email'', JBool send_email)]) (ms_mod st1))))"

definition report_posts ::
  "mod_env \<Rightarrow> req_ctx \<Rightarrow> user \<Rightarrow> int \<Rightarrow> mod_form \<Rightarrow> mod_site \<Rightarrow> mod_reply \<times> mod_site" where
  "report_posts E q u i fm st =
     (let action = form_get fm ''type'' [];
          wanted = filter (\<lambda>x. x \<noteq> []) (map py_strip (rf_status_ids fm)) in
      if map_of STATUS_ACTIONS action = None then (Json_Error 400 ''Unknown post action'', st)
      else if wanted = [] then (Json_Error 400 ''Select at least one post'', st)
      else if length wanted > MAX_STATUS_IDS then (Json_Error 400 ''Too many posts selected (max 50)'', st)
      else case get_mastodon_client E (ms_mod st) of
             Inl r \<Rightarrow> (r, st)
           | Inr c \<Rightarrow>
               (case get_report (me_web E) c i (ms_mod st) of
                  (Inl (Api_Error m _ _), s1) \<Rightarrow> (Json_Error 502 m, put_mod st s1)
                | (Inl (Value_Error m), s1) \<Rightarrow> (Server_Error, put_mod st s1)
                | (Inr rep, s1) \<Rightarrow> posts_action E q u i fm action wanted rep (put_mod st s1)))"

section \<open>Domain blocks\<close>

definition domain_blocks_list :: "mod_env \<Rightarrow> req_ctx \<Rightarrow> mod_site \<Rightarrow> mod_reply \<times> mod_site" where
  "domain_blocks_list E q =
     mastodon_json E q (\<lambda>c. rbind (list_domain_blocks (me_web E) c) (\<lambda>bs. rreturn (B_Blocks bs))) None"

definition domain_block_create :: "mod_env \<Rightarrow> req_ctx \<Rightarrow> mod_form \<Rightarrow> mod_site \<Rightarrow> mod_reply \<times> mod_site" where
  "domain_block_create E q fm st =
     (case validate_domain (form_get fm ''domain'' []) of
        None \<Rightarrow> (Json_Error 400 HOSTNAME_ERROR, st)
      | Some domain \<Rightarrow>
          (let severity = str_or (form_text fm ''severity'') ''silence'';
               opts = \<lparr>bo_severity = severity, bo_reject_media = form_flag fm ''reject_media'',
                       bo_reject_reports = form_flag fm ''reject_reports'', bo_obfuscate = form_flag fm ''obfuscate'',
                       bo_public_comment = form_text fm ''public_comment'',
                       bo_private_comment = form_text fm ''private_comment''\<rparr> in
           if \<not> List.member DOMAIN_BLOCK_SEVERITIES severity then (Json_Error 400 ''Unknown domain block severity'', st)
           else mastodon_json E q
                  (\<lambda>c. rbind (create_domain_block (me_web E) c domain opts) (\<lambda>b. rreturn (B_Block b)))
                  (Some (''mastodon_domain_block_create'', ''mastodon_domain_block'', Some domain,
                     JDict [(''severity'', JStr severity), (''reject_media'', JBool (bo_reject_media opts)),
                            (''reject_reports'', JBool (bo_reject_reports opts))])) st))"

definition domain_block_delete :: "mod_env \<Rightarrow> req_ctx \<Rightarrow> int \<Rightarrow> mod_form \<Rightarrow> mod_site \<Rightarrow> mod_reply \<times> mod_site" where
  "domain_block_delete E q i fm =
     mastodon_json E q (\<lambda>c. rbind (delete_domain_block (me_web E) c i) (\<lambda>_. rreturn (B_Id (py_str_int i))))
       (Some (''mastodon_domain_block_delete'', ''mastodon_domain_block'',
              Some (str_or (form_text fm ''domain'') (py_str_int i)), JDict [(''block_id'', JStr (py_str_int i))]))"

section \<open>Watches, alerts and welcome messages\<close>

definition watch_add :: "mod_env \<Rightarrow> req_ctx \<Rightarrow> user \<Rightarrow> mod_form \<Rightarrow> mod_site \<Rightarrow> mod_reply \<times> mod_site" where
  "watch_add E q u fm st =
     (let account_id = form_text fm ''account_id''; acct = form_text fm ''acct''; reason = form_text fm ''reason'';
          days = max 0 (min 365 (form_int fm ''days'')) in
      if \<not> py_isdigit account_id then (Json_Error 400 ''A numeric account_id is required'', st)
      else if acct = [] then (Json_Error 400 ''acct is required'', st)
      else if first_row (\<lambda>w. w_account_id w = account_id) (m_watches (ms_mod st)) \<noteq> None
      then (Json_Error 409 ''Already watched'', st)
      else mastodon_json E q (\<lambda>c.
             rbind (account_statuses (me_web E) c account_id None 1) (\<lambda>sts s.
               let w = \<lparr>w_id = next_id w_id (m_watches s), w_account_id = account_id, w_acct = acct,
                        w_reason = (if reason = [] then None else Some reason), w_added_by = Some (u_id u),
                        w_expires_at = (if days \<noteq> 0 then Some (clock (me_web E) s + usec_of_days days) else None),
                        w_auto_added = False,
                        w_last_status_id = (case sts of [] \<Rightarrow> None | x # _ \<Rightarrow> st_id x), w_last_checked_at = None\<rparr>
               in (Inr (B_Watch w), s\<lparr>m_watches := m_watches s @ [w]\<rparr>)))
             (Some (''mastodon_watch_add'', ''mastodon_account'', Some acct,
                JDict [(''account_id'', JStr account_id), (''days'', JInt days)])) st)"

definition watch_remove :: "mod_env \<Rightarrow> req_ctx \<Rightarrow> int \<Rightarrow> mod_site \<Rightarrow> mod_reply \<times> mod_site" where
  "watch_remove E q i st =
     (let s = ms_mod st in
      case first_row (\<lambda>w. w_id w = i) (m_watches s) of
        None \<Rightarrow> (Json_Error 404 ''Watch not found'', st)
      | Some w \<Rightarrow>
          (Json_Ok B_None, put_mod st (audit E q ''mastodon_watch_remove'' ''mastodon_account'' (Some (w_acct w))
             (JDict [(''watch_id'', JInt i), (''account_id'', JStr (w_account_id w))])
             (s\<lparr>m_watches := filter (\<lambda>r. w_id r \<noteq> i) (m_watches s)\<rparr>))))"

definition acknowledge :: "usec \<Rightarrow> user \<Rightarrow> mod_alert \<Rightarrow> mod_alert" where
  "acknowledge now u a = a\<lparr>ma_acknowledged_at := Some now, ma_acknowledged_by := Some (u_id u)\<rparr>"

definition alert_ack :: "mod_env \<Rightarrow> user \<Rightarrow> int \<Rightarrow> mod_site \<Rightarrow> mod_reply \<times> mod_site" where
  "alert_ack E u i st =
     (let s = ms_mod st in
      case first_row (\<lambda>a. ma_id a = i) (m_alerts s) of
        None \<Rightarrow> (Json_Error 404 ''Alert not found'', st)
      | Some a \<Rightarrow>
          (Json_Ok B_None,
           if ma_acknowledged_at a = None
           then put_mod st (s\<lparr>m_alerts := update_rows (\<lambda>a. ma_id a = i) (acknowledge (clock (me_web E) s) u) (m_alerts s)\<rparr>)
           else st))"

definition to_ack :: "string \<Rightarrow> mod_alert \<Rightarrow> bool" where
  "to_ack kind a \<longleftrightarrow> ma_acknowledged_at a = None \<and> (kind = [] \<or> ma_kind a = kind)"

definition alerts_ack_all :: "mod_env \<Rightarrow> req_ctx \<Rightarrow> user \<Rightarrow> mod_form \<Rightarrow> mod_site \<Rightarrow> mod_reply \<times> mod_site" where
  "alerts_ack_all E q u fm st =
     (let s = ms_mod st; kind = form_text fm ''kind''; n = length (filter (to_ack kind) (m_alerts s)) in
      if kind \<noteq> [] \<and> \<not> List.member KINDS kind then (Json_Error 400 ''Unknown alert kind'', st)
      else (Json_Ok (B_Count n),
            put_mod st (audit E q ''mastodon_alerts_ack_all'' ''moderation'' None
              (JDict [(''kind'', if kind = [] then JNull else JStr kind), (''count'', JInt (int n))])
              (s\<lparr>m_alerts := update_rows (to_ack kind) (acknowledge (clock (me_web E) s) u) (m_alerts s)\<rparr>))))"

definition welcome_send :: "mod_env \<Rightarrow> req_ctx \<Rightarrow> user \<Rightarrow> int \<Rightarrow> mod_form \<Rightarrow> mod_site \<Rightarrow> mod_reply \<times> mod_site" where
  "welcome_send E q u i fm st =
     (let acct = form_text fm ''acct'' in
      if acct = [] then (Json_Error 400 ''acct is required'', st)
      else case build_bot_client (me_decrypt E) (ms_mod st) of
             Inl _ \<Rightarrow> (Json_Error 400 ''Welcome bot is not configured'', st)
           | Inr bc \<Rightarrow>
               (case send_welcome (me_web E) q bc (py_str_int i) (handle_account acct (form_text fm ''display_name''))
                       (Some (u_id u)) (form_get fm ''force'' [] = ''1'') (ms_mod st) of
                  (None, s1) \<Rightarrow> (Json_Ok B_None, put_mod st s1)
                | (Some e, s1) \<Rightarrow>
                    (Json_Error (if e = ''already welcomed'' then 409 else 502) e, put_mod st s1)))"

text \<open>A poll on demand: the request claims the flag, the thread runs the poll and releases it.\<close>

definition watch_poll_now :: "mod_env \<Rightarrow> req_ctx \<Rightarrow> mod_site \<Rightarrow> mod_reply \<times> mod_site" where
  "watch_poll_now E q st =
     (case build_admin_client (me_decrypt E) (ms_mod st) of
        Inl m \<Rightarrow> (Json_Error 400 m, st)
      | Inr _ \<Rightarrow>
          if ms_polling st then (Json_Error 409 ''A poll is already running'', st)
          else (Json_Ok B_None, (put_mod st (audit E q ''mastodon_watch_poll_now'' ''moderation'' None JNull (ms_mod st)))
                  \<lparr>ms_polling := True\<rparr>))"

definition watch_poll_worker :: "mod_env \<Rightarrow> req_ctx \<Rightarrow> client \<Rightarrow> usec \<Rightarrow> mod_site \<Rightarrow> mod_site" where
  "watch_poll_worker E q c now st =
     (put_mod st (snd (run_watch_poll (me_web E) q c None now ((ms_mod st)\<lparr>n_rate := (\<lambda>_. None)\<rparr>))))\<lparr>ms_polling := False\<rparr>"

section \<open>Requests\<close>

datatype mod_route =
    Rt_save | Rt_mastodon_save | Rt_mastodon_test | Rt_watch_save | Rt_welcome_save | Rt_welcome_test | Rt_report_notice_save
  | Rt_reports bool | Rt_report_resolve int | Rt_report_reopen int | Rt_report_notify int | Rt_report_posts int
  | Rt_pending | Rt_approve int | Rt_reject int | Rt_lookup | Rt_search
  | Rt_action int | Rt_delete int | Rt_maintenance int | Rt_lift int string
  | Rt_blocks | Rt_block_create | Rt_block_delete int
  | Rt_watch_add | Rt_watch_remove int | Rt_alert_ack int | Rt_alerts_ack_all
  | Rt_welcome_send int | Rt_poll_now

fun admin_only :: "mod_route \<Rightarrow> bool" where
  "admin_only Rt_save = True"
| "admin_only Rt_mastodon_save = True"
| "admin_only Rt_mastodon_test = True"
| "admin_only Rt_watch_save = True"
| "admin_only Rt_welcome_save = True"
| "admin_only Rt_welcome_test = True"
| "admin_only Rt_report_notice_save = True"
| "admin_only (Rt_delete _) = True"
| "admin_only _ = False"

definition require_login :: "db \<Rightarrow> user \<Rightarrow> mod_route \<Rightarrow> mod_reply option" where
  "require_login d u r =
     (if \<not> can Can_moderate d u then Some (Redirect ''dashboard.index'')
      else if admin_only r \<and> \<not> is_admin d u then Some (Redirect ''moderation.index'')
      else None)"

fun run_route :: "mod_env \<Rightarrow> req_ctx \<Rightarrow> user \<Rightarrow> mod_route \<Rightarrow> mod_form \<Rightarrow> mod_site \<Rightarrow> mod_reply \<times> mod_site" where
  "run_route E q u Rt_save fm st = peertube_save E q fm st"
| "run_route E q u Rt_mastodon_save fm st = mastodon_save E q fm st"
| "run_route E q u Rt_mastodon_test fm st = mastodon_test E q st"
| "run_route E q u Rt_watch_save fm st = watch_save E q fm st"
| "run_route E q u Rt_welcome_save fm st = welcome_save E q fm st"
| "run_route E q u Rt_welcome_test fm st = welcome_test E q st"
| "run_route E q u Rt_report_notice_save fm st = report_notice_save E q fm st"
| "run_route E q u (Rt_reports b) fm st = reports_list E q b st"
| "run_route E q u (Rt_report_resolve i) fm st = report_resolve E q i st"
| "run_route E q u (Rt_report_reopen i) fm st = report_reopen E q i st"
| "run_route E q u (Rt_report_notify i) fm st = report_notify E q u i fm st"
| "run_route E q u (Rt_report_posts i) fm st = report_posts E q u i fm st"
| "run_route E q u Rt_pending fm st = pending_list E q st"
| "run_route E q u (Rt_approve i) fm st = account_approve E q i fm st"
| "run_route E q u (Rt_reject i) fm st = account_reject E q i fm st"
| "run_route E q u Rt_lookup fm st = account_lookup E q fm st"
| "run_route E q u Rt_search fm st = account_search E q fm st"
| "run_route E q u (Rt_action i) fm st = account_action_route E q u i fm st"
| "run_route E q u (Rt_delete i) fm st = account_delete_route E q u i fm st"
| "run_route E q u (Rt_maintenance i) fm st = account_maintenance E q u i fm st"
| "run_route E q u (Rt_lift i lift) fm st = account_lift E q i lift fm st"
| "run_route E q u Rt_blocks fm st = domain_blocks_list E q st"
| "run_route E q u Rt_block_create fm st = domain_block_create E q fm st"
| "run_route E q u (Rt_block_delete i) fm st = domain_block_delete E q i fm st"
| "run_route E q u Rt_watch_add fm st = watch_add E q u fm st"
| "run_route E q u (Rt_watch_remove i) fm st = watch_remove E q i st"
| "run_route E q u (Rt_alert_ack i) fm st = alert_ack E u i st"
| "run_route E q u Rt_alerts_ack_all fm st = alerts_ack_all E q u fm st"
| "run_route E q u (Rt_welcome_send i) fm st = welcome_send E q u i fm st"
| "run_route E q u Rt_poll_now fm st = watch_poll_now E q st"

definition moderation_request ::
  "mod_env \<Rightarrow> req_ctx \<Rightarrow> user \<Rightarrow> mod_route \<Rightarrow> mod_form \<Rightarrow> mod_site \<Rightarrow> mod_reply \<times> mod_site" where
  "moderation_request E q u r fm st =
     (case require_login (mdb (ms_mod st)) u r of Some reply \<Rightarrow> (reply, st) | None \<Rightarrow> run_route E q u r fm st)"

section \<open>What a request sends\<close>

definition is_write :: "http_request \<Rightarrow> bool" where "is_write p \<longleftrightarrow> hr_method p \<noteq> ''GET''"

text \<open>\<open>n\<close> writes at most, each of the given kind; reads are free.\<close>

definition sends :: "(http_request \<Rightarrow> bool) \<Rightarrow> nat \<Rightarrow> moderation \<Rightarrow> moderation \<Rightarrow> bool" where
  "sends P n s s' \<longleftrightarrow> (\<exists>qs. n_reqs s' = n_reqs s @ qs \<and> length (filter is_write qs) \<le> n \<and> list_all P (filter is_write qs))"

lemma sends_same: "n_reqs s' = n_reqs s \<Longrightarrow> sends P n s s'"
  by (auto simp: sends_def)

lemma sends_trans: "sends P a s t \<Longrightarrow> sends P b t u \<Longrightarrow> sends P (a + b) s u"
  unfolding sends_def by (elim exE) (auto intro!: exI[of _ "_ @ _"])

lemma sends_mono: "sends P a s t \<Longrightarrow> a \<le> b \<Longrightarrow> sends P b s t"
  unfolding sends_def by force

lemma sends_after: "sends P n s t \<Longrightarrow> n_reqs u = n_reqs t \<Longrightarrow> sends P n s u"
  by (simp add: sends_def)

lemma sends_before: "sends P n s u \<Longrightarrow> n_reqs t = n_reqs s \<Longrightarrow> sends P n t u"
  by (simp add: sends_def)

lemma sends_reads: "reads m \<Longrightarrow> m s = (r, s') \<Longrightarrow> sends P 0 s s'"
  by (drule (1) readsD(2)) (auto simp: sends_def is_write_def filter_empty_conv)

lemma sends_frame:
  "sends P n s (mlog W q a b d e f t) = sends P n s t" "sends P n s (mset k v t) = sends P n s t"
  "sends P n s (t\<lparr>m_welcomes := x\<rparr>) = sends P n s t" "sends P n s (t\<lparr>m_report_notices := y\<rparr>) = sends P n s t"
  by (simp_all add: sends_def mod_frame)

text \<open>Code that sends writes of a kind only, over states of the watch.\<close>

definition sending :: "(http_request \<Rightarrow> bool) \<Rightarrow> nat \<Rightarrow> 'a pio \<Rightarrow> bool" where
  "sending P n m \<longleftrightarrow> (\<forall>s. sends P n s (snd (m s)))"

named_theorems sending_intros "composition of code that sends"

lemma sendingD: "sending P n m \<Longrightarrow> m s = (r, s') \<Longrightarrow> sends P n s s'"
  unfolding sending_def by (metis snd_conv)

lemma sending_reads: "reads m \<Longrightarrow> sending P 0 m"
  unfolding sending_def using sends_reads[OF _ surjective_pairing] by blast

lemma sending_return [sending_intros]: "sending P 0 (rreturn x)"
  by (simp add: sending_def rreturn_def sends_same)

lemma sending_rbind:
  assumes "sending P a m" "\<And>x. sending P b (k x)"
  shows "sending P (a + b) (rbind m k)"
  unfolding sending_def
proof
  fix s
  obtain r s1 where m: "m s = (r, s1)" by fastforce
  have "sends P a s s1" using assms(1) m by (rule sendingD)
  then show "sends P (a + b) s (snd (rbind m k s))"
    using m sends_trans[OF _ sendingD[OF assms(2)]]
    by (auto simp: rbind_def intro: sends_mono split: sum.splits) (metis surjective_pairing)
qed

lemma sending_mono: "sending P a m \<Longrightarrow> a \<le> b \<Longrightarrow> sending P b m"
  unfolding sending_def by (blast intro: sends_mono)

lemma sending_write:
  assumes "\<And>s r s'. m s = (r, s') \<Longrightarrow> n_reqs s' = n_reqs s @ [p]" "P p"
  shows "sending P 1 m"
  unfolding sending_def sends_def
proof
  fix s
  have "n_reqs (snd (m s)) = n_reqs s @ [p]" using assms(1) surjective_pairing by blast
  then show "\<exists>qs. n_reqs (snd (m s)) = n_reqs s @ qs \<and> length (filter is_write qs) \<le> 1 \<and> list_all P (filter is_write qs)"
    using assms(2) by (intro exI[of _ "[p]"]) auto
qed

text \<open>The one request of a call with a path of the program's own.\<close>

definition request_to :: "client \<Rightarrow> string \<Rightarrow> string \<Rightarrow> json option \<Rightarrow> http_request" where
  "request_to c method path body =
     \<lparr>hr_method = method, hr_url = cl_api_url c @ path, hr_token = cl_token c, hr_body = body, hr_key = None\<rparr>"

lemma request_own_path:
  assumes "request W c method (CHR ''/'' # path) [] body None s = (r, s')"
  shows "n_reqs s' = n_reqs s @ [request_to c method (CHR ''/'' # path) body]" "net.more s' = net.more s"
    "\<exists>s1. (r, s') = receive W c (wb_http W (n_reqs s @ [request_to c method (CHR ''/'' # path) body])) s1"
proof -
  let ?p = "request_to c method (CHR ''/'' # path) body"
  let ?s1 = "s\<lparr>n_reqs := n_reqs s @ [?p]\<rparr>"
  have b: "base_url c (CHR ''/'' # path) = Inr (cl_api_url c @ CHR ''/'' # path)"
    by (simp add: base_url_def startswith_def)
  have e: "(r, s') = receive W c (wb_http W (n_reqs s @ [?p])) ?s1"
    using assms by (simp add: request_def b Let_def with_params_def request_to_def)
  then have s': "s' = snd (receive W c (wb_http W (n_reqs s @ [?p])) ?s1)" by (metis snd_conv)
  show "n_reqs s' = n_reqs s @ [?p]" "net.more s' = net.more s" unfolding s' receive_frame by simp_all
  show "\<exists>s1. (r, s') = receive W c (wb_http W (n_reqs s @ [?p])) s1" using e by blast
qed

lemma post_admin_sends:
  assumes "path = CHR ''/'' # p0" "post_admin W c path body s = (r, s')"
  shows "n_reqs s' = n_reqs s @ [request_to c ''POST'' path body]"
  using assms request_own_path(1)[of W c "''POST''" p0 body s]
  by (auto simp: post_admin_def rbind_def rreturn_def split: sum.splits prod.splits)

lemma sending_then [sending_intros]:
  "sending P 0 m \<Longrightarrow> (\<And>x. sending P 0 (k x)) \<Longrightarrow> sending P 0 (rbind m k)"
  using sending_rbind[of P 0 m 0 k] by simp

lemma sending_before: "sending P n m \<Longrightarrow> (\<And>x. sending P 0 (k x)) \<Longrightarrow> sending P n (rbind m k)"
  using sending_rbind[of P n m 0 k] by simp

lemma sending_raise [sending_intros]: "sending P n (rraise e)"
  by (simp add: sending_def rraise_def sends_same)

lemma sending_pure [sending_intros]: "(\<And>s. n_reqs (t s) = n_reqs s) \<Longrightarrow> sending P n (\<lambda>s. (r s, t s))"
  by (simp add: sending_def sends_same)

lemma sending_get [sending_intros]: "sending P 0 (get W c path ps)"
  by (rule sending_reads) (auto simp: reads_def intro: calls_get)

lemma sending_listing [sending_intros]: "sending P 0 (get_all W c path ps n)"
  by (simp add: get_all_def sending_reads reads_iter_pages)

lemma sending_refresh_limit [sending_intros]: "sending P 0 (refresh_status_limit W c)"
  unfolding sending_def
proof
  fix s :: moderation
  obtain r s1 where m: "max_status_chars W c (s :: moderation) = (r, s1)" by fastforce
  show "sends P 0 s (snd (refresh_status_limit W c s))"
    using m sends_reads[OF reads_max_status_chars m, of P]
    by (auto simp: refresh_status_limit_def Let_def mod_frame intro: sends_after split: sum.splits mexn.splits)
qed

lemma sending_client_reads [sending_intros]:
  "sending P 0 (get_admin_account W c i)" "sending P 0 (get_report W c i)" "sending P 0 (admin_verify W c)"
  "sending P 0 (bot_verify W c)" "sending P 0 (account_statuses W c a since n)"
  unfolding get_admin_account_def get_report_def admin_verify_def
  by (auto intro!: sending_intros sending_reads[OF reads_bot_verify] sending_reads[OF reads_account_statuses] split: prod.splits)

lemma sending_client_lists [sending_intros]:
  "sending P 0 (list_reports W c b t a n)" "sending P 0 (list_pending_accounts W c)"
  "sending P 0 (search_accounts W c fs k)" "sending P 0 (list_domain_blocks W c)" "sending P 0 (lookup_account W c raw)"
  unfolding list_reports_def list_pending_accounts_def search_accounts_def admin_accounts_def list_domain_blocks_def
    lookup_account_def Let_def
  by (auto intro!: sending_intros split: prod.splits option.splits)

lemma sending_post_admin:
  assumes "P (request_to c ''POST'' (CHR ''/'' # path) body)"
  shows "sending P 1 (post_admin W c (CHR ''/'' # path) body)"
  by (rule sending_write[where p = "request_to c ''POST'' (CHR ''/'' # path) body"])
     (use assms post_admin_sends[OF refl] in auto)

lemma write_audit_reqs [simp]: "n_reqs (write_audit E q a s) = n_reqs s"
  by (auto simp: write_audit_def audit_def mod_frame split: option.splits prod.splits)

lemma audit_frame [simp]:
  "n_reqs (audit E q a b d e s) = n_reqs s"
  by (simp add: audit_def mod_frame)

lemma put_mod_simps [simp]:
  "ms_mod (put_mod st s) = s" "ms_fleet (put_mod st s) = ms_fleet st" "ms_busy (put_mod st s) = ms_busy st"
  "ms_polling (put_mod st s) = ms_polling st"
  by (simp_all add: put_mod_def)

definition site_sends :: "(http_request \<Rightarrow> bool) \<Rightarrow> nat \<Rightarrow> mod_site \<Rightarrow> mod_reply \<times> mod_site \<Rightarrow> bool" where
  "site_sends P n st out \<longleftrightarrow> sends P n (ms_mod st) (ms_mod (snd out))"

lemma site_sends_same: "ms_mod st' = ms_mod st \<Longrightarrow> site_sends P n st (r, st')"
  by (simp add: site_sends_def sends_same)

lemma site_sends_if:
  "(b \<Longrightarrow> site_sends P n st x) \<Longrightarrow> (\<not> b \<Longrightarrow> site_sends P n st y) \<Longrightarrow> site_sends P n st (if b then x else y)"
  by simp

lemma wrap_json_sends:
  assumes "sending P n call"
  shows "site_sends P n st (wrap_json E q call a st)"
proof -
  obtain r s1 where c: "call (ms_mod st) = (r, s1)" by fastforce
  then show ?thesis using sendingD[OF assms c]
    by (auto simp: wrap_json_def site_sends_def intro: sends_after split: sum.splits mexn.splits)
qed

text \<open>The configured instance.\<close>

definition api_base :: "mod_site \<Rightarrow> string" where
  "api_base st = rstrip_char CHR ''/'' (mget (ms_mod st) ''moderation_mastodon_api_url'' [])"

lemma mastodon_client_url: "get_mastodon_client E s = Inr c \<Longrightarrow> cl_api_url c = rstrip_char CHR ''/'' (mget s ''moderation_mastodon_api_url'' [])"
  by (auto simp: get_mastodon_client_def new_client_def Let_def split: if_splits option.splits)

lemma bot_client_url: "build_bot_client dec s = Inr c \<Longrightarrow> cl_api_url c = rstrip_char CHR ''/'' (mget s ''moderation_mastodon_api_url'' [])"
  by (auto simp: build_bot_client_def build_client_def new_client_def Let_def split: if_splits option.splits)

lemma mastodon_json_sends:
  assumes "\<And>c. cl_api_url c = api_base st \<Longrightarrow> sending P n (fn c)"
  shows "site_sends P n st (mastodon_json E q fn a st)"
  using assms wrap_json_sends mastodon_client_url[of E "ms_mod st"]
  by (auto simp: mastodon_json_def api_base_def site_sends_same split: sum.splits)

lemma bot_json_sends:
  assumes "\<And>c. sending P n (fn c)"
  shows "site_sends P n st (bot_json E q fn a st)"
  using assms wrap_json_sends by (auto simp: bot_json_def site_sends_same split: sum.splits)

text \<open>The one write a route may send to the instance.\<close>

fun route_writes :: "mod_route \<Rightarrow> (string \<times> string) list" where
  "route_writes (Rt_report_resolve i) = [(''POST'', admin_path ''reports'' i ''/resolve'')]"
| "route_writes (Rt_report_reopen i) = [(''POST'', admin_path ''reports'' i ''/reopen'')]"
| "route_writes (Rt_report_notify i) = [(''POST'', ''/api/v1/statuses'')]"
| "route_writes (Rt_approve i) = [(''POST'', admin_path ''accounts'' i ''/approve'')]"
| "route_writes (Rt_reject i) = [(''POST'', admin_path ''accounts'' i ''/reject'')]"
| "route_writes (Rt_action i) = [(''POST'', admin_path ''accounts'' i ''/action'')]"
| "route_writes (Rt_delete i) = [(''DELETE'', admin_path ''accounts'' i [])]"
| "route_writes (Rt_lift i lift) =
     (if List.member ACCOUNT_LIFT_ACTIONS lift then [(''POST'', admin_path ''accounts'' i (''/'' @ lift))] else [])"
| "route_writes Rt_block_create = [(''POST'', ''/api/v1/admin/domain_blocks'')]"
| "route_writes (Rt_block_delete i) = [(''DELETE'', admin_path ''domain_blocks'' i [])]"
| "route_writes (Rt_welcome_send i) = [(''POST'', ''/api/v1/statuses'')]"
| "route_writes _ = []"

definition write_of :: "string \<Rightarrow> (string \<times> string) list \<Rightarrow> http_request \<Rightarrow> bool" where
  "write_of base ws p \<longleftrightarrow> (hr_method p, hr_url p) \<in> (\<lambda>(m, path). (m, base @ path)) ` set ws"

lemma write_of_request_to: "(m, path) \<in> set ws \<Longrightarrow> cl_api_url c = base \<Longrightarrow> write_of base ws (request_to c m path body)"
  by (force simp: write_of_def request_to_def)

definition own_path :: "string \<Rightarrow> bool" where "own_path path \<longleftrightarrow> (\<exists>p. path = CHR ''/'' # p)"

lemma own_paths [simp]: "own_path (admin_path what i rest)" "own_path (CHR ''/'' # p)"
  by (simp_all add: own_path_def admin_path_def)

lemma sending_post_path:
  assumes "cl_api_url c = base" "own_path path" "(''POST'', path) \<in> set ws"
  shows "sending (write_of base ws) 1 (post_admin W c path body)"
proof -
  obtain p where p: "path = CHR ''/'' # p" using assms(2) by (auto simp: own_path_def)
  show ?thesis unfolding p by (rule sending_post_admin) (use assms write_of_request_to p in auto)
qed

lemma sending_delete_path:
  assumes "cl_api_url c = base" "own_path path" "(''DELETE'', path) \<in> set ws"
  shows "sending (write_of base ws) 1 (request W c ''DELETE'' path [] None None)"
proof -
  obtain p where p: "path = CHR ''/'' # p" using assms(2) by (auto simp: own_path_def)
  show ?thesis unfolding p
    by (rule sending_write[where p = "request_to c ''DELETE'' (CHR ''/'' # p) None"])
       (use request_own_path(1) assms write_of_request_to p in auto)
qed

lemma reads_get_admin_account: "reads (get_admin_account W c i)"
  unfolding reads_def get_admin_account_def by (intro exI[of _ 1] calls_get_then) (auto intro: calls_intros)

lemma reads_get_report: "reads (get_report W c i)"
  unfolding reads_def get_report_def by (intro exI[of _ 1] calls_get_then) (auto intro: calls_intros)

lemma api_base_read:
  assumes "net.more s1 = net.more (ms_mod st)"
  shows "api_base (put_mod st s1) = api_base st"
  using more_cong(1)[OF assms] by (simp add: api_base_def mget_def mdb_def)

lemma with_target_sends:
  assumes "\<And>t st1. api_base st1 = api_base st \<Longrightarrow> site_sends P n st1 (k t st1)"
  shows "site_sends P n st (with_target E i k st)"
proof (cases "get_mastodon_client E (ms_mod st)")
  case (Inr c)
  obtain r s1 where g: "get_admin_account (me_web E) c i (ms_mod st) = (r, s1)" by fastforce
  have s1: "sends P 0 (ms_mod st) s1" by (rule sends_reads[OF reads_get_admin_account g])
  have "site_sends P n (put_mod st s1) (k t (put_mod st s1))" for t
    by (rule assms) (rule api_base_read[OF readsD(1)[OF reads_get_admin_account g]])
  then have "site_sends P n st (k t (put_mod st s1))" for t
    using sends_trans[OF s1, of n] by (simp add: site_sends_def)
  moreover have "site_sends P n st (x, put_mod st s1)" for x
    using sends_mono[OF s1] by (simp add: site_sends_def)
  ultimately show ?thesis using Inr g by (auto simp: with_target_def split: sum.splits mexn.splits)
qed (simp add: with_target_def site_sends_same)

lemma site_sends_reqs: "n_reqs (ms_mod st') = n_reqs (ms_mod st) \<Longrightarrow> site_sends P n st (r, st')"
  by (simp add: site_sends_def sends_same)

lemma in_slot_mod: "in_slot run st = (r, st1) \<Longrightarrow> ms_mod st1 = ms_mod st"
  by (auto simp: in_slot_def split: prod.splits)

lemma sends_direct:
  assumes "post_direct W bc text key s = (r, s1)" "cl_api_url bc = base" "(''POST'', ''/api/v1/statuses'') \<in> set ws"
  shows "sends (write_of base ws) 1 s s1"
  using post_direct_sends(1)[OF assms(1)] assms(2,3)
  by (force simp: sends_def write_of_def direct_message_def)

lemma send_welcome_sends:
  assumes "send_welcome W q bc i a by force s = (e, s')" "cl_api_url bc = base" "(''POST'', ''/api/v1/statuses'') \<in> set ws"
  shows "sends (write_of base ws) 1 s s'"
proof -
  note d = sends_direct[OF _ assms(2,3), of W]
  show ?thesis
    using assms(1)
    by (auto simp: send_welcome_def Let_def sends_same sends_frame simp del: One_nat_def dest!: d
        split: if_splits option.splits sum.splits mexn.splits prod.splits)
qed

lemma send_notice_sends:
  assumes "send_report_notice W q bc i rid a text by force s = (e, s')" "cl_api_url bc = base"
    "(''POST'', ''/api/v1/statuses'') \<in> set ws"
  shows "sends (write_of base ws) 1 s s'"
proof -
  note d = sends_direct[OF _ assms(2,3), of W]
  show ?thesis
    using assms(1)
    by (auto simp: send_report_notice_def Let_def sends_same sends_frame simp del: One_nat_def dest!: d
        split: if_splits option.splits sum.splits mexn.splits prod.splits)
qed

subsection \<open>Route by route\<close>

lemmas post_then = sending_before[OF sending_post_path]
lemmas delete_then = sending_before[OF sending_delete_path]

lemma simple_routes_send:
  "site_sends (write_of (api_base st) (route_writes (Rt_report_resolve i))) 1 st (report_resolve E q i st)"
  "site_sends (write_of (api_base st) (route_writes (Rt_report_reopen i))) 1 st (report_reopen E q i st)"
  "site_sends (write_of (api_base st) (route_writes (Rt_approve i))) 1 st (account_approve E q i fm st)"
  "site_sends (write_of (api_base st) (route_writes (Rt_reject i))) 1 st (account_reject E q i fm st)"
  unfolding report_resolve_def report_reopen_def account_approve_def account_reject_def
    resolve_report_def reopen_report_def approve_account_def reject_account_def
  by (rule mastodon_json_sends post_then sending_return | simp del: One_nat_def)+

lemma lift_sends: "site_sends (write_of (api_base st) (route_writes (Rt_lift i lift))) 1 st (account_lift E q i lift fm st)"
proof (cases "List.member ACCOUNT_LIFT_ACTIONS lift")
  case True
  have "sending (write_of (api_base st) (route_writes (Rt_lift i lift))) 1 (lift_account_action W c i lift)"
    if "cl_api_url c = api_base st" for W c
    using that True unfolding lift_account_action_def
    by (auto intro!: sending_post_path simp del: One_nat_def)
  then show ?thesis
    using True unfolding account_lift_def
    by (auto intro!: mastodon_json_sends sending_before sending_intros simp del: One_nat_def route_writes.simps)
qed (simp add: account_lift_def site_sends_same)

lemma block_create_sends:
  "site_sends (write_of (api_base st) (route_writes Rt_block_create)) 1 st (domain_block_create E q fm st)"
proof -
  have "sending (write_of base (route_writes Rt_block_create)) 1 (create_domain_block W c d opts)"
    if "cl_api_url c = base" for W c base d opts
    using that unfolding create_domain_block_def
    by (auto intro!: post_then sending_intros simp del: One_nat_def split: option.splits)
  then show ?thesis
    unfolding domain_block_create_def Let_def
    by (auto intro!: mastodon_json_sends sending_before sending_intros site_sends_same
        simp del: One_nat_def route_writes.simps split: option.splits)
qed

lemma block_delete_sends:
  "site_sends (write_of (api_base st) (route_writes (Rt_block_delete i))) 1 st (domain_block_delete E q i fm st)"
proof -
  have "sending (write_of base (route_writes (Rt_block_delete i))) 1 (delete_domain_block W c i)"
    if "cl_api_url c = base" for W c base
    using that unfolding delete_domain_block_def
    by (auto intro!: delete_then sending_intros simp del: One_nat_def split: prod.splits)
  then show ?thesis
    unfolding domain_block_delete_def
    by (auto intro!: mastodon_json_sends sending_before sending_intros simp del: One_nat_def route_writes.simps)
qed

lemma refuse_staff_sends: "site_sends P n st (refuse_staff E q a b d e t st)"
  by (simp add: refuse_staff_def site_sends_reqs)

lemma action_sends: "site_sends (write_of (api_base st) (route_writes (Rt_action i))) 1 st (account_action_route E q u i fm st)"
proof -
  let ?P = "write_of (api_base st) (route_writes (Rt_action i))"
  have "sending ?P 1 (account_action W c i ty tx rid b)" if "cl_api_url c = api_base st" for W c ty tx rid b
    using that unfolding account_action_def
    by (auto intro!: sending_post_path sending_intros simp del: One_nat_def)
  then show ?thesis
    unfolding account_action_route_def act_on_target_def Let_def
    by (auto intro!: with_target_sends mastodon_json_sends refuse_staff_sends sending_before sending_intros site_sends_same
        simp del: One_nat_def route_writes.simps)
qed

lemma delete_sends: "site_sends (write_of (api_base st) (route_writes (Rt_delete i))) 1 st (account_delete_route E q u i fm st)"
proof -
  let ?P = "write_of (api_base st) (route_writes (Rt_delete i))"
  have "sending ?P 1 (delete_account W c i)" if "cl_api_url c = api_base st" for W c
    using that unfolding delete_account_def by (auto intro!: delete_then sending_intros simp del: One_nat_def)
  then show ?thesis
    unfolding account_delete_route_def delete_target_def Let_def
    by (auto intro!: with_target_sends mastodon_json_sends refuse_staff_sends sending_before sending_intros site_sends_same
        simp del: One_nat_def route_writes.simps)
qed

lemma bot_message_sends:
  assumes "\<And>bc e s1. cl_api_url bc = api_base st \<Longrightarrow> send bc = (e, s1) \<Longrightarrow> sends P n (ms_mod st) s1"
  shows "site_sends P n st (case build_bot_client dec (ms_mod st) of
      Inl m \<Rightarrow> (Json_Error 400 err, st)
    | Inr bc \<Rightarrow> (case send bc of
        (None, s1) \<Rightarrow> (Json_Ok B_None, put_mod st s1) | (Some e, s1) \<Rightarrow> (Json_Error (code_of e) e, put_mod st s1)))"
  using assms bot_client_url[of dec "ms_mod st"]
  by (auto simp: site_sends_def sends_same api_base_def split: sum.splits option.splits prod.splits)

lemma message_routes_send:
  "site_sends (write_of (api_base st) (route_writes (Rt_report_notify i))) 1 st (report_notify E q u i fm st)"
  "site_sends (write_of (api_base st) (route_writes (Rt_welcome_send i))) 1 st (welcome_send E q u i fm st)"
proof -
  have w: "(''POST'', ''/api/v1/statuses'') \<in> set (route_writes (Rt_report_notify i))"
    "(''POST'', ''/api/v1/statuses'') \<in> set (route_writes (Rt_welcome_send i))" by simp_all
  show "site_sends (write_of (api_base st) (route_writes (Rt_report_notify i))) 1 st (report_notify E q u i fm st)"
    unfolding report_notify_def Let_def
    by (intro site_sends_if site_sends_same refl bot_message_sends)
       (rule send_notice_sends[OF _ _ w(1)], assumption+)
  show "site_sends (write_of (api_base st) (route_writes (Rt_welcome_send i))) 1 st (welcome_send E q u i fm st)"
    unfolding welcome_send_def Let_def
    by (intro site_sends_if site_sends_same refl bot_message_sends)
       (rule send_welcome_sends[OF _ _ w(2)], assumption+)
qed

text \<open>The remaining routes only read.\<close>

lemma store_token_sends [sending_intros]: "sending P 0 (store_token_account W me)"
  by (simp add: sending_def store_token_account_def Let_def sends_same mod_frame)

lemma reading_routes_send:
  "site_sends P 0 st (mastodon_test E q st)" "site_sends P 0 st (welcome_test E q st)"
  "site_sends P 0 st (reports_list E q b st)" "site_sends P 0 st (pending_list E q st)"
  "site_sends P 0 st (domain_blocks_list E q st)"
  unfolding mastodon_test_def welcome_test_def reports_list_def pending_list_def domain_blocks_list_def verify_and_store_def
  by (rule mastodon_json_sends bot_json_sends sending_intros refl)+

lemma lookup_routes_send:
  "site_sends P 0 st (account_lookup E q fm st)" "site_sends P 0 st (account_search E q fm st)"
  "site_sends P 0 st (watch_add E q u fm st)"
  unfolding account_lookup_def account_search_def watch_add_def Let_def
  by (rule site_sends_if mastodon_json_sends sending_intros site_sends_same refl)+ simp_all

lemma save_routes_send:
  "site_sends P 0 st (mastodon_save E q fm st)" "site_sends P 0 st (watch_save E q fm st)"
  "site_sends P 0 st (welcome_save E q fm st)" "site_sends P 0 st (report_notice_save E q fm st)"
  "site_sends P 0 st (peertube_save E q fm st)"
proof -
  have v: "sends P 0 s s'" if "verify_and_store W c s = (r, s')" for W c s r s'
    by (rule sendingD[where m = "verify_and_store W c", OF _ that], unfold verify_and_store_def) (rule sending_intros)+
  show "site_sends P 0 st (mastodon_save E q fm st)"
    unfolding mastodon_save_def Let_def
    by (auto simp: site_sends_def sends_same sends_frame audit_def mod_frame intro: sends_before[OF v]
        split: option.splits prod.splits sum.splits)
  show "site_sends P 0 st (watch_save E q fm st)"
    by (auto simp: watch_save_def Let_def site_sends_def sends_same mod_frame split: option.splits)
  show "site_sends P 0 st (welcome_save E q fm st)" "site_sends P 0 st (report_notice_save E q fm st)"
    by (simp_all add: welcome_save_def report_notice_save_def Let_def site_sends_def sends_same mod_frame)
  show "site_sends P 0 st (peertube_save E q fm st)"
    by (auto simp: peertube_save_def Let_def site_sends_def sends_same audit_def mod_frame split: option.splits)
qed

lemma local_routes_send:
  "site_sends P 0 st (watch_remove E q i st)" "site_sends P 0 st (alert_ack E u i st)"
  "site_sends P 0 st (alerts_ack_all E q u fm st)" "site_sends P 0 st (watch_poll_now E q st)"
  by (auto simp: watch_remove_def alert_ack_def alerts_ack_all_def watch_poll_now_def Let_def site_sends_def sends_same
      split: option.splits sum.splits)

lemma maintenance_sends: "site_sends P 0 st (account_maintenance E q u i fm st)"
  unfolding account_maintenance_def maintain_target_def Let_def
  by (auto intro!: with_target_sends refuse_staff_sends site_sends_reqs dest!: in_slot_mod split: prod.splits option.splits)

lemma posts_sends: "site_sends P 0 st (report_posts E q u i fm st)"
proof -
  have act: "site_sends P 0 st (posts_action E q u i fm a ws rep st)" for st a ws rep
    unfolding posts_action_def Let_def
    by (auto intro!: refuse_staff_sends site_sends_reqs dest!: in_slot_mod split: prod.splits option.splits)
  have "site_sends P 0 st (x, put_mod st s1)" "site_sends P 0 st (posts_action E q u i fm a ws rep (put_mod st s1))"
    if "get_report W c i (ms_mod st) = (r, s1)" for x a ws rep W c r s1
    using sends_reads[OF reads_get_report that, of P] sends_trans[of P 0 _ _ 0] act[of "put_mod st s1"]
    by (auto simp: site_sends_def)
  then show ?thesis
    by (auto simp: report_posts_def Let_def site_sends_same split: sum.splits mexn.splits prod.splits)
qed

lemma run_route_sends: "site_sends (write_of (api_base st) (route_writes r)) 1 st (run_route E q u r fm st)"
proof -
  have le: "site_sends P 0 st x \<Longrightarrow> site_sends P 1 st x" for P x
    unfolding site_sends_def by (erule sends_mono) simp
  show ?thesis
    by (cases r; simp only: run_route.simps)
       (rule simple_routes_send lift_sends block_create_sends block_delete_sends action_sends delete_sends
          message_routes_send le[OF reading_routes_send(1)] le[OF reading_routes_send(2)] le[OF reading_routes_send(3)]
          le[OF reading_routes_send(4)] le[OF reading_routes_send(5)] le[OF lookup_routes_send(1)]
          le[OF lookup_routes_send(2)] le[OF lookup_routes_send(3)] le[OF save_routes_send(1)] le[OF save_routes_send(2)]
          le[OF save_routes_send(3)] le[OF save_routes_send(4)] le[OF save_routes_send(5)] le[OF local_routes_send(1)] le[OF local_routes_send(2)]
          le[OF local_routes_send(3)] le[OF local_routes_send(4)] le[OF maintenance_sends] le[OF posts_sends])+
qed

text \<open>The writes a request added, and those a user may cause with a route.\<close>

definition new_writes :: "mod_site \<Rightarrow> mod_site \<Rightarrow> http_request list" where
  "new_writes st st' = filter is_write (drop (length (n_reqs (ms_mod st))) (n_reqs (ms_mod st')))"

definition permitted_writes :: "db \<Rightarrow> user \<Rightarrow> mod_route \<Rightarrow> (string \<times> string) list" where
  "permitted_writes d u r =
     (if can Can_moderate d u \<and> (is_admin d u \<or> \<not> admin_only r) then route_writes r else [])"

text \<open>
  C20. A request of the moderation tab causes at most one change on the Mastodon instance, and only the
  one its route names (method and address on the configured instance, built from the ids of the
  address the user asked for); none at all without the moderation permission, and none by an
  administrators' route for anybody else. Everything else a request sends is a GET.
\<close>

theorem request_writes_confined:
  "let ws = new_writes st (snd (moderation_request E q u r fm st)) in
   length ws \<le> 1 \<and> list_all (write_of (api_base st) (permitted_writes (mdb (ms_mod st)) u r)) ws"
proof (cases "require_login (mdb (ms_mod st)) u r")
  case None
  then have "permitted_writes (mdb (ms_mod st)) u r = route_writes r"
    by (auto simp: require_login_def permitted_writes_def split: if_splits)
  then show ?thesis
    using run_route_sends[of st r E q u fm] None
    by (auto simp: moderation_request_def site_sends_def sends_def new_writes_def Let_def)
qed (simp add: moderation_request_def new_writes_def)

section \<open>Guarded targets\<close>

definition answered_account :: "web \<Rightarrow> http_request list \<Rightarrow> adm_summary option" where
  "answered_account W reqs =
     (case wb_http W reqs of
        Json_Answer p _ \<Rightarrow> Some (summarize_admin_account (as_account (the_item p)))
      | Empty_Answer _ \<Rightarrow> Some (summarize_admin_account no_account)
      | _ \<Rightarrow> None)"

definition answered_report :: "web \<Rightarrow> http_request list \<Rightarrow> report_summary option" where
  "answered_report W reqs =
     (case wb_http W reqs of
        Json_Answer p _ \<Rightarrow> Some (summarize_report W (as_report (the_item p)))
      | Empty_Answer _ \<Rightarrow> Some (summarize_report W no_report)
      | _ \<Rightarrow> None)"

lemma get_own_path:
  assumes "get W c (admin_path what i []) [] s = (r, s')"
  shows "n_reqs s' = n_reqs s @ [request_to c ''GET'' (admin_path what i []) None]" "net.more s' = net.more s"
    "\<exists>s1. (r, s') = receive W c (wb_http W (n_reqs s')) s1"
proof -
  obtain p where "admin_path what i [] = CHR ''/'' # p" using own_paths(1)[of what i "[]"] by (auto simp: own_path_def)
  note req = request_own_path[OF assms[unfolded get_def this], folded this]
  show "n_reqs s' = n_reqs s @ [request_to c ''GET'' (admin_path what i []) None]" "net.more s' = net.more s"
    by (rule req)+
  show "\<exists>s1. (r, s') = receive W c (wb_http W (n_reqs s')) s1" using req(3) unfolding req(1) .
qed

lemma get_admin_account_outcome:
  assumes "get_admin_account W c i s = (r, s')"
  shows "n_reqs s' = n_reqs s @ [request_to c ''GET'' (admin_path ''accounts'' i []) None]" "net.more s' = net.more s"
    "r = Inr t \<Longrightarrow> answered_account W (n_reqs s') = Some t"
proof -
  obtain r0 s0 where g: "get W c (admin_path ''accounts'' i []) [] s = (r0, s0)" by fastforce
  have s0: "s0 = s'" using assms g by (auto simp: get_admin_account_def rbind_def rreturn_def split: sum.splits)
  show "n_reqs s' = n_reqs s @ [request_to c ''GET'' (admin_path ''accounts'' i []) None]" "net.more s' = net.more s"
    using get_own_path(1,2)[OF g] s0 by simp_all
  show "answered_account W (n_reqs s') = Some t" if "r = Inr t"
    using get_own_path(3)[OF g] assms g s0 that
    by (auto simp: get_admin_account_def rbind_def rreturn_def receive_def answered_account_def the_item_def as_account_def
        split: sum.splits http_answer.splits if_splits)
qed

lemma get_report_outcome:
  assumes "get_report W c i s = (r, s')"
  shows "n_reqs s' = n_reqs s @ [request_to c ''GET'' (admin_path ''reports'' i []) None]" "net.more s' = net.more s"
    "r = Inr t \<Longrightarrow> answered_report W (n_reqs s') = Some t"
proof -
  obtain r0 s0 where g: "get W c (admin_path ''reports'' i []) [] s = (r0, s0)" by fastforce
  have s0: "s0 = s'" using assms g by (auto simp: get_report_def rbind_def rreturn_def split: sum.splits)
  show "n_reqs s' = n_reqs s @ [request_to c ''GET'' (admin_path ''reports'' i []) None]" "net.more s' = net.more s"
    using get_own_path(1,2)[OF g] s0 by simp_all
  show "answered_report W (n_reqs s') = Some t" if "r = Inr t"
    using get_own_path(3)[OF g] assms g s0 that
    by (auto simp: get_report_def rbind_def rreturn_def receive_def answered_report_def the_item_def as_report_def
        split: sum.splits http_answer.splits if_splits)
qed

definition acted :: "mod_site \<Rightarrow> mod_site \<Rightarrow> bool" where
  "acted st st' \<longleftrightarrow> new_writes st st' \<noteq> [] \<or> f_ops (ms_fleet st') \<noteq> f_ops (ms_fleet st)"

text \<open>What a guarded route reads first, and the account it finds there.\<close>

fun target_path :: "mod_route \<Rightarrow> string" where
  "target_path (Rt_report_posts i) = admin_path ''reports'' i []"
| "target_path (Rt_action i) = admin_path ''accounts'' i []"
| "target_path (Rt_delete i) = admin_path ''accounts'' i []"
| "target_path (Rt_maintenance i) = admin_path ''accounts'' i []"
| "target_path _ = []"

fun target_of :: "web \<Rightarrow> mod_route \<Rightarrow> http_request list \<Rightarrow> adm_summary option" where
  "target_of W (Rt_report_posts i) reqs = map_option rp_target (answered_report W reqs)"
| "target_of W r reqs = answered_account W reqs"

text \<open>After reading the target, the route goes on with \<open>k\<close> in a state that has only the read in addition.\<close>

definition target_read :: "mod_env \<Rightarrow> mod_route \<Rightarrow> mod_site \<Rightarrow> mod_site \<Rightarrow> adm_summary \<Rightarrow> bool" where
  "target_read E r st st1 t \<longleftrightarrow> (\<exists>c. get_mastodon_client E (ms_mod st) = Inr c \<and>
     n_reqs (ms_mod st1) = n_reqs (ms_mod st) @ [request_to c ''GET'' (target_path r) None] \<and>
     target_of (me_web E) r (n_reqs (ms_mod st1)) = Some t \<and> mdb (ms_mod st1) = mdb (ms_mod st) \<and>
     ms_fleet st1 = ms_fleet st \<and> ms_busy st1 = ms_busy st)"

lemma not_acted:
  assumes "n_reqs (ms_mod st') = n_reqs (ms_mod st) @ [request_to c ''GET'' p None] \<or> n_reqs (ms_mod st') = n_reqs (ms_mod st)"
    "ms_fleet st' = ms_fleet st"
  shows "\<not> acted st st'"
  using assms by (auto simp: acted_def new_writes_def is_write_def request_to_def)

lemma with_target_acted:
  assumes "with_target E i k st = (reply, st')" "acted st st'" "target_path r = admin_path ''accounts'' i []"
    "\<And>reqs. target_of (me_web E) r reqs = answered_account (me_web E) reqs"
  obtains t st1 where "target_read E r st st1 t" "k t st1 = (reply, st')"
proof (cases "get_mastodon_client E (ms_mod st)")
  case (Inl x)
  then show thesis using assms(1,2) by (simp add: with_target_def acted_def new_writes_def)
next
  case (Inr c)
  obtain r0 s1 where g: "get_admin_account (me_web E) c i (ms_mod st) = (r0, s1)" by fastforce
  note out = get_admin_account_outcome[OF g]
  have none: "\<not> acted st (put_mod st s1)" using out(1) by (intro not_acted) auto
  then obtain t where t: "r0 = Inr t" "k t (put_mod st s1) = (reply, st')"
    using assms(1,2) Inr g by (cases r0) (auto simp: with_target_def split: mexn.splits)
  have "target_read E r st (put_mod st s1) t"
    unfolding target_read_def using Inr out(1) out(3)[OF t(1)] more_cong(1)[OF out(2)] assms(3,4) by (auto simp: mdb_def)
  then show thesis using that t(2) by blast
qed

lemma posts_acted:
  assumes "report_posts E q u i fm st = (reply, st')" "acted st st'"
  obtains rep st1 a ws where "target_read E (Rt_report_posts i) st st1 (rp_target rep)"
    "posts_action E q u i fm a ws rep st1 = (reply, st')"
proof (cases "get_mastodon_client E (ms_mod st)")
  case (Inl x)
  then show thesis using assms by (auto simp: report_posts_def acted_def new_writes_def Let_def split: if_splits)
next
  case (Inr c)
  obtain r0 s1 where g: "get_report (me_web E) c i (ms_mod st) = (r0, s1)" by fastforce
  note out = get_report_outcome[OF g]
  have none: "\<not> acted st (put_mod st s1)" "\<not> acted st st" using out(1) by (intro not_acted; auto)+
  then obtain t a ws where t: "r0 = Inr t" "posts_action E q u i fm a ws t (put_mod st s1) = (reply, st')"
    using assms Inr g by (cases r0) (auto simp: report_posts_def Let_def split: mexn.splits if_splits)
  have "target_read E (Rt_report_posts i) st (put_mod st s1) (rp_target t)"
    unfolding target_read_def using Inr out(1) out(3)[OF t(1)] more_cong(1)[OF out(2)] by (auto simp: mdb_def)
  then show thesis using that t(2) by blast
qed

lemma refused_not_acted:
  assumes "target_read E r st st1 t" "acted st st'" "refuse_staff E q a b d e x st1 = (reply, st')"
  shows False
  using assms not_acted by (auto simp: target_read_def refuse_staff_def)

lemma stopped_not_acted: "target_read E r st st1 t \<Longrightarrow> acted st st1 \<Longrightarrow> False"
  using not_acted by (auto simp: target_read_def)

lemma sending_any: "sending P n m \<Longrightarrow> sending (\<lambda>_. True) n m"
  by (auto simp: sending_def sends_def list_all_iff)

lemma mastodon_json_extends:
  assumes "\<And>c. sending P n (fn c)" "mastodon_json E q fn a st1 = (reply, st')"
  shows "\<exists>rest. n_reqs (ms_mod st') = n_reqs (ms_mod st1) @ rest"
  using mastodon_json_sends[of st1 P n fn E q a] assms by (auto simp: site_sends_def sends_def)

lemma in_slot_busy: "in_slot run st = (r, st1) \<Longrightarrow> ms_busy st \<Longrightarrow> ms_fleet st1 = ms_fleet st \<and> r = None"
  by (auto simp: in_slot_def maintenance_slot_def try_acquire_def split: prod.splits)

lemma action_guarded:
  assumes "act_on_target E q u i ty acct tx rid nf t st1 = (reply, st')" "target_read E (Rt_action i) st st1 t" "acted st st'"
  shows "may_act_on (ms_mod st1) u t" "\<exists>rest. n_reqs (ms_mod st') = n_reqs (ms_mod st1) @ rest"
proof -
  show m: "may_act_on (ms_mod st1) u t"
    using assms refused_not_acted[OF assms(2,3)] by (auto simp: act_on_target_def Let_def split: if_splits)
  have "sending (\<lambda>_. True) 1 (account_action W c i ty tx rid nf)" for W c
    unfolding account_action_def
    by (auto intro!: sending_any[OF sending_post_path[of c "cl_api_url c" _ "[(''POST'', admin_path ''accounts'' i ''/action'')]"]]
        sending_intros simp del: One_nat_def)
  then have "sending (\<lambda>_. True) 1 (rbind (account_action (me_web E) c i ty tx rid nf) (\<lambda>_.
      rbind (get_admin_account (me_web E) c i) (\<lambda>a. rreturn (B_Account a))))" for c
    by (intro sending_before sending_intros)
  from mastodon_json_extends[OF this] show "\<exists>rest. n_reqs (ms_mod st') = n_reqs (ms_mod st1) @ rest"
    using assms(1) m unfolding act_on_target_def Let_def by simp
qed

lemma delete_guarded:
  assumes "delete_target E q u i acct t st1 = (reply, st')" "target_read E (Rt_delete i) st st1 t" "acted st st'"
  shows "as_suspended t" "may_act_on (ms_mod st1) u t" "\<exists>rest. n_reqs (ms_mod st') = n_reqs (ms_mod st1) @ rest"
proof -
  show s: "as_suspended t"
    using assms stopped_not_acted[OF assms(2)] by (auto simp: delete_target_def split: if_splits)
  show m: "may_act_on (ms_mod st1) u t"
    using assms s refused_not_acted[OF assms(2,3)] by (auto simp: delete_target_def split: if_splits)
  have "sending (\<lambda>_. True) 1 (delete_account W c i)" for W c
    unfolding delete_account_def
    by (auto intro!: sending_before sending_intros
        sending_any[OF sending_delete_path[of c "cl_api_url c" _ "[(''DELETE'', admin_path ''accounts'' i [])]"]]
        simp del: One_nat_def)
  then have "sending (\<lambda>_. True) 1 (rbind (delete_account (me_web E) c i) (\<lambda>_. rreturn B_None))" for c
    by (intro sending_before sending_intros)
  from mastodon_json_extends[OF this] show "\<exists>rest. n_reqs (ms_mod st') = n_reqs (ms_mod st1) @ rest"
    using assms(1) s m unfolding delete_target_def by simp
qed

text \<open>The two routes that act on the server send nothing to the instance after the read.\<close>

lemma slot_outcome:
  assumes "(case in_slot run st1 of
      (None, st2) \<Rightarrow> (e, st2)
    | (Some x, st2) \<Rightarrow> (f x, put_mod st2 (audit E q a b d (h x) (ms_mod st2)))) = (reply, st')"
  shows "n_reqs (ms_mod st') = n_reqs (ms_mod st1) \<and> (ms_busy st1 \<longrightarrow> ms_fleet st' = ms_fleet st1)"
proof -
  obtain y st2 where y: "in_slot run st1 = (y, st2)" by fastforce
  then show ?thesis using assms in_slot_mod[OF y] in_slot_busy[OF y] by (auto split: option.splits)
qed

lemma slot_guarded:
  assumes "target_read E r st st1 t" "acted st st'"
    "n_reqs (ms_mod st') = n_reqs (ms_mod st1) \<and> (ms_busy st1 \<longrightarrow> ms_fleet st' = ms_fleet st1)"
  shows "\<not> ms_busy st"
proof
  assume "ms_busy st"
  obtain c where "n_reqs (ms_mod st1) = n_reqs (ms_mod st) @ [request_to c ''GET'' (target_path r) None]"
    using assms(1) by (auto simp: target_read_def)
  then have "\<not> acted st st'"
    using assms(1,3) \<open>ms_busy st\<close> by (intro not_acted[where c = c and p = "target_path r"]) (auto simp: target_read_def)
  then show False using assms(2) ..
qed

lemma maintain_target_guarded:
  assumes "maintain_target E q u i action acct email confirm t st1 = (reply, st')"
    "target_read E (Rt_maintenance i) st st1 t" "acted st st'"
  shows "opt_str (as_domain t) = []" "may_act_on (ms_mod st1) u t" "\<not> ms_busy st"
    "n_reqs (ms_mod st') = n_reqs (ms_mod st1)"
proof -
  note stop = stopped_not_acted[OF assms(2)] refused_not_acted[OF assms(2,3)]
  show d: "opt_str (as_domain t) = []" using assms(1,3) stop by (auto simp: maintain_target_def Let_def split: if_splits)
  show m: "may_act_on (ms_mod st1) u t"
    using assms(1,3) stop d by (auto simp: maintain_target_def Let_def split: if_splits)
  have "n_reqs (ms_mod st') = n_reqs (ms_mod st1) \<and> (ms_busy st1 \<longrightarrow> ms_fleet st' = ms_fleet st1)"
    using assms(1,3) stop(1) d m unfolding maintain_target_def Let_def
    by (auto split: if_split_asm dest!: slot_outcome)
  then show "\<not> ms_busy st" "n_reqs (ms_mod st') = n_reqs (ms_mod st1)" using slot_guarded[OF assms(2,3)] by auto
qed

lemma posts_action_guarded:
  assumes "posts_action E q u i fm a ws rep st1 = (reply, st')"
    "target_read E (Rt_report_posts i) st st1 (rp_target rep)" "acted st st'"
  shows "may_act_on (ms_mod st1) u (rp_target rep)" "\<not> ms_busy st" "n_reqs (ms_mod st') = n_reqs (ms_mod st1)"
proof -
  note stop = stopped_not_acted[OF assms(2)] refused_not_acted[OF assms(2,3)]
  show m: "may_act_on (ms_mod st1) u (rp_target rep)"
    using assms(1,3) stop by (auto simp: posts_action_def Let_def split: if_splits)
  have "n_reqs (ms_mod st') = n_reqs (ms_mod st1) \<and> (ms_busy st1 \<longrightarrow> ms_fleet st' = ms_fleet st1)"
    using assms(1,3) stop(1) m unfolding posts_action_def Let_def
    by (auto split: if_split_asm dest!: slot_outcome)
  then show "\<not> ms_busy st" "n_reqs (ms_mod st') = n_reqs (ms_mod st1)" using slot_guarded[OF assms(2,3)] by auto
qed

lemma unchanged_not_acted: "\<not> acted st st" "\<not> acted st (put_mod st (audit E q a b d e (ms_mod st)))"
  by (intro not_acted; simp)+

text \<open>
  C6. Nobody acts on an account he may not act on. When a request to act on an account, to delete one,
  to run account maintenance, or to act on the posts of a report has changed anything on the instance
  or run anything on the server, then the first thing it did was to read the account (or the report)
  from the instance, the user has the moderation permission, and, if the account just read holds a
  staff role, the permission to act on staff; a deletion was made by an administrator, of a suspended
  account; maintenance by a user with that permission, of a local account; and no other server-side
  action was running.
\<close>

theorem targets_guarded:
  assumes "moderation_request E q u r fm st = (reply, st')" "acted st st'"
    "r \<in> {Rt_action i, Rt_delete i, Rt_maintenance i, Rt_report_posts i}"
  shows "\<exists>t st1 rest. target_read E r st st1 t \<and> n_reqs (ms_mod st') = n_reqs (ms_mod st1) @ rest \<and>
    can Can_moderate (mdb (ms_mod st)) u \<and> (as_is_staff t \<longrightarrow> can Can_moderate_staff (mdb (ms_mod st)) u) \<and>
    (r = Rt_delete i \<longrightarrow> is_admin (mdb (ms_mod st)) u \<and> as_suspended t) \<and>
    (r = Rt_maintenance i \<longrightarrow> can Can_maintain_mastodon_accounts (mdb (ms_mod st)) u \<and> opt_str (as_domain t) = []) \<and>
    (r \<in> {Rt_maintenance i, Rt_report_posts i} \<longrightarrow> \<not> ms_busy st)"
proof -
  have pass: "require_login (mdb (ms_mod st)) u r = None"
    using assms(1,2) unchanged_not_acted(1) by (auto simp: moderation_request_def split: option.splits)
  then have run: "run_route E q u r fm st = (reply, st')" and mod: "can Can_moderate (mdb (ms_mod st)) u"
    and adm: "admin_only r \<Longrightarrow> is_admin (mdb (ms_mod st)) u"
    using assms(1) by (auto simp: moderation_request_def require_login_def split: if_splits)
  have staff: "as_is_staff t \<longrightarrow> can Can_moderate_staff (mdb (ms_mod st)) u"
    if "target_read E r st st1 t" "may_act_on (ms_mod st1) u t" for t st1
    using that by (auto simp: may_act_on_def target_read_def)
  consider (act) "r = Rt_action i" | (del) "r = Rt_delete i" | (main) "r = Rt_maintenance i" | (posts) "r = Rt_report_posts i"
    using assms(3) by auto
  then show ?thesis
  proof cases
    case act
    then obtain t st1 ty acct tx rid nf where t: "target_read E r st st1 t"
      "act_on_target E q u i ty acct tx rid nf t st1 = (reply, st')"
      using run assms(2) unchanged_not_acted(1)
      by (auto simp: account_action_route_def Let_def split: if_splits elim!: with_target_acted[where r = r])
    note g = action_guarded[OF t(2) t(1)[unfolded act] assms(2)]
    show ?thesis using act t(1) mod g staff[OF t(1) g(1)] by auto
  next
    case del
    then obtain t st1 acct where t: "target_read E r st st1 t" "delete_target E q u i acct t st1 = (reply, st')"
      using run assms(2) unchanged_not_acted(1)
      by (auto simp: account_delete_route_def Let_def split: if_splits elim!: with_target_acted[where r = r])
    note g = delete_guarded[OF t(2) t(1)[unfolded del] assms(2)]
    show ?thesis using del t(1) mod adm g staff[OF t(1) g(2)] by auto
  next
    case main
    then have perm: "can Can_maintain_mastodon_accounts (mdb (ms_mod st)) u"
      using run assms(2) unchanged_not_acted by (auto simp: account_maintenance_def Let_def split: if_splits)
    obtain t st1 action acct email confirm where t: "target_read E r st st1 t"
      "maintain_target E q u i action acct email confirm t st1 = (reply, st')"
      using main run assms(2) unchanged_not_acted
      by (auto simp: account_maintenance_def Let_def split: if_splits elim!: with_target_acted[where r = r])
    note g = maintain_target_guarded[OF t(2) t(1)[unfolded main] assms(2)]
    show ?thesis
      by (intro exI[of _ t] exI[of _ st1] exI[of _ "[]"]) (use main t(1) mod perm g staff[OF t(1) g(2)] in auto)
  next
    case posts
    then have "report_posts E q u i fm st = (reply, st')" using run by simp
    then show ?thesis
    proof (rule posts_acted[OF _ assms(2)])
      fix rep st1 a ws
      assume t: "target_read E (Rt_report_posts i) st st1 (rp_target rep)" "posts_action E q u i fm a ws rep st1 = (reply, st')"
      note g = posts_action_guarded[OF t(2,1) assms(2)]
      show ?thesis
        by (intro exI[of _ "rp_target rep"] exI[of _ st1] exI[of _ "[]"])
          (use posts t(1) mod g staff[OF _ g(1)] in auto)
    qed
  qed
qed

definition sample_role :: role where
  "sample_role = \<lparr>r_id = 1, r_name = ''mods'', r_display_name = ''Mods'', r_level = 3, r_is_builtin = False,
     r_base_tier = None, r_perms = [Can_moderate]\<rparr>"

definition sample_user :: user where
  "sample_user = \<lparr>u_id = 7, u_username = ''mia'', u_display_name = None, u_password_hash = [], u_role_id = 1,
     u_created_via = ''local'', u_is_active_user = True, u_timezone = None, u_last_login_at = None,
     u_tokens_valid_after = None, u_must_change_password = False, u_allowed_tags = []\<rparr>"

definition sample_site :: mod_site where
  "sample_site = \<lparr>ms_mod = sample_moderation\<lparr>m_app := sample_app\<lparr>a_db := empty_db
       \<lparr>d_roles := [sample_role], d_users := [sample_user],
        d_settings := [(''moderation_mastodon_api_url'', ''https://m.example''), (''moderation_mastodon_api_token'', ''t'')]\<rparr>\<rparr>\<rparr>,
     ms_fleet = \<lparr>f_app = sample_app, f_guests = [], f_credentials = [], f_windows = [], f_updates = [], f_scans = [],
       f_history = [], f_services = [], f_ops = [], f_alerts = []\<rparr>,
     ms_busy = False, ms_polling = False, ms_minutes = 5\<rparr>"

definition sample_env :: mod_env where
  "sample_env = \<lparr>me_web = (linking_web [])\<lparr>wb_http := \<lambda>_. Json_Answer
         (P_Item (It_Account (no_account\<lparr>ad_suspended := True, ad_username := ''spam''\<rparr>))) no_headers\<rparr>,
     me_remote = \<lparr>rm_connect = \<lambda>_. None, rm_ssh = \<lambda>_. Inr ([], [], 0), rm_ssh_stream = \<lambda>_. ([], Inr 0),
       rm_guests = \<lambda>_. Inr [], rm_find_node = \<lambda>_. Inr [], rm_agent = \<lambda>_. Inr (None, None),
       rm_agent_stream = \<lambda>_. ([], Inr None), rm_now = \<lambda>_. 0\<rparr>,
     me_decrypt = Some, me_encrypt = (\<lambda>x. x), me_loads = (\<lambda>_. None)\<rparr>"

definition sample_form :: mod_form where
  "sample_form = \<lparr>rf_fields = [(''acct'', ''spam''), (''confirm'', ''spam'')], rf_status_ids = []\<rparr>"

theorem targets_guarded_witness:
  "\<exists>t st1. target_read sample_env (Rt_delete 5) sample_site st1 t \<and> as_suspended t \<and> \<not> as_is_staff t"
proof -
  let ?out = "moderation_request sample_env sample_ctx sample_user (Rt_delete 5) sample_form sample_site"
  have "acted sample_site (snd ?out)" by code_simp
  moreover have "\<not> can Can_moderate_staff (mdb (ms_mod sample_site)) sample_user" by code_simp
  ultimately show ?thesis
    using targets_guarded[of sample_env sample_ctx sample_user "Rt_delete 5" sample_form sample_site "fst ?out" "snd ?out" 5]
    by auto
qed

end
