(* ===== verification/Peertube_Check.thy ===== *)
theory Peertube_Check
  imports Mastodon_Maintenance Moderation_Safety
begin

text \<open>
  The comparison of PeerTube users with the e-mail addresses of the Mastodon instance
  (\<^verbatim>\<open>src/core/moderation.py\<close>), which may ban the users it does not find, the job that runs it and its
  log (\<^verbatim>\<open>src/routes/moderation.py\<close>), and the scheduled run (\<^verbatim>\<open>src/core/scheduler.py\<close>).

  PeerTube is a function from the requests sent so far to an answer, the Mastodon database the
  \<open>remote\<close> of \<open>Patching\<close>. An exception nobody catches ends the check; where it escapes is a constructor
  of \<open>crash\<close>, its text a parameter, as are Python's \<^verbatim>\<open>str\<close>, \<^verbatim>\<open>repr\<close> and \<^verbatim>\<open>json.dumps\<close> of decoded values.
\<close>

section \<open>State\<close>

record pt_request =
  pq_method :: string
  pq_url :: string
  pq_token :: string
  pq_reason :: "string option"

text \<open>
  A reply with its status and body (decoded, or the text of the decoder's error), an HTTP error with
  its reason (redirects are not followed and are such errors), or a failed connection with its text.
\<close>

datatype pt_answer =
    Pt_Reply nat "string + json"
  | Pt_Error nat string
  | Pt_Down string

datatype crash = Bad_Guest_Id string | Guest_Id_Overflow int | Secret_Error | Bad_Page json

record peertube =
  pt_http :: "pt_request list \<Rightarrow> pt_answer"
  pt_decrypt :: "string \<Rightarrow> string option"
  pt_now_iso :: "pt_request list \<Rightarrow> string"
  pt_str :: "json \<Rightarrow> string"
  pt_repr :: "json \<Rightarrow> string"
  pt_dumps :: "json \<Rightarrow> string"
  pt_crash_text :: "crash \<Rightarrow> string"

record check =
  ck_fleet :: fleet
  ck_reqs :: "pt_request list"
  ck_log :: "string list"

type_synonym 'a cio = "(crash, check, 'a) run"

definition say :: "string \<Rightarrow> check \<Rightarrow> check" where
  "say m st = st\<lparr>ck_log := ck_log st @ [m]\<rparr>"

definition ck_db :: "check \<Rightarrow> db" where "ck_db st = a_db (f_app (ck_fleet st))"

definition ck_set :: "string \<Rightarrow> string \<Rightarrow> check \<Rightarrow> check" where
  "ck_set k v st =
     (let f = ck_fleet st; a = f_app f in
      st\<lparr>ck_fleet := f\<lparr>f_app := a\<lparr>a_db := setting_set k v (a_db a)\<rparr>\<rparr>\<rparr>)"

section \<open>The addresses known to Mastodon\<close>

definition build_mastodon_email_query_cmd :: "string \<Rightarrow> string \<Rightarrow> string" where
  "build_mastodon_email_query_cmd db_name query =
     ''printf '' @ ruby_str ''%s'' @ '' '' @ ruby_str (b64encode (utf8 query)) @ '' | base64 -d'' @
     '' | su - postgres -c '' @ ruby_str (''psql -d '' @ db_name @ '' -t -A -v ON_ERROR_STOP=1 -f -'')"

definition EMAIL_QUERY :: string where
  "EMAIL_QUERY = ''SELECT email FROM users WHERE confirmed_at IS NOT NULL AND disabled = false AND suspended_at IS NULL''"

definition email_set :: "string \<Rightarrow> string list" where
  "email_set out = remdups (map (\<lambda>l. py_lower (py_strip l))
     (filter (\<lambda>l. py_strip l \<noteq> []) (py_split CHR 0x0A (py_strip out))))"

definition param_error :: "peertube \<Rightarrow> value_error \<Rightarrow> string" where
  "param_error P e = (case e of
       Is_empty l \<Rightarrow> l @ '' is empty''
     | Unsafe_chars l v \<Rightarrow> l @ '' contains unsafe characters: '' @ pt_repr P (JStr v)
     | _ \<Rightarrow> [])"

text \<open>Unlike the other callers, this one does not fall back to the default credential.\<close>

definition linked_credential :: "fleet \<Rightarrow> pguest \<Rightarrow> credential option" where
  "linked_credential f g = Option.bind (pg_credential g) (\<lambda>i. first_row (\<lambda>c. cr_id c = i) (f_credentials f))"

definition query_emails :: "peertube \<Rightarrow> remote \<Rightarrow> pguest \<Rightarrow> check \<Rightarrow> (string + string list) \<times> check" where
  "query_emails P R g st =
     (let f = ck_fleet st; name = g_name g in
      if pg_ip g = [] then (Inl (''Mastodon DB guest '' @ ruby_str name @ '' has no IP address''), st)
      else case linked_credential f g of
             None \<Rightarrow> (Inl (''Mastodon DB guest '' @ ruby_str name @ '' has no SSH credential''), st)
           | Some c \<Rightarrow>
               let db_name = setting_get (ck_db st) ''mastodon_db_name'' ''mastodon_production'' in
               case validate_shell_param db_name ''Database name'' of
                 Inl e \<Rightarrow> (Inl (param_error P e), st)
               | Inr _ \<Rightarrow>
                   (case rbind (ssh_open R (pg_ip g) c)
                           (\<lambda>_. ssh_execute_sudo R (pg_ip g) (build_mastodon_email_query_cmd db_name EMAIL_QUERY) 30) f of
                      (Inl e, f1) \<Rightarrow> (Inl (''SSH error querying Mastodon DB: '' @ x_str e), st\<lparr>ck_fleet := f1\<rparr>)
                    | (Inr (out, err, rc), f1) \<Rightarrow>
                        (if rc \<noteq> 0 then Inl (''psql query failed (exit '' @ py_str_int rc @ ''): '' @ py_strip err)
                         else Inr (email_set out), st\<lparr>ck_fleet := f1\<rparr>)))"

definition fetch_mastodon_emails :: "peertube \<Rightarrow> remote \<Rightarrow> (string + string list) cio" where
  "fetch_mastodon_emails P R st =
     (let gid = setting_get (ck_db st) ''mastodon_db_guest_id'' [] in
      if gid = [] then (Inr (Inl ''Mastodon DB guest not configured (mastodon_db_guest_id)''), st)
      else case py_int gid of
             None \<Rightarrow> (Inl (Bad_Guest_Id gid), st)
           | Some i \<Rightarrow>
               if i < - (2 ^ 63) \<or> i \<ge> 2 ^ 63 then (Inl (Guest_Id_Overflow i), st)
               else case get_pguest (ck_fleet st) i of
                      None \<Rightarrow> (Inr (Inl (''Mastodon DB guest (id='' @ gid @ '') not found'')), st)
                    | Some g \<Rightarrow> (let (r, st1) = query_emails P R g st in (Inr r, st1)))"

section \<open>The users of PeerTube\<close>

record pt_user =
  pu_id :: json
  pu_username :: json
  pu_email :: string
  pu_role :: json

definition role_id :: "(string \<times> json) list \<Rightarrow> json option" where
  "role_id u = (case map_of u ''role'' of
       None \<Rightarrow> Some (JInt 2)
     | Some (JDict r) \<Rightarrow> Some (case map_of r ''id'' of None \<Rightarrow> JInt 2 | Some v \<Rightarrow> v)
     | Some v \<Rightarrow> map_option JInt (json_to_int v))"

definition user_email :: "(string \<times> json) list \<Rightarrow> string option" where
  "user_email u = (case map_of u ''email'' of
       None \<Rightarrow> Some []
     | Some (JStr e) \<Rightarrow> Some (py_lower e)
     | Some _ \<Rightarrow> None)"

definition read_user :: "json \<Rightarrow> pt_user option" where
  "read_user j = (case j of
       JDict u \<Rightarrow>
         (case (role_id u, map_of u ''id'', user_email u) of
            (Some r, Some i, Some e) \<Rightarrow>
              Some \<lparr>pu_id = i, pu_username = (case map_of u ''username'' of None \<Rightarrow> JStr [] | Some n \<Rightarrow> n),
                    pu_email = e, pu_role = r\<rparr>
          | _ \<Rightarrow> None)
     | _ \<Rightarrow> None)"

fun read_users :: "json list \<Rightarrow> pt_user list option" where
  "read_users [] = Some []"
| "read_users (j # js) = Option.bind (read_user j) (\<lambda>u. map_option ((#) u) (read_users js))"

text \<open>The objects a value iterates over; anything else makes the loop raise.\<close>

definition page_items :: "json \<Rightarrow> json list option" where
  "page_items j = (case j of JList xs \<Rightarrow> Some xs | JDict [] \<Rightarrow> Some [] | JStr [] \<Rightarrow> Some [] | _ \<Rightarrow> None)"

definition page_total :: "json \<Rightarrow> int option" where
  "page_total j = (case j of JInt n \<Rightarrow> Some n | JBool b \<Rightarrow> Some (if b then 1 else 0) | _ \<Rightarrow> None)"

definition read_page :: "json \<Rightarrow> (pt_user list \<times> int) option" where
  "read_page j = (case j of
       JDict d \<Rightarrow>
         Option.bind (Option.bind (page_items (case map_of d ''data'' of None \<Rightarrow> JList [] | Some v \<Rightarrow> v)) read_users) (\<lambda>us.
         Option.bind (page_total (case map_of d ''total'' of None \<Rightarrow> JInt 0 | Some v \<Rightarrow> v)) (\<lambda>n. Some (us, n)))
     | _ \<Rightarrow> None)"

definition MAX_PEERTUBE_PAGES :: nat where "MAX_PEERTUBE_PAGES = 1000"
definition PAGE_COUNT :: nat where "PAGE_COUNT = 100"

definition users_request :: "string \<Rightarrow> string \<Rightarrow> nat \<Rightarrow> pt_request" where
  "users_request api_url secret start =
     \<lparr>pq_method = ''GET'',
      pq_url = api_url @ ''/api/v1/users?start='' @ nat_digits start @ ''&count='' @ nat_digits PAGE_COUNT @ ''&sort=createdAt'',
      pq_token = secret, pq_reason = None\<rparr>"

definition send :: "peertube \<Rightarrow> pt_request \<Rightarrow> check \<Rightarrow> pt_answer \<times> check" where
  "send P r st = (let reqs = ck_reqs st @ [r] in (pt_http P reqs, st\<lparr>ck_reqs := reqs\<rparr>))"

definition redirect_error :: "nat \<Rightarrow> string" where
  "redirect_error st = ''PeerTube API answered with a redirect (HTTP '' @ nat_digits st @ ''); not following it''"

text \<open>The loop over the pages; the first argument is the number of pages still allowed.\<close>

fun fetch_pages :: "nat \<Rightarrow> peertube \<Rightarrow> string \<Rightarrow> string \<Rightarrow> nat \<Rightarrow> pt_user list \<Rightarrow> (string + pt_user list) cio" where
  "fetch_pages 0 P api_url secret start users st = (Inr (Inr users), st)"
| "fetch_pages (Suc n) P api_url secret start users st =
     (case send P (users_request api_url secret start) st of
        (Pt_Error rc reason, st1) \<Rightarrow>
          (Inr (Inl (if is_redirect rc then redirect_error rc
                     else ''PeerTube API error: HTTP '' @ nat_digits rc @ '' - '' @ reason)), st1)
      | (Pt_Down m, st1) \<Rightarrow> (Inr (Inl (''PeerTube API error: '' @ m)), st1)
      | (Pt_Reply _ (Inl m), st1) \<Rightarrow> (Inr (Inl (''PeerTube API error: '' @ m)), st1)
      | (Pt_Reply _ (Inr data), st1) \<Rightarrow>
          (case read_page data of
             None \<Rightarrow> (Inl (Bad_Page data), st1)
           | Some (us, count) \<Rightarrow>
               if int (start + PAGE_COUNT) \<ge> count \<or> us = [] then (Inr (Inr (users @ us)), st1)
               else fetch_pages n P api_url secret (start + PAGE_COUNT) (users @ us) st1))"

definition fetch_peertube_users :: "peertube \<Rightarrow> string \<Rightarrow> string \<Rightarrow> (string + pt_user list) cio" where
  "fetch_peertube_users P api_url secret =
     fetch_pages MAX_PEERTUBE_PAGES P (rstrip_char CHR ''/'' api_url) secret 0 []"

definition ban_request :: "string \<Rightarrow> string \<Rightarrow> int \<Rightarrow> string \<Rightarrow> pt_request" where
  "ban_request api_url secret i reason =
     \<lparr>pq_method = ''POST'', pq_url = rstrip_char CHR ''/'' api_url @ ''/api/v1/users/'' @ py_str_int i @ ''/block'',
      pq_token = secret, pq_reason = Some reason\<rparr>"

text \<open>\<^term>\<open>None\<close> is success, otherwise the error.\<close>

definition ban_peertube_user :: "peertube \<Rightarrow> string \<Rightarrow> string \<Rightarrow> json \<Rightarrow> string \<Rightarrow> check \<Rightarrow> string option \<times> check" where
  "ban_peertube_user P api_url secret user_id reason st =
     (case json_to_int user_id of
        None \<Rightarrow> (Some (''Invalid PeerTube user id: '' @ pt_repr P user_id), st)
      | Some i \<Rightarrow>
          (case send P (ban_request api_url secret i reason) st of
             (Pt_Reply rc _, st1) \<Rightarrow>
               (if rc = 200 \<or> rc = 204 then None else Some (''Unexpected status '' @ nat_digits rc), st1)
           | (Pt_Error rc why, st1) \<Rightarrow>
               (Some (if is_redirect rc then redirect_error rc else ''HTTP '' @ nat_digits rc @ '': '' @ why), st1)
           | (Pt_Down m, st1) \<Rightarrow> (Some m, st1)))"

section \<open>The check\<close>

record pt_entry =
  pe_id :: json
  pe_username :: json
  pe_email :: string
  pe_banned :: bool

record pt_result =
  rs_peertube_users :: nat
  rs_mastodon_emails :: nat
  rs_matched :: nat
  rs_unmatched :: "pt_entry list"
  rs_skipped_admins :: nat
  rs_errors :: "string list"

definition empty_check :: pt_result where
  "empty_check = \<lparr>rs_peertube_users = 0, rs_mastodon_emails = 0, rs_matched = 0, rs_unmatched = [],
     rs_skipped_admins = 0, rs_errors = []\<rparr>"

definition BAN_REASON :: string where "BAN_REASON = ''Email not registered on Mastodon instance''"

text \<open>\<^verbatim>\<open>role in (0, 1)\<close>; Python's truth values are these numbers.\<close>

definition is_pt_staff :: "json \<Rightarrow> bool" where
  "is_pt_staff r = (case r of JInt i \<Rightarrow> i = 0 \<or> i = 1 | JBool _ \<Rightarrow> True | _ \<Rightarrow> False)"

definition named :: "peertube \<Rightarrow> pt_user \<Rightarrow> string" where
  "named P u = CHR 0x27 # pt_str P (pu_username u) @ CHR 0x27 # '' (id='' @ pt_str P (pu_id u) @ '')''"

definition unmatched_entry :: "pt_user \<Rightarrow> bool \<Rightarrow> pt_entry" where
  "unmatched_entry u banned =
     \<lparr>pe_id = pu_id u, pe_username = pu_username u, pe_email = pu_email u, pe_banned = banned\<rparr>"

definition check_user ::
  "peertube \<Rightarrow> string \<Rightarrow> string \<Rightarrow> bool \<Rightarrow> string list \<Rightarrow> pt_user \<Rightarrow> pt_result \<times> check \<Rightarrow> pt_result \<times> check" where
  "check_user P api_url secret auto_ban emails u = (\<lambda>(r, st).
     if is_pt_staff (pu_role u) then (r\<lparr>rs_skipped_admins := Suc (rs_skipped_admins r)\<rparr>, st)
     else if List.member emails (pu_email u) then (r\<lparr>rs_matched := Suc (rs_matched r)\<rparr>, st)
     else if auto_ban then
       let st1 = say (''Banning PeerTube user '' @ named P u @ '' - not in Mastodon DB'') st in
       (case ban_peertube_user P api_url secret (pu_id u) BAN_REASON st1 of
          (None, st2) \<Rightarrow> (r\<lparr>rs_unmatched := rs_unmatched r @ [unmatched_entry u True]\<rparr>, st2)
        | (Some e, st2) \<Rightarrow>
            (r\<lparr>rs_errors := rs_errors r @ [''Failed to ban '' @ pt_str P (pu_username u) @ '': '' @ e],
               rs_unmatched := rs_unmatched r @ [unmatched_entry u False]\<rparr>,
             say (''  WARNING: Ban failed: '' @ e) st2))
     else
       (r\<lparr>rs_unmatched := rs_unmatched r @ [unmatched_entry u False]\<rparr>,
        say (''Unmatched PeerTube user: '' @ named P u) st))"

text \<open>The stored copy of a result: no addresses.\<close>

definition scrub_result_for_storage :: "pt_result \<Rightarrow> json" where
  "scrub_result_for_storage r =
     JDict [(''total_peertube_users'', JInt (int (rs_peertube_users r))),
            (''total_mastodon_emails'', JInt (int (rs_mastodon_emails r))),
            (''matched'', JInt (int (rs_matched r))),
            (''unmatched'', JList (map (\<lambda>e. JDict [(''id'', pe_id e), (''username'', pe_username e),
                                                (''banned'', JBool (pe_banned e))]) (rs_unmatched r))),
            (''skipped_admins'', JInt (int (rs_skipped_admins r))),
            (''errors'', JList (map JStr (rs_errors r)))]"

definition store_check :: "peertube \<Rightarrow> req_ctx \<Rightarrow> bool \<Rightarrow> pt_result \<Rightarrow> check \<Rightarrow> check" where
  "store_check P q auto_ban r st =
     (let st1 = ck_set ''moderation_last_check_at'' (pt_now_iso P (ck_reqs st)) st;
          st2 = ck_set ''moderation_last_check_result'' (pt_dumps P (scrub_result_for_storage r)) st1;
          f = ck_fleet st2
      in st2\<lparr>ck_fleet := f\<lparr>f_app := log_action q (entry ''moderation_check'' ''moderation'' None None
           (JDict [(''matched'', JInt (int (rs_matched r))), (''unmatched'', JInt (int (length (rs_unmatched r)))),
                   (''auto_ban'', JBool auto_ban)])) (f_app f)\<rparr>\<rparr>)"

text \<open>What follows once both sides are read.\<close>

definition compare_and_store ::
  "peertube \<Rightarrow> req_ctx \<Rightarrow> string \<Rightarrow> string \<Rightarrow> bool \<Rightarrow> string list \<Rightarrow> pt_user list \<Rightarrow> check \<Rightarrow> pt_result \<times> check" where
  "compare_and_store P q api_url secret auto_ban emails users st =
     (let r0 = empty_check\<lparr>rs_mastodon_emails := length emails, rs_peertube_users := length users\<rparr>;
          st0 = say (''Found '' @ nat_digits (length users) @ '' PeerTube user(s)'') st;
          (r, st1) = fold (check_user P api_url secret auto_ban emails) users (r0, st0);
          st2 = say (''Check complete: '' @ nat_digits (rs_matched r) @ '' matched, '' @
                     nat_digits (length (rs_unmatched r)) @ '' unmatched, '' @
                     nat_digits (rs_skipped_admins r) @ '' admin(s) skipped'') st1
      in (r, store_check P q auto_ban r st2))"

definition failed_check :: "pt_result \<Rightarrow> string \<Rightarrow> check \<Rightarrow> (crash + bool \<times> pt_result) \<times> check" where
  "failed_check r m st = (Inr (False, r\<lparr>rs_errors := rs_errors r @ [m]\<rparr>), say (''ERROR: '' @ m) st)"

definition read_and_compare ::
  "peertube \<Rightarrow> remote \<Rightarrow> req_ctx \<Rightarrow> string \<Rightarrow> string \<Rightarrow> bool \<Rightarrow> (bool \<times> pt_result) cio" where
  "read_and_compare P R q api_url secret auto_ban st =
     (case fetch_mastodon_emails P R (say ''Fetching Mastodon user emails...'' st) of
        (Inl x, st1) \<Rightarrow> (Inl x, st1)
      | (Inr (Inl m), st1) \<Rightarrow> failed_check empty_check m st1
      | (Inr (Inr emails), st1) \<Rightarrow>
          (let r1 = empty_check\<lparr>rs_mastodon_emails := length emails\<rparr>;
               st2 = say (''Found '' @ nat_digits (length emails) @ '' active Mastodon email(s)'') st1 in
           if auto_ban \<and> emails = []
           then failed_check r1 ''Refusing to auto-ban: the Mastodon email set is empty'' st2
           else case fetch_peertube_users P api_url secret (say ''Fetching PeerTube users...'' st2) of
                  (Inl x, st3) \<Rightarrow> (Inl x, st3)
                | (Inr (Inl m), st3) \<Rightarrow> failed_check r1 m st3
                | (Inr (Inr users), st3) \<Rightarrow>
                    (let (r, st4) = compare_and_store P q api_url secret auto_ban emails users st3 in (Inr (True, r), st4))))"

definition run_moderation_check :: "peertube \<Rightarrow> remote \<Rightarrow> req_ctx \<Rightarrow> (bool \<times> pt_result) cio" where
  "run_moderation_check P R q st =
     (let d = ck_db st;
          api_url = setting_get d ''moderation_peertube_api_url'' [];
          api_token = setting_get d ''moderation_peertube_api_token'' [];
          auto_ban = (setting_get d ''moderation_auto_ban_enabled'' ''false'' = ''true'') in
      if api_url = [] \<or> api_token = [] then failed_check empty_check ''PeerTube API URL or token not configured'' st
      else case pt_decrypt P api_token of
             None \<Rightarrow> (Inl Secret_Error, st)
           | Some secret \<Rightarrow>
               if secret = [] then failed_check empty_check ''Failed to decrypt PeerTube API token'' st
               else read_and_compare P R q api_url secret auto_ban st)"

text \<open>The scheduled run: only when PeerTube is configured.\<close>

definition scheduled_moderation_check :: "peertube \<Rightarrow> remote \<Rightarrow> req_ctx \<Rightarrow> check \<Rightarrow> check" where
  "scheduled_moderation_check P R q st =
     (if setting_get (ck_db st) ''moderation_peertube_api_url'' [] = [] \<or>
         setting_get (ck_db st) ''moderation_peertube_api_token'' [] = []
      then st else snd (run_moderation_check P R q st))"

section \<open>The job and its log\<close>

definition MODERATION_LOG_MAXLEN :: nat where "MODERATION_LOG_MAXLEN = 2000"

record mod_job =
  mj_running :: bool
  mj_success :: "bool option"
  mj_log :: "string list"
  mj_log_total :: nat
  mj_result :: "pt_result option"

definition append_moderation_log :: "string \<Rightarrow> mod_job \<Rightarrow> mod_job" where
  "append_moderation_log m j =
     (let l = mj_log j @ [m] in
      j\<lparr>mj_log := drop (length l - MODERATION_LOG_MAXLEN) l, mj_log_total := Suc (mj_log_total j)\<rparr>)"

text \<open>The claim of the slot by a request to run; \<^term>\<open>False\<close> says that a check is running.\<close>

definition moderation_run :: "mod_job \<Rightarrow> bool \<times> mod_job" where
  "moderation_run j =
     (if mj_running j then (False, j)
      else (True, j\<lparr>mj_running := True, mj_success := None, mj_log := [], mj_log_total := 0\<rparr>))"

definition moderation_worker :: "peertube \<Rightarrow> remote \<Rightarrow> req_ctx \<Rightarrow> mod_job \<times> check \<Rightarrow> mod_job \<times> check" where
  "moderation_worker P R q = (\<lambda>(j, st).
     let (r, st1) = run_moderation_check P R q (st\<lparr>ck_log := []\<rparr>);
         j1 = fold append_moderation_log (ck_log st1) j
     in (case r of
           Inr (ok, res) \<Rightarrow> j1\<lparr>mj_success := Some ok, mj_result := (if ok then Some res else None), mj_running := False\<rparr>
         | Inl x \<Rightarrow> (append_moderation_log (''ERROR: '' @ pt_crash_text P x) j1)\<lparr>mj_success := Some False, mj_running := False\<rparr>,
         st1))"

text \<open>What a poll of the status gets: the lines from an offset on, and the next offset.\<close>

definition moderation_status :: "int \<Rightarrow> mod_job \<Rightarrow> string list \<times> int" where
  "moderation_status offset j =
     (let offset = max 0 offset; first_index = int (mj_log_total j) - int (length (mj_log j)) in
      (if offset < first_index then mj_log j else drop (nat (offset - first_index)) (mj_log j), int (mj_log_total j)))"

section \<open>Reading the users ends\<close>

lemma fetch_pages_requests:
  assumes "fetch_pages n P api_url secret start users st = (r, st')"
  shows "ck_fleet st' = ck_fleet st \<and> ck_log st' = ck_log st \<and>
    (\<exists>k \<le> n. ck_reqs st' = ck_reqs st @ map (\<lambda>i. users_request api_url secret (start + PAGE_COUNT * i)) [0..<k])"
  using assms
proof (induction n arbitrary: start users st)
  case (Suc n)
  let ?st1 = "st\<lparr>ck_reqs := ck_reqs st @ [users_request api_url secret start]\<rparr>"
  consider (stop) "st' = ?st1"
    | (more) us where "fetch_pages n P api_url secret (start + PAGE_COUNT) us ?st1 = (r, st')"
    using Suc.prems by (auto simp: send_def Let_def split: pt_answer.splits sum.splits option.splits if_splits prod.splits)
  then show ?case
  proof cases
    case stop
    then show ?thesis by (intro conjI exI[of _ 1]) simp_all
  next
    case more
    obtain k where k: "k \<le> n" "ck_reqs st' = ck_reqs ?st1 @ map (\<lambda>i. users_request api_url secret (start + PAGE_COUNT + PAGE_COUNT * i)) [0..<k]"
      and rest: "ck_fleet st' = ck_fleet st" "ck_log st' = ck_log st"
      using Suc.IH[OF more] by auto
    have "map (\<lambda>i. users_request api_url secret (start + PAGE_COUNT * i)) [0..<Suc k] =
        users_request api_url secret start # map (\<lambda>i. users_request api_url secret (start + PAGE_COUNT + PAGE_COUNT * i)) [0..<k]"
      by (simp add: upt_conv_Cons map_Suc_upt[symmetric] algebra_simps del: upt_Suc)
    then show ?thesis using k rest by (intro conjI exI[of _ "Suc k"]) simp_all
  qed
qed simp

text \<open>
  C35. Reading the PeerTube users ends: whatever the server answers, a total that keeps growing or pages
  that never run out included, at most a thousand requests are sent, one for each page in order.
\<close>

theorem peertube_listing_ends:
  "\<exists>k \<le> 1000. ck_reqs (snd (fetch_peertube_users P api_url secret st)) =
     ck_reqs st @ map (\<lambda>i. users_request (rstrip_char CHR ''/'' api_url) secret (100 * i)) [0..<k]"
proof -
  obtain r st' where "fetch_pages MAX_PEERTUBE_PAGES P (rstrip_char CHR ''/'' api_url) secret 0 [] st = (r, st')" by fastforce
  then show ?thesis
    using fetch_pages_requests[of MAX_PEERTUBE_PAGES P _ secret 0 "[]" st r st']
    by (auto simp: fetch_peertube_users_def MAX_PEERTUBE_PAGES_def PAGE_COUNT_def)
qed

section \<open>Whom a check bans\<close>

definition is_ban :: "pt_request \<Rightarrow> bool" where "is_ban p \<longleftrightarrow> pq_method p = ''POST''"

text \<open>Staff of the PeerTube instance, and users whose address Mastodon knows.\<close>

definition spared :: "string list \<Rightarrow> pt_user \<Rightarrow> bool" where
  "spared emails u \<longleftrightarrow> is_pt_staff (pu_role u) \<or> pu_email u \<in> set emails"

definition ban_of :: "string \<Rightarrow> string \<Rightarrow> pt_user \<Rightarrow> pt_request option" where
  "ban_of api_url secret u = map_option (\<lambda>i. ban_request api_url secret i BAN_REASON) (json_to_int (pu_id u))"

definition reported :: "pt_user \<Rightarrow> json \<times> json \<times> string" where
  "reported u = (pu_id u, pu_username u, pu_email u)"

lemma say_frame [simp]:
  "ck_reqs (say m st) = ck_reqs st" "ck_fleet (say m st) = ck_fleet st" "ck_db (say m st) = ck_db st"
  by (simp_all add: say_def ck_db_def)

lemma ban_effect:
  assumes "ban_peertube_user P api_url secret i reason st = (e, st')"
  shows "ck_reqs st' = ck_reqs st @ (case json_to_int i of None \<Rightarrow> [] | Some n \<Rightarrow> [ban_request api_url secret n reason])"
  using assms by (auto simp: ban_peertube_user_def send_def Let_def split: option.splits pt_answer.splits)

lemma check_users_effect:
  assumes "fold (check_user P api_url secret auto_ban emails) users (r, st) = (r', st')"
  shows "ck_reqs st' = ck_reqs st @
           (if auto_ban then List.map_filter (ban_of api_url secret) (filter (\<lambda>u. \<not> spared emails u) users) else []) \<and>
    rs_matched r' = rs_matched r + length (filter (\<lambda>u. \<not> is_pt_staff (pu_role u) \<and> pu_email u \<in> set emails) users) \<and>
    map (\<lambda>e. (pe_id e, pe_username e, pe_email e)) (rs_unmatched r') =
      map (\<lambda>e. (pe_id e, pe_username e, pe_email e)) (rs_unmatched r) @ map reported (filter (\<lambda>u. \<not> spared emails u) users)"
  using assms
proof (induction users arbitrary: r st)
  case (Cons u users)
  obtain r1 st1 where u: "check_user P api_url secret auto_ban emails u (r, st) = (r1, st1)" by fastforce
  have reqs: "ck_reqs st1 = ck_reqs st @ (if auto_ban \<and> \<not> spared emails u then List.map_filter (ban_of api_url secret) [u] else [])"
    using u by (auto simp: check_user_def Let_def spared_def ban_of_def map_filter_def
        split: if_splits prod.splits option.splits dest!: ban_effect)
  have res: "rs_matched r1 = rs_matched r + (if \<not> is_pt_staff (pu_role u) \<and> pu_email u \<in> set emails then 1 else 0)"
    "map (\<lambda>e. (pe_id e, pe_username e, pe_email e)) (rs_unmatched r1) =
       map (\<lambda>e. (pe_id e, pe_username e, pe_email e)) (rs_unmatched r) @ (if spared emails u then [] else [reported u])"
    using u by (auto simp: check_user_def Let_def spared_def reported_def unmatched_entry_def
        split: if_splits prod.splits option.splits)
  have "fold (check_user P api_url secret auto_ban emails) users (r1, st1) = (r', st')" using Cons.prems u by simp
  from Cons.IH[OF this] show ?case using reqs res by (auto simp: map_filter_def)
qed (simp_all add: map_filter_def)

lemma store_check_reqs [simp]: "ck_reqs (store_check P q b r st) = ck_reqs st"
  by (simp add: store_check_def ck_set_def Let_def)

lemma fetch_emails_reqs: "fetch_mastodon_emails P R st = (r, st') \<Longrightarrow> ck_reqs st' = ck_reqs st"
  by (auto simp: fetch_mastodon_emails_def query_emails_def Let_def
      split: if_splits option.splits sum.splits prod.splits)

lemma no_bans_in_listing: "filter is_ban (map (\<lambda>i. users_request api_url secret (f i)) xs) = []"
  by (auto simp: filter_empty_conv is_ban_def users_request_def)

lemma bans_are_bans: "filter is_ban (List.map_filter (ban_of api_url secret) us) = List.map_filter (ban_of api_url secret) us"
  by (auto simp: map_filter_def ban_of_def is_ban_def ban_request_def filter_id_conv)

lemma compare_and_store_effect:
  assumes "compare_and_store P q url secret auto emails users st = (r, st')"
  shows "ck_reqs st' = ck_reqs st @
           (if auto then List.map_filter (ban_of url secret) (filter (\<lambda>u. \<not> spared emails u) users) else [])"
    and "rs_matched r = length (filter (\<lambda>u. \<not> is_pt_staff (pu_role u) \<and> pu_email u \<in> set emails) users)"
    and "map (\<lambda>e. (pe_id e, pe_username e, pe_email e)) (rs_unmatched r) = map reported (filter (\<lambda>u. \<not> spared emails u) users)"
proof -
  obtain r1 st1 where f: "fold (check_user P url secret auto emails) users
      (empty_check\<lparr>rs_mastodon_emails := length emails, rs_peertube_users := length users\<rparr>,
       say (''Found '' @ nat_digits (length users) @ '' PeerTube user(s)'') st) = (r1, st1)" by fastforce
  then have "r = r1" "ck_reqs st' = ck_reqs st1"
    using assms by (auto simp: compare_and_store_def Let_def)
  then show "ck_reqs st' = ck_reqs st @
           (if auto then List.map_filter (ban_of url secret) (filter (\<lambda>u. \<not> spared emails u) users) else [])"
    "rs_matched r = length (filter (\<lambda>u. \<not> is_pt_staff (pu_role u) \<and> pu_email u \<in> set emails) users)"
    "map (\<lambda>e. (pe_id e, pe_username e, pe_email e)) (rs_unmatched r) = map reported (filter (\<lambda>u. \<not> spared emails u) users)"
    using check_users_effect[OF f] by (simp_all add: empty_check_def)
qed

lemma listing_adds_no_ban:
  assumes "fetch_peertube_users P url secret st = (r, st')"
  shows "\<exists>qs. ck_reqs st' = ck_reqs st @ qs \<and> filter is_ban qs = []"
  using fetch_pages_requests[OF assms[unfolded fetch_peertube_users_def]] by (auto simp: no_bans_in_listing)

text \<open>What a finished check has read, banned and reported.\<close>

definition checked :: "peertube \<Rightarrow> remote \<Rightarrow> string \<Rightarrow> string \<Rightarrow> bool \<Rightarrow> check \<Rightarrow> pt_request list \<Rightarrow> pt_result \<Rightarrow> bool" where
  "checked P R url secret auto st qs res \<longleftrightarrow> (\<exists>emails st1 users.
     fst (fetch_mastodon_emails P R (say ''Fetching Mastodon user emails...'' st)) = Inr (Inr emails) \<and>
     ck_reqs st1 = ck_reqs st \<and> fst (fetch_peertube_users P url secret st1) = Inr (Inr users) \<and>
     \<not> (auto \<and> emails = []) \<and>
     filter is_ban qs =
       (if auto then List.map_filter (ban_of url secret) (filter (\<lambda>u. \<not> spared emails u) users) else []) \<and>
     map (\<lambda>e. (pe_id e, pe_username e, pe_email e)) (rs_unmatched res) =
       map reported (filter (\<lambda>u. \<not> spared emails u) users) \<and>
     rs_matched res = length (filter (\<lambda>u. \<not> is_pt_staff (pu_role u) \<and> pu_email u \<in> set emails) users))"

lemma read_and_compare_effect:
  assumes "read_and_compare P R q url secret auto st = (r, st')"
  shows "\<exists>qs. ck_reqs st' = ck_reqs st @ qs \<and>
    (case r of Inr (True, res) \<Rightarrow> checked P R url secret auto st qs res | _ \<Rightarrow> filter is_ban qs = [])"
proof -
  obtain re st1 where e: "fetch_mastodon_emails P R (say ''Fetching Mastodon user emails...'' st) = (re, st1)" by fastforce
  have st1: "ck_reqs st1 = ck_reqs st" using fetch_emails_reqs[OF e] by simp
  show ?thesis
  proof (cases "\<exists>emails. re = Inr (Inr emails) \<and> \<not> (auto \<and> emails = [])")
    case False
    then have "ck_reqs st' = ck_reqs st \<and> (\<forall>res. r \<noteq> Inr (True, res))"
      using assms e st1 by (auto simp: read_and_compare_def failed_check_def Let_def split: sum.splits)
    then show ?thesis by (auto split: sum.splits bool.splits prod.splits)
  next
    case True
    then obtain emails where em: "re = Inr (Inr emails)" "\<not> (auto \<and> emails = [])" by blast
    let ?st2 = "say ''Fetching PeerTube users...'' (say (''Found '' @ nat_digits (length emails) @ '' active Mastodon email(s)'') st1)"
    obtain ru st3 where u: "fetch_peertube_users P url secret ?st2 = (ru, st3)" by fastforce
    obtain q1 where q1: "ck_reqs st3 = ck_reqs st @ q1" "filter is_ban q1 = []"
      using listing_adds_no_ban[OF u] st1 by auto
    show ?thesis
    proof (cases "\<exists>users. ru = Inr (Inr users)")
      case False
      then have "ck_reqs st' = ck_reqs st3 \<and> (\<forall>res. r \<noteq> Inr (True, res))"
        using assms e em u by (auto simp: read_and_compare_def failed_check_def Let_def split: sum.splits)
      then show ?thesis using q1 by (auto split: sum.splits bool.splits prod.splits)
    next
      case True
      then obtain users where us: "ru = Inr (Inr users)" by blast
      then obtain res where c: "compare_and_store P q url secret auto emails users st3 = (res, st')" "r = Inr (True, res)"
        using assms e em u by (auto simp: read_and_compare_def Let_def split: prod.splits)
      note eff = compare_and_store_effect[OF c(1)]
      let ?bans = "if auto then List.map_filter (ban_of url secret) (filter (\<lambda>u. \<not> spared emails u) users) else []"
      have "checked P R url secret auto st (q1 @ ?bans) res"
        unfolding checked_def
        by (intro exI[of _ emails] exI[of _ ?st2] exI[of _ users])
           (use e em u us st1 q1 eff(2,3) bans_are_bans in simp)
      then show ?thesis using eff(1) q1(1) c(2) by (intro exI[of _ "q1 @ ?bans"]) simp
    qed
  qed
qed

text \<open>
  C7. A check bans exactly whom it must. A check that does not finish bans nobody. One that finishes
  has read the addresses Mastodon knows and the users of PeerTube; its bans, in order, are one request
  for each user read who is neither staff there nor known to Mastodon, carrying the user's numeric id,
  and there are none unless banning is switched on and Mastodon returned at least one address. The
  report lists the same users and counts the known ones.
\<close>

theorem check_bans_exactly:
  "case run_moderation_check P R q st of (r, st') \<Rightarrow> \<exists>qs. ck_reqs st' = ck_reqs st @ qs \<and>
     (case r of
        Inr (True, res) \<Rightarrow> \<exists>secret.
          pt_decrypt P (setting_get (ck_db st) ''moderation_peertube_api_token'' []) = Some secret \<and>
          checked P R (setting_get (ck_db st) ''moderation_peertube_api_url'' []) secret
            (setting_get (ck_db st) ''moderation_auto_ban_enabled'' ''false'' = ''true'') st qs res
      | _ \<Rightarrow> filter is_ban qs = [])"
proof -
  obtain r st' where run: "run_moderation_check P R q st = (r, st')" by fastforce
  let ?url = "setting_get (ck_db st) ''moderation_peertube_api_url'' []"
    and ?auto = "setting_get (ck_db st) ''moderation_auto_ban_enabled'' ''false'' = ''true''"
    and ?token = "setting_get (ck_db st) ''moderation_peertube_api_token'' []"
  consider (early) "ck_reqs st' = ck_reqs st" "\<forall>res. r \<noteq> Inr (True, res)"
    | (read) secret where "pt_decrypt P ?token = Some secret" "read_and_compare P R q ?url secret ?auto st = (r, st')"
    using run by (auto simp: run_moderation_check_def failed_check_def Let_def split: if_splits option.splits)
  then show ?thesis
  proof cases
    case early
    then show ?thesis using run by (auto split: sum.splits bool.splits prod.splits)
  next
    case read
    from read_and_compare_effect[OF read(2)] obtain qs where "ck_reqs st' = ck_reqs st @ qs"
      "case r of Inr (True, res) \<Rightarrow> checked P R ?url secret ?auto st qs res | _ \<Rightarrow> filter is_ban qs = []" by blast
    then show ?thesis using run read(1) by (auto split: sum.splits bool.splits prod.splits)
  qed
qed

section \<open>What a check keeps\<close>

text \<open>A user as the check may show him: his id and name, and how he fared.\<close>

definition pt_view :: "string list \<Rightarrow> pt_user \<Rightarrow> json \<times> json \<times> bool \<times> bool" where
  "pt_view emails u = (pu_id u, pu_username u, is_pt_staff (pu_role u), pu_email u \<in> set emails)"

definition blank :: "pt_result \<Rightarrow> pt_result" where
  "blank r = r\<lparr>rs_unmatched := map (\<lambda>e. e\<lparr>pe_email := []\<rparr>) (rs_unmatched r)\<rparr>"

lemma blank_eqD:
  assumes "blank r = blank r'"
  shows "scrub_result_for_storage r = scrub_result_for_storage r'" "rs_matched r = rs_matched r'"
    "length (rs_unmatched r) = length (rs_unmatched r')" "rs_skipped_admins r = rs_skipped_admins r'"
proof -
  have scrub: "scrub_result_for_storage (blank t) = scrub_result_for_storage t" "rs_matched (blank t) = rs_matched t"
    "length (rs_unmatched (blank t)) = length (rs_unmatched t)" "rs_skipped_admins (blank t) = rs_skipped_admins t" for t
    by (simp_all add: scrub_result_for_storage_def blank_def comp_def)
  show "scrub_result_for_storage r = scrub_result_for_storage r'" "rs_matched r = rs_matched r'"
    "length (rs_unmatched r) = length (rs_unmatched r')" "rs_skipped_admins r = rs_skipped_admins r'"
    using scrub[of r] scrub[of r'] assms by simp_all
qed

lemma check_user_blind:
  assumes "pt_view emails u = pt_view emails' u'" "blank r = blank r'"
    and "check_user P url secret auto emails u (r, st) = (r1, st1)"
    and "check_user P url secret auto emails' u' (r', st) = (r1', st1')"
  shows "blank r1 = blank r1' \<and> st1 = st1'"
proof -
  have v: "pu_id u' = pu_id u" "pu_username u' = pu_username u" "is_pt_staff (pu_role u') = is_pt_staff (pu_role u)"
    "List.member emails' (pu_email u') = List.member emails (pu_email u)" "named P u' = named P u"
    using assms(1) by (auto simp: pt_view_def named_def)
  have b: "blank (r\<lparr>rs_skipped_admins := k\<rparr>) = blank (r'\<lparr>rs_skipped_admins := k\<rparr>)"
    "blank (r\<lparr>rs_matched := k\<rparr>) = blank (r'\<lparr>rs_matched := k\<rparr>)"
    "blank (r\<lparr>rs_unmatched := rs_unmatched r @ [unmatched_entry u x]\<rparr>) =
       blank (r'\<lparr>rs_unmatched := rs_unmatched r' @ [unmatched_entry u' x]\<rparr>)"
    "blank (r\<lparr>rs_errors := rs_errors r @ es, rs_unmatched := rs_unmatched r @ [unmatched_entry u x]\<rparr>) =
       blank (r'\<lparr>rs_errors := rs_errors r' @ es, rs_unmatched := rs_unmatched r' @ [unmatched_entry u' x]\<rparr>)" for k x es
    using assms(2) v by (cases r; cases r'; simp add: blank_def unmatched_entry_def)+
  show ?thesis
    using assms(3,4) v b blank_eqD(2,4)[OF assms(2)]
    by (auto simp: check_user_def Let_def split: if_splits prod.splits option.splits)
qed

lemma check_users_blind:
  assumes "map (pt_view emails) users = map (pt_view emails') users'" "blank r = blank r'"
    and "fold (check_user P url secret auto emails) users (r, st) = (r1, st1)"
    and "fold (check_user P url secret auto emails') users' (r', st) = (r1', st1')"
  shows "blank r1 = blank r1' \<and> st1 = st1'"
  using assms
proof (induction users arbitrary: users' r r' st)
  case (Cons u users)
  then obtain u' us' where us': "users' = u' # us'" by (cases users') auto
  obtain r2 st2 where u: "check_user P url secret auto emails u (r, st) = (r2, st2)" by fastforce
  obtain r2' st2' where u': "check_user P url secret auto emails' u' (r', st) = (r2', st2')" by fastforce
  have "blank r2 = blank r2' \<and> st2 = st2'"
    using check_user_blind[OF _ Cons.prems(2) u u'] Cons.prems(1) us' by simp
  then show ?case using Cons.IH[of us' r2 r2' st2] Cons.prems us' u u' by simp
qed simp

text \<open>
  C22. No address leaves the check. Take two runs over users that agree in everything but the e-mail
  addresses and are matched alike, against as many known addresses: what the two store in the settings,
  write to the log and to the audit trail, broadcast, and send to PeerTube is the same. So none of
  these carries an address, even where a ban fails.
\<close>

theorem check_reveals_no_address:
  assumes "map (pt_view emails) users = map (pt_view emails') users'" "length emails = length emails'"
  shows "snd (compare_and_store P q url secret auto emails users st) =
         snd (compare_and_store P q url secret auto emails' users' st)"
proof -
  let ?r = "empty_check\<lparr>rs_mastodon_emails := length emails, rs_peertube_users := length users\<rparr>"
    and ?st = "say (''Found '' @ nat_digits (length users) @ '' PeerTube user(s)'') st"
  have len: "length users' = length users" using arg_cong[OF assms(1), of length] by simp
  obtain r1 st1 where f: "fold (check_user P url secret auto emails) users (?r, ?st) = (r1, st1)" by fastforce
  obtain r2 st2 where f': "fold (check_user P url secret auto emails') users' (?r, ?st) = (r2, st2)" by fastforce
  have eq: "blank r1 = blank r2" "st1 = st2" using check_users_blind[OF assms(1) refl f f'] by auto
  show ?thesis
    using f f' eq(2) assms(2) len blank_eqD[OF eq(1)]
    by (simp add: compare_and_store_def Let_def store_check_def)
qed

definition quiet_peertube :: peertube where
  "quiet_peertube = \<lparr>pt_http = (\<lambda>_. Pt_Reply 204 (Inl [])), pt_decrypt = Some, pt_now_iso = (\<lambda>_. ''now''),
     pt_str = json_str, pt_repr = json_str, pt_dumps = (\<lambda>_. []), pt_crash_text = (\<lambda>_. [])\<rparr>"

definition pt_sample :: "string \<Rightarrow> pt_user" where
  "pt_sample mail = \<lparr>pu_id = JInt 9, pu_username = JStr ''eve'', pu_email = mail, pu_role = JInt 2\<rparr>"

definition pt_site :: check where
  "pt_site = \<lparr>ck_fleet = \<lparr>f_app = sample_app, f_guests = [], f_credentials = [], f_windows = [], f_updates = [],
     f_scans = [], f_history = [], f_services = [], f_ops = [], f_alerts = []\<rparr>, ck_reqs = [], ck_log = []\<rparr>"

theorem check_reveals_no_address_witness:
  "snd (compare_and_store quiet_peertube sample_ctx ''https://p.example'' ''s'' True [''a@x.example''] [pt_sample ''eve@y.example''] pt_site) =
   snd (compare_and_store quiet_peertube sample_ctx ''https://p.example'' ''s'' True [''b@x.example''] [pt_sample ''mal@z.example''] pt_site)"
  by (rule check_reveals_no_address) (simp_all add: pt_view_def pt_sample_def)

section \<open>The log of the job\<close>

text \<open>A reader who polls after each batch of lines with the offset of the poll before.\<close>

fun follow_log :: "string list list \<Rightarrow> int \<Rightarrow> mod_job \<Rightarrow> string list list" where
  "follow_log [] offset j = []"
| "follow_log (b # bs) offset j =
     (let j' = fold append_moderation_log b j; (ls, offset') = moderation_status offset j' in ls # follow_log bs offset' j')"

definition recent :: "string list \<Rightarrow> string list" where
  "recent ls = drop (length ls - MODERATION_LOG_MAXLEN) ls"

lemma append_logs:
  "mj_log j = recent ls \<and> mj_log_total j = length ls \<Longrightarrow>
   mj_log (fold append_moderation_log b j) = recent (ls @ b) \<and> mj_log_total (fold append_moderation_log b j) = length (ls @ b)"
proof (induction b arbitrary: j ls)
  case (Cons m b)
  have last: "Suc n - (n - k + k) + (n - k) = Suc n - k" for n k :: nat by arith
  have "mj_log (append_moderation_log m j) = recent (ls @ [m]) \<and> mj_log_total (append_moderation_log m j) = length (ls @ [m])"
    using Cons.prems last by (auto simp: append_moderation_log_def recent_def Let_def drop_append)
  from Cons.IH[OF this] show ?case by simp
qed simp

lemma status_delivers:
  assumes "mj_log j = recent (ls @ b)" "mj_log_total j = length (ls @ b)"
  shows "moderation_status (int (length ls)) j = (recent b, int (length (ls @ b)))"
  using assms by (auto simp: moderation_status_def recent_def Let_def drop_append nat_diff_distrib')

text \<open>
  C34. Whoever follows the log of a check misses nothing: polling with the offset returned by the poll
  before delivers, for every batch of lines written in between, exactly the lines of that batch, once
  and in order; only of a batch larger than the buffer the oldest lines are lost.
\<close>

theorem log_followed_exactly:
  "follow_log bs 0 (snd (moderation_run (j\<lparr>mj_running := False\<rparr>))) = map recent bs"
proof -
  have "follow_log bs (int (length ls)) j = map recent bs" if "mj_log j = recent ls" "mj_log_total j = length ls" for ls j
    using that
  proof (induction bs arbitrary: ls j)
    case (Cons b bs)
    note lines = append_logs[of j ls b, OF conjI[OF Cons.prems]]
    show ?case
      using Cons.IH[of "fold append_moderation_log b j" "ls @ b"] lines status_delivers[of "fold append_moderation_log b j" ls b]
      by (simp add: Let_def)
  qed simp
  from this[of "snd (moderation_run (j\<lparr>mj_running := False\<rparr>))" "[]"] show ?thesis
    by (simp add: moderation_run_def recent_def)
qed

end
