(* ===== verification/Fleet_Admin.thy ===== *)
theory Fleet_Admin
  imports Maintenance User_Admin
begin

text \<open>
  The pages on which administrators keep the maintenance windows (\<^verbatim>\<open>src/routes/schedules.py\<close>) and the
  SSH credentials (\<^verbatim>\<open>src/routes/credentials.py\<close>) that \<open>Patching\<close> and \<open>Maintenance\<close> use. As in
  \<open>User_Admin\<close>, a handler that returns early leaves the database as it was; the flashed texts are not
  modelled. The encryption of secrets is a parameter.
\<close>

section \<open>State\<close>

record full_credential = credential +
  cr_name :: string
  cr_auth_type :: string
  cr_encrypted_value :: string
  cr_encrypted_sudo_password :: "string option"

text \<open>The hosts are kept with the one column that matters here, their credential.\<close>

record site =
  si_app :: app
  si_windows :: "maintenance_window list"
  si_credentials :: "full_credential list"
  si_guests :: "pguest list"
  si_hosts :: "(int \<times> int option) list"

definition si_log :: "req_ctx \<Rightarrow> string \<Rightarrow> string \<Rightarrow> int \<Rightarrow> string \<Rightarrow> site \<Rightarrow> site" where
  "si_log q action rtype rid rname s = s\<lparr>si_app := log_action q (entry action rtype (Some rid) (Some rname) JNull) (si_app s)\<rparr>"

section \<open>Maintenance windows\<close>

definition VALID_WINDOW_DAYS :: "string list" where
  "VALID_WINDOW_DAYS =
     [''daily'', ''monday'', ''tuesday'', ''wednesday'', ''thursday'', ''friday'', ''saturday'', ''sunday'']"

definition schedule_add :: "req_ctx \<Rightarrow> form_data \<Rightarrow> site \<Rightarrow> outcome \<times> site" where
  "schedule_add q fm s =
     (let name = py_strip (fget fm ''name'' []);
          day = py_lower (py_strip (fget fm ''day_of_week'' ''sunday''));
          start = fget fm ''start_time'' ''02:00'';
          stop = fget fm ''end_time'' ''05:00'' in
      if name = [] \<or> \<not> List.member VALID_WINDOW_DAYS day then (Denied, s)
      else case parse_window_time start of
             Inl _ \<Rightarrow> (Crashed, s)
           | Inr None \<Rightarrow> (Denied, s)
           | Inr (Some _) \<Rightarrow>
               (case parse_window_time stop of
                  Inl _ \<Rightarrow> (Crashed, s)
                | Inr None \<Rightarrow> (Denied, s)
                | Inr (Some _) \<Rightarrow>
                    (let i = next_id mw_id (si_windows s);
                         w = \<lparr>mw_id = i, mw_name = name, mw_day_of_week = day, mw_start_time = py_strip start,
                              mw_end_time = py_strip stop, mw_update_type = fget fm ''update_type'' ''upgrade'',
                              mw_enabled = True\<rparr>
                     in (Done, si_log q ''schedule_create'' ''schedule'' i name (s\<lparr>si_windows := si_windows s @ [w]\<rparr>)))))"

definition schedule_toggle :: "req_ctx \<Rightarrow> int \<Rightarrow> site \<Rightarrow> outcome \<times> site" where
  "schedule_toggle q i s =
     (case first_row (\<lambda>w. mw_id w = i) (si_windows s) of
        None \<Rightarrow> (Missing, s)
      | Some w \<Rightarrow>
          (Done, si_log q ''schedule_toggle'' ''schedule'' i (mw_name w)
             (s\<lparr>si_windows := update_rows (\<lambda>w. mw_id w = i) (\<lambda>w. w\<lparr>mw_enabled := \<not> mw_enabled w\<rparr>) (si_windows s)\<rparr>)))"

text \<open>The relationship has no cascade: the guests of a deleted window lose it.\<close>

definition schedule_delete :: "req_ctx \<Rightarrow> int \<Rightarrow> site \<Rightarrow> outcome \<times> site" where
  "schedule_delete q i s =
     (case first_row (\<lambda>w. mw_id w = i) (si_windows s) of
        None \<Rightarrow> (Missing, s)
      | Some w \<Rightarrow>
          (let s1 = si_log q ''schedule_delete'' ''schedule'' i (mw_name w) s
           in (Done, s1\<lparr>si_windows := filter (\<lambda>w. mw_id w \<noteq> i) (si_windows s1),
                        si_guests := update_rows (\<lambda>g. pg_window g = Some i) (\<lambda>g. g\<lparr>pg_window := None\<rparr>) (si_guests s1)\<rparr>)))"

section \<open>Credentials\<close>

definition VALID_AUTH_TYPES :: "string list" where "VALID_AUTH_TYPES = [''password'', ''key'']"

definition secret_field :: "string \<Rightarrow> form_data \<Rightarrow> string" where
  "secret_field auth_type fm = (if auth_type = ''password'' then fget fm ''password'' [] else fget fm ''private_key'' [])"

definition unset_defaults :: "full_credential list \<Rightarrow> full_credential list" where
  "unset_defaults = update_rows cr_is_default (\<lambda>c. c\<lparr>cr_is_default := False\<rparr>)"

definition new_credential :: "(string \<Rightarrow> string) \<Rightarrow> form_data \<Rightarrow> int \<Rightarrow> full_credential" where
  "new_credential enc fm i =
     (let auth_type = fget fm ''auth_type'' ''password''; sudo = py_strip (fget fm ''sudo_password'' []) in
      \<lparr>cr_id = i, cr_username = py_strip (fget fm ''username'' ''root''), cr_is_default = fhas fm ''is_default'',
       cr_name = py_strip (fget fm ''name'' []), cr_auth_type = auth_type,
       cr_encrypted_value = enc (secret_field auth_type fm),
       cr_encrypted_sudo_password = (if sudo \<noteq> [] then Some (enc sudo) else None)\<rparr>)"

definition credential_add :: "(string \<Rightarrow> string) \<Rightarrow> req_ctx \<Rightarrow> form_data \<Rightarrow> site \<Rightarrow> outcome \<times> site" where
  "credential_add enc q fm s =
     (let name = py_strip (fget fm ''name'' []); auth_type = fget fm ''auth_type'' ''password'' in
      if name = [] \<or> \<not> List.member VALID_AUTH_TYPES auth_type \<or> secret_field auth_type fm = [] then (Denied, s)
      else
        let rows = (if fhas fm ''is_default'' then unset_defaults (si_credentials s) else si_credentials s);
            c = new_credential enc fm (next_id cr_id rows)
        in (Done, si_log q ''credential_add'' ''credential'' (cr_id c) name (s\<lparr>si_credentials := rows @ [c]\<rparr>)))"

definition new_secret :: "(string \<Rightarrow> string) \<Rightarrow> form_data \<Rightarrow> full_credential \<Rightarrow> full_credential" where
  "new_secret enc fm c =
     (let auth_type = fget fm ''auth_type'' []; value = secret_field auth_type fm in
      if auth_type \<noteq> [] \<and> value \<noteq> [] then c\<lparr>cr_auth_type := auth_type, cr_encrypted_value := enc value\<rparr> else c)"

definition new_sudo :: "(string \<Rightarrow> string) \<Rightarrow> form_data \<Rightarrow> full_credential \<Rightarrow> full_credential" where
  "new_sudo enc fm c =
     (let sudo = py_strip (fget fm ''sudo_password'' []) in
      if sudo \<noteq> [] then c\<lparr>cr_encrypted_sudo_password := Some (enc sudo)\<rparr>
      else if fhas fm ''clear_sudo_password'' then c\<lparr>cr_encrypted_sudo_password := None\<rparr> else c)"

definition edited_credential :: "(string \<Rightarrow> string) \<Rightarrow> form_data \<Rightarrow> full_credential \<Rightarrow> full_credential" where
  "edited_credential enc fm c =
     (new_sudo enc fm (new_secret enc fm
        (c\<lparr>cr_name := py_strip (fget fm ''name'' []),
           cr_username := str_or (py_strip (fget fm ''username'' [])) (cr_username c)\<rparr>)))
     \<lparr>cr_is_default := fhas fm ''is_default''\<rparr>"

definition credential_edit :: "(string \<Rightarrow> string) \<Rightarrow> req_ctx \<Rightarrow> int \<Rightarrow> form_data \<Rightarrow> site \<Rightarrow> outcome \<times> site" where
  "credential_edit enc q i fm s =
     (case first_row (\<lambda>c. cr_id c = i) (si_credentials s) of
        None \<Rightarrow> (Missing, s)
      | Some c \<Rightarrow>
          (let name = py_strip (fget fm ''name'' []); auth_type = fget fm ''auth_type'' [] in
           if name = [] \<or> auth_type \<noteq> [] \<and> \<not> List.member VALID_AUTH_TYPES auth_type then (Denied, s)
           else
             let rows = (if fhas fm ''is_default'' \<and> \<not> cr_is_default c then unset_defaults (si_credentials s)
                         else si_credentials s)
             in (Done, si_log q ''credential_edit'' ''credential'' i name
                   (s\<lparr>si_credentials := update_rows (\<lambda>c. cr_id c = i) (edited_credential enc fm) rows\<rparr>))))"

definition credential_set_default :: "req_ctx \<Rightarrow> int \<Rightarrow> site \<Rightarrow> outcome \<times> site" where
  "credential_set_default q i s =
     (case first_row (\<lambda>c. cr_id c = i) (si_credentials s) of
        None \<Rightarrow> (Missing, s)
      | Some c \<Rightarrow>
          (Done, si_log q ''credential_set_default'' ''credential'' i (cr_name c)
             (s\<lparr>si_credentials := update_rows (\<lambda>c. cr_id c = i) (\<lambda>c. c\<lparr>cr_is_default := True\<rparr>)
                (unset_defaults (si_credentials s))\<rparr>)))"

definition credential_delete :: "req_ctx \<Rightarrow> int \<Rightarrow> site \<Rightarrow> outcome \<times> site" where
  "credential_delete q i s =
     (case first_row (\<lambda>c. cr_id c = i) (si_credentials s) of
        None \<Rightarrow> (Missing, s)
      | Some c \<Rightarrow>
          (if list_ex (\<lambda>g. pg_credential g = Some i) (si_guests s) \<or> list_ex (\<lambda>h. snd h = Some i) (si_hosts s)
           then (Denied, s)
           else let s1 = si_log q ''credential_delete'' ''credential'' i (cr_name c) s
                in (Done, s1\<lparr>si_credentials := filter (\<lambda>c. cr_id c \<noteq> i) (si_credentials s1)\<rparr>)))"

section \<open>Requests\<close>

datatype fleet_req =
    Schedule_Add | Schedule_Toggle int | Schedule_Delete int
  | Credential_Add | Credential_Edit int | Credential_Set_Default int | Credential_Delete int

fun fleet_gate :: "db \<Rightarrow> user \<Rightarrow> fleet_req \<Rightarrow> bool" where
  "fleet_gate d u Schedule_Add = is_admin d u"
| "fleet_gate d u (Schedule_Toggle _) = is_admin d u"
| "fleet_gate d u (Schedule_Delete _) = is_admin d u"
| "fleet_gate d u _ = can Can_manage_credentials d u"

fun fleet_handler :: "(string \<Rightarrow> string) \<Rightarrow> req_ctx \<Rightarrow> fleet_req \<Rightarrow> form_data \<Rightarrow> site \<Rightarrow> outcome \<times> site" where
  "fleet_handler enc q Schedule_Add fm s = schedule_add q fm s"
| "fleet_handler enc q (Schedule_Toggle i) fm s = schedule_toggle q i s"
| "fleet_handler enc q (Schedule_Delete i) fm s = schedule_delete q i s"
| "fleet_handler enc q Credential_Add fm s = credential_add enc q fm s"
| "fleet_handler enc q (Credential_Edit i) fm s = credential_edit enc q i fm s"
| "fleet_handler enc q (Credential_Set_Default i) fm s = credential_set_default q i s"
| "fleet_handler enc q (Credential_Delete i) fm s = credential_delete q i s"

definition fleet_request :: "(string \<Rightarrow> string) \<Rightarrow> req_ctx \<Rightarrow> user \<Rightarrow> fleet_req \<Rightarrow> form_data \<Rightarrow> site \<Rightarrow> outcome \<times> site" where
  "fleet_request enc q u r fm s =
     (if fleet_gate (a_db (si_app s)) u r then fleet_handler enc q r fm s else (Denied, s))"

section \<open>A well-formed site\<close>

definition is_time :: "string \<Rightarrow> bool" where
  "is_time t \<longleftrightarrow> (case parse_window_time t of Inr (Some _) \<Rightarrow> True | _ \<Rightarrow> False)"

definition window_ok :: "maintenance_window \<Rightarrow> bool" where
  "window_ok w \<longleftrightarrow> List.member VALID_WINDOW_DAYS (mw_day_of_week w) \<and> is_time (mw_start_time w) \<and> is_time (mw_end_time w)"

definition windows_ok :: "maintenance_window list \<Rightarrow> bool" where
  "windows_ok ws \<longleftrightarrow> distinct (map mw_id ws) \<and> list_all window_ok ws"

definition credentials_ok :: "full_credential list \<Rightarrow> bool" where
  "credentials_ok cs \<longleftrightarrow> distinct (map cr_id cs) \<and> length (filter cr_is_default cs) \<le> 1 \<and>
     list_all (\<lambda>c. List.member VALID_AUTH_TYPES (cr_auth_type c)) cs"

definition refers :: "int option \<Rightarrow> int list \<Rightarrow> bool" where
  "refers r ids \<longleftrightarrow> (case r of None \<Rightarrow> True | Some i \<Rightarrow> List.member ids i)"

definition references_ok :: "site \<Rightarrow> bool" where
  "references_ok s \<longleftrightarrow>
     list_all (\<lambda>g. refers (pg_window g) (map mw_id (si_windows s)) \<and> refers (pg_credential g) (map cr_id (si_credentials s)))
       (si_guests s) \<and>
     list_all (\<lambda>h. refers (snd h) (map cr_id (si_credentials s))) (si_hosts s)"

definition fleet_ok :: "site \<Rightarrow> bool" where
  "fleet_ok s \<longleftrightarrow> windows_ok (si_windows s) \<and> credentials_ok (si_credentials s) \<and> references_ok s"

lemma si_log_frame [simp]:
  "si_windows (si_log q a b i n s) = si_windows s" "si_credentials (si_log q a b i n s) = si_credentials s"
  "si_guests (si_log q a b i n s) = si_guests s" "si_hosts (si_log q a b i n s) = si_hosts s"
  by (simp_all add: si_log_def)

lemma refers_iff: "refers r ids \<longleftrightarrow> set_option r \<subseteq> set ids"
  by (simp add: refers_def split: option.splits)

lemma references_ok_mono:
  assumes "references_ok s" "si_guests s' = si_guests s" "si_hosts s' = si_hosts s"
    and "mw_id ` set (si_windows s) \<subseteq> mw_id ` set (si_windows s')"
    and "cr_id ` set (si_credentials s) \<subseteq> cr_id ` set (si_credentials s')"
  shows "references_ok s'"
proof -
  have "refers r (map mw_id (si_windows s)) \<Longrightarrow> refers r (map mw_id (si_windows s'))"
    "refers r (map cr_id (si_credentials s)) \<Longrightarrow> refers r (map cr_id (si_credentials s'))" for r
    unfolding refers_iff set_map using assms(4,5) by (blast intro: order_trans)+
  then show ?thesis using assms(1-3) by (simp add: references_ok_def list_all_iff)
qed

lemma references_ok_rows:
  assumes "references_ok s" "si_guests s' = si_guests s" "si_hosts s' = si_hosts s" "si_windows s' = si_windows s"
    and "map cr_id (si_credentials s') = map cr_id (si_credentials s) @ new"
  shows "references_ok s'"
  by (rule references_ok_mono[OF assms(1-3)]) (use assms(4) arg_cong[OF assms(5), of set] in auto)

lemma is_time_strip [simp]: "is_time (py_strip t) = is_time t"
  by (simp add: is_time_def parse_window_time_def py_strip_idem)

text \<open>What changes a row without its key.\<close>

lemma ids_update_rows: "(\<And>r. key (h r) = key r) \<Longrightarrow> map key (update_rows P h rows) = map key rows"
  by (simp add: update_rows_def)

lemma schedule_add_windows:
  assumes "schedule_add q fm s = (r, s')"
  shows "s' = s \<or> (\<exists>w. window_ok w \<and> mw_id w = next_id mw_id (si_windows s) \<and> si_windows s' = si_windows s @ [w] \<and>
    si_credentials s' = si_credentials s \<and> si_guests s' = si_guests s \<and> si_hosts s' = si_hosts s)"
  using assms
  by (auto simp: schedule_add_def Let_def window_ok_def is_time_def[of "fget _ _ _"] split: if_splits sum.splits option.splits)

lemma schedule_add_ok:
  assumes "fleet_ok s" "schedule_add q fm s = (r, s')"
  shows "fleet_ok s'"
  using schedule_add_windows[OF assms(2)]
proof
  assume "\<exists>w. window_ok w \<and> mw_id w = next_id mw_id (si_windows s) \<and> si_windows s' = si_windows s @ [w] \<and>
    si_credentials s' = si_credentials s \<and> si_guests s' = si_guests s \<and> si_hosts s' = si_hosts s"
  then obtain w where w: "window_ok w" "mw_id w = next_id mw_id (si_windows s)" "si_windows s' = si_windows s @ [w]"
    "si_credentials s' = si_credentials s" "si_guests s' = si_guests s" "si_hosts s' = si_hosts s" by blast
  then show ?thesis
    using assms(1) next_id_fresh[of mw_id "si_windows s"] references_ok_mono[of s s']
    by (auto simp: fleet_ok_def windows_ok_def)
qed (use assms in simp)

lemma schedule_toggle_ok:
  assumes "fleet_ok s" "schedule_toggle q i s = (r, s')"
  shows "fleet_ok s'"
proof -
  let ?h = "\<lambda>w. w\<lparr>mw_enabled := \<not> mw_enabled w\<rparr>"
  let ?ws = "update_rows (\<lambda>w. mw_id w = i) ?h (si_windows s)"
  have ids: "map mw_id ?ws = map mw_id (si_windows s)" by (rule ids_update_rows) simp
  have "s' = s \<or> si_windows s' = ?ws \<and> si_credentials s' = si_credentials s \<and> si_guests s' = si_guests s \<and> si_hosts s' = si_hosts s"
    using assms(2) by (auto simp: schedule_toggle_def split: option.splits)
  moreover have "list_all window_ok ?ws" if "list_all window_ok (si_windows s)"
    using that by (auto simp: list_all_iff update_rows_def window_ok_def)
  ultimately show ?thesis
    using assms(1) ids by (auto simp: fleet_ok_def windows_ok_def references_ok_def)
qed

lemma schedule_delete_ok:
  assumes "fleet_ok s" "schedule_delete q i s = (r, s')"
  shows "fleet_ok s'"
proof (cases "first_row (\<lambda>w. mw_id w = i) (si_windows s)")
  case None
  then show ?thesis using assms by (simp add: schedule_delete_def)
next
  case (Some w)
  let ?ws = "filter (\<lambda>w. mw_id w \<noteq> i) (si_windows s)"
    and ?gs = "update_rows (\<lambda>g. pg_window g = Some i) (\<lambda>g. g\<lparr>pg_window := None\<rparr>) (si_guests s)"
  have s': "si_windows s' = ?ws" "si_guests s' = ?gs" "si_credentials s' = si_credentials s" "si_hosts s' = si_hosts s"
    using assms(2) Some by (auto simp: schedule_delete_def Let_def)
  have "refers r (map mw_id ?ws)" if "refers r (map mw_id (si_windows s))" "r \<noteq> Some i" for r
    using that by (auto simp: refers_def split: option.splits)
  then have "references_ok s'"
    using assms(1) by (auto simp: fleet_ok_def references_ok_def s' update_rows_def list_all_iff refers_def[of None])
  moreover have "windows_ok ?ws" using assms(1) by (auto simp: fleet_ok_def windows_ok_def distinct_map_filter list_all_iff)
  ultimately show ?thesis using assms(1) by (simp add: fleet_ok_def s')
qed

lemma unset_defaults_facts:
  "map cr_id (unset_defaults cs) = map cr_id cs" "filter cr_is_default (unset_defaults cs) = []"
  "map cr_auth_type (unset_defaults cs) = map cr_auth_type cs"
  by (auto simp: unset_defaults_def update_rows_def filter_empty_conv)

lemma list_all_auth: "list_all (\<lambda>c. List.member VALID_AUTH_TYPES (cr_auth_type c)) cs \<longleftrightarrow> list_all (List.member VALID_AUTH_TYPES) (map cr_auth_type cs)"
  by (simp add: list_all_iff)

lemma credentials_ok_rows:
  assumes "credentials_ok cs" "map cr_id rows = map cr_id cs" "map cr_auth_type rows = map cr_auth_type cs"
    and "length (filter cr_is_default rows) \<le> 1"
  shows "credentials_ok rows"
  using assms unfolding credentials_ok_def list_all_auth by simp

lemma credential_add_ok:
  assumes "fleet_ok s" "credential_add enc q fm s = (r, s')"
  shows "fleet_ok s'"
proof -
  define rows where "rows = (if fhas fm ''is_default'' then unset_defaults (si_credentials s) else si_credentials s)"
  define c where "c = new_credential enc fm (next_id cr_id rows)"
  have ok: "credentials_ok rows" and ids: "map cr_id rows = map cr_id (si_credentials s)"
    using assms(1) by (auto simp: rows_def fleet_ok_def unset_defaults_facts intro: credentials_ok_rows[of "si_credentials s"])
  have c: "cr_id c = next_id cr_id rows" "cr_is_default c = fhas fm ''is_default''"
    "cr_auth_type c = fget fm ''auth_type'' ''password''"
    by (simp_all add: c_def new_credential_def Let_def)
  consider "s' = s" | (added) "List.member VALID_AUTH_TYPES (fget fm ''auth_type'' ''password'')"
      "si_credentials s' = rows @ [c]" "si_windows s' = si_windows s"
      "si_guests s' = si_guests s" "si_hosts s' = si_hosts s"
    using assms(2) unfolding credential_add_def Let_def rows_def[symmetric] c_def[symmetric]
    by (auto split: if_split_asm)
  then show ?thesis
  proof cases
    case added
    have "cr_id c \<notin> cr_id ` set rows" using next_id_fresh[of cr_id rows] c(1) by simp
    moreover have "length (filter cr_is_default (rows @ [c])) \<le> 1"
      using ok c(2) by (cases "fhas fm ''is_default''") (simp_all add: rows_def unset_defaults_facts credentials_ok_def)
    ultimately have "credentials_ok (rows @ [c])" using ok added(1) c(3) by (simp add: credentials_ok_def)
    moreover have "references_ok s'"
      by (rule references_ok_rows[of s _ "[cr_id c]"]) (use assms(1) in \<open>simp_all add: added ids fleet_ok_def\<close>)
    ultimately show ?thesis using assms(1) added by (simp add: fleet_ok_def)
  qed (use assms in simp)
qed

lemma edited_credential_facts:
  "cr_id (edited_credential enc fm c) = cr_id c" "cr_is_default (edited_credential enc fm c) = fhas fm ''is_default''"
  "fget fm ''auth_type'' [] = [] \<or> List.member VALID_AUTH_TYPES (fget fm ''auth_type'' []) \<Longrightarrow>
   List.member VALID_AUTH_TYPES (cr_auth_type c) \<Longrightarrow> List.member VALID_AUTH_TYPES (cr_auth_type (edited_credential enc fm c))"
  by (auto simp: edited_credential_def new_sudo_def new_secret_def Let_def)

text \<open>A row that becomes the default is the only one.\<close>

lemma one_default:
  assumes "distinct (map cr_id cs)" "\<And>c. c \<in> set cs \<Longrightarrow> cr_is_default c \<Longrightarrow> cr_id c = i"
  shows "length (filter cr_is_default cs) \<le> 1"
  using assms
proof (induction cs)
  case (Cons c cs)
  have "filter cr_is_default cs = []" if "cr_is_default c"
    using that Cons.prems by (fastforce simp: filter_empty_conv)
  then show ?case using Cons by auto
qed simp

lemma only_default:
  assumes "length (filter cr_is_default cs) \<le> 1" "c \<in> set cs" "cr_is_default c" "d \<in> set cs" "cr_is_default d"
  shows "d = c"
proof -
  have "c \<in> set (filter cr_is_default cs)" "d \<in> set (filter cr_is_default cs)" using assms(2-5) by simp_all
  then show ?thesis using assms(1) by (cases "filter cr_is_default cs") auto
qed

lemma count_map_le: "(\<And>x. P (f x) \<Longrightarrow> P x) \<Longrightarrow> length (filter P (map f xs)) \<le> length (filter P xs)"
  by (induction xs) (auto simp: le_Suc_eq)

lemma credential_edit_ok:
  assumes "fleet_ok s" "credential_edit enc q i fm s = (r, s')"
  shows "fleet_ok s'"
proof (cases "s' = s")
  case False
  define h where "h = edited_credential enc fm"
  obtain c where c: "first_row (\<lambda>c. cr_id c = i) (si_credentials s) = Some c"
    using assms(2) False by (auto simp: credential_edit_def split: option.splits)
  define rows where
    "rows = (if fhas fm ''is_default'' \<and> \<not> cr_is_default c then unset_defaults (si_credentials s) else si_credentials s)"
  let ?new = "update_rows (\<lambda>c. cr_id c = i) h rows"
  have s': "si_credentials s' = ?new" "si_windows s' = si_windows s" "si_guests s' = si_guests s" "si_hosts s' = si_hosts s"
    and auth: "fget fm ''auth_type'' [] = [] \<or> List.member VALID_AUTH_TYPES (fget fm ''auth_type'' [])"
    using assms(2) c False by (auto simp: credential_edit_def Let_def rows_def h_def split: if_split_asm)
  have h: "cr_id (h x) = cr_id x" "cr_is_default (h x) = fhas fm ''is_default''" for x
    by (simp_all add: h_def edited_credential_facts)
  have old: "credentials_ok (si_credentials s)" using assms(1) by (simp add: fleet_ok_def)
  have ok: "credentials_ok rows" and ids: "map cr_id rows = map cr_id (si_credentials s)"
    using old by (auto simp: rows_def unset_defaults_facts intro: credentials_ok_rows[of "si_credentials s"])
  have ids': "map cr_id ?new = map cr_id (si_credentials s)" using ids_update_rows[of cr_id h] h(1) ids by simp
  have "length (filter cr_is_default ?new) \<le> 1"
  proof (cases "fhas fm ''is_default''")
    case True
    have "cr_id d = i" if "d \<in> set rows" "cr_is_default d" for d
    proof (cases "cr_is_default c")
      case True
      then show ?thesis
        using only_default[of "si_credentials s" c d] that first_row_Some[OF c] old by (auto simp: rows_def credentials_ok_def)
    next
      case False
      then show ?thesis
        using that \<open>fhas fm ''is_default''\<close> unset_defaults_facts(2)[of "si_credentials s"] by (auto simp: rows_def filter_empty_conv)
    qed
    then show ?thesis
      using ids' old h by (intro one_default[where i = i]) (auto simp: credentials_ok_def update_rows_def split: if_splits)
  next
    case False
    have "length (filter cr_is_default ?new) \<le> length (filter cr_is_default rows)"
      unfolding update_rows_def by (rule count_map_le) (use False h(2) in \<open>simp split: if_splits\<close>)
    then show ?thesis using ok by (simp add: credentials_ok_def)
  qed
  moreover have "list_all (\<lambda>c. List.member VALID_AUTH_TYPES (cr_auth_type c)) ?new"
    using ok edited_credential_facts(3)[OF auth] by (auto simp: credentials_ok_def list_all_iff update_rows_def h_def)
  ultimately have "credentials_ok ?new" using ids' old by (simp add: credentials_ok_def)
  moreover have "map cr_id (si_credentials s') = map cr_id (si_credentials s) @ []" by (simp only: s'(1) ids' append_Nil2)
  then have "references_ok s'"
    using references_ok_rows[OF _ s'(3,4,2)] assms(1) unfolding fleet_ok_def by blast
  ultimately show ?thesis using assms(1) s' by (simp add: fleet_ok_def)
qed (use assms in simp)

lemma credential_set_default_ok:
  assumes "fleet_ok s" "credential_set_default q i s = (r, s')"
  shows "fleet_ok s'"
proof (cases "s' = s")
  case False
  let ?h = "\<lambda>c. c\<lparr>cr_is_default := True\<rparr>"
  let ?new = "update_rows (\<lambda>c. cr_id c = i) ?h (unset_defaults (si_credentials s))"
  have s': "si_credentials s' = ?new" "si_windows s' = si_windows s" "si_guests s' = si_guests s" "si_hosts s' = si_hosts s"
    using assms(2) False by (auto simp: credential_set_default_def split: option.splits)
  have ids: "map cr_id ?new = map cr_id (si_credentials s)"
    by (subst ids_update_rows) (simp_all add: unset_defaults_facts)
  have auth: "map cr_auth_type ?new = map cr_auth_type (si_credentials s)"
    by (subst ids_update_rows) (simp_all add: unset_defaults_facts)
  have "cr_id d = i" if "d \<in> set ?new" "cr_is_default d" for d
    using that unset_defaults_facts(2)[of "si_credentials s"] by (auto simp: update_rows_def filter_empty_conv)
  then have "length (filter cr_is_default ?new) \<le> 1"
    using assms(1) ids by (intro one_default[where i = i]) (auto simp: fleet_ok_def credentials_ok_def)
  then have "credentials_ok ?new" 
    using credentials_ok_rows[OF _ ids auth] assms(1) by (simp add: fleet_ok_def)
  moreover have "map cr_id (si_credentials s') = map cr_id (si_credentials s) @ []" by (simp only: s'(1) ids append_Nil2)
  then have "references_ok s'"
    using references_ok_rows[OF _ s'(3,4,2)] assms(1) unfolding fleet_ok_def by blast
  ultimately show ?thesis using assms(1) s' by (simp add: fleet_ok_def)
qed (use assms in simp)

lemma credential_delete_ok:
  assumes "fleet_ok s" "credential_delete q i s = (r, s')"
  shows "fleet_ok s'"
proof (cases "s' = s")
  case False
  let ?new = "filter (\<lambda>c. cr_id c \<noteq> i) (si_credentials s)"
  have s': "si_credentials s' = ?new" "si_windows s' = si_windows s" "si_guests s' = si_guests s" "si_hosts s' = si_hosts s"
    and unused: "\<And>g. g \<in> set (si_guests s) \<Longrightarrow> pg_credential g \<noteq> Some i" "\<And>h. h \<in> set (si_hosts s) \<Longrightarrow> snd h \<noteq> Some i"
    using assms(2) False by (auto simp: credential_delete_def Let_def list_ex_iff split: option.splits if_splits)
  have kept: "refers r (map cr_id ?new)" if "refers r (map cr_id (si_credentials s))" "r \<noteq> Some i" for r
    using that by (auto simp: refers_def split: option.splits)
  have "references_ok s'"
    using assms(1) unused kept by (auto simp: fleet_ok_def references_ok_def s' list_all_iff)
  moreover have "credentials_ok ?new"
  proof -
    have "filter cr_is_default ?new = filter (\<lambda>c. cr_id c \<noteq> i) (filter cr_is_default (si_credentials s))" by (simp add: conj_commute)
    then have "length (filter cr_is_default ?new) \<le> length (filter cr_is_default (si_credentials s))"
      by (metis length_filter_le)
    then show ?thesis
      using assms(1) by (auto simp: fleet_ok_def credentials_ok_def distinct_map_filter list_all_iff)
  qed
  ultimately show ?thesis using assms(1) s' by (simp add: fleet_ok_def)
qed (use assms in simp)

lemma fleet_request_ok: "fleet_ok s \<Longrightarrow> fleet_request enc q u r fm s = (x, s') \<Longrightarrow> fleet_ok s'"
  by (cases r) (auto simp: fleet_request_def split: if_splits intro: schedule_add_ok schedule_toggle_ok schedule_delete_ok
      credential_add_ok credential_edit_ok credential_set_default_ok credential_delete_ok)

section \<open>Every stored window opens\<close>

lemma at_weekday:
  assumes "k < 7" "0 \<le> t" "t < DAY"
  shows "weekday ((int k + 4) * DAY + t) = k" "time_of_day ((int k + 4) * DAY + t) = t"
proof -
  have "((int k + 4) * DAY + t) div DAY = int k + 4" using assms by (simp add: DAY_def)
  moreover have "(int k + 4 + 3) mod 7 = int k" using assms(1) by presburger
  ultimately show "weekday ((int k + 4) * DAY + t) = k" by (simp add: weekday_def)
  show "time_of_day ((int k + 4) * DAY + t) = t"
    using assms unfolding time_of_day_def mod_mult_self3 by (intro mod_pos_pos_trivial)
qed

lemma valid_day:
  assumes "List.member VALID_WINDOW_DAYS day"
  shows "\<exists>k < 7. py_lower (py_strip day) \<in> {''daily'', py_lower (day_name ! k)}"
proof -
  have "\<forall>day \<in> set VALID_WINDOW_DAYS. list_ex (\<lambda>k. py_lower (py_strip day) \<in> {''daily'', py_lower (day_name ! k)}) [0..<7]"
    by code_simp
  then show ?thesis using assms by (fastforce simp: list_ex_iff)
qed

lemma window_opens:
  assumes "window_ok w"
  shows "\<exists>now. in_maintenance_window w now = Inr True"
proof -
  obtain a b where t: "parse_window_time (mw_start_time w) = Inr (Some a)" "parse_window_time (mw_end_time w) = Inr (Some b)"
    using assms by (auto simp: window_ok_def is_time_def split: sum.splits option.splits)
  obtain k where k: "k < 7" "py_lower (py_strip (mw_day_of_week w)) \<in> {''daily'', py_lower (day_name ! k)}"
    using valid_day assms unfolding window_ok_def by blast
  have "0 \<le> a" "a < DAY" using parse_window_time_bounds[OF t(1)] by simp_all
  note at = at_weekday[OF k(1) this]
  show ?thesis
    using t k(2) at by (intro exI[of _ "(int k + 4) * DAY + a"]) (auto simp: in_maintenance_window_def Let_def)
qed

text \<open>
  C14. The tables the unattended updates rest on stay sound under every sequence of requests of the two
  pages, by whomever and with whatever forms: keys are unique, no guest or host refers to a window or
  credential that is gone, at most one credential is the default, the authentication types are those
  the SSH client knows, and every stored maintenance window is one that opens.
\<close>

theorem fleet_tables_stay_sound:
  assumes "fleet_ok s"
  shows "fleet_ok (fold (\<lambda>(q, u, r, fm) s. snd (fleet_request enc q u r fm s)) reqs s) \<and>
    list_all (\<lambda>w. \<exists>now. in_maintenance_window w now = Inr True)
      (si_windows (fold (\<lambda>(q, u, r, fm) s. snd (fleet_request enc q u r fm s)) reqs s))"
proof -
  have "fleet_ok (fold (\<lambda>(q, u, r, fm) s. snd (fleet_request enc q u r fm s)) reqs s)"
    using assms
  proof (induction reqs arbitrary: s)
    case (Cons x reqs)
    obtain q u r fm where x: "x = (q, u, r, fm)" by (cases x)
    obtain y s' where "fleet_request enc q u r fm s = (y, s')" by fastforce
    then show ?case using Cons.IH[of s'] fleet_request_ok[OF Cons.prems] x by simp
  qed simp
  then show ?thesis using window_opens by (auto simp: fleet_ok_def windows_ok_def list_all_iff)
qed

definition new_site :: site where
  "new_site = \<lparr>si_app = \<lparr>a_db = empty_db, a_hub = []\<rparr>, si_windows = [], si_credentials = [], si_guests = [], si_hosts = []\<rparr>"

definition boss_role :: role where
  "boss_role = \<lparr>r_id = 1, r_name = ''super_admin'', r_display_name = ''Boss'', r_level = 4, r_is_builtin = True,
     r_base_tier = None, r_perms = []\<rparr>"

definition boss :: user where
  "boss = \<lparr>u_id = 1, u_username = ''ada'', u_display_name = None, u_password_hash = [], u_role_id = 1,
     u_created_via = ''local'', u_is_active_user = True, u_timezone = None, u_last_login_at = None,
     u_tokens_valid_after = None, u_must_change_password = False, u_allowed_tags = []\<rparr>"

definition boss_site :: site where
  "boss_site = new_site\<lparr>si_app := \<lparr>a_db = empty_db\<lparr>d_roles := [boss_role], d_users := [boss]\<rparr>, a_hub = []\<rparr>\<rparr>"

definition boss_requests :: "(req_ctx \<times> user \<times> fleet_req \<times> form_data) list" where
  "boss_requests = (let q = \<lparr>q_in_request = False, q_user = None, q_client_ip = None, q_ts = []\<rparr> in
     [(q, boss, Schedule_Add, [(''name'', ''night''), (''day_of_week'', '' Monday ''), (''start_time'', ''23:00''), (''end_time'', ''02:00'')]),
      (q, boss, Credential_Add, [(''name'', ''root''), (''password'', ''x''), (''is_default'', ''1'')]),
      (q, boss, Credential_Add, [(''name'', ''key''), (''auth_type'', ''key''), (''private_key'', ''k''), (''is_default'', ''1'')])])"

theorem fleet_tables_stay_sound_witness:
  "let s = fold (\<lambda>(q, u, r, fm) s. snd (fleet_request (\<lambda>v. v) q u r fm s)) boss_requests boss_site in
   fleet_ok s \<and> map mw_day_of_week (si_windows s) = [''monday''] \<and> map cr_is_default (si_credentials s) = [False, True] \<and>
   list_all (\<lambda>w. \<exists>now. in_maintenance_window w now = Inr True) (si_windows s)"
proof -
  have "fleet_ok boss_site"
    by (simp add: boss_site_def new_site_def fleet_ok_def windows_ok_def credentials_ok_def references_ok_def)
  note ok = fleet_tables_stay_sound[OF this, of "\<lambda>v. v" boss_requests]
  have "map mw_day_of_week (si_windows (fold (\<lambda>(q, u, r, fm) s. snd (fleet_request (\<lambda>v. v) q u r fm s)) boss_requests boss_site)) = [''monday'']"
    "map cr_is_default (si_credentials (fold (\<lambda>(q, u, r, fm) s. snd (fleet_request (\<lambda>v. v) q u r fm s)) boss_requests boss_site)) = [False, True]"
    by code_simp+
  then show ?thesis using ok unfolding Let_def by blast
qed

end
