(* ===== verification/Spec2Isabelle.thy ===== *)
theory Spec2Isabelle
  imports Rate_Limit Adhoc_Credentials Startup User_Admin App_Upgrade Upgrade_Lock Config_Safety
    Guest_Scope Settings_Store Update_Jobs Moderation_Backoff Moderation_Rotation Moderation_Routes
    Peertube_Check Fleet_Admin
begin

text \<open>
  \<^bold>\<open>What this development verifies.\<close> The program is a Flask application that manages Proxmox
  hosts and guests: users sign in with a password, with Cloudflare Access or over the mobile API,
  act on guests they have access to by role and tag, patch them, upgrade applications on them over
  SSH, moderate a Mastodon instance, and see each other's activity live. The development models its
  core in HOL and proves the properties that the rest of the program relies on.

  \<^bold>\<open>The parts and their theories.\<close> Each theory opens with the source file it models.

  \<^item> \<open>Prelude\<close>: Python strings, dictionaries, tables of rows, clocks, and their generic lemmas.
  \<^item> \<open>Data_Model\<close> (\<^verbatim>\<open>models.py\<close>, \<^verbatim>\<open>auth/audit.py\<close>): roles, users, tags, guests, sessions, the
    audit log and the settings as one record \<open>db\<close>; \<open>log_action\<close>, which also broadcasts to the hub.
    \<open>Settings_Store\<close> is the settings table with its per-request cache and shows when the cache can
    be ignored, as the other theories do. \<open>Permissions\<close> is the permission properties of \<open>User\<close>.
    \<open>Startup\<close> (\<^verbatim>\<open>app.py\<close>) is table creation, column migrations and seeding.
  \<^item> \<open>Rate_Limit\<close>, \<open>Tokens\<close>, \<open>Sessions\<close>, \<open>Cloudflare\<close>, \<open>Net_Trust\<close>, \<open>Ip_Address\<close>: who a request
    comes from and whether it is authenticated (\<^verbatim>\<open>routes/auth.py\<close>, \<^verbatim>\<open>auth/\<close>,
    \<^verbatim>\<open>routes/api_v1.py\<close>). \<open>User_Admin\<close> (\<^verbatim>\<open>routes/security.py\<close>) is the management of users, roles,
    tags and access settings.
  \<^item> \<open>Collaboration\<close> (\<^verbatim>\<open>core/collaboration.py\<close>) is the presence and activity hub with shared
    terminals and cursors; \<open>Guest_Scope\<close> (\<^verbatim>\<open>core/guest_scope.py\<close>) the tag scope of pages and
    settings and the routes that feed the hub; \<open>Adhoc_Credentials\<close>
    (\<^verbatim>\<open>core/adhoc_credentials.py\<close>) the single-use credential store of the terminal.
  \<^item> \<open>Regex\<close>, \<open>Shell\<close>, \<open>App_Utils\<close>, \<open>App_Upgrade\<close>, \<open>Upgrade_Lock\<close> (\<^verbatim>\<open>apps/utils.py\<close>): what reaches
    a root shell. \<open>Shell\<close> contains a reader for POSIX shell words, the specification against which
    quoting and validation are proved; \<open>Regex\<close> a matcher with its language.
  \<^item> \<open>Config_Backup\<close> and \<open>Config_Safety\<close> (\<^verbatim>\<open>core/config_backup.py\<close>): export and import of the
    configuration.
  \<^item> \<open>Apt_Output\<close>, \<open>Patching\<close>, \<open>Patch_Safety\<close> (\<^verbatim>\<open>core/scanner.py\<close>): the commands sent to a guest
    and what is read from their answers, the tables of updates, services and scan results, and the
    scan and the upgrade of a guest. \<open>Maintenance\<close> (\<^verbatim>\<open>core/scheduler.py\<close>) is the scheduled scan, the
    maintenance windows, unattended upgrades and the weekly history; \<open>Fleet_Admin\<close>
    (\<^verbatim>\<open>routes/schedules.py\<close>, \<^verbatim>\<open>routes/credentials.py\<close>) the pages on which windows and SSH credentials
    are kept; \<open>Update_Jobs\<close> (\<^verbatim>\<open>routes/api.py\<close>) the upgrade jobs a user starts and cancels.
  \<^item> \<open>Mastodon_Client\<close> (\<^verbatim>\<open>core/mastodon_admin.py\<close>) is the client of the Mastodon API with its error
    paths, pagination and rate-limit book-keeping, and the message templates. \<open>Moderation_Watch\<close>
    (\<^verbatim>\<open>core/moderation_watch.py\<close>) is the poll of watched accounts, sign-ups and silent logins;
    \<open>Moderation_Safety\<close>, \<open>Moderation_Rotation\<close> and \<open>Moderation_Backoff\<close> hold its properties, the
    last one also the scheduled job (\<^verbatim>\<open>core/scheduler.py\<close>). \<open>Mastodon_Maintenance\<close>
    (\<^verbatim>\<open>core/mastodon_maintenance.py\<close>) is what moderators run on the Mastodon server, and
    \<open>Moderation_Routes\<close> (\<^verbatim>\<open>routes/moderation.py\<close>) the requests of the moderation tab.
    \<open>Peertube_Check\<close> (\<^verbatim>\<open>core/moderation.py\<close>) is the comparison of the PeerTube users with the
    addresses Mastodon knows, which may ban those it does not find, with its job and log.

  \<^bold>\<open>State and effects.\<close> A database table is the list of its rows in primary-key order, a
  dictionary an association list in insertion order, an in-process cache or registry a field of an
  explicit state. A handler is a function from the state (and its inputs, the clock included) to a
  result and the new state; a raise or an early return is a constructor of the result. Threads
  appear where the code has a lock or a shared table that several use: there the theory has a step
  relation whose steps are the atomic operations (\<open>Upgrade_Lock\<close>, \<open>Collaboration\<close>, \<open>Update_Jobs\<close>),
  or a property
  that quantifies over every sequence of operations (\<open>Rate_Limit\<close>, \<open>Tokens\<close>, \<open>Sessions\<close>,
  \<open>User_Admin\<close>).

  \<^bold>\<open>Interfaces.\<close> The locales state what one component needs of another: the visibility rule the hub
  and the guest scope share, the lock of the upgrades, the buckets of the limiters, the relation
  between tables that every step of an import keeps, the relation between states that every step of a
  moderation poll keeps (a family of locales, from the steps that only read to the whole poll). Each is
  interpreted on the definitions of the model in the theory that provides them.

  \<^bold>\<open>Parameters.\<close> Code outside the repository is an argument: the signature check of PyJWT, the
  password hash of Werkzeug, the signer of the session cookie and of the remember cookie, the answer
  of Cloudflare's key service, the random tokens, the uniqueness and type errors of the database in
  an import, the exit codes and the output of commands on a host (the record \<open>remote\<close>, functions of
  the commands run so far), and the answers of the Mastodon instance with its clock, time stamps and
  text functions (the record \<open>web\<close>, functions of the requests sent so far; \<open>peertube\<close> likewise).
  Hypotheses about them state documented behaviour (a fresh token is fresh, a database error rolls
  back) and each property that has hypotheses has a witness on concrete values.

  \<^bold>\<open>Bounds.\<close> Strings range over the code points 0 to 255, with Python's character classes on that
  range; integers are unbounded as in Python; row keys are the positive 64-bit range where the code
  parses them. All functions terminate: loops are structural recursions over the rows, characters or
  commands they visit, and no fuel is used.

  \<^bold>\<open>What the theorems show.\<close>
  \<^item> Authentication: every state in which a browser is signed in has a cause that still holds; a
    request needs a live session; a password change revokes sessions, remember cookies and tokens; a
    refresh token works once; lock-outs count exactly the failures of their window; a forwarded
    address or a trusted-network bypass cannot be forged from outside the configured proxies.
  \<^item> Authorisation: no sequence of management requests lets a user gain a level he does not
    have, and the site always keeps an active administrator; the listing of guests has exactly the
    enabled guests of the single check, except for administrators below super administrator, whom
    only the check exempts from tags; the hub offers events of a guest to, and shows its page to,
    exactly those whose entry admits the guest, which a current entry does as its user may access
    it.
  \<^item> Remote commands: a remote write delivers exactly the bytes and touches exactly the path; a
    validated value is one inert shell word; at most one upgrade of an application runs at a time.
  \<^item> Configuration: an import cannot weaken authentication, install a secret or point a
    setting, host or guest elsewhere without dropping the secret stored with it (the SSH
    credential of a host excepted, which is proved to stay), and an export does not depend on any
    secret.
  \<^item> Patch management: a scan records exactly the listing of the guest and touches no other
    guest; an upgrade retires exactly the packages that a listing read after it no longer has;
    unattended upgrades happen only inside an open window; the tables of windows and credentials
    stay sound under every sequence of requests, and every stored window opens; the window test
    follows the occurrences of daily and same-day windows (that it does not for weekday windows
    past midnight is proved too); in every reachable state of the job table, with several workers
    under way, a job is started only for a user who may act on the guest and only when none is
    running for it.
  \<^item> Moderation: a request changes at most what its route names, only for those the hook and
    the target's role and state allow, and after reading the target; the poll raises no alert
    whose key is in the table and within its retention, keeps the table well formed, has at most
    twenty welcome messages accepted per run, one per account and one per row it stores, looks at
    every watched account in turn, and stops at a 429 to its own steps and records when to go on;
    a listing stays on its host as long as links are absolute (one without a scheme leaves it,
    which is proved); a maintenance command is exactly one command for the shell; the PeerTube
    check bans exactly the users it must, lets no address out, ends, and its log can be followed.

  \<^bold>\<open>Not modelled.\<close> The HTML templates and scripts (presentation); the clients of Proxmox, PBS, UniFi,
  IPMI, Prometheus and the AI service and the notification senders (network calls to services
  outside the repository); the installation scripts of the single applications (\<^verbatim>\<open>apps/\<close> other than
  \<^verbatim>\<open>utils.py\<close>), which are sequences of shell commands whose effect is that of the host; the
  Mastodon statistics pages, which run SQL on a server and show its rows,
  and the pages of the moderation tab that only show rows; the fields of Mastodon entities that are
  only shown; the assistant, the dashboards and the host, service and terminal pages, which render
  queries; the encryption of stored credentials
  (\<^verbatim>\<open>auth/credential_store.py\<close>), a wrapper of the \<^verbatim>\<open>cryptography\<close> package. Failures of the
  database outside the import are not modelled: an operation that commits is taken to commit.
\<close>

section \<open>The hub shows a guest to exactly those who may access it\<close>

lemma guest_page_safe:
  assumes "0 \<le> n" "n < 2 ^ 63"
  shows "is_safe_relative_page (''/guests/'' @ py_str_int n)"
proof -
  let ?ds = "nat_digits (nat n)"
  have ds: "py_str_int n = ?ds" using assms by (simp add: py_str_int_def)
  have "length ?ds \<le> 19" using length_nat_digits[of "nat n" 18] assms by (simp add: nat_less_iff)
  moreover have "CHR 0x5C \<notin> set ?ds"
    using nat_digits_digits[of "nat n"] by (auto simp: list_all_iff ascii_digit_def code_def)
  ultimately show ?thesis by (simp add: is_safe_relative_page_def MAX_COLLAB_PAGE_LEN_def ds)
qed

text \<open>A hub entry that carries the viewer's current role and tags, and the guests it admits.\<close>

definition entry_current :: "db \<Rightarrow> user \<Rightarrow> hub_user \<Rightarrow> bool" where
  "entry_current d v hv \<longleftrightarrow> h_is_admin hv = is_admin d v \<and> h_tag_ids hv = u_allowed_tags v"

definition admits :: "hub_user \<Rightarrow> guest \<Rightarrow> bool" where
  "admits hv g \<longleftrightarrow> h_is_admin hv \<or> set (g_tags g) \<inter> set (h_tag_ids hv) \<noteq> {}"

lemma stream_entry_current:
  assumes "collab_stream qid now clk v page a = (Collab_ok, a')"
  shows "\<exists>hv. map_of (a_hub a') (u_id v) = Some hv \<and> entry_current (a_db a) v hv"
  using assms
  by (auto simp: collab_stream_def connect_def map_of_push_presence dict_simps entry_current_def enqueue_def
      split: if_splits option.splits)

lemma current_admits:
  "roles_ok d \<Longrightarrow> entry_current d v hv \<Longrightarrow> admits hv g \<longleftrightarrow> may_access_guest d v g"
  by (simp add: admits_def entry_current_def may_access_guest_iff)

definition guest_action :: "int \<Rightarrow> log_entry \<Rightarrow> bool" where
  "guest_action gid l \<longleftrightarrow> l_resource_type l = ''guest'' \<and> l_resource_id l = Some gid \<and> l_audience l = None \<and>
     l_action l \<notin> set NO_BROADCAST_ACTIONS"

lemma guest_event_delivery:
  assumes "get_guest (a_db a) gid = Some g" "map_of (a_hub a) vid = Some hv" "guest_action gid l"
  shows "map_option h_queue (map_of (a_hub (log_action q l a)) vid) =
           Some (if admits hv g
                 then put_nowait HUB_QUEUE_SIZE (Event (strip_routing (activity_payload (a_db (log_action q l a)) q l))) (h_queue hv)
                 else h_queue hv)"
proof -
  let ?d' = "(a_db a)\<lparr>d_audit := d_audit (a_db a) @ [audit_row q l]\<rparr>"
  let ?ev = "activity_payload ?d' q l"
  have "get_guest ?d' gid = Some g" using assms(1) by (simp add: get_guest_def)
  then have "event_tags ?ev = Some (g_tags g)" and "\<not> event_moderators_only ?ev"
    using assms(3) by (simp_all add: guest_action_def activity_payload_tags activity_payload_moderators)
  then have "receives ?ev hv \<longleftrightarrow> admits hv g" by (auto simp: receives_def admits_def)
  moreover have "a_hub (log_action q l a) = broadcast ?ev (a_hub a)" "a_db (log_action q l a) = ?d'"
    using assms(3) by (simp_all add: guest_action_def log_action_def Let_def)
  ultimately show ?thesis using assms(2) by (auto simp: map_of_broadcast enqueue_def)
qed

lemma AList_update_at: "k \<notin> fst ` set A \<Longrightarrow> AList.update k v (A @ (k, u) # B) = A @ (k, v) # B"
  by (induction A) auto

lemma online_users_append:
  "get_online_users now adm vs me (A @ B) = get_online_users now adm vs me A @ get_online_users now adm vs me B"
  by (simp add: get_online_users_def)

lemma online_users_enqueue:
  "get_online_users now adm vs me (map (\<lambda>(uid, u). (uid, enqueue (f uid u) u)) h) = get_online_users now adm vs me h"
  by (induction h) (auto simp: get_online_users_def enqueue_def)

lemma online_users_push: "get_online_users now adm vs me (push_presence clk h) = get_online_users now adm vs me h"
  unfolding push_presence_def by (rule online_users_enqueue)

text \<open>What a presence list says of a user who looks at a page.\<close>

definition visit :: "hub_user \<Rightarrow> string \<Rightarrow> presence" where
  "visit hw page = \<lparr>p_username = h_username hw, p_display_name = h_display_name hw, p_page = page, p_following = None\<rparr>"

lemma online_visit:
  assumes "me \<noteq> Some k"
  shows "get_online_users t adm (Some vs) me
      [(k, hw\<lparr>h_page := page, h_page_tag_ids := Some ts, h_following := None, h_last_seen := now\<rparr>)] =
    (if t - now < PRESENCE_TIMEOUT
     then [visit hw (if adm \<or> set ts \<inter> set vs \<noteq> {} then page else ''/'')] else [])"
  using assms by (auto simp: get_online_users_def page_visible_def visit_def)

lemma heartbeat_hub:
  assumes "0 \<le> gid" "gid < 2 ^ 63" "get_guest (a_db a) gid = Some g" "page = ''/guests/'' @ py_str_int gid"
    and "a_hub a = A @ (u_id w, hw) # B" "u_id w \<notin> fst ` set A"
    and "a' = snd (collab_presence now clk w page None a)"
  shows "a_db a' = a_db a" "a_hub a' = push_presence clk
    (A @ (u_id w, hw\<lparr>h_page := page, h_page_tag_ids := Some (g_tags g), h_following := None, h_last_seen := now\<rparr>) # B)"
proof -
  have "page_tag_ids (a_db a) page = Some (Some (g_tags g))" "is_safe_relative_page page"
    using guest_page_resolves[OF assms(1,2)] guest_page_safe[OF assms(1,2)] assms(3,4)
    by (simp_all add: page_tag_ids_def)
  moreover have "map_of A (u_id w) = None" using assms(6) by (simp add: map_of_eq_None_iff)
  then have "map_of (a_hub a) (u_id w) = Some hw" using assms(5) by (simp add: map_add_def)
  ultimately show "a_db a' = a_db a" "a_hub a' = push_presence clk
    (A @ (u_id w, hw\<lparr>h_page := page, h_page_tag_ids := Some (g_tags g), h_following := None, h_last_seen := now\<rparr>) # B)"
    using assms(5-7) by (simp_all add: collab_presence_def update_presence_def opt_str_def AList_update_at)
qed

lemma presence_after_heartbeat:
  assumes "roles_ok (a_db a)" "0 \<le> gid" "gid < 2 ^ 63" "get_guest (a_db a) gid = Some g" "page = ''/guests/'' @ py_str_int gid"
    and "a_hub a = A @ (u_id w, hw) # B" "u_id w \<notin> fst ` set A"
    and "a' = snd (collab_presence now clk w page None a)"
  shows "stream_snapshot now v a' =
      (let see = get_online_users now (is_admin (a_db a) v) (Some (u_allowed_tags v)) None
       in see A @ [visit hw (if may_access_guest (a_db a) v g then page else ''/'')] @ see B)"
    and "map_of (a_hub a) vid = Some hv \<Longrightarrow> vid \<noteq> u_id w \<Longrightarrow> map_option h_queue (map_of (a_hub a') vid) =
      Some (put_nowait HUB_QUEUE_SIZE
        (Presence (let see = get_online_users (clk vid) (h_is_admin hv) (Some (h_tag_ids hv)) (Some vid)
           in see A @ (if clk vid - now < PRESENCE_TIMEOUT then [visit hw (if admits hv g then page else ''/'')] else []) @ see B))
        (h_queue hv))"
proof -
  note hub = heartbeat_hub[OF assms(2-8)]
  have split: "get_online_users t adm vs me (A @ x # B) =
      get_online_users t adm vs me A @ get_online_users t adm vs me [x] @ get_online_users t adm vs me B" for t adm vs me x
    using online_users_append[of t adm vs me A "[x] @ B"] online_users_append[of t adm vs me "[x]" B] by simp
  show "stream_snapshot now v a' =
      (let see = get_online_users now (is_admin (a_db a) v) (Some (u_allowed_tags v)) None
       in see A @ [visit hw (if may_access_guest (a_db a) v g then page else ''/'')] @ see B)"
    by (simp add: stream_snapshot_def hub online_users_push split online_visit may_access_guest_iff[OF assms(1)]
        PRESENCE_TIMEOUT_def Let_def)
  show "map_option h_queue (map_of (a_hub a') vid) =
      Some (put_nowait HUB_QUEUE_SIZE
        (Presence (let see = get_online_users (clk vid) (h_is_admin hv) (Some (h_tag_ids hv)) (Some vid)
           in see A @ (if clk vid - now < PRESENCE_TIMEOUT then [visit hw (if admits hv g then page else ''/'')] else []) @ see B))
        (h_queue hv))" if "map_of (a_hub a) vid = Some hv" "vid \<noteq> u_id w"
  proof -
    have "map_of (A @ (u_id w, x) # B) vid = Some hv" for x using that assms(6) by (simp add: map_add_def split: option.splits)
    then show ?thesis
      using that(2) unfolding hub(2) map_of_push_presence Let_def
      by (simp add: enqueue_def split online_visit admits_def)
  qed
qed

text \<open>
  C4. The collaboration hub respects guest access across the components.

  The hub decides by its entries: an entry admits a guest when it carries the administrator tier or a
  tag of the guest. The entry made when a user opens his stream carries his role and tags of that time,
  and an entry that carries the current ones admits exactly the guests its user may access.

  When an action on a guest is logged and broadcast, every queue whose entry admits the guest is offered
  the event without its routing keys (a full queue drops it) and every other queue stays as it is. When
  another user's heartbeat reports the page of the guest, both the snapshot a viewer gets when he opens
  his stream and the list pushed to every connected entry have one record of that user, in his place
  among the others; it shows the page if the viewer may access the guest, or the entry admits it, and
  the start page otherwise.
\<close>

theorem hub_respects_guest_access:
  assumes "roles_ok (a_db a)" "0 \<le> gid" "gid < 2 ^ 63" "get_guest (a_db a) gid = Some g" "page = ''/guests/'' @ py_str_int gid"
  shows "(\<forall>qid now clk v p a'. collab_stream qid now clk v p a = (Collab_ok, a') \<longrightarrow>
            (\<exists>hv. map_of (a_hub a') (u_id v) = Some hv \<and> entry_current (a_db a) v hv)) \<and>
         (\<forall>v hv. entry_current (a_db a) v hv \<longrightarrow> (admits hv g \<longleftrightarrow> may_access_guest (a_db a) v g)) \<and>
         (\<forall>vid hv l q. map_of (a_hub a) vid = Some hv \<and> guest_action gid l \<longrightarrow>
            map_option h_queue (map_of (a_hub (log_action q l a)) vid) =
              Some (if admits hv g
                    then put_nowait HUB_QUEUE_SIZE (Event (strip_routing (activity_payload (a_db (log_action q l a)) q l))) (h_queue hv)
                    else h_queue hv)) \<and>
         (\<forall>A w hw B now clk a'. a_hub a = A @ (u_id w, hw) # B \<and> u_id w \<notin> fst ` set A \<and>
            a' = snd (collab_presence now clk w page None a) \<longrightarrow>
            (\<forall>v. stream_snapshot now v a' =
               (let see = get_online_users now (is_admin (a_db a) v) (Some (u_allowed_tags v)) None
                in see A @ [visit hw (if may_access_guest (a_db a) v g then page else ''/'')] @ see B)) \<and>
            (\<forall>vid hv. map_of (a_hub a) vid = Some hv \<and> vid \<noteq> u_id w \<longrightarrow>
               map_option h_queue (map_of (a_hub a') vid) = Some (put_nowait HUB_QUEUE_SIZE
                 (Presence (let see = get_online_users (clk vid) (h_is_admin hv) (Some (h_tag_ids hv)) (Some vid)
                    in see A @ (if clk vid - now < PRESENCE_TIMEOUT then [visit hw (if admits hv g then page else ''/'')] else [])
                         @ see B)) (h_queue hv))))"
proof (intro conjI allI impI, goal_cases)
  case (3 vid hv l q)
  then show ?case using guest_event_delivery[OF assms(4)] by blast
next
  case (4 A w hw B now clk a' v)
  then show ?case using presence_after_heartbeat(1)[OF assms] by blast
next
  case (5 A w hw B now clk a' vid hv)
  then show ?case using presence_after_heartbeat(2)[OF assms] by blast
qed (rule stream_entry_current current_admits[OF assms(1)]; assumption)+

text \<open>
  An application with one guest and two users on the hub: a viewer with a tag of the guest and one
  without.
\<close>

definition shared_app :: app where
  "shared_app = \<lparr>a_db = scoped_db,
     a_hub = connect 1 0 (\<lambda>_. 0) 6 ''sam'' ''Sam'' ''/'' False (Some []) False None
       (connect 1 0 (\<lambda>_. 0) 5 ''omar'' ''Omar'' ''/'' True (Some []) False None [])\<rparr>"

theorem hub_respects_guest_access_witness:
  "let a' = snd (collab_presence 0 (\<lambda>_. 0) ((hd (d_users scoped_db))\<lparr>u_id := 5\<rparr>) ''/guests/1'' None shared_app) in
   map p_page (stream_snapshot 0 (hd (d_users scoped_db)) a') = [''/guests/1'', ''/''] \<and>
   (\<exists>q ps. map_option h_queue (map_of (a_hub a') 6) = Some (q @ [Presence ps]) \<and> map p_page ps = [''/'', ''/''])"
proof -
  let ?v = "hd (d_users scoped_db)" and ?a = shared_app
  have ok: "roles_ok (a_db ?a)"
    using seeded_db_ok by (simp add: roles_ok_def shared_app_def scoped_db_def)
  obtain g where g: "get_guest (a_db ?a) 1 = Some g" "may_access_guest (a_db ?a) ?v g"
  proof -
    have "(case get_guest scoped_db 1 of None \<Rightarrow> False | Some g \<Rightarrow> may_access_guest scoped_db ?v g)"
      by code_simp
    then show ?thesis using that by (auto simp: shared_app_def split: option.splits)
  qed
  have page: "''/guests/1'' = ''/guests/'' @ py_str_int 1" by code_simp
  obtain hw hv where hub: "a_hub ?a = [] @ (5, hw) # [(6, hv)]" "map_of (a_hub ?a) 6 = Some hv" "\<not> h_is_admin hv" "h_tag_ids hv = []"
      "h_page hv = ''/''" "h_page_tag_ids hv = None" "h_last_seen hv = 0" "length (h_queue hv) < HUB_QUEUE_SIZE"
    by (simp add: shared_app_def connect_def push_presence_def enqueue_def put_nowait_def HUB_QUEUE_SIZE_def)
  define a' where "a' = snd (collab_presence 0 (\<lambda>_. 0) (?v\<lparr>u_id := 5\<rparr>) ''/guests/1'' None ?a)"
  note all = hub_respects_guest_access[OF ok _ _ g(1) page, THEN conjunct2, THEN conjunct2, THEN conjunct2, rule_format,
      of "[]" "?v\<lparr>u_id := 5\<rparr>" hw "[(6, hv)]" a' 0 "\<lambda>_. 0"]
  have "map p_page (stream_snapshot 0 ?v a') = [''/guests/1'', ''/'']"
    using all[THEN conjunct1, rule_format, of ?v] hub(1,5,6,7) g(2) a'_def
    by (simp add: get_online_users_def visit_def page_visible_def PRESENCE_TIMEOUT_def Let_def)
  moreover obtain ps where "map_option h_queue (map_of (a_hub a') 6) = Some (h_queue hv @ [Presence ps])" "map p_page ps = [''/'', ''/'']"
    using all[THEN conjunct2, rule_format, of 6 hv] hub a'_def
    by (auto simp: get_online_users_def visit_def page_visible_def PRESENCE_TIMEOUT_def Let_def admits_def put_nowait_def)
  ultimately show ?thesis unfolding Let_def a'_def by (intro conjI exI)
qed

end
